(* ===== verification/Prelude.thy ===== *)
theory Prelude
  imports Main
begin

text \<open>
  What every component of the development shares.

  Python code either returns or raises. The model of a fallible function has type
  \<open>'a py\<close>: \<open>Inl e\<close> is the raised exception, \<open>Inr x\<close> the returned value, and
  \<open>py_bind\<close> sequences two such computations as two statements do: the second runs
  only if the first returned. \<open>HTTPException c d\<close> is FastAPI's exception with status
  code \<open>c\<close>; \<open>d\<close> is the fixed text its \<open>detail\<close> starts with (the interpolated
  amounts are presentation and are left out).

  Database tables are lists of rows in insertion order, updated by \<open>update_where\<close>.
\<close>

section \<open>Exceptions and sequencing\<close>

datatype py_exc =
    HTTPException nat string
  | AttributeError
  | KeyError
  | ValueError
  | TypeError
  | LookupError
  | InvalidOperation
  | IntegrityError
  | MultipleResultsFound
  | UnknownStepTypeError string
  | NonCanonicalStepTypeError string
  | PlanChangeError string
  | InternationalPaymentError
  | DataError
  | RemoteError string

type_synonym 'a py = "py_exc + 'a"

definition py_bind :: "'a py \<Rightarrow> ('a \<Rightarrow> 'b py) \<Rightarrow> 'b py" where
  "py_bind m f = (case m of Inl e \<Rightarrow> Inl e | Inr x \<Rightarrow> f x)"

definition py_guard :: "bool \<Rightarrow> py_exc \<Rightarrow> unit py" where
  "py_guard refused e = (if refused then Inl e else Inr ())"

lemma py_bind_simps [simp]:
  "py_bind (Inl e) f = Inl e"
  "py_bind (Inr x) f = f x"
  by (simp_all add: py_bind_def)

lemma py_bind_eq_Inr [simp]:
  "py_bind m f = Inr y \<longleftrightarrow> (\<exists>x. m = Inr x \<and> f x = Inr y)"
  by (cases m) auto

lemma py_bind_eq_Inl:
  "py_bind m f = Inl e \<longleftrightarrow> m = Inl e \<or> (\<exists>x. m = Inr x \<and> f x = Inl e)"
  by (cases m) auto

lemma py_guard_simps [simp]:
  "py_guard True e = Inl e"
  "py_guard False e = Inr ()"
  "py_guard c e = Inr u \<longleftrightarrow> \<not> c"
  "py_guard c e = Inl e' \<longleftrightarrow> c \<and> e' = e"
  by (auto simp: py_guard_def)

lemma py_bind_assoc: "py_bind (py_bind m f) g = py_bind m (\<lambda>x. py_bind (f x) g)"
  by (cases m) simp_all

text \<open>A list comprehension or loop whose body may raise: the first exception wins.\<close>

fun py_filter :: "('a \<Rightarrow> bool py) \<Rightarrow> 'a list \<Rightarrow> 'a list py" where
  "py_filter p [] = Inr []"
| "py_filter p (x # xs) =
     py_bind (p x) (\<lambda>keep. py_bind (py_filter p xs) (\<lambda>ys. Inr (if keep then x # ys else ys)))"

lemma py_filter_total:
  "(\<And>x. x \<in> set xs \<Longrightarrow> p x = Inr (q x)) \<Longrightarrow> py_filter p xs = Inr (filter q xs)"
  by (induction xs) auto

lemma py_filter_set:
  "py_filter p xs = Inr ys \<Longrightarrow> set ys = {x \<in> set xs. p x = Inr True}"
  by (induction xs arbitrary: ys) (auto split: if_splits)

lemma py_filter_map_sublist:
  "py_filter p xs = Inr ys \<Longrightarrow> length ys \<le> length xs"
  by (induction xs arbitrary: ys) (auto split: if_splits intro: le_SucI)

lemma py_filter_Inr: "py_filter p xs = Inr ys \<Longrightarrow> ys = filter (\<lambda>x. p x = Inr True) xs"
  by (induction xs arbitrary: ys) (auto split: if_splits)

lemma py_filter_Inl: "py_filter p xs = Inl e \<Longrightarrow> \<exists>x \<in> set xs. p x = Inl e"
  by (induction xs) (auto simp: py_bind_eq_Inl split: if_splits)

section \<open>Options that stand for \<open>None\<close> and for a missing dictionary key\<close>

definition get_or :: "'a option \<Rightarrow> 'a \<Rightarrow> 'a" where
  "get_or m d = (case m of None \<Rightarrow> d | Some x \<Rightarrow> x)"

lemma get_or_simps [simp]: "get_or None d = d" "get_or (Some x) d = x"
  by (simp_all add: get_or_def)

section \<open>Tables\<close>

definition update_where :: "('r \<Rightarrow> bool) \<Rightarrow> ('r \<Rightarrow> 'r) \<Rightarrow> 'r list \<Rightarrow> 'r list" where
  "update_where p f rows = map (\<lambda>r. if p r then f r else r) rows"

definition delete_where :: "('r \<Rightarrow> bool) \<Rightarrow> 'r list \<Rightarrow> 'r list" where
  "delete_where p rows = filter (\<lambda>r. \<not> p r) rows"

lemma length_update_where [simp]: "length (update_where p f rows) = length rows"
  by (simp add: update_where_def)

lemma set_update_where:
  "set (update_where p f rows) = {r \<in> set rows. \<not> p r} \<union> f ` {r \<in> set rows. p r}"
  by (auto simp: update_where_def)

lemma update_where_none: "(\<And>r. r \<in> set rows \<Longrightarrow> \<not> p r) \<Longrightarrow> update_where p f rows = rows"
  by (simp add: update_where_def map_idI)

lemma map_update_where_frame:
  "(\<And>r. g (f r) = g r) \<Longrightarrow> map g (update_where p f rows) = map g rows"
  by (simp add: update_where_def)

lemma update_where_append [simp]:
  "update_where p f (xs @ ys) = update_where p f xs @ update_where p f ys"
  by (simp add: update_where_def)

lemma set_delete_where [simp]: "set (delete_where p rows) = {r \<in> set rows. \<not> p r}"
  by (auto simp: delete_where_def)

lemma find_Some_props: "find p rows = Some r \<Longrightarrow> r \<in> set rows \<and> p r"
  by (induction rows) (auto split: if_splits)

lemma find_None_iff_all: "find p rows = None \<longleftrightarrow> (\<forall>r \<in> set rows. \<not> p r)"
  by (induction rows) auto

lemma sort_key_Nil_iff [simp]: "sort_key f xs = [] \<longleftrightarrow> xs = []"
  by (metis set_empty2 set_sort)

section \<open>The first value present\<close>

fun first_some :: "'a option list \<Rightarrow> 'a option" where
  "first_some [] = None"
| "first_some (None # xs) = first_some xs"
| "first_some (Some x # xs) = Some x"

lemma first_some_None: "first_some xs = None \<longleftrightarrow> (\<forall>x \<in> set xs. x = None)"
  by (induction xs rule: first_some.induct) auto

lemma first_some_in: "first_some xs = Some x \<Longrightarrow> Some x \<in> set xs"
  by (induction xs rule: first_some.induct) auto

section \<open>Step systems\<close>

text \<open>
  The interface between a component whose operations change its state and the argument
  that a property holds in every state it can reach: the initial states, the steps, and
  the invariant the component's own lemmas show each step keeps.
\<close>

locale step_system =
  fixes start :: "'s \<Rightarrow> bool"
    and move :: "'s \<Rightarrow> 's \<Rightarrow> bool"
    and keeps :: "'s \<Rightarrow> bool"
  assumes start_keeps: "start s \<Longrightarrow> keeps s"
    and move_keeps: "keeps s \<Longrightarrow> move s t \<Longrightarrow> keeps t"
begin

inductive reached :: "'s \<Rightarrow> bool" where
  reached_start: "start s \<Longrightarrow> reached s"
| reached_move: "reached s \<Longrightarrow> move s t \<Longrightarrow> reached t"

lemma reached_keeps: "reached s \<Longrightarrow> keeps s"
  by (induction rule: reached.induct) (auto intro: start_keeps move_keeps)

lemma runs_keep: "move\<^sup>*\<^sup>* s t \<Longrightarrow> keeps s \<Longrightarrow> keeps t"
  by (induction rule: rtranclp_induct) (auto intro: move_keeps)

end

end
