(* ===== verification/Py_Text.thy ===== *)
theory Py_Text
  imports Prelude "HOL-Library.Char_ord"
begin

text \<open>
  The string operations the code uses, on ASCII text (a \<open>char\<close> is one code point):
  \<open>strip\<close>, \<open>upper\<close>, \<open>lower\<close>, \<open>startswith\<close>, \<open>endswith\<close>, \<open>replace\<close> of a substring
  by the empty string, decimal digits and \<open>str\<close> of a natural number.
\<close>

abbreviation code :: "char \<Rightarrow> nat" where
  "code c \<equiv> of_char c"

definition is_space :: "char \<Rightarrow> bool" where
  "is_space c \<longleftrightarrow> code c = 32 \<or> (9 \<le> code c \<and> code c \<le> 13) \<or> (28 \<le> code c \<and> code c \<le> 31)"

definition is_digit :: "char \<Rightarrow> bool" where
  "is_digit c \<longleftrightarrow> 48 \<le> code c \<and> code c \<le> 57"

definition upper_char :: "char \<Rightarrow> char" where
  "upper_char c = (if 97 \<le> code c \<and> code c \<le> 122 then char_of (code c - 32) else c)"

definition lower_char :: "char \<Rightarrow> char" where
  "lower_char c = (if 65 \<le> code c \<and> code c \<le> 90 then char_of (code c + 32) else c)"

definition py_strip :: "string \<Rightarrow> string" where
  "py_strip s = rev (dropWhile is_space (rev (dropWhile is_space s)))"

definition py_upper :: "string \<Rightarrow> string" where
  "py_upper = map upper_char"

definition py_lower :: "string \<Rightarrow> string" where
  "py_lower = map lower_char"

definition starts_with :: "string \<Rightarrow> string \<Rightarrow> bool" where
  "starts_with p s \<longleftrightarrow> take (length p) s = p"

definition ends_with :: "string \<Rightarrow> string \<Rightarrow> bool" where
  "ends_with p s \<longleftrightarrow> starts_with (rev p) (rev s)"

text \<open>\<open>s.replace(p, "")\<close>, scanning from the left.\<close>

function remove_sub :: "string \<Rightarrow> string \<Rightarrow> string" where
  "remove_sub p s =
     (if s = [] \<or> p = [] then s
      else if starts_with p s then remove_sub p (drop (length p) s)
      else hd s # remove_sub p (tl s))"
  by pat_completeness auto
termination
  by (relation "measure (\<lambda>(p, s). length s)") (auto simp: neq_Nil_conv)

declare remove_sub.simps [simp del]

lemma remove_sub_absent: "c \<in> set p \<Longrightarrow> c \<notin> set s \<Longrightarrow> remove_sub p s = s"
proof (induction p s rule: remove_sub.induct)
  case (1 p s)
  show ?case
  proof (cases "s = []")
    case True
    then show ?thesis by (simp add: remove_sub.simps)
  next
    case False
    then obtain x xs where s: "s = x # xs" by (cases s) auto
    have ns: "\<not> starts_with p s"
    proof
      assume "starts_with p s"
      then have "set p \<subseteq> set s" by (metis starts_with_def set_take_subset)
      with "1.prems" show False by auto
    qed
    have "remove_sub p xs = xs"
      using "1.IH"(2) ns s "1.prems" by (cases p) auto
    then show ?thesis using s ns "1.prems" by (subst remove_sub.simps) auto
  qed
qed

text \<open>Case mapping and stripping commute, and both are idempotent.\<close>

lemma upper_char_idem [simp]: "upper_char (upper_char c) = upper_char c"
  by (auto simp: upper_char_def)

lemma is_space_upper [simp]: "is_space (upper_char c) = is_space c"
  by (auto simp: upper_char_def is_space_def)

lemma py_upper_idem [simp]: "py_upper (py_upper s) = py_upper s"
  by (simp add: py_upper_def comp_def)

lemma dropWhile_map_space: "dropWhile is_space (map upper_char s) = map upper_char (dropWhile is_space s)"
  by (induction s) auto

lemma py_strip_upper: "py_strip (py_upper s) = py_upper (py_strip s)"
  by (simp add: py_strip_def py_upper_def dropWhile_map_space rev_map)

lemma last_dropWhile_eq: "dropWhile P xs \<noteq> [] \<Longrightarrow> last (dropWhile P xs) = last xs"
  by (induction xs) (auto split: if_splits)

lemma py_strip_fixed:
  assumes "s = [] \<or> (\<not> is_space (hd s) \<and> \<not> is_space (last s))"
  shows "py_strip s = s"
proof (cases "s = []")
  case True
  then show ?thesis by (simp add: py_strip_def)
next
  case False
  with assms have "dropWhile is_space s = s" and "dropWhile is_space (rev s) = rev s"
    by (auto simp: dropWhile_eq_self_iff hd_rev)
  then show ?thesis by (simp add: py_strip_def)
qed

lemma py_strip_ends: "py_strip s = [] \<or> (\<not> is_space (hd (py_strip s)) \<and> \<not> is_space (last (py_strip s)))"
proof (cases "py_strip s = []")
  case False
  define t where "t = dropWhile is_space s"
  define r where "r = dropWhile is_space (rev t)"
  have r: "r \<noteq> []" and ps: "py_strip s = rev r"
    using False by (auto simp: py_strip_def t_def r_def)
  then have t: "t \<noteq> []" by (auto simp: r_def)
  have "\<not> is_space (hd r)" using r by (metis hd_dropWhile r_def)
  moreover have "last r = hd t" using r t by (simp add: r_def last_dropWhile_eq last_rev)
  moreover have "\<not> is_space (hd t)" using t by (metis hd_dropWhile t_def)
  ultimately show ?thesis using r by (simp add: ps hd_rev last_rev)
qed simp

lemma py_strip_idem [simp]: "py_strip (py_strip s) = py_strip s"
  by (rule py_strip_fixed) (rule py_strip_ends)

text \<open>Normalised currency and method codes: \<open>x.strip().upper()\<close>.\<close>

definition norm_code :: "string \<Rightarrow> string" where
  "norm_code s = py_upper (py_strip s)"

lemma norm_code_idem [simp]: "norm_code (norm_code s) = norm_code s"
  by (simp add: norm_code_def py_strip_upper)

section \<open>Decimal digits\<close>

definition digits_val :: "string \<Rightarrow> nat" where
  "digits_val s = foldl (\<lambda>n c. 10 * n + (code c - 48)) 0 s"

fun nat_str :: "nat \<Rightarrow> string" where
  "nat_str n = (if n < 10 then [char_of (48 + n)] else nat_str (n div 10) @ [char_of (48 + n mod 10)])"

declare nat_str.simps [simp del]

definition int_str :: "int \<Rightarrow> string" where
  "int_str i = (if i < 0 then CHR ''-'' # nat_str (nat (- i)) else nat_str (nat i))"

lemma is_digit_char_of [simp]: "(d::nat) < 10 \<Longrightarrow> is_digit (char_of (48 + d))"
  by (simp add: is_digit_def)

lemma nat_str_digits: "c \<in> set (nat_str n) \<Longrightarrow> is_digit c"
proof (induction n rule: nat_str.induct)
  case (1 n)
  then show ?case by (subst (asm) nat_str.simps) (auto split: if_splits)
qed

lemma digits_val_snoc: "digits_val (s @ [c]) = 10 * digits_val s + (code c - 48)"
  by (simp add: digits_val_def)

lemma digits_val_nat_str [simp]: "digits_val (nat_str n) = n"
proof (induction n rule: nat_str.induct)
  case (1 n)
  show ?case
  proof (cases "n < 10")
    case True
    then show ?thesis by (subst nat_str.simps) (simp add: digits_val_def)
  next
    case False
    have "n mod 10 + 48 < 256" using mod_less_divisor [of 10 n] by simp
    with False "1.IH" show ?thesis
      by (subst nat_str.simps) (simp add: digits_val_snoc)
  qed
qed

lemma nat_str_inj: "nat_str m = nat_str n \<Longrightarrow> m = n"
  by (metis digits_val_nat_str)

text \<open>A number formatted with \<open>:0wd\<close>.\<close>

definition zero_padded :: "nat \<Rightarrow> nat \<Rightarrow> string" where
  "zero_padded w n = (let s = nat_str n in replicate (w - length s) (CHR ''0'') @ s)"

lemma digits_val_zeros [simp]: "digits_val (replicate k (CHR ''0'') @ s) = digits_val s"
  by (induction k) (simp_all add: digits_val_def)

lemma zero_padded_inj: "zero_padded w m = zero_padded w n \<Longrightarrow> m = n"
  by (metis digits_val_nat_str digits_val_zeros zero_padded_def)

end
