(* ===== verification/Py_Decimal.thy ===== *)
theory Py_Decimal
  imports Py_Text Complex_Main
begin

text \<open>
  Python's \<open>decimal.Decimal\<close> in the default context (28 significant digits,
  ROUND_HALF_EVEN), as the repository uses it for money.

  A finite \<open>Decimal\<close> is its value, a rational: the code compares, adds and quantizes
  values and never looks at trailing zeros. The three special values are constructors
  of their own (a signalling NaN behaves as the quiet one on every path modelled here).
  \<open>quantize_half_up\<close> is \<open>x.quantize(Decimal(1).scaleb(-s), ROUND_HALF_UP)\<close> with its
  InvalidOperation when the result needs more than 28 digits, \<open>ctx_round\<close> the rounding
  an arithmetic result goes through, and \<open>parse_decimal\<close> the constructor on text.

  Money columns are NUMERIC(15,2), so sums, differences and negations of the amounts the
  model handles need far fewer than 28 digits and are exact; products and quotients go
  through \<open>ctx_round\<close>.
\<close>

section \<open>Values\<close>

datatype decimal = Fin rat | PosInf | NegInf | NaN

primrec is_finite :: "decimal \<Rightarrow> bool" where
  "is_finite (Fin x) = True"
| "is_finite PosInf = False"
| "is_finite NegInf = False"
| "is_finite NaN = False"

lemma is_finite_iff: "is_finite d \<longleftrightarrow> (\<exists>x. d = Fin x)"
  by (cases d) simp_all

text \<open>The ordering comparisons raise InvalidOperation when an operand is a NaN.\<close>

fun dec_less :: "decimal \<Rightarrow> decimal \<Rightarrow> bool py" where
  "dec_less NaN _ = Inl InvalidOperation"
| "dec_less _ NaN = Inl InvalidOperation"
| "dec_less (Fin x) (Fin y) = Inr (x < y)"
| "dec_less NegInf NegInf = Inr False"
| "dec_less NegInf _ = Inr True"
| "dec_less _ NegInf = Inr False"
| "dec_less PosInf _ = Inr False"
| "dec_less _ PosInf = Inr True"

abbreviation dec_greater :: "decimal \<Rightarrow> decimal \<Rightarrow> bool py" where
  "dec_greater x y \<equiv> dec_less y x"

lemma dec_less_total: "x \<noteq> NaN \<Longrightarrow> y \<noteq> NaN \<Longrightarrow> \<exists>b. dec_less x y = Inr b"
  by (cases x; cases y) auto

section \<open>Rounding to an integer\<close>

definition half_up :: "rat \<Rightarrow> int" where
  "half_up x = (if 0 \<le> x then \<lfloor>x + 1/2\<rfloor> else - \<lfloor>- x + 1/2\<rfloor>)"

definition half_even :: "rat \<Rightarrow> int" where
  "half_even x =
     (let f = \<lfloor>x\<rfloor>; d = x - of_int f
      in if d < 1/2 then f else if d > 1/2 then f + 1 else if even f then f else f + 1)"

lemma half_up_of_int [simp]: "half_up (of_int n) = n"
proof -
  have "\<lfloor>(of_int n :: rat) + 1/2\<rfloor> = n" and "\<lfloor>- (of_int n :: rat) + 1/2\<rfloor> = - n"
    by (simp_all add: floor_eq_iff)
  then show ?thesis by (simp add: half_up_def)
qed

lemma half_even_of_int [simp]: "half_even (of_int n) = n"
  by (simp add: half_even_def)

lemma half_up_minus: "half_up (- x) = - half_up x"
proof (cases "x = 0")
  case True
  then show ?thesis using half_up_of_int [of 0] by simp
next
  case False
  then show ?thesis by (auto simp: half_up_def)
qed

lemma half_up_error: "\<bar>of_int (half_up x) - x\<bar> \<le> 1/2"
proof -
  have f: "\<bar>of_int \<lfloor>y + 1/2\<rfloor> - y\<bar> \<le> 1/2" for y :: rat
    by linarith
  show ?thesis using f [of x] f [of "- x"]
    by (simp add: half_up_def abs_minus_commute add.commute)
qed

lemma half_up_mono: "x \<le> y \<Longrightarrow> half_up x \<le> half_up y"
proof (cases "0 \<le> x \<or> y < 0")
  case True
  assume "x \<le> y"
  with True show ?thesis by (auto simp: half_up_def intro!: floor_mono)
next
  case False
  then have x: "x < 0" and y: "0 \<le> y" by simp_all
  have "0 \<le> \<lfloor>- x + 1/2\<rfloor>" and "0 \<le> \<lfloor>y + 1/2\<rfloor>" using x y by simp_all
  then have "- \<lfloor>- x + 1/2\<rfloor> \<le> \<lfloor>y + 1/2\<rfloor>" by linarith
  then show ?thesis using x y by (simp add: half_up_def)
qed

lemma half_up_nonneg: "0 \<le> x \<Longrightarrow> 0 \<le> half_up x"
  using half_up_mono [of 0 x] half_up_of_int [of 0] by simp

lemma half_even_le:
  assumes "x \<le> of_int n" shows "half_even x \<le> n"
proof -
  have "\<lfloor>x\<rfloor> \<le> n" using assms by linarith
  moreover have "\<lfloor>x\<rfloor> < n" if "x \<noteq> of_int \<lfloor>x\<rfloor>" using that assms by linarith
  ultimately show ?thesis by (auto simp: half_even_def Let_def)
qed

lemma half_even_ge:
  assumes "of_int n \<le> x" shows "n \<le> half_even x"
proof -
  have "n \<le> \<lfloor>x\<rfloor>" using assms by linarith
  then show ?thesis by (auto simp: half_even_def Let_def)
qed

section \<open>quantize\<close>

definition round_half_up :: "nat \<Rightarrow> rat \<Rightarrow> rat" where
  "round_half_up s x = of_int (half_up (x * 10 ^ s)) / 10 ^ s"

definition quantize_half_up :: "nat \<Rightarrow> decimal \<Rightarrow> decimal py" where
  "quantize_half_up s d =
     (case d of
        Fin x \<Rightarrow>
          if \<bar>half_up (x * 10 ^ s)\<bar> < 10 ^ 28 then Inr (Fin (round_half_up s x))
          else Inl InvalidOperation
      | NaN \<Rightarrow> Inr NaN
      | _ \<Rightarrow> Inl InvalidOperation)"

text \<open>Values with at most \<open>s\<close> decimals: what a NUMERIC(_,s) column holds.\<close>

definition has_scale :: "nat \<Rightarrow> rat \<Rightarrow> bool" where
  "has_scale s x \<longleftrightarrow> x * 10 ^ s \<in> \<int>"

lemma has_scale_iff: "has_scale s x \<longleftrightarrow> (\<exists>n. x = of_int n / 10 ^ s)"
  by (auto simp: has_scale_def Ints_def field_simps)

lemma has_scaleI: "has_scale s (of_int n / 10 ^ s)"
  by (auto simp: has_scale_iff)

lemma has_scale_0 [simp]: "has_scale s 0"
  by (simp add: has_scale_def)

lemma has_scale_add: "has_scale s x \<Longrightarrow> has_scale s y \<Longrightarrow> has_scale s (x + y)"
  by (simp add: has_scale_def distrib_right)

lemma has_scale_diff: "has_scale s x \<Longrightarrow> has_scale s y \<Longrightarrow> has_scale s (x - y)"
  by (simp add: has_scale_def left_diff_distrib)

lemma has_scale_minus [simp]: "has_scale s (- x) \<longleftrightarrow> has_scale s x"
  by (simp add: has_scale_def)

lemma has_scale_of_int: "has_scale s (of_int n)"
  by (simp add: has_scale_def Ints_mult)

lemma round_half_up_scale [simp]: "has_scale s (round_half_up s x)"
  by (simp add: round_half_up_def has_scaleI)

lemma round_half_up_id [simp]: "has_scale s x \<Longrightarrow> round_half_up s x = x"
  by (auto simp: has_scale_iff round_half_up_def)

lemma round_half_up_idem: "round_half_up s (round_half_up s x) = round_half_up s x"
  by simp

lemma round_half_up_mono: "x \<le> y \<Longrightarrow> round_half_up s x \<le> round_half_up s y"
  by (simp add: round_half_up_def divide_right_mono half_up_mono)

lemma round_half_up_minus: "round_half_up s (- x) = - round_half_up s x"
  by (simp add: round_half_up_def half_up_minus)

lemma round_half_up_0 [simp]: "round_half_up s 0 = 0"
  by simp

lemma round_half_up_nonneg: "0 \<le> x \<Longrightarrow> 0 \<le> round_half_up s x"
  using round_half_up_mono [of 0 x s] by simp

lemma round_half_up_error: "\<bar>round_half_up s x - x\<bar> \<le> 1 / (2 * 10 ^ s)"
proof -
  have "round_half_up s x - x = (of_int (half_up (x * 10 ^ s)) - x * 10 ^ s) / 10 ^ s"
    by (simp add: round_half_up_def field_simps)
  then have "\<bar>round_half_up s x - x\<bar> = \<bar>of_int (half_up (x * 10 ^ s)) - x * 10 ^ s\<bar> / 10 ^ s"
    by (simp add: abs_divide)
  also have "\<dots> \<le> (1/2) / 10 ^ s"
    by (rule divide_right_mono [OF half_up_error]) simp
  finally show ?thesis by simp
qed

lemma half_up_scaled_lt:
  assumes "\<bar>x\<bar> < 10 ^ k"
  shows "\<bar>half_up (x * 10 ^ s)\<bar> \<le> 10 ^ (k + s)"
proof -
  have b: "x * 10 ^ s \<le> of_int (10 ^ (k + s))" "of_int (- (10 ^ (k + s))) \<le> x * 10 ^ s"
    using assms mult_right_mono [of x "10 ^ k" "10 ^ s"] mult_right_mono [of "- (10 ^ k)" x "10 ^ s"]
    by (simp_all add: power_add abs_less_iff)
  have "half_up (x * 10 ^ s) \<le> half_up (of_int (10 ^ (k + s)))"
    by (rule half_up_mono) (rule b(1))
  moreover have "half_up (of_int (- (10 ^ (k + s)))) \<le> half_up (x * 10 ^ s)"
    by (rule half_up_mono) (rule b(2))
  ultimately show ?thesis by (simp only: half_up_of_int abs_le_iff) simp
qed

lemma quantize_half_up_money:
  assumes "\<bar>x\<bar> < 10 ^ 25"
  shows "quantize_half_up 2 (Fin x) = Inr (Fin (round_half_up 2 x))"
proof -
  have "\<bar>half_up (x * 10 ^ 2)\<bar> \<le> 10 ^ 27"
    using half_up_scaled_lt [OF assms, of 2] by simp
  also have "(10::int) ^ 27 < 10 ^ 28" by simp
  finally show ?thesis by (simp add: quantize_half_up_def)
qed

lemma quantize_half_up_Fin_eq:
  "quantize_half_up s (Fin x) = Inr d \<Longrightarrow> d = Fin (round_half_up s x)"
  by (simp add: quantize_half_up_def split: if_splits)

lemma quantize_half_up_raises:
  "quantize_half_up s d = Inl e \<Longrightarrow> e = InvalidOperation"
  by (cases d) (auto simp: quantize_half_up_def split: if_splits)

section \<open>Context rounding: 28 significant digits, half to even\<close>

fun ndigits :: "nat \<Rightarrow> nat" where
  "ndigits n = (if n < 10 then 1 else Suc (ndigits (n div 10)))"

declare ndigits.simps [simp del]

fun leading_zeros :: "nat \<Rightarrow> rat \<Rightarrow> nat" where
  "leading_zeros 0 x = 0"
| "leading_zeros (Suc fuel) x = (if 1 \<le> x then 0 else Suc (leading_zeros fuel (10 * x)))"

text \<open>
  The exponent of the leading digit. Below one, the number of digits of the denominator
  is enough fuel to reach the first non-zero digit.
\<close>

definition adjusted :: "rat \<Rightarrow> int" where
  "adjusted x =
     (if 1 \<le> \<bar>x\<bar> then int (ndigits (nat \<lfloor>\<bar>x\<bar>\<rfloor>)) - 1
      else - int (leading_zeros (ndigits (nat (snd (quotient_of \<bar>x\<bar>)))) \<bar>x\<bar>))"

definition ctx_round :: "rat \<Rightarrow> rat" where
  "ctx_round x =
     (if x = 0 then 0
      else let e = adjusted x - 27 in of_int (half_even (x * 10 powi (- e))) * 10 powi e)"

definition ctx_mult :: "rat \<Rightarrow> rat \<Rightarrow> rat" where
  "ctx_mult x y = ctx_round (x * y)"

definition ctx_div :: "rat \<Rightarrow> rat \<Rightarrow> rat" where
  "ctx_div x y = ctx_round (x / y)"

lemma ndigits_lower: "0 < n \<Longrightarrow> 10 ^ (ndigits n - 1) \<le> n"
proof (induction n rule: ndigits.induct)
  case (1 n)
  show ?case
  proof (cases "n < 10")
    case True
    with "1.prems" show ?thesis by (subst ndigits.simps) simp
  next
    case False
    then have p: "0 < n div 10" by simp
    have d: "0 < ndigits (n div 10)" by (subst ndigits.simps) simp
    have "10 ^ ndigits (n div 10) = 10 * 10 ^ (ndigits (n div 10) - 1)"
      using d by (metis power_eq_if less_numeral_extra(3))
    also have "\<dots> \<le> 10 * (n div 10)" using "1.IH" False p by simp
    also have "\<dots> \<le> n" by simp
    finally show ?thesis using False by (subst ndigits.simps) simp
  qed
qed

lemma ndigits_upper: "n < 10 ^ ndigits n"
proof (induction n rule: ndigits.induct)
  case (1 n)
  show ?case
  proof (cases "n < 10")
    case True
    then show ?thesis by (subst ndigits.simps) simp
  next
    case False
    with "1.IH" have "n div 10 < 10 ^ ndigits (n div 10)" by simp
    then have "n < 10 * 10 ^ ndigits (n div 10)" by linarith
    with False show ?thesis by (subst ndigits.simps) simp
  qed
qed

lemma leading_zeros_reach: "1 \<le> 10 ^ fuel * x \<Longrightarrow> 1 \<le> x * 10 ^ leading_zeros fuel x"
proof (induction fuel arbitrary: x)
  case (Suc fuel)
  then have "1 \<le> 10 * x * 10 ^ leading_zeros fuel (10 * x)"
    by (intro Suc.IH) (simp add: mult_ac)
  then show ?case by (simp add: mult_ac)
qed simp

lemma quotient_of_abs_small:
  assumes "x \<noteq> 0"
  shows "1 \<le> 10 ^ ndigits (nat (snd (quotient_of \<bar>x\<bar>))) * \<bar>x\<bar>"
proof -
  obtain p q where pq: "quotient_of \<bar>x\<bar> = (p, q)" by (cases "quotient_of \<bar>x\<bar>")
  then have q: "0 < q" and x: "\<bar>x\<bar> = of_int p / of_int q"
    by (auto simp: quotient_of_denom_pos quotient_of_div)
  have "0 < \<bar>x\<bar>" using assms by simp
  then have p: "1 \<le> p" using q by (simp add: x zero_less_divide_iff)
  have "int (nat q) < 10 ^ ndigits (nat q)"
    using ndigits_upper [of "nat q"] by (metis of_nat_less_numeral_power_cancel_iff)
  then have "q \<le> 10 ^ ndigits (nat q) * 1" using q by simp
  also have "\<dots> \<le> 10 ^ ndigits (nat q) * p" using p by (rule mult_left_mono) simp
  finally have "(of_int q :: rat) \<le> of_int (10 ^ ndigits (nat q) * p)" by (simp only: of_int_le_iff)
  then have "1 \<le> 10 ^ ndigits (nat q) * ((of_int p :: rat) / of_int q)"
    using q by (simp add: field_simps)
  then show ?thesis unfolding pq snd_conv unfolding x .
qed

lemma adjusted_lower:
  assumes "x \<noteq> 0" shows "10 powi adjusted x \<le> \<bar>x\<bar>"
proof (cases "1 \<le> \<bar>x\<bar>")
  case True
  define n where "n = nat \<lfloor>\<bar>x\<bar>\<rfloor>"
  have n: "0 < n" using True by (simp add: n_def)
  have "0 < ndigits n" by (subst ndigits.simps) simp
  then have a: "adjusted x = int (ndigits n - 1)" using True by (simp add: adjusted_def n_def)
  have "(10 ^ (ndigits n - 1) :: rat) \<le> of_nat n"
    using ndigits_lower [OF n] by (metis of_nat_le_iff of_nat_numeral of_nat_power)
  also have "of_nat n \<le> \<bar>x\<bar>" by (simp add: n_def)
  finally show ?thesis by (simp add: a)
next
  case False
  then show ?thesis
    using leading_zeros_reach [OF quotient_of_abs_small [OF assms]]
    by (simp add: adjusted_def power_int_minus field_simps)
qed

lemma adjusted_minus [simp]: "adjusted (- x) = adjusted x"
  by (simp add: adjusted_def)

text \<open>A value below the precision limit has its leading digit low enough that the rounding
  position is at or below its scale.\<close>

lemma adjusted_bound:
  assumes "x \<noteq> 0" "\<bar>x\<bar> * 10 ^ s < 10 ^ 28"
  shows "adjusted x - 27 \<le> - int s"
proof -
  have "(10 :: rat) powi (adjusted x + int s) = 10 powi adjusted x * 10 ^ s"
    by (simp add: power_int_add)
  also have "\<dots> \<le> \<bar>x\<bar> * 10 ^ s"
    using adjusted_lower [OF assms(1)] by (rule mult_right_mono) simp
  finally have lt: "(10 :: rat) powi (adjusted x + int s) < 10 powi 28" using assms(2) by simp
  have "\<not> 28 \<le> adjusted x + int s"
    using power_int_increasing [of 28 "adjusted x + int s" "10 :: rat"] lt by auto
  then show ?thesis by simp
qed

lemma scaled_int:
  assumes "has_scale s x" "e \<le> - int s"
  shows "\<exists>n. x * 10 powi (- e) = of_int n"
proof -
  from assms(1) obtain c where c: "x = of_int c / 10 ^ s" by (auto simp: has_scale_iff)
  obtain k where k: "- e = int s + int k" using assms(2) zle_iff_zadd [of "int s" "- e"] by auto
  have "x * 10 powi (- e) = of_int (c * 10 ^ k)"
    unfolding k by (simp add: c power_int_add)
  then show ?thesis by blast
qed

lemma powi_cancel: "(y :: rat) * 10 powi (- e) * 10 powi e = y"
  by (simp add: power_int_minus)

lemma ctx_round_exact:
  assumes "has_scale s x" "\<bar>x\<bar> * 10 ^ s < 10 ^ 28"
  shows "ctx_round x = x"
proof (cases "x = 0")
  case False
  let ?e = "adjusted x - 27"
  obtain n where n: "x * 10 powi (- ?e) = of_int n"
    using scaled_int [OF assms(1) adjusted_bound [OF False assms(2)]] by blast
  have "ctx_round x = of_int (half_even (x * 10 powi (- ?e))) * 10 powi ?e"
    using False by (simp add: ctx_round_def Let_def)
  also have "\<dots> = x * 10 powi (- ?e) * 10 powi ?e"
    by (simp only: n half_even_of_int)
  finally show ?thesis by (simp only: powi_cancel)
qed (simp add: ctx_round_def)

lemma ctx_round_le:
  assumes "0 < y" "y \<le> d" "has_scale s d" "\<bar>d\<bar> * 10 ^ s < 10 ^ 28"
  shows "ctx_round y \<le> d"
proof -
  let ?e = "adjusted y - 27"
  have "\<bar>y\<bar> * 10 ^ s \<le> \<bar>d\<bar> * 10 ^ s" using assms(1,2) by (intro mult_right_mono) auto
  with assms(4) have "\<bar>y\<bar> * 10 ^ s < 10 ^ 28" by (rule le_less_trans [rotated])
  with assms(1) have "?e \<le> - int s" by (intro adjusted_bound) auto
  then obtain n where n: "d * 10 powi (- ?e) = of_int n" using scaled_int [OF assms(3)] by blast
  have "y * 10 powi (- ?e) \<le> of_int n"
    unfolding n [symmetric] using assms(2) by (intro mult_right_mono) (auto simp: power_int_def)
  then have "half_even (y * 10 powi (- ?e)) \<le> n" by (rule half_even_le)
  then have "of_int (half_even (y * 10 powi (- ?e))) * 10 powi ?e \<le> (of_int n :: rat) * 10 powi ?e"
    by (intro mult_right_mono) (auto simp: power_int_def)
  also have "\<dots> = d" unfolding n [symmetric] by (rule powi_cancel)
  finally show ?thesis using assms(1) by (simp add: ctx_round_def Let_def)
qed

lemma ctx_round_nonneg: "0 \<le> y \<Longrightarrow> 0 \<le> ctx_round y"
proof -
  assume "0 \<le> y"
  then have "0 \<le> half_even (y * 10 powi (- (adjusted y - 27)))"
    by (intro half_even_ge) (auto simp: power_int_def)
  then show ?thesis by (auto simp: ctx_round_def Let_def power_int_def)
qed

lemma half_even_minus: "half_even (- x) = - half_even x"
proof (cases "x = of_int \<lfloor>x\<rfloor>")
  case True
  then show ?thesis using half_even_of_int [of "\<lfloor>x\<rfloor>"] half_even_of_int [of "- \<lfloor>x\<rfloor>"]
    by (metis of_int_minus)
next
  case False
  then have f: "\<lfloor>- x\<rfloor> = - \<lfloor>x\<rfloor> - 1" by linarith
  show ?thesis unfolding half_even_def Let_def f by (auto simp: field_simps)
qed

lemma ctx_round_minus: "ctx_round (- x) = - ctx_round x"
  by (simp add: ctx_round_def Let_def half_even_minus)

lemma ctx_round_abs_le:
  assumes "\<bar>y\<bar> \<le> \<bar>d\<bar>" "has_scale s d" "\<bar>d\<bar> * 10 ^ s < 10 ^ 28"
  shows "\<bar>ctx_round y\<bar> \<le> \<bar>d\<bar>"
proof -
  have sc: "has_scale s \<bar>d\<bar>" using assms(2) by (simp add: abs_if)
  have pos: "\<bar>ctx_round z\<bar> \<le> \<bar>d\<bar>" if "0 < z" "z \<le> \<bar>d\<bar>" for z
    using ctx_round_le [OF that sc] assms(3) ctx_round_nonneg [of z] that by simp
  consider "y = 0" | "0 < y" | "0 < - y" by linarith
  then show ?thesis
  proof cases
    case 1
    then show ?thesis by (simp add: ctx_round_def)
  next
    case 2
    with pos [of y] assms(1) show ?thesis by simp
  next
    case 3
    with pos [of "- y"] assms(1) show ?thesis by (simp add: ctx_round_minus)
  qed
qed

section \<open>Decimal from text\<close>

text \<open>
  \<open>Decimal(s)\<close>: surrounding white space is stripped, then underscores are removed, then a
  sign, digits with an optional point and an optional exponent, or a special name in any
  case. \<open>None\<close> is the InvalidOperation of a text that is none of these.
\<close>

definition split_sign :: "string \<Rightarrow> rat \<times> string" where
  "split_sign s =
     (if starts_with ''-'' s then (-1, tl s) else if starts_with ''+'' s then (1, tl s) else (1, s))"

definition parse_exponent :: "string \<Rightarrow> int option" where
  "parse_exponent s =
     (if s = [] then Some 0
      else if lower_char (hd s) \<noteq> CHR ''e'' then None
      else (case split_sign (tl s) of
              (sg, ds) \<Rightarrow>
                if ds \<noteq> [] \<and> list_all is_digit ds
                then Some (if sg < 0 then - int (digits_val ds) else int (digits_val ds))
                else None))"

definition parse_finite :: "string \<Rightarrow> rat option" where
  "parse_finite s =
     (let ip = takeWhile is_digit s; r = dropWhile is_digit s;
          has_point = starts_with ''.'' r;
          fp = (if has_point then takeWhile is_digit (tl r) else []);
          r' = (if has_point then dropWhile is_digit (tl r) else r)
      in if ip @ fp = [] then None
         else map_option (\<lambda>e. of_nat (digits_val (ip @ fp)) * 10 powi (e - int (length fp)))
                (parse_exponent r'))"

definition parse_decimal :: "string \<Rightarrow> decimal option" where
  "parse_decimal s =
     (case split_sign (filter (\<lambda>c. c \<noteq> CHR ''_'') (py_strip s)) of
        (sg, t) \<Rightarrow>
          let l = py_lower t; after_nan = (if starts_with ''s'' l then drop 4 l else drop 3 l)
          in if l = ''inf'' \<or> l = ''infinity'' then Some (if sg < 0 then NegInf else PosInf)
             else if (starts_with ''nan'' l \<or> starts_with ''snan'' l) \<and> list_all is_digit after_nan
             then Some NaN
             else map_option (\<lambda>x. Fin (sg * x)) (parse_finite t))"

text \<open>The facts that evaluate the parser on a literal.\<close>

lemmas parse_eval = parse_decimal_def split_sign_def py_strip_def is_space_def py_lower_def
  lower_char_def parse_finite_def is_digit_def starts_with_def digits_val_def
  parse_exponent_def power_int_def power2_eq_square Let_def

lemma parse_decimal_examples:
  "parse_decimal ''10000'' = Some (Fin 10000)"
  "parse_decimal ''-12.50'' = Some (Fin (- (25/2)))"
  "parse_decimal '' 1_000.5e3 '' = Some (Fin 1000500)"
  "parse_decimal ''.5'' = Some (Fin (1/2))"
  "parse_decimal ''1e-2'' = Some (Fin (1/100))"
  "parse_decimal ''10,000'' = None"
  "parse_decimal [] = None"
  by (simp_all add: parse_eval)

lemma parse_decimal_special:
  "parse_decimal ''NaN'' = Some NaN"
  "parse_decimal ''Infinity'' = Some PosInf"
  "parse_decimal ''ten'' = None"
  by code_simp+

lemma ctx_round_ge:
  assumes "0 < y" "d \<le> y" "has_scale s d" "\<bar>y\<bar> * 10 ^ s < 10 ^ 28"
  shows "d \<le> ctx_round y"
proof -
  let ?e = "adjusted y - 27"
  have "?e \<le> - int s" using assms(1,4) by (intro adjusted_bound) auto
  then obtain n where n: "d * 10 powi (- ?e) = of_int n" using scaled_int [OF assms(3)] by blast
  have "of_int n \<le> y * 10 powi (- ?e)"
    unfolding n [symmetric] using assms(2) by (intro mult_right_mono) (auto simp: power_int_def)
  then have "n \<le> half_even (y * 10 powi (- ?e))" by (rule half_even_ge)
  then have "(of_int n :: rat) * 10 powi ?e \<le> of_int (half_even (y * 10 powi (- ?e))) * 10 powi ?e"
    by (intro mult_right_mono) (auto simp: power_int_def)
  moreover have "of_int n * 10 powi ?e = d" unfolding n [symmetric] by (rule powi_cancel)
  ultimately show ?thesis using assms(1) by (simp add: ctx_round_def Let_def)
qed

end
