(* ===== verification/Py_Values.thy ===== *)
theory Py_Values
  imports Py_Decimal "HOL-Library.Word"
begin

text \<open>
  The untyped values the code handles: JSON documents out of JSONB columns, and UUIDs.

  A JSON object is an association list in insertion order. A float is kept as its
  \<open>repr\<close>, since the code only ever passes a float through \<open>str()\<close> or tests its truth.
  A UUID is a 128-bit word; \<open>uuid_str\<close> is \<open>str(u)\<close> and \<open>uuid_parse\<close> is \<open>uuid.UUID(s)\<close>,
  with \<open>None\<close> for its ValueError.
\<close>

section \<open>JSON\<close>

datatype json =
    JNull
  | JBool bool
  | JInt int
  | JFloat string
  | JStr string
  | JList "json list"
  | JObj "(string \<times> json) list"

type_synonym jdict = "(string \<times> json) list"

definition jget :: "jdict \<Rightarrow> string \<Rightarrow> json" where
  "jget d k = get_or (map_of d k) JNull"

primrec truthy :: "json \<Rightarrow> bool" where
  "truthy JNull = False"
| "truthy (JBool b) = b"
| "truthy (JInt i) = (i \<noteq> 0)"
| "truthy (JFloat r) = (parse_decimal r \<noteq> Some (Fin 0))"
| "truthy (JStr s) = (s \<noteq> [])"
| "truthy (JList xs) = (xs \<noteq> [])"
| "truthy (JObj kvs) = (kvs \<noteq> [])"

text \<open>\<open>x.get(k)\<close> on a value that may not be a dictionary, and \<open>(x or {}).get(k)\<close>.\<close>

definition dict_get :: "json \<Rightarrow> string \<Rightarrow> json py" where
  "dict_get v k = (case v of JObj d \<Rightarrow> Inr (jget d k) | _ \<Rightarrow> Inl AttributeError)"

definition or_empty_get :: "json \<Rightarrow> string \<Rightarrow> json py" where
  "or_empty_get v k = (if truthy v then dict_get v k else Inr JNull)"

lemma jget_Nil [simp]: "jget [] k = JNull"
  by (simp add: jget_def)

lemma jget_Cons [simp]: "jget ((k', v) # d) k = (if k' = k then v else jget d k)"
  by (simp add: jget_def)

text \<open>An optional string against a JSON value, as Python's \<open>==\<close> compares them.\<close>

definition str_eq_json :: "string option \<Rightarrow> json \<Rightarrow> bool" where
  "str_eq_json a v \<longleftrightarrow>
     (case a of None \<Rightarrow> v = JNull | Some s \<Rightarrow> v = JStr s)"

section \<open>UUIDs\<close>

type_synonym uuid = "128 word"

definition hex_char :: "nat \<Rightarrow> char" where
  "hex_char d = (if d < 10 then char_of (48 + d) else char_of (87 + d))"

definition hex_val :: "char \<Rightarrow> nat option" where
  "hex_val c =
     (let n = code c
      in if 48 \<le> n \<and> n \<le> 57 then Some (n - 48)
         else if 97 \<le> n \<and> n \<le> 102 then Some (n - 87)
         else if 65 \<le> n \<and> n \<le> 70 then Some (n - 55)
         else None)"

primrec hex_digits :: "nat \<Rightarrow> nat \<Rightarrow> string" where
  "hex_digits 0 n = []"
| "hex_digits (Suc w) n = hex_digits w (n div 16) @ [hex_char (n mod 16)]"

definition uuid_str :: "uuid \<Rightarrow> string" where
  "uuid_str u =
     (let h = hex_digits 32 (unat u)
      in take 8 h @ ''-'' @ take 4 (drop 8 h) @ ''-'' @ take 4 (drop 12 h) @ ''-''
           @ take 4 (drop 16 h) @ ''-'' @ drop 20 h)"

fun hex_run :: "nat \<Rightarrow> string \<Rightarrow> nat option" where
  "hex_run n [] = Some n"
| "hex_run n (c # cs) =
     (case hex_val c of None \<Rightarrow> None | Some d \<Rightarrow> hex_run (16 * n + d) cs)"

text \<open>
  \<open>int(s, 16)\<close> as \<open>UUID\<close> calls it, on text of 32 characters: hexadecimal digits. (The
  builtin also takes white space, a sign, an \<open>0x\<close> prefix and underscores inside those 32
  characters; such text is outside the model, which reads it as the ValueError case.)
\<close>

definition uuid_parse :: "string \<Rightarrow> uuid option" where
  "uuid_parse s =
     (let h = filter (\<lambda>c. c \<noteq> CHR ''-'')
                (rev (dropWhile (\<lambda>c. c = CHR ''{'' \<or> c = CHR ''}'')
                  (rev (dropWhile (\<lambda>c. c = CHR ''{'' \<or> c = CHR ''}'')
                    (remove_sub ''uuid:'' (remove_sub ''urn:'' s))))))
      in if length h \<noteq> 32 then None else map_option of_nat (hex_run 0 h))"

lemma hex_val_char: "d < 16 \<Longrightarrow> hex_val (hex_char d) = Some d"
  by (auto simp: hex_val_def hex_char_def)

lemma length_hex_digits [simp]: "length (hex_digits w n) = w"
  by (induction w arbitrary: n) simp_all

lemma hex_digits_chars: "c \<in> set (hex_digits w n) \<Longrightarrow> hex_val c \<noteq> None"
  by (induction w arbitrary: n) (auto simp: hex_val_char)

lemma hex_run_append:
  "hex_run n (s @ t) = (case hex_run n s of None \<Rightarrow> None | Some m \<Rightarrow> hex_run m t)"
  by (induction n s rule: hex_run.induct) (auto split: option.splits)

lemma hex_run_digits: "hex_run 0 (hex_digits w n) = Some (n mod 16 ^ w)"
proof (induction w arbitrary: n)
  case (Suc w)
  have "n mod (16 * 16 ^ w) = 16 * (n div 16 mod 16 ^ w) + n mod 16"
    by (rule mod_mult2_eq)
  then show ?case by (simp add: hex_run_append Suc hex_val_char)
qed simp

lemma non_hex [simp]:
  "hex_val (CHR ''u'') = None" "hex_val (CHR ''-'') = None"
  "hex_val (CHR ''{'') = None" "hex_val (CHR ''}'') = None"
  by code_simp+

lemma set_uuid_str: "c \<in> set (uuid_str u) \<Longrightarrow> c = CHR ''-'' \<or> hex_val c \<noteq> None"
  by (auto simp: uuid_str_def Let_def
      dest!: in_set_takeD in_set_dropD dest: hex_digits_chars)

lemma filter_uuid_str: "filter (\<lambda>c. c \<noteq> CHR ''-'') (uuid_str u) = hex_digits 32 (unat u)"
proof -
  define h where "h = hex_digits 32 (unat u)"
  have h: "filter (\<lambda>c. c \<noteq> CHR ''-'') t = t" if "set t \<subseteq> set h" for t
  proof (rule filter_True, rule ballI)
    fix c assume "c \<in> set t"
    with that have "hex_val c \<noteq> None" by (auto simp: h_def dest: hex_digits_chars)
    then show "c \<noteq> CHR ''-''" by auto
  qed
  have sub: "set (take n (drop m h)) \<subseteq> set h" "set (take n h) \<subseteq> set h" "set (drop n h) \<subseteq> set h" for m n
    by (auto dest: in_set_takeD in_set_dropD)
  have "take 8 h @ take 4 (drop 8 h) @ take 4 (drop 12 h) @ take 4 (drop 16 h) @ drop 20 h = h"
    by (simp flip: append_assoc take_add add: append_take_drop_id)
  then show ?thesis
    unfolding uuid_str_def Let_def h_def [symmetric] by (simp add: h sub)
qed

theorem uuid_parse_str [simp]: "uuid_parse (uuid_str u) = Some u"
proof -
  have nu: "CHR ''u'' \<notin> set (uuid_str u)" using set_uuid_str by fastforce
  have r: "remove_sub ''urn:'' (uuid_str u) = uuid_str u"
    "remove_sub ''uuid:'' (uuid_str u) = uuid_str u"
    by (rule remove_sub_absent [OF _ nu], simp)+
  have b: "dropWhile (\<lambda>c. c = CHR ''{'' \<or> c = CHR ''}'') t = t" if "set t \<subseteq> set (uuid_str u)" for t
  proof -
    have "c \<noteq> CHR ''{'' \<and> c \<noteq> CHR ''}''" if "c \<in> set (uuid_str u)" for c
      using set_uuid_str [OF that] by auto
    with that show ?thesis by (cases t) auto
  qed
  have lt: "unat u < 16 ^ 32" using unsigned_less [of u] by simp
  have hr: "hex_run 0 (hex_digits 32 (unat u)) = Some (unat u)"
    unfolding hex_run_digits mod_less [OF lt] ..
  show ?thesis
    by (simp add: uuid_parse_def Let_def r b filter_uuid_str hr)
qed

lemma uuid_str_inj [simp]: "uuid_str u = uuid_str v \<longleftrightarrow> u = v"
  by (metis uuid_parse_str option.inject)

end
