(* ===== verification/Models.thy ===== *)
theory Models
  imports Py_Values
begin

text \<open>
  The rows the components work on (models/invoice.py, models/workflow.py, models/user.py,
  models/exception.py). A nullable column is an option; a NUMERIC column is a rational;
  a timestamp is its number of microseconds since the epoch. A JSONB document with a fixed
  shape is a record whose optional keys are options, so \<open>{}\<close> is the record of
  \<open>None\<close>s; money thresholds inside such a document stay raw JSON, as the code treats
  them as unvalidated input.
\<close>

type_synonym time = int

abbreviation hours_us :: "int \<Rightarrow> int" where
  "hours_us h \<equiv> h * 3600000000"

abbreviation days_us :: "int \<Rightarrow> int" where
  "days_us d \<equiv> d * 86400000000"

section \<open>Invoices\<close>

datatype invoice_status =
    New | Pending | Ready_for_review | Approved | Rejected | Sending_to_erp | Sent_to_erp
  | Posted_in_erp | Payment_scheduled | Paid | Done | Failed

primrec status_value :: "invoice_status \<Rightarrow> string" where
  "status_value New = ''new''"
| "status_value Pending = ''pending''"
| "status_value Ready_for_review = ''ready_for_review''"
| "status_value Approved = ''approved''"
| "status_value Rejected = ''rejected''"
| "status_value Sending_to_erp = ''sending_to_erp''"
| "status_value Sent_to_erp = ''sent_to_erp''"
| "status_value Posted_in_erp = ''posted_in_erp''"
| "status_value Payment_scheduled = ''payment_scheduled''"
| "status_value Paid = ''paid''"
| "status_value Done = ''done''"
| "status_value Failed = ''failed''"

lemma status_value_inj [simp]: "status_value s = status_value t \<longleftrightarrow> s = t"
  by (cases s; cases t) simp_all

text \<open>Quantification over the statuses is then a finite computation.\<close>

instantiation invoice_status :: enum
begin

definition enum_invoice_status :: "invoice_status list" where
  "enum_invoice_status =
     [New, Pending, Ready_for_review, Approved, Rejected, Sending_to_erp, Sent_to_erp,
      Posted_in_erp, Payment_scheduled, Paid, Done, Failed]"

definition enum_all_invoice_status :: "(invoice_status \<Rightarrow> bool) \<Rightarrow> bool" where
  "enum_all_invoice_status P \<longleftrightarrow> list_all P enum_class.enum"

definition enum_ex_invoice_status :: "(invoice_status \<Rightarrow> bool) \<Rightarrow> bool" where
  "enum_ex_invoice_status P \<longleftrightarrow> list_ex P enum_class.enum"

instance
proof (intro_classes)
  have all: "(s :: invoice_status) \<in> set enum_class.enum" for s
    by (cases s) (simp_all add: enum_invoice_status_def)
  show "(UNIV :: invoice_status set) = set enum_class.enum" using all by auto
  show "distinct (enum_class.enum :: invoice_status list)" by (simp add: enum_invoice_status_def)
  show "enum_class.enum_all P = Ball UNIV P" for P :: "invoice_status \<Rightarrow> bool"
    using all by (auto simp: enum_all_invoice_status_def list_all_iff)
  show "enum_class.enum_ex P = Bex UNIV P" for P :: "invoice_status \<Rightarrow> bool"
    using all by (auto simp: enum_ex_invoice_status_def list_ex_iff)
qed

end

record invoice =
  inv_id :: uuid
  correlation_id :: uuid
  invoice_number :: string
  vendor_name :: string
  vendor_id :: "uuid option"
  description :: "string option"
  amount :: rat
  currency :: string
  reporting_currency :: "string option"
  reporting_amount :: "rat option"
  reporting_fx_rate :: "rat option"
  reporting_source_currency :: "string option"
  reporting_fx_locked_at :: "time option"
  due_date :: "int option"
  status :: invoice_status
  po_number :: "string option"
  approval_date :: "int option"
  approved_by :: "string option"
  rejected_by :: "string option"
  uploaded_by_id :: "uuid option"
  segregation_actor_ids :: "string list option"
  assigned_to_id :: "uuid option"
  assigned_to :: "string option"
  gl_account :: "string option"
  cost_center :: "string option"
  department :: "string option"
  inv_org :: uuid
  inv_entity :: "uuid option"
  inv_created_at :: time

section \<open>Workflow configuration\<close>

record routing_rule =
  rr_field :: "string option"
  rr_operator :: "string option"
  rr_value :: json

record level_config =
  lc_name :: "string option"
  lc_required_approvals :: "int option"
  lc_approver_ids :: "string list option"
  lc_parallel_mode :: "string option"
  lc_escalation_hours :: "int option"
  lc_escalation_to_user_ids :: "string list option"
  lc_min_amount :: json
  lc_max_amount :: json
  lc_routing_rules :: "routing_rule list option"

text \<open>
  One record for the \<open>config\<close> of every step type: each reader picks its own keys. A
  key holding JSON \<open>null\<close> and a missing key read the same through \<open>.get\<close> with no
  default; \<open>require_segregation\<close> and the money thresholds are kept raw, \<open>None\<close> being
  the missing key.
\<close>

record step_cfg =
  c_required :: "bool option"
  c_approver_id :: "string option"
  c_approver_ids :: "string list option"
  c_approver_strategy :: "string option"
  c_require_segregation :: "json option"
  c_auto_approve_below :: json
  c_require_cfo_above :: json
  c_max_invoice_amount :: json
  c_approval_chain :: "level_config list option"
  c_auto_approve_enabled :: "bool option"
  c_auto_approve_threshold :: json
  c_erp_system :: "string option"
  c_export_format :: "string option"
  c_endpoint_url :: "string option"

definition empty_cfg :: step_cfg where
  "empty_cfg =
     \<lparr>c_required = None, c_approver_id = None, c_approver_ids = None, c_approver_strategy = None,
      c_require_segregation = None, c_auto_approve_below = JNull, c_require_cfo_above = JNull,
      c_max_invoice_amount = JNull, c_approval_chain = None, c_auto_approve_enabled = None,
      c_auto_approve_threshold = JNull, c_erp_system = None, c_export_format = None,
      c_endpoint_url = None\<rparr>"

record step_entry =
  se_number :: nat
  se_type :: "string option"
  se_name :: string
  se_enabled :: "bool option"
  se_config :: "step_cfg option"

type_synonym steps_config = "step_entry list"

record wf_definition =
  wd_id :: uuid
  wd_org :: uuid
  wd_entity :: "uuid option"
  wd_name :: string
  wd_steps :: steps_config
  wd_is_active :: bool
  wd_is_default :: bool
  wd_created_at :: time

section \<open>Workflow instances and the approval chain's state\<close>

text \<open>
  An ISO timestamp inside the JSON state: the instant it denotes, or a text that
  \<open>datetime.fromisoformat\<close> refuses.
\<close>

datatype iso = Iso time | NotIso string

record approval_event =
  ap_user :: string
  ap_at :: time

record escalation_event =
  es_at :: time
  es_added :: "string list"
  es_after_hours :: int

record level_state =
  lv_level :: nat
  lv_name :: string
  lv_required :: int
  lv_approver_ids :: "string list"
  lv_approvals :: "approval_event list"
  lv_parallel_mode :: string
  lv_escalation_hours :: "int option"
  lv_escalation_to :: "string list"
  lv_entered_at :: "iso option"
  lv_escalations :: "escalation_event list"

record chain_state =
  levels :: "level_state list"
  current_level :: nat

text \<open>
  What may sit under the chain's key: a stored \<open>null\<close>, an empty object, a chain, or a
  truthy value of another shape (a hand-edited row).
\<close>

datatype chain_value = ChainNull | ChainEmpty | ChainObj chain_state | ChainCorrupt json

record state_data =
  sd_chain :: "chain_value option"
  sd_rejection_count :: "int option"
  sd_erp_retries :: "int option"
  sd_erp_reference :: "string option"
  sd_last_error :: "string option"

definition empty_state :: state_data where
  "empty_state = \<lparr>sd_chain = None, sd_rejection_count = None, sd_erp_retries = None,
     sd_erp_reference = None, sd_last_error = None\<rparr>"

record wf_instance =
  wi_id :: uuid
  wi_correlation :: uuid
  wi_definition :: uuid
  wi_invoice :: uuid
  current_step :: int
  wi_state :: string
  state_data :: "state_data option"
  steps_config_snapshot :: "steps_config option"

record wf_step =
  ws_id :: uuid
  ws_instance :: uuid
  step_number :: nat
  step_type :: string
  ws_assigned_to :: "uuid option"
  original_assigned_to :: "uuid option"
  ws_action :: "string option"
  completed_at :: "time option"
  ws_created_at :: time

section \<open>Users, the audit trail, exceptions and outgoing events\<close>

record user =
  us_id :: uuid
  full_name :: string
  delegate_to_id :: "uuid option"
  delegate_until :: "time option"

record audit_row =
  au_correlation :: uuid
  au_org :: uuid
  au_actor :: "uuid option"
  au_action :: string
  au_entity_type :: string
  au_entity_id :: uuid
  au_details :: jdict

record exc_row =
  ex_id :: uuid
  ex_invoice :: "uuid option"
  ex_type :: string
  ex_severity :: string
  ex_description :: string
  ex_status :: string
  ex_org :: uuid
  ex_entity :: "uuid option"
  ex_raised_by :: "uuid option"
  ex_resolution :: "string option"
  ex_resolved_by :: "string option"
  ex_resolved_at :: "time option"
  ex_assigned_to :: "uuid option"

text \<open>Calls made to the notification and webhook modules, in order.\<close>

datatype outgoing =
    NotifyEvent string uuid "uuid list"
  | NotifyVendor string uuid
  | WebhookInvoiceApproved uuid uuid
  | WebhookPaymentSettled uuid uuid
  | WebhookExceptionRaised string uuid

record wf_db =
  invoices :: "invoice list"
  definitions :: "wf_definition list"
  instances :: "wf_instance list"
  steps :: "wf_step list"
  users :: "user list"
  audit :: "audit_row list"
  exceptions :: "exc_row list"
  outbox :: "outgoing list"

section \<open>Sample rows\<close>

text \<open>Rows on which later theories exercise the operations.\<close>

definition sample_invoice :: invoice where
  "sample_invoice =
     \<lparr>inv_id = 10, correlation_id = 11, invoice_number = ''INV-1'', vendor_name = ''Acme'',
      vendor_id = Some 12, description = None, amount = 100, currency = ''EUR'',
      reporting_currency = None, reporting_amount = None, reporting_fx_rate = None,
      reporting_source_currency = None, reporting_fx_locked_at = None, due_date = None,
      status = Ready_for_review, po_number = None, approval_date = None, approved_by = None,
      rejected_by = None, uploaded_by_id = Some 20, segregation_actor_ids = None,
      assigned_to_id = None, assigned_to = None, gl_account = None, cost_center = None,
      department = None, inv_org = 1, inv_entity = None, inv_created_at = 0\<rparr>"

definition sample_instance :: wf_instance where
  "sample_instance = \<lparr>wi_id = 1, wi_correlation = 2, wi_definition = 3, wi_invoice = 4,
     current_step = 0, wi_state = ''active'', state_data = None, steps_config_snapshot = None\<rparr>"

end
