(* ===== verification/Currency.thy ===== *)
theory Currency
  imports Models
begin

text \<open>
  Currency codes and locked conversions (services/currency_conversion.py and the currency
  part of services/international_payments.py).

  Amounts and rates of rows are NUMERIC columns, so finite; \<open>Decimal(str(x))\<close> of such a
  value is the value. The organisation's settings are raw JSON. The FX provider is a parameter
  \<open>get_rate\<close>, whose answer is a \<open>Decimal\<close> of any kind with its timestamp, or an
  exception.
\<close>

section \<open>Rounding of row values\<close>

definition quantize_row :: "nat \<Rightarrow> rat \<Rightarrow> rat py" where
  "quantize_row s x =
     (if \<bar>half_up (x * 10 ^ s)\<bar> < 10 ^ 28 then Inr (round_half_up s x) else Inl InvalidOperation)"

text \<open>\<open>rate.quantize(Decimal("0.00000001"))\<close>: the context's rounding, half to even.\<close>

definition quantize_rate :: "rat \<Rightarrow> rat py" where
  "quantize_rate x =
     (let n = half_even (x * 10 ^ 8)
      in if \<bar>n\<bar> < 10 ^ 28 then Inr (of_int n / 10 ^ 8) else Inl InvalidOperation)"

definition quantize_money :: "rat \<Rightarrow> rat py" where
  "quantize_money x = quantize_row 2 x"

lemma quantize_row_half_up: "quantize_half_up s (Fin x) = py_bind (quantize_row s x) (\<lambda>y. Inr (Fin y))"
  by (simp add: quantize_half_up_def quantize_row_def)

lemma quantize_row_small: "\<bar>x\<bar> < 10 ^ 25 \<Longrightarrow> quantize_row 2 x = Inr (round_half_up 2 x)"
  using quantize_half_up_money [of x] by (auto simp: quantize_row_half_up)

lemma quantize_money_small: "\<bar>x\<bar> < 10 ^ 25 \<Longrightarrow> quantize_money x = Inr (round_half_up 2 x)"
  by (simp add: quantize_money_def quantize_row_small)

lemma quantize_money_Inr: "quantize_money x = Inr y \<Longrightarrow> y = round_half_up 2 x"
  by (simp add: quantize_money_def quantize_row_def split: if_splits)

lemma quantize_money_idem:
  assumes "quantize_money x = Inr y" shows "quantize_money y = Inr y"
proof -
  have y: "y = of_int (half_up (x * 10 ^ 2)) / 10 ^ 2" and b: "\<bar>half_up (x * 10 ^ 2)\<bar> < 10 ^ 28"
    using assms by (simp_all add: quantize_money_def quantize_row_def round_half_up_def split: if_splits)
  have "y * 10 ^ 2 = of_int (half_up (x * 10 ^ 2))" by (simp add: y)
  then have "half_up (y * 10 ^ 2) = half_up (x * 10 ^ 2)" by (simp only: half_up_of_int)
  then show ?thesis using b by (simp add: quantize_money_def quantize_row_def y round_half_up_def)
qed

lemma quantize_money_scaled: "has_scale 2 x \<Longrightarrow> \<bar>x\<bar> < 10 ^ 25 \<Longrightarrow> quantize_money x = Inr x"
  by (simp add: quantize_money_small)

section \<open>Currency codes of the organisation\<close>

definition DEFAULT_HOME_CURRENCY :: string where
  "DEFAULT_HOME_CURRENCY = ''USD''"

definition normalize_currency_code :: "json \<Rightarrow> string option" where
  "normalize_currency_code v =
     (case v of
        JStr s \<Rightarrow> (let trimmed = norm_code s in if trimmed = [] then None else Some trimmed)
      | _ \<Rightarrow> None)"

definition configured_home_currency :: "json \<Rightarrow> string option" where
  "configured_home_currency org_settings =
     (case org_settings of
        JObj d \<Rightarrow> (case jget d ''payments'' of
                     JObj p \<Rightarrow> normalize_currency_code (jget p ''home_currency'')
                   | _ \<Rightarrow> None)
      | _ \<Rightarrow> None)"

definition resolve_home_currency :: "json \<Rightarrow> string" where
  "resolve_home_currency org_settings =
     get_or (configured_home_currency org_settings) DEFAULT_HOME_CURRENCY"

definition json_of_option :: "string option \<Rightarrow> json" where
  "json_of_option v = (case v of None \<Rightarrow> JNull | Some s \<Rightarrow> JStr s)"

definition resolve_reporting_currency :: "string \<Rightarrow> json \<Rightarrow> string py" where
  "resolve_reporting_currency platform_default org_settings =
     (let s = (if truthy org_settings then org_settings else JObj [])
      in py_bind (dict_get s ''reporting_currency'') (\<lambda>c1.
         py_bind (dict_get s ''invoice_defaults'') (\<lambda>defaults.
         py_bind (or_empty_get defaults ''currency'') (\<lambda>c3.
           let candidates = [c1, json_of_option (configured_home_currency s), c3, JStr platform_default]
           in Inr (get_or (first_some (map normalize_currency_code candidates)) ''USD'')))))"

section \<open>Conversion\<close>

type_synonym fx_provider = "string \<Rightarrow> string \<Rightarrow> (decimal \<times> time) py"

record converted_amount =
  ca_amount :: rat
  ca_source :: string
  ca_reporting :: string
  ca_rate :: rat
  ca_as_of :: time

text \<open>
  \<open>fx.rate <= 0\<close> raises on a NaN and is true of minus infinity; plus infinity passes it, and
  then the product (or, for a zero amount, the multiplication) raises InvalidOperation.
\<close>

definition convert_amount ::
    "time \<Rightarrow> rat \<Rightarrow> string \<Rightarrow> string \<Rightarrow> fx_provider option \<Rightarrow> converted_amount py" where
  "convert_amount now amt source_currency target fx_adapter =
     (let src = py_upper (if source_currency = [] then target else source_currency);
          tgt = py_upper target
      in if src = tgt then
           py_bind (quantize_money amt) (\<lambda>a.
             Inr \<lparr>ca_amount = a, ca_source = src, ca_reporting = tgt, ca_rate = 1, ca_as_of = now\<rparr>)
         else case fx_adapter of
           None \<Rightarrow> Inl ValueError
         | Some get_rate \<Rightarrow> py_bind (get_rate src tgt) (\<lambda>(rate, as_of).
             case rate of
               NaN \<Rightarrow> Inl InvalidOperation
             | NegInf \<Rightarrow> Inl ValueError
             | PosInf \<Rightarrow> Inl InvalidOperation
             | Fin r \<Rightarrow>
                 if r \<le> 0 then Inl ValueError
                 else py_bind (quantize_money (ctx_mult amt r)) (\<lambda>a.
                   Inr \<lparr>ca_amount = a, ca_source = src, ca_reporting = tgt, ca_rate = r,
                        ca_as_of = as_of\<rparr>)))"

definition lock_pair_matches :: "invoice \<Rightarrow> string \<Rightarrow> string \<Rightarrow> rat \<Rightarrow> bool" where
  "lock_pair_matches iv src target_currency rate \<longleftrightarrow>
     (let persisted_src = get_or (reporting_source_currency iv) []
      in if persisted_src \<noteq> [] then py_upper persisted_src = src
         else (src = target_currency) = (rate = 1))"

text \<open>Called only for a row whose \<open>reporting_amount\<close> is set; without one
  \<open>Decimal("None")\<close> raises.\<close>

definition lock_is_self_consistent :: "invoice \<Rightarrow> string \<Rightarrow> bool py" where
  "lock_is_self_consistent iv target_currency =
     (case reporting_fx_rate iv of
        None \<Rightarrow> Inr False
      | Some rate \<Rightarrow>
          if rate \<le> 0 then Inr False
          else
            let src = py_upper (if currency iv = [] then target_currency else currency iv)
            in if \<not> lock_pair_matches iv src target_currency rate then Inr False
               else py_bind (quantize_money (ctx_mult (amount iv) rate)) (\<lambda>expected.
                 case reporting_amount iv of
                   None \<Rightarrow> Inl InvalidOperation
                 | Some ra \<Rightarrow> py_bind (quantize_money ra) (\<lambda>persisted. Inr (expected = persisted))))"

text \<open>The last part of \<open>materialize_reporting_amount\<close>: fetch a rate and store the lock.\<close>

definition relock_reporting_amount ::
    "time \<Rightarrow> invoice \<Rightarrow> string \<Rightarrow> string \<Rightarrow> fx_provider \<Rightarrow> (bool \<times> invoice) py" where
  "relock_reporting_amount now iv src tgt fx_adapter =
     py_bind (convert_amount now (amount iv) src tgt (Some fx_adapter)) (\<lambda>converted.
     py_bind (quantize_rate (ca_rate converted)) (\<lambda>stored_rate.
     py_bind (quantize_money (ctx_mult (amount iv) stored_rate)) (\<lambda>a.
       Inr (True, iv\<lparr>reporting_currency := Some (ca_reporting converted),
                     reporting_amount := Some a,
                     reporting_fx_rate := Some stored_rate,
                     reporting_source_currency := Some (ca_source converted),
                     reporting_fx_locked_at := Some (ca_as_of converted)\<rparr>))))"

definition materialize_reporting_amount ::
    "time \<Rightarrow> invoice \<Rightarrow> string \<Rightarrow> fx_provider \<Rightarrow> bool \<Rightarrow> (bool \<times> invoice) py" where
  "materialize_reporting_amount now iv target fx_adapter force =
     (let tgt = py_upper target;
          src = py_upper (if currency iv = [] then tgt else currency iv);
          never_locked = (reporting_amount iv = None
                          \<or> (case reporting_currency iv of None \<Rightarrow> True | Some c \<Rightarrow> py_upper c \<noteq> tgt));
          relock = relock_reporting_amount now iv src tgt fx_adapter
      in if \<not> force \<and> \<not> never_locked then
           py_bind (lock_is_self_consistent iv tgt) (\<lambda>ok.
             if ok then Inr (False, iv)
             else case reporting_fx_rate iv of
               None \<Rightarrow> relock
             | Some rate \<Rightarrow>
                 if 0 < rate \<and> lock_pair_matches iv src tgt rate then
                   py_bind (quantize_money (ctx_mult (amount iv) rate)) (\<lambda>a.
                     Inr (True, iv\<lparr>reporting_amount := Some a\<rparr>))
                 else relock)
         else relock)"

definition reporting_amount_for_row ::
    "rat \<Rightarrow> string option \<Rightarrow> string \<Rightarrow> string option \<Rightarrow> rat option \<Rightarrow> (rat \<times> bool) py" where
  "reporting_amount_for_row amt cur_opt target persisted_currency persisted_amount =
     (let tgt = py_upper target;
          c = get_or cur_opt [];
          cur = py_upper (if c = [] then tgt else c);
          fallback = (if cur = tgt then py_bind (quantize_money amt) (\<lambda>a. Inr (a, False))
                      else py_bind (quantize_money amt) (\<lambda>a. Inr (a, True)))
      in case (persisted_amount, persisted_currency) of
           (Some pa, Some pc) \<Rightarrow>
             if py_upper pc = tgt then py_bind (quantize_money pa) (\<lambda>a. Inr (a, False)) else fallback
         | _ \<Rightarrow> fallback)"

definition reporting_amount_at_locked_rate ::
    "rat \<Rightarrow> string option \<Rightarrow> string \<Rightarrow> string option \<Rightarrow> string option \<Rightarrow> rat option
       \<Rightarrow> (rat \<times> bool) py" where
  "reporting_amount_at_locked_rate amt cur_opt target persisted_currency persisted_source rate =
     (let tgt = norm_code (if target = [] then ''USD'' else target);
          c = get_or cur_opt [];
          cur = norm_code (if c = [] then tgt else c)
      in if cur = tgt then py_bind (quantize_money amt) (\<lambda>a. Inr (a, False))
         else case rate of
           Some r \<Rightarrow>
             if 0 < r \<and> map_option norm_code persisted_currency = Some tgt
                \<and> map_option norm_code persisted_source = Some cur
             then py_bind (quantize_money (ctx_mult amt r)) (\<lambda>a. Inr (a, False))
             else py_bind (quantize_money amt) (\<lambda>a. Inr (a, True))
         | None \<Rightarrow> py_bind (quantize_money amt) (\<lambda>a. Inr (a, True)))"

section \<open>Realized gain and loss\<close>

definition gain_loss :: "rat \<Rightarrow> rat \<Rightarrow> rat py" where
  "gain_loss accrued paid_home_amount =
     py_bind (quantize_money paid_home_amount) (\<lambda>p. quantize_money (accrued - p))"

definition compute_fx_gain_loss :: "rat \<Rightarrow> string \<Rightarrow> rat \<Rightarrow> string \<Rightarrow> rat \<Rightarrow> rat py" where
  "compute_fx_gain_loss invoice_amount invoice_currency paid_amount paid_currency rate =
     (if py_upper invoice_currency = py_upper paid_currency then Inr 0
      else if rate \<le> 0 then Inl ValueError
      else py_bind (quantize_money (ctx_div invoice_amount rate)) (\<lambda>accrued.
             gain_loss accrued paid_amount))"

definition realized_fx_gain_loss_for_settlement ::
    "rat \<Rightarrow> string option \<Rightarrow> string option \<Rightarrow> rat option \<Rightarrow> rat option \<Rightarrow> string option \<Rightarrow> rat option py"
  where
  "realized_fx_gain_loss_for_settlement invoice_amount invoice_currency reporting rate paid paid_currency =
     (case (paid, rate) of
        (Some p, Some r) \<Rightarrow>
          if r \<le> 0 then Inr None
          else
            let ic = get_or invoice_currency []; pc = get_or paid_currency []; rc = get_or reporting []
            in if ic \<noteq> [] \<and> pc \<noteq> [] \<and> py_upper ic = py_upper pc then Inr None
               else if rc = [] \<or> pc = [] then Inr None
               else if norm_code rc \<noteq> norm_code pc then Inr None
               else py_bind (quantize_money (ctx_mult invoice_amount r)) (\<lambda>accrued.
                      py_bind (gain_loss accrued p) (\<lambda>g. Inr (Some g)))
      | _ \<Rightarrow> Inr None)"

section \<open>Facts\<close>

lemma norm_code_upper [simp]: "norm_code (py_upper s) = norm_code s"
  by (simp add: norm_code_def py_strip_upper)

lemma py_upper_Nil_iff [simp]: "py_upper s = [] \<longleftrightarrow> s = []" "[] = py_upper s \<longleftrightarrow> s = []"
  by (auto simp: py_upper_def)

lemma normalize_currency_code_props:
  "normalize_currency_code v = Some c \<Longrightarrow> c \<noteq> [] \<and> norm_code c = c"
  by (auto simp: normalize_currency_code_def Let_def split: json.splits if_splits)

lemma resolve_home_currency_props: "resolve_home_currency s \<noteq> [] \<and> norm_code (resolve_home_currency s) = resolve_home_currency s"
proof (cases "configured_home_currency s")
  case None
  have "norm_code ''USD'' = ''USD''" by code_simp
  with None show ?thesis by (simp add: resolve_home_currency_def DEFAULT_HOME_CURRENCY_def)
next
  case (Some c)
  then obtain v where "normalize_currency_code v = Some c"
    by (auto simp: configured_home_currency_def split: json.splits)
  from normalize_currency_code_props [OF this] Some show ?thesis
    by (simp add: resolve_home_currency_def)
qed

lemma product_bound:
  assumes "\<bar>x\<bar> < 10 ^ 13" "\<bar>y\<bar> < 10 ^ 10"
  shows "\<bar>ctx_mult x y\<bar> \<le> 10 ^ 23"
proof -
  have "\<bar>x * y\<bar> \<le> 10 ^ 13 * 10 ^ 10"
    unfolding abs_mult using assms by (intro mult_mono) auto
  then have "\<bar>x * y\<bar> \<le> \<bar>10 ^ 23\<bar>" by simp
  then have "\<bar>ctx_round (x * y)\<bar> \<le> \<bar>10 ^ 23\<bar>"
    by (rule ctx_round_abs_le [where s = 0]) (simp_all add: has_scale_def)
  then show ?thesis by (simp add: ctx_mult_def)
qed

lemma quantize_money_product:
  assumes "\<bar>x\<bar> < 10 ^ 13" "\<bar>y\<bar> < 10 ^ 10"
  shows "quantize_money (ctx_mult x y) = Inr (round_half_up 2 (ctx_mult x y))"
proof (rule quantize_money_small)
  have "(10 :: rat) ^ 23 < 10 ^ 25" by simp
  with product_bound [OF assms] show "\<bar>ctx_mult x y\<bar> < 10 ^ 25" by (rule le_less_trans)
qed

lemma locked_rate_total:
  assumes "\<bar>amt\<bar> < 10 ^ 13" "\<And>r. rate = Some r \<Longrightarrow> \<bar>r\<bar> < 10 ^ 10"
  shows "\<exists>a u. reporting_amount_at_locked_rate amt c t pc ps rate = Inr (a, u)"
proof -
  have "(10 :: rat) ^ 13 < 10 ^ 25" by simp
  with assms(1) have "\<bar>amt\<bar> < 10 ^ 25" by (rule less_trans)
  then show ?thesis
    using assms quantize_money_product [of amt]
    by (auto simp: reporting_amount_at_locked_rate_def Let_def quantize_money_small split: option.splits)
qed

lemma self_consistentI:
  assumes "reporting_fx_rate iv = Some r" "0 < r" "reporting_amount iv = Some a"
    "quantize_money (ctx_mult (amount iv) r) = Inr a"
    "lock_pair_matches iv (py_upper (if currency iv = [] then t else currency iv)) t r"
  shows "lock_is_self_consistent iv t = Inr True"
  using assms quantize_money_idem [OF assms(4)] by (simp add: lock_is_self_consistent_def Let_def)

section \<open>Properties\<close>

lemma rate_case_Inr:
  "(case rate of Fin r \<Rightarrow> f r | PosInf \<Rightarrow> Inl e1 | NegInf \<Rightarrow> Inl e2 | NaN \<Rightarrow> Inl e3) = Inr y
     \<longleftrightarrow> (\<exists>r. rate = Fin r \<and> f r = Inr y)"
  by (cases rate) simp_all

lemma convert_amount_Inr:
  assumes "convert_amount now amt sc t fx = Inr c"
  shows "ca_source c = py_upper (if sc = [] then t else sc)" "ca_reporting c = py_upper t"
    "ca_source c = ca_reporting c \<Longrightarrow> ca_rate c = 1" "0 < ca_rate c"
  using assms
  by (auto simp: convert_amount_def Let_def rate_case_Inr split: if_splits option.splits prod.splits)

lemma quantize_rate_1 [simp]: "quantize_rate 1 = Inr 1"
proof -
  have "half_even (10 ^ 8) = 10 ^ 8" using half_even_of_int [of "10 ^ 8"] by simp
  then show ?thesis by (simp add: quantize_rate_def)
qed

lemma materialize_cases:
  assumes "materialize_reporting_amount now iv t fx force = Inr (changed, iv')"
  defines "tgt \<equiv> py_upper t"
  defines "src \<equiv> py_upper (if currency iv = [] then tgt else currency iv)"
  defines "locked \<equiv> reporting_amount iv \<noteq> None \<and> map_option py_upper (reporting_currency iv) = Some tgt"
  obtains (keep) "locked" "lock_is_self_consistent iv tgt = Inr True" "iv' = iv"
    | (rescale) r a where "locked" "reporting_fx_rate iv = Some r" "0 < r"
        "lock_pair_matches iv src tgt r" "quantize_money (ctx_mult (amount iv) r) = Inr a"
        "iv' = iv\<lparr>reporting_amount := Some a\<rparr>"
    | (relock) "relock_reporting_amount now iv src tgt fx = Inr (changed, iv')"
proof (cases "relock_reporting_amount now iv src tgt fx = Inr (changed, iv')")
  case False
  with assms(1) have n: "\<not> force" "locked"
    by (auto simp: materialize_reporting_amount_def Let_def tgt_def src_def locked_def
        split: if_splits option.splits)
  with assms(1) obtain ok where ok: "lock_is_self_consistent iv tgt = Inr ok"
    by (auto simp: materialize_reporting_amount_def Let_def tgt_def src_def locked_def
        split: if_splits option.splits)
  show ?thesis
  proof (cases ok)
    case True
    with assms(1) n ok keep show ?thesis
      by (auto simp: materialize_reporting_amount_def Let_def tgt_def src_def locked_def)
  next
    case no: False
    with assms(1) n ok False obtain r a where "reporting_fx_rate iv = Some r" "0 < r"
      "lock_pair_matches iv src tgt r" "quantize_money (ctx_mult (amount iv) r) = Inr a"
      "iv' = iv\<lparr>reporting_amount := Some a\<rparr>"
      by (cases "reporting_fx_rate iv"; simp add: materialize_reporting_amount_def Let_def tgt_def src_def
            locked_def split: option.splits if_splits; blast)
    with rescale n show ?thesis by blast
  qed
qed (rule relock)

lemma relock_cases:
  assumes "relock_reporting_amount now iv src tgt fx = Inr (changed, iv')"
  obtains c r a where "convert_amount now (amount iv) src tgt (Some fx) = Inr c"
    "quantize_rate (ca_rate c) = Inr r" "quantize_money (ctx_mult (amount iv) r) = Inr a" "changed"
    "iv' = iv\<lparr>reporting_currency := Some (ca_reporting c), reporting_amount := Some a,
             reporting_fx_rate := Some r, reporting_source_currency := Some (ca_source c),
             reporting_fx_locked_at := Some (ca_as_of c)\<rparr>"
  using assms by (auto simp: relock_reporting_amount_def)

lemma materialize_consistent:
  assumes m: "materialize_reporting_amount now iv t fx force = Inr (changed, iv')"
    and pos: "reporting_fx_rate iv' = Some r" "0 < r"
  shows "lock_is_self_consistent iv' (py_upper t) = Inr True
         \<and> reporting_amount iv' \<noteq> None \<and> map_option py_upper (reporting_currency iv') = Some (py_upper t)"
proof -
  from m show ?thesis
  proof (cases rule: materialize_cases)
    case keep
    then show ?thesis by simp
  next
    case (rescale r' a)
    have pm: "lock_pair_matches iv' s u q = lock_pair_matches iv s u q" for s u q
      using rescale(6) by (simp add: lock_pair_matches_def)
    have "lock_is_self_consistent iv' (py_upper t) = Inr True"
      by (rule self_consistentI [of iv' r' a]) (use rescale pm in \<open>auto split: if_splits\<close>)
    with rescale show ?thesis by simp
  next
    case relock
    let ?src = "py_upper (if currency iv = [] then py_upper t else currency iv)"
    from relock obtain c r' a where
      q: "convert_amount now (amount iv) ?src (py_upper t) (Some fx) = Inr c"
        "quantize_rate (ca_rate c) = Inr r'" "quantize_money (ctx_mult (amount iv) r') = Inr a" and
      iv': "iv' = iv\<lparr>reporting_currency := Some (ca_reporting c), reporting_amount := Some a,
              reporting_fx_rate := Some r', reporting_source_currency := Some (ca_source c),
              reporting_fx_locked_at := Some (ca_as_of c)\<rparr>"
      by (rule relock_cases)
    note cv = convert_amount_Inr [OF q(1)]
    have src: "ca_source c = ?src" and rep: "ca_reporting c = py_upper t"
      using cv(1,2) by auto
    have "r' = 1" if "?src = py_upper t" using cv(3) src rep that q(2) by simp
    then have "lock_pair_matches iv' ?src (py_upper t) r'"
      using iv' src by (auto simp: lock_pair_matches_def Let_def py_upper_def)
    then have "lock_is_self_consistent iv' (py_upper t) = Inr True"
      by (intro self_consistentI [of iv' r' a]) (use q iv' pos in \<open>auto split: if_splits\<close>)
    with iv' rep show ?thesis by simp
  qed
qed

lemma resolve_reporting_currency_Inr:
  assumes "resolve_reporting_currency platform_default org_settings = Inr c"
  shows "c \<noteq> [] \<and> norm_code c = c"
proof -
  from assms obtain vs where c: "c = get_or (first_some (map normalize_currency_code vs)) ''USD''"
    by (auto simp: resolve_reporting_currency_def Let_def simp del: first_some.simps list.map)
  have usd: "norm_code ''USD'' = ''USD''" by code_simp
  show ?thesis
  proof (cases "first_some (map normalize_currency_code vs)")
    case (Some x)
    from first_some_in [OF Some] c Some normalize_currency_code_props show ?thesis
      by (metis (no_types, lifting) get_or_simps(2) imageE image_set)
  qed (simp add: c usd)
qed

text \<open>The reporting currency is always a non-blank code in normal form. The resolution
  can raise all the same, only as an AttributeError, and only for settings that are not an object
  or whose \<open>invoice_defaults\<close> is a truthy value that is not an object.\<close>

theorem reporting_currency_normal_form:
  "case resolve_reporting_currency platform_default org_settings of
     Inr c \<Rightarrow> c \<noteq> [] \<and> norm_code c = c
   | Inl e \<Rightarrow> e = AttributeError
       \<and> (case org_settings of
            JObj d \<Rightarrow> truthy (jget d ''invoice_defaults'') \<and> (\<nexists>x. jget d ''invoice_defaults'' = JObj x)
          | _ \<Rightarrow> truthy org_settings)"
proof (cases "resolve_reporting_currency platform_default org_settings")
  case (Inr c)
  with resolve_reporting_currency_Inr [OF Inr] show ?thesis by simp
next
  case (Inl e)
  then show ?thesis
    by (cases org_settings)
      (auto simp: resolve_reporting_currency_def Let_def dict_get_def or_empty_get_def py_bind_eq_Inl
        split: if_splits json.splits)
qed

text \<open>Locking the conversion on an invoice is idempotent: whatever branch it took
  (kept, re-scaled at the locked rate, or re-locked), the row it leaves carries a lock for the
  organisation's currency that reconciles with the row, so the next unforced call keeps it and asks
  the provider for nothing. The one exception is a rate that eight decimals round to zero.\<close>

theorem materialize_idempotent:
  assumes "materialize_reporting_amount now iv t fx force = Inr (changed, iv')"
    and "reporting_fx_rate iv' = Some r" "0 < r"
  shows "materialize_reporting_amount now' iv' t fx' False = Inr (False, iv')"
proof -
  from materialize_consistent [OF assms] obtain a c where
    "lock_is_self_consistent iv' (py_upper t) = Inr True" "reporting_amount iv' = Some a"
    "reporting_currency iv' = Some c" "py_upper c = py_upper t" by auto
  then show ?thesis by (simp add: materialize_reporting_amount_def Let_def)
qed

lemma sample_product: "ctx_mult 100 (5/4) = 125"
  unfolding ctx_mult_def by (subst ctx_round_exact [where s = 0]; simp add: has_scale_def)

theorem materialize_idempotent_witness:
  "\<exists>iv'. materialize_reporting_amount 0 sample_invoice ''usd'' (\<lambda>s t. Inr (Fin (5/4), 0)) False
           = Inr (True, iv') \<and> reporting_amount iv' = Some 125
         \<and> materialize_reporting_amount 9 iv' ''usd'' (\<lambda>s t. Inl ValueError) False = Inr (False, iv')"
proof -
  have up: "py_upper ''usd'' = ''USD''" "py_upper ''USD'' = ''USD''" "py_upper ''EUR'' = ''EUR''" by code_simp+
  have r125: "round_half_up 2 (125 :: rat) = 125" by (rule round_half_up_id) (simp add: has_scale_def)
  have q: "quantize_rate (5/4) = Inr (5/4)" "quantize_money 125 = Inr 125"
    using half_even_of_int [of 125000000]
    by (simp_all add: quantize_rate_def Let_def quantize_money_small r125)
  obtain iv' where m: "materialize_reporting_amount 0 sample_invoice ''usd'' (\<lambda>s t. Inr (Fin (5/4), 0)) False
      = Inr (True, iv')" and iv': "reporting_amount iv' = Some 125" "reporting_fx_rate iv' = Some (5/4)"
    by (simp add: materialize_reporting_amount_def relock_reporting_amount_def convert_amount_def sample_invoice_def up sample_product q
        Let_def)
  have "materialize_reporting_amount 9 iv' ''usd'' (\<lambda>s t. Inl ValueError) False = Inr (False, iv')"
    by (rule materialize_idempotent [OF m iv'(2)]) simp
  with m iv' show ?thesis by blast
qed

text \<open>A realized gain or loss is the exact difference of the accrued and the paid amount,
  each rounded to cents, positive when less was paid than accrued; it is never computed across two
  currencies, and never for a settlement in the invoice's own currency.\<close>

theorem realized_gain_loss_spec:
  "realized_fx_gain_loss_for_settlement amt ic rc rate paid pc = Inr (Some g) \<Longrightarrow>
     \<exists>r p c. rate = Some r \<and> 0 < r \<and> paid = Some p \<and> pc = Some c \<and> c \<noteq> []
       \<and> map_option norm_code rc = Some (norm_code c) \<and> map_option py_upper ic \<noteq> Some (py_upper c)
       \<and> g = round_half_up 2 (ctx_mult amt r) - round_half_up 2 p"
proof -
  assume g: "realized_fx_gain_loss_for_settlement amt ic rc rate paid pc = Inr (Some g)"
  have two: "round_half_up 2 (round_half_up 2 a - round_half_up 2 b) = round_half_up 2 a - round_half_up 2 b"
    for a b by (simp add: has_scale_diff)
  have e: "py_upper [] = []" by (simp add: py_upper_def)
  show ?thesis
    using g by (auto simp: realized_fx_gain_loss_for_settlement_def gain_loss_def Let_def get_or_def two e
        split: option.splits if_splits dest!: quantize_money_Inr)
qed

theorem realized_gain_loss_witness:
  "realized_fx_gain_loss_for_settlement 100 (Some ''EUR'') (Some ''USD'') (Some (5/4)) (Some 120) (Some ''USD '')
     = Inr (Some 5) \<and> (5 :: rat) = round_half_up 2 (ctx_mult 100 (5/4)) - round_half_up 2 120"
proof -
  have e: "py_upper ''EUR'' \<noteq> py_upper ''USD ''" "norm_code ''USD'' = norm_code ''USD ''" by code_simp+
  have r: "round_half_up 2 (125 :: rat) = 125" "round_half_up 2 (120 :: rat) = 120" "round_half_up 2 (5 :: rat) = 5"
    by (rule round_half_up_id, simp add: has_scale_def)+
  have g: "realized_fx_gain_loss_for_settlement 100 (Some ''EUR'') (Some ''USD'') (Some (5/4)) (Some 120)
      (Some ''USD '') = Inr (Some 5)"
    by (simp add: realized_fx_gain_loss_for_settlement_def gain_loss_def sample_product
        quantize_money_small r e)
  from realized_gain_loss_spec [OF g] have "(5 :: rat) = round_half_up 2 (ctx_mult 100 (5/4)) - round_half_up 2 120"
    by (elim exE conjE) (simp only: option.inject)
  with g show ?thesis by blast
qed

end
