(* ===== verification/Approval_Chain.thy ===== *)
theory Approval_Chain
  imports Currency
begin

text \<open>
  The approval controls of services/approval_chain.py: segregation of duties, delegation, the
  money gates, the routing of a chain's levels, and the chain's state machine with its escalation.

  The chain lives under one key of the instance's JSON state (\<open>chain_value\<close> in theory
  \<open>Models\<close>). A deep copy followed by a reassignment is the functional update. An optional
  field of a level is \<open>None\<close> when its key is missing, which is where \<open>.get\<close> takes its
  default.
\<close>

section \<open>Segregation of duties\<close>

definition violates_segregation :: "invoice \<Rightarrow> uuid \<Rightarrow> step_cfg \<Rightarrow> bool" where
  "violates_segregation iv actor cfg \<longleftrightarrow>
     (if c_require_segregation cfg = Some (JBool False) then False
      else if uploaded_by_id iv = Some actor then True
      else uuid_str actor \<in> set (get_or (segregation_actor_ids iv) []))"

definition check_segregation :: "invoice \<Rightarrow> uuid \<Rightarrow> step_cfg \<Rightarrow> unit py" where
  "check_segregation iv actor cfg =
     py_guard (violates_segregation iv actor cfg) (HTTPException 403 ''Segregation of duties'')"

section \<open>Delegation\<close>

definition resolve_assignee :: "time \<Rightarrow> user list \<Rightarrow> uuid \<Rightarrow> uuid \<times> uuid option" where
  "resolve_assignee now us u =
     (case find (\<lambda>r. us_id r = u) us of
        None \<Rightarrow> (u, None)
      | Some r \<Rightarrow>
          (case (delegate_to_id r, delegate_until r) of
             (Some d, Some until) \<Rightarrow> if now < until then (d, Some u) else (u, None)
           | _ \<Rightarrow> (u, None)))"

section \<open>Routing rules\<close>

type_synonym attrs = "(string \<times> string option) list"

definition attr_get :: "attrs \<Rightarrow> string \<Rightarrow> string option" where
  "attr_get ats k = get_or (map_of ats k) None"

definition evaluate_routing_rule :: "routing_rule \<Rightarrow> attrs \<Rightarrow> bool" where
  "evaluate_routing_rule rule ats \<longleftrightarrow>
     (let field = get_or (rr_field rule) [];
          actual = (if field = [] then None else attr_get ats field);
          v = rr_value rule
      in if rr_operator rule = Some ''eq'' then str_eq_json actual v
         else if rr_operator rule = Some ''ne'' then \<not> str_eq_json actual v
         else if rr_operator rule = Some ''in'' then
           (case v of JList xs \<Rightarrow> list_ex (str_eq_json actual) xs | _ \<Rightarrow> False)
         else if rr_operator rule = Some ''not_in'' then
           (case v of JList xs \<Rightarrow> \<not> list_ex (str_eq_json actual) xs | _ \<Rightarrow> True)
         else if rr_operator rule = Some ''starts_with'' then
           (case (actual, v) of
              (Some a, JStr p) \<Rightarrow> a \<noteq> [] \<and> starts_with p a
            | _ \<Rightarrow> False)
         else True)"

definition level_routing_matches :: "level_config \<Rightarrow> attrs \<Rightarrow> bool" where
  "level_routing_matches level ats \<longleftrightarrow>
     list_all (\<lambda>r. evaluate_routing_rule r ats) (get_or (lc_routing_rules level) [])"

definition invoice_routing_attrs :: "invoice \<Rightarrow> attrs" where
  "invoice_routing_attrs iv =
     [(''gl_account'', gl_account iv), (''cost_center'', cost_center iv),
      (''department'', department iv), (''vendor_id'', map_option uuid_str (vendor_id iv))]"

section \<open>Money gates\<close>

text \<open>\<open>str()\<close> of a boolean, a list or an object is never the text of a number.\<close>

definition to_decimal :: "json \<Rightarrow> decimal option" where
  "to_decimal v =
     (case v of
        JInt i \<Rightarrow> Some (Fin (of_int i))
      | JFloat r \<Rightarrow> parse_decimal r
      | JStr s \<Rightarrow> parse_decimal s
      | _ \<Rightarrow> None)"

record gate_amount =
  ga_amount :: decimal
  ga_currency :: string
  ga_expressible :: bool

text \<open>What callers pass: a \<open>GateAmount\<close>, a \<open>Decimal\<close>, or another bare value.\<close>

datatype gate_operand = Gate gate_amount | BareDecimal decimal | BareValue json

definition coerce_gate_amount :: "gate_operand \<Rightarrow> gate_amount" where
  "coerce_gate_amount v =
     (case v of
        Gate g \<Rightarrow> g
      | BareDecimal d \<Rightarrow> \<lparr>ga_amount = d, ga_currency = [], ga_expressible = True\<rparr>
      | BareValue j \<Rightarrow>
          \<lparr>ga_amount = get_or (to_decimal j) (Fin 0), ga_currency = [], ga_expressible = True\<rparr>)"

definition reporting_gate_amount ::
    "string \<Rightarrow> invoice \<Rightarrow> rat option \<Rightarrow> json \<Rightarrow> gate_amount py" where
  "reporting_gate_amount platform_default iv amt org_settings =
     py_bind (resolve_reporting_currency platform_default org_settings) (\<lambda>rc.
     py_bind (reporting_amount_at_locked_rate (get_or amt (amount iv)) (Some (currency iv)) rc
                (reporting_currency iv) (reporting_source_currency iv) (reporting_fx_rate iv))
       (\<lambda>(converted, unconverted).
          Inr \<lparr>ga_amount = Fin converted, ga_currency = rc, ga_expressible = \<not> unconverted\<rparr>))"

definition finite_money_threshold :: "json \<Rightarrow> rat option" where
  "finite_money_threshold v =
     (case to_decimal v of Some (Fin x) \<Rightarrow> Some x | _ \<Rightarrow> None)"

definition money_gate_applies :: "json \<Rightarrow> gate_operand \<Rightarrow> bool py" where
  "money_gate_applies threshold_raw amt =
     (if threshold_raw = JNull then Inr False
      else case finite_money_threshold threshold_raw of
        None \<Rightarrow> Inr True
      | Some threshold \<Rightarrow>
          (let g = coerce_gate_amount amt
           in if \<not> ga_expressible g then Inr True
              else dec_greater (ga_amount g) (Fin threshold)))"

definition cfo_gate_applies :: "json \<Rightarrow> gate_operand \<Rightarrow> bool py" where
  "cfo_gate_applies threshold_raw amt = money_gate_applies threshold_raw amt"

definition max_amount_gate_applies :: "json \<Rightarrow> gate_operand \<Rightarrow> bool py" where
  "max_amount_gate_applies threshold_raw amt = money_gate_applies threshold_raw amt"

section \<open>The levels that apply\<close>

definition within_band :: "level_config \<Rightarrow> decimal \<Rightarrow> bool py" where
  "within_band level amt =
     py_bind (case to_decimal (lc_min_amount level) of
                None \<Rightarrow> Inr False | Some mn \<Rightarrow> dec_less amt mn) (\<lambda>below.
       if below then Inr False
       else py_bind (case to_decimal (lc_max_amount level) of
                       None \<Rightarrow> Inr False | Some mx \<Rightarrow> dec_greater amt mx) (\<lambda>above.
              Inr (\<not> above)))"

definition resolve_applicable_levels ::
    "level_config list \<Rightarrow> gate_operand \<Rightarrow> attrs \<Rightarrow> level_config list py" where
  "resolve_applicable_levels chain amt ats =
     (let g = coerce_gate_amount amt
      in py_filter (\<lambda>level.
           py_bind (if ga_expressible g then within_band level (ga_amount g) else Inr True) (\<lambda>inside.
             Inr (inside \<and> level_routing_matches level ats))) chain)"

section \<open>The chain's state\<close>

definition chain_state_of :: "state_data option \<Rightarrow> chain_value" where
  "chain_state_of sd =
     (case get_or (sd_chain (get_or sd empty_state)) ChainEmpty of
        ChainNull \<Rightarrow> ChainEmpty
      | v \<Rightarrow> v)"

definition get_chain_progress :: "wf_instance \<Rightarrow> chain_value" where
  "get_chain_progress w = chain_state_of (state_data w)"

definition clear_chain_state :: "state_data \<Rightarrow> state_data" where
  "clear_chain_state sd = sd\<lparr>sd_chain := None\<rparr>"

definition put_chain :: "wf_instance \<Rightarrow> chain_state \<Rightarrow> wf_instance" where
  "put_chain w c =
     w\<lparr>state_data := Some ((get_or (state_data w) empty_state)\<lparr>sd_chain := Some (ChainObj c)\<rparr>)\<rparr>"

definition init_level :: "time \<Rightarrow> nat \<Rightarrow> level_config \<Rightarrow> level_state" where
  "init_level now i level =
     \<lparr>lv_level = i,
      lv_name = get_or (lc_name level) (''Level '' @ nat_str (i + 1)),
      lv_required = get_or (lc_required_approvals level) 1,
      lv_approver_ids = get_or (lc_approver_ids level) [],
      lv_approvals = [],
      lv_parallel_mode = get_or (lc_parallel_mode level) ''any'',
      lv_escalation_hours = lc_escalation_hours level,
      lv_escalation_to = get_or (lc_escalation_to_user_ids level) [],
      lv_entered_at = (if i = 0 then Some (Iso now) else None),
      lv_escalations = []\<rparr>"

definition init_chain_state :: "time \<Rightarrow> wf_instance \<Rightarrow> level_config list \<Rightarrow> wf_instance" where
  "init_chain_state now w applicable =
     put_chain w \<lparr>levels = map (\<lambda>(i, l). init_level now i l) (enumerate 0 applicable),
                  current_level = 0\<rparr>"

section \<open>Who may approve\<close>

definition delegate_of :: "time \<Rightarrow> user list \<Rightarrow> string \<Rightarrow> string option" where
  "delegate_of now us approver_id =
     (case uuid_parse approver_id of
        None \<Rightarrow> None
      | Some u \<Rightarrow> (case resolve_assignee now us u of
                    (effective, Some original) \<Rightarrow> Some (uuid_str effective)
                  | (effective, None) \<Rightarrow> None))"

definition resolve_authorized_approvers :: "time \<Rightarrow> user list \<Rightarrow> string list \<Rightarrow> string set" where
  "resolve_authorized_approvers now us approver_ids =
     set approver_ids \<union> set (List.map_filter (delegate_of now us) approver_ids)"

definition check_level_approver :: "time \<Rightarrow> user list \<Rightarrow> string list \<Rightarrow> uuid \<Rightarrow> unit py" where
  "check_level_approver now us approver_ids actor =
     (if approver_ids = [] then Inr ()
      else if uuid_str actor \<in> set approver_ids then Inr ()
      else py_guard (uuid_str actor \<notin> resolve_authorized_approvers now us approver_ids)
             (HTTPException 403 ''You are not an authorized approver''))"

section \<open>Advancing the chain\<close>

definition approvers_of :: "level_state \<Rightarrow> string set" where
  "approvers_of level = ap_user ` set (lv_approvals level)"

definition level_satisfied :: "level_state \<Rightarrow> bool" where
  "level_satisfied level \<longleftrightarrow>
     (let approved = remdups (map ap_user (lv_approvals level))
      in if lv_parallel_mode level = ''all''
         then list_all (\<lambda>u. u \<in> set approved) (lv_approver_ids level)
         else lv_required level \<le> int (length approved))"

definition approved_elsewhere :: "chain_state \<Rightarrow> string \<Rightarrow> bool" where
  "approved_elsewhere c actor \<longleftrightarrow>
     list_ex (\<lambda>(idx, lvl). idx \<noteq> current_level c \<and> list_ex (\<lambda>a. ap_user a = actor) (lv_approvals lvl))
       (enumerate 0 (levels c))"

definition record_approval :: "time \<Rightarrow> chain_state \<Rightarrow> string \<Rightarrow> bool \<times> chain_state" where
  "record_approval now c actor =
     (let cur = current_level c;
          lvl = levels c ! cur;
          lvl' = lvl\<lparr>lv_approvals := lv_approvals lvl @ [\<lparr>ap_user = actor, ap_at = now\<rparr>]\<rparr>;
          ls = (levels c)[cur := lvl']
      in if level_satisfied lvl' then
           (if cur + 1 \<ge> length ls then (True, \<lparr>levels = ls, current_level = cur + 1\<rparr>)
            else (False, \<lparr>levels = ls[cur + 1 := (ls ! (cur + 1))\<lparr>lv_entered_at := Some (Iso now)\<rparr>],
                          current_level = cur + 1\<rparr>))
         else (False, \<lparr>levels = ls, current_level = cur\<rparr>))"

definition advance_approval_chain :: "time \<Rightarrow> wf_instance \<Rightarrow> uuid \<Rightarrow> (bool \<times> wf_instance) py" where
  "advance_approval_chain now w actor =
     (case chain_state_of (state_data w) of
        ChainObj c \<Rightarrow>
          if length (levels c) \<le> current_level c then Inr (True, w)
          else py_bind (py_guard (approved_elsewhere c (uuid_str actor))
                          (HTTPException 403 ''You already approved an earlier level''))
            (\<lambda>_. case record_approval now c (uuid_str actor) of
                   (finished, c') \<Rightarrow> Inr (finished, put_chain w c'))
      | ChainCorrupt _ \<Rightarrow> Inl AttributeError
      | _ \<Rightarrow> Inr (True, w))"

section \<open>Escalation\<close>

definition escalated_approvers :: "level_state \<Rightarrow> string list \<Rightarrow> string list" where
  "escalated_approvers level new_targets =
     (if lv_parallel_mode level = ''all'' then
        (let approved_ids = approvers_of level;
             kept = filter (\<lambda>u. u \<in> approved_ids) (lv_approver_ids level)
         in kept @ filter (\<lambda>u. u \<notin> set kept) new_targets)
      else lv_approver_ids level @ new_targets)"

definition escalate_level :: "time \<Rightarrow> level_state \<Rightarrow> level_state option" where
  "escalate_level now level =
     (let hours = get_or (lv_escalation_hours level) 0
      in case lv_entered_at level of
           Some (Iso entered) \<Rightarrow>
             if hours = 0 \<or> lv_escalation_to level = [] then None
             else if now - entered < hours_us hours then None
             else if lv_approver_ids level = [] then None
             else
               (let new_targets = filter (\<lambda>u. u \<notin> set (lv_approver_ids level)) (lv_escalation_to level)
                in if new_targets = [] then None
                   else Some (level\<lparr>lv_approver_ids := escalated_approvers level new_targets,
                                   lv_escalations := lv_escalations level @
                                     [\<lparr>es_at = now, es_added = new_targets, es_after_hours = hours\<rparr>]\<rparr>))
         | _ \<Rightarrow> None)"

definition apply_escalation :: "time \<Rightarrow> wf_instance \<Rightarrow> (bool \<times> wf_instance) py" where
  "apply_escalation now w =
     (case chain_state_of (state_data w) of
        ChainObj c \<Rightarrow>
          if length (levels c) \<le> current_level c then Inr (False, w)
          else (case escalate_level now (levels c ! current_level c) of
                  None \<Rightarrow> Inr (False, w)
                | Some level' \<Rightarrow>
                    Inr (True, put_chain w (c\<lparr>levels := (levels c)[current_level c := level']\<rparr>)))
      | ChainCorrupt _ \<Rightarrow> Inl AttributeError
      | _ \<Rightarrow> Inr (False, w))"

section \<open>Facts about the money gates\<close>

text \<open>
  The contract the money gates share, which the approval path relies on: an unset threshold is
  no gate, and every way of having nothing to compare fires it.
\<close>

locale money_gate =
  fixes applies :: "json \<Rightarrow> gate_operand \<Rightarrow> bool py"
  assumes unset: "applies JNull a = Inr False"
    and unusable: "t \<noteq> JNull \<Longrightarrow> finite_money_threshold t = None \<Longrightarrow> applies t a = Inr True"
    and inexpressible: "t \<noteq> JNull \<Longrightarrow> \<not> ga_expressible (coerce_gate_amount a) \<Longrightarrow> applies t a = Inr True"
    and compares: "finite_money_threshold t = Some x \<Longrightarrow> ga_expressible (coerce_gate_amount a) \<Longrightarrow>
      ga_amount (coerce_gate_amount a) = Fin y \<Longrightarrow> applies t a = Inr (x < y)"
begin

lemma gate_total:
  assumes "ga_amount (coerce_gate_amount a) = Fin y"
  shows "\<exists>b. applies t a = Inr b"
proof (cases "t = JNull \<or> finite_money_threshold t = None \<or> \<not> ga_expressible (coerce_gate_amount a)")
  case True
  then show ?thesis using unset unusable inexpressible by metis
next
  case False
  then obtain x where "finite_money_threshold t = Some x" by auto
  with False assms compares show ?thesis by blast
qed

lemma passes_iff:
  assumes "ga_amount (coerce_gate_amount a) = Fin y"
  shows "applies t a = Inr False \<longleftrightarrow> t = JNull \<or>
     (\<exists>x. finite_money_threshold t = Some x \<and> ga_expressible (coerce_gate_amount a) \<and> y \<le> x)"
proof (cases "t = JNull")
  case False
  show ?thesis
  proof (cases "finite_money_threshold t")
    case None
    with False show ?thesis by (simp add: unusable)
  next
    case (Some x)
    show ?thesis
    proof (cases "ga_expressible (coerce_gate_amount a)")
      case True
      from compares [OF Some True assms] False Some True show ?thesis by auto
    next
      case no: False
      with False show ?thesis by (simp add: inexpressible)
    qed
  qed
qed (simp add: unset)

lemma gate_monotone:
  assumes "applies t (Gate \<lparr>ga_amount = Fin y, ga_currency = c, ga_expressible = e\<rparr>) = Inr True" "y \<le> z"
  shows "applies t (Gate \<lparr>ga_amount = Fin z, ga_currency = c, ga_expressible = e\<rparr>) = Inr True"
proof -
  let ?a = "\<lambda>v. Gate \<lparr>ga_amount = Fin v, ga_currency = c, ga_expressible = e\<rparr>"
  have fin: "ga_amount (coerce_gate_amount (?a v)) = Fin v" for v by (simp add: coerce_gate_amount_def)
  have "applies t (?a z) \<noteq> Inr False"
  proof
    assume "applies t (?a z) = Inr False"
    then have "applies t (?a y) = Inr False"
      using assms(2) passes_iff [OF fin, of t z] passes_iff [OF fin, of t y]
      by (auto simp: coerce_gate_amount_def)
    with assms(1) show False by simp
  qed
  with gate_total [OF fin, of t z] show ?thesis by auto
qed

end

lemma money_gate_laws: "money_gate money_gate_applies"
  by unfold_locales
    (auto simp: money_gate_applies_def finite_money_threshold_def to_decimal_def Let_def
      split: option.splits decimal.splits)

interpretation cfo_gate: money_gate cfo_gate_applies
  using money_gate_laws by (simp add: cfo_gate_applies_def [abs_def])

interpretation max_gate: money_gate max_amount_gate_applies
  using money_gate_laws by (simp add: max_amount_gate_applies_def [abs_def])

lemma reporting_gate_amount_Inr:
  assumes "reporting_gate_amount pd iv amt org = Inr g"
  obtains rc where "resolve_reporting_currency pd org = Inr rc" "ga_currency g = rc"
    "\<not> ga_expressible g \<or> (\<exists>r. ga_amount g = Fin (round_half_up 2 r) \<and>
       (norm_code (currency iv) = norm_code rc \<and> r = get_or amt (amount iv) \<or>
        (\<exists>q. reporting_fx_rate iv = Some q \<and> 0 < q \<and> r = ctx_mult (get_or amt (amount iv)) q
          \<and> map_option norm_code (reporting_currency iv) = Some (norm_code rc)
          \<and> map_option norm_code (reporting_source_currency iv) = Some (norm_code (currency iv)))
        \<or> currency iv = [] \<and> r = get_or amt (amount iv)))"
    "\<exists>y. ga_amount g = Fin y"
proof -
  from assms obtain rc a u where rc: "resolve_reporting_currency pd org = Inr rc"
    and l: "reporting_amount_at_locked_rate (get_or amt (amount iv)) (Some (currency iv)) rc
                (reporting_currency iv) (reporting_source_currency iv) (reporting_fx_rate iv) = Inr (a, u)"
    and g: "g = \<lparr>ga_amount = Fin a, ga_currency = rc, ga_expressible = \<not> u\<rparr>"
    by (auto simp: reporting_gate_amount_def)
  have "rc \<noteq> []" "norm_code rc = rc" using resolve_reporting_currency_Inr [OF rc] by simp_all
  with l g have "\<not> ga_expressible g \<or> (\<exists>r. ga_amount g = Fin (round_half_up 2 r) \<and>
       (norm_code (currency iv) = norm_code rc \<and> r = get_or amt (amount iv) \<or>
        (\<exists>q. reporting_fx_rate iv = Some q \<and> 0 < q \<and> r = ctx_mult (get_or amt (amount iv)) q
          \<and> map_option norm_code (reporting_currency iv) = Some (norm_code rc)
          \<and> map_option norm_code (reporting_source_currency iv) = Some (norm_code (currency iv)))
        \<or> currency iv = [] \<and> r = get_or amt (amount iv)))"
    by (auto simp: reporting_amount_at_locked_rate_def Let_def split: if_splits option.splits
        dest!: quantize_money_Inr)
  with rc g that show ?thesis by simp
qed

section \<open>Facts about the chain\<close>

lemma chain_state_of_put [simp]:
  "chain_state_of (state_data (put_chain w c)) = ChainObj c"
  "get_or (sd_chain (get_or (state_data (put_chain w c)) empty_state)) ChainEmpty = ChainObj c"
  by (simp_all add: chain_state_of_def put_chain_def)

lemma approved_elsewhere_iff:
  "approved_elsewhere c actor \<longleftrightarrow>
     (\<exists>i < length (levels c). i \<noteq> current_level c \<and> actor \<in> approvers_of (levels c ! i))"
  by (auto simp: approved_elsewhere_def list_ex_iff in_set_enumerate_eq approvers_of_def image_iff) blast+

lemma level_satisfied_iff:
  "level_satisfied level \<longleftrightarrow>
     (if lv_parallel_mode level = ''all'' then set (lv_approver_ids level) \<subseteq> approvers_of level
      else lv_required level \<le> int (card (approvers_of level)))"
proof -
  have "length (remdups (map ap_user (lv_approvals level))) = card (approvers_of level)"
    by (simp add: approvers_of_def length_remdups_card_conv)
  then show ?thesis by (auto simp: level_satisfied_def list_all_iff Let_def approvers_of_def)
qed

lemma entered_at_irrelevant [simp]:
  "level_satisfied (l\<lparr>lv_entered_at := e\<rparr>) = level_satisfied l"
  "approvers_of (l\<lparr>lv_entered_at := e\<rparr>) = approvers_of l"
  "approvers_of (l\<lparr>lv_approver_ids := ids\<rparr>) = approvers_of l"
  "approvers_of (l\<lparr>lv_escalations := es\<rparr>) = approvers_of l"
  by (simp_all add: level_satisfied_def approvers_of_def)

text \<open>The level an approval is recorded on.\<close>

definition approved_level :: "time \<Rightarrow> chain_state \<Rightarrow> string \<Rightarrow> level_state" where
  "approved_level now c actor =
     (let l = levels c ! current_level c
      in l\<lparr>lv_approvals := lv_approvals l @ [\<lparr>ap_user = actor, ap_at = now\<rparr>]\<rparr>)"

lemma approved_level_simps [simp]:
  "approvers_of (approved_level now c actor) = insert actor (approvers_of (levels c ! current_level c))"
  "lv_required (approved_level now c actor) = lv_required (levels c ! current_level c)"
  "lv_parallel_mode (approved_level now c actor) = lv_parallel_mode (levels c ! current_level c)"
  "lv_approver_ids (approved_level now c actor) = lv_approver_ids (levels c ! current_level c)"
  by (auto simp: approved_level_def Let_def approvers_of_def)

lemma record_approval_props:
  assumes "record_approval now c actor = (fin, c')" "current_level c < length (levels c)"
  shows "length (levels c') = length (levels c)"
    "current_level c' = current_level c + (if level_satisfied (approved_level now c actor) then 1 else 0)"
    "fin \<longleftrightarrow> length (levels c') \<le> current_level c'"
    "levels c' ! current_level c = approved_level now c actor"
    "i < length (levels c) \<Longrightarrow> i \<noteq> current_level c \<Longrightarrow>
       levels c' ! i = (levels c ! i)\<lparr>lv_entered_at :=
         (if level_satisfied (approved_level now c actor) \<and> i = current_level c + 1
          then Some (Iso now) else lv_entered_at (levels c ! i))\<rparr>"
  using assms
  by (auto simp: record_approval_def Let_def approved_level_def nth_list_update split: if_splits)

definition chain_ok :: "chain_state \<Rightarrow> bool" where
  "chain_ok c \<longleftrightarrow>
     current_level c \<le> length (levels c)
     \<and> (\<forall>i < current_level c. level_satisfied (levels c ! i))
     \<and> (\<forall>i < length (levels c). current_level c < i \<longrightarrow> approvers_of (levels c ! i) = {})
     \<and> (\<forall>i < length (levels c). \<forall>j < length (levels c). i \<noteq> j \<longrightarrow>
          approvers_of (levels c ! i) \<inter> approvers_of (levels c ! j) = {})"

lemma chain_okD:
  assumes "chain_ok c"
  shows "current_level c \<le> length (levels c)" "i < current_level c \<Longrightarrow> level_satisfied (levels c ! i)"
    "i < length (levels c) \<Longrightarrow> current_level c < i \<Longrightarrow> approvers_of (levels c ! i) = {}"
    "i < length (levels c) \<Longrightarrow> j < length (levels c) \<Longrightarrow> i \<noteq> j \<Longrightarrow>
       approvers_of (levels c ! i) \<inter> approvers_of (levels c ! j) = {}"
  using assms by (auto simp: chain_ok_def)

lemma record_approval_ok:
  assumes r: "record_approval now c actor = (fin, c')" and lt: "current_level c < length (levels c)"
    and ok: "chain_ok c" and new: "\<not> approved_elsewhere c actor"
  shows "chain_ok c'"
proof -
  note p = record_approval_props [OF r lt]
  note ok' = chain_okD [OF ok]
  have ap: "approvers_of (levels c' ! i) =
      (if i = current_level c then insert actor (approvers_of (levels c ! i)) else approvers_of (levels c ! i))"
    if "i < length (levels c)" for i
    using that p(4) p(5) [of i] by (cases "i = current_level c") simp_all
  have out: "actor \<notin> approvers_of (levels c ! i)" if "i < length (levels c)" "i \<noteq> current_level c" for i
    using new that by (auto simp: approved_elsewhere_iff)
  have sat: "level_satisfied (levels c' ! i)" if "i < current_level c'" for i
  proof (cases "i = current_level c")
    case True
    with that p(2,4) show ?thesis by (auto split: if_splits)
  next
    case False
    with that p(2) have "i < current_level c" by (auto split: if_splits)
    with lt ok'(2) p(5) [of i] show ?thesis by simp
  qed
  have "current_level c' \<le> length (levels c')" using p(1,2) lt by simp
  moreover have "approvers_of (levels c' ! i) = {}" if "i < length (levels c')" "current_level c' < i" for i
    using that p(1,2) ap [of i] ok'(3) [of i] by (auto split: if_splits)
  moreover have "approvers_of (levels c' ! i) \<inter> approvers_of (levels c' ! j) = {}"
    if "i < length (levels c')" "j < length (levels c')" "i \<noteq> j" for i j
    using that p(1) ap [of i] ap [of j] out [of i] out [of j] ok'(4) [of i j] by (auto split: if_splits)
  ultimately show ?thesis using sat by (simp add: chain_ok_def)
qed

lemma advance_cases:
  assumes "advance_approval_chain now w actor = Inr (fin, w')" "chain_state_of (state_data w) = ChainObj c"
  obtains (past) "length (levels c) \<le> current_level c" "fin" "w' = w"
    | (recorded) c' where "current_level c < length (levels c)" "\<not> approved_elsewhere c (uuid_str actor)"
        "record_approval now c (uuid_str actor) = (fin, c')" "w' = put_chain w c'"
  using assms
  by (cases "length (levels c) \<le> current_level c")
    (auto simp: advance_approval_chain_def split: prod.splits)

lemma advance_refused_iff:
  assumes "chain_state_of (state_data w) = ChainObj c"
  shows "advance_approval_chain now w actor = Inl e \<longleftrightarrow>
    current_level c < length (levels c) \<and> approved_elsewhere c (uuid_str actor)
    \<and> e = HTTPException 403 ''You already approved an earlier level''"
  using assms by (auto simp: advance_approval_chain_def py_bind_eq_Inl split: prod.splits)

section \<open>Facts about escalation\<close>

lemma escalate_level_Some:
  assumes "escalate_level now l = Some l'"
  obtains ts where "ts = filter (\<lambda>u. u \<notin> set (lv_approver_ids l)) (lv_escalation_to l)" "ts \<noteq> []"
    "lv_approver_ids l \<noteq> []" "lv_approver_ids l' = escalated_approvers l ts"
    "lv_approvals l' = lv_approvals l" "lv_required l' = lv_required l"
    "lv_parallel_mode l' = lv_parallel_mode l" "lv_escalation_to l' = lv_escalation_to l"
    "lv_escalation_hours l' = lv_escalation_hours l" "lv_entered_at l' = lv_entered_at l"
    "lv_level l' = lv_level l" "lv_name l' = lv_name l"
  using assms by (auto simp: escalate_level_def Let_def split: option.splits iso.splits if_splits)

lemma set_escalated_any:
  "lv_parallel_mode l \<noteq> ''all'' \<Longrightarrow> set (escalated_approvers l ts) = set (lv_approver_ids l) \<union> set ts"
  by (simp add: escalated_approvers_def)

lemma set_escalated_all:
  "lv_parallel_mode l = ''all'' \<Longrightarrow>
     set (escalated_approvers l ts) = (set (lv_approver_ids l) \<inter> approvers_of l) \<union> set ts"
  by (auto simp: escalated_approvers_def Let_def)

lemma apply_escalation_cases:
  assumes "apply_escalation now w = Inr (changed, w')" "chain_state_of (state_data w) = ChainObj c"
  obtains (same) "\<not> changed" "w' = w"
    | (escalated) l' where "changed" "current_level c < length (levels c)"
        "escalate_level now (levels c ! current_level c) = Some l'"
        "w' = put_chain w (c\<lparr>levels := (levels c)[current_level c := l']\<rparr>)"
  using assms
  by (cases "length (levels c) \<le> current_level c"; cases "escalate_level now (levels c ! current_level c)")
    (auto simp: apply_escalation_def)

lemma escalation_chain_ok:
  assumes ok: "chain_ok c" and lt: "current_level c < length (levels c)"
    and e: "escalate_level now (levels c ! current_level c) = Some l'"
  shows "chain_ok (c\<lparr>levels := (levels c)[current_level c := l']\<rparr>)"
proof -
  have "approvers_of l' = approvers_of (levels c ! current_level c)"
    using e by (rule escalate_level_Some) (simp add: approvers_of_def)
  then have ap: "approvers_of ((levels c)[current_level c := l'] ! i) = approvers_of (levels c ! i)"
    if "i < length (levels c)" for i using that lt by (simp add: nth_list_update)
  show ?thesis using chain_okD [OF ok] lt ap by (simp add: chain_ok_def)
qed

section \<open>The chain as a step system\<close>

inductive chain_move :: "wf_instance \<Rightarrow> wf_instance \<Rightarrow> bool" where
  move_approve: "advance_approval_chain now w actor = Inr (fin, w') \<Longrightarrow> chain_move w w'"
| move_escalate: "apply_escalation now w = Inr (changed, w') \<Longrightarrow> chain_move w w'"

definition instance_chain_ok :: "wf_instance \<Rightarrow> bool" where
  "instance_chain_ok w \<longleftrightarrow> (\<exists>c. chain_state_of (state_data w) = ChainObj c \<and> chain_ok c)"

lemma init_chain_ok: "instance_chain_ok (init_chain_state now w ls)"
  by (simp add: instance_chain_ok_def init_chain_state_def chain_ok_def nth_enumerate_eq
      init_level_def approvers_of_def)

lemma chain_move_ok: "chain_move w w' \<Longrightarrow> instance_chain_ok w \<Longrightarrow> instance_chain_ok w'"
proof (induction rule: chain_move.induct)
  case (move_approve now w actor fin w')
  then obtain c where c: "chain_state_of (state_data w) = ChainObj c" "chain_ok c"
    by (auto simp: instance_chain_ok_def)
  from move_approve(1) c(1) show ?case
    by (cases rule: advance_cases)
      (use c record_approval_ok in \<open>auto simp: instance_chain_ok_def\<close>)
next
  case (move_escalate now w changed w')
  then obtain c where c: "chain_state_of (state_data w) = ChainObj c" "chain_ok c"
    by (auto simp: instance_chain_ok_def)
  from move_escalate(1) c(1) show ?case
    by (cases rule: apply_escalation_cases)
      (use c escalation_chain_ok in \<open>auto simp: instance_chain_ok_def\<close>)
qed

interpretation chain_run: step_system
  "\<lambda>w. \<exists>now w0 ls. w = init_chain_state now w0 ls" chain_move instance_chain_ok
  by unfold_locales (auto intro: init_chain_ok chain_move_ok)


section \<open>How many approvals a chain takes\<close>

fun run_approvals :: "wf_instance \<Rightarrow> (time \<times> uuid) list \<Rightarrow> (bool list \<times> wf_instance) py" where
  "run_approvals w [] = Inr ([], w)"
| "run_approvals w ((now, actor) # acts) =
     py_bind (advance_approval_chain now w actor) (\<lambda>(fin, w1).
     py_bind (run_approvals w1 acts) (\<lambda>(fins, w2). Inr (fin # fins, w2)))"

definition approvals_left :: "chain_state \<Rightarrow> int" where
  "approvals_left c =
     (\<Sum>i \<in> {current_level c..<length (levels c)}. lv_required (levels c ! i))
       - int (card (approvers_of (levels c ! current_level c)))"

text \<open>A chain under way: levels in \<open>any\<close> mode, each asking for somebody.\<close>

definition any_chain :: "chain_state \<Rightarrow> bool" where
  "any_chain c \<longleftrightarrow>
     (\<forall>l \<in> set (levels c). lv_parallel_mode l \<noteq> ''all'' \<and> 1 \<le> lv_required l)
     \<and> current_level c < length (levels c) \<and> \<not> level_satisfied (levels c ! current_level c)"

lemma finite_approvers [simp]: "finite (approvers_of l)"
  by (simp add: approvers_of_def)

lemma record_any:
  assumes r: "record_approval now c actor = (fin, c')" and ac: "any_chain c" and ok: "chain_ok c"
    and new: "\<forall>l \<in> set (levels c). actor \<notin> approvers_of l"
  shows "fin \<Longrightarrow> approvals_left c = 1" "1 \<le> approvals_left c"
    "\<not> fin \<Longrightarrow> approvals_left c' = approvals_left c - 1 \<and> any_chain c'"
    "(\<Union>l \<in> set (levels c'). approvers_of l) = insert actor (\<Union>l \<in> set (levels c). approvers_of l)"
proof -
  define k n where "k = current_level c" and "n = length (levels c)"
  from ac have lt: "k < n" and unsat: "\<not> level_satisfied (levels c ! k)"
    by (auto simp: any_chain_def k_def n_def)
  have pol: "lv_parallel_mode (levels c ! i) \<noteq> ''all''" "1 \<le> lv_required (levels c ! i)" if "i < n" for i
    using ac that nth_mem [of i "levels c"] by (auto simp: any_chain_def n_def)
  note p = record_approval_props [OF r lt [unfolded k_def n_def], folded k_def n_def]
  have same: "lv_required (levels c' ! i) = lv_required (levels c ! i)"
    "lv_parallel_mode (levels c' ! i) = lv_parallel_mode (levels c ! i)" if "i < n" for i
    using that p(4) p(5) [of i] by (cases "i = k"; simp add: k_def)+
  have ap: "approvers_of (levels c' ! i) =
      (if i = k then insert actor (approvers_of (levels c ! i)) else approvers_of (levels c ! i))"
    if "i < n" for i using that p(4) p(5) [of i] by (cases "i = k") (simp_all add: k_def)
  let ?a = "int (card (approvers_of (levels c ! k)))" let ?r = "lv_required (levels c ! k)"
  let ?rest = "\<Sum>i \<in> {Suc k..<n}. lv_required (levels c ! i)"
  have fresh: "actor \<notin> approvers_of (levels c ! k)" using new lt nth_mem by (auto simp: n_def)
  have a: "?a < ?r" using unsat pol [OF lt] by (simp add: level_satisfied_iff)
  have left: "approvals_left c = ?r + ?rest - ?a"
    unfolding approvals_left_def k_def [symmetric] n_def [symmetric]
    using lt by (simp add: sum.atLeast_Suc_lessThan)
  have rest: "0 \<le> ?rest" using pol(2) by (intro sum_nonneg) (auto intro: order_trans [of 0 1])
  then show "1 \<le> approvals_left c" using left a by simp
  have sat: "level_satisfied (approved_level now c actor) \<longleftrightarrow> ?r \<le> ?a + 1"
    using pol [OF lt] fresh by (auto simp: level_satisfied_iff k_def)
  show "approvals_left c = 1" if fin
    using that p(1,2,3) sat a left lt by (auto split: if_splits)
  have sum': "(\<Sum>i \<in> {m..<n}. lv_required (levels c' ! i)) = (\<Sum>i \<in> {m..<n}. lv_required (levels c ! i))" for m
    using same by (intro sum.cong) auto
  show "approvals_left c' = approvals_left c - 1 \<and> any_chain c'" if nf: "\<not> fin"
  proof (cases "?r \<le> ?a + 1")
    case True
    with sat p(2) have cur: "current_level c' = Suc k" by simp
    with nf p(1,3) have lt': "Suc k < n" by auto
    have none: "approvers_of (levels c' ! Suc k) = {}"
      using ap [OF lt'] chain_okD(3) [OF ok, of "Suc k"] lt' by (simp add: k_def n_def)
    have "approvals_left c' = ?rest"
      unfolding approvals_left_def cur p(1) sum' none by simp
    moreover have "\<not> level_satisfied (levels c' ! Suc k)"
      using pol [OF lt'] same [OF lt'] none by (simp add: level_satisfied_iff)
    then have "any_chain c'"
      using pol same lt' cur p(1) by (auto simp: any_chain_def in_set_conv_nth)
    ultimately show ?thesis using left a True by simp
  next
    case False
    with sat p(2) have cur: "current_level c' = k" by simp
    have "int (card (approvers_of (levels c' ! k))) = ?a + 1" using ap [OF lt] fresh by simp
    moreover have "(\<Sum>i \<in> {k..<n}. lv_required (levels c' ! i)) = ?r + ?rest"
      unfolding sum' using lt by (simp add: sum.atLeast_Suc_lessThan)
    ultimately have "approvals_left c' = approvals_left c - 1" and "\<not> level_satisfied (levels c' ! k)"
      using left False same [OF lt] pol [OF lt] by (simp_all add: approvals_left_def cur p(1) level_satisfied_iff)
    then show ?thesis
      using pol same lt cur p(1) by (auto simp: any_chain_def in_set_conv_nth)
  qed
  have "(\<Union>l \<in> set (levels c'). approvers_of l) = (\<Union>i \<in> {..<n}. approvers_of (levels c' ! i))"
    using p(1) by (auto simp: set_conv_nth n_def)
  also have "\<dots> = insert actor (\<Union>i \<in> {..<n}. approvers_of (levels c ! i))" using ap lt by auto
  finally show "(\<Union>l \<in> set (levels c'). approvers_of l) = insert actor (\<Union>l \<in> set (levels c). approvers_of l)"
    by (auto simp: set_conv_nth n_def)
qed

lemma advance_any:
  assumes "chain_state_of (state_data w) = ChainObj c" "any_chain c"
    and "\<forall>l \<in> set (levels c). uuid_str actor \<notin> approvers_of l"
    and "record_approval now c (uuid_str actor) = (fin, c')"
  shows "advance_approval_chain now w actor = Inr (fin, put_chain w c')"
proof -
  have "\<not> approved_elsewhere c (uuid_str actor)" using assms(3) by (auto simp: approved_elsewhere_iff)
  with assms show ?thesis by (simp add: advance_approval_chain_def any_chain_def)
qed

lemma run_approvals_any:
  assumes "chain_state_of (state_data w) = ChainObj c" "any_chain c" "chain_ok c"
    and "distinct (map snd acts)"
    and "\<forall>a \<in> set (map snd acts). \<forall>l \<in> set (levels c). uuid_str a \<notin> approvers_of l"
    and "int (length acts) = approvals_left c"
  shows "\<exists>w'. run_approvals w acts = Inr (replicate (length acts - 1) False @ [True], w')"
  using assms
proof (induction acts arbitrary: w c)
  case Nil
  obtain fin c' where r: "record_approval 0 c [] = (fin, c')" by (cases "record_approval 0 c []")
  have "approvals_left c = 0" using Nil by simp
  define k where "k = current_level c"
  have lt: "k < length (levels c)" and u: "\<not> level_satisfied (levels c ! k)" using Nil(2) by (auto simp: any_chain_def k_def)
  have pol: "lv_parallel_mode (levels c ! i) \<noteq> ''all'' \<and> 1 \<le> lv_required (levels c ! i)" if "i < length (levels c)" for i
    using Nil(2) that nth_mem [of i "levels c"] by (auto simp: any_chain_def)
  have "0 \<le> (\<Sum>i \<in> {Suc k..<length (levels c)}. lv_required (levels c ! i))"
    using pol by (intro sum_nonneg) (auto intro: order_trans [of 0 1])
  then have "0 < approvals_left c"
    unfolding approvals_left_def k_def [symmetric]
    using lt u pol [OF lt] by (simp add: sum.atLeast_Suc_lessThan level_satisfied_iff)
  with \<open>approvals_left c = 0\<close> show ?case by simp
next
  case (Cons x acts)
  obtain now a where x: "x = (now, a)" by (cases x)
  obtain fin c' where r: "record_approval now c (uuid_str a) = (fin, c')"
    by (cases "record_approval now c (uuid_str a)")
  have new: "\<forall>l \<in> set (levels c). uuid_str a \<notin> approvers_of l" using Cons.prems(5) x by simp
  note st = record_any [OF r Cons.prems(2,3) new]
  note adv = advance_any [OF Cons.prems(1,2) new r]
  have ok': "chain_ok c'"
    using record_approval_ok [OF r _ Cons.prems(3)] Cons.prems(2) new
    by (auto simp: any_chain_def approved_elsewhere_iff)
  show ?case
  proof (cases fin)
    case True
    with st(1) Cons.prems(6) have "acts = []" by simp
    with True x adv show ?thesis by simp
  next
    case False
    from st(3) [OF False] have left: "int (length acts) = approvals_left c'" and ac: "any_chain c'"
      using Cons.prems(6) by simp_all
    have "\<forall>b \<in> set (map snd acts). \<forall>l \<in> set (levels c'). uuid_str b \<notin> approvers_of l"
    proof (intro ballI notI)
      fix b l assume b: "b \<in> set (map snd acts)" and "l \<in> set (levels c')" "uuid_str b \<in> approvers_of l"
      then have "uuid_str b \<in> insert (uuid_str a) (\<Union>l \<in> set (levels c). approvers_of l)"
        using st(4) by blast
      moreover have "b \<noteq> a" using b Cons.prems(4) x by auto
      moreover have "uuid_str b \<notin> approvers_of l'" if "l' \<in> set (levels c)" for l'
        using b that Cons.prems(5) by auto
      ultimately show False by simp
    qed
    then obtain w' where w': "run_approvals (put_chain w c') acts = Inr (replicate (length acts - 1) False @ [True], w')"
      using Cons.IH [of "put_chain w c'" c'] ac ok' left Cons.prems(4) by auto
    have "acts \<noteq> []"
    proof
      assume "acts = []"
      with w' show False by simp
    qed
    then have "False # replicate (length acts - 1) False = replicate (length acts) False"
      by (cases acts) auto
    then show ?thesis using False x adv w' by (simp flip: append_Cons)
  qed
qed

lemma init_any_chain:
  assumes "ls \<noteq> []" "\<forall>l \<in> set ls. lc_parallel_mode l \<noteq> Some ''all'' \<and> 1 \<le> get_or (lc_required_approvals l) 1"
  shows "\<exists>c. chain_state_of (state_data (init_chain_state now w ls)) = ChainObj c \<and> any_chain c \<and> chain_ok c
    \<and> (\<forall>l \<in> set (levels c). approvers_of l = {})
    \<and> approvals_left c = (\<Sum>l\<leftarrow>ls. get_or (lc_required_approvals l) 1)"
proof -
  let ?c = "\<lparr>levels = map (\<lambda>(i, l). init_level now i l) (enumerate 0 ls), current_level = 0\<rparr>"
  have none: "approvers_of l = {}" if "l \<in> set (levels ?c)" for l
    using that by (auto simp: init_level_def approvers_of_def)
  have "lv_required (levels ?c ! i) = get_or (lc_required_approvals (ls ! i)) 1" if "i < length ls" for i
    using that by (simp add: nth_enumerate_eq init_level_def)
  then have "approvals_left ?c = (\<Sum>i \<in> {0..<length ls}. get_or (lc_required_approvals (ls ! i)) 1)"
    using assms(1) none nth_mem [of 0 "levels ?c"] by (simp add: approvals_left_def)
  then have "approvals_left ?c = (\<Sum>l\<leftarrow>ls. get_or (lc_required_approvals l) 1)"
    by (simp add: sum_list_sum_nth)
  moreover have "lv_parallel_mode l \<noteq> ''all'' \<and> 1 \<le> lv_required l" if "l \<in> set (levels ?c)" for l
  proof -
    from that obtain i where "i < length ls" "l = init_level now i (ls ! i)"
      by (auto simp: in_set_conv_nth nth_enumerate_eq)
    with assms(2) nth_mem [of i ls] show ?thesis
      by (cases "lc_parallel_mode (ls ! i)") (auto simp: init_level_def)
  qed
  moreover from this have "\<not> level_satisfied (levels ?c ! 0)"
    using assms(1) none [of "levels ?c ! 0"] nth_mem [of 0 "levels ?c"]
    by (force simp: level_satisfied_iff simp del: nth_map)
  ultimately have "any_chain ?c" "approvals_left ?c = (\<Sum>l\<leftarrow>ls. get_or (lc_required_approvals l) 1)"
    using assms(1) by (auto simp: any_chain_def)
  moreover have "chain_ok ?c"
    by (simp add: chain_ok_def nth_enumerate_eq init_level_def approvers_of_def)
  ultimately show ?thesis using none by (intro exI [of _ ?c]) (simp add: init_chain_state_def)
qed

section \<open>Properties\<close>

text \<open>When segregation is not switched off by the JSON value \<open>false\<close>, exactly the
  uploader and the users stamped on the invoice are barred from approving it; switched off, nobody
  is. (The stamped list holds the text of the users' identifiers.)\<close>

theorem segregation_spec:
  "check_segregation (iv\<lparr>segregation_actor_ids := Some (map uuid_str implicated)\<rparr>) actor cfg =
     (if c_require_segregation cfg \<noteq> Some (JBool False)
         \<and> (uploaded_by_id iv = Some actor \<or> actor \<in> set implicated)
      then Inl (HTTPException 403 ''Segregation of duties'') else Inr ())"
  by (auto simp: check_segregation_def violates_segregation_def py_guard_def)

text \<open>A named-approver level admits exactly the people it names and the active delegates of
  those it names; a level that names nobody admits everyone.\<close>

theorem level_approver_spec:
  "check_level_approver now us ids actor = Inr () \<longleftrightarrow>
     ids = [] \<or> uuid_str actor \<in> set ids
     \<or> (\<exists>u r until. u \<in> set us \<and> find (\<lambda>r. us_id r = us_id u) us = Some u
          \<and> r \<in> set ids \<and> uuid_parse r = Some (us_id u)
          \<and> delegate_to_id u = Some actor \<and> delegate_until u = Some until \<and> now < until)"
proof -
  have d: "delegate_of now us r = Some (uuid_str actor) \<longleftrightarrow>
      (\<exists>u until. u \<in> set us \<and> find (\<lambda>r. us_id r = us_id u) us = Some u \<and> uuid_parse r = Some (us_id u)
         \<and> delegate_to_id u = Some actor \<and> delegate_until u = Some until \<and> now < until)" for r
    unfolding delegate_of_def resolve_assignee_def
    by (auto split: option.splits if_splits dest: find_Some_props)
  have m: "x \<in> set (List.map_filter f xs) \<longleftrightarrow> (\<exists>y \<in> set xs. f y = Some x)" for f :: "string \<Rightarrow> string option" and x xs
    by (induction xs) (auto simp: map_filter_simps split: option.splits)
  show ?thesis
    unfolding check_level_approver_def resolve_authorized_approvers_def
    by (auto simp: m d)
qed

text \<open>The same as a name: who may act on a list of approvers.\<close>

definition entitled :: "time \<Rightarrow> user list \<Rightarrow> string list \<Rightarrow> uuid \<Rightarrow> bool" where
  "entitled now us ids actor \<longleftrightarrow>
     ids = [] \<or> uuid_str actor \<in> set ids
     \<or> (\<exists>u r until. u \<in> set us \<and> find (\<lambda>r. us_id r = us_id u) us = Some u
          \<and> r \<in> set ids \<and> uuid_parse r = Some (us_id u)
          \<and> delegate_to_id u = Some actor \<and> delegate_until u = Some until \<and> now < until)"

lemma check_level_approver_iff: "check_level_approver now us ids actor = Inr () \<longleftrightarrow> entitled now us ids actor"
  unfolding entitled_def by (rule level_approver_spec)

text \<open>C12: An invoice clears a configured money gate only by an amount expressed in the
  organisation's reporting currency: its own amount when it is billed in that currency, or the
  product with a positive rate locked on the row for exactly that pair of currencies. A foreign
  amount is never compared at face value, and an unusable threshold never clears anything.\<close>

theorem money_gates_never_compare_at_face_value:
  assumes "reporting_gate_amount platform_default iv amt org = Inr g"
    and "cfo_gate_applies t (Gate g) = Inr False \<or> max_amount_gate_applies t (Gate g) = Inr False"
  shows "t = JNull \<or>
    (\<exists>x r rc. finite_money_threshold t = Some x \<and> resolve_reporting_currency platform_default org = Inr rc
       \<and> round_half_up 2 r \<le> x
       \<and> (r = get_or amt (amount iv) \<and> (currency iv = [] \<or> norm_code (currency iv) = norm_code rc) \<or>
          (\<exists>q. reporting_fx_rate iv = Some q \<and> 0 < q \<and> r = ctx_mult (get_or amt (amount iv)) q
             \<and> map_option norm_code (reporting_currency iv) = Some (norm_code rc)
             \<and> map_option norm_code (reporting_source_currency iv) = Some (norm_code (currency iv)))))"
proof -
  have c: "coerce_gate_amount (Gate g) = g" by (simp add: coerce_gate_amount_def)
  from assms(1) show ?thesis
  proof (rule reporting_gate_amount_Inr)
    fix rc
    assume rc: "resolve_reporting_currency platform_default org = Inr rc"
      and g: "\<not> ga_expressible g \<or> (\<exists>r. ga_amount g = Fin (round_half_up 2 r) \<and>
       (norm_code (currency iv) = norm_code rc \<and> r = get_or amt (amount iv) \<or>
        (\<exists>q. reporting_fx_rate iv = Some q \<and> 0 < q \<and> r = ctx_mult (get_or amt (amount iv)) q
          \<and> map_option norm_code (reporting_currency iv) = Some (norm_code rc)
          \<and> map_option norm_code (reporting_source_currency iv) = Some (norm_code (currency iv)))
        \<or> currency iv = [] \<and> r = get_or amt (amount iv)))"
      and "\<exists>y. ga_amount g = Fin y"
    then obtain y where y: "ga_amount (coerce_gate_amount (Gate g)) = Fin y" using c by auto
    from assms(2) cfo_gate.passes_iff [OF y, of t] max_gate.passes_iff [OF y, of t]
    have "t = JNull \<or> (\<exists>x. finite_money_threshold t = Some x \<and> ga_expressible g \<and> y \<le> x)"
      by (auto simp: c)
    with rc g y c show ?thesis by auto
  qed
qed

definition locked_invoice :: invoice where
  "locked_invoice = sample_invoice\<lparr>reporting_currency := Some ''USD'',
     reporting_source_currency := Some ''EUR'', reporting_fx_rate := Some (5/4)\<rparr>"

theorem money_gates_witness:
  "\<exists>x r q. finite_money_threshold (JInt 150) = Some x \<and> reporting_fx_rate locked_invoice = Some q
     \<and> 0 < q \<and> r = ctx_mult (amount locked_invoice) q \<and> round_half_up 2 r \<le> x"
proof -
  have n: "norm_code ''USD'' = ''USD''" "norm_code ''EUR'' = ''EUR''" by code_simp+
  have rc: "resolve_reporting_currency ''USD'' (JObj []) = Inr ''USD''" by code_simp
  have r: "round_half_up 2 (125 :: rat) = 125" by (rule round_half_up_id) (simp add: has_scale_def)
  have g: "reporting_gate_amount ''USD'' locked_invoice None (JObj []) =
      Inr \<lparr>ga_amount = Fin 125, ga_currency = ''USD'', ga_expressible = True\<rparr>"
    by (simp add: reporting_gate_amount_def rc reporting_amount_at_locked_rate_def locked_invoice_def
        sample_invoice_def n sample_product quantize_money_small r)
  have p: "max_amount_gate_applies (JInt 150)
       (Gate \<lparr>ga_amount = Fin 125, ga_currency = ''USD'', ga_expressible = True\<rparr>) = Inr False"
    by (simp add: max_amount_gate_applies_def money_gate_applies_def finite_money_threshold_def to_decimal_def
        coerce_gate_amount_def)
  have foreign: "currency locked_invoice \<noteq> []" "norm_code (currency locked_invoice) \<noteq> norm_code ''USD''"
    by (simp_all add: locked_invoice_def sample_invoice_def n)
  from money_gates_never_compare_at_face_value [OF g disjI2 [OF p]] foreign rc show ?thesis by auto
qed

text \<open>An amount that cannot be expressed in the reporting currency routes to every level
  whose routing rules match, so to at least the levels any expressible amount would route to; the
  bands only ever narrow that, keep the configured order, and raise only on a NaN.\<close>

theorem applicable_levels_fail_closed:
  "resolve_applicable_levels chain (Gate \<lparr>ga_amount = d, ga_currency = c, ga_expressible = False\<rparr>) ats =
     Inr (filter (\<lambda>l. level_routing_matches l ats) chain)
   \<and> (case resolve_applicable_levels chain (Gate \<lparr>ga_amount = Fin x, ga_currency = c, ga_expressible = True\<rparr>) ats of
        Inr ls \<Rightarrow> ls = filter (\<lambda>l. within_band l (Fin x) = Inr True)
                        (filter (\<lambda>l. level_routing_matches l ats) chain)
      | Inl e \<Rightarrow> e = InvalidOperation
          \<and> (\<exists>l \<in> set chain. to_decimal (lc_min_amount l) = Some NaN \<or> to_decimal (lc_max_amount l) = Some NaN))"
proof -
  let ?g = "Gate \<lparr>ga_amount = Fin x, ga_currency = c, ga_expressible = True\<rparr>"
  have nan: "dec_less (Fin x) d' = Inl e \<longleftrightarrow> e = InvalidOperation \<and> d' = NaN"
    "dec_less d' (Fin x) = Inl e \<longleftrightarrow> e = InvalidOperation \<and> d' = NaN" for e d'
    by (cases d'; auto)+
  have band: "e = InvalidOperation \<and> (to_decimal (lc_min_amount l) = Some NaN \<or> to_decimal (lc_max_amount l) = Some NaN)"
    if "within_band l (Fin x) = Inl e" for l e
    using that by (auto simp: within_band_def py_bind_eq_Inl nan split: option.splits if_splits)
  have open_gate: "resolve_applicable_levels chain (Gate \<lparr>ga_amount = d, ga_currency = c, ga_expressible = False\<rparr>) ats =
     Inr (filter (\<lambda>l. level_routing_matches l ats) chain)"
    by (simp add: resolve_applicable_levels_def coerce_gate_amount_def Let_def
        py_filter_total [where q = "\<lambda>l. level_routing_matches l ats"])
  show ?thesis
  proof (cases "resolve_applicable_levels chain ?g ats")
    case (Inl e)
    then obtain l where l: "l \<in> set chain" "within_band l (Fin x) = Inl e"
      by (auto simp: resolve_applicable_levels_def coerce_gate_amount_def Let_def py_bind_eq_Inl
          dest!: py_filter_Inl)
    from band [OF l(2)] l(1) have "e = InvalidOperation
        \<and> (\<exists>l \<in> set chain. to_decimal (lc_min_amount l) = Some NaN \<or> to_decimal (lc_max_amount l) = Some NaN)"
      by blast
    then show ?thesis by (simp only: Inl open_gate sum.case)
  next
    case (Inr ls)
    then have "ls = filter (\<lambda>l. within_band l (Fin x) = Inr True \<and> level_routing_matches l ats) chain"
      by (auto simp: resolve_applicable_levels_def coerce_gate_amount_def Let_def dest!: py_filter_Inr
          intro!: filter_cong)
    then show ?thesis by (simp add: Inr open_gate conj_commute)
  qed
qed

text \<open>C1: However approvals and escalations interleave after a chain is initialised from
  any list of configured levels, every level before the current one has been approved by everyone
  it names (\<open>all\<close> mode) or by at least as many different people as it requires (a repeat by the
  same person inside a level is recorded but counts once), the levels after the current one have no
  approval, and nobody's approvals are recorded at two different levels.\<close>

theorem chain_segregates_levels:
  "chain_run.reached w \<Longrightarrow>
     \<exists>c. chain_state_of (state_data w) = ChainObj c \<and> current_level c \<le> length (levels c)
       \<and> (\<forall>i < current_level c.
            if lv_parallel_mode (levels c ! i) = ''all''
            then set (lv_approver_ids (levels c ! i)) \<subseteq> ap_user ` set (lv_approvals (levels c ! i))
            else lv_required (levels c ! i) \<le> int (card (ap_user ` set (lv_approvals (levels c ! i)))))
       \<and> (\<forall>i < length (levels c). current_level c < i \<longrightarrow> lv_approvals (levels c ! i) = [])
       \<and> (\<forall>i < length (levels c). \<forall>j < length (levels c). i \<noteq> j \<longrightarrow>
            ap_user ` set (lv_approvals (levels c ! i)) \<inter> ap_user ` set (lv_approvals (levels c ! j)) = {})"
  by (drule chain_run.reached_keeps)
    (fastforce simp: instance_chain_ok_def chain_ok_def level_satisfied_iff approvers_of_def split: if_splits)

text \<open>A two-level chain: a manager level of two approvals, then a restricted director level.\<close>

definition level_cfg :: "int \<Rightarrow> string list \<Rightarrow> level_config" where
  "level_cfg n ids = \<lparr>lc_name = None, lc_required_approvals = Some n, lc_approver_ids = Some ids,
     lc_parallel_mode = None, lc_escalation_hours = Some 4, lc_escalation_to_user_ids = Some [''z''],
     lc_min_amount = JNull, lc_max_amount = JNull, lc_routing_rules = None\<rparr>"

definition two_level_start :: wf_instance where
  "two_level_start = init_chain_state 0 sample_instance [level_cfg 2 [], level_cfg 1 [''y'']]"

lemma two_level_run:
  "\<exists>w'. run_approvals two_level_start [(1, 21), (2, 22), (3, 23)] = Inr ([False, False, True], w')"
proof -
  from init_any_chain [of "[level_cfg 2 [], level_cfg 1 [''y'']]" 0 sample_instance]
  obtain c where c: "chain_state_of (state_data two_level_start) = ChainObj c" "any_chain c" "chain_ok c"
    "\<forall>l \<in> set (levels c). approvers_of l = {}" "approvals_left c = 3"
    by (auto simp: two_level_start_def level_cfg_def)
  have "\<exists>w'. run_approvals two_level_start [(1, 21), (2, 22), (3, 23)] =
      Inr (replicate (length [(1::int, 21::uuid), (2, 22), (3, 23)] - 1) False @ [True], w')"
    by (rule run_approvals_any [OF c(1,2,3)]) (use c(4,5) in simp_all)
  then show ?thesis by (simp add: numeral_2_eq_2)
qed

lemma record_approval_modes:
  "record_approval now c actor = (fin, c') \<Longrightarrow> current_level c < length (levels c) \<Longrightarrow>
     map lv_parallel_mode (levels c') = map lv_parallel_mode (levels c)"
proof (rule nth_equalityI)
  fix i assume r: "record_approval now c actor = (fin, c')" and lt: "current_level c < length (levels c)"
    and "i < length (map lv_parallel_mode (levels c'))"
  with record_approval_props [OF r lt] record_approval_props(5) [OF r lt, of i]
  show "map lv_parallel_mode (levels c') ! i = map lv_parallel_mode (levels c) ! i"
    by (cases "i = current_level c") simp_all
qed (simp add: record_approval_props)

lemma run_approvals_modes:
  "run_approvals w acts = Inr (fins, w') \<Longrightarrow> chain_state_of (state_data w) = ChainObj c \<Longrightarrow>
     \<exists>c'. chain_state_of (state_data w') = ChainObj c' \<and>
       map lv_parallel_mode (levels c') = map lv_parallel_mode (levels c)"
proof (induction w acts arbitrary: fins c rule: run_approvals.induct)
  case (2 w now actor acts)
  from "2.prems"(1) obtain f w1 fs where a: "advance_approval_chain now w actor = Inr (f, w1)"
    and r: "run_approvals w1 acts = Inr (fs, w')" by auto
  from a "2.prems"(2) obtain c1 where c1: "chain_state_of (state_data w1) = ChainObj c1"
    "map lv_parallel_mode (levels c1) = map lv_parallel_mode (levels c)"
    by (cases rule: advance_cases) (use record_approval_modes "2.prems"(2) in auto)
  from "2.IH" [OF r c1(1)] c1(2) show ?case by simp
qed simp

lemma reached_approve:
  "chain_run.reached w \<Longrightarrow> advance_approval_chain now w actor = Inr (fin, w') \<Longrightarrow> chain_run.reached w'"
  by (rule chain_run.reached_move, assumption, rule chain_move.move_approve)

lemma run_approvals_reached:
  "run_approvals w acts = Inr (fins, w') \<Longrightarrow> chain_run.reached w \<Longrightarrow> chain_run.reached w'"
  by (induction w acts arbitrary: fins rule: run_approvals.induct)
    (auto dest: reached_approve)

lemma reached_two_level: "chain_run.reached two_level_start"
  by (rule chain_run.reached_start) (auto simp: two_level_start_def)

theorem chain_segregates_levels_witness:
  "\<exists>w' c. run_approvals two_level_start [(1, 21), (2, 22), (3, 23)] = Inr ([False, False, True], w')
     \<and> chain_state_of (state_data w') = ChainObj c
     \<and> (\<forall>i < length (levels c). \<forall>j < length (levels c). i \<noteq> j \<longrightarrow>
          ap_user ` set (lv_approvals (levels c ! i)) \<inter> ap_user ` set (lv_approvals (levels c ! j)) = {})"
proof -
  from two_level_run obtain w' where r:
    "run_approvals two_level_start [(1, 21), (2, 22), (3, 23)] = Inr ([False, False, True], w')" by blast
  from chain_segregates_levels [OF run_approvals_reached [OF r reached_two_level]] r show ?thesis
    by (elim exE conjE) (intro exI conjI, assumption+)
qed

text \<open>C5: When an approval completes a chain of \<open>any\<close>-mode levels, at least as many
  different people have approved as the levels require in total: nobody's approval is counted for two
  levels.\<close>

theorem completed_chain_needs_distinct_people:
  assumes "chain_run.reached w" "advance_approval_chain now w actor = Inr (True, w')"
    and "chain_state_of (state_data w') = ChainObj c"
    and "\<forall>l \<in> set (levels c). lv_parallel_mode l \<noteq> ''all''"
  shows "(\<Sum>l\<leftarrow>levels c. lv_required l) \<le> int (card (\<Union>l \<in> set (levels c). approvers_of l))"
proof -
  have "chain_run.reached w'" using assms(1,2) by (blast intro: chain_run.reached_move chain_move.move_approve)
  then have ok: "chain_ok c"
    using chain_run.reached_keeps [of w'] assms(3) by (auto simp: instance_chain_ok_def)
  obtain c0 where c0: "chain_state_of (state_data w) = ChainObj c0"
    using chain_run.reached_keeps [OF assms(1)] by (auto simp: instance_chain_ok_def)
  have fin: "length (levels c) \<le> current_level c"
    using assms(2) c0 by (cases rule: advance_cases) (use c0 assms(3) record_approval_props(3) in auto)
  have "lv_required (levels c ! i) \<le> int (card (approvers_of (levels c ! i)))" if "i < length (levels c)" for i
    using chain_okD(2) [OF ok, of i] that fin assms(4) nth_mem [OF that] by (simp add: level_satisfied_iff)
  then have "(\<Sum>i < length (levels c). lv_required (levels c ! i))
      \<le> (\<Sum>i < length (levels c). int (card (approvers_of (levels c ! i))))"
    by (intro sum_mono) simp
  also have "\<dots> = int (card (\<Union>i < length (levels c). approvers_of (levels c ! i)))"
    using chain_okD(4) [OF ok] by (subst card_UN_disjoint) auto
  also have "(\<Union>i < length (levels c). approvers_of (levels c ! i)) = (\<Union>l \<in> set (levels c). approvers_of l)"
    by (auto simp: set_conv_nth)
  finally show ?thesis by (simp add: sum_list_sum_nth atLeast0LessThan)
qed

theorem completed_chain_witness:
  "\<exists>w1 w' c. run_approvals two_level_start [(1, 21), (2, 22)] = Inr ([False, False], w1)
     \<and> advance_approval_chain 3 w1 23 = Inr (True, w') \<and> chain_state_of (state_data w') = ChainObj c
     \<and> (\<Sum>l\<leftarrow>levels c. lv_required l) \<le> int (card (\<Union>l \<in> set (levels c). approvers_of l))"
proof -
  have split: "\<exists>w1. run_approvals w [x, y] = Inr ([False, False], w1) \<and> advance_approval_chain 3 w1 23 = Inr (True, w')"
    if "run_approvals w [x, y, (3, 23)] = Inr ([False, False, True], w')" for w w' x y
    using that by (cases x; cases y) (auto simp: ex_bool_eq)
  from two_level_run obtain w1 w' where
    r: "run_approvals two_level_start [(1, 21), (2, 22)] = Inr ([False, False], w1)"
    and a: "advance_approval_chain 3 w1 23 = Inr (True, w')"
    using split by blast
  note re = run_approvals_reached [OF r reached_two_level]
  from r a have r3: "run_approvals two_level_start [(1, 21), (2, 22), (3, 23)] = Inr ([False, False, True], w')"
    by (auto simp: ex_bool_eq)
  obtain c0 where "chain_state_of (state_data two_level_start) = ChainObj c0"
    and "map lv_parallel_mode (levels c0) = [''any'', ''any'']"
    by (simp add: two_level_start_def init_chain_state_def init_level_def level_cfg_def)
  with run_approvals_modes [OF r3] obtain c where c: "chain_state_of (state_data w') = ChainObj c"
    and m: "map lv_parallel_mode (levels c) = [''any'', ''any'']" by auto
  have modes: "\<forall>l \<in> set (levels c). lv_parallel_mode l \<noteq> ''all''"
  proof
    fix l assume "l \<in> set (levels c)"
    then have "lv_parallel_mode l \<in> set (map lv_parallel_mode (levels c))" by simp
    then show "lv_parallel_mode l \<noteq> ''all''" unfolding m by auto
  qed
  show ?thesis
    by (intro exI conjI) (rule r a c completed_chain_needs_distinct_people [OF re a c modes])+
qed

text \<open>C9: A chain of \<open>any\<close>-mode levels is completed by exactly as many approvals of
  different people as its levels require together: every approval before the last reports that
  more are needed, none is refused, and the last reports completion.\<close>

theorem chain_completes_after_required_approvals:
  assumes "ls \<noteq> []" "\<forall>l \<in> set ls. lc_parallel_mode l \<noteq> Some ''all'' \<and> 1 \<le> get_or (lc_required_approvals l) 1"
    and "distinct (map snd acts)"
    and "int (length acts) = (\<Sum>l\<leftarrow>ls. get_or (lc_required_approvals l) 1)"
  shows "\<exists>w'. run_approvals (init_chain_state now w ls) acts
           = Inr (replicate (length acts - 1) False @ [True], w')"
proof -
  from init_any_chain [OF assms(1,2)] obtain c where
    c: "chain_state_of (state_data (init_chain_state now w ls)) = ChainObj c" "any_chain c" "chain_ok c"
    and none: "\<forall>l \<in> set (levels c). approvers_of l = {}"
    and left: "approvals_left c = (\<Sum>l\<leftarrow>ls. get_or (lc_required_approvals l) 1)" by blast
  show ?thesis
    by (rule run_approvals_any [OF c assms(3)]) (use none left assms(4) in simp_all)
qed

theorem chain_completes_witness:
  "\<exists>w'. run_approvals (init_chain_state 0 sample_instance [level_cfg 2 [], level_cfg 1 [''y'']])
      [(1, 31), (2, 32), (3, 33)] = Inr ([False, False, True], w')"
  using chain_completes_after_required_approvals
    [of "[level_cfg 2 [], level_cfg 1 [''y'']]" "[(1, 31), (2, 32), (3, 33)]" 0 sample_instance]
  by (simp add: level_cfg_def numeral_2_eq_2)

section \<open>Escalation\<close>

lemma escalated_current:
  assumes "apply_escalation now w = Inr (True, w')" "chain_state_of (state_data w) = ChainObj c"
  obtains l' where "escalate_level now (levels c ! current_level c) = Some l'"
    "w' = put_chain w (c\<lparr>levels := (levels c)[current_level c := l']\<rparr>)"
    "current_level c < length (levels c)"
  using assms by (cases rule: apply_escalation_cases) auto

lemma escalate_again_none:
  assumes "escalate_level now l = Some l'" "set (lv_escalation_to l) \<subseteq> set (lv_approver_ids l')"
  shows "escalate_level now' l' = None"
proof -
  from assms(1) have "lv_escalation_to l' = lv_escalation_to l" by (rule escalate_level_Some) simp
  with assms(2) have "filter (\<lambda>u. u \<notin> set (lv_approver_ids l')) (lv_escalation_to l') = []"
    by (auto simp: filter_empty_conv)
  then show ?thesis by (simp add: escalate_level_def Let_def split: option.split iso.split)
qed

text \<open>Escalating an \<open>any\<close>-mode level takes nobody's eligibility away: the approvers
  become the old ones, in their order, and then the targets not yet listed, the recorded approvals
  stay, a level that was satisfied stays so, and escalating again at any later time changes
  nothing.\<close>

theorem any_escalation_only_adds:
  assumes "apply_escalation now w = Inr (True, w')" "chain_state_of (state_data w) = ChainObj c"
    and "lv_parallel_mode (levels c ! current_level c) \<noteq> ''all''"
  shows "\<exists>l l' added. l = levels c ! current_level c \<and> added \<noteq> []
       \<and> chain_state_of (state_data w') = ChainObj (c\<lparr>levels := (levels c)[current_level c := l']\<rparr>)
       \<and> lv_approver_ids l' = lv_approver_ids l @ added
       \<and> set (lv_escalation_to l) \<subseteq> set (lv_approver_ids l') \<and> lv_approvals l' = lv_approvals l
       \<and> level_satisfied l' = level_satisfied l \<and> apply_escalation now' w' = Inr (False, w')"
proof -
  let ?l = "levels c ! current_level c"
  from assms(1,2) obtain l' where e: "escalate_level now ?l = Some l'"
    and w': "w' = put_chain w (c\<lparr>levels := (levels c)[current_level c := l']\<rparr>)"
    and lt: "current_level c < length (levels c)" by (rule escalated_current)
  from e show ?thesis
  proof (rule escalate_level_Some)
    fix ts
    assume ts: "ts = filter (\<lambda>u. u \<notin> set (lv_approver_ids ?l)) (lv_escalation_to ?l)" "ts \<noteq> []"
      and l': "lv_approver_ids l' = escalated_approvers ?l ts" "lv_approvals l' = lv_approvals ?l"
        "lv_required l' = lv_required ?l" "lv_parallel_mode l' = lv_parallel_mode ?l"
    have ids: "lv_approver_ids l' = lv_approver_ids ?l @ ts"
      using assms(3) l'(1) by (simp add: escalated_approvers_def)
    then have sub: "set (lv_escalation_to ?l) \<subseteq> set (lv_approver_ids l')" using ts(1) by auto
    have "level_satisfied l' = level_satisfied ?l"
      using assms(3) l' by (simp add: level_satisfied_def)
    moreover have "apply_escalation now' w' = Inr (False, w')"
      using escalate_again_none [OF e sub] lt by (simp add: apply_escalation_def w')
    ultimately show ?thesis using ids sub ts(2) l'(2) w'
      by (intro exI [of _ ?l] exI [of _ l'] exI [of _ ts]) simp
  qed
qed

text \<open>Escalating an \<open>all\<close>-mode level keeps those listed approvers who have approved and
  the recorded approvals, and makes the level one the escalation targets alone can finish. Repeating
  it later changes nothing exactly when no configured target was already a listed approver who had not
  approved.\<close>

theorem all_escalation_unblocks:
  assumes "apply_escalation now w = Inr (True, w')" "chain_state_of (state_data w) = ChainObj c"
    and "lv_parallel_mode (levels c ! current_level c) = ''all''" "now \<le> now'"
  shows "\<exists>l l'. l = levels c ! current_level c
       \<and> chain_state_of (state_data w') = ChainObj (c\<lparr>levels := (levels c)[current_level c := l']\<rparr>)
       \<and> set (lv_approver_ids l') \<subseteq> approvers_of l \<union> set (lv_escalation_to l)
       \<and> set (lv_approver_ids l) \<inter> approvers_of l \<subseteq> set (lv_approver_ids l')
       \<and> lv_approvals l' = lv_approvals l
       \<and> (apply_escalation now' w' = Inr (False, w') \<longleftrightarrow>
            set (lv_escalation_to l) \<inter> set (lv_approver_ids l) \<subseteq> approvers_of l)"
proof -
  let ?l = "levels c ! current_level c"
  from assms(1,2) obtain l' where e: "escalate_level now ?l = Some l'"
    and w': "w' = put_chain w (c\<lparr>levels := (levels c)[current_level c := l']\<rparr>)"
    and lt: "current_level c < length (levels c)" by (rule escalated_current)
  from e obtain ts where ts: "ts = filter (\<lambda>u. u \<notin> set (lv_approver_ids ?l)) (lv_escalation_to ?l)" "ts \<noteq> []"
    and l': "lv_approver_ids l' = escalated_approvers ?l ts" "lv_approvals l' = lv_approvals ?l"
      "lv_parallel_mode l' = lv_parallel_mode ?l" "lv_escalation_to l' = lv_escalation_to ?l"
      "lv_escalation_hours l' = lv_escalation_hours ?l" "lv_entered_at l' = lv_entered_at ?l"
    by (rule escalate_level_Some)
  have ids: "set (lv_approver_ids l') = (set (lv_approver_ids ?l) \<inter> approvers_of ?l) \<union> set ts"
    using l'(1) set_escalated_all [OF assms(3)] by simp
  have ne: "lv_approver_ids l' \<noteq> []" using ids ts(2) by auto
  from e obtain entered where en: "lv_entered_at ?l = Some (Iso entered)"
    and cfg: "get_or (lv_escalation_hours ?l) 0 \<noteq> 0" "lv_escalation_to ?l \<noteq> []"
      "\<not> now - entered < hours_us (get_or (lv_escalation_hours ?l) 0)"
    by (auto simp: escalate_level_def Let_def split: option.splits iso.splits if_splits)
  have again: "escalate_level now' l' = None \<longleftrightarrow>
      filter (\<lambda>u. u \<notin> set (lv_approver_ids l')) (lv_escalation_to ?l) = []"
    using en cfg l' ne assms(4) by (auto simp: escalate_level_def Let_def)
  also have "\<dots> \<longleftrightarrow> set (lv_escalation_to ?l) \<inter> set (lv_approver_ids ?l) \<subseteq> approvers_of ?l"
    using ids ts(1) by (auto simp: filter_empty_conv)
  finally have none: "escalate_level now' l' = None \<longleftrightarrow>
      set (lv_escalation_to ?l) \<inter> set (lv_approver_ids ?l) \<subseteq> approvers_of ?l" .
  have "apply_escalation now' w' = Inr (False, w') \<longleftrightarrow> escalate_level now' l' = None"
    using lt by (cases "escalate_level now' l'") (simp_all add: apply_escalation_def w')
  moreover have "set (lv_approver_ids l') \<subseteq> approvers_of ?l \<union> set (lv_escalation_to ?l)"
    "set (lv_approver_ids ?l) \<inter> approvers_of ?l \<subseteq> set (lv_approver_ids l')" using ids ts(1) by auto
  ultimately show ?thesis using l'(2) none by (intro exI [of _ ?l] exI [of _ l']) (simp add: w')
qed

text \<open>The approvers the current level names.\<close>

definition current_approvers :: "wf_instance \<Rightarrow> string list" where
  "current_approvers w =
     (case get_chain_progress w of
        ChainObj c \<Rightarrow> lv_approver_ids (levels c ! current_level c)
      | _ \<Rightarrow> [])"

definition overlapping_escalation :: wf_instance where
  "overlapping_escalation = init_chain_state 0 sample_instance
     [(level_cfg 1 [''a'', ''b''])\<lparr>lc_parallel_mode := Some ''all'',
        lc_escalation_to_user_ids := Some [''b'', ''c'']\<rparr>]"

text \<open>Escalation of an \<open>all\<close>-mode level is not idempotent when a target is already one
  of its approvers: with approvers \<open>a, b\<close> and targets \<open>b, c\<close> and nobody having approved, the
  first sweep leaves \<open>c\<close>, the second \<open>b\<close>, the third \<open>c\<close> again, each reporting a
  change and each dropping a configured target.\<close>

theorem all_escalation_oscillates:
  "\<exists>w1 w2 w3.
     apply_escalation (hours_us 5) overlapping_escalation = Inr (True, w1) \<and> current_approvers w1 = [''c'']
     \<and> apply_escalation (hours_us 6) w1 = Inr (True, w2) \<and> current_approvers w2 = [''b'']
     \<and> apply_escalation (hours_us 7) w2 = Inr (True, w3) \<and> current_approvers w3 = [''c'']"
  by (simp add: overlapping_escalation_def init_chain_state_def init_level_def level_cfg_def
      apply_escalation_def escalate_level_def escalated_approvers_def approvers_of_def
      current_approvers_def get_chain_progress_def put_chain_def chain_state_of_def Let_def)

definition single_escalation :: wf_instance where
  "single_escalation = init_chain_state 0 sample_instance [level_cfg 2 [''a'']]"

theorem any_escalation_witness:
  "\<exists>w (l :: level_state) (l' :: level_state). apply_escalation (hours_us 5) single_escalation = Inr (True, w)
     \<and> lv_approver_ids l = [''a''] \<and> set (lv_escalation_to l) \<subseteq> set (lv_approver_ids l')
     \<and> apply_escalation (hours_us 9) w = Inr (False, w)"
proof -
  let ?c = "\<lparr>levels = [init_level 0 0 (level_cfg 2 [''a''])], current_level = 0\<rparr>"
  have c: "chain_state_of (state_data single_escalation) = ChainObj ?c"
    by (simp add: single_escalation_def init_chain_state_def)
  have m: "lv_parallel_mode (levels ?c ! current_level ?c) \<noteq> ''all''"
    by (simp add: init_level_def level_cfg_def)
  obtain w where w: "apply_escalation (hours_us 5) single_escalation = Inr (True, w)"
    by (simp add: apply_escalation_def c escalate_level_def init_level_def level_cfg_def Let_def)
  from any_escalation_only_adds [OF w c m, of "hours_us 9"] show ?thesis
  proof (elim exE conjE)
    fix l l' :: level_state
    assume l: "l = levels ?c ! current_level ?c"
      and t: "set (lv_escalation_to l) \<subseteq> set (lv_approver_ids l')"
      and again: "apply_escalation (hours_us 9) w = Inr (False, w)"
    from l have "lv_approver_ids l = [''a'']" by (simp add: init_level_def level_cfg_def)
    show ?thesis
      by (rule exI [of _ w], rule exI [of _ l], rule exI [of _ l'], intro conjI)
        (fact w, fact \<open>lv_approver_ids l = [''a'']\<close>, fact t, fact again)
  qed
qed

theorem all_escalation_witness:
  "\<exists>w. apply_escalation (hours_us 5) overlapping_escalation = Inr (True, w)
     \<and> apply_escalation (hours_us 6) w \<noteq> Inr (False, w)"
proof -
  let ?c = "\<lparr>levels = [init_level 0 0 ((level_cfg 1 [''a'', ''b''])\<lparr>lc_parallel_mode := Some ''all'',
        lc_escalation_to_user_ids := Some [''b'', ''c'']\<rparr>)], current_level = 0\<rparr>"
  have c: "chain_state_of (state_data overlapping_escalation) = ChainObj ?c"
    by (simp add: overlapping_escalation_def init_chain_state_def)
  have m: "lv_parallel_mode (levels ?c ! current_level ?c) = ''all''"
    by (simp add: init_level_def level_cfg_def)
  obtain w where w: "apply_escalation (hours_us 5) overlapping_escalation = Inr (True, w)"
    by (simp add: apply_escalation_def c escalate_level_def init_level_def level_cfg_def Let_def)
  from all_escalation_unblocks [OF w c m, of "hours_us 6"]
  obtain l where l: "l = levels ?c ! current_level ?c"
    and again: "apply_escalation (hours_us 6) w = Inr (False, w) \<longleftrightarrow>
      set (lv_escalation_to l) \<inter> set (lv_approver_ids l) \<subseteq> approvers_of l" by auto
  from l have "\<not> set (lv_escalation_to l) \<inter> set (lv_approver_ids l) \<subseteq> approvers_of l"
    by (simp add: init_level_def level_cfg_def approvers_of_def)
  with again w show ?thesis by blast
qed

end
