(* ===== verification/Approval_Signature.thy ===== *)
theory Approval_Signature
  imports Models
begin

text \<open>
  The signature on an approval's audit row (services/approval_signature.py): the canonical
  bytes of the approval's facts, the digest over them, and the re-verification of a stored row.

  HMAC-SHA256 and the two timestamp conversions belong to Python's library and are parameters:
  \<open>hmac key message\<close> (the hexadecimal digest), \<open>fmt_time t\<close> (\<open>t.isoformat()\<close>) and
  \<open>parse_time\<close> (with \<open>None\<close> for its ValueError). The texts that enter the JSON payload need
  no escaping: identifiers, an amount, a timestamp and the decision, a constant of the callers.
\<close>

type_synonym hmac_fun = "string \<Rightarrow> string \<Rightarrow> string"

definition SIGNATURE_ALG :: string where "SIGNATURE_ALG = ''HMAC-SHA256''"

definition SIGNED_FIELDS :: "string list" where
  "SIGNED_FIELDS = [''invoice_id'', ''amount'', ''actor_id'', ''decision'', ''timestamp'']"

text \<open>The verdicts of \<open>check_approval_row\<close>.\<close>

datatype verdict = VERDICT_VALID | VERDICT_INVALID | VERDICT_UNSIGNED

text \<open>\<open>str(amount.quantize(Decimal("0.01")))\<close>: two decimals, half to even.\<close>

definition canonical_amount :: "rat \<Rightarrow> string" where
  "canonical_amount x =
     (let n = half_even (x * 100); m = nat \<bar>n\<bar>
      in (if n < 0 then ''-'' else []) @ nat_str (m div 100) @ ''.''
         @ nat_str (m mod 100 div 10) @ nat_str (m mod 10))"

definition json_text :: "string \<Rightarrow> string" where
  "json_text s = CHR 0x22 # s @ [CHR 0x22]"

definition canonical_payload ::
    "(time \<Rightarrow> string) \<Rightarrow> uuid \<Rightarrow> rat \<Rightarrow> uuid \<Rightarrow> string \<Rightarrow> time \<Rightarrow> string" where
  "canonical_payload fmt_time invoice_id amt actor decision t =
     ''{'' @ json_text ''actor_id'' @ '':'' @ json_text (uuid_str actor)
     @ '','' @ json_text ''amount'' @ '':'' @ json_text (canonical_amount amt)
     @ '','' @ json_text ''decision'' @ '':'' @ json_text decision
     @ '','' @ json_text ''invoice_id'' @ '':'' @ json_text (uuid_str invoice_id)
     @ '','' @ json_text ''timestamp'' @ '':'' @ json_text (fmt_time t) @ ''}''"

definition sign_approval ::
    "hmac_fun \<Rightarrow> (time \<Rightarrow> string) \<Rightarrow> uuid \<Rightarrow> rat \<Rightarrow> uuid \<Rightarrow> string \<Rightarrow> time \<Rightarrow> string \<Rightarrow> string" where
  "sign_approval hmac fmt_time invoice_id amt actor decision t key =
     (if key = [] then [] else hmac key (canonical_payload fmt_time invoice_id amt actor decision t))"

definition verify_approval ::
    "hmac_fun \<Rightarrow> (time \<Rightarrow> string) \<Rightarrow> uuid \<Rightarrow> rat \<Rightarrow> uuid \<Rightarrow> string \<Rightarrow> time \<Rightarrow> json \<Rightarrow> string \<Rightarrow> bool" where
  "verify_approval hmac fmt_time invoice_id amt actor decision t signature key =
     (case signature of
        JStr s \<Rightarrow>
          if key = [] then False
          else if s = [] \<or> \<not> list_all (\<lambda>c. code c < 128) s then False
          else sign_approval hmac fmt_time invoice_id amt actor decision t key = s
      | _ \<Rightarrow> False)"

definition build_signature_detail ::
    "hmac_fun \<Rightarrow> (time \<Rightarrow> string) \<Rightarrow> uuid \<Rightarrow> rat \<Rightarrow> uuid \<Rightarrow> string \<Rightarrow> time \<Rightarrow> string \<Rightarrow> json option" where
  "build_signature_detail hmac fmt_time invoice_id amt actor decision t key =
     (let v = sign_approval hmac fmt_time invoice_id amt actor decision t key
      in if v = [] then None
         else Some (JObj [(''alg'', JStr SIGNATURE_ALG), (''value'', JStr v),
                          (''signed_fields'', JList (map JStr SIGNED_FIELDS)),
                          (''signed_at'', JStr (fmt_time t))]))"

definition check_approval_row ::
    "hmac_fun \<Rightarrow> (time \<Rightarrow> string) \<Rightarrow> (string \<Rightarrow> time option) \<Rightarrow> json \<Rightarrow> uuid \<Rightarrow> rat \<Rightarrow> uuid option
       \<Rightarrow> string \<Rightarrow> string \<Rightarrow> verdict \<times> string option" where
  "check_approval_row hmac fmt_time parse_time details invoice_id amt actor key decision =
     (case (case details of JObj d \<Rightarrow> jget d ''signature'' | _ \<Rightarrow> JNull) of
        JObj sig \<Rightarrow>
          (let raw = (case jget sig ''signed_at'' of JStr s \<Rightarrow> Some s | _ \<Rightarrow> None)
           in case (Option.bind raw parse_time, actor) of
                (Some t, Some a) \<Rightarrow>
                  (if verify_approval hmac fmt_time invoice_id amt a decision t (jget sig ''value'') key
                   then VERDICT_VALID else VERDICT_INVALID, raw)
              | _ \<Rightarrow> (VERDICT_INVALID, raw))
      | _ \<Rightarrow> (VERDICT_UNSIGNED, None))"

section \<open>Facts\<close>

definition quote_free :: "string \<Rightarrow> bool" where
  "quote_free s \<longleftrightarrow> CHR 0x22 \<notin> set s"

lemma quote_free_uuid [simp]: "quote_free (uuid_str u)"
  using set_uuid_str [of "CHR 0x22" u] by (auto simp: quote_free_def hex_val_def)

lemma quote_free_nat [simp]: "quote_free (nat_str n)"
  using nat_str_digits [of "CHR 0x22" n] by (auto simp: quote_free_def is_digit_def)

lemma quote_free_amount [simp]: "quote_free (canonical_amount x)"
  using quote_free_nat by (simp add: canonical_amount_def quote_free_def Let_def)

lemma split_at_first:
  "c \<notin> set s \<Longrightarrow> c \<notin> set t \<Longrightarrow> s @ c # u = t @ c # v \<longleftrightarrow> s = t \<and> u = v"
proof (induction s arbitrary: t)
  case Nil
  then show ?case by (cases t) auto
next
  case (Cons a s)
  then show ?case by (cases t) auto
qed

lemma json_text_append_eq:
  "quote_free s \<Longrightarrow> quote_free t \<Longrightarrow> json_text s @ u = json_text t @ v \<longleftrightarrow> s = t \<and> u = v"
  by (simp add: json_text_def quote_free_def split_at_first)

lemma json_text_inj [simp]: "json_text s = json_text t \<longleftrightarrow> s = t"
  by (simp add: json_text_def)

lemma nat_str_length_1: "n < 10 \<Longrightarrow> length (nat_str n) = 1"
  by (simp add: nat_str.simps)

lemma nat_str_not_minus: "nat_str n \<noteq> CHR ''-'' # s"
  using nat_str_digits [of "CHR ''-''" n] by (auto simp: is_digit_def)

lemma dot_not_digit: "CHR ''.'' \<notin> set (nat_str n)"
  using nat_str_digits [of "CHR ''.''" n] by (auto simp: is_digit_def)

text \<open>The canonical text determines the amount to the cent.\<close>

lemma canonical_amount_inj:
  assumes "canonical_amount x = canonical_amount y"
  shows "half_even (x * 100) = half_even (y * 100)"
proof -
  define m n where "m = half_even (x * 100)" and "n = half_even (y * 100)"
  let ?body = "\<lambda>k. nat_str (k div 100) @ ''.'' @ nat_str (k mod 100 div 10) @ nat_str (k mod 10)"
  have body: "k = l" if "?body k = ?body l" for k l :: nat
  proof -
    from that dot_not_digit have "nat_str (k div 100) = nat_str (l div 100)"
      and tails: "nat_str (k mod 100 div 10) @ nat_str (k mod 10) = nat_str (l mod 100 div 10) @ nat_str (l mod 10)"
      by (simp_all add: split_at_first)
    then have d: "k div 100 = l div 100" by (auto dest: nat_str_inj)
    have len: "length (nat_str (k mod 100 div 10)) = length (nat_str (l mod 100 div 10))"
      by (subst (1 2) nat_str_length_1) auto
    note e = append_eq_append_conv [OF disjI1 [OF len], THEN iffD1, OF tails]
    have "k mod 100 div 10 = l mod 100 div 10" "k mod 10 = l mod 10"
      by (rule nat_str_inj [OF conjunct1 [OF e]], rule nat_str_inj [OF conjunct2 [OF e]])
    moreover have "j = 100 * (j div 100) + 10 * (j mod 100 div 10) + j mod 10" for j :: nat
    proof -
      have "j mod 100 mod 10 = j mod 10" by (rule mod_mod_cancel) simp
      then show ?thesis using div_mult_mod_eq [of j 100] div_mult_mod_eq [of "j mod 100" 10] by linarith
    qed
    ultimately show ?thesis using d by metis
  qed
  have head: "nat_str k @ u \<noteq> CHR ''-'' # v" for k u v
  proof -
    have "nat_str k \<noteq> []" by (subst nat_str.simps) auto
    then show ?thesis using nat_str_not_minus [of k] by (cases "nat_str k") auto
  qed
  have form: "canonical_amount z = (if half_even (z * 100) < 0 then ''-'' else []) @ ?body (nat \<bar>half_even (z * 100)\<bar>)" for z
    by (simp add: canonical_amount_def Let_def)
  have eq: "(if m < 0 then ''-'' else []) @ ?body (nat \<bar>m\<bar>) = (if n < 0 then ''-'' else []) @ ?body (nat \<bar>n\<bar>)"
    using assms unfolding form m_def [symmetric] n_def [symmetric] .
  have "m < 0 \<longleftrightarrow> n < 0"
  proof (cases "m < 0"; cases "n < 0")
    assume mn: "m < 0" "\<not> n < 0"
    have "CHR ''-'' # ?body (nat \<bar>m\<bar>) = ?body (nat \<bar>n\<bar>)" using eq mn by (simp only: if_True if_False append.simps)
    with head [of "nat \<bar>n\<bar> div 100"] have False by metis
    then show ?thesis ..
  next
    assume mn: "\<not> m < 0" "n < 0"
    have "?body (nat \<bar>m\<bar>) = CHR ''-'' # ?body (nat \<bar>n\<bar>)" using eq mn by (simp only: if_True if_False append.simps)
    with head [of "nat \<bar>m\<bar> div 100"] have False by metis
    then show ?thesis ..
  qed simp_all
  then have sg: "m < 0 \<longleftrightarrow> n < 0" .
  have "?body (nat \<bar>m\<bar>) = ?body (nat \<bar>n\<bar>)"
  proof (cases "n < 0")
    case True
    with sg have "m < 0" by blast
    from eq have "''-'' @ ?body (nat \<bar>m\<bar>) = ''-'' @ ?body (nat \<bar>n\<bar>)"
      unfolding if_P [OF True] if_P [OF \<open>m < 0\<close>] .
    then show ?thesis by (rule same_append_eq [THEN iffD1])
  next
    case False
    with sg have "\<not> m < 0" by blast
    from eq show ?thesis unfolding if_not_P [OF False] if_not_P [OF \<open>\<not> m < 0\<close>] append_Nil .
  qed
  then have "nat \<bar>m\<bar> = nat \<bar>n\<bar>" by (rule body)
  with sg have "m = n" by linarith
  then show ?thesis by (simp add: m_def n_def)
qed

lemma canonical_payload_inj:
  assumes "canonical_payload fmt_time i x a d t = canonical_payload fmt_time i' x' a' d' t'"
    and "quote_free d" "quote_free d'" "\<And>t. quote_free (fmt_time t)"
  shows "i = i' \<and> half_even (x * 100) = half_even (x' * 100) \<and> a = a' \<and> d = d' \<and> fmt_time t = fmt_time t'"
proof -
  have "i = i' \<and> canonical_amount x = canonical_amount x' \<and> a = a' \<and> d = d' \<and> fmt_time t = fmt_time t'"
    using assms(1) by (simp add: canonical_payload_def json_text_append_eq assms(2-4))
  then show ?thesis by (blast dest: canonical_amount_inj)
qed

section \<open>Properties\<close>

text \<open>C28: The row an approval signs verifies. A row that still carries its digest, whatever
  else of its signature block was rewritten, verifies for given facts only if they are the signed ones:
  the same invoice, actor and decision, the same amount to the cent, and a stored timestamp that reads
  as the signed one. The one way around it is to break the digest itself: the payload of the claimed
  facts is a different text with the same digest under the signing key. The conversions of timestamps
  are assumed to round-trip and to produce no quotation mark, and the digest to be non-empty ASCII
  text.\<close>

theorem signature_roundtrip_and_tamper:
  assumes "key \<noteq> []" "quote_free decision" "\<And>t. quote_free (fmt_time t)" "\<And>t. parse_time (fmt_time t) = Some t"
    and "\<And>k m. hmac k m \<noteq> [] \<and> list_all (\<lambda>c. code c < 128) (hmac k m)"
    and "build_signature_detail hmac fmt_time i x a decision t key = Some (JObj block)"
    and "row = JObj [(''signature'', JObj block)]"
    and "row' = JObj [(''signature'', JObj block')]" "jget block' ''value'' = jget block ''value''"
      "jget block' ''signed_at'' = JStr s'" "quote_free decision'"
  shows "check_approval_row hmac fmt_time parse_time row i x (Some a) key decision = (VERDICT_VALID, Some (fmt_time t))
    \<and> (fst (check_approval_row hmac fmt_time parse_time row' i' x' (Some a') key decision') = VERDICT_VALID \<longrightarrow>
         i' = i \<and> half_even (x' * 100) = half_even (x * 100) \<and> a' = a \<and> decision' = decision
           \<and> parse_time s' = Some t
         \<or> (\<exists>t'. parse_time s' = Some t'
              \<and> canonical_payload fmt_time i' x' a' decision' t' \<noteq> canonical_payload fmt_time i x a decision t
              \<and> hmac key (canonical_payload fmt_time i' x' a' decision' t')
                = hmac key (canonical_payload fmt_time i x a decision t)))"
proof -
  let ?p = "canonical_payload fmt_time i x a decision t"
  let ?p' = "\<lambda>t'. canonical_payload fmt_time i' x' a' decision' t'"
  have sg: "sign_approval hmac fmt_time j y b d u key = hmac key (canonical_payload fmt_time j y b d u)" for j y b d u
    using assms(1) by (simp add: sign_approval_def)
  have b: "block = [(''alg'', JStr SIGNATURE_ALG), (''value'', JStr (hmac key ?p)),
      (''signed_fields'', JList (map JStr SIGNED_FIELDS)), (''signed_at'', JStr (fmt_time t))]"
    using assms(5) [of key ?p] assms(6) by (simp add: build_signature_detail_def Let_def sg)
  have ok: "check_approval_row hmac fmt_time parse_time row i x (Some a) key decision = (VERDICT_VALID, Some (fmt_time t))"
    using assms(1) assms(5) [of key ?p]
    by (simp add: check_approval_row_def assms(4,7) b verify_approval_def sg)
  have "jget block' ''value'' = JStr (hmac key ?p)" using assms(9) b by simp
  then have chk: "fst (check_approval_row hmac fmt_time parse_time row' i' x' (Some a') key decision') = VERDICT_VALID
      \<Longrightarrow> \<exists>t'. parse_time s' = Some t' \<and> hmac key (?p' t') = hmac key ?p"
    using assms(1) assms(5) [of key ?p]
    by (cases "parse_time s'") (simp_all add: check_approval_row_def assms(8,10) verify_approval_def sg Let_def
        split: if_splits)
  have same: "i' = i \<and> half_even (x' * 100) = half_even (x * 100) \<and> a' = a \<and> decision' = decision \<and> t' = t"
    if "?p' t' = ?p" for t'
  proof -
    note eq = canonical_payload_inj [OF that assms(11,2,3)]
    then have "parse_time (fmt_time t') = parse_time (fmt_time t)" by (intro arg_cong [of _ _ parse_time]) blast
    then have "t' = t" by (simp only: assms(4) option.inject)
    with eq show ?thesis by blast
  qed
  show ?thesis
  proof (rule conjI [OF ok], rule impI)
    assume v: "fst (check_approval_row hmac fmt_time parse_time row' i' x' (Some a') key decision') = VERDICT_VALID"
    from chk [OF v] obtain t' where t': "parse_time s' = Some t'" "hmac key (?p' t') = hmac key ?p" by (elim exE conjE)
    show "i' = i \<and> half_even (x' * 100) = half_even (x * 100) \<and> a' = a \<and> decision' = decision
           \<and> parse_time s' = Some t
         \<or> (\<exists>t'. parse_time s' = Some t' \<and> ?p' t' \<noteq> ?p \<and> hmac key (?p' t') = hmac key ?p)"
    proof (cases "?p' t' = ?p")
      case True
      from same [OF this] t'(1) show ?thesis by simp
    next
      case False
      with t' have "parse_time s' = Some t' \<and> ?p' t' \<noteq> ?p \<and> hmac key (?p' t') = hmac key ?p" by simp
      then show ?thesis by (intro disjI2 exI)
    qed
  qed
qed

definition sample_parse :: "string \<Rightarrow> time option" where
  "sample_parse s = Some (if starts_with ''-'' s then - int (digits_val (tl s)) else int (digits_val s))"

lemma sample_parse_int_str: "sample_parse (int_str t) = Some t"
proof (cases "t < 0")
  case False
  have "\<not> starts_with ''-'' (nat_str (nat t))"
    using nat_str_not_minus [of "nat t"] by (cases "nat_str (nat t)") (auto simp: starts_with_def)
  with False show ?thesis by (simp add: sample_parse_def int_str_def)
qed (simp add: sample_parse_def int_str_def starts_with_def)

text \<open>A digest without collisions, to check the hypotheses on: the message in hexadecimal.\<close>

definition hex_digest :: "string \<Rightarrow> string \<Rightarrow> string" where
  "hex_digest k m = ''h'' @ concat (map (\<lambda>c. [char_of (code c mod 16 + 97), char_of (code c div 16 + 97)]) m)"

lemma hex_part: "code c div 16 < 16"
proof -
  have "code c < 256" by (metis mod_less_divisor of_char_mod_256 zero_less_numeral)
  then show ?thesis by (simp add: div_less_iff_less_mult)
qed

lemma hex_digest_inj: "hex_digest k m = hex_digest k m' \<longleftrightarrow> m = m'"
proof -
  let ?e = "\<lambda>c. [char_of (code c mod 16 + 97), char_of (code c div 16 + 97)] :: string"
  have small: "code c mod 16 + 97 < 256" "code c div 16 + 97 < 256" for c
    using hex_part [of c] by simp_all
  have inj: "c = d" if "?e c = ?e d" for c d
  proof -
    from that have "(of_char (hd (?e c)) :: nat) = of_char (hd (?e d))"
      "(of_char (hd (tl (?e c))) :: nat) = of_char (hd (tl (?e d)))" by simp_all
    then have "code c mod 16 = code d mod 16" "code c div 16 = code d div 16" using small by simp_all
    then have "code c = code d" by (metis div_mult_mod_eq)
    then show ?thesis by simp
  qed
  have "concat (map ?e m) = concat (map ?e m') \<longleftrightarrow> m = m'"
  proof (induction m arbitrary: m')
    case Nil
    then show ?case by (cases m') auto
  next
    case (Cons c m)
    then show ?case using inj by (cases m') auto
  qed
  then show ?thesis by (simp add: hex_digest_def)
qed

lemma hex_digest_ascii: "hex_digest k m \<noteq> [] \<and> list_all (\<lambda>c. code c < 128) (hex_digest k m)"
proof -
  have "(code c div 16 + 97) mod 256 < 128" for c using hex_part [of c] by simp
  then show ?thesis by (auto simp: hex_digest_def list_all_iff)
qed

theorem signature_witness:
  "\<exists>block. build_signature_detail hex_digest int_str 1 100 2 ''approved'' 5 ''key'' = Some (JObj block)
     \<and> check_approval_row hex_digest int_str sample_parse (JObj [(''signature'', JObj block)]) 1 100 (Some 2)
         ''key'' ''approved'' = (VERDICT_VALID, Some (int_str 5))
     \<and> fst (check_approval_row hex_digest int_str sample_parse (JObj [(''signature'', JObj block)]) 1 101 (Some 2)
         ''key'' ''approved'') \<noteq> VERDICT_VALID"
proof -
  obtain block where b: "build_signature_detail hex_digest int_str 1 100 2 ''approved'' 5 ''key'' = Some (JObj block)"
    and at: "jget block ''signed_at'' = JStr (int_str 5)"
    by (simp add: build_signature_detail_def sign_approval_def Let_def hex_digest_def)
  have q: "quote_free (int_str t)" for t
    using quote_free_nat by (simp add: int_str_def quote_free_def)
  have d: "quote_free ''approved''" and k: "''key'' \<noteq> []" by (simp_all add: quote_free_def)
  note th = signature_roundtrip_and_tamper [OF k d q sample_parse_int_str hex_digest_ascii b refl refl refl at d,
    of 1 101 2]
  have "half_even (101 * 100 :: rat) \<noteq> half_even (100 * 100)" by (simp add: half_even_def)
  then have "fst (check_approval_row hex_digest int_str sample_parse (JObj [(''signature'', JObj block)]) 1 101 (Some 2)
         ''key'' ''approved'') \<noteq> VERDICT_VALID"
    using conjunct2 [OF th] by (auto simp: hex_digest_inj)
  with b conjunct1 [OF th] show ?thesis by blast
qed

end
