(* ===== verification/Step_Types.thy ===== *)
theory Step_Types
  imports Py_Text
begin

text \<open>
  The workflow step-type vocabulary (services/workflow_step_types.py): the ordered
  pipeline types, the no-code builder's types, the legacy aliases, and the gate that gives a
  pipeline step its number or refuses a name by saying why.
\<close>

definition CANONICAL_STEP_TYPES :: "string list" where
  "CANONICAL_STEP_TYPES = [''extraction'', ''approval'', ''erp_export'', ''done'']"

definition BUILDER_STEP_TYPES :: "string list" where
  "BUILDER_STEP_TYPES = [''condition'', ''parallel'', ''webhook'', ''email'', ''delay'']"

definition KNOWN_STEP_TYPES :: "string set" where
  "KNOWN_STEP_TYPES = set CANONICAL_STEP_TYPES \<union> set BUILDER_STEP_TYPES"

definition STEP_TYPE_ALIASES :: "string \<rightharpoonup> string" where
  "STEP_TYPE_ALIASES =
     [''upload'' \<mapsto> ''extraction'', ''review'' \<mapsto> ''approval'', ''erp_push'' \<mapsto> ''erp_export'']"

definition resolve_step_type :: "string option \<Rightarrow> string" where
  "resolve_step_type step_type =
     (case step_type of
        None \<Rightarrow> []
      | Some s \<Rightarrow> if s = [] then [] else get_or (STEP_TYPE_ALIASES s) s)"

definition is_known_step_type :: "string option \<Rightarrow> bool" where
  "is_known_step_type step_type \<longleftrightarrow> resolve_step_type step_type \<in> KNOWN_STEP_TYPES"

definition list_index :: "'a list \<Rightarrow> 'a \<Rightarrow> nat" where
  "list_index xs x = length (takeWhile (\<lambda>y. y \<noteq> x) xs)"

definition canonical_step_index :: "string option \<Rightarrow> nat py" where
  "canonical_step_index step_type =
     (let resolved = resolve_step_type step_type
      in if resolved \<in> set CANONICAL_STEP_TYPES
         then Inr (list_index CANONICAL_STEP_TYPES resolved + 1)
         else if resolved \<in> set BUILDER_STEP_TYPES
         then Inl (NonCanonicalStepTypeError resolved)
         else Inl (UnknownStepTypeError (get_or step_type ''None'')))"

lemmas step_vocabulary = CANONICAL_STEP_TYPES_def BUILDER_STEP_TYPES_def KNOWN_STEP_TYPES_def
  STEP_TYPE_ALIASES_def

lemma list_index_props: "x \<in> set xs \<Longrightarrow> list_index xs x < length xs \<and> xs ! list_index xs x = x"
  by (induction xs) (auto simp: list_index_def)

lemma canonical_builder_disjoint: "set CANONICAL_STEP_TYPES \<inter> set BUILDER_STEP_TYPES = {}"
  by (simp add: step_vocabulary)

lemma resolve_idem: "resolve_step_type (Some (resolve_step_type t)) = resolve_step_type t"
  by (auto simp: resolve_step_type_def step_vocabulary get_or_def split: option.splits)

text \<open>A name either gets a number of the pipeline, or is refused for one of two reasons.\<close>

lemma canonical_step_index_cases:
  "canonical_step_index t = Inr n \<longleftrightarrow>
     1 \<le> n \<and> n \<le> length CANONICAL_STEP_TYPES \<and> CANONICAL_STEP_TYPES ! (n - 1) = resolve_step_type t"
proof (cases "resolve_step_type t \<in> set CANONICAL_STEP_TYPES")
  case True
  have dist: "distinct CANONICAL_STEP_TYPES" by (simp add: step_vocabulary)
  have "n = list_index CANONICAL_STEP_TYPES (resolve_step_type t) + 1"
    if "1 \<le> n" "n \<le> length CANONICAL_STEP_TYPES" "CANONICAL_STEP_TYPES ! (n - 1) = resolve_step_type t"
    using that list_index_props [OF True] nth_eq_iff_index_eq [OF dist, of "n - 1"]
    by (metis Suc_le_eq Suc_pred' add.commute less_le_trans plus_1_eq_Suc zero_less_one)
  with True list_index_props [OF True] show ?thesis
    by (auto simp: canonical_step_index_def)
next
  case False
  have "\<not> (1 \<le> n \<and> n \<le> length CANONICAL_STEP_TYPES
      \<and> CANONICAL_STEP_TYPES ! (n - 1) = resolve_step_type t)"
  proof
    assume n: "1 \<le> n \<and> n \<le> length CANONICAL_STEP_TYPES
      \<and> CANONICAL_STEP_TYPES ! (n - 1) = resolve_step_type t"
    then have "n - 1 < length CANONICAL_STEP_TYPES" by linarith
    from nth_mem [OF this] n False show False by simp
  qed
  with False show ?thesis by (simp add: canonical_step_index_def Let_def)
qed

lemma canonical_step_index_unknown:
  "(\<exists>s. canonical_step_index t = Inl (UnknownStepTypeError s)) \<longleftrightarrow> \<not> is_known_step_type t"
  by (auto simp: canonical_step_index_def is_known_step_type_def KNOWN_STEP_TYPES_def Let_def)

lemma canonical_step_index_builder:
  "canonical_step_index t = Inl (NonCanonicalStepTypeError s) \<longleftrightarrow>
     resolve_step_type t = s \<and> s \<in> set BUILDER_STEP_TYPES"
  using canonical_builder_disjoint by (auto simp: canonical_step_index_def Let_def)

lemma canonical_step_index_total:
  "(\<exists>n. canonical_step_index t = Inr n) \<or>
   (\<exists>s. canonical_step_index t = Inl (NonCanonicalStepTypeError s)) \<or>
   (\<exists>s. canonical_step_index t = Inl (UnknownStepTypeError s))"
  by (simp add: canonical_step_index_def Let_def)

text \<open>A step name gets number \<open>n\<close> exactly when, after the legacy aliases, it is
  the \<open>n\<close>-th type of the ordered pipeline; every other name is refused, a builder type as
  having no pipeline position and a name outside the vocabulary as unknown, never guessed.\<close>

theorem canonical_step_index_spec:
  "case canonical_step_index t of
     Inr n \<Rightarrow> n \<in> {1..4} \<and> CANONICAL_STEP_TYPES ! (n - 1) = resolve_step_type t
               \<and> resolve_step_type t \<notin> set BUILDER_STEP_TYPES
   | Inl e \<Rightarrow> (if is_known_step_type t
                then e = NonCanonicalStepTypeError (resolve_step_type t)
                     \<and> resolve_step_type t \<in> set BUILDER_STEP_TYPES
                else e = UnknownStepTypeError (get_or t ''None''))"
proof (cases "canonical_step_index t")
  case (Inr n)
  from Inr [unfolded canonical_step_index_cases] have "n \<in> {1..4}"
    and c: "CANONICAL_STEP_TYPES ! (n - 1) = resolve_step_type t"
    by (auto simp: CANONICAL_STEP_TYPES_def)
  moreover from this have "resolve_step_type t \<in> set CANONICAL_STEP_TYPES"
    using Inr by (auto simp: canonical_step_index_def Let_def split: if_splits)
  ultimately show ?thesis using Inr canonical_builder_disjoint by auto
next
  case (Inl e)
  then show ?thesis
    by (auto simp: canonical_step_index_def Let_def is_known_step_type_def KNOWN_STEP_TYPES_def
        split: if_splits)
qed

end
