(* ===== verification/Workflow_Engine.thy ===== *)
theory Workflow_Engine
  imports Models Step_Types "HOL-Library.AList" "HOL-Library.Product_Lexorder"
begin

text \<open>
  The invoice state machine and the workflow bookkeeping behind it
  (services/workflow_engine.py).

  The session is the state \<open>wf_db\<close>, passed through; an invoice is the ORM object the
  caller holds and is returned updated. Identifiers and clocks the code draws
  (\<open>uuid4()\<close>, \<open>now()\<close>) are arguments, and so are the two calls into modules that are
  not modelled: the users holding a role (\<open>None\<close> when that lookup raises, which the
  hook swallows) and the experiment variant. The notification and webhook modules are
  fire-and-forget; the calls made to them are recorded in \<open>outbox\<close>. The audit trail is
  written in local mode, as a row of the session.
\<close>

section \<open>Status transitions\<close>

primrec VALID_TRANSITIONS :: "invoice_status \<Rightarrow> invoice_status list" where
  "VALID_TRANSITIONS New = [Pending, Ready_for_review, Approved, Done]"
| "VALID_TRANSITIONS Pending = [Ready_for_review, Approved, Failed]"
| "VALID_TRANSITIONS Ready_for_review = [Approved, Rejected]"
| "VALID_TRANSITIONS Approved = [Sending_to_erp, Payment_scheduled, Done]"
| "VALID_TRANSITIONS Rejected = [Ready_for_review, New]"
| "VALID_TRANSITIONS Sending_to_erp = [Sent_to_erp, Failed]"
| "VALID_TRANSITIONS Sent_to_erp = [Posted_in_erp, Done]"
| "VALID_TRANSITIONS Posted_in_erp = [Payment_scheduled, Done]"
| "VALID_TRANSITIONS Payment_scheduled = [Paid, Approved]"
| "VALID_TRANSITIONS Paid = [Done, Approved]"
| "VALID_TRANSITIONS Done = []"
| "VALID_TRANSITIONS Failed = [Pending, Sending_to_erp]"

definition validate_transition :: "invoice_status \<Rightarrow> invoice_status \<Rightarrow> unit py" where
  "validate_transition current target =
     py_guard (target \<notin> set (VALID_TRANSITIONS current)) (HTTPException 409 ''Cannot transition'')"

definition maybe_emit_webhook :: "invoice \<Rightarrow> invoice_status \<Rightarrow> uuid \<Rightarrow> outgoing list" where
  "maybe_emit_webhook iv target occurrence =
     (if target = Approved then [WebhookInvoiceApproved (inv_id iv) occurrence]
      else if target = Paid then [WebhookPaymentSettled (inv_id iv) occurrence]
      else [])"

type_synonym role_lookup = "uuid \<Rightarrow> string \<Rightarrow> uuid list option"

definition maybe_notify_transition ::
    "role_lookup \<Rightarrow> invoice \<Rightarrow> invoice_status \<Rightarrow> outgoing list" where
  "maybe_notify_transition role_users iv target =
     (let uploader = (case uploaded_by_id iv of None \<Rightarrow> [] | Some u \<Rightarrow> [u]);
          plan = (if target = Approved then Some (''invoice_approved'', uploader)
                  else if target = Rejected then Some (''invoice_rejected'', uploader)
                  else if target = Paid then
                    Some (''invoice_paid'',
                          uploader @ get_or (role_users (inv_org iv) ''ap_manager'') [])
                  else None)
      in case plan of
           None \<Rightarrow> []
         | Some (event_type, recipients) \<Rightarrow>
             NotifyVendor event_type (inv_id iv)
             # (if recipients = [] then [] else [NotifyEvent event_type (inv_id iv) recipients]))"

definition dispatch_audit ::
    "wf_db \<Rightarrow> uuid \<Rightarrow> uuid \<Rightarrow> uuid option \<Rightarrow> string \<Rightarrow> string \<Rightarrow> uuid \<Rightarrow> jdict \<Rightarrow> wf_db" where
  "dispatch_audit db corr org actor action entity_type entity_id details =
     db\<lparr>audit := audit db @
          [\<lparr>au_correlation = corr, au_org = org, au_actor = actor, au_action = action,
            au_entity_type = entity_type, au_entity_id = entity_id, au_details = details\<rparr>]\<rparr>"

text \<open>\<open>{**details, "old_status": o, "new_status": n}\<close>: a repeated key keeps its place and
  takes the later value.\<close>

definition transition_details :: "jdict \<Rightarrow> invoice_status \<Rightarrow> invoice_status \<Rightarrow> jdict" where
  "transition_details details old new =
     AList.update ''new_status'' (JStr (status_value new))
       (AList.update ''old_status'' (JStr (status_value old)) details)"

definition transition_invoice ::
    "role_lookup \<Rightarrow> uuid \<Rightarrow> wf_db \<Rightarrow> invoice \<Rightarrow> invoice_status \<Rightarrow> uuid option \<Rightarrow> string \<Rightarrow> jdict
       \<Rightarrow> (invoice \<times> wf_db) py" where
  "transition_invoice role_users occurrence db iv target actor action details =
     py_bind (validate_transition (status iv) target) (\<lambda>_.
       let old = status iv;
           iv' = iv\<lparr>status := target\<rparr>;
           db1 = dispatch_audit db (correlation_id iv') (inv_org iv') actor action ''invoice''
                   (inv_id iv') (transition_details details old target);
           db2 = db1\<lparr>outbox := outbox db1 @ maybe_notify_transition role_users iv' target
                                 @ maybe_emit_webhook iv' target occurrence\<rparr>
       in Inr (iv', db2))"

definition get_invoice_for_update :: "wf_db \<Rightarrow> uuid \<Rightarrow> invoice py" where
  "get_invoice_for_update db i =
     (case find (\<lambda>iv. inv_id iv = i) (invoices db) of
        None \<Rightarrow> Inl (HTTPException 404 ''Invoice not found'')
      | Some iv \<Rightarrow> Inr iv)"

section \<open>Step configuration\<close>

definition DEFAULT_STEPS_CONFIG :: steps_config where
  "DEFAULT_STEPS_CONFIG =
     [\<lparr>se_number = 1, se_type = Some ''extraction'', se_name = ''Data Extraction'',
       se_enabled = Some False,
       se_config = Some (empty_cfg\<lparr>c_auto_approve_enabled := Some False,
                                   c_auto_approve_threshold := JFloat ''0.95''\<rparr>)\<rparr>,
      \<lparr>se_number = 2, se_type = Some ''approval'', se_name = ''Manager Approval'',
       se_enabled = Some True,
       se_config = Some (empty_cfg\<lparr>c_required := Some True, c_approver_id := None,
                                   c_approver_strategy := Some ''manual'',
                                   c_require_segregation := Some (JBool True)\<rparr>)\<rparr>,
      \<lparr>se_number = 3, se_type = Some ''erp_export'', se_name = ''ERP Export'',
       se_enabled = Some False,
       se_config = Some (empty_cfg\<lparr>c_erp_system := Some ''default'',
                                   c_export_format := Some ''json'', c_endpoint_url := Some []\<rparr>)\<rparr>]"

fun check_step_enabled :: "steps_config \<Rightarrow> string \<Rightarrow> bool" where
  "check_step_enabled [] stype = True"
| "check_step_enabled (s # ss) stype =
     (if se_type s = Some stype then get_or (se_enabled s) True
      else check_step_enabled ss stype)"

fun get_step_config :: "steps_config \<Rightarrow> string \<Rightarrow> step_cfg" where
  "get_step_config [] stype = empty_cfg"
| "get_step_config (s # ss) stype =
     (if se_type s = Some stype then get_or (se_config s) empty_cfg
      else get_step_config ss stype)"

section \<open>Workflow definitions\<close>

text \<open>\<open>ORDER BY is_default DESC, created_at ASC LIMIT 1\<close>; of equal keys the earliest row.\<close>

definition first_definition :: "wf_definition list \<Rightarrow> wf_definition option" where
  "first_definition ds =
     (case sort_key (\<lambda>d. (\<not> wd_is_default d, wd_created_at d)) ds of
        [] \<Rightarrow> None | d # _ \<Rightarrow> Some d)"

definition resolve_active_workflow_definition ::
    "wf_db \<Rightarrow> uuid \<Rightarrow> uuid option \<Rightarrow> wf_definition option" where
  "resolve_active_workflow_definition db org entity =
     (let active = filter (\<lambda>d. wd_org d = org \<and> wd_is_active d) (definitions db);
          own = (case entity of None \<Rightarrow> None
                 | Some e \<Rightarrow> first_definition (filter (\<lambda>d. wd_entity d = Some e) active));
          shared = (case entity of None \<Rightarrow> None
                 | Some e \<Rightarrow> first_definition (filter (\<lambda>d. wd_entity d = None) active))
      in first_some [own, shared, first_definition active])"

definition get_or_create_workflow_definition ::
    "uuid \<Rightarrow> time \<Rightarrow> wf_db \<Rightarrow> uuid \<Rightarrow> uuid option \<Rightarrow> wf_definition \<times> wf_db" where
  "get_or_create_workflow_definition new_id now db org entity =
     (case resolve_active_workflow_definition db org entity of
        Some d \<Rightarrow> (d, db)
      | None \<Rightarrow>
          let d = \<lparr>wd_id = new_id, wd_org = org, wd_entity = None, wd_name = ''Invoice Processing'',
                   wd_steps = DEFAULT_STEPS_CONFIG, wd_is_active = True, wd_is_default = True,
                   wd_created_at = now\<rparr>
          in (d, db\<lparr>definitions := definitions db @ [d]\<rparr>))"

section \<open>Workflow instances and steps\<close>

definition get_workflow_instance :: "wf_db \<Rightarrow> uuid \<Rightarrow> wf_instance option py" where
  "get_workflow_instance db i =
     (case filter (\<lambda>w. wi_invoice w = i) (instances db) of
        [] \<Rightarrow> Inr None
      | [w] \<Rightarrow> Inr (Some w)
      | _ \<Rightarrow> Inl MultipleResultsFound)"

definition is_step_enabled ::
    "uuid \<Rightarrow> time \<Rightarrow> wf_db \<Rightarrow> uuid \<Rightarrow> string \<Rightarrow> uuid option \<Rightarrow> (bool \<times> wf_db) py" where
  "is_step_enabled new_id now db org stype invoice_id =
     py_bind (case invoice_id of
                None \<Rightarrow> Inr None
              | Some i \<Rightarrow> py_bind (get_workflow_instance db i) (\<lambda>w.
                  Inr (case w of None \<Rightarrow> None | Some w' \<Rightarrow> steps_config_snapshot w')))
       (\<lambda>snapshot.
          case snapshot of
            Some cfg \<Rightarrow> Inr (check_step_enabled cfg stype, db)
          | None \<Rightarrow>
              (case get_or_create_workflow_definition new_id now db org None of
                 (d, db') \<Rightarrow> Inr (check_step_enabled (wd_steps d) stype, db')))"

definition create_workflow_instance ::
    "(invoice \<Rightarrow> wf_definition \<Rightarrow> steps_config option) \<Rightarrow> uuid \<Rightarrow> uuid \<Rightarrow> time \<Rightarrow> wf_db \<Rightarrow> invoice
       \<Rightarrow> wf_instance \<times> wf_db" where
  "create_workflow_instance variant new_def_id new_id now db iv =
     (case get_or_create_workflow_definition new_def_id now db (inv_org iv) (inv_entity iv) of
        (d, db1) \<Rightarrow>
          let snapshot = get_or (variant iv d) (wd_steps d);
              w = \<lparr>wi_id = new_id, wi_correlation = correlation_id iv, wi_definition = wd_id d,
                   wi_invoice = inv_id iv, current_step = 0, wi_state = ''active'',
                   state_data = None, steps_config_snapshot = Some snapshot\<rparr>
          in (w, db1\<lparr>instances := instances db1 @ [w]\<rparr>))"

definition update_instance :: "(wf_instance \<Rightarrow> wf_instance) \<Rightarrow> uuid \<Rightarrow> wf_db \<Rightarrow> wf_db" where
  "update_instance f i db = db\<lparr>instances := update_where (\<lambda>w. wi_id w = i) f (instances db)\<rparr>"

definition create_workflow_step ::
    "uuid \<Rightarrow> time \<Rightarrow> wf_db \<Rightarrow> wf_instance \<Rightarrow> string \<Rightarrow> uuid option \<Rightarrow> (wf_step \<times> wf_db) py" where
  "create_workflow_step new_id now db w st assigned =
     (let resolved = resolve_step_type (Some st)
      in py_bind (canonical_step_index (Some resolved)) (\<lambda>n.
           let s = \<lparr>ws_id = new_id, ws_instance = wi_id w, step_number = n, step_type = resolved,
                    ws_assigned_to = assigned, original_assigned_to = None, ws_action = None,
                    completed_at = None, ws_created_at = now\<rparr>
           in Inr (s, db\<lparr>steps := steps db @ [s]\<rparr>)))"

definition open_step :: "wf_db \<Rightarrow> uuid \<Rightarrow> wf_step option" where
  "open_step db i =
     (case rev (sort_key step_number
                  (filter (\<lambda>s. ws_instance s = i \<and> completed_at s = None) (steps db))) of
        [] \<Rightarrow> None | s # _ \<Rightarrow> Some s)"

definition complete_current_step ::
    "time \<Rightarrow> wf_db \<Rightarrow> wf_instance \<Rightarrow> string \<Rightarrow> wf_db" where
  "complete_current_step now db w action =
     (case open_step db (wi_id w) of
        None \<Rightarrow> db
      | Some s \<Rightarrow>
          db\<lparr>steps := update_where (\<lambda>s'. ws_id s' = ws_id s)
                        (\<lambda>s'. s'\<lparr>ws_action := Some action, completed_at := Some now\<rparr>) (steps db)\<rparr>)"

definition advance_workflow ::
    "uuid \<Rightarrow> time \<Rightarrow> wf_db \<Rightarrow> wf_instance \<Rightarrow> string \<Rightarrow> string \<Rightarrow> uuid option \<Rightarrow> (wf_step \<times> wf_db) py" where
  "advance_workflow new_id now db w next_type action assigned =
     py_bind (canonical_step_index (Some (resolve_step_type (Some next_type)))) (\<lambda>n.
       let db1 = complete_current_step now db w action;
           db2 = update_instance (\<lambda>w'. w'\<lparr>current_step := int n - 1\<rparr>) (wi_id w) db1
       in create_workflow_step new_id now db2 w next_type assigned)"

definition complete_workflow ::
    "uuid \<Rightarrow> time \<Rightarrow> wf_db \<Rightarrow> wf_instance \<Rightarrow> string \<Rightarrow> wf_db py" where
  "complete_workflow new_id now db w action =
     (let db1 = complete_current_step now db w action
      in py_bind (create_workflow_step new_id now db1 w ''done'' None) (\<lambda>(s, db2).
           let db3 = db2\<lparr>steps := update_where (\<lambda>s'. ws_id s' = ws_id s)
                           (\<lambda>s'. s'\<lparr>ws_action := Some ''completed'', completed_at := Some now\<rparr>)
                           (steps db2)\<rparr>
           in Inr (update_instance
                     (\<lambda>w'. w'\<lparr>current_step := int (length CANONICAL_STEP_TYPES) - 1,
                              wi_state := ''completed''\<rparr>) (wi_id w) db3)))"

section \<open>Facts about transitions\<close>

lemma validate_transition_iff [simp]:
  "validate_transition s t = Inr u \<longleftrightarrow> t \<in> set (VALID_TRANSITIONS s)"
  "validate_transition s t = Inl e \<longleftrightarrow>
     t \<notin> set (VALID_TRANSITIONS s) \<and> e = HTTPException 409 ''Cannot transition''"
  by (auto simp: validate_transition_def)

lemma transition_details_lookup:
  "map_of (transition_details d old new) ''old_status'' = Some (JStr (status_value old))"
  "map_of (transition_details d old new) ''new_status'' = Some (JStr (status_value new))"
  "k \<noteq> ''old_status'' \<Longrightarrow> k \<noteq> ''new_status'' \<Longrightarrow> map_of (transition_details d old new) k = map_of d k"
  by (simp_all add: transition_details_def update_conv')

lemma dispatch_audit_frame [simp]:
  "invoices (dispatch_audit db c g a act et ei d) = invoices db"
  "definitions (dispatch_audit db c g a act et ei d) = definitions db"
  "instances (dispatch_audit db c g a act et ei d) = instances db"
  "steps (dispatch_audit db c g a act et ei d) = steps db"
  "users (dispatch_audit db c g a act et ei d) = users db"
  "exceptions (dispatch_audit db c g a act et ei d) = exceptions db"
  "outbox (dispatch_audit db c g a act et ei d) = outbox db"
  by (simp_all add: dispatch_audit_def)

lemma audit_dispatch_audit [simp]:
  "audit (dispatch_audit db c g a act et ei d) =
     audit db @ [\<lparr>au_correlation = c, au_org = g, au_actor = a, au_action = act,
                  au_entity_type = et, au_entity_id = ei, au_details = d\<rparr>]"
  by (simp add: dispatch_audit_def)

lemma transition_invoice_error:
  "transition_invoice ru occ db iv t actor action d = Inl e \<longleftrightarrow>
     t \<notin> set (VALID_TRANSITIONS (status iv)) \<and> e = HTTPException 409 ''Cannot transition''"
  by (auto simp: transition_invoice_def py_bind_eq_Inl Let_def)

lemma transition_invoice_Inr:
  assumes "transition_invoice ru occ db iv t actor action d = Inr (iv', db')"
  shows "t \<in> set (VALID_TRANSITIONS (status iv))" "iv' = iv\<lparr>status := t\<rparr>"
    "audit db' = audit db @
       [\<lparr>au_correlation = correlation_id iv, au_org = inv_org iv, au_actor = actor,
         au_action = action, au_entity_type = ''invoice'', au_entity_id = inv_id iv,
         au_details = transition_details d (status iv) t\<rparr>]"
    "outbox db' = outbox db @ maybe_notify_transition ru (iv\<lparr>status := t\<rparr>) t
                   @ maybe_emit_webhook (iv\<lparr>status := t\<rparr>) t occ"
    "invoices db' = invoices db" "definitions db' = definitions db"
    "instances db' = instances db" "steps db' = steps db" "users db' = users db"
    "exceptions db' = exceptions db"
  using assms by (auto simp: transition_invoice_def Let_def)

lemma transition_invoice_ok:
  "t \<in> set (VALID_TRANSITIONS (status iv)) \<Longrightarrow>
     \<exists>db'. transition_invoice ru occ db iv t actor action d = Inr (iv\<lparr>status := t\<rparr>, db')"
  by (simp add: transition_invoice_def Let_def validate_transition_def)

text \<open>The graph of the table, and histories as paths in it.\<close>

inductive valid_step :: "invoice_status \<Rightarrow> invoice_status \<Rightarrow> bool" where
  valid_stepI: "t \<in> set (VALID_TRANSITIONS s) \<Longrightarrow> valid_step s t"

inductive_simps valid_step_simps: "valid_step s t"
inductive_cases valid_step_from_done: "valid_step Done t"

fun valid_path :: "invoice_status list \<Rightarrow> bool" where
  "valid_path (s # t # ts) \<longleftrightarrow> t \<in> set (VALID_TRANSITIONS s) \<and> valid_path (t # ts)"
| "valid_path _ \<longleftrightarrow> True"

fun adjacent :: "'a \<Rightarrow> 'a \<Rightarrow> 'a list \<Rightarrow> bool" where
  "adjacent x y (a # b # cs) \<longleftrightarrow> (a = x \<and> b = y) \<or> adjacent x y (b # cs)"
| "adjacent x y _ \<longleftrightarrow> False"

lemma done_reachable: "valid_step\<^sup>*\<^sup>* s Done"
proof -
  have a: "valid_step\<^sup>*\<^sup>* Approved Done" by (rule r_into_rtranclp) (simp add: valid_step_simps)
  have st: "valid_step\<^sup>*\<^sup>* s t" if "t \<in> set (VALID_TRANSITIONS s)" for s t
    using that by (auto intro: valid_stepI)
  have p: "valid_step\<^sup>*\<^sup>* Pending Done" and n: "valid_step\<^sup>*\<^sup>* New Done" and r: "valid_step\<^sup>*\<^sup>* Ready_for_review Done"
    and e: "valid_step\<^sup>*\<^sup>* Sent_to_erp Done"
    using rtranclp_trans [OF st a] st by simp_all
  show ?thesis
    by (cases s) (use rtranclp_trans [OF st a] rtranclp_trans [OF st p] rtranclp_trans [OF st r]
        rtranclp_trans [OF st e] st a p n r e in \<open>simp_all\<close>)
qed

definition unapproved_statuses :: "invoice_status set" where
  "unapproved_statuses = {New, Pending, Ready_for_review, Rejected, Failed, Done}"

lemma unapproved_step:
  "s \<in> unapproved_statuses \<Longrightarrow> t \<in> set (VALID_TRANSITIONS s) \<Longrightarrow> t \<noteq> Approved \<Longrightarrow>
     t \<in> unapproved_statuses \<or> s = Failed \<and> t = Sending_to_erp"
  by (cases s) (auto simp: unapproved_statuses_def)

lemma unapproved_path:
  "valid_path (s # ts) \<Longrightarrow> s \<in> unapproved_statuses \<Longrightarrow> Approved \<notin> set ts \<Longrightarrow>
     \<not> adjacent Failed Sending_to_erp (s # ts) \<Longrightarrow> set (s # ts) \<subseteq> unapproved_statuses"
proof (induction ts arbitrary: s)
  case (Cons t ts)
  then have "t \<in> unapproved_statuses" using unapproved_step [of s t] by auto
  then have "set (t # ts) \<subseteq> unapproved_statuses" using Cons by (intro Cons.IH) auto
  with Cons.prems(2) show ?case by simp
qed simp

section \<open>Facts about definitions\<close>

lemma first_definition_props:
  "first_definition ds = Some d \<Longrightarrow>
     d \<in> set ds \<and> (\<forall>d' \<in> set ds. (\<not> wd_is_default d, wd_created_at d) \<le> (\<not> wd_is_default d', wd_created_at d'))"
proof -
  let ?k = "\<lambda>d. (\<not> wd_is_default d, wd_created_at d)"
  assume "first_definition ds = Some d"
  then obtain ds' where s: "sort_key ?k ds = d # ds'"
    by (auto simp: first_definition_def split: list.splits)
  have "set (sort_key ?k ds) = set ds" by simp
  then have m: "set ds = insert d (set ds')" by (simp add: s)
  have "sorted (map ?k (sort_key ?k ds))" by (rule sorted_sort_key)
  then have "\<forall>d' \<in> set ds'. ?k d \<le> ?k d'" by (simp add: s)
  with m show ?thesis by auto
qed

lemma first_definition_simps [simp]:
  "first_definition ds = None \<longleftrightarrow> ds = []"
  "first_definition [] = None"
  "first_definition [d] = Some d"
proof -
  show "first_definition ds = None \<longleftrightarrow> ds = []"
    by (simp add: first_definition_def split: list.splits) (metis list.distinct(1) sort_key_Nil_iff)
qed (simp_all add: first_definition_def)

lemma first_definition_set:
  "first_definition ds = Some d \<Longrightarrow> d \<in> set ds" "Some d = first_definition ds \<Longrightarrow> d \<in> set ds"
  by (auto dest: first_definition_props sym)

lemma resolve_active_None:
  "resolve_active_workflow_definition db org e = None \<longleftrightarrow>
     (\<forall>d \<in> set (definitions db). \<not> (wd_org d = org \<and> wd_is_active d))"
  by (auto simp: resolve_active_workflow_definition_def Let_def first_some_None filter_empty_conv
      split: option.splits)

lemma resolve_active_in:
  assumes "resolve_active_workflow_definition db org e = Some d"
  shows "d \<in> set (definitions db)" "wd_org d = org" "wd_is_active d"
  using first_some_in [OF assms [unfolded resolve_active_workflow_definition_def Let_def]]
  by (cases e; auto dest: first_definition_set)+

lemma resolve_active_own:
  assumes "d \<in> set (definitions db)" "wd_org d = org" "wd_is_active d" "wd_entity d = Some e"
  shows "\<exists>d'. resolve_active_workflow_definition db org (Some e) = Some d' \<and> wd_entity d' = Some e"
proof -
  let ?own = "filter (\<lambda>d. wd_entity d = Some e) (filter (\<lambda>d. wd_org d = org \<and> wd_is_active d) (definitions db))"
  have "?own \<noteq> []" using assms by (auto simp: filter_empty_conv)
  then obtain d' where d': "first_definition ?own = Some d'"
    by (cases "first_definition ?own") auto
  with first_definition_props [OF d'] show ?thesis
    by (auto simp: resolve_active_workflow_definition_def Let_def)
qed

lemma get_or_create_cases:
  "get_or_create_workflow_definition i now db org e = (d, db') \<Longrightarrow>
     (resolve_active_workflow_definition db org e = Some d \<and> db' = db) \<or>
     (resolve_active_workflow_definition db org e = None \<and>
      db' = db\<lparr>definitions := definitions db @ [d]\<rparr> \<and> wd_org d = org \<and> wd_is_active d
      \<and> wd_entity d = None \<and> wd_steps d = DEFAULT_STEPS_CONFIG)"
  by (auto simp: get_or_create_workflow_definition_def Let_def split: option.splits)

lemma resolve_after_mint:
  assumes none: "\<forall>d' \<in> set (definitions db). \<not> (wd_org d' = org \<and> wd_is_active d')"
    and d: "wd_org d = org" "wd_is_active d" "wd_entity d = None"
  shows "resolve_active_workflow_definition (db\<lparr>definitions := definitions db @ [d]\<rparr>) org e = Some d"
proof -
  have f: "filter (\<lambda>d. wd_org d = org \<and> wd_is_active d) (definitions db @ [d]) = [d]"
    using none d by (simp add: filter_empty_conv)
  show ?thesis
    by (cases e) (simp_all add: resolve_active_workflow_definition_def Let_def f d del: filter_append)
qed

section \<open>Facts about steps\<close>

abbreviation open_steps :: "wf_db \<Rightarrow> uuid \<Rightarrow> wf_step list" where
  "open_steps db i \<equiv> filter (\<lambda>s. ws_instance s = i \<and> completed_at s = None) (steps db)"

definition steps_ok :: "wf_db \<Rightarrow> bool" where
  "steps_ok db \<longleftrightarrow>
     distinct (map ws_id (steps db))
     \<and> (\<forall>s \<in> set (steps db). canonical_step_index (Some (step_type s)) = Inr (step_number s))
     \<and> (\<forall>i. length (open_steps db i) \<le> 1)"

lemma open_step_None: "open_step db i = None \<longleftrightarrow> open_steps db i = []"
proof -
  have "rev (sort_key step_number (open_steps db i)) = [] \<longleftrightarrow> open_steps db i = []"
    by (simp only: rev_is_Nil_conv sort_key_Nil_iff)
  moreover have "(case xs of [] \<Rightarrow> None | x # _ \<Rightarrow> Some x) = None \<longleftrightarrow> xs = []" for xs :: "wf_step list"
    by (cases xs) simp_all
  ultimately show ?thesis by (simp only: open_step_def)
qed

lemma open_step_single: "open_steps db i = [s] \<Longrightarrow> open_step db i = Some s"
  by (simp add: open_step_def)

lemma update_instance_steps [simp]:
  "steps (update_instance f i db) = steps db" "audit (update_instance f i db) = audit db"
  "exceptions (update_instance f i db) = exceptions db" "users (update_instance f i db) = users db"
  "definitions (update_instance f i db) = definitions db"
  by (simp_all add: update_instance_def)

lemma complete_current_step_frame [simp]:
  "instances (complete_current_step now db w a) = instances db"
  "audit (complete_current_step now db w a) = audit db"
  "exceptions (complete_current_step now db w a) = exceptions db"
  "users (complete_current_step now db w a) = users db"
  "definitions (complete_current_step now db w a) = definitions db"
  "outbox (complete_current_step now db w a) = outbox db"
  by (simp_all add: complete_current_step_def split: option.splits)

lemma filter_map_none: "(\<And>x. x \<in> set xs \<Longrightarrow> \<not> P (f x)) \<Longrightarrow> filter P (map f xs) = []"
  by (induction xs) auto

lemma filter_map_same:
  "(\<And>x. x \<in> set xs \<Longrightarrow> P (f x) = P x \<and> (P x \<longrightarrow> f x = x)) \<Longrightarrow> filter P (map f xs) = filter P xs"
  by (induction xs) auto

lemma complete_current_step_open:
  assumes "steps_ok db"
  shows "open_steps (complete_current_step now db w a) i = (if i = wi_id w then [] else open_steps db i)"
proof (cases "open_steps db (wi_id w)")
  case Nil
  then show ?thesis by (simp add: complete_current_step_def open_step_None [THEN iffD2])
next
  case (Cons s ss)
  have "length (open_steps db (wi_id w)) \<le> 1" using assms by (simp add: steps_ok_def)
  with Cons have o: "open_steps db (wi_id w) = [s]" by simp
  then have s: "s \<in> set (steps db)" "ws_instance s = wi_id w" "completed_at s = None"
  proof -
    have "s \<in> set (open_steps db (wi_id w))" by (simp only: o) simp
    then show "s \<in> set (steps db)" "ws_instance s = wi_id w" "completed_at s = None" by simp_all
  qed
  have uniq: "x = s" if "x \<in> set (steps db)" "ws_id x = ws_id s" for x
    using assms that s(1) by (auto simp: steps_ok_def distinct_map dest: inj_onD)
  have only: "x = s" if "x \<in> set (steps db)" "ws_instance x = wi_id w" "completed_at x = None" for x
  proof -
    have "x \<in> set (open_steps db (wi_id w))" using that by simp
    then show ?thesis by (simp only: o) simp
  qed
  let ?f = "\<lambda>s'. if ws_id s' = ws_id s then s'\<lparr>ws_action := Some a, completed_at := Some now\<rparr> else s'"
  have m: "steps (complete_current_step now db w a) = map ?f (steps db)"
    using open_step_single [OF o] by (simp add: complete_current_step_def update_where_def)
  show ?thesis
  proof (cases "i = wi_id w")
    case True
    have "\<not> (ws_instance (?f x) = wi_id w \<and> completed_at (?f x) = None)" if "x \<in> set (steps db)" for x
      using only [OF that] by (cases "ws_id x = ws_id s") auto
    then have "filter (\<lambda>x. ws_instance x = wi_id w \<and> completed_at x = None) (map ?f (steps db)) = []"
      by (rule filter_map_none)
    with True m show ?thesis by simp
  next
    case False
    have "filter (\<lambda>x. ws_instance x = i \<and> completed_at x = None) (map ?f (steps db)) = open_steps db i"
    proof (rule filter_map_same)
      fix x assume "x \<in> set (steps db)"
      with uniq [of x] s False show "(ws_instance (?f x) = i \<and> completed_at (?f x) = None) =
          (ws_instance x = i \<and> completed_at x = None) \<and>
          (ws_instance x = i \<and> completed_at x = None \<longrightarrow> ?f x = x)"
        by (cases "ws_id x = ws_id s") auto
    qed
    with False m show ?thesis by simp
  qed
qed

lemma complete_current_step_ok:
  assumes "steps_ok db" shows "steps_ok (complete_current_step now db w a)"
proof -
  have ids: "map ws_id (steps (complete_current_step now db w a)) = map ws_id (steps db)"
    by (simp add: complete_current_step_def update_where_def split: option.splits)
  have nums: "canonical_step_index (Some (step_type s)) = Inr (step_number s)"
    if "s \<in> set (steps (complete_current_step now db w a))" for s
    using that assms
    by (auto simp: complete_current_step_def set_update_where steps_ok_def split: option.splits)
  have opens: "length (open_steps (complete_current_step now db w a) i) \<le> 1" for i
    using assms by (simp add: complete_current_step_open steps_ok_def)
  show ?thesis unfolding steps_ok_def ids using assms nums opens by (simp add: steps_ok_def)
qed

lemma canonical_after_resolve:
  "canonical_step_index (Some (resolve_step_type t)) = Inr n \<Longrightarrow>
     canonical_step_index (Some (resolve_step_type (Some (resolve_step_type t)))) = Inr n"
  by (simp add: resolve_idem)

lemma create_workflow_step_Inr:
  assumes "create_workflow_step i now db w st asg = Inr (s, db')"
  shows "db' = db\<lparr>steps := steps db @ [s]\<rparr>" "ws_id s = i" "ws_instance s = wi_id w"
    "step_type s = resolve_step_type (Some st)"
    "canonical_step_index (Some (step_type s)) = Inr (step_number s)"
    "completed_at s = None" "ws_action s = None" "ws_assigned_to s = asg"
  using assms by (auto simp: create_workflow_step_def Let_def)

lemma create_workflow_step_Inl:
  "create_workflow_step i now db w st asg = Inl e \<longleftrightarrow>
     canonical_step_index (Some (resolve_step_type (Some st))) = Inl e"
  by (auto simp: create_workflow_step_def Let_def py_bind_eq_Inl)

lemma create_workflow_step_ok:
  assumes "create_workflow_step i now db w st asg = Inr (s, db')" "steps_ok db"
    "i \<notin> ws_id ` set (steps db)" "open_steps db (wi_id w) = []"
  shows "steps_ok db'" "open_steps db' (wi_id w) = [s]"
    "j \<noteq> wi_id w \<Longrightarrow> open_steps db' j = open_steps db j"
proof -
  note c = create_workflow_step_Inr [OF assms(1)]
  show o: "open_steps db' (wi_id w) = [s]" using c assms(4) by simp
  show oj: "open_steps db' j = open_steps db j" if "j \<noteq> wi_id w" for j using c that by simp
  have "length (open_steps db' j) \<le> 1" for j
    using o oj [of j] assms(2) by (cases "j = wi_id w") (simp_all add: steps_ok_def)
  moreover have "distinct (map ws_id (steps db'))"
    using assms(2,3) c by (auto simp: steps_ok_def)
  moreover have "\<forall>s \<in> set (steps db'). canonical_step_index (Some (step_type s)) = Inr (step_number s)"
    using assms(2) c by (auto simp: steps_ok_def)
  ultimately show "steps_ok db'" by (simp add: steps_ok_def)
qed

lemma steps_ok_cong: "steps db' = steps db \<Longrightarrow> steps_ok db' = steps_ok db"
  by (simp add: steps_ok_def)

lemma steps_complete_ids:
  "ws_id ` set (steps (complete_current_step now db w a)) = ws_id ` set (steps db)"
proof -
  have "map ws_id (steps (complete_current_step now db w a)) = map ws_id (steps db)"
    by (simp add: complete_current_step_def update_where_def split: option.splits)
  then show ?thesis by (metis set_map)
qed

lemma advance_workflow_Inr:
  assumes "advance_workflow i now db w nt a asg = Inr (s, db')"
    "steps_ok db" "i \<notin> ws_id ` set (steps db)"
  shows "steps_ok db'" "open_steps db' (wi_id w) = [s]"
    "j \<noteq> wi_id w \<Longrightarrow> open_steps db' j = open_steps db j"
    "step_type s = resolve_step_type (Some nt)" "ws_assigned_to s = asg" "audit db' = audit db"
    "instances db' = update_where (\<lambda>w'. wi_id w' = wi_id w)
       (\<lambda>w'. w'\<lparr>current_step := int (step_number s) - 1\<rparr>) (instances db)"
proof -
  define db1 where "db1 = complete_current_step now db w a"
  from assms(1) obtain n where n: "canonical_step_index (Some (resolve_step_type (Some nt))) = Inr n"
    and c: "create_workflow_step i now
      (update_instance (\<lambda>w'. w'\<lparr>current_step := int n - 1\<rparr>) (wi_id w) db1) w nt asg = Inr (s, db')"
    by (auto simp: advance_workflow_def Let_def db1_def)
  let ?db2 = "update_instance (\<lambda>w'. w'\<lparr>current_step := int n - 1\<rparr>) (wi_id w) db1"
  note cr = create_workflow_step_Inr [OF c]
  have ok: "steps_ok ?db2"
    using complete_current_step_ok [OF assms(2)] by (simp add: db1_def steps_ok_def)
  have fresh: "i \<notin> ws_id ` set (steps ?db2)"
    using assms(3) by (simp add: db1_def steps_complete_ids)
  have op: "open_steps ?db2 (wi_id w) = []"
    by (simp add: db1_def complete_current_step_open [OF assms(2)])
  note r = create_workflow_step_ok [OF c ok fresh op]
  show "steps_ok db'" by (rule r(1))
  show "open_steps db' (wi_id w) = [s]" by (rule r(2))
  show "open_steps db' j = open_steps db j" if "j \<noteq> wi_id w" for j
    using r(3) [OF that] that by (simp add: db1_def complete_current_step_open [OF assms(2)])
  have "step_number s = n" using cr(4,5) n by simp
  then show "instances db' = update_where (\<lambda>w'. wi_id w' = wi_id w)
       (\<lambda>w'. w'\<lparr>current_step := int (step_number s) - 1\<rparr>) (instances db)"
    using cr(1) by (simp add: db1_def update_instance_def)
  show "step_type s = resolve_step_type (Some nt)" "ws_assigned_to s = asg" by (rule cr)+
  show "audit db' = audit db" using cr(1) by (simp add: db1_def)
qed

lemma advance_workflow_Inl:
  "advance_workflow i now db w nt a asg = Inl e \<longleftrightarrow>
     canonical_step_index (Some (resolve_step_type (Some nt))) = Inl e"
  by (auto simp: advance_workflow_def Let_def py_bind_eq_Inl create_workflow_step_Inl)

lemma complete_workflow_Inr:
  assumes "complete_workflow i now db w a = Inr db'" "steps_ok db" "i \<notin> ws_id ` set (steps db)"
  shows "steps_ok db'" "open_steps db' (wi_id w) = []"
    "j \<noteq> wi_id w \<Longrightarrow> open_steps db' j = open_steps db j"
proof -
  let ?db1 = "complete_current_step now db w a"
  let ?f = "\<lambda>s'. if ws_id s' = i then s'\<lparr>ws_action := Some ''completed'', completed_at := Some now\<rparr> else s'"
  from assms(1) obtain s db2 where c: "create_workflow_step i now ?db1 w ''done'' None = Inr (s, db2)"
    and st: "steps db' = update_where (\<lambda>s'. ws_id s' = ws_id s)
                 (\<lambda>s'. s'\<lparr>ws_action := Some ''completed'', completed_at := Some now\<rparr>) (steps db2)"
    by (auto simp: complete_workflow_def Let_def)
  note cr = create_workflow_step_Inr [OF c]
  have fresh: "i \<notin> ws_id ` set (steps ?db1)" using assms(3) by (simp add: steps_complete_ids)
  have nf: "map ?f (steps ?db1) = steps ?db1"
    using fresh by (auto intro!: map_idI)
  have m: "steps db' = steps ?db1 @ [s\<lparr>ws_action := Some ''completed'', completed_at := Some now\<rparr>]"
    using st nf cr(1,2) by (simp add: update_where_def)
  note ok1 = complete_current_step_ok [OF assms(2)]
  note op1 = complete_current_step_open [OF assms(2)]
  show o: "open_steps db' (wi_id w) = []" by (simp add: m op1)
  show oj: "open_steps db' j = open_steps db j" if "j \<noteq> wi_id w" for j
    using that by (simp add: m op1)
  have "length (open_steps db' j) \<le> 1" for j
    using o oj [of j] assms(2) by (cases "j = wi_id w") (simp_all add: steps_ok_def)
  moreover have "distinct (map ws_id (steps db'))"
    using ok1 fresh cr(2) by (auto simp: steps_ok_def m)
  moreover have "\<forall>s \<in> set (steps db'). canonical_step_index (Some (step_type s)) = Inr (step_number s)"
    using ok1 cr(5) by (auto simp: steps_ok_def m)
  ultimately show "steps_ok db'" by (simp add: steps_ok_def)
qed

lemma complete_workflow_total: "\<exists>db'. complete_workflow i now db w a = Inr db'"
  by (simp add: complete_workflow_def create_workflow_step_def Let_def canonical_step_index_def
      resolve_step_type_def step_vocabulary get_or_def)

section \<open>The engine as a step system\<close>

text \<open>
  The calls that write step rows: \<open>create_workflow_step\<close> for an instance with no open
  step (a new or a resubmitted invoice), \<open>advance_workflow\<close> and
  \<open>complete_workflow\<close>, each with an identifier not used before.
\<close>

inductive wf_move :: "wf_db \<Rightarrow> wf_db \<Rightarrow> bool" where
  move_create: "i \<notin> ws_id ` set (steps db) \<Longrightarrow> open_steps db (wi_id w) = [] \<Longrightarrow>
     create_workflow_step i now db w st asg = Inr (s, db') \<Longrightarrow> wf_move db db'"
| move_advance: "i \<notin> ws_id ` set (steps db) \<Longrightarrow>
     advance_workflow i now db w nt a asg = Inr (s, db') \<Longrightarrow> wf_move db db'"
| move_complete: "i \<notin> ws_id ` set (steps db) \<Longrightarrow>
     complete_workflow i now db w a = Inr db' \<Longrightarrow> wf_move db db'"

lemma wf_move_ok: "wf_move db db' \<Longrightarrow> steps_ok db \<Longrightarrow> steps_ok db'"
  by (induction rule: wf_move.induct)
    (blast intro: create_workflow_step_ok(1) advance_workflow_Inr(1) complete_workflow_Inr(1))+

interpretation wf_run: step_system "\<lambda>db. steps db = []" wf_move steps_ok
  by unfold_locales (auto simp: steps_ok_def dest: wf_move_ok)

section \<open>Properties\<close>

text \<open>C31: A transition either raises 409, exactly when the table has no such edge, or moves the
  invoice to the target (changing no other field), appends exactly one audit row, whose details
  record the old and the new status over whatever the caller passed, queues exactly the messages that
  belong to the target, and touches no other table of the session. The messages: on \<open>approved\<close>,
  \<open>rejected\<close> and \<open>paid\<close> a notice to the vendor and one to the uploader (with the tenant's AP
  managers when it is paid), left out when there is nobody to tell; then a webhook on
  \<open>approved\<close> and on \<open>paid\<close>; on any other target nothing.\<close>

theorem transition_invoice_spec:
  "case transition_invoice ru occ db iv t actor action d of
     Inl e \<Rightarrow> t \<notin> set (VALID_TRANSITIONS (status iv)) \<and> e = HTTPException 409 ''Cannot transition''
   | Inr (iv', db') \<Rightarrow>
       t \<in> set (VALID_TRANSITIONS (status iv)) \<and> iv' = iv\<lparr>status := t\<rparr>
       \<and> (\<exists>r. audit db' = audit db @ [r] \<and> au_actor r = actor \<and> au_action r = action
             \<and> au_entity_type r = ''invoice'' \<and> au_entity_id r = inv_id iv
             \<and> au_correlation r = correlation_id iv \<and> au_org r = inv_org iv
             \<and> map_of (au_details r) =
                 (map_of d)(''old_status'' \<mapsto> JStr (status_value (status iv)),
                            ''new_status'' \<mapsto> JStr (status_value t)))
       \<and> outbox db' = outbox db @
           (let event = (if t = Approved then ''invoice_approved''
                         else if t = Rejected then ''invoice_rejected'' else ''invoice_paid'');
                people = (case uploaded_by_id iv of None \<Rightarrow> [] | Some u \<Rightarrow> [u])
                         @ (if t = Paid then get_or (ru (inv_org iv) ''ap_manager'') [] else [])
            in if t \<in> {Approved, Rejected, Paid}
               then [NotifyVendor event (inv_id iv)]
                    @ (if people = [] then [] else [NotifyEvent event (inv_id iv) people])
                    @ (if t = Approved then [WebhookInvoiceApproved (inv_id iv) occ]
                       else if t = Paid then [WebhookPaymentSettled (inv_id iv) occ] else [])
               else [])
       \<and> db'\<lparr>audit := audit db, outbox := outbox db\<rparr> = db"
  by (auto simp: transition_invoice_def Let_def validate_transition_def py_guard_def
      transition_details_def update_conv dispatch_audit_def maybe_notify_transition_def
      maybe_emit_webhook_def split: option.split)

text \<open>Every status can still reach \<open>done\<close>, and \<open>done\<close> has no way out.\<close>

theorem done_is_the_only_sink: "valid_step\<^sup>*\<^sup>* s Done \<and> ((\<nexists>t. valid_step s t) \<longleftrightarrow> s = Done)"
  by (cases s) (auto simp: done_reachable valid_step_simps)

text \<open>An invoice that goes from \<open>new\<close> to \<open>paid\<close> without ever being
  \<open>approved\<close> takes the edge from \<open>failed\<close> to \<open>sending_to_erp\<close>: that retry edge is
  the only way of the table around approval, and the witness shows it is one.\<close>

theorem unapproved_payment_needs_the_retry_edge:
  "valid_path (New # ts) \<Longrightarrow> Paid \<in> set ts \<Longrightarrow> Approved \<notin> set ts \<Longrightarrow>
     adjacent Failed Sending_to_erp (New # ts)"
  using unapproved_path [of New ts] by (auto simp: unapproved_statuses_def)

theorem unapproved_payment_witness:
  "adjacent Failed Sending_to_erp
     [New, Pending, Failed, Sending_to_erp, Sent_to_erp, Posted_in_erp, Payment_scheduled, Paid]"
  by (rule unapproved_payment_needs_the_retry_edge) simp_all

text \<open>\<open>get_or_create_workflow_definition\<close> returns an active definition of the tenant
  that governs from then on: resolving again finds it and creating again changes nothing. For an
  invoice of entity \<open>e\<close> it is the entity's own definition whenever the entity has an active
  one, and a shared one when only that (or nothing at all) exists.\<close>

theorem definition_resolution:
  "case get_or_create_workflow_definition i now db org (Some e) of (d, db') \<Rightarrow>
     wd_org d = org \<and> wd_is_active d
     \<and> resolve_active_workflow_definition db' org (Some e) = Some d
     \<and> get_or_create_workflow_definition i' now' db' org (Some e) = (d, db')
     \<and> (wd_entity d = Some e \<longleftrightarrow>
          (\<exists>d' \<in> set (definitions db). wd_org d' = org \<and> wd_is_active d' \<and> wd_entity d' = Some e))"
proof -
  obtain d db' where g: "get_or_create_workflow_definition i now db org (Some e) = (d, db')"
    by (cases "get_or_create_workflow_definition i now db org (Some e)")
  from get_or_create_cases [OF g] have
    "wd_org d = org \<and> wd_is_active d \<and> resolve_active_workflow_definition db' org (Some e) = Some d
     \<and> (wd_entity d = Some e \<longleftrightarrow>
          (\<exists>d' \<in> set (definitions db). wd_org d' = org \<and> wd_is_active d' \<and> wd_entity d' = Some e))"
  proof (elim disjE conjE)
    assume r: "resolve_active_workflow_definition db org (Some e) = Some d" and "db' = db"
    then show ?thesis
      using resolve_active_in [OF r] resolve_active_own [of _ db org e] by fastforce
  next
    assume r: "resolve_active_workflow_definition db org (Some e) = None"
      and d: "db' = db\<lparr>definitions := definitions db @ [d]\<rparr>" "wd_org d = org" "wd_is_active d"
        "wd_entity d = None"
    from resolve_active_None [THEN iffD1, OF r] resolve_after_mint [of db org d "Some e"] d
    show ?thesis by auto
  qed
  with g show ?thesis by (simp add: get_or_create_workflow_definition_def)
qed

text \<open>Whatever order the engine's calls come in, an instance never has two open steps, step
  identifiers stay unique, and a step's number is the pipeline position of its type.\<close>

theorem step_rows_stay_consistent:
  "wf_run.reached db \<Longrightarrow>
     (\<forall>i. length (open_steps db i) \<le> 1) \<and> distinct (map ws_id (steps db))
     \<and> (\<forall>s \<in> set (steps db). canonical_step_index (Some (step_type s)) = Inr (step_number s))"
  using wf_run.reached_keeps [of db] by (simp add: steps_ok_def)

definition empty_db :: wf_db where
  "empty_db = \<lparr>invoices = [], definitions = [], instances = [], steps = [], users = [], audit = [],
     exceptions = [], outbox = []\<rparr>"

theorem step_rows_witness:
  "\<exists>db. wf_run.reached db \<and> map step_type (steps db) = [''extraction'', ''approval'']
     \<and> (\<forall>i. length (open_steps db i) \<le> 1)"
proof -
  have e: "canonical_step_index (Some ''extraction'') = Inr 1"
    "canonical_step_index (Some ''approval'') = Inr 2"
    "resolve_step_type (Some ''upload'') = ''extraction''"
    "resolve_step_type (Some ''review'') = ''approval''"
    by (simp_all add: canonical_step_index_def resolve_step_type_def step_vocabulary list_index_def get_or_def)
  obtain s1 db1 where 1: "create_workflow_step 7 0 empty_db sample_instance ''upload'' None = Inr (s1, db1)"
    by (simp add: create_workflow_step_def Let_def e)
  have c1: "steps db1 = [s1]" "ws_id s1 = 7" "step_type s1 = ''extraction''" "ws_instance s1 = 1" "completed_at s1 = None"
    using create_workflow_step_Inr [OF 1] by (simp_all add: empty_db_def e sample_instance_def)
  obtain s2 db2 where 2: "advance_workflow 8 0 db1 sample_instance ''review'' ''x'' None = Inr (s2, db2)"
    by (simp add: advance_workflow_def create_workflow_step_def Let_def e)
  have "wf_run.reached empty_db" by (rule wf_run.reached_start) (simp add: empty_db_def)
  then have "wf_run.reached db1"
    by (rule wf_run.reached_move) (rule move_create [OF _ _ 1], simp_all add: empty_db_def)
  then have r: "wf_run.reached db2"
    by (rule wf_run.reached_move) (rule move_advance [OF _ 2], simp add: c1)
  have "map step_type (steps db2) = [''extraction'', ''approval'']"
    using 2 by (auto simp: advance_workflow_def create_workflow_step_def Let_def e c1
        complete_current_step_def open_step_def update_where_def sample_instance_def)
  moreover have "\<forall>i. length (open_steps db2 i) \<le> 1"
    by (rule conjunct1 [OF step_rows_stay_consistent [OF r]])
  ultimately show ?thesis using r by (intro exI [of _ db2]) simp
qed

end
