(* ===== verification/Exceptions.thy ===== *)
theory Exceptions
  imports Workflow_Engine
begin

text \<open>
  Raising an exception of the AP queue (services/exception_service.py,
  services/exception_lifecycle.py): the row, its append-only audit row, and the webhook. The
  webhook emit is fire-and-forget; the call is recorded in \<open>outbox\<close>.
\<close>

definition PAYMENT_BLOCKING_EXCEPTION_TYPES :: "string list" where
  "PAYMENT_BLOCKING_EXCEPTION_TYPES =
     [''duplicate'', ''fraud_flag'', ''line_total_mismatch'', ''payment_reconciliation'']"

definition is_payment_blocking :: "string \<Rightarrow> bool" where
  "is_payment_blocking exception_type \<longleftrightarrow> exception_type \<in> set PAYMENT_BLOCKING_EXCEPTION_TYPES"

definition base_details :: "exc_row \<Rightarrow> jdict" where
  "base_details e =
     [(''exception_id'', JStr (uuid_str (ex_id e))), (''exception_type'', JStr (ex_type e)),
      (''severity'', JStr (ex_severity e)),
      (''invoice_id'', case ex_invoice e of None \<Rightarrow> JNull | Some i \<Rightarrow> JStr (uuid_str i)),
      (''payment_blocking'', JBool (is_payment_blocking (ex_type e)))]"

definition record_raised :: "wf_db \<Rightarrow> exc_row \<Rightarrow> invoice \<Rightarrow> uuid option \<Rightarrow> wf_db" where
  "record_raised db e iv actor =
     dispatch_audit db (correlation_id iv) (ex_org e) actor ''exception.raised'' ''exception'' (ex_id e)
       (base_details e @ [(''new_status'', JStr (ex_status e))])"

text \<open>The call with a loaded invoice: the exception takes the invoice's id and entity.\<close>

definition create_exception ::
    "wf_db \<Rightarrow> uuid \<Rightarrow> string \<Rightarrow> string \<Rightarrow> uuid \<Rightarrow> string \<Rightarrow> string \<Rightarrow> invoice \<Rightarrow> uuid option \<Rightarrow> wf_db" where
  "create_exception db exc_id exception_type desc org severity st iv raised_by =
     (let e = \<lparr>ex_id = exc_id, ex_invoice = Some (inv_id iv), ex_type = exception_type, ex_severity = severity,
               ex_description = desc, ex_status = st, ex_org = org, ex_entity = inv_entity iv,
               ex_raised_by = raised_by, ex_resolution = None, ex_resolved_by = None, ex_resolved_at = None,
               ex_assigned_to = None\<rparr>;
          db1 = record_raised (db\<lparr>exceptions := exceptions db @ [e]\<rparr>) e iv raised_by
      in db1\<lparr>outbox := outbox db1 @ [WebhookExceptionRaised exception_type (inv_id iv)]\<rparr>)"

lemma create_exception_frame [simp]:
  "invoices (create_exception db i et d g sv st iv rb) = invoices db"
  "instances (create_exception db i et d g sv st iv rb) = instances db"
  "steps (create_exception db i et d g sv st iv rb) = steps db"
  "definitions (create_exception db i et d g sv st iv rb) = definitions db"
  "users (create_exception db i et d g sv st iv rb) = users db"
  by (simp_all add: create_exception_def record_raised_def Let_def)

lemma create_exception_row [simp]:
  "exceptions (create_exception db i et d g sv st iv rb) = exceptions db @
     [\<lparr>ex_id = i, ex_invoice = Some (inv_id iv), ex_type = et, ex_severity = sv, ex_description = d,
       ex_status = st, ex_org = g, ex_entity = inv_entity iv, ex_raised_by = rb, ex_resolution = None,
       ex_resolved_by = None, ex_resolved_at = None, ex_assigned_to = None\<rparr>]"
  by (simp add: create_exception_def record_raised_def Let_def)

end
