(* ===== verification/Review.thy ===== *)
theory Review
  imports Approval_Chain Approval_Signature Exceptions
begin

text \<open>
  Approving, rejecting, resubmitting and assigning an invoice (services/review.py), with the
  structuring guard (services/structuring.py), the field diff of services/audit_access.py, and the
  bulk approval of api/invoices.py, which is the caller that keeps the session after a refusal.

  A handler works on ORM objects and may raise after it has changed them, so it returns the
  exception, if any, together with the invoice and the session as they stand at that moment. The
  single-invoice endpoints roll the session back; the bulk endpoint commits it.

  \<open>review_env\<close> holds what the handlers take from elsewhere: the clock, fresh identifiers, the
  platform's settings, the digest, and the calls into modules that are not modelled (linking a vendor
  by name, recomputing the warnings, best effort and \<open>id\<close> when that fails). The correction
  cache and the embedding store are side effects nothing here reads. A structuring window of more days
  than a Python \<open>timedelta\<close> or the calendar holds, where the code raises OverflowError, is taken as it is.
\<close>

record review_env =
  re_now :: time
  re_today :: int
  re_platform_currency :: string
  re_role_users :: role_lookup
  re_occurrence :: uuid
  re_step_id :: uuid
  re_exc_id :: uuid
  re_link_vendor :: "invoice \<Rightarrow> uuid"
  re_refresh :: "invoice \<Rightarrow> invoice"
  re_hmac :: hmac_fun
  re_fmt_time :: "time \<Rightarrow> string"
  re_signing_key :: string
  re_money_text :: "rat \<Rightarrow> string"
  re_date_text :: "int \<Rightarrow> string"

type_synonym handled = "py_exc option \<times> invoice \<times> wf_db"

section \<open>The configuration that governs an approval\<close>

definition resolve_approval_config :: "wf_db \<Rightarrow> invoice \<Rightarrow> wf_instance option \<Rightarrow> step_cfg py" where
  "resolve_approval_config db iv inst =
     py_bind (case inst of None \<Rightarrow> get_workflow_instance db (inv_id iv) | Some w \<Rightarrow> Inr (Some w)) (\<lambda>inst'.
       let own = (case inst' of None \<Rightarrow> None | Some w \<Rightarrow> steps_config_snapshot w);
           snapshot = (case own of
             Some s \<Rightarrow> Some s
           | None \<Rightarrow> map_option wd_steps (resolve_active_workflow_definition db (inv_org iv) (inv_entity iv)))
       in Inr (case snapshot of None \<Rightarrow> empty_cfg | Some s \<Rightarrow> get_step_config s ''approval''))"

section \<open>The structuring guard\<close>

definition dict_get_default :: "json \<Rightarrow> string \<Rightarrow> json \<Rightarrow> json py" where
  "dict_get_default v k d =
     (if truthy v then (case v of JObj kvs \<Rightarrow> Inr (get_or (map_of kvs k) d) | _ \<Rightarrow> Inl AttributeError)
      else Inr d)"

definition get_structuring_config :: "json \<Rightarrow> (json \<times> json) py" where
  "get_structuring_config org_settings =
     py_bind (or_empty_get org_settings ''fraud_rules'') (\<lambda>overrides.
     py_bind (dict_get_default overrides ''structuring_enabled'' (JBool True)) (\<lambda>enabled.
     py_bind (dict_get_default overrides ''structuring_window_days'' (JInt 7)) (\<lambda>window.
       Inr (enabled, window))))"

text \<open>\<open>timedelta(days=w)\<close> in microseconds; a value that is not a number raises TypeError.\<close>

definition window_us :: "json \<Rightarrow> int py" where
  "window_us w =
     (case w of
        JInt n \<Rightarrow> Inr (days_us n)
      | JBool b \<Rightarrow> Inr (if b then days_us 1 else 0)
      | JFloat r \<Rightarrow> (case parse_decimal r of
                      Some (Fin x) \<Rightarrow> Inr (half_even (x * of_int (days_us 1)))
                    | _ \<Rightarrow> Inl ValueError)
      | _ \<Rightarrow> Inl TypeError)"

definition counts_as_spend ::
    "time \<Rightarrow> uuid \<Rightarrow> uuid \<Rightarrow> int \<Rightarrow> string \<Rightarrow> uuid option \<Rightarrow> invoice \<Rightarrow> bool" where
  "counts_as_spend now vendor exclude window cur entity r \<longleftrightarrow>
     vendor_id r = Some vendor \<and> status r \<notin> {Rejected, Failed} \<and> currency r = cur
     \<and> now - window \<le> inv_created_at r
     \<and> (case entity of None \<Rightarrow> True | Some e \<Rightarrow> inv_entity r = Some e)
     \<and> inv_id r \<noteq> exclude"

definition vendor_recent_spend ::
    "time \<Rightarrow> wf_db \<Rightarrow> uuid \<Rightarrow> uuid \<Rightarrow> int \<Rightarrow> string \<Rightarrow> uuid option \<Rightarrow> rat" where
  "vendor_recent_spend now db vendor exclude window cur entity =
     sum_list (map amount (filter (counts_as_spend now vendor exclude window cur entity) (invoices db)))"

section \<open>Thresholds\<close>

definition recent_spend_of :: "review_env \<Rightarrow> wf_db \<Rightarrow> invoice \<Rightarrow> json \<Rightarrow> rat py" where
  "recent_spend_of env db iv org_settings =
     (case vendor_id iv of
        None \<Rightarrow> Inr 0
      | Some v \<Rightarrow>
          py_bind (get_structuring_config org_settings) (\<lambda>(enabled, window).
            if truthy enabled then
              py_bind (window_us window) (\<lambda>w.
                Inr (vendor_recent_spend (re_now env) db v (inv_id iv) w
                       (if currency iv = [] then ''USD'' else currency iv) (inv_entity iv)))
            else Inr 0))"

text \<open>
  The refusals carry messages; composing the CFO message compares the amount with the
  threshold when there is recent spend, and that comparison raises for a NaN.
\<close>

definition enforce_approval_thresholds ::
    "review_env \<Rightarrow> wf_db \<Rightarrow> invoice \<Rightarrow> string set \<Rightarrow> json \<Rightarrow> step_cfg \<Rightarrow> unit py" where
  "enforce_approval_thresholds env db iv actor_roles org_settings cfg =
     (if cfg = empty_cfg then Inr ()
      else
        py_bind (recent_spend_of env db iv org_settings) (\<lambda>recent.
        py_bind (reporting_gate_amount (re_platform_currency env) iv (Some (amount iv + recent)) org_settings)
          (\<lambda>g.
        py_bind (max_amount_gate_applies (c_max_invoice_amount cfg) (Gate g)) (\<lambda>over_max.
          if over_max then Inl (HTTPException 422 ''max_invoice_amount'')
          else
            py_bind (cfo_gate_applies (c_require_cfo_above cfg) (Gate g)) (\<lambda>needs_cfo.
              if needs_cfo \<and> ''cfo'' \<notin> actor_roles then
                (if to_decimal (c_require_cfo_above cfg) = Some NaN \<and> 0 < recent
                 then Inl InvalidOperation
                 else Inl (HTTPException 403 ''CFO approval required''))
              else Inr ())))))"

section \<open>Corrections\<close>

record corrections =
  co_vendor :: "string option"
  co_invoice_number :: "string option"
  co_amount :: "rat option"
  co_description :: "string option"
  co_po_number :: "string option"
  co_due_date :: "int option"
  co_gl_account :: "string option"
  co_cost_center :: "string option"

datatype field_value = FText "string option" | FMoney rat | FDate "int option" | FUuid "uuid option"

definition jsonable :: "review_env \<Rightarrow> field_value \<Rightarrow> json" where
  "jsonable env v =
     (case v of
        FText t \<Rightarrow> json_of_option t
      | FMoney x \<Rightarrow> JStr (re_money_text env x)
      | FDate d \<Rightarrow> json_of_option (map_option (re_date_text env) d)
      | FUuid u \<Rightarrow> json_of_option (map_option uuid_str u))"

type_synonym field_change = "string \<times> field_value \<times> field_value"

definition build_field_diff :: "review_env \<Rightarrow> field_change list \<Rightarrow> jdict" where
  "build_field_diff env changes =
     map (\<lambda>(f, old, new). (f, JObj [(''old'', jsonable env old), (''new'', jsonable env new)]))
       (filter (\<lambda>(f, old, new). old \<noteq> new) changes)"

text \<open>One entry per corrected field, in the order of the request's fields.\<close>

definition correction_edits ::
    "corrections \<Rightarrow> (string \<times> (invoice \<Rightarrow> field_value) \<times> (invoice \<Rightarrow> invoice)) list" where
  "correction_edits c =
     (case co_vendor c of None \<Rightarrow> []
      | Some v \<Rightarrow> [(''vendor_name'', \<lambda>i. FText (Some (vendor_name i)), \<lambda>i. i\<lparr>vendor_name := v\<rparr>)])
   @ (case co_invoice_number c of None \<Rightarrow> []
      | Some v \<Rightarrow> [(''invoice_number'', \<lambda>i. FText (Some (invoice_number i)), \<lambda>i. i\<lparr>invoice_number := v\<rparr>)])
   @ (case co_amount c of None \<Rightarrow> []
      | Some v \<Rightarrow> [(''amount'', \<lambda>i. FMoney (amount i), \<lambda>i. i\<lparr>amount := v\<rparr>)])
   @ (case co_description c of None \<Rightarrow> []
      | Some v \<Rightarrow> [(''description'', \<lambda>i. FText (description i), \<lambda>i. i\<lparr>description := Some v\<rparr>)])
   @ (case co_po_number c of None \<Rightarrow> []
      | Some v \<Rightarrow> [(''po_number'', \<lambda>i. FText (po_number i), \<lambda>i. i\<lparr>po_number := Some v\<rparr>)])
   @ (case co_due_date c of None \<Rightarrow> []
      | Some v \<Rightarrow> [(''due_date'', \<lambda>i. FDate (due_date i), \<lambda>i. i\<lparr>due_date := Some v\<rparr>)])
   @ (case co_gl_account c of None \<Rightarrow> []
      | Some v \<Rightarrow> [(''gl_account'', \<lambda>i. FText (gl_account i), \<lambda>i. i\<lparr>gl_account := Some v\<rparr>)])
   @ (case co_cost_center c of None \<Rightarrow> []
      | Some v \<Rightarrow> [(''cost_center'', \<lambda>i. FText (cost_center i), \<lambda>i. i\<lparr>cost_center := Some v\<rparr>)])"

fun apply_edits ::
    "(string \<times> (invoice \<Rightarrow> field_value) \<times> (invoice \<Rightarrow> invoice)) list \<Rightarrow> invoice
       \<Rightarrow> field_change list \<times> invoice" where
  "apply_edits [] iv = ([], iv)"
| "apply_edits ((f, get, put) # es) iv =
     (let iv' = put iv in case apply_edits es iv' of (ds, r) \<Rightarrow> ((f, get iv, get iv') # ds, r))"

definition relink_vendor :: "review_env \<Rightarrow> corrections \<Rightarrow> invoice \<Rightarrow> invoice \<Rightarrow> field_change list \<times> invoice"
  where
  "relink_vendor env c before iv =
     (if co_vendor c \<noteq> None \<and> (vendor_name before \<noteq> vendor_name iv \<or> vendor_id iv = None) then
        (let linked = iv\<lparr>vendor_id := (if py_strip (vendor_name iv) \<noteq> []
                                       then Some (re_link_vendor env iv) else None)\<rparr>
         in ([(''vendor_id'', FUuid (vendor_id iv), FUuid (vendor_id linked))], linked))
      else ([], iv))"

definition apply_corrections :: "review_env \<Rightarrow> corrections option \<Rightarrow> invoice \<Rightarrow> jdict \<times> invoice" where
  "apply_corrections env corr iv =
     (case corr of
        None \<Rightarrow> ([], iv)
      | Some c \<Rightarrow>
          (case apply_edits (correction_edits c) iv of (ds, iv1) \<Rightarrow>
           case relink_vendor env c iv iv1 of (ds', iv2) \<Rightarrow>
             (build_field_diff env (ds @ ds'), re_refresh env iv2)))"

section \<open>Approving\<close>

definition specific_approvers :: "step_cfg \<Rightarrow> string list" where
  "specific_approvers cfg =
     (let ids = get_or (c_approver_ids cfg) []; one = get_or (c_approver_id cfg) []
      in if ids \<noteq> [] then ids else if one \<noteq> [] then [one] else [])"

text \<open>What comes before the first change.\<close>

definition approval_entry ::
    "review_env \<Rightarrow> wf_db \<Rightarrow> invoice \<Rightarrow> uuid \<Rightarrow> (wf_instance option \<times> step_cfg) py" where
  "approval_entry env db iv actor =
     py_bind (get_workflow_instance db (inv_id iv)) (\<lambda>inst.
     py_bind (resolve_approval_config db iv inst) (\<lambda>cfg.
     py_bind (check_segregation iv actor cfg) (\<lambda>_.
     py_bind (if c_approver_strategy cfg = Some ''specific''
              then check_level_approver (re_now env) (users db) (specific_approvers cfg) actor
              else Inr ()) (\<lambda>_.
       Inr (inst, cfg)))))"

definition ensure_chain :: "review_env \<Rightarrow> step_cfg \<Rightarrow> invoice \<Rightarrow> json \<Rightarrow> wf_instance \<Rightarrow> wf_instance py" where
  "ensure_chain env cfg iv org_settings w =
     (case get_chain_progress w of
        ChainEmpty \<Rightarrow>
          py_bind (reporting_gate_amount (re_platform_currency env) iv None org_settings) (\<lambda>g.
          py_bind (resolve_applicable_levels (get_or (c_approval_chain cfg) []) (Gate g)
                     (invoice_routing_attrs iv)) (\<lambda>applicable.
            Inr (if applicable = [] then w else init_chain_state (re_now env) w applicable)))
      | _ \<Rightarrow> Inr w)"

text \<open>The chain's part: completion and the level it was recorded at, or the refusal, with
  the instance as it then stands.\<close>

definition chain_approval ::
    "review_env \<Rightarrow> user list \<Rightarrow> step_cfg \<Rightarrow> invoice \<Rightarrow> json \<Rightarrow> wf_instance \<Rightarrow> uuid
       \<Rightarrow> (bool \<times> nat) py \<times> wf_instance" where
  "chain_approval env us cfg iv org_settings w actor =
     (case ensure_chain env cfg iv org_settings w of
        Inl e \<Rightarrow> (Inl e, w)
      | Inr w1 \<Rightarrow>
          (let (lvls, cur) = (case get_chain_progress w1 of
                                ChainObj c \<Rightarrow> (levels c, current_level c) | _ \<Rightarrow> ([], 0))
           in case (if cur < length lvls
                    then check_level_approver (re_now env) us (lv_approver_ids (lvls ! cur)) actor
                    else Inr ()) of
                Inl e \<Rightarrow> (Inl e, w1)
              | Inr _ \<Rightarrow> (case advance_approval_chain (re_now env) w1 actor of
                    Inl e \<Rightarrow> (Inl e, w1)
                  | Inr (finished, w2) \<Rightarrow> (Inr (finished, cur), w2))))"

definition changes_detail :: "jdict \<Rightarrow> jdict" where
  "changes_detail diff = (if diff = [] then [] else [(''changes'', JObj diff)])"

definition finalize_approval ::
    "review_env \<Rightarrow> wf_db \<Rightarrow> invoice \<Rightarrow> wf_instance option \<Rightarrow> uuid \<Rightarrow> string \<Rightarrow> jdict \<Rightarrow> handled" where
  "finalize_approval env db iv inst actor actor_name diff =
     (let iv1 = iv\<lparr>approval_date := Some (re_today env), approved_by := Some actor_name\<rparr>;
          signature = build_signature_detail (re_hmac env) (re_fmt_time env) (inv_id iv1) (amount iv1)
                        actor ''approved'' (re_now env) (re_signing_key env);
          details = changes_detail diff
                    @ (case signature of None \<Rightarrow> [] | Some s \<Rightarrow> [(''signature'', s)])
      in case transition_invoice (re_role_users env) (re_occurrence env) db iv1 Approved (Some actor)
                ''invoice.approved'' details of
           Inl e \<Rightarrow> (Some e, iv1, db)
         | Inr (iv2, db2) \<Rightarrow>
             (case inst of
                None \<Rightarrow> (None, iv2, db2)
              | Some w \<Rightarrow>
                  (case advance_workflow (re_step_id env) (re_now env) db2 w ''erp_push'' ''approved'' None of
                     Inl e \<Rightarrow> (Some e, iv2, db2)
                   | Inr (s, db3) \<Rightarrow> (None, iv2, db3))))"

definition put_instance :: "wf_instance \<Rightarrow> wf_db \<Rightarrow> wf_db" where
  "put_instance w db = update_instance (\<lambda>_. w) (wi_id w) db"

definition approve_invoice ::
    "review_env \<Rightarrow> wf_db \<Rightarrow> invoice \<Rightarrow> uuid \<Rightarrow> string \<Rightarrow> string set \<Rightarrow> corrections option \<Rightarrow> json \<Rightarrow> handled"
  where
  "approve_invoice env db iv actor actor_name actor_roles corr org_settings =
     (case approval_entry env db iv actor of
        Inl e \<Rightarrow> (Some e, iv, db)
      | Inr (inst, cfg) \<Rightarrow>
          (case apply_corrections env corr iv of (diff, iv1) \<Rightarrow>
           case enforce_approval_thresholds env db iv1 actor_roles org_settings cfg of
             Inl e \<Rightarrow> (Some e, iv1, db)
           | Inr _ \<Rightarrow>
               (case (if c_approver_strategy cfg = Some ''chain'' then inst else None) of
                  None \<Rightarrow> finalize_approval env db iv1 inst actor actor_name diff
                | Some w \<Rightarrow>
                    (case chain_approval env (users db) cfg iv1 org_settings w actor of
                       (Inl e, w1) \<Rightarrow> (Some e, iv1, put_instance w1 db)
                     | (Inr (finished, level), w1) \<Rightarrow>
                         if finished
                         then finalize_approval env (put_instance w1 db) iv1 (Some w1) actor actor_name diff
                         else (None, iv1,
                               dispatch_audit (put_instance w1 db) (correlation_id iv1) (inv_org iv1)
                                 (Some actor) ''invoice.approval_step'' ''invoice'' (inv_id iv1)
                                 ([(''decision'', JStr ''approved''), (''level'', JInt (int level))]
                                  @ changes_detail diff))))))"

section \<open>Rejecting, resubmitting, assigning\<close>

definition reject_invoice ::
    "review_env \<Rightarrow> wf_db \<Rightarrow> invoice \<Rightarrow> uuid \<Rightarrow> string \<Rightarrow> string \<Rightarrow> handled" where
  "reject_invoice env db iv actor actor_name reason =
     (let iv1 = iv\<lparr>rejected_by := Some actor_name\<rparr>
      in case transition_invoice (re_role_users env) (re_occurrence env) db iv1 Rejected (Some actor)
                ''invoice.rejected'' [(''reason'', JStr reason)] of
           Inl e \<Rightarrow> (Some e, iv1, db)
         | Inr (iv2, db2) \<Rightarrow>
             (let db3 = create_exception db2 (re_exc_id env) ''review_rejected'' reason (inv_org iv2)
                          ''warning'' ''open'' iv2 None
              in case get_workflow_instance db3 (inv_id iv2) of
                   Inl e \<Rightarrow> (Some e, iv2, db3)
                 | Inr None \<Rightarrow> (None, iv2, db3)
                 | Inr (Some w) \<Rightarrow>
                     (let db4 = complete_current_step (re_now env) db3 w ''rejected'';
                          sd = get_or (state_data w) empty_state;
                          sd1 = sd\<lparr>sd_rejection_count := Some (get_or (sd_rejection_count sd) 0 + 1)\<rparr>
                      in (None, iv2,
                          update_instance (\<lambda>w'. w'\<lparr>state_data := Some (clear_chain_state sd1)\<rparr>)
                            (wi_id w) db4))))"

definition resubmit_invoice :: "review_env \<Rightarrow> wf_db \<Rightarrow> invoice \<Rightarrow> uuid \<Rightarrow> handled" where
  "resubmit_invoice env db iv actor =
     (case transition_invoice (re_role_users env) (re_occurrence env) db iv Ready_for_review (Some actor)
             ''invoice.resubmitted'' [] of
        Inl e \<Rightarrow> (Some e, iv, db)
      | Inr (iv1, db1) \<Rightarrow>
          (case get_workflow_instance db1 (inv_id iv1) of
             Inl e \<Rightarrow> (Some e, iv1, db1)
           | Inr None \<Rightarrow> (None, iv1, db1)
           | Inr (Some w) \<Rightarrow>
               (case create_workflow_step (re_step_id env) (re_now env) db1 w ''review'' None of
                  Inl e \<Rightarrow> (Some e, iv1, db1)
                | Inr (s, db2) \<Rightarrow>
                    (None, iv1, update_instance (\<lambda>w'. w'\<lparr>current_step := 1\<rparr>) (wi_id w) db2))))"

definition delegated_reviewer ::
    "time \<Rightarrow> user list option \<Rightarrow> uuid \<Rightarrow> string \<Rightarrow> uuid \<times> string \<times> uuid option" where
  "delegated_reviewer now control_db reviewer reviewer_name =
     (case control_db of
        None \<Rightarrow> (reviewer, reviewer_name, None)
      | Some us \<Rightarrow>
          (case resolve_assignee now us reviewer of
             (effective, None) \<Rightarrow> (reviewer, reviewer_name, None)
           | (effective, Some original) \<Rightarrow>
               (case find (\<lambda>u. us_id u = effective) us of
                  None \<Rightarrow> (reviewer, reviewer_name, Some original)
                | Some u \<Rightarrow> (effective, full_name u, Some original))))"

definition latest_review_step :: "wf_db \<Rightarrow> uuid \<Rightarrow> wf_step option" where
  "latest_review_step db i =
     (case rev (sort_key ws_created_at
                  (filter (\<lambda>s. ws_instance s = i \<and> step_type s \<in> {''approval'', ''review''}
                               \<and> completed_at s = None) (steps db))) of
        [] \<Rightarrow> None | s # _ \<Rightarrow> Some s)"

definition assign_reviewer ::
    "review_env \<Rightarrow> wf_db \<Rightarrow> invoice \<Rightarrow> uuid \<Rightarrow> uuid \<Rightarrow> string \<Rightarrow> user list option \<Rightarrow> handled" where
  "assign_reviewer env db iv actor reviewer reviewer_name control_db =
     (case delegated_reviewer (re_now env) control_db reviewer reviewer_name of (who, who_name, original) \<Rightarrow>
        (let iv1 = iv\<lparr>assigned_to_id := Some who, assigned_to := Some who_name\<rparr>
         in case get_workflow_instance db (inv_id iv1) of
              Inl e \<Rightarrow> (Some e, iv1, db)
            | Inr inst \<Rightarrow>
                (let db1 = (case Option.bind inst (\<lambda>w. latest_review_step db (wi_id w)) of
                              None \<Rightarrow> db
                            | Some s \<Rightarrow> db\<lparr>steps := update_where (\<lambda>s'. ws_id s' = ws_id s)
                                (\<lambda>s'. s'\<lparr>ws_assigned_to := Some who,
                                        original_assigned_to :=
                                          (if original = None then original_assigned_to s' else original)\<rparr>)
                                (steps db)\<rparr>);
                     db2 = dispatch_audit db1 (correlation_id iv1) (inv_org iv1) (Some actor)
                             ''invoice.assigned_for_review'' ''invoice'' (inv_id iv1)
                             ((''reviewer_id'', JStr (uuid_str who))
                              # (case original of None \<Rightarrow> []
                                 | Some u \<Rightarrow> [(''delegated_from'', JStr (uuid_str u))]))
                 in (None, iv1,
                     db2\<lparr>outbox := outbox db2 @ [NotifyEvent ''invoice_assigned'' (inv_id iv1) [who]]\<rparr>))))"

section \<open>Bulk approval\<close>

definition IMMUTABLE_STATUSES :: "invoice_status set" where
  "IMMUTABLE_STATUSES = {Sending_to_erp, Sent_to_erp, Posted_in_erp, Payment_scheduled, Paid, Done}"

text \<open>One invoice of \<open>bulk_status_change\<close> with the target \<open>approved\<close>: whether it was
  updated, and what the session then holds. Only an HTTPException is caught.\<close>

definition bulk_approve_one ::
    "review_env \<Rightarrow> wf_db \<Rightarrow> invoice \<Rightarrow> uuid \<Rightarrow> string \<Rightarrow> string set \<Rightarrow> json \<Rightarrow> (bool \<times> invoice \<times> wf_db) py"
  where
  "bulk_approve_one env db iv actor actor_name actor_roles org_settings =
     (if status iv \<in> IMMUTABLE_STATUSES then Inr (False, iv, db)
      else case approve_invoice env db iv actor actor_name actor_roles None org_settings of
             (None, iv', db') \<Rightarrow> Inr (True, iv', db')
           | (Some (HTTPException c d), iv', db') \<Rightarrow> Inr (False, iv', db')
           | (Some e, iv', db') \<Rightarrow> Inl e)"

section \<open>Facts\<close>

lemma put_instance_frame [simp]:
  "audit (put_instance w db) = audit db" "invoices (put_instance w db) = invoices db"
  "steps (put_instance w db) = steps db" "exceptions (put_instance w db) = exceptions db"
  "users (put_instance w db) = users db" "definitions (put_instance w db) = definitions db"
  "outbox (put_instance w db) = outbox db"
  by (simp_all add: put_instance_def update_instance_def)

lemma advance_workflow_audit:
  "advance_workflow i now db w nt a asg = Inr (s, db') \<Longrightarrow> audit db' = audit db"
  by (auto simp: advance_workflow_def create_workflow_step_def Let_def)

lemma finalize_None:
  assumes "finalize_approval env db iv inst actor actor_name diff = (None, iv', db')"
  shows "Approved \<in> set (VALID_TRANSITIONS (status iv))" "status iv' = Approved"
    "approved_by iv' = Some actor_name" "approval_date iv' = Some (re_today env)"
    "amount iv' = amount iv"
    "\<exists>r. audit db' = audit db @ [r] \<and> au_action r = ''invoice.approved'' \<and> au_actor r = Some actor
       \<and> au_entity_id r = inv_id iv"
proof -
  let ?iv1 = "iv\<lparr>approval_date := Some (re_today env), approved_by := Some actor_name\<rparr>"
  from assms obtain details db2 where
    t: "transition_invoice (re_role_users env) (re_occurrence env) db ?iv1 Approved (Some actor)
          ''invoice.approved'' details = Inr (iv', db2)" and au: "audit db' = audit db2"
    by (auto simp: finalize_approval_def Let_def split: sum.splits option.splits dest!: advance_workflow_audit)
  note tr = transition_invoice_Inr [OF t]
  show "Approved \<in> set (VALID_TRANSITIONS (status iv))" "status iv' = Approved"
    "approved_by iv' = Some actor_name" "approval_date iv' = Some (re_today env)"
    "amount iv' = amount iv"
    "\<exists>r. audit db' = audit db @ [r] \<and> au_action r = ''invoice.approved'' \<and> au_actor r = Some actor
       \<and> au_entity_id r = inv_id iv"
    using tr(1,2,3) au by simp_all
qed

text \<open>How a completed approval call came about.\<close>

lemma approve_invoice_None:
  assumes "approve_invoice env db iv actor actor_name roles corr org = (None, iv', db')"
  obtains (final) inst cfg diff iv1 inst' db1 where
      "approval_entry env db iv actor = Inr (inst, cfg)" "apply_corrections env corr iv = (diff, iv1)"
      "enforce_approval_thresholds env db iv1 roles org cfg = Inr ()"
      "finalize_approval env db1 iv1 inst' actor actor_name diff = (None, iv', db')"
      "(c_approver_strategy cfg \<noteq> Some ''chain'' \<or> inst = None) \<and> db1 = db \<and> inst' = inst \<or>
       (\<exists>w w1 lv. inst = Some w \<and> chain_approval env (users db) cfg iv1 org w actor = (Inr (True, lv), w1)
          \<and> db1 = put_instance w1 db \<and> inst' = Some w1)"
    | (partial) inst cfg diff w lv w1 where
      "approval_entry env db iv actor = Inr (inst, cfg)" "apply_corrections env corr iv = (diff, iv')"
      "enforce_approval_thresholds env db iv' roles org cfg = Inr ()"
      "c_approver_strategy cfg = Some ''chain''" "inst = Some w"
      "chain_approval env (users db) cfg iv' org w actor = (Inr (False, lv), w1)"
      "db' = dispatch_audit (put_instance w1 db) (correlation_id iv') (inv_org iv') (Some actor)
          ''invoice.approval_step'' ''invoice'' (inv_id iv')
          ([(''decision'', JStr ''approved''), (''level'', JInt (int lv))] @ changes_detail diff)"
proof -
  from assms obtain inst cfg where en: "approval_entry env db iv actor = Inr (inst, cfg)"
    by (auto simp: approve_invoice_def split: sum.splits)
  obtain diff iv1 where co: "apply_corrections env corr iv = (diff, iv1)"
    by (cases "apply_corrections env corr iv")
  from assms en co have th: "enforce_approval_thresholds env db iv1 roles org cfg = Inr ()"
    by (cases "enforce_approval_thresholds env db iv1 roles org cfg") (auto simp: approve_invoice_def)
  show ?thesis
  proof (cases "if c_approver_strategy cfg = Some ''chain'' then inst else None")
    case None
    with assms en co th have "finalize_approval env db iv1 inst actor actor_name diff = (None, iv', db')"
      by (simp add: approve_invoice_def split: if_splits)
    with None en co th final show ?thesis by (auto split: if_splits)
  next
    case (Some w)
    obtain res w1 where ch: "chain_approval env (users db) cfg iv1 org w actor = (res, w1)"
      by (cases "chain_approval env (users db) cfg iv1 org w actor")
    with assms en co th Some obtain fin lv where res: "res = Inr (fin, lv)"
      by (cases res) (auto simp: approve_invoice_def)
    show ?thesis
    proof (cases fin)
      case True
      with assms en co th Some ch res
      have "finalize_approval env (put_instance w1 db) iv1 (Some w1) actor actor_name diff = (None, iv', db')"
        by (simp add: approve_invoice_def)
      with Some ch res True en co th final show ?thesis by (auto split: if_splits)
    next
      case False
      with assms en co th Some ch res partial show ?thesis
        by (auto simp: approve_invoice_def split: if_splits)
    qed
  qed
qed

lemma approval_entry_Inr:
  assumes "approval_entry env db iv actor = Inr (inst, cfg)"
  shows "get_workflow_instance db (inv_id iv) = Inr inst" "resolve_approval_config db iv inst = Inr cfg"
    "\<not> violates_segregation iv actor cfg"
    "c_approver_strategy cfg = Some ''specific'' \<Longrightarrow>
       check_level_approver (re_now env) (users db) (specific_approvers cfg) actor = Inr ()"
  using assms by (auto simp: approval_entry_def check_segregation_def split: if_splits)

lemma enforce_Inr:
  assumes "enforce_approval_thresholds env db iv roles org cfg = Inr ()" "cfg \<noteq> empty_cfg"
  obtains recent g where "recent_spend_of env db iv org = Inr recent"
    "reporting_gate_amount (re_platform_currency env) iv (Some (amount iv + recent)) org = Inr g"
    "max_amount_gate_applies (c_max_invoice_amount cfg) (Gate g) = Inr False"
    "''cfo'' \<in> roles \<or> cfo_gate_applies (c_require_cfo_above cfg) (Gate g) = Inr False"
  using assms by (auto simp: enforce_approval_thresholds_def split: if_splits)

section \<open>Properties of an approval\<close>

lemma advance_new_approver:
  "advance_approval_chain now w actor = Inr r \<Longrightarrow> get_chain_progress w = ChainObj c \<Longrightarrow>
     current_level c < length (levels c) \<Longrightarrow> \<not> approved_elsewhere c (uuid_str actor)"
  by (auto simp: advance_approval_chain_def get_chain_progress_def)

text \<open>A chain that takes an approval has checked its approver.\<close>

lemma chain_approval_checks:
  assumes "chain_approval env us cfg iv org w actor = (Inr r, w2)"
  obtains w1 where "ensure_chain env cfg iv org w = Inr w1"
    "\<And>c. get_chain_progress w1 = ChainObj c \<Longrightarrow> current_level c < length (levels c) \<Longrightarrow>
       entitled (re_now env) us (lv_approver_ids (levels c ! current_level c)) actor
       \<and> (\<forall>i < length (levels c). i \<noteq> current_level c \<longrightarrow>
            uuid_str actor \<notin> ap_user ` set (lv_approvals (levels c ! i)))"
proof -
  from assms obtain w1 where e: "ensure_chain env cfg iv org w = Inr w1"
    by (cases "ensure_chain env cfg iv org w") (auto simp: chain_approval_def)
  show ?thesis
  proof (rule that [OF e])
    fix c assume c: "get_chain_progress w1 = ChainObj c" and lt: "current_level c < length (levels c)"
    from assms e c lt have k: "check_level_approver (re_now env) us (lv_approver_ids (levels c ! current_level c)) actor
        = Inr ()" and "\<exists>r. advance_approval_chain (re_now env) w1 actor = Inr r"
      by (auto simp: chain_approval_def split: sum.splits)
    then have "\<not> approved_elsewhere c (uuid_str actor)" using c lt by (blast dest: advance_new_approver)
    with k show "entitled (re_now env) us (lv_approver_ids (levels c ! current_level c)) actor
       \<and> (\<forall>i < length (levels c). i \<noteq> current_level c \<longrightarrow>
            uuid_str actor \<notin> ap_user ` set (lv_approvals (levels c ! i)))"
      by (auto simp: check_level_approver_iff approved_elsewhere_iff approvers_of_def)
  qed
qed

text \<open>C7: An approval call that returns normally has passed every control of the configuration
  that governs the invoice. Its actor neither uploaded the invoice nor is stamped on it, unless
  segregation is configured to the JSON value \<open>false\<close>. Under the \<open>specific\<close> strategy the
  actor is on the configured list, or an active delegate of somebody who is (an empty list admits
  everyone). Under the \<open>chain\<close> strategy, where the invoice has a workflow instance, the same holds
  of the list of the chain's current level, and the actor has approved at no other level; an invoice
  without an instance runs no chain. The amount after the corrections, together with the vendor's
  recent spend and expressed in the reporting currency, is within the maximum and, unless the actor is
  a CFO, within the CFO limit.\<close>

theorem approve_invoice_passes_controls:
  assumes "approve_invoice env db iv actor actor_name roles corr org = (None, iv', db')"
  shows "\<exists>inst cfg diff iv1.
    get_workflow_instance db (inv_id iv) = Inr inst \<and> resolve_approval_config db iv inst = Inr cfg
    \<and> (c_require_segregation cfg = Some (JBool False)
       \<or> uploaded_by_id iv \<noteq> Some actor \<and> uuid_str actor \<notin> set (get_or (segregation_actor_ids iv) []))
    \<and> (c_approver_strategy cfg = Some ''specific'' \<longrightarrow>
         entitled (re_now env) (users db) (specific_approvers cfg) actor)
    \<and> apply_corrections env corr iv = (diff, iv1)
    \<and> (\<forall>w. c_approver_strategy cfg = Some ''chain'' \<and> inst = Some w \<longrightarrow>
         (\<exists>w1. ensure_chain env cfg iv1 org w = Inr w1
            \<and> (\<forall>c. get_chain_progress w1 = ChainObj c \<and> current_level c < length (levels c) \<longrightarrow>
                 entitled (re_now env) (users db) (lv_approver_ids (levels c ! current_level c)) actor
                 \<and> (\<forall>i < length (levels c). i \<noteq> current_level c \<longrightarrow>
                      uuid_str actor \<notin> ap_user ` set (lv_approvals (levels c ! i))))))
    \<and> (cfg = empty_cfg \<or> (\<exists>recent g. recent_spend_of env db iv1 org = Inr recent
         \<and> reporting_gate_amount (re_platform_currency env) iv1 (Some (amount iv1 + recent)) org = Inr g
         \<and> max_amount_gate_applies (c_max_invoice_amount cfg) (Gate g) = Inr False
         \<and> (''cfo'' \<in> roles \<or> cfo_gate_applies (c_require_cfo_above cfg) (Gate g) = Inr False)))"
proof -
  from assms obtain inst cfg diff iv1 where e: "approval_entry env db iv actor = Inr (inst, cfg)"
    and c: "apply_corrections env corr iv = (diff, iv1)"
    and t: "enforce_approval_thresholds env db iv1 roles org cfg = Inr ()"
    and ch: "\<forall>w. c_approver_strategy cfg = Some ''chain'' \<and> inst = Some w \<longrightarrow>
        (\<exists>r w2. chain_approval env (users db) cfg iv1 org w actor = (Inr r, w2))"
    by (cases rule: approve_invoice_None) blast+
  have chain: "\<exists>w1. ensure_chain env cfg iv1 org w = Inr w1
            \<and> (\<forall>c. get_chain_progress w1 = ChainObj c \<and> current_level c < length (levels c) \<longrightarrow>
                 entitled (re_now env) (users db) (lv_approver_ids (levels c ! current_level c)) actor
                 \<and> (\<forall>i < length (levels c). i \<noteq> current_level c \<longrightarrow>
                      uuid_str actor \<notin> ap_user ` set (lv_approvals (levels c ! i))))"
    if w: "c_approver_strategy cfg = Some ''chain'' \<and> inst = Some w" for w
  proof -
    from ch w obtain r w2 where "chain_approval env (users db) cfg iv1 org w actor = (Inr r, w2)" by blast
    then show ?thesis by (rule chain_approval_checks) blast
  qed
  have "cfg = empty_cfg \<or> (\<exists>recent g. recent_spend_of env db iv1 org = Inr recent
         \<and> reporting_gate_amount (re_platform_currency env) iv1 (Some (amount iv1 + recent)) org = Inr g
         \<and> max_amount_gate_applies (c_max_invoice_amount cfg) (Gate g) = Inr False
         \<and> (''cfo'' \<in> roles \<or> cfo_gate_applies (c_require_cfo_above cfg) (Gate g) = Inr False))"
    using enforce_Inr [OF t] by blast
  moreover have "c_require_segregation cfg = Some (JBool False)
       \<or> uploaded_by_id iv \<noteq> Some actor \<and> uuid_str actor \<notin> set (get_or (segregation_actor_ids iv) [])"
    using approval_entry_Inr(3) [OF e] by (auto simp: violates_segregation_def split: if_splits)
  ultimately show ?thesis
    using approval_entry_Inr(1,2,4) [OF e] c chain by (simp add: check_level_approver_iff)
qed

text \<open>Every approval call that returns normally adds exactly one row to the audit trail, in
  the actor's name: the final approval of an invoice that the table lets be approved, which is then
  \<open>approved\<close> and bears the actor's name, or the partial approval of a chain's level, which
  leaves the (corrected) invoice as it is.\<close>

theorem approve_invoice_audits_once:
  assumes "approve_invoice env db iv actor actor_name roles corr org = (None, iv', db')"
  shows "\<exists>r. audit db' = audit db @ [r] \<and> au_actor r = Some actor \<and>
    (au_action r = ''invoice.approved'' \<and> status iv' = Approved \<and> approved_by iv' = Some actor_name
       \<and> Approved \<in> set (VALID_TRANSITIONS (status (snd (apply_corrections env corr iv))))
     \<or> au_action r = ''invoice.approval_step'' \<and> iv' = snd (apply_corrections env corr iv))"
  using assms
proof (cases rule: approve_invoice_None)
  case (final inst cfg diff iv1 inst' db1)
  have "audit db1 = audit db" using final(5) by auto
  with finalize_None [OF final(4)] final(2) show ?thesis by auto
next
  case (partial inst cfg diff w lv w1)
  then show ?thesis by simp
qed

text \<open>C21: With the structuring guard on, no invoice clears a maximum by being split: what is
  compared with it is the invoice's amount plus what the same vendor billed in the same currency and
  entity inside the window, in the reporting currency.\<close>

theorem splitting_does_not_clear_the_maximum:
  assumes "enforce_approval_thresholds env db iv roles org cfg = Inr ()"
    and "finite_money_threshold (c_max_invoice_amount cfg) = Some x"
    and "vendor_id iv = Some v" "currency iv \<noteq> []"
    and "get_structuring_config org = Inr (enabled, w)" "truthy enabled" "window_us w = Inr win"
  shows "\<exists>r rc. resolve_reporting_currency (re_platform_currency env) org = Inr rc \<and> round_half_up 2 r \<le> x
     \<and> (r = amount iv + vendor_recent_spend (re_now env) db v (inv_id iv) win (currency iv) (inv_entity iv)
          \<and> norm_code (currency iv) = norm_code rc
        \<or> (\<exists>q. reporting_fx_rate iv = Some q \<and> 0 < q \<and> r = ctx_mult (amount iv
              + vendor_recent_spend (re_now env) db v (inv_id iv) win (currency iv) (inv_entity iv)) q))"
proof -
  let ?s = "vendor_recent_spend (re_now env) db v (inv_id iv) win (currency iv) (inv_entity iv)"
  have ne: "cfg \<noteq> empty_cfg" using assms(2) by (auto simp: empty_cfg_def finite_money_threshold_def to_decimal_def)
  have rs: "recent_spend_of env db iv org = Inr ?s" using assms(3-7) by (simp add: recent_spend_of_def)
  from assms(1) ne obtain recent g where rec: "recent_spend_of env db iv org = Inr recent"
    and g: "reporting_gate_amount (re_platform_currency env) iv (Some (amount iv + recent)) org = Inr g"
    and mx: "max_amount_gate_applies (c_max_invoice_amount cfg) (Gate g) = Inr False"
    by (rule enforce_Inr)
  have recent: "recent = ?s" using rec rs by simp
  from g show ?thesis
  proof (rule reporting_gate_amount_Inr)
    fix rc
    assume rc: "resolve_reporting_currency (re_platform_currency env) org = Inr rc"
      and sh: "\<not> ga_expressible g \<or> (\<exists>r. ga_amount g = Fin (round_half_up 2 r) \<and>
       (norm_code (currency iv) = norm_code rc \<and> r = get_or (Some (amount iv + recent)) (amount iv) \<or>
        (\<exists>q. reporting_fx_rate iv = Some q \<and> 0 < q \<and> r = ctx_mult (get_or (Some (amount iv + recent)) (amount iv)) q
          \<and> map_option norm_code (reporting_currency iv) = Some (norm_code rc)
          \<and> map_option norm_code (reporting_source_currency iv) = Some (norm_code (currency iv)))
        \<or> currency iv = [] \<and> r = get_or (Some (amount iv + recent)) (amount iv)))"
      and "\<exists>y. ga_amount g = Fin y"
    then obtain y where y: "ga_amount (coerce_gate_amount (Gate g)) = Fin y" by (auto simp: coerce_gate_amount_def)
    from max_gate.passes_iff [OF y, of "c_max_invoice_amount cfg"] mx assms(2)
    have "ga_expressible g \<and> y \<le> x"
      by (auto simp: coerce_gate_amount_def finite_money_threshold_def to_decimal_def)
    with sh y rc recent assms(4) show ?thesis by (auto simp: coerce_gate_amount_def)
  qed
qed

section \<open>Sample approvals\<close>

definition sample_env :: review_env where
  "sample_env = \<lparr>re_now = 100, re_today = 3, re_platform_currency = ''USD'', re_role_users = (\<lambda>_ _. None),
     re_occurrence = 90, re_step_id = 91, re_exc_id = 92, re_link_vendor = (\<lambda>_. 93), re_refresh = (\<lambda>i. i),
     re_hmac = (\<lambda>_ _. ''ab''), re_fmt_time = int_str, re_signing_key = [], re_money_text = (\<lambda>_. []),
     re_date_text = int_str\<rparr>"

definition sample_db :: "step_cfg \<Rightarrow> wf_db" where
  "sample_db cfg = empty_db\<lparr>definitions :=
     [\<lparr>wd_id = 50, wd_org = 1, wd_entity = None, wd_name = [],
       wd_steps = [\<lparr>se_number = 2, se_type = Some ''approval'', se_name = [],
         se_enabled = Some True, se_config = Some cfg\<rparr>],
       wd_is_active = True, wd_is_default = True, wd_created_at = 0\<rparr>]\<rparr>"

definition capped_cfg :: step_cfg where
  "capped_cfg = empty_cfg\<lparr>c_max_invoice_amount := JInt 150\<rparr>"

definition usd_invoice :: invoice where
  "usd_invoice = sample_invoice\<lparr>currency := ''USD''\<rparr>"

lemma sample_config:
  "resolve_approval_config (sample_db cfg) usd_invoice None = Inr cfg"
  "get_workflow_instance (sample_db cfg) (inv_id usd_invoice) = Inr None"
  by (simp_all add: resolve_approval_config_def get_workflow_instance_def sample_db_def empty_db_def
      usd_invoice_def sample_invoice_def resolve_active_workflow_definition_def)

lemma sample_money: "round_half_up 2 (100 :: rat) = 100" "quantize_money (100 :: rat) = Inr 100"
proof -
  show r: "round_half_up 2 (100 :: rat) = 100" by (rule round_half_up_id) (simp add: has_scale_def)
  show "quantize_money (100 :: rat) = Inr 100" by (simp add: quantize_money_small r)
qed

lemma sample_structuring: "get_structuring_config (JObj []) = Inr (JBool True, JInt 7)"
  by (simp add: get_structuring_config_def or_empty_get_def dict_get_default_def)

lemma sample_spend: "recent_spend_of sample_env (sample_db cfg) usd_invoice (JObj []) = Inr 0"
  by (simp add: recent_spend_of_def sample_structuring window_us_def vendor_recent_spend_def sample_db_def
      empty_db_def usd_invoice_def sample_invoice_def)

lemma sample_gate:
  "reporting_gate_amount ''USD'' usd_invoice (Some 100) (JObj []) =
     Inr \<lparr>ga_amount = Fin 100, ga_currency = ''USD'', ga_expressible = True\<rparr>"
proof -
  have rc: "resolve_reporting_currency ''USD'' (JObj []) = Inr ''USD''" by code_simp
  have n: "norm_code ''USD'' = ''USD''" by code_simp
  show ?thesis
    by (simp add: reporting_gate_amount_def rc reporting_amount_at_locked_rate_def n sample_money
        usd_invoice_def sample_invoice_def)
qed

lemma capped_ne: "capped_cfg \<noteq> empty_cfg" by (simp add: capped_cfg_def empty_cfg_def)

lemma sample_enforce:
  "enforce_approval_thresholds sample_env (sample_db capped_cfg) usd_invoice {} (JObj []) capped_cfg = Inr ()"
proof -
  have a: "amount usd_invoice = 100" by (simp add: usd_invoice_def sample_invoice_def)
  have e: "re_platform_currency sample_env = ''USD''" by (simp add: sample_env_def)
  show ?thesis
    by (simp add: enforce_approval_thresholds_def capped_ne sample_spend a e sample_gate)
      (simp add: capped_cfg_def empty_cfg_def max_amount_gate_applies_def cfo_gate_applies_def
        money_gate_applies_def finite_money_threshold_def to_decimal_def coerce_gate_amount_def ex_bool_eq)
qed

lemma sample_entry:
  "approval_entry sample_env (sample_db capped_cfg) usd_invoice 30 = Inr (None, capped_cfg)"
proof -
  have "uuid_str 30 \<notin> set (get_or (segregation_actor_ids usd_invoice) [])"
    by (simp add: usd_invoice_def sample_invoice_def)
  then show ?thesis
    by (simp add: approval_entry_def sample_config check_segregation_def violates_segregation_def)
      (simp add: capped_cfg_def empty_cfg_def usd_invoice_def sample_invoice_def)
qed

lemma sample_approval:
  "\<exists>iv' db'. approve_invoice sample_env (sample_db capped_cfg) usd_invoice 30 ''Ann'' {} None (JObj [])
     = (None, iv', db') \<and> status iv' = Approved"
  by (simp add: approve_invoice_def sample_entry apply_corrections_def sample_enforce)
    (simp add: finalize_approval_def capped_cfg_def empty_cfg_def transition_invoice_def validate_transition_def
      usd_invoice_def sample_invoice_def Let_def build_signature_detail_def sign_approval_def sample_env_def)

theorem approve_invoice_passes_controls_witness:
  "\<exists>iv' db' cfg. approve_invoice sample_env (sample_db capped_cfg) usd_invoice 30 ''Ann'' {} None (JObj [])
     = (None, iv', db') \<and> resolve_approval_config (sample_db capped_cfg) usd_invoice None = Inr cfg
     \<and> (c_require_segregation cfg = Some (JBool False) \<or> uploaded_by_id usd_invoice \<noteq> Some 30)"
proof -
  from sample_approval obtain iv' db' where a:
    "approve_invoice sample_env (sample_db capped_cfg) usd_invoice 30 ''Ann'' {} None (JObj []) = (None, iv', db')"
    by blast
  from approve_invoice_passes_controls [OF a] obtain cfg inst where
    "get_workflow_instance (sample_db capped_cfg) (inv_id usd_invoice) = Inr inst"
    "resolve_approval_config (sample_db capped_cfg) usd_invoice inst = Inr cfg"
    "c_require_segregation cfg = Some (JBool False) \<or> uploaded_by_id usd_invoice \<noteq> Some 30"
    by (elim exE conjE) blast
  with a sample_config(2) [of capped_cfg] show ?thesis by auto
qed

theorem approve_invoice_audits_once_witness:
  "\<exists>iv' db'. approve_invoice sample_env (sample_db capped_cfg) usd_invoice 30 ''Ann'' {} None (JObj [])
     = (None, iv', db') \<and> length (audit db') = 1"
proof -
  from sample_approval obtain iv' db' where a:
    "approve_invoice sample_env (sample_db capped_cfg) usd_invoice 30 ''Ann'' {} None (JObj []) = (None, iv', db')"
    by blast
  from approve_invoice_audits_once [OF a] obtain r where "audit db' = audit (sample_db capped_cfg) @ [r]" by blast
  then have "length (audit db') = 1" by (simp add: sample_db_def empty_db_def)
  with a show ?thesis by blast
qed

theorem splitting_witness:
  "\<exists>r. round_half_up 2 r \<le> (150 :: rat)
     \<and> (r = 100 + vendor_recent_spend 100 (sample_db capped_cfg) 12 10 (days_us 7) ''USD'' None
        \<or> (\<exists>q. reporting_fx_rate usd_invoice = Some q))"
proof -
  have f: "vendor_id usd_invoice = Some 12" "currency usd_invoice = ''USD''" "inv_entity usd_invoice = None"
    "inv_id usd_invoice = 10" "amount usd_invoice = 100" "re_now sample_env = 100"
    by (simp_all add: usd_invoice_def sample_invoice_def sample_env_def)
  have m: "finite_money_threshold (c_max_invoice_amount capped_cfg) = Some 150"
    by (simp add: capped_cfg_def finite_money_threshold_def to_decimal_def)
  have w: "window_us (JInt 7) = Inr (days_us 7)" by (simp add: window_us_def)
  have ne: "currency usd_invoice \<noteq> []" by (simp add: f)
  have t: "truthy (JBool True)" by simp
  from splitting_does_not_clear_the_maximum [OF sample_enforce m f(1) ne sample_structuring t w]
  show ?thesis unfolding f by blast
qed

section \<open>Approvals that slip past a control\<close>

definition chain_cfg :: step_cfg where
  "chain_cfg = empty_cfg\<lparr>c_approver_strategy := Some ''chain'',
     c_approval_chain := Some [level_cfg 2 [''x''], level_cfg 1 [''y'']]\<rparr>"

lemma chain_entry:
  "approval_entry sample_env (sample_db chain_cfg) usd_invoice 30 = Inr (None, chain_cfg)"
proof -
  have "uuid_str 30 \<notin> set (get_or (segregation_actor_ids usd_invoice) [])"
    by (simp add: usd_invoice_def sample_invoice_def)
  then show ?thesis
    by (simp add: approval_entry_def sample_config check_segregation_def violates_segregation_def)
      (simp add: chain_cfg_def empty_cfg_def usd_invoice_def sample_invoice_def)
qed

lemma chain_enforce:
  "enforce_approval_thresholds sample_env (sample_db chain_cfg) iv {} (JObj []) chain_cfg = Inr ()"
  if "iv = usd_invoice \<or> iv = usd_invoice\<lparr>status := Failed\<rparr>" for iv
proof -
  have ne: "chain_cfg \<noteq> empty_cfg" by (simp add: chain_cfg_def empty_cfg_def)
  have c: "c_max_invoice_amount chain_cfg = JNull" "c_require_cfo_above chain_cfg = JNull"
    by (simp_all add: chain_cfg_def empty_cfg_def)
  from that have s: "recent_spend_of sample_env (sample_db chain_cfg) iv (JObj []) = Inr 0"
    "reporting_gate_amount (re_platform_currency sample_env) iv (Some (amount iv)) (JObj []) =
       Inr \<lparr>ga_amount = Fin 100, ga_currency = ''USD'', ga_expressible = True\<rparr>"
    using sample_gate sample_spend [of chain_cfg]
    by (auto simp: recent_spend_of_def usd_invoice_def sample_invoice_def sample_env_def reporting_gate_amount_def
        sample_structuring window_us_def vendor_recent_spend_def sample_db_def empty_db_def)
  show ?thesis
    by (simp add: enforce_approval_thresholds_def ne s c max_gate.unset cfo_gate.unset)
qed

text \<open>An approval chain is enforced only through a workflow instance: an invoice that has
  none (as the email and PEPPOL ingestion paths create them) and whose tenant's definition asks for a
  chain of a two-person level and a director is approved outright by one person who is named on neither
  level.\<close>

theorem chain_skipped_without_instance:
  "\<exists>iv' db'. approve_invoice sample_env (sample_db chain_cfg) usd_invoice 30 ''Ann'' {} None (JObj [])
       = (None, iv', db') \<and> status iv' = Approved
     \<and> c_approver_strategy chain_cfg = Some ''chain''
     \<and> resolve_approval_config (sample_db chain_cfg) usd_invoice None = Inr chain_cfg
     \<and> list_all (\<lambda>l. uuid_str 30 \<notin> set (get_or (lc_approver_ids l) [])) (get_or (c_approval_chain chain_cfg) [])"
proof -
  have st: "c_approver_strategy chain_cfg = Some ''chain''" by (simp add: chain_cfg_def)
  have len: "length (uuid_str 30) \<noteq> 1" by (simp add: uuid_str_def Let_def)
  have un: "uuid_str 30 \<noteq> ''x''" "uuid_str 30 \<noteq> ''y''" using len by auto
  have "\<exists>iv' db'. approve_invoice sample_env (sample_db chain_cfg) usd_invoice 30 ''Ann'' {} None (JObj [])
       = (None, iv', db') \<and> status iv' = Approved"
    by (simp add: approve_invoice_def chain_entry apply_corrections_def chain_enforce)
      (simp add: finalize_approval_def transition_invoice_def validate_transition_def
        usd_invoice_def sample_invoice_def Let_def build_signature_detail_def sign_approval_def sample_env_def)
  with st un sample_config(1) [of chain_cfg] show ?thesis
    by (simp add: chain_cfg_def level_cfg_def)
qed

lemma approval_entry_status: "approval_entry env db (iv\<lparr>status := st\<rparr>) actor = approval_entry env db iv actor"
proof -
  have "resolve_approval_config db (iv\<lparr>status := st\<rparr>) inst = resolve_approval_config db iv inst" for inst
    by (simp add: resolve_approval_config_def cong: option.case_cong)
  moreover have "check_segregation (iv\<lparr>status := st\<rparr>) actor cfg = check_segregation iv actor cfg" for cfg
    unfolding check_segregation_def violates_segregation_def by simp
  ultimately show ?thesis unfolding approval_entry_def by simp
qed

text \<open>A bulk approval of an invoice the table does not let be approved is reported as
  skipped, but it has already written the approver's name and date on the invoice, which the bulk
  endpoint then commits; the status stays \<open>failed\<close> and no audit row says so.\<close>

theorem bulk_refusal_leaves_the_approval_stamp:
  "\<exists>iv' db'. bulk_approve_one sample_env (sample_db chain_cfg) (usd_invoice\<lparr>status := Failed\<rparr>) 30 ''Ann'' {} (JObj [])
       = Inr (False, iv', db') \<and> status iv' = Failed \<and> approved_by iv' = Some ''Ann''
     \<and> approval_date iv' = Some 3 \<and> audit db' = []"
proof -
  let ?iv = "usd_invoice\<lparr>status := Failed\<rparr>"
  have e: "approval_entry sample_env (sample_db chain_cfg) ?iv 30 = Inr (None, chain_cfg)"
    by (simp only: approval_entry_status chain_entry)
  have "\<exists>iv' db'. approve_invoice sample_env (sample_db chain_cfg) ?iv 30 ''Ann'' {} None (JObj [])
      = (Some (HTTPException 409 ''Cannot transition''), iv', db') \<and> status iv' = Failed
        \<and> approved_by iv' = Some ''Ann'' \<and> approval_date iv' = Some 3 \<and> audit db' = []"
    by (simp add: approve_invoice_def e apply_corrections_def chain_enforce)
      (simp add: finalize_approval_def transition_invoice_def validate_transition_def sample_db_def empty_db_def
        Let_def build_signature_detail_def sign_approval_def sample_env_def)
  then show ?thesis by (auto simp: bulk_approve_one_def IMMUTABLE_STATUSES_def)
qed

section \<open>Rejecting and resubmitting\<close>

text \<open>Rejecting an invoice that has a workflow instance closes its open step, opens exactly one
  exception of the review queue, adds the rejection and the exception to the audit trail, raises the
  rejection count by one and removes the approval chain, so that the next approval starts it afresh
  from its first level.\<close>

theorem reject_invoice_resets_the_chain:
  assumes "reject_invoice env db iv actor actor_name reason = (None, iv', db')"
    and "get_workflow_instance db (inv_id iv) = Inr (Some w)" "steps_ok db"
  shows "status iv' = Rejected \<and> rejected_by iv' = Some actor_name \<and> open_steps db' (wi_id w) = []
    \<and> map au_action (audit db') = map au_action (audit db) @ [''invoice.rejected'', ''exception.raised'']
    \<and> (\<exists>e. exceptions db' = exceptions db @ [e] \<and> ex_type e = ''review_rejected'' \<and> ex_status e = ''open''
         \<and> ex_invoice e = Some (inv_id iv))
    \<and> instances db' = update_where (\<lambda>w'. wi_id w' = wi_id w)
        (\<lambda>w'. w'\<lparr>state_data := Some ((get_or (state_data w) empty_state)\<lparr>
            sd_rejection_count := Some (get_or (sd_rejection_count (get_or (state_data w) empty_state)) 0 + 1),
            sd_chain := None\<rparr>)\<rparr>) (instances db)"
proof -
  let ?iv1 = "iv\<lparr>rejected_by := Some actor_name\<rparr>"
  from assms(1) obtain iv2 db2 where
    t: "transition_invoice (re_role_users env) (re_occurrence env) db ?iv1 Rejected (Some actor)
          ''invoice.rejected'' [(''reason'', JStr reason)] = Inr (iv2, db2)"
    by (auto simp: reject_invoice_def Let_def split: sum.splits)
  note tr = transition_invoice_Inr [OF t]
  let ?db3 = "create_exception db2 (re_exc_id env) ''review_rejected'' reason (inv_org iv2) ''warning'' ''open'' iv2 None"
  have wi: "get_workflow_instance ?db3 (inv_id iv2) = Inr (Some w)"
    using assms(2) tr(2,7) by (simp add: get_workflow_instance_def)
  let ?sd = "get_or (state_data w) empty_state"
  have iv': "iv' = iv2" and db': "db' = update_instance (\<lambda>w'. w'\<lparr>state_data := Some (clear_chain_state
      (?sd\<lparr>sd_rejection_count := Some (get_or (sd_rejection_count ?sd) 0 + 1)\<rparr>))\<rparr>) (wi_id w)
      (complete_current_step (re_now env) ?db3 w ''rejected'')"
    using assms(1) t wi by (auto simp: reject_invoice_def Let_def)
  have ok: "steps_ok ?db3" using assms(3) tr(8) by (simp add: steps_ok_def)
  have "open_steps db' (wi_id w) = []"
    using complete_current_step_open [OF ok] by (simp add: db')
  moreover have "map au_action (audit db') = map au_action (audit db) @ [''invoice.rejected'', ''exception.raised'']"
    using tr(3) by (simp add: db' create_exception_def record_raised_def Let_def)
  moreover have "instances db' = update_where (\<lambda>w'. wi_id w' = wi_id w)
        (\<lambda>w'. w'\<lparr>state_data := Some (?sd\<lparr>
            sd_rejection_count := Some (get_or (sd_rejection_count ?sd) 0 + 1), sd_chain := None\<rparr>)\<rparr>) (instances db)"
    using tr(7) by (simp add: db' update_instance_def clear_chain_state_def)
  ultimately show ?thesis using tr(2,10) by (simp add: iv' db')
qed

text \<open>Resubmitting writes a review step without looking for an open one. After a rejection
  there is none; but the table also lets a \<open>pending\<close> invoice, whose extraction step is still
  open, be resubmitted, and then its instance has two open steps.\<close>

theorem resubmitting_pending_opens_a_second_step:
  "\<exists>db s iv' db'. steps_ok db \<and> open_steps db 1 = [s] \<and> step_type s = ''extraction''
     \<and> resubmit_invoice sample_env db (usd_invoice\<lparr>inv_id := 4, status := Pending\<rparr>) 30 = (None, iv', db')
     \<and> status iv' = Ready_for_review \<and> length (open_steps db' 1) = 2"
proof -
  let ?db = "(sample_db chain_cfg)\<lparr>instances := [sample_instance]\<rparr>"
  let ?iv = "usd_invoice\<lparr>inv_id := 4, status := Pending\<rparr>"
  have e: "canonical_step_index (Some ''extraction'') = Inr 1" "canonical_step_index (Some ''approval'') = Inr 2"
    "resolve_step_type (Some ''upload'') = ''extraction''" "resolve_step_type (Some ''review'') = ''approval''"
    by (simp_all add: canonical_step_index_def resolve_step_type_def step_vocabulary list_index_def get_or_def)
  obtain s db1 where c: "create_workflow_step 7 0 ?db sample_instance ''upload'' None = Inr (s, db1)"
    by (simp add: create_workflow_step_def Let_def e)
  have ok: "steps_ok ?db" by (simp add: steps_ok_def sample_db_def empty_db_def)
  have no: "open_steps ?db (wi_id sample_instance) = []" "7 \<notin> ws_id ` set (steps ?db)"
    by (simp_all add: sample_db_def empty_db_def)
  note cs = create_workflow_step_Inr [OF c] create_workflow_step_ok [OF c ok no(2,1)]
  have one: "wi_id sample_instance = 1" by (simp add: sample_instance_def)
  have db1: "db1 = ?db\<lparr>steps := [s]\<rparr>" using cs(1) by (simp add: sample_db_def empty_db_def)
  obtain iv' db' where r: "resubmit_invoice sample_env db1 ?iv 30 = (None, iv', db')"
    "status iv' = Ready_for_review" "length (open_steps db' 1) = 2"
    using cs(3,6) by (simp add: resubmit_invoice_def transition_invoice_def validate_transition_def Let_def
      get_workflow_instance_def db1 create_workflow_step_def e update_instance_def sample_instance_def
      update_where_def usd_invoice_def sample_invoice_def dispatch_audit_def)
  have "open_steps db1 1 = [s]" "step_type s = ''extraction''" using cs one e by simp_all
  with cs r show ?thesis by (intro exI conjI) (rule create_workflow_step_ok(1) [OF c ok no(2,1)])
qed

theorem reject_witness:
  "\<exists>iv' db'. reject_invoice sample_env ((sample_db chain_cfg)\<lparr>instances := [sample_instance]\<rparr>)
      (usd_invoice\<lparr>inv_id := 4\<rparr>) 30 ''Ann'' ''no'' = (None, iv', db')
     \<and> map au_action (audit db') = [''invoice.rejected'', ''exception.raised'']
     \<and> map (\<lambda>w. map_option sd_rejection_count (state_data w)) (instances db') = [Some (Some 1)]"
proof -
  let ?db = "(sample_db chain_cfg)\<lparr>instances := [sample_instance]\<rparr>" let ?iv = "usd_invoice\<lparr>inv_id := 4\<rparr>"
  have w: "get_workflow_instance ?db (inv_id ?iv) = Inr (Some sample_instance)"
    by (simp add: get_workflow_instance_def sample_instance_def)
  have ok: "steps_ok ?db" by (simp add: steps_ok_def sample_db_def empty_db_def)
  obtain iv' db' where r: "reject_invoice sample_env ?db ?iv 30 ''Ann'' ''no'' = (None, iv', db')"
    by (simp add: reject_invoice_def transition_invoice_def validate_transition_def Let_def
        get_workflow_instance_def sample_instance_def usd_invoice_def sample_invoice_def)
  from reject_invoice_resets_the_chain [OF r w ok]
  have "map au_action (audit db') = map au_action (audit ?db) @ [''invoice.rejected'', ''exception.raised'']"
    "instances db' = update_where (\<lambda>w'. wi_id w' = wi_id sample_instance)
        (\<lambda>w'. w'\<lparr>state_data := Some ((get_or (state_data sample_instance) empty_state)\<lparr>
            sd_rejection_count := Some (get_or (sd_rejection_count (get_or (state_data sample_instance) empty_state)) 0 + 1),
            sd_chain := None\<rparr>)\<rparr>) (instances ?db)"
    by blast+
  then have "map au_action (audit db') = [''invoice.rejected'', ''exception.raised'']"
    "map (\<lambda>w. map_option sd_rejection_count (state_data w)) (instances db') = [Some (Some 1)]"
    by (simp_all add: sample_db_def empty_db_def update_where_def sample_instance_def empty_state_def)
  with r show ?thesis by (intro exI conjI)
qed

text \<open>An assignment that does not trip over two workflow instances names the reviewer, or
  the delegate the reviewer's absence is covered by, on the invoice, adds exactly one audit row, and
  notifies exactly that person, whether or not the invoice has a workflow instance.\<close>

theorem assign_reviewer_spec:
  "case assign_reviewer env db iv actor reviewer name control_db of (e, iv', db') \<Rightarrow>
     let who = fst (delegated_reviewer (re_now env) control_db reviewer name) in
     assigned_to_id iv' = Some who \<and> status iv' = status iv
     \<and> (if get_workflow_instance db (inv_id iv) = Inl MultipleResultsFound
        then e = Some MultipleResultsFound \<and> db' = db
        else e = None \<and> length (steps db') = length (steps db)
          \<and> (\<exists>r. audit db' = audit db @ [r] \<and> au_action r = ''invoice.assigned_for_review'' \<and> au_actor r = Some actor
                \<and> map_of (au_details r) ''reviewer_id'' = Some (JStr (uuid_str who)))
          \<and> outbox db' = outbox db @ [NotifyEvent ''invoice_assigned'' (inv_id iv) [who]])"
proof -
  obtain who nm orig where d: "delegated_reviewer (re_now env) control_db reviewer name = (who, nm, orig)"
    by (cases "delegated_reviewer (re_now env) control_db reviewer name") auto
  have e: "get_workflow_instance db i = Inl x \<Longrightarrow> x = MultipleResultsFound" for i x
    by (auto simp: get_workflow_instance_def split: list.splits)
  show ?thesis
    by (cases "get_workflow_instance db (inv_id iv)")
      (auto simp: assign_reviewer_def d Let_def dispatch_audit_def split: option.splits dest: e)
qed

end
