(* ===== verification/Erp.thy ===== *)
theory Erp
  imports Review
begin

text \<open>
  Pushing an approved invoice to the ERP (services/erp.py and the two endpoints of
  api/workflow.py that start a push).

  The adapter behind \<open>_call_erp\<close> talks to an external system: \<open>ee_call a\<close> is its answer at
  attempt \<open>a\<close>, the text of an error or the document's reference. The loop over
  \<open>range(retry_count, MAX_RETRIES)\<close> is a recursion over that list of attempts; the commit and the
  sleep between two attempts do not change the rows.

  The handlers assign to the loaded instance; what the session then writes is what is assigned. For
  \<open>retry_erp\<close>, which changes the loaded dictionary in place before assigning the same object
  back, this is the intended effect.
\<close>

record erp_env =
  ee_now :: time
  ee_role_users :: role_lookup
  ee_occurrence :: uuid
  ee_step_id :: uuid
  ee_call :: "int \<Rightarrow> string + string"

definition MAX_RETRIES :: int where "MAX_RETRIES = 3"

definition send_to_erp :: "erp_env \<Rightarrow> wf_db \<Rightarrow> invoice \<Rightarrow> uuid \<Rightarrow> handled" where
  "send_to_erp env db iv actor =
     (case transition_invoice (ee_role_users env) (ee_occurrence env) db iv Sending_to_erp (Some actor)
             ''invoice.erp_submitted'' [] of
        Inl e \<Rightarrow> (Some e, iv, db)
      | Inr (iv', db') \<Rightarrow> (None, iv', db'))"

definition retry_erp :: "erp_env \<Rightarrow> wf_db \<Rightarrow> invoice \<Rightarrow> uuid option \<Rightarrow> handled" where
  "retry_erp env db iv actor =
     (if get_or (approved_by iv) [] = [] then (Some (HTTPException 409 ''never approved''), iv, db)
      else case get_workflow_instance db (inv_id iv) of
        Inl e \<Rightarrow> (Some e, iv, db)
      | Inr inst \<Rightarrow>
          (let db1 = (case inst of
                        None \<Rightarrow> db
                      | Some w \<Rightarrow> put_instance (w\<lparr>state_data := Some ((get_or (state_data w) empty_state)
                                    \<lparr>sd_erp_retries := Some 0\<rparr>), wi_state := ''active''\<rparr>) db)
           in case transition_invoice (ee_role_users env) (ee_occurrence env) db1 iv Sending_to_erp actor
                     ''invoice.erp_retried'' [] of
                Inl e \<Rightarrow> (Some e, iv, db1)
              | Inr (iv', db') \<Rightarrow> (None, iv', db')))"

definition note_attempt :: "int \<Rightarrow> string \<Rightarrow> wf_instance \<Rightarrow> wf_instance" where
  "note_attempt a err w =
     w\<lparr>state_data := Some ((get_or (state_data w) empty_state)
         \<lparr>sd_erp_retries := Some (a + 1), sd_last_error := Some err\<rparr>)\<rparr>"

definition put_opt :: "wf_instance option \<Rightarrow> wf_db \<Rightarrow> wf_db" where
  "put_opt inst db = (case inst of None \<Rightarrow> db | Some w \<Rightarrow> put_instance w db)"

text \<open>The body of the \<open>try\<close>: the error text and the rows as they stand, or the rows after success.\<close>

definition erp_try ::
    "erp_env \<Rightarrow> uuid option \<Rightarrow> int \<Rightarrow> wf_instance option \<Rightarrow> invoice \<Rightarrow> wf_db
       \<Rightarrow> (string \<times> invoice \<times> wf_db) + (invoice \<times> wf_db)" where
  "erp_try env actor a inst iv db =
     (case ee_call env a of
        Inl err \<Rightarrow> Inl (err, iv, db)
      | Inr erp_ref \<Rightarrow>
          (case transition_invoice (ee_role_users env) (ee_occurrence env) db iv Sent_to_erp actor
                  ''invoice.erp_confirmed'' [(''erp_reference'', JStr erp_ref)] of
             Inl e \<Rightarrow> Inl (''Cannot transition'', iv, db)
           | Inr (iv1, db1) \<Rightarrow>
               (case transition_invoice (ee_role_users env) (ee_occurrence env) db1 iv1 Done actor
                       ''invoice.completed'' [] of
                  Inl e \<Rightarrow> Inl (''Cannot transition'', iv1, db1)
                | Inr (iv2, db2) \<Rightarrow>
                    (case inst of
                       None \<Rightarrow> Inr (iv2, db2)
                     | Some w \<Rightarrow>
                         (let w' = w\<lparr>state_data := Some ((get_or (state_data w) empty_state)
                                \<lparr>sd_erp_reference := Some erp_ref, sd_erp_retries := Some (a + 1)\<rparr>)\<rparr>
                          in case complete_workflow (ee_step_id env) (ee_now env) (put_instance w' db2) w'
                                    ''erp_confirmed'' of
                               Inl e \<Rightarrow> Inl (''workflow'', iv2, put_instance w' db2)
                             | Inr db3 \<Rightarrow> Inr (iv2, db3))))))"

fun erp_attempts ::
    "erp_env \<Rightarrow> uuid option \<Rightarrow> int list \<Rightarrow> wf_instance option \<Rightarrow> invoice \<Rightarrow> wf_db \<Rightarrow> handled" where
  "erp_attempts env actor [] inst iv db = (None, iv, db)"
| "erp_attempts env actor (a # as) inst iv db =
     (case erp_try env actor a inst iv db of
        Inr (iv', db') \<Rightarrow> (None, iv', db')
      | Inl (err, iv1, db1) \<Rightarrow>
          (if a + 1 < MAX_RETRIES then
             (let inst' = map_option (note_attempt a err) inst
              in erp_attempts env actor as inst' iv1 (put_opt inst' db1))
           else
             (case transition_invoice (ee_role_users env) (ee_occurrence env) db1 iv1 Failed actor
                     ''invoice.erp_failed'' [(''error'', JStr err), (''retries'', JInt (a + 1))] of
                Inl e \<Rightarrow> (Some e, iv1, db1)
              | Inr (iv2, db2) \<Rightarrow>
                  (None, iv2,
                   put_opt (map_option (\<lambda>w. (note_attempt a err w)\<lparr>wi_state := ''failed''\<rparr>) inst) db2))))"

definition retries_of :: "wf_instance option \<Rightarrow> int" where
  "retries_of inst =
     (case inst of None \<Rightarrow> 0
      | Some w \<Rightarrow> get_or (sd_erp_retries (get_or (state_data w) empty_state)) 0)"

definition send_to_erp_internal :: "erp_env \<Rightarrow> wf_db \<Rightarrow> invoice \<Rightarrow> uuid option \<Rightarrow> handled" where
  "send_to_erp_internal env db iv actor =
     (case get_workflow_instance db (inv_id iv) of
        Inl e \<Rightarrow> (Some e, iv, db)
      | Inr inst \<Rightarrow> erp_attempts env actor [retries_of inst..MAX_RETRIES - 1] inst iv db)"

section \<open>Facts\<close>

lemma erp_try_sending:
  assumes "status iv = Sending_to_erp"
  shows "(\<exists>err. ee_call env a = Inl err \<and> erp_try env actor a inst iv db = Inl (err, iv, db)) \<or>
    (\<exists>ref iv' db'. ee_call env a = Inr ref \<and> erp_try env actor a inst iv db = Inr (iv', db') \<and> status iv' = Done)"
proof (cases "ee_call env a")
  case (Inr ref)
  have "\<exists>iv' db'. erp_try env actor a inst iv db = Inr (iv', db') \<and> status iv' = Done"
  proof (cases inst)
    case None
    with assms Inr show ?thesis
      by (simp add: erp_try_def transition_invoice_def validate_transition_def Let_def)
  next
    case (Some w)
    with assms Inr show ?thesis
      using complete_workflow_total
      by (auto simp: erp_try_def transition_invoice_def validate_transition_def Let_def split: sum.split)
        (metis complete_workflow_total sum.distinct(1))
  qed
  with Inr show ?thesis by blast
qed (simp add: erp_try_def)

lemma attempts_upto: "a < MAX_RETRIES \<Longrightarrow> [a..MAX_RETRIES - 1] = a # [a + 1..MAX_RETRIES - 1]"
  by (simp add: upto_rec1)

text \<open>The loop ends the push: in success at the first attempt that is answered, in failure when
  none of the attempts left is.\<close>

lemma erp_attempts_outcome:
  assumes "status iv = Sending_to_erp" "a < MAX_RETRIES"
  shows "\<exists>iv' db'. erp_attempts env actor [a..MAX_RETRIES - 1] inst iv db = (None, iv', db')
    \<and> status iv' = (if \<exists>b \<in> {a..MAX_RETRIES - 1}. \<exists>ref. ee_call env b = Inr ref then Done else Failed)"
  using assms
proof (induction "nat (MAX_RETRIES - a)" arbitrary: a inst db)
  case (Suc n)
  have split: "{a..MAX_RETRIES - 1} = insert a {a + 1..MAX_RETRIES - 1}" using Suc.prems(2) by auto
  from erp_try_sending [OF Suc.prems(1), of env a actor inst db] show ?case
  proof (elim disjE exE conjE)
    fix err assume c: "ee_call env a = Inl err" and t: "erp_try env actor a inst iv db = Inl (err, iv, db)"
    show ?case
    proof (cases "a + 1 < MAX_RETRIES")
      case True
      let ?inst = "map_option (note_attempt a err) inst"
      have n: "n = nat (MAX_RETRIES - (a + 1))" using Suc.hyps(2) by simp
      from Suc.hyps(1) [OF n Suc.prems(1) True, of ?inst "put_opt ?inst db"]
      obtain iv' db' where "erp_attempts env actor [a + 1..MAX_RETRIES - 1] ?inst iv (put_opt ?inst db) = (None, iv', db')"
        "status iv' = (if \<exists>b \<in> {a + 1..MAX_RETRIES - 1}. \<exists>ref. ee_call env b = Inr ref then Done else Failed)"
        by blast
      with t True c show ?thesis by (simp add: attempts_upto [OF Suc.prems(2)] split Let_def)
    next
      case False
      then have none: "{a + 1..MAX_RETRIES - 1} = {}" by simp
      from False t c Suc.prems(1) show ?thesis
        by (simp add: attempts_upto [OF Suc.prems(2)] split none transition_invoice_def validate_transition_def
            Let_def)
    qed
  next
    fix ref iv' db'
    assume "ee_call env a = Inr ref" "erp_try env actor a inst iv db = Inr (iv', db')" "status iv' = Done"
    then show ?case by (simp add: attempts_upto [OF Suc.prems(2)] split)
  qed
qed simp

lemma send_internal_exhausted:
  assumes "get_workflow_instance db (inv_id iv) = Inr inst" "MAX_RETRIES \<le> retries_of inst"
  shows "send_to_erp_internal env db iv actor = (None, iv, db)"
  using assms by (simp add: send_to_erp_internal_def)

section \<open>Properties\<close>

text \<open>C39: A push in \<open>sending_to_erp\<close> with attempts left always ends, and ends the invoice: in
  \<open>done\<close> when some attempt left is answered and in \<open>failed\<close> when none is. With no attempt
  left it returns at once and the invoice stays in \<open>sending_to_erp\<close>, whatever the ERP would
  answer.\<close>

theorem erp_push_outcome:
  "get_workflow_instance db (inv_id iv) = Inr inst \<Longrightarrow> status iv = Sending_to_erp \<Longrightarrow>
     \<exists>iv' db'. send_to_erp_internal env db iv actor = (None, iv', db') \<and>
       status iv' = (if MAX_RETRIES \<le> retries_of inst then Sending_to_erp
                     else if \<exists>b \<in> {retries_of inst..MAX_RETRIES - 1}. \<exists>ref. ee_call env b = Inr ref
                     then Done else Failed)"
proof (cases "MAX_RETRIES \<le> retries_of inst")
  case False
  assume i: "get_workflow_instance db (inv_id iv) = Inr inst" and s: "status iv = Sending_to_erp"
  from erp_attempts_outcome [OF s, of "retries_of inst" env actor inst db] False
  obtain iv' db' where o: "erp_attempts env actor [retries_of inst..MAX_RETRIES - 1] inst iv db = (None, iv', db')"
    "status iv' = (if \<exists>b \<in> {retries_of inst..MAX_RETRIES - 1}. \<exists>ref. ee_call env b = Inr ref then Done else Failed)"
    by force
  have "send_to_erp_internal env db iv actor = (None, iv', db')" using i o(1) by (simp add: send_to_erp_internal_def)
  with o(2) False show ?thesis by (intro exI [of _ iv'] exI [of _ db']) simp
qed (simp add: send_internal_exhausted)

definition sample_erp :: "(int \<Rightarrow> string + string) \<Rightarrow> erp_env" where
  "sample_erp call = \<lparr>ee_now = 0, ee_role_users = (\<lambda>_ _. None), ee_occurrence = 94, ee_step_id = 95,
     ee_call = call\<rparr>"

theorem erp_push_outcome_witness:
  "\<exists>iv' db'. send_to_erp_internal (sample_erp (\<lambda>a. if a = 1 then Inr ''R'' else Inl ''503''))
      (sample_db empty_cfg) (usd_invoice\<lparr>status := Sending_to_erp\<rparr>) None = (None, iv', db') \<and> status iv' = Done"
proof -
  let ?call = "\<lambda>a. if a = 1 then Inr ''R'' else Inl ''503''" let ?iv = "usd_invoice\<lparr>status := Sending_to_erp\<rparr>"
  have i: "get_workflow_instance (sample_db empty_cfg) (inv_id ?iv) = Inr None"
    using sample_config(2) by simp
  have s: "status ?iv = Sending_to_erp" by simp
  have "\<exists>b \<in> {retries_of None..MAX_RETRIES - 1}. \<exists>ref. ee_call (sample_erp ?call) b = Inr ref"
    by (rule bexI [of _ 1]) (simp_all add: sample_erp_def retries_of_def MAX_RETRIES_def)
  with erp_push_outcome [OF i s, of "sample_erp ?call" None] show ?thesis
    by (simp add: retries_of_def MAX_RETRIES_def)
qed

text \<open>Of the two ways to start a push of an invoice, \<open>retry-erp\<close> requires that somebody
  approved it and \<open>send-to-erp\<close> does not: it accepts every \<open>failed\<close> invoice, also one that
  was never approved.\<close>

theorem push_guards:
  "get_workflow_instance db (inv_id iv) = Inr inst \<Longrightarrow>
     (fst (send_to_erp env db iv actor) = None \<longleftrightarrow> status iv \<in> {Approved, Failed})
     \<and> (fst (retry_erp env db iv (Some actor)) = None \<longleftrightarrow>
          status iv \<in> {Approved, Failed} \<and> get_or (approved_by iv) [] \<noteq> [])"
  by (cases "status iv")
    (simp_all add: send_to_erp_def retry_erp_def transition_invoice_def validate_transition_def Let_def)

theorem push_guards_witness:
  "fst (send_to_erp (sample_erp (\<lambda>_. Inl [])) (sample_db empty_cfg) (usd_invoice\<lparr>status := Failed\<rparr>) 30) = None
   \<and> fst (retry_erp (sample_erp (\<lambda>_. Inl [])) (sample_db empty_cfg) (usd_invoice\<lparr>status := Failed\<rparr>) (Some 30)) \<noteq> None"
proof -
  let ?iv = "usd_invoice\<lparr>status := Failed\<rparr>"
  have i: "get_workflow_instance (sample_db empty_cfg) (inv_id ?iv) = Inr None"
    using sample_config(2) by simp
  have "get_or (approved_by ?iv) [] = []" by (simp add: usd_invoice_def sample_invoice_def)
  then show ?thesis
    using push_guards [OF i, of "sample_erp (\<lambda>_. Inl [])" 30]
    by simp
qed

text \<open>The approval guard of \<open>retry-erp\<close> reads the approver's name, which a refused bulk
  approval leaves behind: an invoice that failed before any approval passes the guard after such a bulk
  request and is sent to the ERP.\<close>

theorem refused_bulk_approval_opens_the_retry:
  "\<exists>iv' db' iv'' db''.
     bulk_approve_one sample_env (sample_db chain_cfg) (usd_invoice\<lparr>status := Failed\<rparr>) 30 ''Ann'' {} (JObj [])
       = Inr (False, iv', db')
     \<and> fst (retry_erp (sample_erp (\<lambda>_. Inl [])) (sample_db chain_cfg) (usd_invoice\<lparr>status := Failed\<rparr>) (Some 30)) \<noteq> None
     \<and> retry_erp (sample_erp (\<lambda>_. Inl [])) db' iv' (Some 30) = (None, iv'', db'') \<and> status iv'' = Sending_to_erp"
proof -
  let ?iv = "usd_invoice\<lparr>status := Failed\<rparr>"
  have e: "approval_entry sample_env (sample_db chain_cfg) ?iv 30 = Inr (None, chain_cfg)"
    by (simp only: approval_entry_status chain_entry)
  have "\<exists>iv'. approve_invoice sample_env (sample_db chain_cfg) ?iv 30 ''Ann'' {} None (JObj [])
      = (Some (HTTPException 409 ''Cannot transition''), iv', sample_db chain_cfg) \<and> status iv' = Failed
        \<and> approved_by iv' = Some ''Ann'' \<and> inv_id iv' = inv_id usd_invoice"
    by (simp add: approve_invoice_def e apply_corrections_def chain_enforce)
      (simp add: finalize_approval_def transition_invoice_def validate_transition_def
        Let_def build_signature_detail_def sign_approval_def sample_env_def)
  then obtain iv' where b: "bulk_approve_one sample_env (sample_db chain_cfg) ?iv 30 ''Ann'' {} (JObj [])
      = Inr (False, iv', sample_db chain_cfg)" and iv': "status iv' = Failed" "approved_by iv' = Some ''Ann''"
      "inv_id iv' = inv_id usd_invoice"
    by (auto simp: bulk_approve_one_def IMMUTABLE_STATUSES_def)
  have "\<exists>iv'' db''. retry_erp (sample_erp (\<lambda>_. Inl [])) (sample_db chain_cfg) iv' (Some 30) = (None, iv'', db'')
      \<and> status iv'' = Sending_to_erp"
    using iv' sample_config(2) [of chain_cfg]
    by (simp add: retry_erp_def transition_invoice_def validate_transition_def Let_def)
  moreover have "fst (retry_erp (sample_erp (\<lambda>_. Inl [])) (sample_db chain_cfg) ?iv (Some 30)) \<noteq> None"
    by (simp add: retry_erp_def usd_invoice_def sample_invoice_def)
  ultimately show ?thesis using b by blast
qed

definition unreachable_erp :: erp_env where
  "unreachable_erp = sample_erp (\<lambda>_. Inl ''503'')"

definition pushing_db :: wf_db where
  "pushing_db = (sample_db empty_cfg)\<lparr>instances := [sample_instance]\<rparr>"

text \<open>After a push has used up its attempts, submitting the failed invoice again through
  \<open>send-to-erp\<close> is accepted but pushes nothing: the attempt counter is still at its limit, so
  the invoice stays in \<open>sending_to_erp\<close> even when the ERP would answer at once.\<close>

theorem resubmitted_push_is_stuck:
  "\<exists>iv1 db1 iv2 db2.
     send_to_erp_internal unreachable_erp pushing_db
       (usd_invoice\<lparr>inv_id := 4, status := Sending_to_erp\<rparr>) (Some 30) = (None, iv1, db1) \<and> status iv1 = Failed
     \<and> send_to_erp unreachable_erp db1 iv1 30 = (None, iv2, db2) \<and> status iv2 = Sending_to_erp
     \<and> (\<forall>env. send_to_erp_internal env db2 iv2 (Some 30) = (None, iv2, db2))"
proof -
  have upto: "[0..2] = [0, 1, 2 :: int]" by (simp add: upto_rec1)
  let ?iv = "usd_invoice\<lparr>inv_id := 4, status := Sending_to_erp\<rparr>"
  have w: "get_workflow_instance pushing_db 4 = Inr (Some sample_instance)"
    by (simp add: get_workflow_instance_def pushing_db_def sample_instance_def)
  have r: "retries_of (Some sample_instance) = 0"
    by (simp add: retries_of_def sample_instance_def empty_state_def)
  let ?w3 = "(note_attempt 2 ''503'' (note_attempt 1 ''503'' (note_attempt 0 ''503'' sample_instance)))"
  have u: "send_to_erp_internal unreachable_erp pushing_db ?iv (Some 30) =
      erp_attempts unreachable_erp (Some 30) [0, 1, 2] (Some sample_instance) ?iv pushing_db"
    by (simp add: send_to_erp_internal_def w r MAX_RETRIES_def upto)
  obtain iv1 db1 where p: "send_to_erp_internal unreachable_erp pushing_db ?iv (Some 30) = (None, iv1, db1)"
    "status iv1 = Failed" "inv_id iv1 = 4" "instances db1 = [note_attempt 2 ''503'' (note_attempt 1 ''503''
       (note_attempt 0 ''503'' sample_instance))\<lparr>wi_state := ''failed''\<rparr>]"
    unfolding u by (simp add: MAX_RETRIES_def erp_try_def unreachable_erp_def
        sample_erp_def put_opt_def transition_invoice_def validate_transition_def Let_def put_instance_def
        update_instance_def update_where_def pushing_db_def note_attempt_def sample_instance_def)
  obtain iv2 db2 where s: "send_to_erp unreachable_erp db1 iv1 30 = (None, iv2, db2)" "status iv2 = Sending_to_erp"
    "inv_id iv2 = 4" "instances db2 = instances db1"
    using p(2,3) by (simp add: send_to_erp_def transition_invoice_def validate_transition_def Let_def)
  have "send_to_erp_internal env db2 iv2 (Some 30) = (None, iv2, db2)" for env
  proof (rule send_internal_exhausted)
    show "get_workflow_instance db2 (inv_id iv2) = Inr (Some (?w3\<lparr>wi_state := ''failed''\<rparr>))"
      by (simp add: get_workflow_instance_def s(3,4) p(4) note_attempt_def sample_instance_def)
    show "MAX_RETRIES \<le> retries_of (Some (?w3\<lparr>wi_state := ''failed''\<rparr>))"
      by (simp add: retries_of_def note_attempt_def MAX_RETRIES_def)
  qed
  with p s show ?thesis by (intro exI conjI allI)
qed

end
