(* ===== verification/Banking.thy ===== *)
theory Banking
  imports Py_Values
begin

text \<open>
  Structural validation of bank identifiers (utils/banking.py), on ASCII text. A \<open>None\<close>
  and an empty string are both falsy; both are the empty string here.
\<close>

section \<open>Text\<close>

definition is_upper :: "char \<Rightarrow> bool" where
  "is_upper c \<longleftrightarrow> 65 \<le> code c \<and> code c \<le> 90"

definition is_alpha :: "char \<Rightarrow> bool" where
  "is_alpha c \<longleftrightarrow> is_upper c \<or> (97 \<le> code c \<and> code c \<le> 122)"

definition is_alnum :: "char \<Rightarrow> bool" where
  "is_alnum c \<longleftrightarrow> is_alpha c \<or> is_digit c"

text \<open>\<open>s.isalpha()\<close> and its relatives are false on the empty string.\<close>

definition all_of :: "(char \<Rightarrow> bool) \<Rightarrow> string \<Rightarrow> bool" where
  "all_of p s \<longleftrightarrow> s \<noteq> [] \<and> list_all p s"

text \<open>\<open>"".join(s.split())\<close>\<close>

definition squeeze :: "string \<Rightarrow> string" where
  "squeeze s = filter (\<lambda>c. \<not> is_space c) s"

fun split_on :: "char \<Rightarrow> string \<Rightarrow> string list" where
  "split_on c [] = [[]]"
| "split_on c (x # xs) =
     (if x = c then [] # split_on c xs
      else (case split_on c xs of [] \<Rightarrow> [[x]] | y # ys \<Rightarrow> (x # y) # ys))"

section \<open>IBAN\<close>

definition IBAN_LENGTHS :: "(string \<times> nat) list" where
  "IBAN_LENGTHS =
     [(''AD'', 24), (''AE'', 23), (''AL'', 28), (''AT'', 20), (''AZ'', 28), (''BA'', 20),
      (''BE'', 16), (''BG'', 22), (''BH'', 22), (''BR'', 29), (''BY'', 28), (''CH'', 21),
      (''CR'', 22), (''CY'', 28), (''CZ'', 24), (''DE'', 22), (''DK'', 18), (''DO'', 28),
      (''EE'', 20), (''EG'', 29), (''ES'', 24), (''FI'', 18), (''FO'', 18), (''FR'', 27),
      (''GB'', 22), (''GE'', 22), (''GI'', 23), (''GL'', 18), (''GR'', 27), (''GT'', 28),
      (''HR'', 21), (''HU'', 28), (''IE'', 22), (''IL'', 23), (''IQ'', 23), (''IS'', 26),
      (''IT'', 27), (''JO'', 30), (''KW'', 30), (''KZ'', 20), (''LB'', 28), (''LC'', 32),
      (''LI'', 21), (''LT'', 20), (''LU'', 20), (''LV'', 21), (''MC'', 27), (''MD'', 24),
      (''ME'', 22), (''MK'', 19), (''MR'', 27), (''MT'', 31), (''MU'', 30), (''NL'', 18),
      (''NO'', 15), (''PK'', 24), (''PL'', 28), (''PS'', 29), (''PT'', 25), (''QA'', 29),
      (''RO'', 24), (''RS'', 22), (''SA'', 24), (''SC'', 31), (''SE'', 24), (''SI'', 19),
      (''SK'', 24), (''SM'', 27), (''ST'', 25), (''SV'', 28), (''TL'', 23), (''TN'', 24),
      (''TR'', 26), (''UA'', 29), (''VA'', 22), (''VG'', 24), (''XK'', 20)]"

definition SEPA_COUNTRIES :: "string list" where
  "SEPA_COUNTRIES =
     [''AT'', ''BE'', ''BG'', ''CH'', ''CY'', ''CZ'', ''DE'', ''DK'', ''EE'', ''ES'', ''FI'',
      ''FR'', ''GB'', ''GI'', ''GR'', ''HR'', ''HU'', ''IE'', ''IS'', ''IT'', ''LI'', ''LT'',
      ''LU'', ''LV'', ''MC'', ''MT'', ''NL'', ''NO'', ''PL'', ''PT'', ''RO'', ''SE'', ''SI'',
      ''SK'', ''SM'', ''VA'']"

definition normalize_iban :: "string \<Rightarrow> string" where
  "normalize_iban raw = py_upper (squeeze raw)"

definition country_from_iban :: "string \<Rightarrow> string option" where
  "country_from_iban iban =
     (if iban = [] then None
      else let n = normalize_iban iban
           in if length n < 2 then None
              else if \<not> all_of is_alpha (take 2 n) then None
              else Some (take 2 n))"

definition iban_digits :: "string \<Rightarrow> string" where
  "iban_digits s = concat (map (\<lambda>c. if is_digit c then [c] else nat_str (code c - 55)) s)"

definition rearranged :: "string \<Rightarrow> string" where
  "rearranged n = drop 4 n @ take 4 n"

definition validate_iban :: "string \<Rightarrow> bool" where
  "validate_iban iban \<longleftrightarrow>
     (if iban = [] then False
      else let n = normalize_iban iban
           in if \<not> all_of is_alnum n then False
              else if length n < 15 \<or> 34 < length n then False
              else if \<not> all_of is_alpha (take 2 n) then False
              else if \<not> all_of is_digit (take 2 (drop 2 n)) then False
              else if (case map_of IBAN_LENGTHS (take 2 n) of None \<Rightarrow> False | Some k \<Rightarrow> length n \<noteq> k)
              then False
              else digits_val (iban_digits (rearranged n)) mod 97 = 1)"

section \<open>SWIFT/BIC, ABA, UK accounts\<close>

definition validate_swift_bic :: "string \<Rightarrow> bool" where
  "validate_swift_bic bic \<longleftrightarrow>
     (if bic = [] then False
      else let n = py_upper (squeeze bic)
           in if length n \<noteq> 8 \<and> length n \<noteq> 11 then False
              else if \<not> all_of is_alnum n then False
              else if \<not> all_of is_alpha (take 4 n) then False
              else if \<not> all_of is_alpha (take 2 (drop 4 n)) then False
              else if n ! 6 = CHR ''0'' then False
              else if length n = 11 then all_of is_alnum (drop 8 n)
              else True)"

definition digit_val :: "char \<Rightarrow> nat" where
  "digit_val c = code c - 48"

definition aba_checksum :: "nat list \<Rightarrow> nat" where
  "aba_checksum d = 3 * (d ! 0 + d ! 3 + d ! 6) + 7 * (d ! 1 + d ! 4 + d ! 7) + (d ! 2 + d ! 5 + d ! 8)"

definition validate_aba_routing :: "string \<Rightarrow> bool" where
  "validate_aba_routing r \<longleftrightarrow>
     (if r = [] then False
      else let ds = squeeze r
           in if length ds \<noteq> 9 \<or> \<not> all_of is_digit ds then False
              else aba_checksum (map digit_val ds) mod 10 = 0)"

definition validate_uk_sort_code :: "string \<Rightarrow> bool" where
  "validate_uk_sort_code sort_code \<longleftrightarrow>
     (if sort_code = [] then False
      else let parts = split_on CHR ''-'' (py_strip sort_code)
           in if length parts = 3 then
                list_all (\<lambda>p. length p = 2 \<and> all_of is_digit p) parts
                \<and> length (concat parts) = 6 \<and> all_of is_digit (concat parts)
              else if length parts = 1 then length (hd parts) = 6 \<and> all_of is_digit (hd parts)
              else False)"

definition validate_uk_account_number :: "string \<Rightarrow> bool" where
  "validate_uk_account_number account \<longleftrightarrow>
     (if account = [] then False else length (squeeze account) = 8 \<and> all_of is_digit (squeeze account))"

definition is_sepa_country :: "string \<Rightarrow> bool" where
  "is_sepa_country cc \<longleftrightarrow> cc \<noteq> [] \<and> py_upper cc \<in> set SEPA_COUNTRIES"

section \<open>Facts\<close>

lemma digits_val_append: "digits_val (s @ t) = digits_val s * 10 ^ length t + digits_val t"
proof (induction t rule: rev_induct)
  case Nil
  then show ?case by (simp add: digits_val_def)
next
  case (snoc c t)
  have "digits_val (s @ t @ [c]) = 10 * digits_val (s @ t) + (code c - 48)"
    using digits_val_snoc [of "s @ t" c] by simp
  with snoc show ?case by (simp add: digits_val_snoc algebra_simps)
qed

lemma iban_digits_append [simp]: "iban_digits (s @ t) = iban_digits s @ iban_digits t"
  by (simp add: iban_digits_def)

lemma normalize_iban_append: "normalize_iban (s @ t) = normalize_iban s @ normalize_iban t"
  by (simp add: normalize_iban_def squeeze_def py_upper_def)

lemma rearranged_position: "\<exists>u v. \<forall>c. rearranged (s @ c # t) = u @ c # v"
proof (cases "length s < 4")
  case True
  then obtain k where k: "4 - length s = Suc k" by (metis Suc_diff_Suc diff_zero zero_less_diff less_imp_Suc_add)
  then have "rearranged (s @ c # t) = (drop k t @ s) @ c # take k t" for c
    using True by (simp add: rearranged_def)
  then show ?thesis by blast
next
  case False
  then have "rearranged (s @ c # t) = drop 4 s @ c # (t @ take 4 s)" for c
    by (simp add: rearranged_def)
  then show ?thesis by blast
qed

text \<open>Two characters a reader may confuse: different digits, or different letters.\<close>

definition typo :: "char \<Rightarrow> char \<Rightarrow> bool" where
  "typo c d \<longleftrightarrow> ((is_digit c \<and> is_digit d) \<or> (is_alpha c \<and> is_alpha d)) \<and> upper_char c \<noteq> upper_char d"

definition char_value :: "char \<Rightarrow> nat" where
  "char_value c = (if is_digit c then code c - 48 else code c - 55)"

lemma char_value_digits:
  assumes "is_digit c \<or> is_upper c"
  shows "digits_val (iban_digits [c]) = char_value c"
  using assms digits_val_nat_str [of "code c - 55"]
  by (auto simp: iban_digits_def char_value_def digits_val_def)

lemma upper_letter: "is_alpha c \<Longrightarrow> is_upper (upper_char c) \<and> \<not> is_digit (upper_char c)"
  by (auto simp: is_alpha_def is_upper_def upper_char_def is_digit_def)

lemma digit_upper [simp]: "is_digit c \<Longrightarrow> upper_char c = c"
  by (auto simp: is_digit_def upper_char_def)

lemma typo_not_space: "typo c d \<Longrightarrow> \<not> is_space c \<and> \<not> is_space d"
  by (auto simp: typo_def is_digit_def is_alpha_def is_upper_def is_space_def)

lemma letter_width: "is_upper c \<Longrightarrow> length (iban_digits [c]) = 2"
proof -
  assume "is_upper c"
  then obtain n where n: "code c = n + 65" "n \<le> 25"
    unfolding is_upper_def by (metis le_add_diff_inverse2 diff_le_mono diff_add_inverse2 numeral_plus_numeral
        add_num_simps le_diff_conv2 add.commute)
  then have nd: "\<not> is_digit c" by (simp add: is_digit_def)
  have "length (nat_str (n + 10)) = 2"
    using n(2) by (subst nat_str.simps, subst nat_str.simps, auto)
  then show ?thesis using n nd by (simp add: iban_digits_def add.commute)
qed

lemma typo_values:
  assumes "typo c d"
  shows "char_value (upper_char c) \<noteq> char_value (upper_char d)"
    "char_value (upper_char c) < 97" "char_value (upper_char d) < 97"
    "length (iban_digits [upper_char c]) = length (iban_digits [upper_char d])"
proof -
  have inj: "code (upper_char c) \<noteq> code (upper_char d)"
    using assms by (simp add: typo_def)
  consider "is_digit c \<and> is_digit d" | "is_alpha c \<and> is_alpha d" using assms by (auto simp: typo_def)
  then have "char_value (upper_char c) \<noteq> char_value (upper_char d) \<and> char_value (upper_char c) < 97
      \<and> char_value (upper_char d) < 97
      \<and> length (iban_digits [upper_char c]) = length (iban_digits [upper_char d])"
  proof cases
    case 1
    then show ?thesis using inj by (auto simp: char_value_def is_digit_def iban_digits_def eq_diff_iff)
  next
    case 2
    note u = upper_letter [of c] upper_letter [of d]
    have "is_upper (upper_char c)" "is_upper (upper_char d)"
      "\<not> is_digit (upper_char c)" "\<not> is_digit (upper_char d)"
      using 2 u by simp_all
    then show ?thesis using inj letter_width
      by (auto simp: char_value_def is_upper_def eq_diff_iff)
  qed
  then show "char_value (upper_char c) \<noteq> char_value (upper_char d)"
    "char_value (upper_char c) < 97" "char_value (upper_char d) < 97"
    "length (iban_digits [upper_char c]) = length (iban_digits [upper_char d])" by simp_all
qed

lemma coprime_97: "coprime (97 :: nat) 10"
  by code_simp

lemma shifted_residue_le:
  fixes a b k r :: nat
  assumes "(p + a * 10 ^ k + r) mod 97 = (p + b * 10 ^ k + r) mod 97" "a < 97" "b \<le> a"
  shows "a = b"
proof -
  have le: "b * 10 ^ k \<le> a * 10 ^ k" using assms(3) by (rule mult_right_mono) simp
  then have "97 dvd (p + a * 10 ^ k + r) - (p + b * 10 ^ k + r)"
    using assms(1) mod_eq_dvd_iff_nat [of "p + b * 10 ^ k + r" "p + a * 10 ^ k + r" 97] by simp
  then have "97 dvd (a - b) * 10 ^ k" by (simp add: diff_mult_distrib)
  moreover have "coprime (97 :: nat) (10 ^ k)"
    using coprime_97 by simp
  ultimately have "97 dvd a - b" by (simp add: coprime_dvd_mult_left_iff)
  moreover have "a - b < 97" using assms(2) by (rule le_less_trans [OF diff_le_self])
  ultimately have "a - b = 0" using nat_dvd_not_less [of "a - b" 97] by blast
  with assms(3) show ?thesis by simp
qed

lemma shifted_residue:
  fixes a b k r :: nat
  assumes "(p + a * 10 ^ k + r) mod 97 = (p + b * 10 ^ k + r) mod 97" "a < 97" "b < 97"
  shows "a = b"
proof (cases "b \<le> a")
  case True
  then show ?thesis by (rule shifted_residue_le [OF assms(1,2)])
next
  case False
  then have "a \<le> b" by simp
  with shifted_residue_le [OF assms(1) [symmetric] assms(3)] show ?thesis by simp
qed

section \<open>Properties\<close>

text \<open>
  An IBAN that validates no longer does after any one of its digits is replaced by a
  different digit, or any one of its letters by a different letter, wherever it stands and
  whatever spaces the text is printed with.
\<close>

theorem iban_detects_typos:
  assumes "validate_iban (s @ c # t)" "typo c d"
  shows "\<not> validate_iban (s @ d # t)"
proof
  assume d: "validate_iban (s @ d # t)"
  let ?c = "upper_char c" and ?d = "upper_char d"
  have n: "normalize_iban (s @ e # t) = normalize_iban s @ upper_char e # normalize_iban t"
    if "\<not> is_space e" for e
    using normalize_iban_append [of s "e # t"] that
    by (simp add: normalize_iban_def squeeze_def py_upper_def)
  obtain u v where uv: "\<And>e. rearranged (normalize_iban s @ e # normalize_iban t) = u @ e # v"
    using rearranged_position [of "normalize_iban s" "normalize_iban t"] by blast
  have val: "digits_val (iban_digits (u @ e # v))
      = digits_val (iban_digits u) * 10 ^ (length (iban_digits [e]) + length (iban_digits v))
        + digits_val (iban_digits [e]) * 10 ^ length (iban_digits v) + digits_val (iban_digits v)" for e
    using iban_digits_append [of u "[e] @ v"] iban_digits_append [of "[e]" v]
    by (simp add: digits_val_append power_add algebra_simps)
  have cv: "digits_val (iban_digits [?c]) = char_value ?c" "digits_val (iban_digits [?d]) = char_value ?d"
    using assms(2) upper_letter [of c] upper_letter [of d]
    by (auto simp: typo_def intro!: char_value_digits)
  have "digits_val (iban_digits (u @ ?c # v)) mod 97 = 1" "digits_val (iban_digits (u @ ?d # v)) mod 97 = 1"
    using assms(1) d typo_not_space [OF assms(2)]
    by (auto simp: validate_iban_def Let_def n uv split: if_splits)
  then have eq: "digits_val (iban_digits (u @ ?c # v)) mod 97 = digits_val (iban_digits (u @ ?d # v)) mod 97"
    by simp
  have "char_value ?c = char_value ?d"
    by (rule shifted_residue [OF eq [unfolded val cv typo_values(4) [OF assms(2)]] typo_values(2,3) [OF assms(2)]])
  with typo_values(1) [OF assms(2)] show False by simp
qed

theorem iban_typo_witness:
  "validate_iban ''DE89 3704 0044 0532 0130 00''
   \<and> \<not> validate_iban ''DE89 3704 0044 0532 0150 00''"
proof -
  have v: "validate_iban (''DE89 3704 0044 0532 01'' @ CHR ''3'' # ''0 00'')"
    by (simp add: validate_iban_def normalize_iban_def squeeze_def is_space_def py_upper_def upper_char_def
        all_of_def is_alnum_def is_alpha_def is_upper_def is_digit_def IBAN_LENGTHS_def rearranged_def
        iban_digits_def digits_val_def nat_str.simps Let_def)
  have t: "typo CHR ''3'' CHR ''5''" by (simp add: typo_def is_digit_def upper_char_def)
  show ?thesis using v iban_detects_typos [OF v t] by simp
qed

end
