(* ===== verification/Payment_Controls.thy ===== *)
theory Payment_Controls
  imports Approval_Chain
begin

text \<open>
  Who may commit an outflow (services/payment_controls.py): the maker-checker rule of a
  payment run, and the CFO threshold. The payments section of the settings is raw JSON.
\<close>

section \<open>Maker and checker\<close>

definition run_segregation_enabled :: "json \<Rightarrow> bool py" where
  "run_segregation_enabled payment_config =
     py_bind (or_empty_get payment_config ''require_run_segregation'') (\<lambda>v.
       Inr (v \<noteq> JBool False))"

definition check_run_segregation :: "uuid option \<Rightarrow> uuid \<Rightarrow> json \<Rightarrow> unit py" where
  "check_run_segregation initiated_by actor_id payment_config =
     py_bind (run_segregation_enabled payment_config) (\<lambda>enabled.
       if \<not> enabled then Inr ()
       else if initiated_by = None then Inr ()
       else if initiated_by = Some actor_id then Inl (HTTPException 403 ''Segregation of duties'')
       else Inr ())"

section \<open>The CFO threshold\<close>

definition CFO_REASON_ABOVE_THRESHOLD :: string where
  "CFO_REASON_ABOVE_THRESHOLD = ''above_threshold''"

definition CFO_REASON_THRESHOLD_UNPARSEABLE :: string where
  "CFO_REASON_THRESHOLD_UNPARSEABLE = ''threshold_unparseable''"

definition CFO_REASON_AMOUNT_NOT_EXPRESSIBLE :: string where
  "CFO_REASON_AMOUNT_NOT_EXPRESSIBLE = ''amount_not_expressible_in_reporting_currency''"

record CfoThresholdDecision =
  cfo_required :: bool
  cfo_reason :: "string option"
  cfo_threshold :: "decimal option"
  cfo_evaluated :: "rat option"
  cfo_currency :: string

text \<open>
  \<open>Decimal(str(raw))\<close> is \<open>to_decimal\<close>. Comparing a NaN threshold with zero raises, and
  that comparison stands outside the \<open>try\<close>.
\<close>

definition cfo_approval_decision ::
    "json \<Rightarrow> rat \<Rightarrow> string \<Rightarrow> bool \<Rightarrow> CfoThresholdDecision py" where
  "cfo_approval_decision payment_config reporting rc unconverted =
     py_bind (or_empty_get payment_config ''cfo_approval_above'') (\<lambda>raw.
       let cur = norm_code (if rc = [] then ''USD'' else rc)
       in if raw = JNull then
            Inr \<lparr>cfo_required = False, cfo_reason = None, cfo_threshold = None,
                 cfo_evaluated = None, cfo_currency = cur\<rparr>
          else case to_decimal raw of
            None \<Rightarrow>
              Inr \<lparr>cfo_required = True, cfo_reason = Some CFO_REASON_THRESHOLD_UNPARSEABLE,
                   cfo_threshold = None, cfo_evaluated = None, cfo_currency = cur\<rparr>
          | Some t \<Rightarrow>
              py_bind (dec_less (Fin 0) t) (\<lambda>positive.
                if \<not> positive then
                  Inr \<lparr>cfo_required = False, cfo_reason = None, cfo_threshold = Some t,
                       cfo_evaluated = None, cfo_currency = cur\<rparr>
                else if unconverted then
                  Inr \<lparr>cfo_required = True, cfo_reason = Some CFO_REASON_AMOUNT_NOT_EXPRESSIBLE,
                       cfo_threshold = Some t, cfo_evaluated = None, cfo_currency = cur\<rparr>
                else
                  py_bind (dec_greater (Fin reporting) t) (\<lambda>over.
                    Inr \<lparr>cfo_required = over,
                         cfo_reason = (if over then Some CFO_REASON_ABOVE_THRESHOLD else None),
                         cfo_threshold = Some t, cfo_evaluated = Some reporting,
                         cfo_currency = cur\<rparr>)))"

section \<open>Facts\<close>

lemma run_segregation_default:
  "run_segregation_enabled JNull = Inr True"
  "run_segregation_enabled (JObj []) = Inr True"
  "run_segregation_enabled (JObj kvs) = Inr (jget kvs ''require_run_segregation'' \<noteq> JBool False)"
  by (simp_all add: run_segregation_enabled_def or_empty_get_def dict_get_def)

lemma check_run_segregation_blocks:
  assumes "run_segregation_enabled cfg = Inr True" "check_run_segregation maker actor cfg = Inr ()"
  shows "maker \<noteq> Some actor"
  using assms by (auto simp: check_run_segregation_def split: if_splits)

text \<open>Whether the gate fires, in terms of what the threshold parses to.\<close>

definition payment_gate :: "json \<Rightarrow> rat \<Rightarrow> bool \<Rightarrow> bool" where
  "payment_gate raw amt unconverted \<longleftrightarrow>
     raw \<noteq> JNull \<and>
     (case to_decimal raw of
        None \<Rightarrow> True
      | Some (Fin t) \<Rightarrow> 0 < t \<and> (unconverted \<or> t < amt)
      | Some PosInf \<Rightarrow> unconverted
      | _ \<Rightarrow> False)"

lemma cfo_decision_required:
  assumes "cfo_approval_decision cfg amt rc u = Inr d"
  shows "\<exists>raw. or_empty_get cfg ''cfo_approval_above'' = Inr raw
               \<and> to_decimal raw \<noteq> Some NaN \<and> cfo_required d = payment_gate raw amt u"
proof -
  from assms obtain raw where raw: "or_empty_get cfg ''cfo_approval_above'' = Inr raw"
    by (auto simp: cfo_approval_decision_def)
  show ?thesis
  proof (cases "to_decimal raw")
    case None
    then show ?thesis using assms raw
      by (auto simp: cfo_approval_decision_def payment_gate_def Let_def split: if_splits)
  next
    case (Some t)
    have "t \<noteq> NaN" and "cfo_required d = payment_gate raw amt u"
      using assms raw Some
      by (cases t; auto simp: cfo_approval_decision_def payment_gate_def Let_def to_decimal_def
            split: if_splits)+
    then show ?thesis using raw Some by simp
  qed
qed

lemma cfo_decision_returns:
  assumes "or_empty_get cfg ''cfo_approval_above'' = Inr raw" "to_decimal raw \<noteq> Some NaN"
  shows "\<exists>d. cfo_approval_decision cfg amt rc u = Inr d"
  using assms
  by (cases "to_decimal raw"; cases "the (to_decimal raw)")
    (auto simp: cfo_approval_decision_def Let_def)

lemma payment_gate_mono: "payment_gate raw amt u \<Longrightarrow> amt \<le> amt' \<Longrightarrow> payment_gate raw amt' u"
  by (auto simp: payment_gate_def split: option.splits decimal.splits)

text \<open>
  Three thresholds a settings screen can store and what they do. A text that is no
  number requires sign-off for every outflow. \<open>"NaN"\<close> raises InvalidOperation on every
  outflow, although the docstring promises that a typo in the setting requires sign-off.
  \<open>"Infinity"\<close> never requires it for an amount in the reporting currency.
\<close>

theorem special_thresholds:
  "(\<exists>d. cfo_approval_decision (JObj [(''cfo_approval_above'', JStr ''10,000'')]) amt rc u = Inr d
          \<and> cfo_required d)
   \<and> cfo_approval_decision (JObj [(''cfo_approval_above'', JStr ''NaN'')]) amt rc u
       = Inl InvalidOperation
   \<and> (\<exists>d. cfo_approval_decision (JObj [(''cfo_approval_above'', JStr ''Infinity'')]) amt rc u = Inr d
          \<and> cfo_required d = u)"
  by (simp add: cfo_approval_decision_def or_empty_get_def dict_get_def to_decimal_def
      parse_decimal_examples parse_decimal_special Let_def)

end
