(* ===== verification/Payment_Models.thy ===== *)
theory Payment_Models
  imports Models
begin

text \<open>
  The rows of the payment side (models/payment.py, models/credit_memo.py,
  models/virtual_card.py, the columns of models/vendor.py a payment reads) and the database the
  payment operations work on: the workflow tables, these rows, and the calls made to processors.

  A payment's status is a plain text column, and the code tests it against tuples of literals, so it
  is a \<open>string\<close> here. The text fields of a vendor's bank details are an association list.
\<close>

record payment =
  pm_id :: uuid
  pm_correlation :: "uuid option"
  pm_invoice :: uuid
  pm_run :: "uuid option"
  pm_amount :: rat
  pm_method :: "string option"
  pm_status :: string
  pm_reference :: "string option"
  pm_provider :: "string option"
  pm_provider_id :: "string option"
  pm_failure :: "string option"
  pm_retry_of :: "uuid option"
  pm_submitted_at :: "time option"
  pm_completed_at :: "time option"
  pm_settled :: "rat option"
  pm_settled_currency :: "string option"
  pm_unstorable :: bool
  pm_source_currency :: "string option"
  pm_source_amount :: "rat option"
  pm_fx_rate :: "rat option"
  pm_fx_locked_at :: "time option"
  pm_corridor :: "string option"
  pm_country :: "string option"
  pm_entity :: "uuid option"

record payment_run =
  pr_id :: uuid
  pr_status :: string
  pr_total :: rat
  pr_initiated_by :: "uuid option"
  pr_executed_at :: "time option"
  pr_requires_cfo :: bool
  pr_cfo_by :: "uuid option"
  pr_cfo_at :: "time option"
  pr_plan :: "string option"
  pr_org :: uuid
  pr_entity :: "uuid option"

record credit_memo =
  cm_id :: uuid
  cm_number :: string
  cm_vendor :: uuid
  cm_invoice :: "uuid option"
  cm_amount :: rat
  cm_currency :: string
  cm_status :: string
  cm_applied_at :: "time option"
  cm_applied_by :: "string option"
  cm_entity :: "uuid option"

record virtual_card =
  vc_id :: uuid
  vc_invoice :: uuid
  vc_payment :: "uuid option"
  vc_correlation :: "uuid option"
  vc_provider :: string
  vc_last_four :: "string option"
  vc_limit :: rat
  vc_currency :: string
  vc_status :: string
  vc_expires_at :: "time option"

type_synonym bank = "(string \<times> string) list"

record vendor =
  vd_id :: uuid
  vd_name :: string
  vd_bank :: "bank option"
  vd_kyc_status :: string
  vd_blocked :: bool
  vd_blocked_reason :: "string option"
  vd_entity :: "uuid option"

text \<open>An order handed to a processor: the fields of \<open>PaymentPayload\<close> that move money.\<close>

record payload =
  pl_key :: uuid
  pl_invoice :: uuid
  pl_vendor :: string
  pl_amount :: rat
  pl_currency :: string
  pl_method :: string
  pl_source_currency :: "string option"
  pl_source_amount :: "rat option"
  pl_fx_rate :: "rat option"
  pl_country :: "string option"

text \<open>The evidence row of a vendor screening (models/sanctions_check.py).\<close>

record sanctions_check =
  sk_vendor :: uuid
  sk_provider :: string
  sk_result :: string
  sk_list :: "string option"
  sk_correlation :: "uuid option"

record pay_db =
  core :: wf_db
  payments :: "payment list"
  runs :: "payment_run list"
  memos :: "credit_memo list"
  cards :: "virtual_card list"
  vendors :: "vendor list"
  orders :: "payload list"
  screenings :: "sanctions_check list"

definition put_payment :: "payment \<Rightarrow> pay_db \<Rightarrow> pay_db" where
  "put_payment p db = db\<lparr>payments := update_where (\<lambda>q. pm_id q = pm_id p) (\<lambda>_. p) (payments db)\<rparr>"

definition put_run :: "payment_run \<Rightarrow> pay_db \<Rightarrow> pay_db" where
  "put_run r db = db\<lparr>runs := update_where (\<lambda>q. pr_id q = pr_id r) (\<lambda>_. r) (runs db)\<rparr>"

definition put_invoice :: "invoice \<Rightarrow> wf_db \<Rightarrow> wf_db" where
  "put_invoice iv db = db\<lparr>invoices := update_where (\<lambda>i. inv_id i = inv_id iv) (\<lambda>_. iv) (invoices db)\<rparr>"

definition find_payment :: "pay_db \<Rightarrow> uuid \<Rightarrow> payment option" where
  "find_payment db i = find (\<lambda>p. pm_id p = i) (payments db)"

definition find_run :: "pay_db \<Rightarrow> uuid \<Rightarrow> payment_run option" where
  "find_run db i = find (\<lambda>r. pr_id r = i) (runs db)"

definition find_invoice :: "pay_db \<Rightarrow> uuid \<Rightarrow> invoice option" where
  "find_invoice db i = find (\<lambda>iv. inv_id iv = i) (invoices (core db))"

text \<open>The rows the handlers take for granted: primary keys are unique.\<close>

definition keys_unique :: "pay_db \<Rightarrow> bool" where
  "keys_unique db \<longleftrightarrow>
     distinct (map pm_id (payments db)) \<and> distinct (map pr_id (runs db))
     \<and> distinct (map inv_id (invoices (core db)))"

lemma put_payment_frame [simp]:
  "core (put_payment p db) = core db" "runs (put_payment p db) = runs db"
  "memos (put_payment p db) = memos db" "cards (put_payment p db) = cards db"
  "vendors (put_payment p db) = vendors db" "orders (put_payment p db) = orders db"
  "screenings (put_payment p db) = screenings db"
  by (simp_all add: put_payment_def)

lemma put_run_frame [simp]:
  "core (put_run r db) = core db" "payments (put_run r db) = payments db"
  "memos (put_run r db) = memos db" "cards (put_run r db) = cards db"
  "vendors (put_run r db) = vendors db" "orders (put_run r db) = orders db"
  "screenings (put_run r db) = screenings db"
  by (simp_all add: put_run_def)

lemma put_payment_payments:
  "payments (put_payment p db) = map (\<lambda>q. if pm_id q = pm_id p then p else q) (payments db)"
  by (simp add: put_payment_def update_where_def)

lemma put_run_runs:
  "runs (put_run r db) = map (\<lambda>q. if pr_id q = pr_id r then r else q) (runs db)"
  by (simp add: put_run_def update_where_def)

lemma put_payment_ids [simp]: "map pm_id (payments (put_payment p db)) = map pm_id (payments db)"
  by (simp add: put_payment_payments)

lemma put_run_ids [simp]: "map pr_id (runs (put_run r db)) = map pr_id (runs db)"
  by (simp add: put_run_runs)

lemma find_payment_Some: "find_payment db i = Some p \<Longrightarrow> p \<in> set (payments db) \<and> pm_id p = i"
  by (auto simp: find_payment_def dest: find_Some_props)

lemma find_run_Some: "find_run db i = Some r \<Longrightarrow> r \<in> set (runs db) \<and> pr_id r = i"
  by (auto simp: find_run_def dest: find_Some_props)

lemma find_invoice_Some: "find_invoice db i = Some iv \<Longrightarrow> iv \<in> set (invoices (core db)) \<and> inv_id iv = i"
  by (auto simp: find_invoice_def dest: find_Some_props)

end
