(* ===== verification/International.thy ===== *)
theory International
  imports Banking Currency Payment_Models
begin

text \<open>
  Rails and corridors (services/payment_methods.py, services/payment_corridor.py) and the
  preparation of an international payment (services/international_payments.py).

  A corridor's \<open>notes\<close> are left out. \<open>getattr(vendor, "address_country", None)\<close> is
  \<open>None\<close> for every caller, since an invoice has no \<open>vendor_country\<close>.
\<close>

section \<open>Rails\<close>

definition CARD_PAYMENT_METHODS :: "string set" where
  "CARD_PAYMENT_METHODS = {''virtual_card''}"

definition IRS_1099_REPORTABLE_METHODS :: "string set" where
  "IRS_1099_REPORTABLE_METHODS =
     {''ach'', ''check'', ''wire'', ''rtp'', ''sepa'', ''international_ach'', ''international_wire'',
      ''bacs'', ''faster_payments'', ''chaps''}"

definition KNOWN_PAYMENT_METHODS :: "string set" where
  "KNOWN_PAYMENT_METHODS = CARD_PAYMENT_METHODS \<union> IRS_1099_REPORTABLE_METHODS"

definition INTERNATIONAL_PAYMENT_METHODS :: "string set" where
  "INTERNATIONAL_PAYMENT_METHODS = {''sepa'', ''international_ach'', ''international_wire''}"

definition DOMESTIC_PAYMENT_METHODS :: "string set" where
  "DOMESTIC_PAYMENT_METHODS =
     {''ach'', ''check'', ''wire'', ''rtp'', ''virtual_card'', ''bacs'', ''faster_payments'', ''chaps''}"

definition normalize_payment_method :: "string option \<Rightarrow> string" where
  "normalize_payment_method v = py_lower (py_strip (get_or v []))"

definition is_card_payment_method :: "string option \<Rightarrow> bool" where
  "is_card_payment_method v \<longleftrightarrow> normalize_payment_method v \<in> CARD_PAYMENT_METHODS"

definition is_1099_reportable_method :: "string option \<Rightarrow> bool" where
  "is_1099_reportable_method v \<longleftrightarrow> \<not> is_card_payment_method v"

definition is_international_payment_method :: "string option \<Rightarrow> bool" where
  "is_international_payment_method v \<longleftrightarrow> normalize_payment_method v \<in> INTERNATIONAL_PAYMENT_METHODS"

section \<open>Corridors\<close>

definition GLOBAL_ACH_DESTINATIONS :: "string set" where
  "GLOBAL_ACH_DESTINATIONS =
     {''CA'', ''MX'', ''GB'', ''PA'', ''AR'', ''BR'', ''CL'', ''CO'', ''DO'', ''PE'', ''VE''}"

definition UK_DOMESTIC_METHODS :: "string set" where
  "UK_DOMESTIC_METHODS = {''bacs'', ''faster_payments'', ''chaps''}"

definition FEE_INTL_WIRE :: rat where "FEE_INTL_WIRE = 25/1000"

definition CORRIDOR_OVERRIDE_FEES :: "(string \<times> rat) list" where
  "CORRIDOR_OVERRIDE_FEES =
     [(''ach'', 1/1000), (''wire'', 5/1000), (''rtp'', 2/1000), (''sepa'', 5/10000),
      (''international_ach'', 8/1000), (''international_wire'', FEE_INTL_WIRE), (''bacs'', 0),
      (''faster_payments'', 0), (''chaps'', 1/1000), (''check'', 0), (''virtual_card'', 0)]"

record CorridorChoice =
  co_method :: string
  co_fee :: rat
  co_hint :: string
  co_fx :: bool
  co_swift :: bool
  co_iban :: bool

definition honor_override :: "string option \<Rightarrow> bool \<Rightarrow> bool \<Rightarrow> bool" where
  "honor_override requested domestic_us domestic_uk \<longleftrightarrow>
     get_or requested [] \<noteq> []
     \<and> (is_international_payment_method requested \<or> domestic_us
        \<or> (domestic_uk \<and> normalize_payment_method requested \<in> UK_DOMESTIC_METHODS))"

definition override_corridor :: "string option \<Rightarrow> bool \<Rightarrow> string \<Rightarrow> CorridorChoice" where
  "override_corridor requested fx country =
     (let m = normalize_payment_method requested;
          fee = (if m = ''wire'' \<and> fx then FEE_INTL_WIRE
                 else get_or (map_of CORRIDOR_OVERRIDE_FEES m) FEE_INTL_WIRE);
          uk = (m \<in> UK_DOMESTIC_METHODS)
      in \<lparr>co_method = m, co_fee = fee, co_hint = [], co_fx = fx,
          co_swift = (\<not> uk \<and> (m = ''wire'' \<or> m = ''international_wire'' \<or> fx)),
          co_iban = (\<not> uk \<and> (m = ''sepa'' \<or> (m \<noteq> ''international_ach'' \<and> is_sepa_country country)))\<rparr>)"

definition pick_corridor :: "string \<Rightarrow> string \<Rightarrow> string option \<Rightarrow> string option \<Rightarrow> CorridorChoice" where
  "pick_corridor source_currency target_currency target_country requested =
     (let src = py_upper source_currency; tgt = py_upper target_currency;
          country = py_upper (get_or target_country []); fx = (src \<noteq> tgt);
          domestic_us = (\<not> fx \<and> tgt = ''USD'' \<and> (country = [] \<or> country = ''US''));
          domestic_uk = (\<not> fx \<and> tgt = ''GBP'' \<and> (country = [] \<or> country = ''GB''))
      in if honor_override requested domestic_us domestic_uk then override_corridor requested fx country
         else if fx then
           \<lparr>co_method = ''international_wire'', co_fee = FEE_INTL_WIRE, co_hint = ''wise'', co_fx = True,
            co_swift = True, co_iban = is_sepa_country country\<rparr>
         else if domestic_us then
           \<lparr>co_method = ''ach'', co_fee = 1/1000, co_hint = [], co_fx = False, co_swift = False,
            co_iban = False\<rparr>
         else if tgt = ''EUR'' \<and> is_sepa_country country then
           \<lparr>co_method = ''sepa'', co_fee = 5/10000, co_hint = ''wise'', co_fx = False, co_swift = False,
            co_iban = True\<rparr>
         else if domestic_uk then
           \<lparr>co_method = ''faster_payments'', co_fee = 0, co_hint = ''modern_treasury'', co_fx = False,
            co_swift = False, co_iban = False\<rparr>
         else if tgt = ''USD'' \<and> country \<in> GLOBAL_ACH_DESTINATIONS then
           \<lparr>co_method = ''international_ach'', co_fee = 8/1000, co_hint = ''modern_treasury'', co_fx = False,
            co_swift = False, co_iban = False\<rparr>
         else
           \<lparr>co_method = ''international_wire'', co_fee = FEE_INTL_WIRE, co_hint = ''wise'', co_fx = False,
            co_swift = True, co_iban = is_sepa_country country\<rparr>)"

section \<open>Preparing a payment\<close>

text \<open>The fields of the prepared \<open>Payment\<close> the dispatcher copies onto its row.\<close>

record prepared =
  pp_corridor :: CorridorChoice
  pp_amount :: rat
  pp_source_currency :: string
  pp_source_amount :: rat
  pp_rate :: "decimal option"
  pp_locked_at :: "time option"
  pp_country :: "string option"

definition first_text :: "bank \<Rightarrow> string list \<Rightarrow> string" where
  "first_text b keys = get_or (find (\<lambda>v. v \<noteq> []) (map (\<lambda>k. get_or (map_of b k) []) keys)) []"

definition norm_or :: "string \<Rightarrow> string \<Rightarrow> string" where
  "norm_or v d = (if norm_code v = [] then d else norm_code v)"

text \<open>The FX leg of a corridor that needs one: the home-currency figure and the rate locked.
  A figure divided by an infinite rate is zero.\<close>

definition fx_leg :: "rat \<Rightarrow> string \<Rightarrow> string \<Rightarrow> fx_provider \<Rightarrow> (rat \<times> decimal \<times> time) py" where
  "fx_leg amt source_currency target_currency get_rate =
     py_bind (get_rate source_currency target_currency) (\<lambda>(rate, as_of).
       case rate of
         NaN \<Rightarrow> Inl InvalidOperation
       | NegInf \<Rightarrow> Inl InternationalPaymentError
       | PosInf \<Rightarrow> Inr (0, PosInf, as_of)
       | Fin r \<Rightarrow>
           if r \<le> 0 then Inl InternationalPaymentError
           else py_bind (quantize_money (ctx_div amt r)) (\<lambda>s. Inr (s, Fin r, as_of)))"

definition prepare_international_payment ::
    "invoice \<Rightarrow> bank option \<Rightarrow> string \<Rightarrow> fx_provider \<Rightarrow> string option \<Rightarrow> prepared py" where
  "prepare_international_payment iv bank_details home fx_adapter requested =
     (let sc = norm_or home DEFAULT_HOME_CURRENCY;
          tc = norm_or (currency iv) sc;
          b = get_or bank_details [];
          iban = first_text b [''iban''];
          swift = first_text b [''swift_bic'', ''swift'', ''bic''];
          country = map_option py_upper
                      (case first_text b [''country''] of [] \<Rightarrow> country_from_iban iban | c # cs \<Rightarrow> Some (c # cs));
          corridor = pick_corridor sc tc country requested;
          result = (\<lambda>sa rate ts. \<lparr>pp_corridor = corridor, pp_amount = amount iv, pp_source_currency = sc,
                      pp_source_amount = sa, pp_rate = rate, pp_locked_at = ts, pp_country = country\<rparr>)
      in if co_iban corridor \<and> \<not> validate_iban iban then Inl InternationalPaymentError
         else if co_swift corridor \<and> \<not> validate_swift_bic swift then Inl InternationalPaymentError
         else if co_fx corridor then
           py_bind (fx_leg (amount iv) sc tc fx_adapter) (\<lambda>(s, rate, ts). Inr (result s (Some rate) (Some ts)))
         else Inr (result (amount iv) None None))"

definition is_international_payment :: "payment \<Rightarrow> bool" where
  "is_international_payment p \<longleftrightarrow>
     (case pm_fx_rate p of Some r \<Rightarrow> 0 < r | None \<Rightarrow> False)
     \<or> is_international_payment_method (pm_corridor p) \<or> is_international_payment_method (pm_method p)"

section \<open>Facts\<close>

text \<open>Every rail the selector can pick is classified on both axes.\<close>

lemma rails_partition:
  "INTERNATIONAL_PAYMENT_METHODS \<inter> DOMESTIC_PAYMENT_METHODS = {}"
  "INTERNATIONAL_PAYMENT_METHODS \<union> DOMESTIC_PAYMENT_METHODS = KNOWN_PAYMENT_METHODS"
  "CARD_PAYMENT_METHODS \<inter> IRS_1099_REPORTABLE_METHODS = {}"
  "fst ` set CORRIDOR_OVERRIDE_FEES = KNOWN_PAYMENT_METHODS"
  by (auto simp: INTERNATIONAL_PAYMENT_METHODS_def DOMESTIC_PAYMENT_METHODS_def KNOWN_PAYMENT_METHODS_def
      CARD_PAYMENT_METHODS_def IRS_1099_REPORTABLE_METHODS_def CORRIDOR_OVERRIDE_FEES_def)

text \<open>
  A payment rides a rail that is not international only inside one country: same
  currency, US dollars in the US or pounds in the UK. It needs an FX leg exactly when the two
  currencies differ, and then a BIC is demanded on every rail. The default rail of a run never
  survives a border.
\<close>

theorem corridor_crosses_no_border_domestically:
  "let c = pick_corridor sc tc country requested; dest = py_upper (get_or country [])
   in (co_fx c \<longleftrightarrow> py_upper sc \<noteq> py_upper tc)
      \<and> (co_fx c \<longrightarrow> co_swift c \<and> co_method c \<in> INTERNATIONAL_PAYMENT_METHODS)
      \<and> (co_method c \<notin> INTERNATIONAL_PAYMENT_METHODS \<longrightarrow>
           py_upper sc = py_upper tc
           \<and> ((py_upper tc = ''USD'' \<and> dest \<in> {[], ''US''}) \<or> (py_upper tc = ''GBP'' \<and> dest \<in> {[], ''GB''})))
      \<and> (co_method c = ''sepa'' \<longrightarrow> co_iban c)"
proof -
  have w: "''international_wire'' \<in> INTERNATIONAL_PAYMENT_METHODS"
    "''sepa'' \<in> INTERNATIONAL_PAYMENT_METHODS" "''international_ach'' \<in> INTERNATIONAL_PAYMENT_METHODS"
    by (simp_all add: INTERNATIONAL_PAYMENT_METHODS_def)
  have uk: "m \<in> UK_DOMESTIC_METHODS \<Longrightarrow> m \<notin> INTERNATIONAL_PAYMENT_METHODS \<and> m \<noteq> ''sepa''" for m
    by (auto simp: UK_DOMESTIC_METHODS_def INTERNATIONAL_PAYMENT_METHODS_def)
  show ?thesis
    by (auto simp: pick_corridor_def honor_override_def override_corridor_def Let_def w
        is_international_payment_method_def dest: uk)
qed

text \<open>An override to ACH for euros paid from dollars to Germany, which the corridor turns into a wire.\<close>

theorem corridor_witness:
  "let c = pick_corridor ''usd'' ''EUR'' (Some ''de'') (Some ''ach'')
   in co_fx c \<and> co_swift c \<and> co_method c = ''international_wire'' \<and> co_iban c"
proof -
  have c: "pick_corridor ''usd'' ''EUR'' (Some ''de'') (Some ''ach'')
      = \<lparr>co_method = ''international_wire'', co_fee = FEE_INTL_WIRE, co_hint = ''wise'', co_fx = True,
         co_swift = True, co_iban = True\<rparr>"
    by code_simp
  show ?thesis
    using corridor_crosses_no_border_domestically [of "''usd''" "''EUR''" "Some ''de''" "Some ''ach''"]
    by (simp add: c Let_def)
qed

lemma fx_leg_Inr:
  assumes "fx_leg amt sc tc get_rate = Inr (s, rate, ts)" "rate \<noteq> PosInf"
  shows "\<exists>r. rate = Fin r \<and> 0 < r \<and> s = round_half_up 2 (ctx_div amt r)"
proof -
  obtain a b where g: "get_rate sc tc = Inr (a, b)" using assms(1) by (auto simp: fx_leg_def)
  show ?thesis using assms g by (cases a) (auto simp: fx_leg_def dest!: quantize_money_Inr split: if_splits)
qed

end
