(* ===== verification/Payment_Runs.thy ===== *)
theory Payment_Runs
  imports Payment_Controls International Exceptions
begin

text \<open>
  Building a payment run (services/payment_runs.py, with the status tuples of api/payments.py and
  the card lookup of services/card_issuance.py).

  A query over a table is a filter of its rows. The partial unique index
  \<open>uq_payments_one_live_per_invoice\<close> is the check of \<open>insert_payments\<close>, which raises
  IntegrityError as the flush does; the savepoint around it leaves the session as it was.
\<close>

section \<open>Status buckets\<close>

definition PAYABLE_INVOICE_STATUSES :: "invoice_status list" where
  "PAYABLE_INVOICE_STATUSES = [Approved, Posted_in_erp, Payment_scheduled]"

definition SCHEDULABLE_INVOICE_STATUSES :: "invoice_status list" where
  "SCHEDULABLE_INVOICE_STATUSES =
     filter (\<lambda>s. Payment_scheduled \<in> set (VALID_TRANSITIONS s)) PAYABLE_INVOICE_STATUSES"

definition LIVE_PAYMENT_TERMINAL_STATUSES :: "string list" where
  "LIVE_PAYMENT_TERMINAL_STATUSES = [''voided'', ''failed'', ''cancelled'']"

definition RUN_PAYMENT_COMPLETED_STATUSES :: "string list" where
  "RUN_PAYMENT_COMPLETED_STATUSES = [''completed'']"

definition RUN_PAYMENT_FAILED_STATUSES :: "string list" where
  "RUN_PAYMENT_FAILED_STATUSES = [''failed'', ''cancelled'', ''voided'']"

definition RUN_PAYMENT_IN_FLIGHT_STATUSES :: "string list" where
  "RUN_PAYMENT_IN_FLIGHT_STATUSES = [''submitted'', ''processing'', ''pending_compliance'']"

definition RUN_PAYMENT_PENDING_STATUSES :: "string list" where
  "RUN_PAYMENT_PENDING_STATUSES = [''pending'']"

section \<open>The rollup\<close>

record PaymentRunRollup =
  rl_total :: nat
  rl_completed :: nat
  rl_failed :: nat
  rl_in_flight :: nat
  rl_pending :: nat

definition run_status :: "PaymentRunRollup \<Rightarrow> string" where
  "run_status r =
     (if rl_failed r \<noteq> 0 \<and> \<not> (rl_completed r \<noteq> 0 \<or> rl_in_flight r \<noteq> 0) then ''failed''
      else if rl_failed r \<noteq> 0 then ''partial''
      else if rl_in_flight r \<noteq> 0 then ''submitted''
      else if rl_total r = 0 then ''draft''
      else if rl_pending r \<noteq> 0 then ''executing''
      else if rl_completed r = rl_total r then ''completed''
      else if rl_completed r \<noteq> 0 then ''partial'' else ''failed'')"

definition CLAIM_RUN_STATUSES :: "string list" where
  "CLAIM_RUN_STATUSES = [''draft'', ''executing'', ''cancelled'']"

definition derive_run_status :: "string \<Rightarrow> PaymentRunRollup \<Rightarrow> string" where
  "derive_run_status persisted r =
     (let st = (if persisted = [] then ''draft'' else persisted)
      in if st \<in> set CLAIM_RUN_STATUSES then st else run_status r)"

definition superseded_payment_ids :: "payment list \<Rightarrow> uuid set" where
  "superseded_payment_ids ps = set (List.map_filter pm_retry_of ps)"

definition active_run_payments :: "payment list \<Rightarrow> payment list" where
  "active_run_payments ps = filter (\<lambda>p. pm_id p \<notin> superseded_payment_ids ps) ps"

definition tally :: "PaymentRunRollup \<Rightarrow> string \<Rightarrow> PaymentRunRollup" where
  "tally r st =
     (let r' = r\<lparr>rl_total := rl_total r + 1\<rparr>
      in if st \<in> set RUN_PAYMENT_COMPLETED_STATUSES then r'\<lparr>rl_completed := rl_completed r + 1\<rparr>
         else if st \<in> set RUN_PAYMENT_FAILED_STATUSES then r'\<lparr>rl_failed := rl_failed r + 1\<rparr>
         else if st \<in> set RUN_PAYMENT_IN_FLIGHT_STATUSES then r'\<lparr>rl_in_flight := rl_in_flight r + 1\<rparr>
         else if st \<in> set RUN_PAYMENT_PENDING_STATUSES then r'\<lparr>rl_pending := rl_pending r + 1\<rparr>
         else r')"

definition rollup_payment_statuses :: "string list \<Rightarrow> PaymentRunRollup" where
  "rollup_payment_statuses sts =
     foldl tally \<lparr>rl_total = 0, rl_completed = 0, rl_failed = 0, rl_in_flight = 0, rl_pending = 0\<rparr> sts"

definition run_payments :: "pay_db \<Rightarrow> uuid \<Rightarrow> payment list" where
  "run_payments db i = filter (\<lambda>p. pm_run p = Some i) (payments db)"

definition active_rollup :: "pay_db \<Rightarrow> uuid \<Rightarrow> PaymentRunRollup" where
  "active_rollup db i = rollup_payment_statuses (map pm_status (active_run_payments (run_payments db i)))"

definition recompute_run_status :: "pay_db \<Rightarrow> payment_run \<Rightarrow> pay_db" where
  "recompute_run_status db r = put_run (r\<lparr>pr_status := derive_run_status (pr_status r) (active_rollup db (pr_id r))\<rparr>) db"

section \<open>Failures that are safe to repeat\<close>

datatype failure_class = RetrySafe | InDoubt

definition RETRY_SAFE_FAILURE_PREFIXES :: "string list" where
  "RETRY_SAFE_FAILURE_PREFIXES =
     [''compliance_refusal:'', ''compliance_dismissed'', ''international_payment_error:'',
      ''card_issuance_conflict'', ''card_issuance_failed'', ''cards_not_enabled'', ''method '' @ [char_of (39 :: nat)],
      ''net_amount_changed'', ''invoice_not_payable'', ''invoice_blocked:'', ''invoice_has_live_card'']"

definition RETRY_SAFE_FAILURE_SUFFIXES :: "string list" where
  "RETRY_SAFE_FAILURE_SUFFIXES =
     [''_not_configured'', ''_no_counterparty'', ''_no_external_account'',
      ''_no_destination_funding_source'', ''_missing_mailing_address'', ''_idempotency_unavailable'']"

definition classify_payment_failure :: "string option \<Rightarrow> string option \<Rightarrow> failure_class" where
  "classify_payment_failure failure_reason provider_id =
     (if get_or provider_id [] \<noteq> [] then InDoubt
      else let reason = py_strip (get_or failure_reason [])
           in if reason = [] then InDoubt
              else if list_ex (\<lambda>p. starts_with p reason) RETRY_SAFE_FAILURE_PREFIXES then RetrySafe
              else if list_ex (\<lambda>p. ends_with p reason) RETRY_SAFE_FAILURE_SUFFIXES then RetrySafe
              else InDoubt)"

definition is_retry_safe :: "payment \<Rightarrow> bool" where
  "is_retry_safe p \<longleftrightarrow> classify_payment_failure (pm_failure p) (pm_provider_id p) = RetrySafe"

section \<open>What keeps an invoice from being paid\<close>

definition type_rank :: "string \<Rightarrow> nat" where
  "type_rank t = length (takeWhile (\<lambda>u. u \<noteq> t) PAYMENT_BLOCKING_EXCEPTION_TYPES)"

definition blocks_payment :: "exc_row \<Rightarrow> bool" where
  "blocks_payment e \<longleftrightarrow>
     ex_type e \<in> set PAYMENT_BLOCKING_EXCEPTION_TYPES \<and> ex_status e \<notin> {''resolved'', ''dismissed''}"

fun keep_worst :: "exc_row list \<Rightarrow> (uuid \<rightharpoonup> string) \<Rightarrow> (uuid \<rightharpoonup> string)" where
  "keep_worst [] out = out"
| "keep_worst (e # es) out =
     (case ex_invoice e of
        None \<Rightarrow> keep_worst es out
      | Some i \<Rightarrow>
          keep_worst es
            (case out i of
               None \<Rightarrow> out(i \<mapsto> ex_type e)
             | Some held \<Rightarrow> if type_rank (ex_type e) < type_rank held then out(i \<mapsto> ex_type e) else out))"

definition blocking_exception_types :: "pay_db \<Rightarrow> uuid list \<Rightarrow> (uuid \<rightharpoonup> string)" where
  "blocking_exception_types db ids =
     (if ids = [] then Map.empty
      else keep_worst
             (filter (\<lambda>e. (case ex_invoice e of None \<Rightarrow> False | Some i \<Rightarrow> i \<in> set ids) \<and> blocks_payment e)
                (exceptions (core db)))
             Map.empty)"

definition blocked_invoice_ids :: "pay_db \<Rightarrow> uuid list \<Rightarrow> uuid set" where
  "blocked_invoice_ids db ids = dom (blocking_exception_types db ids)"

definition live_card_invoice_ids :: "pay_db \<Rightarrow> uuid list \<Rightarrow> uuid set" where
  "live_card_invoice_ids db ids =
     set (map vc_invoice (filter (\<lambda>c. vc_invoice c \<in> set ids \<and> vc_status c \<noteq> ''cancelled'') (cards db)))"

definition CARD_CONVERGING_METHODS :: "string set" where
  "CARD_CONVERGING_METHODS = {''virtual_card''}"

definition card_claimed_invoice_ids :: "pay_db \<Rightarrow> (uuid \<times> string option) list \<Rightarrow> uuid set" where
  "card_claimed_invoice_ids db items =
     (let candidates = map fst (filter (\<lambda>(i, m). normalize_payment_method m \<notin> CARD_CONVERGING_METHODS) items)
      in if candidates = [] then {} else live_card_invoice_ids db candidates)"

definition applied_credit_total :: "pay_db \<Rightarrow> uuid \<Rightarrow> rat" where
  "applied_credit_total db i =
     sum_list (map cm_amount (filter (\<lambda>c. cm_invoice c = Some i \<and> cm_status c = ''applied'') (memos db)))"

definition net_payable_amount :: "pay_db \<Rightarrow> invoice \<Rightarrow> rat" where
  "net_payable_amount db iv = amount iv - applied_credit_total db (inv_id iv)"

definition is_live :: "payment \<Rightarrow> bool" where
  "is_live p \<longleftrightarrow> pm_status p \<notin> set LIVE_PAYMENT_TERMINAL_STATUSES"

definition has_live_payment :: "pay_db \<Rightarrow> uuid \<Rightarrow> bool" where
  "has_live_payment db i \<longleftrightarrow> list_ex (\<lambda>p. pm_invoice p = i \<and> is_live p) (payments db)"

definition live_payment_invoices :: "pay_db \<Rightarrow> uuid list \<Rightarrow> uuid list" where
  "live_payment_invoices db ids =
     map inv_id (filter (\<lambda>iv. inv_id iv \<in> set ids \<and> has_live_payment db (inv_id iv)) (invoices (core db)))"

section \<open>Refusals\<close>

record RunRefusal =
  rf_reason :: string
  rf_only_method :: "string option"

definition CARD_CLAIM_ONLY_METHOD :: "string option" where
  "CARD_CLAIM_ONLY_METHOD = Some ''virtual_card''"

definition refusal_of ::
    "(uuid \<rightharpoonup> string) \<Rightarrow> uuid set \<Rightarrow> (uuid \<Rightarrow> rat) \<Rightarrow> uuid list \<Rightarrow> uuid \<Rightarrow> RunRefusal option" where
  "refusal_of exc_types card_refused net live i =
     (case exc_types i of
        Some t \<Rightarrow> Some \<lparr>rf_reason = t, rf_only_method = None\<rparr>
      | None \<Rightarrow>
          if i \<in> card_refused
          then Some \<lparr>rf_reason = ''live_virtual_card'', rf_only_method = CARD_CLAIM_ONLY_METHOD\<rparr>
          else if net i \<le> 0 then Some \<lparr>rf_reason = ''fully_credited'', rf_only_method = None\<rparr>
          else if i \<in> set live then Some \<lparr>rf_reason = ''live_payment'', rf_only_method = None\<rparr>
          else None)"

text \<open>\<open>methods\<close> maps an invoice to the rail asked for; a missing one counts as \<open>None\<close>.\<close>

definition run_refusal_reasons ::
    "pay_db \<Rightarrow> invoice list \<Rightarrow> (uuid \<rightharpoonup> string) \<Rightarrow> (uuid \<times> RunRefusal) list" where
  "run_refusal_reasons db ivs methods =
     (let ids = map inv_id ivs;
          exc_types = blocking_exception_types db ids;
          card_refused = card_claimed_invoice_ids db (map (\<lambda>i. (i, methods i)) ids);
          net = (\<lambda>i. case find (\<lambda>iv. inv_id iv = i) ivs of None \<Rightarrow> 0 | Some iv \<Rightarrow> net_payable_amount db iv);
          live = live_payment_invoices db ids
      in List.map_filter (\<lambda>i. map_option (Pair i) (refusal_of exc_types card_refused net live i)) ids)"

definition REFUSAL_ORDER :: "string list" where
  "REFUSAL_ORDER = [''live_virtual_card'', ''fully_credited'', ''live_payment'']"

definition REFUSAL_MESSAGES :: "string \<Rightarrow> string" where
  "REFUSAL_MESSAGES reason =
     (if reason = ''live_virtual_card'' then ''Invoice(s) already have a live virtual card''
      else if reason = ''fully_credited'' then ''Invoice(s) fully covered by applied credit memos''
      else ''Invoice(s) already have a live payment scheduled'')"

definition raise_refusal :: "(uuid \<times> RunRefusal) list \<Rightarrow> py_exc" where
  "raise_refusal refusals =
     (let reasons = map (rf_reason \<circ> snd) refusals
      in if list_ex (\<lambda>r. r \<in> set PAYMENT_BLOCKING_EXCEPTION_TYPES) reasons
         then HTTPException 409 ''Invoice(s) have an unresolved payment-blocking exception''
         else case find (\<lambda>r. r \<in> set reasons) REFUSAL_ORDER of
           Some r \<Rightarrow> HTTPException 409 (REFUSAL_MESSAGES r)
         | None \<Rightarrow> HTTPException 409 ''Invoice(s) can not be paid right now'')"

section \<open>Building a run\<close>

text \<open>What a request brings: the clock, the tenant, the actor, and fresh identifiers.\<close>

record pay_env =
  pe_now :: time
  pe_org :: uuid
  pe_settings :: json
  pe_platform_currency :: string
  pe_user :: uuid
  pe_user_name :: string
  pe_user_is_cfo :: bool
  pe_fresh_run :: uuid
  pe_fresh_payment :: "uuid \<Rightarrow> uuid"
  pe_fresh_key :: "uuid \<Rightarrow> uuid"
  pe_fresh_exception :: "uuid \<Rightarrow> uuid"
  pe_audit_key :: uuid
  pe_role_users :: role_lookup
  pe_occurrence :: uuid
  pe_money_text :: "rat \<Rightarrow> string"

record run_item =
  ri_invoice :: uuid
  ri_method :: string

record run_result =
  rr_run :: payment_run
  rr_total :: rat
  rr_count :: nat
  rr_created :: bool

definition payment_settings :: "json \<Rightarrow> json py" where
  "payment_settings org_settings = or_empty_get org_settings ''payments''"

definition existing_run_for_plan :: "pay_db \<Rightarrow> string \<Rightarrow> run_result option" where
  "existing_run_for_plan db plan =
     (case find (\<lambda>r. pr_plan r = Some plan) (runs db) of
        None \<Rightarrow> None
      | Some r \<Rightarrow> Some \<lparr>rr_run = r, rr_total = pr_total r, rr_count = length (run_payments db (pr_id r)),
                        rr_created = False\<rparr>)"

definition in_scope :: "uuid option \<Rightarrow> uuid option \<Rightarrow> bool" where
  "in_scope scope entity \<longleftrightarrow> scope = None \<or> entity = scope"

definition scoped_invoices :: "pay_db \<Rightarrow> uuid list \<Rightarrow> uuid option \<Rightarrow> invoice list" where
  "scoped_invoices db ids scope =
     filter (\<lambda>iv. inv_id iv \<in> set ids \<and> in_scope scope (inv_entity iv)) (invoices (core db))"

text \<open>The loop that adds up what the run pays, in its own currency and in the reporting currency.\<close>

fun add_up :: "string \<Rightarrow> (invoice \<times> rat) list \<Rightarrow> rat \<times> rat \<times> bool \<Rightarrow> (rat \<times> rat \<times> bool) py" where
  "add_up rc [] acc = Inr acc"
| "add_up rc ((iv, net) # rest) (tot, reporting_total, unconverted) =
     py_bind (reporting_amount_at_locked_rate net (Some (currency iv)) rc (reporting_currency iv)
                (reporting_source_currency iv) (reporting_fx_rate iv)) (\<lambda>(reported, u).
       add_up rc rest (tot + net, reporting_total + reported, unconverted \<or> u))"

definition fresh_payment :: "pay_env \<Rightarrow> uuid option \<Rightarrow> uuid option \<Rightarrow> invoice \<Rightarrow> rat \<Rightarrow> string option \<Rightarrow> payment" where
  "fresh_payment env run retry_of iv amt m =
     \<lparr>pm_id = pe_fresh_payment env (inv_id iv), pm_correlation = Some (pe_fresh_key env (inv_id iv)),
      pm_invoice = inv_id iv, pm_run = run, pm_amount = amt, pm_method = m, pm_status = ''pending'',
      pm_reference = None, pm_provider = None, pm_provider_id = None, pm_failure = None,
      pm_retry_of = retry_of, pm_submitted_at = None, pm_completed_at = None, pm_settled = None,
      pm_settled_currency = None, pm_unstorable = False, pm_source_currency = None,
      pm_source_amount = None, pm_fx_rate = None, pm_fx_locked_at = None, pm_corridor = None,
      pm_country = None, pm_entity = inv_entity iv\<rparr>"

text \<open>The flush of new rows, against the partial unique index.\<close>

fun insert_payments :: "payment list \<Rightarrow> pay_db \<Rightarrow> pay_db py" where
  "insert_payments [] db = Inr db"
| "insert_payments (p # ps) db =
     (if is_live p \<and> has_live_payment db (pm_invoice p) then Inl IntegrityError
      else insert_payments ps (db\<lparr>payments := payments db @ [p]\<rparr>))"

definition run_details :: "pay_env \<Rightarrow> rat \<Rightarrow> nat \<Rightarrow> CfoThresholdDecision \<Rightarrow> string option \<Rightarrow> jdict" where
  "run_details env tot n cfo plan =
     [(''total_amount'', JStr (pe_money_text env tot)), (''payment_count'', JInt (int n)),
      (''requires_cfo_approval'', JBool (cfo_required cfo)), (''plan_id'', json_of_option plan),
      (''cfo_threshold_currency'', JStr (cfo_currency cfo)),
      (''cfo_evaluated_amount'', json_of_option (map_option (pe_money_text env) (cfo_evaluated cfo))),
      (''cfo_reason'', json_of_option (cfo_reason cfo))]"

definition audit_pay ::
    "pay_env \<Rightarrow> uuid \<Rightarrow> string \<Rightarrow> string \<Rightarrow> uuid \<Rightarrow> jdict \<Rightarrow> pay_db \<Rightarrow> pay_db" where
  "audit_pay env corr action entity i details db =
     db\<lparr>core := dispatch_audit (core db) corr (pe_org env) (Some (pe_user env)) action entity i details\<rparr>"

text \<open>The last part of \<open>create_payment_run_for_invoices\<close>: the run, its payments, the audit row.
  When the index refuses a row, the run of the plan is looked up again and then the refusal raised.\<close>

definition stage_run ::
    "pay_env \<Rightarrow> pay_db \<Rightarrow> uuid \<Rightarrow> run_item list \<Rightarrow> (uuid \<rightharpoonup> invoice) \<Rightarrow> rat \<Rightarrow> CfoThresholdDecision
       \<Rightarrow> string option \<Rightarrow> (run_result \<times> pay_db) py" where
  "stage_run env db entity items ivs tot cfo plan =
     (let r = \<lparr>pr_id = pe_fresh_run env, pr_status = ''draft'', pr_total = tot,
               pr_initiated_by = Some (pe_user env), pr_executed_at = None,
               pr_requires_cfo = cfo_required cfo, pr_cfo_by = None, pr_cfo_at = None, pr_plan = plan,
               pr_org = pe_org env, pr_entity = Some entity\<rparr>;
          rows = List.map_filter (\<lambda>it. map_option (\<lambda>iv.
                   fresh_payment env (Some (pr_id r)) None iv (net_payable_amount db iv)
                     (Some (ri_method it))) (ivs (ri_invoice it))) items
      in case insert_payments rows (db\<lparr>runs := runs db @ [r]\<rparr>) of
           Inl e \<Rightarrow>
             (case (case plan of None \<Rightarrow> None | Some pl \<Rightarrow> existing_run_for_plan db pl) of
                Some res \<Rightarrow> Inr (res, db)
              | None \<Rightarrow>
                  Inl (HTTPException 409
                    (if live_payment_invoices db (map ri_invoice items) \<noteq> []
                     then ''Invoice(s) already have a live payment scheduled''
                     else ''One or more invoices already have a live payment scheduled.'')))
         | Inr db1 \<Rightarrow>
             Inr (\<lparr>rr_run = r, rr_total = tot, rr_count = length items, rr_created = True\<rparr>,
                  audit_pay env (pe_audit_key env) ''payment_run.created'' ''payment_run'' (pr_id r)
                    (run_details env tot (length items) cfo plan) db1))"

definition create_payment_run_for_invoices ::
    "pay_env \<Rightarrow> pay_db \<Rightarrow> uuid \<Rightarrow> uuid option \<Rightarrow> run_item list \<Rightarrow> string option \<Rightarrow> (run_result \<times> pay_db) py"
  where
  "create_payment_run_for_invoices env db entity scope items plan =
     (if items = [] then Inl (HTTPException 422 ''At least one invoice is required'')
      else case (case plan of None \<Rightarrow> None | Some pl \<Rightarrow> existing_run_for_plan db pl) of
        Some res \<Rightarrow> Inr (res, db)
      | None \<Rightarrow>
        let ids = map ri_invoice items;
            rows = scoped_invoices db ids scope;
            ivs = (\<lambda>i. find (\<lambda>iv. inv_id iv = i) rows);
            methods = map_of (rev (map (\<lambda>it. (ri_invoice it, ri_method it)) items))
        in if length (remdups (map inv_id rows)) \<noteq> length ids then Inl (HTTPException 404 ''One or more invoices not found'')
           else if 1 < card ((\<lambda>iv. if currency iv = [] then ''USD'' else currency iv) ` set rows)
           then Inl (HTTPException 422 ''must share the same currency'')
           else if list_ex (\<lambda>iv. status iv \<notin> set PAYABLE_INVOICE_STATUSES) rows
           then Inl (HTTPException 409 ''Invoice(s) not approved for payment'')
           else let refusals = run_refusal_reasons db rows methods
           in if refusals \<noteq> [] then Inl (raise_refusal refusals)
           else py_bind (resolve_reporting_currency (pe_platform_currency env) (pe_settings env)) (\<lambda>rc.
                py_bind (add_up rc (List.map_filter (\<lambda>it. map_option (\<lambda>iv. (iv, net_payable_amount db iv))
                                       (ivs (ri_invoice it))) items) (0, 0, False))
                  (\<lambda>(tot, reporting_total, unconverted).
                py_bind (payment_settings (pe_settings env)) (\<lambda>cfg.
                py_bind (cfo_approval_decision cfg reporting_total rc unconverted) (\<lambda>cfo.
                  stage_run env db entity items ivs tot cfo plan)))))"

section \<open>The rollup counts\<close>

definition count_in :: "string list \<Rightarrow> string list \<Rightarrow> nat" where
  "count_in bucket sts = length (filter (\<lambda>s. s \<in> set bucket) sts)"

lemmas bucket_defs = RUN_PAYMENT_COMPLETED_STATUSES_def RUN_PAYMENT_FAILED_STATUSES_def
  RUN_PAYMENT_IN_FLIGHT_STATUSES_def RUN_PAYMENT_PENDING_STATUSES_def

lemma rollup_snoc: "rollup_payment_statuses (sts @ [s]) = tally (rollup_payment_statuses sts) s"
  by (simp add: rollup_payment_statuses_def)

lemma rollup_counts:
  "rl_total (rollup_payment_statuses sts) = length sts
   \<and> rl_completed (rollup_payment_statuses sts) = count_in RUN_PAYMENT_COMPLETED_STATUSES sts
   \<and> rl_failed (rollup_payment_statuses sts) = count_in RUN_PAYMENT_FAILED_STATUSES sts
   \<and> rl_in_flight (rollup_payment_statuses sts) = count_in RUN_PAYMENT_IN_FLIGHT_STATUSES sts
   \<and> rl_pending (rollup_payment_statuses sts) = count_in RUN_PAYMENT_PENDING_STATUSES sts"
proof (induction sts rule: rev_induct)
  case Nil
  then show ?case by (simp add: rollup_payment_statuses_def count_in_def)
next
  case (snoc s sts)
  then show ?case unfolding rollup_snoc
    by (auto simp: tally_def Let_def count_in_def bucket_defs)
qed

lemma count_in_0: "count_in b sts = 0 \<longleftrightarrow> (\<forall>s \<in> set sts. s \<notin> set b)"
  by (auto simp: count_in_def filter_empty_conv)

lemma count_in_all: "count_in b sts = length sts \<longleftrightarrow> (\<forall>s \<in> set sts. s \<in> set b)"
proof
  assume "count_in b sts = length sts"
  then have "length (filter (\<lambda>s. s \<in> set b) sts) = length sts" by (simp add: count_in_def)
  then show "\<forall>s \<in> set sts. s \<in> set b" by (metis length_filter_less nat_less_le)
qed (simp add: count_in_def)

lemma status_ladder:
  fixes F I D P C K :: bool
  defines "st \<equiv> (if F \<and> \<not> (K \<or> I) then ''failed'' else if F then ''partial'' else if I then ''submitted''
     else if D then ''draft'' else if P then ''executing'' else if C then ''completed''
     else if K then ''partial'' else ''failed'')"
  assumes "D \<Longrightarrow> \<not> F \<and> \<not> I" "\<not> D \<Longrightarrow> C \<Longrightarrow> \<not> F \<and> \<not> I \<and> \<not> P" "D \<Longrightarrow> \<not> P"
  shows "st = ''completed'' \<longleftrightarrow> \<not> D \<and> C" "st = ''draft'' \<longleftrightarrow> D" "st = ''submitted'' \<longleftrightarrow> \<not> F \<and> I"
    "st = ''executing'' \<longleftrightarrow> \<not> F \<and> \<not> I \<and> P"
    "st \<in> {''completed'', ''draft'', ''submitted'', ''executing'', ''partial'', ''failed''}"
    "F \<Longrightarrow> st \<in> {''partial'', ''failed''}"
  unfolding st_def using assms(2-) by (cases F; cases I; cases D; cases P; cases C; cases K; simp)+

text \<open>
  The status a run reports, in terms of its active payments. It is completed exactly when
  there is a payment and every one completed; draft exactly when there is none; submitted exactly
  when nothing failed and something is in flight; executing exactly when nothing failed or is in
  flight and something was never attempted; everything else offers a retry.
\<close>

theorem run_status_spec:
  "let st = run_status (rollup_payment_statuses sts);
       some_failed = (\<exists>s \<in> set sts. s \<in> {''failed'', ''cancelled'', ''voided''});
       in_flight = (\<exists>s \<in> set sts. s \<in> {''submitted'', ''processing'', ''pending_compliance''})
   in (st = ''completed'' \<longleftrightarrow> sts \<noteq> [] \<and> (\<forall>s \<in> set sts. s = ''completed''))
      \<and> (st = ''draft'' \<longleftrightarrow> sts = [])
      \<and> (st = ''submitted'' \<longleftrightarrow> \<not> some_failed \<and> in_flight)
      \<and> (st = ''executing'' \<longleftrightarrow> \<not> some_failed \<and> \<not> in_flight \<and> ''pending'' \<in> set sts)
      \<and> (st \<in> {''completed'', ''draft'', ''submitted'', ''executing'', ''partial'', ''failed''})
      \<and> (some_failed \<longrightarrow> st \<in> {''partial'', ''failed''})"
proof -
  define r where "r = rollup_payment_statuses sts"
  have c: "rl_completed r = rl_total r \<longleftrightarrow> (\<forall>s \<in> set sts. s = ''completed'')"
    "rl_failed r \<noteq> 0 \<longleftrightarrow> (\<exists>s \<in> set sts. s \<in> {''failed'', ''cancelled'', ''voided''})"
    "rl_in_flight r \<noteq> 0 \<longleftrightarrow> (\<exists>s \<in> set sts. s \<in> {''submitted'', ''processing'', ''pending_compliance''})"
    "rl_pending r \<noteq> 0 \<longleftrightarrow> ''pending'' \<in> set sts"
    "rl_total r = 0 \<longleftrightarrow> sts = []"
    using rollup_counts [of sts] count_in_all [of RUN_PAYMENT_COMPLETED_STATUSES sts]
    by (auto simp: r_def count_in_0 bucket_defs)
  define F where "F \<longleftrightarrow> (\<exists>s \<in> set sts. s \<in> {''failed'', ''cancelled'', ''voided''})"
  define I where "I \<longleftrightarrow> (\<exists>s \<in> set sts. s \<in> {''submitted'', ''processing'', ''pending_compliance''})"
  define C where "C \<longleftrightarrow> (\<forall>s \<in> set sts. s = ''completed'')"
  have e: "sts = [] \<Longrightarrow> \<not> F \<and> \<not> I" "sts \<noteq> [] \<Longrightarrow> C \<Longrightarrow> \<not> F \<and> \<not> I \<and> ''pending'' \<notin> set sts"
    by (auto simp: F_def I_def C_def)
  note l = status_ladder [of "sts = []" F I C "''pending'' \<in> set sts" "rl_completed r \<noteq> 0", OF e]
  show ?thesis
    unfolding Let_def r_def [symmetric] run_status_def c F_def [symmetric] I_def [symmetric] C_def [symmetric]
    using l by simp
qed

theorem run_status_witness:
  "run_status (rollup_payment_statuses [''failed'', ''completed'']) \<in> {''partial'', ''failed''}"
  using run_status_spec [of "[''failed'', ''completed'']"] by (simp add: Let_def)

section \<open>Blocking exceptions\<close>

definition worse :: "string option \<Rightarrow> string \<Rightarrow> string option" where
  "worse held t =
     (case held of None \<Rightarrow> Some t | Some h \<Rightarrow> if type_rank t < type_rank h then Some t else Some h)"

definition types_for :: "uuid \<Rightarrow> exc_row list \<Rightarrow> string list" where
  "types_for i es = map ex_type (filter (\<lambda>e. ex_invoice e = Some i) es)"

lemma keep_worst_fold: "keep_worst es out i = foldl worse (out i) (types_for i es)"
proof (induction es out rule: keep_worst.induct)
  case (1 out)
  then show ?case by (simp add: types_for_def)
next
  case (2 e es out)
  show ?case
  proof (cases "ex_invoice e")
    case None
    with 2(1) show ?thesis by (simp add: types_for_def)
  next
    case (Some j)
    show ?thesis using 2(2) [OF Some] Some
      by (cases "i = j") (auto simp: types_for_def worse_def split: option.splits)
  qed
qed

lemma type_ranks [simp]:
  "type_rank ''duplicate'' = 0" "type_rank ''fraud_flag'' = 1"
  "type_rank ''line_total_mismatch'' = 2" "type_rank ''payment_reconciliation'' = 3"
  by (simp_all add: type_rank_def PAYMENT_BLOCKING_EXCEPTION_TYPES_def)

lemma foldl_worse:
  "set ts \<subseteq> set PAYMENT_BLOCKING_EXCEPTION_TYPES \<Longrightarrow>
     foldl worse None ts = find (\<lambda>t. t \<in> set ts) PAYMENT_BLOCKING_EXCEPTION_TYPES"
proof (induction ts rule: rev_induct)
  case Nil
  then show ?case by (simp add: PAYMENT_BLOCKING_EXCEPTION_TYPES_def)
next
  case (snoc t ts)
  then have t: "t \<in> set PAYMENT_BLOCKING_EXCEPTION_TYPES"
    and IH: "foldl worse None ts = find (\<lambda>t. t \<in> set ts) PAYMENT_BLOCKING_EXCEPTION_TYPES" by simp_all
  from t have "t = ''duplicate'' \<or> t = ''fraud_flag'' \<or> t = ''line_total_mismatch'' \<or> t = ''payment_reconciliation''"
    by (simp add: PAYMENT_BLOCKING_EXCEPTION_TYPES_def)
  then have "worse (find (\<lambda>t. t \<in> set ts) PAYMENT_BLOCKING_EXCEPTION_TYPES) t
      = find (\<lambda>u. u \<in> set (ts @ [t])) PAYMENT_BLOCKING_EXCEPTION_TYPES"
    by (elim disjE) (simp_all add: worse_def PAYMENT_BLOCKING_EXCEPTION_TYPES_def)
  then show ?case by (simp only: foldl_append foldl.simps IH)
qed

definition relevant :: "pay_db \<Rightarrow> uuid list \<Rightarrow> exc_row list" where
  "relevant db ids =
     filter (\<lambda>e. (case ex_invoice e of None \<Rightarrow> False | Some i \<Rightarrow> i \<in> set ids) \<and> blocks_payment e)
       (exceptions (core db))"

lemma relevant_types:
  "set (types_for i (relevant db ids)) = (if i \<in> set ids
      then {t. \<exists>e \<in> set (exceptions (core db)). ex_invoice e = Some i \<and> blocks_payment e \<and> ex_type e = t} else {})"
  by (auto simp: types_for_def relevant_def image_iff)

lemma blocking_lookup:
  "blocking_exception_types db ids i
     = find (\<lambda>t. t \<in> set (types_for i (relevant db ids))) PAYMENT_BLOCKING_EXCEPTION_TYPES"
proof -
  have sub: "set (types_for i (relevant db ids)) \<subseteq> set PAYMENT_BLOCKING_EXCEPTION_TYPES"
    by (auto simp: types_for_def relevant_def blocks_payment_def)
  have none: "find (\<lambda>t. False) xs = None" for xs :: "string list" by (simp add: find_None_iff_all)
  show ?thesis
    using foldl_worse [OF sub] relevant_types [of i db ids]
    by (auto simp: blocking_exception_types_def keep_worst_fold none simp flip: relevant_def)
qed

text \<open>
  The single pass over the exception rows keeps, for each invoice asked for, the type
  that comes first in the fixed tuple among its unresolved blocking exceptions, whatever the
  order the rows come in; the reference is a search of the tuple.
\<close>

theorem blocking_exception_types_reference:
  "blocking_exception_types db ids i =
     (if i \<in> set ids
      then find (\<lambda>t. \<exists>e \<in> set (exceptions (core db)). ex_invoice e = Some i \<and> blocks_payment e \<and> ex_type e = t)
             PAYMENT_BLOCKING_EXCEPTION_TYPES
      else None)"
proof -
  have none: "find (\<lambda>t. False) xs = None" for xs :: "string list" by (simp add: find_None_iff_all)
  show ?thesis by (simp add: blocking_lookup relevant_types none)
qed

lemma find_Some_ex: "(\<exists>t. find P xs = Some t) \<longleftrightarrow> (\<exists>x \<in> set xs. P x)"
  by (metis find_None_iff_all find_Some_props not_None_eq)

lemma blocked_iff:
  "i \<in> blocked_invoice_ids db ids \<longleftrightarrow>
     i \<in> set ids \<and> (\<exists>e \<in> set (exceptions (core db)). ex_invoice e = Some i \<and> blocks_payment e)"
proof -
  have "i \<in> blocked_invoice_ids db ids \<longleftrightarrow>
      (\<exists>t \<in> set PAYMENT_BLOCKING_EXCEPTION_TYPES. t \<in> set (types_for i (relevant db ids)))"
    by (simp add: blocked_invoice_ids_def dom_def blocking_lookup find_Some_ex)
  also have "\<dots> \<longleftrightarrow> i \<in> set ids \<and> (\<exists>e \<in> set (exceptions (core db)). ex_invoice e = Some i \<and> blocks_payment e)"
    unfolding relevant_types by (auto simp: blocks_payment_def)
  finally show ?thesis .
qed

section \<open>One live payment per invoice\<close>

definition live_count :: "pay_db \<Rightarrow> uuid \<Rightarrow> nat" where
  "live_count db i = length (filter (\<lambda>p. pm_invoice p = i \<and> is_live p) (payments db))"

definition one_live :: "pay_db \<Rightarrow> bool" where
  "one_live db \<longleftrightarrow> (\<forall>i. live_count db i \<le> 1)"

lemma has_live_iff: "has_live_payment db i \<longleftrightarrow> live_count db i \<noteq> 0"
  by (auto simp: has_live_payment_def live_count_def list_ex_iff filter_empty_conv)

lemma insert_payments_Inr:
  "insert_payments ps db = Inr db' \<Longrightarrow> db' = db\<lparr>payments := payments db @ ps\<rparr>"
  by (induction ps db rule: insert_payments.induct) (auto split: if_splits)

lemma insert_payments_one_live:
  "insert_payments ps db = Inr db' \<Longrightarrow> one_live db \<Longrightarrow> one_live db'"
proof (induction ps db rule: insert_payments.induct)
  case (2 p ps db)
  have "one_live (db\<lparr>payments := payments db @ [p]\<rparr>)"
    using 2(2,3) by (auto simp: one_live_def live_count_def has_live_iff split: if_splits)
  with 2 show ?case by (auto split: if_splits)
qed simp

lemma insert_payments_ok:
  assumes "distinct (map pm_invoice ps)" "\<And>p. p \<in> set ps \<Longrightarrow> \<not> has_live_payment db (pm_invoice p)"
  shows "insert_payments ps db = Inr (db\<lparr>payments := payments db @ ps\<rparr>)"
  using assms
proof (induction ps db rule: insert_payments.induct)
  case (2 p ps db)
  have "\<not> has_live_payment (db\<lparr>payments := payments db @ [p]\<rparr>) (pm_invoice q)" if "q \<in> set ps" for q
    using 2(2,3) that by (auto simp: has_live_payment_def)
  with 2 show ?case by auto
qed simp

section \<open>What a created run holds\<close>

lemma map_filter_total:
  "(\<And>x. x \<in> set xs \<Longrightarrow> f x = Some (g x)) \<Longrightarrow> List.map_filter f xs = map g xs"
  by (induction xs) (auto simp: List.map_filter_simps)

lemma add_up_total:
  "add_up rc rows (t, rt, u) = Inr (t', rt', u') \<Longrightarrow> t' = t + sum_list (map snd rows)"
proof (induction rows arbitrary: t rt u)
  case (Cons row rows)
  obtain iv net where row: "row = (iv, net)" by (cases row)
  with Cons.prems obtain r x where "add_up rc rows (t + net, rt + r, u \<or> x) = Inr (t', rt', u')" by auto
  from Cons.IH [OF this] show ?case by (simp add: row)
qed simp

lemma find_by_key: "distinct (map f xs) \<Longrightarrow> x \<in> set xs \<Longrightarrow> find (\<lambda>y. f y = f x) xs = Some x"
  by (induction xs) auto

text \<open>What a run may hold for one requested item.\<close>

definition item_payable :: "pay_db \<Rightarrow> uuid option \<Rightarrow> run_item \<Rightarrow> payment \<Rightarrow> bool" where
  "item_payable db scope it p \<longleftrightarrow>
     (\<exists>iv \<in> set (invoices (core db)).
        inv_id iv = ri_invoice it \<and> pm_invoice p = inv_id iv \<and> in_scope scope (inv_entity iv)
        \<and> status iv \<in> set PAYABLE_INVOICE_STATUSES
        \<and> (\<forall>e \<in> set (exceptions (core db)). ex_invoice e = Some (inv_id iv) \<longrightarrow> \<not> blocks_payment e)
        \<and> (normalize_payment_method (Some (ri_method it)) = ''virtual_card''
            \<or> (\<forall>c \<in> set (cards db). vc_invoice c = inv_id iv \<longrightarrow> vc_status c = ''cancelled''))
        \<and> \<not> has_live_payment db (inv_id iv)
        \<and> pm_amount p = net_payable_amount db iv \<and> 0 < pm_amount p
        \<and> pm_status p = ''pending'' \<and> pm_method p = Some (ri_method it))"

lemma card_claimed_iff:
  "i \<in> card_claimed_invoice_ids db items \<longleftrightarrow>
     (\<exists>m. (i, m) \<in> set items \<and> normalize_payment_method m \<noteq> ''virtual_card'')
     \<and> (\<exists>c \<in> set (cards db). vc_invoice c = i \<and> vc_status c \<noteq> ''cancelled'')"
proof -
  define cs where "cs = map fst (filter (\<lambda>(i, m). normalize_payment_method m \<notin> CARD_CONVERGING_METHODS) items)"
  have cs: "j \<in> set cs \<longleftrightarrow> (\<exists>m. (j, m) \<in> set items \<and> normalize_payment_method m \<noteq> ''virtual_card'')" for j
    by (force simp: cs_def CARD_CONVERGING_METHODS_def)
  have "i \<in> card_claimed_invoice_ids db items \<longleftrightarrow>
      i \<in> set cs \<and> (\<exists>c \<in> set (cards db). vc_invoice c = i \<and> vc_status c \<noteq> ''cancelled'')"
    unfolding card_claimed_invoice_ids_def Let_def cs_def [symmetric] live_card_invoice_ids_def by auto
  then show ?thesis by (simp add: cs)
qed

lemma no_refusal:
  assumes "run_refusal_reasons db rows methods = []" "iv \<in> set rows" "distinct (map inv_id rows)"
    "set rows \<subseteq> set (invoices (core db))"
  shows "\<And>e. e \<in> set (exceptions (core db)) \<Longrightarrow> ex_invoice e = Some (inv_id iv) \<Longrightarrow> \<not> blocks_payment e"
    and "normalize_payment_method (methods (inv_id iv)) = ''virtual_card''
            \<or> (\<forall>c \<in> set (cards db). vc_invoice c = inv_id iv \<longrightarrow> vc_status c = ''cancelled'')"
    and "0 < net_payable_amount db iv" and "\<not> has_live_payment db (inv_id iv)"
proof -
  let ?ids = "map inv_id rows" and ?i = "inv_id iv"
  let ?net = "\<lambda>i. case find (\<lambda>iv. inv_id iv = i) rows of None \<Rightarrow> 0 | Some iv \<Rightarrow> net_payable_amount db iv"
  have i: "?i \<in> set ?ids" using assms(2) by simp
  have "refusal_of (blocking_exception_types db ?ids) (card_claimed_invoice_ids db (map (\<lambda>i. (i, methods i)) ?ids))
      ?net (live_payment_invoices db ?ids) ?i = None"
    using assms(1) i
    unfolding run_refusal_reasons_def Let_def by (auto simp: List.map_filter_def filter_empty_conv)
  then have r: "blocking_exception_types db ?ids ?i = None"
    "?i \<notin> card_claimed_invoice_ids db (map (\<lambda>i. (i, methods i)) ?ids)"
    "0 < ?net ?i" "?i \<notin> set (live_payment_invoices db ?ids)"
    by (auto simp: refusal_of_def split: option.splits if_splits)
  have find: "find (\<lambda>iv. inv_id iv = ?i) rows = Some iv" using assms(3,2) by (rule find_by_key)
  show "\<not> blocks_payment e" if "e \<in> set (exceptions (core db))" "ex_invoice e = Some ?i" for e
    using r(1) i that blocked_iff [of ?i db ?ids] by (auto simp: blocked_invoice_ids_def dom_def)
  show "normalize_payment_method (methods ?i) = ''virtual_card''
      \<or> (\<forall>c \<in> set (cards db). vc_invoice c = ?i \<longrightarrow> vc_status c = ''cancelled'')"
  proof (rule disjCI)
    assume nc: "\<not> (\<forall>c \<in> set (cards db). vc_invoice c = ?i \<longrightarrow> vc_status c = ''cancelled'')"
    then show "normalize_payment_method (methods ?i) = ''virtual_card''"
      using r(2) i nc by (auto simp: card_claimed_iff)
  qed
  show "0 < net_payable_amount db iv" using r(3) find by simp
  show "\<not> has_live_payment db ?i"
    using r(4) i assms(2,4) by (auto simp: live_payment_invoices_def)
qed

lemma stage_run_created:
  assumes "stage_run env db entity items ivs t cfo plan = Inr (res, db')" "rr_created res"
    "\<And>it. it \<in> set items \<Longrightarrow> ivs (ri_invoice it) = Some (iv it)"
  shows "let rows = map (\<lambda>it. fresh_payment env (Some (pe_fresh_run env)) None (iv it)
                       (net_payable_amount db (iv it)) (Some (ri_method it))) items
         in payments db' = payments db @ rows \<and> runs db' = runs db @ [rr_run res]
            \<and> pr_id (rr_run res) = pe_fresh_run env
            \<and> pr_status (rr_run res) = ''draft'' \<and> pr_total (rr_run res) = t
            \<and> pr_requires_cfo (rr_run res) = cfo_required cfo \<and> pr_cfo_at (rr_run res) = None
            \<and> pr_initiated_by (rr_run res) = Some (pe_user env)
            \<and> core db' = dispatch_audit (core db) (pe_audit_key env) (pe_org env) (Some (pe_user env))
                 ''payment_run.created'' ''payment_run'' (pe_fresh_run env)
                 (run_details env t (length items) cfo plan)"
proof -
  have mf: "List.map_filter (\<lambda>it. map_option (\<lambda>v. f it v) (ivs (ri_invoice it))) items
      = map (\<lambda>it. f it (iv it)) items" for f :: "run_item \<Rightarrow> invoice \<Rightarrow> payment"
    by (rule map_filter_total) (simp add: assms(3))
  show ?thesis
    using assms(1,2)
    by (auto simp: stage_run_def Let_def mf existing_run_for_plan_def audit_pay_def
        dest!: insert_payments_Inr split: sum.splits option.splits)
qed

lemma created_run_cases:
  assumes "create_payment_run_for_invoices env db entity scope items plan = Inr (res, db')" "rr_created res"
  defines "rows \<equiv> scoped_invoices db (map ri_invoice items) scope"
  obtains rc t rt u cfg cfo where
    "length (remdups (map inv_id rows)) = length items"
    "card ((\<lambda>iv. if currency iv = [] then ''USD'' else currency iv) ` set rows) \<le> 1"
    "\<And>iv. iv \<in> set rows \<Longrightarrow> status iv \<in> set PAYABLE_INVOICE_STATUSES"
    "run_refusal_reasons db rows (map_of (rev (map (\<lambda>it. (ri_invoice it, ri_method it)) items))) = []"
    "resolve_reporting_currency (pe_platform_currency env) (pe_settings env) = Inr rc"
    "add_up rc (List.map_filter (\<lambda>it. map_option (\<lambda>iv. (iv, net_payable_amount db iv))
        (find (\<lambda>iv. inv_id iv = ri_invoice it) rows)) items) (0, 0, False) = Inr (t, rt, u)"
    "payment_settings (pe_settings env) = Inr cfg"
    "cfo_approval_decision cfg rt rc u = Inr cfo"
    "stage_run env db entity items (\<lambda>i. find (\<lambda>iv. inv_id iv = i) rows) t cfo plan = Inr (res, db')"
  using assms(1,2) unfolding create_payment_run_for_invoices_def Let_def rows_def [symmetric]
  by (auto simp: existing_run_for_plan_def list_ex_iff not_less split: if_splits option.splits)

lemma all_items_found:
  assumes "length (remdups (map inv_id rows)) = length items" "set (map inv_id rows) \<subseteq> set (map ri_invoice items)"
  shows "distinct (map ri_invoice items)" "set (map inv_id rows) = set (map ri_invoice items)"
proof -
  have c: "card (set (map inv_id rows)) = length (map ri_invoice items)"
    using assms(1) by (simp add: length_remdups_card_conv)
  then have "card (set (map inv_id rows)) \<ge> card (set (map ri_invoice items))"
    using card_length [of "map ri_invoice items"] by simp
  then show e: "set (map inv_id rows) = set (map ri_invoice items)"
    using assms(2) by (metis List.finite_set card_seteq)
  show "distinct (map ri_invoice items)" using c unfolding e by (rule card_distinct)
qed

lemma sum_list_map_snd_map: "sum_list (map snd (map (\<lambda>x. (f x, g x)) xs)) = sum_list (map g xs)"
  by (simp add: comp_def)

text \<open>
  C13: A run that is created holds exactly one pending payment per requested invoice, no
  invoice twice. Every invoice is in the caller's entity, approved for payment, free of
  unresolved blocking exceptions, of a live payment and (on any rail but the card's) of a live
  card; every payment moves the positive amount net of applied credit, and the run's total
  is their sum. The run is a draft of the caller's that nobody has signed off.
\<close>

theorem created_run_spec:
  assumes "distinct (map inv_id (invoices (core db)))"
    "create_payment_run_for_invoices env db entity scope items plan = Inr (res, db')" "rr_created res"
  shows "\<exists>rows. payments db' = payments db @ rows \<and> runs db' = runs db @ [rr_run res]
     \<and> list_all2 (item_payable db scope) items rows
     \<and> distinct (map pm_invoice rows) \<and> (\<forall>p \<in> set rows. pm_run p = Some (pr_id (rr_run res)))
     \<and> pr_total (rr_run res) = sum_list (map pm_amount rows)
     \<and> pr_status (rr_run res) = ''draft'' \<and> pr_initiated_by (rr_run res) = Some (pe_user env)
     \<and> pr_cfo_at (rr_run res) = None"
proof -
  define R where "R = scoped_invoices db (map ri_invoice items) scope"
  obtain rc t rt u cfg cfo where c:
    "length (remdups (map inv_id R)) = length items"
    "\<And>iv. iv \<in> set R \<Longrightarrow> status iv \<in> set PAYABLE_INVOICE_STATUSES"
    "run_refusal_reasons db R (map_of (rev (map (\<lambda>it. (ri_invoice it, ri_method it)) items))) = []"
    "add_up rc (List.map_filter (\<lambda>it. map_option (\<lambda>iv. (iv, net_payable_amount db iv))
        (find (\<lambda>iv. inv_id iv = ri_invoice it) R)) items) (0, 0, False) = Inr (t, rt, u)"
    "stage_run env db entity items (\<lambda>i. find (\<lambda>iv. inv_id iv = i) R) t cfo plan = Inr (res, db')"
    by (rule created_run_cases [OF assms(2,3), folded R_def]) blast
  have sub: "set (map inv_id R) \<subseteq> set (map ri_invoice items)"
    and Rdb: "set R \<subseteq> set (invoices (core db))"
    and dR: "distinct (map inv_id R)"
    using assms(1) by (auto simp: R_def scoped_invoices_def distinct_map_filter)
  note found = all_items_found [OF c(1) sub]
  define iv where "iv it = the (find (\<lambda>iv. inv_id iv = ri_invoice it) R)" for it :: run_item
  have f: "find (\<lambda>v. inv_id v = ri_invoice it) R = Some (iv it) \<and> iv it \<in> set R \<and> inv_id (iv it) = ri_invoice it"
    if "it \<in> set items" for it :: run_item
  proof -
    from that have "ri_invoice it \<in> set (map inv_id R)" unfolding found(2) by simp
    then obtain v where "v \<in> set R" "inv_id v = ri_invoice it" by auto
    with find_by_key [OF dR this(1)] show ?thesis by (simp add: iv_def)
  qed
  define rows where "rows = map (\<lambda>it. fresh_payment env (Some (pe_fresh_run env)) None (iv it)
      (net_payable_amount db (iv it)) (Some (ri_method it))) items"
  have fi: "\<And>it. it \<in> set items \<Longrightarrow> find (\<lambda>v. inv_id v = ri_invoice it) R = Some (iv it)" using f by blast
  note st = stage_run_created [OF c(5) assms(3) fi, unfolded Let_def, folded rows_def]
  have meth: "map_of (rev (map (\<lambda>it. (ri_invoice it, ri_method it)) items)) (ri_invoice it) = Some (ri_method it)"
    if "it \<in> set items" for it :: run_item
    using that found(1)
    by (intro map_of_is_SomeI) (auto simp: comp_def simp flip: rev_map)
  have ok: "item_payable db scope it (fresh_payment env (Some (pe_fresh_run env)) None (iv it)
      (net_payable_amount db (iv it)) (Some (ri_method it)))" if "it \<in> set items" for it :: run_item
  proof -
    have v: "iv it \<in> set R" "inv_id (iv it) = ri_invoice it" using f [OF that] by simp_all
    note nr = no_refusal [OF c(3) v(1) dR Rdb]
    have "in_scope scope (inv_entity (iv it))" using v(1) by (simp add: R_def scoped_invoices_def)
    then show ?thesis
      unfolding item_payable_def
      using nr meth [OF that] c(2) [OF v(1)] v Rdb
      by (intro bexI [of _ "iv it"]) (auto simp: fresh_payment_def)
  qed
  have tot: "t = sum_list (map pm_amount rows)"
  proof -
    have "List.map_filter (\<lambda>it. map_option (\<lambda>iv. (iv, net_payable_amount db iv))
        (find (\<lambda>iv. inv_id iv = ri_invoice it) R)) items = map (\<lambda>it. (iv it, net_payable_amount db (iv it))) items"
      by (rule map_filter_total) (simp add: fi)
    with add_up_total [OF c(4)] show ?thesis
      by (simp add: rows_def fresh_payment_def comp_def)
  qed
  have ids: "map pm_invoice rows = map ri_invoice items"
    using f by (auto simp: rows_def fresh_payment_def)
  show ?thesis
  proof (intro exI [of _ rows] conjI)
    show "list_all2 (item_payable db scope) items rows"
      by (auto simp: rows_def list_all2_conv_all_nth intro!: ok)
    show "\<forall>p \<in> set rows. pm_run p = Some (pr_id (rr_run res))"
      using st by (auto simp: rows_def fresh_payment_def)
    show "distinct (map pm_invoice rows)" unfolding ids by (rule found(1))
    show "pr_total (rr_run res) = sum_list (map pm_amount rows)" using st tot by simp
  qed (use st in simp_all)
qed

definition sample_pay_env :: pay_env where
  "sample_pay_env =
     \<lparr>pe_now = 0, pe_org = 1, pe_settings = JNull, pe_platform_currency = ''USD'', pe_user = 30,
      pe_user_name = ''Ann'', pe_user_is_cfo = False, pe_fresh_run = 40, pe_fresh_payment = (\<lambda>i. i + 100),
      pe_fresh_key = (\<lambda>i. i + 200), pe_fresh_exception = (\<lambda>i. i + 400), pe_audit_key = 60,
      pe_role_users = (\<lambda>_ _. None), pe_occurrence = 70, pe_money_text = (\<lambda>_. [])\<rparr>"

definition sample_payable :: invoice where
  "sample_payable = sample_invoice\<lparr>status := Approved, currency := ''USD''\<rparr>"

definition sample_pay_db :: pay_db where
  "sample_pay_db =
     \<lparr>core = \<lparr>invoices = [sample_payable], definitions = [], instances = [], steps = [], users = [], audit = [],
        exceptions = [], outbox = []\<rparr>,
      payments = [], runs = [], memos = [\<lparr>cm_id = 80, cm_number = ''CM-1'', cm_vendor = 12, cm_invoice = Some 10, cm_amount = 25,
        cm_currency = ''USD'', cm_status = ''applied'', cm_applied_at = Some 0, cm_applied_by = Some ''Ann'', cm_entity = None\<rparr>],
      cards = [], vendors = [], orders = [], screenings = []\<rparr>"

lemma norm_usd [simp]: "norm_code ''USD'' = ''USD''" "norm_code [] = []"
  by code_simp+

lemma sample_run:
  "\<exists>res db'. create_payment_run_for_invoices sample_pay_env sample_pay_db 1 None
       [\<lparr>ri_invoice = 10, ri_method = ''ach''\<rparr>] None = Inr (res, db')
     \<and> rr_created res \<and> rr_total res = 75"
proof -
  have rc: "resolve_reporting_currency ''USD'' JNull = Inr ''USD''"
    by (simp add: resolve_reporting_currency_def or_empty_get_def dict_get_def configured_home_currency_def
        json_of_option_def normalize_currency_code_def Let_def)
  have q: "quantize_money 75 = Inr 75" by (rule quantize_money_scaled) (simp_all add: has_scale_def)
  show ?thesis
    by (simp add: create_payment_run_for_invoices_def sample_pay_env_def sample_pay_db_def scoped_invoices_def
        in_scope_def sample_payable_def sample_invoice_def PAYABLE_INVOICE_STATUSES_def run_refusal_reasons_def
        blocking_exception_types_def card_claimed_invoice_ids_def live_card_invoice_ids_def refusal_of_def
        net_payable_amount_def applied_credit_total_def live_payment_invoices_def has_live_payment_def
        List.map_filter_simps rc reporting_amount_at_locked_rate_def q payment_settings_def or_empty_get_def
        cfo_approval_decision_def stage_run_def is_live_def Let_def)
qed

theorem created_run_witness:
  "\<exists>res db' p. create_payment_run_for_invoices sample_pay_env sample_pay_db 1 None
       [\<lparr>ri_invoice = 10, ri_method = ''ach''\<rparr>] None = Inr (res, db')
     \<and> payments db' = [p] \<and> pm_invoice p = 10"
proof -
  obtain res db' where r: "create_payment_run_for_invoices sample_pay_env sample_pay_db 1 None
       [\<lparr>ri_invoice = 10, ri_method = ''ach''\<rparr>] None = Inr (res, db')" "rr_created res"
    using sample_run by blast
  have d: "distinct (map inv_id (invoices (core sample_pay_db)))" by (simp add: sample_pay_db_def)
  obtain p where "payments db' = payments sample_pay_db @ [p]"
    "item_payable sample_pay_db None \<lparr>ri_invoice = 10, ri_method = ''ach''\<rparr> p"
    using created_run_spec [OF d r] by (auto simp: list_all2_Cons1)
  then show ?thesis using r(1) by (auto simp: sample_pay_db_def item_payable_def)
qed

end
