(* ===== verification/Compliance.thy ===== *)
theory Compliance
  imports Payment_Runs
begin

text \<open>
  The gate a vendor passes before any order goes out (services/compliance.py): the sticky block,
  the sanctions screen, KYC on the high-risk rails and the trailing-spend signal.

  \<open>screen\<close> is the provider's \<open>screen_vendor\<close>; \<open>None\<close> stands for a provider the deployment has no
  adapter for. A reason is the fixed text its sentence starts with. The screening row is added to
  the session before the later checks, so it survives an exception they raise: the operation returns
  the database on both outcomes. Money added in Python goes through the decimal context.
\<close>

section \<open>Settings\<close>

definition compliance_config :: "json \<Rightarrow> json py" where
  "compliance_config org_settings = or_empty_get org_settings ''compliance''"

text \<open>Iterating over a JSON value: a list, the characters of a text, the keys of an object.\<close>

definition json_elements :: "json \<Rightarrow> json list py" where
  "json_elements v =
     (case v of
        JList xs \<Rightarrow> Inr xs
      | JStr s \<Rightarrow> Inr (map (\<lambda>c. JStr [c]) s)
      | JObj kvs \<Rightarrow> Inr (map (JStr \<circ> fst) kvs)
      | _ \<Rightarrow> Inl TypeError)"

text \<open>\<open>Decimal(str(cfg.get(k, default)))\<close>: a missing key takes the default, a null does not parse.\<close>

definition decimal_setting :: "json \<Rightarrow> string \<Rightarrow> rat \<Rightarrow> decimal py" where
  "decimal_setting cfg k dflt =
     (if \<not> truthy cfg then Inr (Fin dflt)
      else case cfg of
        JObj d \<Rightarrow>
          (case map_of d k of
             None \<Rightarrow> Inr (Fin dflt)
           | Some v \<Rightarrow> (case to_decimal v of Some t \<Rightarrow> Inr t | None \<Rightarrow> Inl InvalidOperation))
      | _ \<Rightarrow> Inl AttributeError)"

definition DEFAULT_KYC_REQUIRED_ABOVE :: rat where "DEFAULT_KYC_REQUIRED_ABOVE = 1000"

definition DEFAULT_AML_ALERT_THRESHOLD :: rat where "DEFAULT_AML_ALERT_THRESHOLD = 100000"

definition DEFAULT_HIGH_RISK_METHODS :: "string set" where
  "DEFAULT_HIGH_RISK_METHODS = INTERNATIONAL_PAYMENT_METHODS"

text \<open>The configured rails, normalised; blank and non-text entries are dropped.\<close>

definition configured_rails :: "json list \<Rightarrow> string set" where
  "configured_rails xs =
     set (filter (\<lambda>m. m \<noteq> [])
       (map (\<lambda>v. normalize_payment_method (case v of JStr s \<Rightarrow> Some s | _ \<Rightarrow> None)) xs))"

definition kyc_required_for :: "string option \<Rightarrow> rat \<Rightarrow> json \<Rightarrow> string option \<Rightarrow> bool py" where
  "kyc_required_for m amt org_settings amount_currency =
     py_bind (compliance_config org_settings) (\<lambda>cfg.
     py_bind (or_empty_get cfg ''high_risk_corridor_methods'') (\<lambda>raw.
     py_bind (if truthy raw then json_elements raw else Inr []) (\<lambda>xs.
       let configured = configured_rails xs;
           high_risk = (if configured = {} then DEFAULT_HIGH_RISK_METHODS else configured)
       in if normalize_payment_method m \<notin> high_risk then Inr False
          else py_bind (decimal_setting cfg ''kyc_required_above'' DEFAULT_KYC_REQUIRED_ABOVE) (\<lambda>t.
            if norm_code (get_or amount_currency []) \<noteq> resolve_home_currency org_settings then Inr True
            else py_bind (dec_less (Fin amt) t) (\<lambda>below. Inr (\<not> below))))))"

definition aml_threshold :: "json \<Rightarrow> decimal py" where
  "aml_threshold org_settings =
     py_bind (compliance_config org_settings) (\<lambda>cfg.
       decimal_setting cfg ''aml_spend_alert_threshold'' DEFAULT_AML_ALERT_THRESHOLD)"

section \<open>Trailing spend\<close>

text \<open>SQL's \<open>upper(btrim(s))\<close>: only blanks are trimmed.\<close>

definition sql_code :: "string \<Rightarrow> string" where
  "sql_code s =
     py_upper (rev (dropWhile (\<lambda>c. c = CHR '' '') (rev (dropWhile (\<lambda>c. c = CHR '' '') s))))"

text \<open>What a payment moved, in the reporting currency, when that can be established.\<close>

definition payment_reporting_amount :: "string \<Rightarrow> payment \<Rightarrow> invoice \<Rightarrow> rat option" where
  "payment_reporting_amount rc p iv =
     (let tgt = norm_code (if rc = [] then ''USD'' else rc)
      in case pm_source_amount p of
           Some s \<Rightarrow>
             if sql_code (get_or (pm_source_currency p) []) = tgt then Some s
             else if sql_code (currency iv) = tgt then Some (pm_amount p) else None
         | None \<Rightarrow> if sql_code (currency iv) = tgt then Some (pm_amount p) else None)"

definition settled_since :: "pay_db \<Rightarrow> time \<Rightarrow> uuid \<Rightarrow> (payment \<times> invoice) list" where
  "settled_since db cutoff vendor =
     List.map_filter (\<lambda>p.
       if pm_status p = ''completed'' \<and> (case pm_completed_at p of None \<Rightarrow> False | Some c \<Rightarrow> cutoff \<le> c) then
         (case find_invoice db (pm_invoice p) of
            None \<Rightarrow> None
          | Some iv \<Rightarrow> if vendor_id iv = Some vendor then Some (p, iv) else None)
       else None) (payments db)"

definition trailing_12m_spend :: "pay_db \<Rightarrow> time \<Rightarrow> uuid \<Rightarrow> string \<Rightarrow> rat \<times> nat" where
  "trailing_12m_spend db now vendor home =
     (let figures = map (\<lambda>(p, iv). payment_reporting_amount home p iv)
                      (settled_since db (now - days_us 365) vendor)
      in (sum_list (List.map_filter id figures), length (filter (\<lambda>f. f = None) figures)))"

section \<open>The gate\<close>

datatype compliance_verdict = Allow | Hold | Refuse

record ComplianceDecision =
  cd_verdict :: compliance_verdict
  cd_reasons :: "string list"

record screening =
  sn_provider :: string
  sn_result :: string
  sn_list :: "string option"
  sn_adverse_media :: bool

record comp_env =
  ce_now :: time
  ce_settings :: json
  ce_screen :: "(vendor \<Rightarrow> screening py) option"

definition adverse_media_reason :: string where
  "adverse_media_reason = ''vendor screening returned an adverse-media (negative news) hit''"

definition screening_reasons :: "screening \<Rightarrow> string list" where
  "screening_reasons s =
     (if sn_result s = ''review_required'' then [''vendor screening returned review_required'']
      else if sn_result s \<noteq> ''clear'' then [''vendor screening returned an unrecognised result'']
      else [])
     @ (if sn_adverse_media s then [adverse_media_reason] else [])"

definition aml_reasons ::
    "comp_env \<Rightarrow> pay_db \<Rightarrow> vendor \<Rightarrow> rat \<Rightarrow> string option \<Rightarrow> string list py" where
  "aml_reasons env db v amt cur =
     py_bind (aml_threshold (ce_settings env)) (\<lambda>t.
     py_bind (dec_greater t (Fin 0)) (\<lambda>on.
       if \<not> on then Inr []
       else let home = resolve_home_currency (ce_settings env);
                trailing = fst (trailing_12m_spend db (ce_now env) (vd_id v) home);
                comparable = (norm_code (get_or cur []) = home);
                projected = ctx_round (trailing + (if comparable then amt else 0))
            in py_bind (dec_less (Fin projected) t) (\<lambda>below.
                 Inr (if below then [] else [''trailing 12-month spend with vendor would reach the threshold'']))))"

text \<open>The checks after a screen that is no match.\<close>

definition later_checks ::
    "comp_env \<Rightarrow> pay_db \<Rightarrow> vendor \<Rightarrow> rat \<Rightarrow> string option \<Rightarrow> string option \<Rightarrow> string list
       \<Rightarrow> ComplianceDecision py" where
  "later_checks env db v amt cur m reasons =
     py_bind (kyc_required_for m amt (ce_settings env) cur) (\<lambda>kyc.
       if kyc \<and> vd_kyc_status v \<noteq> ''verified'' then
         Inr \<lparr>cd_verdict = Refuse, cd_reasons = reasons @ [''corridor requires KYC'']\<rparr>
       else py_bind (aml_reasons env db v amt cur) (\<lambda>aml.
         Inr \<lparr>cd_verdict = (if reasons @ aml = [] then Allow else Hold), cd_reasons = reasons @ aml\<rparr>))"

definition check_payment_compliance ::
    "comp_env \<Rightarrow> pay_db \<Rightarrow> vendor \<Rightarrow> rat \<Rightarrow> string option \<Rightarrow> string option \<Rightarrow> uuid option
       \<Rightarrow> ComplianceDecision py \<times> pay_db" where
  "check_payment_compliance env db v amt cur m corr =
     (if vd_blocked v then
        (Inr \<lparr>cd_verdict = Refuse, cd_reasons = [''vendor is blocked from payment'']\<rparr>, db)
      else case ce_screen env of
        None \<Rightarrow> (Inr \<lparr>cd_verdict = Hold, cd_reasons = [''sanctions screening could not run'']\<rparr>, db)
      | Some screen \<Rightarrow>
          (case screen v of
             Inl e \<Rightarrow> (Inl e, db)
           | Inr s \<Rightarrow>
               let row = \<lparr>sk_vendor = vd_id v, sk_provider = sn_provider s, sk_result = sn_result s,
                          sk_list = sn_list s, sk_correlation = corr\<rparr>;
                   db1 = db\<lparr>screenings := screenings db @ [row]\<rparr>
               in (if sn_result s = ''match'' then
                     Inr \<lparr>cd_verdict = Refuse,
                          cd_reasons = [''vendor matched sanctions list'']
                            @ (if sn_adverse_media s then [adverse_media_reason] else [])\<rparr>
                   else later_checks env db1 v amt cur m (screening_reasons s),
                   db1)))"

section \<open>Facts\<close>

lemma check_payment_compliance_db:
  "\<exists>rows. snd (check_payment_compliance env db v amt cur m corr) = db\<lparr>screenings := screenings db @ rows\<rparr>"
proof (cases "\<not> vd_blocked v \<and> (\<exists>screen s. ce_screen env = Some screen \<and> screen v = Inr s)")
  case True
  then show ?thesis by (auto simp: check_payment_compliance_def Let_def)
next
  case False
  then have "snd (check_payment_compliance env db v amt cur m corr) = db"
    by (auto simp: check_payment_compliance_def split: option.split sum.split)
  then show ?thesis by (intro exI [of _ "[]"]) simp
qed

lemma trailing_screenings [simp]:
  "trailing_12m_spend (db\<lparr>screenings := r\<rparr>) now v home = trailing_12m_spend db now v home"
proof -
  have "find_invoice (db\<lparr>screenings := r\<rparr>) = find_invoice db" by (simp add: find_invoice_def fun_eq_iff)
  then show ?thesis by (simp add: trailing_12m_spend_def settled_since_def cong del: if_weak_cong)
qed

lemma aml_screenings [simp]: "aml_reasons env (db\<lparr>screenings := r\<rparr>) v amt cur = aml_reasons env db v amt cur"
  by (simp add: aml_reasons_def cong del: if_weak_cong)

lemma later_checks_screenings [simp]:
  "later_checks env (db\<lparr>screenings := r\<rparr>) v amt cur m rs = later_checks env db v amt cur m rs"
  by (simp add: later_checks_def cong del: if_weak_cong)

lemma screening_reasons_Nil: "screening_reasons s = [] \<longleftrightarrow> sn_result s = ''clear'' \<and> \<not> sn_adverse_media s"
  by (simp add: screening_reasons_def)

lemma aml_Nil:
  assumes "aml_reasons env db v amt cur = Inr []" "aml_threshold (ce_settings env) = Inr (Fin t)" "0 < t"
    "norm_code (get_or cur []) = resolve_home_currency (ce_settings env)"
  shows "ctx_round (fst (trailing_12m_spend db (ce_now env) (vd_id v) (resolve_home_currency (ce_settings env))) + amt) < t"
  using assms by (auto simp: aml_reasons_def Let_def split: if_splits)

text \<open>
  A payment is allowed exactly when the vendor is not blocked, a provider screened it clear with no
  adverse media, KYC is either not required on the rail for the amount or verified, and the
  trailing spend raises no signal.
\<close>

lemma compliance_allows_iff:
  "(\<exists>d. fst (check_payment_compliance env db v amt cur m corr) = Inr d \<and> cd_verdict d = Allow)
   \<longleftrightarrow> \<not> vd_blocked v
     \<and> (\<exists>screen s k. ce_screen env = Some screen \<and> screen v = Inr s \<and> sn_result s = ''clear''
          \<and> \<not> sn_adverse_media s \<and> kyc_required_for m amt (ce_settings env) cur = Inr k
          \<and> \<not> (k \<and> vd_kyc_status v \<noteq> ''verified'') \<and> aml_reasons env db v amt cur = Inr [])"
proof (cases "\<not> vd_blocked v \<and> (\<exists>screen s. ce_screen env = Some screen \<and> screen v = Inr s)")
  case True
  then obtain screen s where s: "\<not> vd_blocked v" "ce_screen env = Some screen" "screen v = Inr s" by blast
  show ?thesis
  proof (cases "sn_result s = ''match''")
    case True
    then show ?thesis using s by (simp add: check_payment_compliance_def Let_def)
  next
    case False
    then have f: "fst (check_payment_compliance env db v amt cur m corr)
        = later_checks env db v amt cur m (screening_reasons s)"
      using s by (simp add: check_payment_compliance_def Let_def)
    have "(\<exists>d. later_checks env db v amt cur m rs = Inr d \<and> cd_verdict d = Allow) \<longleftrightarrow>
        rs = [] \<and> (\<exists>k. kyc_required_for m amt (ce_settings env) cur = Inr k
          \<and> \<not> (k \<and> vd_kyc_status v \<noteq> ''verified'') \<and> aml_reasons env db v amt cur = Inr [])" for rs
      by (cases "kyc_required_for m amt (ce_settings env) cur"; cases "aml_reasons env db v amt cur")
         (auto simp: later_checks_def split: if_splits)
    then show ?thesis unfolding f using s by (simp add: screening_reasons_Nil)
  qed
next
  case False
  then show ?thesis by (auto simp: check_payment_compliance_def split: option.split sum.split)
qed

end
