(* ===== verification/Settlement.thy ===== *)
theory Settlement
  imports Currency
begin

text \<open>
  Verification of what a processor reports it settled (services/payment_settlement.py) and
  the column bound it uses (services/numeric_bounds.py).

  A reported figure is whatever the adapter parsed: a \<open>Decimal\<close> (or a float, which
  \<open>Decimal\<close> converts exactly), an int, a text, or something else, on which the
  constructor raises TypeError or ValueError. Authorized amounts are NUMERIC columns.
  Differences go through the decimal context.
\<close>

section \<open>Column bounds\<close>

definition fits_numeric :: "decimal option \<Rightarrow> nat \<Rightarrow> nat \<Rightarrow> bool" where
  "fits_numeric v precision scale \<longleftrightarrow>
     (case v of
        Some (Fin x) \<Rightarrow>
          (case quantize_half_up scale (Fin x) of
             Inr (Fin y) \<Rightarrow> \<bar>y\<bar> < 10 ^ (precision - scale)
           | _ \<Rightarrow> False)
      | _ \<Rightarrow> False)"

section \<open>Reported amounts\<close>

datatype reported = RDec decimal | RInt int | RStr string | ROther

definition settle_q :: "rat \<Rightarrow> rat py" where
  "settle_q x = quantize_row 2 x"

definition ctx_sub :: "rat \<Rightarrow> rat \<Rightarrow> rat" where
  "ctx_sub x y = ctx_round (x - y)"

definition coerce_reported_amount :: "reported \<Rightarrow> decimal option" where
  "coerce_reported_amount v =
     (case v of
        RDec d \<Rightarrow> Some d
      | RInt i \<Rightarrow> Some (Fin (of_int i))
      | RStr s \<Rightarrow> parse_decimal s
      | ROther \<Rightarrow> None)"

definition usable_reported_amount :: "reported \<Rightarrow> rat option" where
  "usable_reported_amount v =
     (case coerce_reported_amount v of
        Some (Fin x) \<Rightarrow> (case settle_q x of Inr y \<Rightarrow> Some y | Inl _ \<Rightarrow> None)
      | _ \<Rightarrow> None)"

definition same_currency :: "string option \<Rightarrow> string option \<Rightarrow> bool" where
  "same_currency a b \<longleftrightarrow>
     (case (a, b) of (Some x, Some y) \<Rightarrow> norm_code x = norm_code y | _ \<Rightarrow> True)"

section \<open>Authorized legs\<close>

record AuthorizedLeg =
  leg_amount :: rat
  leg_currency :: "string option"
  leg_side :: string

definition build_authorized_legs ::
    "rat \<Rightarrow> string option \<Rightarrow> rat option \<Rightarrow> string option \<Rightarrow> AuthorizedLeg list py" where
  "build_authorized_legs target_amount target_currency source_amount source_currency =
     py_bind (settle_q target_amount) (\<lambda>t.
       let target = \<lparr>leg_amount = t, leg_currency = target_currency, leg_side = ''target''\<rparr>
       in case source_amount of
            None \<Rightarrow> Inr [target]
          | Some sa \<Rightarrow> py_bind (settle_q sa) (\<lambda>s.
              let source = \<lparr>leg_amount = s, leg_currency = source_currency, leg_side = ''source''\<rparr>
              in Inr (if leg_amount source = leg_amount target
                         \<and> same_currency (leg_currency source) (leg_currency target)
                      then [target] else [target, source])))"

section \<open>The verdict\<close>

definition SETTLEMENT_AMOUNT_TOLERANCE :: rat where
  "SETTLEMENT_AMOUNT_TOLERANCE = 1/100"

datatype settle_outcome = Matched | AmountMismatch | CurrencyMismatch | Unverified

definition DISCREPANCY_OUTCOMES :: "settle_outcome set" where
  "DISCREPANCY_OUTCOMES = {AmountMismatch, CurrencyMismatch}"

datatype settle_reason = NoReportedAmount | ReportedAmountUnusable | CurrencyNotAuthorized | AmountDiffers

record SettlementVerification =
  sv_outcome :: settle_outcome
  sv_reason :: "settle_reason option"
  sv_variance :: "rat option"
  sv_settled :: "decimal option"
  sv_settled_currency :: "string option"
  sv_leg :: AuthorizedLeg

definition is_discrepancy :: "SettlementVerification \<Rightarrow> bool" where
  "is_discrepancy v \<longleftrightarrow> sv_outcome v \<in> DISCREPANCY_OUTCOMES"

definition settle_verdict ::
    "settle_outcome \<Rightarrow> settle_reason option \<Rightarrow> rat option \<Rightarrow> decimal option \<Rightarrow> string option
       \<Rightarrow> AuthorizedLeg \<Rightarrow> SettlementVerification" where
  "settle_verdict oc r v s c l =
     \<lparr>sv_outcome = oc, sv_reason = r, sv_variance = v, sv_settled = s, sv_settled_currency = c,
      sv_leg = l\<rparr>"

text \<open>The comparison of a usable figure with the legs whose currency it can be in.\<close>

definition compare_legs ::
    "rat \<Rightarrow> string option \<Rightarrow> rat \<Rightarrow> AuthorizedLeg list \<Rightarrow> SettlementVerification py" where
  "compare_legs settled reported_currency tolerance candidates =
     (case find (\<lambda>l. \<bar>ctx_sub settled (leg_amount l)\<bar> \<le> tolerance) candidates of
        Some l \<Rightarrow>
          py_bind (settle_q (ctx_sub settled (leg_amount l))) (\<lambda>v.
            Inr (settle_verdict Matched None (Some v) (Some (Fin settled)) reported_currency l))
      | None \<Rightarrow>
          let closest = arg_min_list (\<lambda>l. \<bar>ctx_sub settled (leg_amount l)\<bar>) candidates
          in py_bind (settle_q (ctx_sub settled (leg_amount closest))) (\<lambda>v.
               Inr (settle_verdict AmountMismatch (Some AmountDiffers) (Some v) (Some (Fin settled))
                      reported_currency closest)))"

definition verify_settlement ::
    "reported option \<Rightarrow> string option \<Rightarrow> rat \<Rightarrow> string option \<Rightarrow> rat option \<Rightarrow> string option
       \<Rightarrow> rat \<Rightarrow> SettlementVerification py" where
  "verify_settlement reported_amount reported_currency ta tc sa sc tolerance =
     py_bind (build_authorized_legs ta tc sa sc) (\<lambda>legs.
       case reported_amount of
         None \<Rightarrow>
           Inr (settle_verdict Unverified (Some NoReportedAmount) None None
                  (if reported_currency = Some [] then None else reported_currency) (hd legs))
       | Some r \<Rightarrow>
           (case usable_reported_amount r of
              None \<Rightarrow>
                Inr (settle_verdict Unverified (Some ReportedAmountUnusable) None (coerce_reported_amount r)
                       reported_currency (hd legs))
            | Some settled \<Rightarrow>
                let candidates = filter (\<lambda>l. same_currency reported_currency (leg_currency l)) legs
                in if candidates = [] then
                     Inr (settle_verdict CurrencyMismatch (Some CurrencyNotAuthorized) None
                            (Some (Fin settled)) reported_currency (hd legs))
                   else compare_legs settled reported_currency tolerance candidates))"

definition SETTLED_AMOUNT_NUMERIC :: "nat \<times> nat" where
  "SETTLED_AMOUNT_NUMERIC = (15, 2)"

definition persistable_settled_amount :: "decimal option \<Rightarrow> decimal option \<times> bool" where
  "persistable_settled_amount v =
     (case v of
        None \<Rightarrow> (None, False)
      | Some d \<Rightarrow>
          if usable_reported_amount (RDec d) = None then (None, True)
          else if fits_numeric (Some d) (fst SETTLED_AMOUNT_NUMERIC) (snd SETTLED_AMOUNT_NUMERIC)
          then (Some d, False)
          else (None, True))"

section \<open>Coverage\<close>

datatype coverage_state = Covered | Short | Uncertain

datatype coverage_reason = NoSettledAmount | SettledShort | CurrencyUnknown | AmountUnstorable

record SettlementCoverage =
  sc_state :: coverage_state
  sc_reason :: "coverage_reason option"
  sc_shortfall :: "rat option"

definition completes_invoice :: "SettlementCoverage \<Rightarrow> bool" where
  "completes_invoice c \<longleftrightarrow> sc_state c = Covered"

definition settlement_coverage ::
    "rat option \<Rightarrow> string option \<Rightarrow> rat \<Rightarrow> string option \<Rightarrow> rat option \<Rightarrow> string option \<Rightarrow> bool
       \<Rightarrow> rat \<Rightarrow> SettlementCoverage py" where
  "settlement_coverage settled_amount settled_currency ta tc sa sc unstorable tolerance =
     (if unstorable then
        Inr \<lparr>sc_state = Uncertain, sc_reason = Some AmountUnstorable, sc_shortfall = None\<rparr>
      else case settled_amount of
        None \<Rightarrow> Inr \<lparr>sc_state = Covered, sc_reason = Some NoSettledAmount, sc_shortfall = None\<rparr>
      | Some amt \<Rightarrow>
          py_bind (build_authorized_legs ta tc sa sc) (\<lambda>legs.
            let candidates = filter (\<lambda>l. same_currency settled_currency (leg_currency l)) legs
            in if candidates = [] then
                 Inr \<lparr>sc_state = Uncertain, sc_reason = Some CurrencyUnknown, sc_shortfall = None\<rparr>
               else py_bind (settle_q amt) (\<lambda>settled.
                 if list_ex (\<lambda>l. ctx_sub (leg_amount l) tolerance \<le> settled) candidates
                 then Inr \<lparr>sc_state = Covered, sc_reason = None, sc_shortfall = None\<rparr>
                 else py_bind (settle_q (ctx_sub (Min (leg_amount ` set candidates)) settled)) (\<lambda>gap.
                   Inr \<lparr>sc_state = Short, sc_reason = Some SettledShort, sc_shortfall = Some gap\<rparr>))))"

section \<open>Facts\<close>

text \<open>What a NUMERIC(15,2) column holds.\<close>

definition money_col :: "rat \<Rightarrow> bool" where
  "money_col x \<longleftrightarrow> has_scale 2 x \<and> \<bar>x\<bar> < 10 ^ 13"

lemma money_colD: "money_col x \<Longrightarrow> has_scale 2 x" "money_col x \<Longrightarrow> \<bar>x\<bar> < 10 ^ 13"
  by (simp_all add: money_col_def)

lemma settle_q_scaled: "has_scale 2 x \<Longrightarrow> \<bar>x\<bar> < 10 ^ 25 \<Longrightarrow> settle_q x = Inr x"
  by (simp add: settle_q_def quantize_row_small)

lemma settle_q_money [simp]: "money_col x \<Longrightarrow> settle_q x = Inr x"
  using settle_q_scaled [of x] by (simp add: money_col_def)

lemma settle_q_Inr: "settle_q x = Inr y \<Longrightarrow> y = round_half_up 2 x"
  by (simp add: settle_q_def quantize_row_def split: if_splits)

lemma usable_scaled: "usable_reported_amount r = Some s \<Longrightarrow> has_scale 2 s"
  by (auto simp: usable_reported_amount_def dest!: settle_q_Inr split: option.splits decimal.splits sum.splits)

text \<open>Differences of figures below 10^25 and column values are exact.\<close>

lemma sub_exact:
  assumes "has_scale 2 x" "\<bar>x\<bar> < 10 ^ 25" "money_col y"
  shows "ctx_sub x y = x - y" "ctx_sub y x = y - x" "settle_q (x - y) = Inr (x - y)"
    "settle_q (y - x) = Inr (y - x)"
proof -
  have y: "has_scale 2 y" "\<bar>y\<bar> < 10 ^ 13" using assms(3) by (simp_all add: money_col_def)
  have sc: "has_scale 2 (x - y)" using assms(1) y(1) by (rule has_scale_diff)
  have b: "\<bar>x - y\<bar> < 2 * 10 ^ 25" using assms(2) y(2) by simp
  then have c: "\<bar>x - y\<bar> * 10 ^ 2 < 10 ^ 28" by simp
  show s: "ctx_sub x y = x - y" unfolding ctx_sub_def using sc c by (rule ctx_round_exact)
  have "ctx_sub y x = - ctx_sub x y" by (simp add: ctx_sub_def flip: ctx_round_minus)
  then show "ctx_sub y x = y - x" by (simp add: s)
  have q: "settle_q z = Inr z" if "has_scale 2 z" "\<bar>z\<bar> < 2 * 10 ^ 25" for z
  proof -
    have "\<bar>half_up (z * 10 ^ 2)\<bar> < 10 ^ 28"
    proof -
      from that(1) obtain n where n: "z = of_int n / 10 ^ 2" by (auto simp: has_scale_iff)
      then have "z * 10 ^ 2 = of_int n" by simp
      moreover have "\<bar>n\<bar> < 10 ^ 28"
      proof -
        have "\<bar>of_int n :: rat\<bar> < of_int (2 * 10 ^ 27)" using that(2) by (simp add: n abs_divide)
        then have "\<bar>n\<bar> < 2 * 10 ^ 27" by (simp only: of_int_less_iff flip: of_int_abs)
        then show ?thesis by simp
      qed
      ultimately show ?thesis by (simp only: half_up_of_int)
    qed
    then show ?thesis using that(1) by (simp add: settle_q_def quantize_row_def)
  qed
  show "settle_q (x - y) = Inr (x - y)" using q [OF sc b] .
  show "settle_q (y - x) = Inr (y - x)"
    using q [of "y - x"] sc b has_scale_minus [of 2 "x - y"] by (simp add: abs_minus_commute)
qed

lemma money_col_bound: "money_col x \<Longrightarrow> \<bar>x\<bar> < 10 ^ 25"
  by (simp add: money_col_def)

lemma legs_of_columns:
  assumes "money_col ta" "\<And>x. sa = Some x \<Longrightarrow> money_col x"
  shows "\<exists>legs. build_authorized_legs ta tc sa sc = Inr legs \<and> legs \<noteq> []
                \<and> (\<forall>l \<in> set legs. money_col (leg_amount l))"
  using assms by (cases sa) (auto simp: build_authorized_legs_def Let_def)

lemma arg_min_list_set: "xs \<noteq> [] \<Longrightarrow> arg_min_list f xs \<in> set xs"
  by (rule arg_min_list_in)

lemma arg_min_list_le: "x \<in> set xs \<Longrightarrow> f (arg_min_list f xs) \<le> (f x :: 'a :: linorder)"
  by (metis f_arg_min_list_f Min_le finite_imageI finite_set image_eqI list.set_map
      empty_iff list.set(1))

lemma compare_legs_spec:
  assumes "C \<noteq> []" "has_scale 2 s" "\<bar>s\<bar> < 10 ^ 25" "\<And>l. l \<in> set C \<Longrightarrow> money_col (leg_amount l)"
  shows "\<exists>v. compare_legs s rc tol C = Inr v
     \<and> sv_leg v \<in> set C \<and> sv_variance v = Some (s - leg_amount (sv_leg v))
     \<and> sv_settled v = Some (Fin s) \<and> sv_settled_currency v = rc
     \<and> (if \<exists>l \<in> set C. \<bar>s - leg_amount l\<bar> \<le> tol
         then sv_outcome v = Matched \<and> \<bar>s - leg_amount (sv_leg v)\<bar> \<le> tol
         else sv_outcome v = AmountMismatch
              \<and> (\<forall>l \<in> set C. \<bar>s - leg_amount (sv_leg v)\<bar> \<le> \<bar>s - leg_amount l\<bar>))"
proof -
  note ex = sub_exact [OF assms(2,3) assms(4)]
  show ?thesis
  proof (cases "find (\<lambda>l. \<bar>ctx_sub s (leg_amount l)\<bar> \<le> tol) C")
    case (Some l)
    then have l: "l \<in> set C" "\<bar>ctx_sub s (leg_amount l)\<bar> \<le> tol" by (auto dest: find_Some_props)
    then have "\<exists>l \<in> set C. \<bar>s - leg_amount l\<bar> \<le> tol" using ex(1) [OF l(1)] by auto
    then show ?thesis using Some l by (simp add: compare_legs_def settle_verdict_def ex)
  next
    case None
    define m where "m = arg_min_list (\<lambda>l. \<bar>ctx_sub s (leg_amount l)\<bar>) C"
    have m: "m \<in> set C" unfolding m_def using assms(1) by (rule arg_min_list_set)
    have none: "\<not> (\<exists>l \<in> set C. \<bar>s - leg_amount l\<bar> \<le> tol)"
      using None ex(1) by (auto simp: find_None_iff_all)
    have least: "\<bar>s - leg_amount m\<bar> \<le> \<bar>s - leg_amount l\<bar>" if "l \<in> set C" for l
      using arg_min_list_le [OF that, of "\<lambda>l. \<bar>ctx_sub s (leg_amount l)\<bar>"] ex(1) [OF that] ex(1) [OF m]
      by (simp add: m_def)
    show ?thesis using None none m least
      by (simp add: compare_legs_def settle_verdict_def ex flip: m_def)
  qed
qed

text \<open>
  A usable report below 10^25 always gets a verdict. It is a currency mismatch exactly
  when no authorized leg is compatible with the reported currency; otherwise it matches
  exactly when some compatible leg lies within a cent, and if not, the leg named is a
  compatible one at the least distance and the variance is the signed gap to it.
\<close>

theorem verify_settlement_spec:
  assumes "money_col ta" "\<And>x. sa = Some x \<Longrightarrow> money_col x"
    "usable_reported_amount r = Some s" "\<bar>s\<bar> < 10 ^ 25"
  shows "\<exists>legs v. build_authorized_legs ta tc sa sc = Inr legs
     \<and> verify_settlement (Some r) rc ta tc sa sc SETTLEMENT_AMOUNT_TOLERANCE = Inr v
     \<and> (let C = filter (\<lambda>l. same_currency rc (leg_currency l)) legs
         in if C = [] then sv_outcome v = CurrencyMismatch \<and> sv_variance v = None
            else sv_leg v \<in> set C \<and> sv_variance v = Some (s - leg_amount (sv_leg v))
                 \<and> (if \<exists>l \<in> set C. \<bar>s - leg_amount l\<bar> \<le> 1/100
                    then sv_outcome v = Matched \<and> \<bar>s - leg_amount (sv_leg v)\<bar> \<le> 1/100
                    else sv_outcome v = AmountMismatch
                         \<and> (\<forall>l \<in> set C. \<bar>s - leg_amount (sv_leg v)\<bar> \<le> \<bar>s - leg_amount l\<bar>)))"
proof -
  obtain legs where legs: "build_authorized_legs ta tc sa sc = Inr legs"
    "\<And>l. l \<in> set legs \<Longrightarrow> money_col (leg_amount l)"
    using legs_of_columns [of ta sa tc sc] assms(1,2) by auto
  define C where "C = filter (\<lambda>l. same_currency rc (leg_currency l)) legs"
  show ?thesis
  proof (cases "C = []")
    case True
    then show ?thesis using legs assms(3)
      by (simp add: verify_settlement_def Let_def settle_verdict_def flip: C_def)
  next
    case False
    have col: "money_col (leg_amount l)" if "l \<in> set C" for l using that legs(2) by (simp add: C_def)
    have eq: "verify_settlement (Some r) rc ta tc sa sc SETTLEMENT_AMOUNT_TOLERANCE
        = compare_legs s rc SETTLEMENT_AMOUNT_TOLERANCE C"
      using False legs assms(3) by (simp add: verify_settlement_def Let_def flip: C_def)
    have t: "SETTLEMENT_AMOUNT_TOLERANCE = 1/100" by (simp add: SETTLEMENT_AMOUNT_TOLERANCE_def)
    obtain v where v: "compare_legs s rc (1/100) C = Inr v"
      "sv_leg v \<in> set C" "sv_variance v = Some (s - leg_amount (sv_leg v))"
      "if \<exists>l \<in> set C. \<bar>s - leg_amount l\<bar> \<le> 1/100
       then sv_outcome v = Matched \<and> \<bar>s - leg_amount (sv_leg v)\<bar> \<le> 1/100
       else sv_outcome v = AmountMismatch
            \<and> (\<forall>l \<in> set C. \<bar>s - leg_amount (sv_leg v)\<bar> \<le> \<bar>s - leg_amount l\<bar>)"
      using compare_legs_spec [OF False usable_scaled [OF assms(3)] assms(4) col,
        where rc = rc and tol = "1/100"] by blast
    show ?thesis
    proof (intro exI conjI)
      show "build_authorized_legs ta tc sa sc = Inr legs" by (rule legs(1))
      show "verify_settlement (Some r) rc ta tc sa sc SETTLEMENT_AMOUNT_TOLERANCE = Inr v"
        using v(1) unfolding eq by (simp only: t)
    qed (unfold Let_def C_def [symmetric] if_not_P [OF False], intro conjI, fact+)
  qed
qed

theorem verify_settlement_witness:
  "\<exists>legs v. build_authorized_legs 500 (Some ''EUR'') (Some 540) (Some ''USD'') = Inr legs
     \<and> verify_settlement (Some (RStr ''540.01'')) (Some ''usd'') 500 (Some ''EUR'') (Some 540) (Some ''USD'')
         SETTLEMENT_AMOUNT_TOLERANCE = Inr v
     \<and> sv_outcome v = Matched \<and> leg_side (sv_leg v) = ''source''"
proof -
  have p: "parse_decimal ''540.01'' = Some (Fin (54001/100))" by (simp add: parse_eval)
  have q: "settle_q (54001/100) = Inr (54001/100)"
    by (rule settle_q_scaled) (simp_all add: has_scale_def)
  have u: "usable_reported_amount (RStr ''540.01'') = Some (54001/100)"
    by (simp add: usable_reported_amount_def coerce_reported_amount_def p q)
  have col: "money_col 500" "money_col 540" by (simp_all add: money_col_def has_scale_def)
  have c: "norm_code ''usd'' = ''USD''" "norm_code ''USD'' = ''USD''" "norm_code ''EUR'' = ''EUR''"
    by code_simp+
  have legs: "build_authorized_legs 500 (Some ''EUR'') (Some 540) (Some ''USD'') = Inr
      [\<lparr>leg_amount = 500, leg_currency = Some ''EUR'', leg_side = ''target''\<rparr>,
       \<lparr>leg_amount = 540, leg_currency = Some ''USD'', leg_side = ''source''\<rparr>]"
    by (simp add: build_authorized_legs_def col)
  show ?thesis
    using verify_settlement_spec [where ta = 500 and sa = "Some 540" and tc = "Some ''EUR''"
        and sc = "Some ''USD''" and rc = "Some ''usd''", OF col(1) _ u] col(2)
    by (auto simp: legs same_currency_def c)
qed

lemma hostile_digits: "ndigits 100000000000000000000000000 = 27"
  by (simp add: ndigits.simps)
lemma hostile_difference: "ctx_sub (- (9999999999999999999999999999/100)) 1 = - 100000000000000000000000001"
proof -
  let ?y = "10000000000000000000000000099/100 :: rat"
  have f: "\<lfloor>\<bar>?y\<bar>\<rfloor> = 100000000000000000000000000" by (simp add: floor_eq_iff)
  have a: "adjusted ?y = 26" unfolding adjusted_def f by (simp add: hostile_digits)
  have h: "half_even (- (10000000000000000000000000099/10)) = - 1000000000000000000000000010"
  proof -
    have "\<lfloor>- (10000000000000000000000000099/10) :: rat\<rfloor> = - 1000000000000000000000000010"
      by (simp add: floor_eq_iff)
    then show ?thesis by (simp add: half_even_def Let_def)
  qed
  show ?thesis unfolding ctx_sub_def ctx_round_def by (simp add: a h Let_def)
qed
text \<open>
  The guard that was to keep a hostile figure from failing the webhook leaves one class
  through. The figure -99999999999999999999999999.99 has 28 digits, so it is usable; its
  difference from an authorized 1.00 needs 29, the context rounds it, and quantizing the
  rounded difference raises InvalidOperation out of \<open>verify_settlement\<close>.
\<close>

theorem hostile_report_raises:
  "usable_reported_amount (RStr ''-99999999999999999999999999.99'') \<noteq> None
   \<and> verify_settlement (Some (RStr ''-99999999999999999999999999.99'')) (Some ''USD'') 1 (Some ''USD'')
       None None SETTLEMENT_AMOUNT_TOLERANCE = Inl InvalidOperation"
proof -
  let ?x = "- (9999999999999999999999999999/100) :: rat"
  have p: "parse_decimal ''-99999999999999999999999999.99'' = Some (Fin ?x)" by (simp add: parse_eval)
  have h: "half_up (- 9999999999999999999999999999) = - 9999999999999999999999999999"
    using half_up_of_int [of "- 9999999999999999999999999999"] by simp
  have q: "settle_q ?x = Inr ?x"
    by (simp add: settle_q_def quantize_row_def round_half_up_def h)
  have u: "usable_reported_amount (RStr ''-99999999999999999999999999.99'') = Some ?x"
    by (simp add: usable_reported_amount_def coerce_reported_amount_def p q)
  have "half_up (- 10000000000000000000000000100) = - 10000000000000000000000000100"
    using half_up_of_int [of "- 10000000000000000000000000100"] by simp
  then have r: "settle_q (- 100000000000000000000000001) = Inl InvalidOperation"
    by (simp add: settle_q_def quantize_row_def)
  have c: "same_currency (Some ''USD'') (Some ''USD'')" by (simp add: same_currency_def)
  have one: "money_col 1" by (simp add: money_col_def has_scale_def)
  show ?thesis
    by (simp add: verify_settlement_def u build_authorized_legs_def one Let_def c compare_legs_def
        hostile_difference r SETTLEMENT_AMOUNT_TOLERANCE_def)
qed

end
