(* ===== verification/Settlement_Record.thy ===== *)
theory Settlement_Record
  imports Settlement Payment_Runs
begin

text \<open>
  Recording a settlement (services/payment_settlement_record.py), the processor's webhook
  (payment_webhook of api/payments.py) and the pass that marks a settled invoice paid
  (services/payment_erp_sync.py).

  \<open>fetch\<close> is the adapter's \<open>fetch_settlement\<close>: whether a figure is available, the figure
  and its currency, or an exception. The webhook is modelled from the parsed event on, inside its
  one transaction; the size cap, the signature and the Redis claim come before it. Capturing a
  discount offer is best effort, touches only the offers, and is left out. The foreign key makes a
  payment without its invoice row impossible, so the failure flag of such a payment is left out too.
\<close>

section \<open>Recording\<close>

type_synonym settle_fetch = "string \<Rightarrow> (bool \<times> reported option \<times> string option) py"

definition reported_or_fetched ::
    "settle_fetch \<Rightarrow> payment \<Rightarrow> reported option \<Rightarrow> string option \<Rightarrow> reported option \<times> string option" where
  "reported_or_fetched fetch p reported_amount reported_currency =
     (if reported_amount = None \<and> get_or (pm_provider_id p) [] \<noteq> [] then
        (case fetch (get_or (pm_provider_id p) []) of
           Inl _ \<Rightarrow> (reported_amount, reported_currency)
         | Inr (available, a, c) \<Rightarrow>
             if available \<and> a \<noteq> None then (a, c) else (reported_amount, reported_currency))
      else (reported_amount, reported_currency))"

definition store_settlement :: "payment \<Rightarrow> SettlementVerification \<Rightarrow> payment" where
  "store_settlement p v =
     (let stored = persistable_settled_amount (sv_settled v);
          p1 = (case fst stored of
                  Some (Fin x) \<Rightarrow> p\<lparr>pm_settled := Some x, pm_settled_currency := sv_settled_currency v\<rparr>
                | _ \<Rightarrow> p)
      in if snd stored then p1\<lparr>pm_unstorable := True, pm_settled_currency := sv_settled_currency v\<rparr> else p1)"

definition record_settlement ::
    "settle_fetch \<Rightarrow> payment \<Rightarrow> invoice option \<Rightarrow> reported option \<Rightarrow> string option
       \<Rightarrow> (SettlementVerification \<times> payment) py" where
  "record_settlement fetch p iv reported_amount reported_currency =
     (let (a, c) = reported_or_fetched fetch p reported_amount reported_currency
      in py_bind (verify_settlement a c (pm_amount p) (map_option currency iv) (pm_source_amount p)
                    (pm_source_currency p) SETTLEMENT_AMOUNT_TOLERANCE) (\<lambda>v.
           Inr (v, store_settlement p v)))"

record SettlementCompletion =
  cp_verification :: SettlementVerification
  cp_realized_fx :: "rat option"

definition record_completion ::
    "settle_fetch \<Rightarrow> payment \<Rightarrow> invoice option \<Rightarrow> reported option \<Rightarrow> string option
       \<Rightarrow> (SettlementCompletion \<times> payment) py" where
  "record_completion fetch p iv reported_amount reported_currency =
     py_bind (record_settlement fetch p iv reported_amount reported_currency) (\<lambda>(v, p').
     py_bind (case iv of
                None \<Rightarrow> Inr None
              | Some i \<Rightarrow> realized_fx_gain_loss_for_settlement (amount i) (Some (currency i))
                            (reporting_currency i) (reporting_fx_rate i) (pm_source_amount p)
                            (pm_source_currency p)) (\<lambda>fx.
       Inr (\<lparr>cp_verification = v, cp_realized_fx = fx\<rparr>, p')))"

definition open_flag :: "wf_db \<Rightarrow> uuid \<Rightarrow> string \<Rightarrow> bool" where
  "open_flag db i t \<longleftrightarrow>
     list_ex (\<lambda>e. ex_invoice e = Some i \<and> ex_type e = t \<and> ex_status e \<in> {''open'', ''escalated''})
       (exceptions db)"

definition describe_discrepancy :: "SettlementVerification \<Rightarrow> string" where
  "describe_discrepancy v =
     (if sv_outcome v = CurrencyMismatch then ''Settlement currency mismatch''
      else ''Settlement amount mismatch'')"

definition open_settlement_mismatch_exception ::
    "pay_env \<Rightarrow> wf_db \<Rightarrow> invoice option \<Rightarrow> SettlementVerification \<Rightarrow> wf_db" where
  "open_settlement_mismatch_exception env db iv v =
     (case iv of
        None \<Rightarrow> db
      | Some i \<Rightarrow>
          if open_flag db (inv_id i) ''fraud_flag'' then db
          else create_exception db (pe_fresh_exception env (inv_id i)) ''fraud_flag'' (describe_discrepancy v)
                 (pe_org env) ''error'' ''open'' i None)"

section \<open>The webhook\<close>

record payment_event =
  ev_provider :: string
  ev_provider_id :: string
  ev_status :: string
  ev_reference :: "string option"
  ev_failure :: "string option"
  ev_amount :: "reported option"
  ev_currency :: "string option"

definition apply_event :: "time \<Rightarrow> payment_event \<Rightarrow> payment \<Rightarrow> payment" where
  "apply_event now ev p =
     p\<lparr>pm_status := ev_status ev,
       pm_reference := (if get_or (ev_reference ev) [] \<noteq> [] then ev_reference ev else pm_reference p),
       pm_failure := (if get_or (ev_failure ev) [] \<noteq> [] then ev_failure ev else pm_failure p),
       pm_completed_at := (if ev_status ev \<in> {''completed'', ''failed'', ''cancelled''} then Some now
                           else pm_completed_at p)\<rparr>"

primrec outcome_text :: "settle_outcome \<Rightarrow> string" where
  "outcome_text Matched = ''matched''"
| "outcome_text AmountMismatch = ''amount_mismatch''"
| "outcome_text CurrencyMismatch = ''currency_mismatch''"
| "outcome_text Unverified = ''unverified''"

primrec reason_text :: "settle_reason \<Rightarrow> string" where
  "reason_text NoReportedAmount = ''provider_reported_no_amount''"
| "reason_text ReportedAmountUnusable = ''provider_reported_unusable_amount''"
| "reason_text CurrencyNotAuthorized = ''settled_currency_not_authorized''"
| "reason_text AmountDiffers = ''settled_amount_differs_from_authorization''"

definition decimal_text :: "(rat \<Rightarrow> string) \<Rightarrow> decimal \<Rightarrow> string" where
  "decimal_text money_text d =
     (case d of Fin x \<Rightarrow> money_text x | NaN \<Rightarrow> ''NaN'' | PosInf \<Rightarrow> ''Infinity'' | NegInf \<Rightarrow> ''-Infinity'')"

definition as_details :: "(rat \<Rightarrow> string) \<Rightarrow> SettlementVerification \<Rightarrow> json" where
  "as_details money_text v =
     JObj [(''outcome'', JStr (outcome_text (sv_outcome v))),
           (''reason'', json_of_option (map_option reason_text (sv_reason v))),
           (''settled_amount'', json_of_option (map_option (decimal_text money_text) (sv_settled v))),
           (''settled_currency'', json_of_option (sv_settled_currency v)),
           (''authorized_amount'', JStr (money_text (leg_amount (sv_leg v)))),
           (''authorized_currency'', json_of_option (leg_currency (sv_leg v))),
           (''authorized_leg'', JStr (leg_side (sv_leg v))),
           (''variance'', json_of_option (map_option money_text (sv_variance v)))]"

definition settlement_details :: "pay_env \<Rightarrow> SettlementCompletion option \<Rightarrow> jdict" where
  "settlement_details env cp =
     (case cp of
        None \<Rightarrow> []
      | Some c \<Rightarrow>
          (''settlement'', as_details (pe_money_text env) (cp_verification c))
          # (case cp_realized_fx c of None \<Rightarrow> [] | Some x \<Rightarrow> [(''realized_fx_gain_loss'', JStr (pe_money_text env x))]))"

definition audit_system ::
    "pay_env \<Rightarrow> uuid \<Rightarrow> string \<Rightarrow> string \<Rightarrow> uuid \<Rightarrow> jdict \<Rightarrow> pay_db \<Rightarrow> pay_db" where
  "audit_system env corr action entity i details db =
     db\<lparr>core := dispatch_audit (core db) corr (pe_org env) None action entity i details\<rparr>"

text \<open>The run to synchronise afterwards, and the database.\<close>

definition settle_event ::
    "pay_env \<Rightarrow> settle_fetch \<Rightarrow> pay_db \<Rightarrow> payment_event \<Rightarrow> payment \<Rightarrow> (uuid option \<times> pay_db) py" where
  "settle_event env fetch db ev p =
     (let p1 = apply_event (pe_now env) ev p;
          iv = find_invoice db (pm_invoice p);
          finish = (\<lambda>p2 cp.
            let db1 = audit_system env (get_or (pm_correlation p2) (pe_audit_key env)) (''payment.'' @ pm_status p2)
                        ''payment'' (pm_id p2)
                        ([(''status'', JStr (pm_status p2)),
                          (''previous_status'', JStr (if pm_status p = [] then ''unknown'' else pm_status p)),
                          (''method'', json_of_option (pm_method p2)),
                          (''amount'', JStr (pe_money_text env (pm_amount p2))),
                          (''reference'', json_of_option (pm_reference p2)), (''source'', JStr ''webhook''),
                          (''provider'', JStr (ev_provider ev)),
                          (''payment_run_id'', case pm_run p2 of None \<Rightarrow> JNull | Some i \<Rightarrow> JStr (uuid_str i))]
                         @ settlement_details env cp)
                        (put_payment p2 db);
                db2 = (case cp of
                         Some c \<Rightarrow> if is_discrepancy (cp_verification c)
                                   then db1\<lparr>core := open_settlement_mismatch_exception env (core db1) iv (cp_verification c)\<rparr>
                                   else db1
                       | None \<Rightarrow> db1)
            in (if pm_status p2 = ''completed'' then pm_run p2 else None, db2))
      in if pm_status p1 = ''completed'' then
           py_bind (record_completion fetch p1 iv (ev_amount ev) (ev_currency ev)) (\<lambda>(cp, p2).
             Inr (finish p2 (Some cp)))
         else Inr (finish p1 None))"

definition payment_webhook ::
    "pay_env \<Rightarrow> settle_fetch \<Rightarrow> pay_db \<Rightarrow> payment_event \<Rightarrow> (uuid option \<times> pay_db) py" where
  "payment_webhook env fetch db ev =
     (case filter (\<lambda>p. pm_provider_id p = Some (ev_provider_id ev)) (payments db) of
        [] \<Rightarrow> Inr (None, db)
      | [p] \<Rightarrow>
          if pm_status p \<notin> {''pending'', ''submitted'', ''processing''} then Inr (None, db)
          else settle_event env fetch db ev p
      | _ \<Rightarrow> Inl MultipleResultsFound)"

section \<open>The pass that marks invoices paid\<close>

datatype leg_outcome = Synced | Skipped | Held | LegFailed

definition flag_sync_failure :: "pay_env \<Rightarrow> pay_db \<Rightarrow> payment \<Rightarrow> pay_db" where
  "flag_sync_failure env db p =
     (if open_flag (core db) (pm_invoice p) ''erp_reconciliation'' then db
      else case find_invoice db (pm_invoice p) of
        None \<Rightarrow> db
      | Some iv \<Rightarrow>
          db\<lparr>core := create_exception (core db) (pe_fresh_exception env (inv_id iv)) ''erp_reconciliation''
                       ''its ERP sync-back leg failed'' (pe_org env) ''error'' ''open'' iv None\<rparr>)"

text \<open>\<open>erp_resolves\<close> is false when the tenant names an ERP there is no adapter for.\<close>

definition sync_one_leg :: "pay_env \<Rightarrow> bool \<Rightarrow> pay_db \<Rightarrow> uuid \<Rightarrow> leg_outcome \<times> bool \<times> pay_db" where
  "sync_one_leg env erp_resolves db pid =
     (case find_payment db pid of
        None \<Rightarrow> (Skipped, False, db)
      | Some p \<Rightarrow>
          if pm_status p \<noteq> ''completed'' then (Skipped, False, db)
          else if \<not> erp_resolves then (LegFailed, False, flag_sync_failure env db p)
          else case find_invoice db (pm_invoice p) of
            None \<Rightarrow> (Synced, False, db)
          | Some iv \<Rightarrow>
              if status iv \<noteq> Payment_scheduled then (Synced, False, db)
              else case settlement_coverage (pm_settled p) (pm_settled_currency p) (pm_amount p)
                          (Some (currency iv)) (pm_source_amount p) (pm_source_currency p)
                          (pm_unstorable p) SETTLEMENT_AMOUNT_TOLERANCE of
                Inl _ \<Rightarrow> (LegFailed, False, flag_sync_failure env db p)
              | Inr coverage \<Rightarrow>
                  if \<not> completes_invoice coverage then (Held, False, db)
                  else case transition_invoice (pe_role_users env) (pe_occurrence env) (core db) iv Paid None
                              ''invoice.paid_via_erp_sync'' [(''payment_id'', JStr (uuid_str (pm_id p)))] of
                    Inl _ \<Rightarrow> (LegFailed, False, flag_sync_failure env db p)
                  | Inr (iv', core') \<Rightarrow> (Synced, True, db\<lparr>core := put_invoice iv' core'\<rparr>))"

record sync_result =
  sy_synced :: nat
  sy_transitioned :: nat
  sy_skipped :: nat
  sy_held :: nat
  sy_failed :: nat

definition count_leg :: "leg_outcome \<Rightarrow> bool \<Rightarrow> sync_result \<Rightarrow> sync_result" where
  "count_leg oc moved r =
     (let r' = (if moved then r\<lparr>sy_transitioned := sy_transitioned r + 1\<rparr> else r)
      in case oc of
           Synced \<Rightarrow> r'\<lparr>sy_synced := sy_synced r + 1\<rparr>
         | Skipped \<Rightarrow> r'\<lparr>sy_skipped := sy_skipped r + 1\<rparr>
         | Held \<Rightarrow> r'\<lparr>sy_held := sy_held r + 1\<rparr>
         | LegFailed \<Rightarrow> r'\<lparr>sy_failed := sy_failed r + 1\<rparr>)"

fun sync_legs :: "pay_env \<Rightarrow> bool \<Rightarrow> uuid list \<Rightarrow> sync_result \<times> pay_db \<Rightarrow> sync_result \<times> pay_db" where
  "sync_legs env ok [] st = st"
| "sync_legs env ok (pid # pids) (r, db) =
     (case sync_one_leg env ok db pid of
        (oc, moved, db') \<Rightarrow> sync_legs env ok pids (count_leg oc moved r, db'))"

definition sync_run_legs :: "pay_env \<Rightarrow> bool \<Rightarrow> pay_db \<Rightarrow> uuid \<Rightarrow> sync_result \<times> pay_db" where
  "sync_run_legs env ok db run =
     sync_legs env ok (sort (map pm_id (run_payments db run)))
       (\<lparr>sy_synced = 0, sy_transitioned = 0, sy_skipped = 0, sy_held = 0, sy_failed = 0\<rparr>, db)"

section \<open>What is stored decides what holds\<close>

lemma compare_settled:
  "compare_legs s rc tol C = Inr v \<Longrightarrow> sv_settled v = Some (Fin s) \<and> sv_settled_currency v = rc"
  by (cases "find (\<lambda>l. \<bar>ctx_sub s (leg_amount l)\<bar> \<le> tol) C")
     (auto simp: compare_legs_def Let_def settle_verdict_def)

lemma verify_settled:
  "verify_settlement (Some r) rc ta tc sa sc tol = Inr v \<Longrightarrow>
     sv_settled v = (case usable_reported_amount r of None \<Rightarrow> coerce_reported_amount r | Some s \<Rightarrow> Some (Fin s))
     \<and> sv_settled_currency v = rc"
proof -
  assume V: "verify_settlement (Some r) rc ta tc sa sc tol = Inr v"
  then obtain legs where L: "build_authorized_legs ta tc sa sc = Inr legs"
    by (auto simp: verify_settlement_def)
  show ?thesis
  proof (cases "usable_reported_amount r")
    case None
    then show ?thesis using V L by (auto simp: verify_settlement_def settle_verdict_def)
  next
    case (Some s)
    then show ?thesis using V L compare_settled
      by (auto simp: verify_settlement_def Let_def settle_verdict_def split: if_splits)
  qed
qed

lemma settle_q_idem: "settle_q x = Inr y \<Longrightarrow> settle_q y = Inr y"
  using quantize_money_idem [of x y] by (simp add: settle_q_def quantize_money_def)

lemma usable_idem: "usable_reported_amount r = Some s \<Longrightarrow> settle_q s = Inr s"
  by (auto simp: usable_reported_amount_def dest: settle_q_idem split: option.splits decimal.splits sum.splits)

lemma persistable_usable:
  assumes "usable_reported_amount r = Some s"
  shows "persistable_settled_amount (Some (Fin s)) = (if \<bar>s\<bar> < 10 ^ 13 then (Some (Fin s), False) else (None, True))"
proof -
  have q: "quantize_half_up 2 (Fin s) = Inr (Fin s)"
    using usable_idem [OF assms] by (simp add: quantize_row_half_up settle_q_def)
  show ?thesis
    using usable_idem [OF assms]
    by (simp add: persistable_settled_amount_def usable_reported_amount_def coerce_reported_amount_def
        fits_numeric_def q SETTLED_AMOUNT_NUMERIC_def)
qed

lemma persistable_unusable:
  assumes "usable_reported_amount r = None" "coerce_reported_amount r = Some d"
  shows "persistable_settled_amount (Some d) = (None, True)"
proof -
  have "usable_reported_amount (RDec d) = None"
    using assms by (simp add: usable_reported_amount_def coerce_reported_amount_def)
  then show ?thesis by (simp add: persistable_settled_amount_def)
qed

lemma coverage_of_columns:
  fixes rc :: "string option"
  assumes "money_col ta" "\<And>x. sa = Some x \<Longrightarrow> money_col x" "money_col s"
    "build_authorized_legs ta tc sa sc = Inr legs"
  defines "C \<equiv> filter (\<lambda>l. same_currency rc (leg_currency l)) legs"
  shows "\<exists>cov. settlement_coverage (Some s) rc ta tc sa sc False SETTLEMENT_AMOUNT_TOLERANCE = Inr cov
     \<and> sc_state cov = (if C = [] then Uncertain
                       else if \<exists>l \<in> set C. leg_amount l - 1/100 \<le> s then Covered else Short)"
proof -
  have col: "money_col (leg_amount l)" if "l \<in> set C" for l
    using legs_of_columns [of ta sa tc sc] assms(1,2,4) that by (auto simp: C_def)
  have cent: "has_scale 2 (1/100)" by (simp add: has_scale_def)
  have sub: "ctx_sub (leg_amount l) (1/100) = leg_amount l - 1/100" if "l \<in> set C" for l
    using sub_exact(2) [OF cent _ col [OF that]] by simp
  have q: "settle_q s = Inr s" using assms(3) by simp
  have gap: "settle_q (ctx_sub (Min (leg_amount ` set C)) s) = Inr (Min (leg_amount ` set C) - s)" if "C \<noteq> []"
  proof -
    have "Min (leg_amount ` set C) \<in> leg_amount ` set C" using that by (intro Min_in) auto
    then have m: "money_col (Min (leg_amount ` set C))" using col by auto
    show ?thesis
      using sub_exact(2,4) [OF money_colD(1) [OF assms(3)] money_col_bound [OF assms(3)] m] by simp
  qed
  have ex: "list_ex (\<lambda>l. ctx_sub (leg_amount l) (1/100) \<le> s) C \<longleftrightarrow> (\<exists>l \<in> set C. leg_amount l - 1/100 \<le> s)"
    using sub by (auto simp: list_ex_iff)
  show ?thesis
    unfolding settlement_coverage_def SETTLEMENT_AMOUNT_TOLERANCE_def
    using assms(4) q gap ex by (simp add: Let_def flip: C_def)
qed

text \<open>
  What becomes of an invoice once a completed payment's settlement is recorded. With no
  figure it may be marked paid; a figure that is no number in range, or in a currency no leg
  authorizes, holds it; otherwise it may be marked paid exactly when the figure reaches some
  authorized leg to within a cent. A report that is not a number at all leaves no trace on the row.
\<close>

theorem recorded_settlement_decides:
  assumes "money_col (pm_amount p)" "\<And>x. pm_source_amount p = Some x \<Longrightarrow> money_col x"
    "pm_settled p = None" "\<not> pm_unstorable p"
    "build_authorized_legs (pm_amount p) (Some (currency iv)) (pm_source_amount p) (pm_source_currency p) = Inr legs"
    "reported_or_fetched fetch p ra rc = (a, c)" "record_settlement fetch p (Some iv) ra rc = Inr (v, p')"
  shows "\<exists>cov. settlement_coverage (pm_settled p') (pm_settled_currency p') (pm_amount p') (Some (currency iv))
        (pm_source_amount p') (pm_source_currency p') (pm_unstorable p') SETTLEMENT_AMOUNT_TOLERANCE = Inr cov
     \<and> sc_state cov =
        (let C = filter (\<lambda>l. same_currency c (leg_currency l)) legs
         in case a of
              None \<Rightarrow> Covered
            | Some r \<Rightarrow>
                (case usable_reported_amount r of
                   None \<Rightarrow> if coerce_reported_amount r = None then Covered else Uncertain
                 | Some s \<Rightarrow>
                     if 10 ^ 13 \<le> \<bar>s\<bar> \<or> C = [] then Uncertain
                     else if \<exists>l \<in> set C. leg_amount l - 1/100 \<le> s then Covered else Short))"
proof -
  have v: "verify_settlement a c (pm_amount p) (Some (currency iv)) (pm_source_amount p) (pm_source_currency p)
      SETTLEMENT_AMOUNT_TOLERANCE = Inr v" and p': "p' = store_settlement p v"
    using assms(6,7) by (auto simp: record_settlement_def)
  show ?thesis
  proof (cases a)
    case None
    then have "sv_settled v = None" using v by (auto simp: verify_settlement_def settle_verdict_def)
    then show ?thesis using None assms(3,4)
      by (simp add: p' store_settlement_def persistable_settled_amount_def settlement_coverage_def)
  next
    case (Some r)
    note sv = verify_settled [OF v [unfolded Some]]
    show ?thesis
    proof (cases "usable_reported_amount r")
      case None
      show ?thesis
      proof (cases "coerce_reported_amount r")
        case None
        then show ?thesis using Some \<open>usable_reported_amount r = None\<close> sv assms(3,4)
          by (simp add: p' store_settlement_def persistable_settled_amount_def settlement_coverage_def)
      next
        case (Some d)
        then show ?thesis using \<open>a = Some r\<close> \<open>usable_reported_amount r = None\<close> sv
          persistable_unusable [OF None Some]
          by (simp add: p' store_settlement_def settlement_coverage_def)
      qed
    next
      case (Some s)
      show ?thesis
      proof (cases "\<bar>s\<bar> < 10 ^ 13")
        case True
        then have m: "money_col s" using usable_scaled [OF Some] by (simp add: money_col_def)
        have st: "p' = p\<lparr>pm_settled := Some s, pm_settled_currency := c\<rparr>"
          using sv Some True persistable_usable [OF Some] by (simp add: p' store_settlement_def)
        obtain cov where "settlement_coverage (Some s) c (pm_amount p) (Some (currency iv)) (pm_source_amount p)
            (pm_source_currency p) False SETTLEMENT_AMOUNT_TOLERANCE = Inr cov"
          "sc_state cov = (if filter (\<lambda>l. same_currency c (leg_currency l)) legs = [] then Uncertain
             else if \<exists>l \<in> set (filter (\<lambda>l. same_currency c (leg_currency l)) legs). leg_amount l - 1/100 \<le> s
             then Covered else Short)"
          using coverage_of_columns [OF assms(1,2) m assms(5), where rc = c] by blast
        then show ?thesis using \<open>a = Some r\<close> Some True assms(4) by (simp add: st Let_def not_le)
      next
        case False
        then show ?thesis using \<open>a = Some r\<close> Some sv persistable_usable [OF Some]
          by (simp add: p' store_settlement_def settlement_coverage_def Let_def)
      qed
    qed
  qed
qed


definition sample_payment :: payment where
  "sample_payment =
     \<lparr>pm_id = 90, pm_correlation = Some 91, pm_invoice = 10, pm_run = Some 40, pm_amount = 100,
      pm_method = Some ''ach'', pm_status = ''submitted'', pm_reference = None, pm_provider = Some ''stripe'',
      pm_provider_id = Some ''tr_1'', pm_failure = None, pm_retry_of = None, pm_submitted_at = Some 0,
      pm_completed_at = None, pm_settled = None, pm_settled_currency = None, pm_unstorable = False,
      pm_source_currency = None, pm_source_amount = None, pm_fx_rate = None, pm_fx_locked_at = None,
      pm_corridor = None, pm_country = None, pm_entity = None\<rparr>"

text \<open>A processor that reports 60 of the authorized 100 leaves the invoice short.\<close>

theorem recorded_settlement_witness:
  "\<exists>v p'. record_settlement (\<lambda>_. Inl TypeError) sample_payment (Some sample_payable) (Some (RInt 60)) (Some ''USD'')
       = Inr (v, p')
     \<and> (\<exists>cov. settlement_coverage (pm_settled p') (pm_settled_currency p') (pm_amount p') (Some ''USD'')
          (pm_source_amount p') (pm_source_currency p') (pm_unstorable p') SETTLEMENT_AMOUNT_TOLERANCE = Inr cov
        \<and> sc_state cov = Short)"
proof -
  have col: "money_col 100" "money_col 60" by (simp_all add: money_col_def has_scale_def)
  have u: "usable_reported_amount (RInt 60) = Some 60"
    by (simp add: usable_reported_amount_def coerce_reported_amount_def col)
  have legs: "build_authorized_legs 100 (Some ''USD'') None None =
      Inr [\<lparr>leg_amount = 100, leg_currency = Some ''USD'', leg_side = ''target''\<rparr>]"
    by (simp add: build_authorized_legs_def col)
  have sub: "ctx_sub 60 100 = - 40"
    using sub_exact(2) [of 100 60] by (simp add: has_scale_def money_col_def)
  have q: "settle_q (- 40) = Inr (- 40)" by (rule settle_q_scaled) (simp_all add: has_scale_def)
  have same: "same_currency (Some ''USD'') (Some ''USD'')" by (simp add: same_currency_def)
  have r: "\<exists>v p'. record_settlement (\<lambda>_. Inl TypeError) sample_payment (Some sample_payable) (Some (RInt 60))
      (Some ''USD'') = Inr (v, p')"
    by (simp add: record_settlement_def reported_or_fetched_def sample_payment_def sample_payable_def
        verify_settlement_def legs u same compare_legs_def sub q SETTLEMENT_AMOUNT_TOLERANCE_def Let_def)
  then obtain v p' where r: "record_settlement (\<lambda>_. Inl TypeError) sample_payment (Some sample_payable)
      (Some (RInt 60)) (Some ''USD'') = Inr (v, p')" by blast
  have f: "reported_or_fetched (\<lambda>_. Inl TypeError) sample_payment (Some (RInt 60)) (Some ''USD'') =
      (Some (RInt 60), Some ''USD'')" by (simp add: reported_or_fetched_def)
  have l: "build_authorized_legs (pm_amount sample_payment) (Some (currency sample_payable))
      (pm_source_amount sample_payment) (pm_source_currency sample_payment) =
      Inr [\<lparr>leg_amount = 100, leg_currency = Some ''USD'', leg_side = ''target''\<rparr>]"
    using legs by (simp add: sample_payment_def sample_payable_def)
  have pre: "money_col (pm_amount sample_payment)" "pm_settled sample_payment = None" "\<not> pm_unstorable sample_payment"
    "\<And>x. pm_source_amount sample_payment = Some x \<Longrightarrow> money_col x"
    using col by (simp_all add: sample_payment_def)
  show ?thesis
    using recorded_settlement_decides [OF pre(1,4,2,3) l f r] r
    by (auto simp: u same Let_def sample_payable_def)
qed

section \<open>The pass marks exactly the settled invoices\<close>

definition settles :: "bool \<Rightarrow> payment \<Rightarrow> invoice \<Rightarrow> bool" where
  "settles ok p iv \<longleftrightarrow>
     ok \<and> pm_invoice p = inv_id iv \<and> pm_status p = ''completed''
     \<and> (\<exists>cov. settlement_coverage (pm_settled p) (pm_settled_currency p) (pm_amount p) (Some (currency iv))
           (pm_source_amount p) (pm_source_currency p) (pm_unstorable p) SETTLEMENT_AMOUNT_TOLERANCE = Inr cov
         \<and> completes_invoice cov)"

definition mark_paid :: "bool \<Rightarrow> payment list \<Rightarrow> invoice \<Rightarrow> invoice" where
  "mark_paid ok ps iv =
     (if status iv = Payment_scheduled \<and> (\<exists>p \<in> set ps. settles ok p iv) then iv\<lparr>status := Paid\<rparr> else iv)"

lemma settles_status [simp]: "settles ok p (iv\<lparr>status := s\<rparr>) = settles ok p iv"
  by (simp add: settles_def)

lemma mark_paid_mark_paid: "mark_paid ok ps (mark_paid ok [p] iv) = mark_paid ok (p # ps) iv"
  by (auto simp: mark_paid_def)

lemma mark_paid_id [simp]: "inv_id (mark_paid ok ps iv) = inv_id iv"
  by (simp add: mark_paid_def)

lemma mark_paid_none [simp]: "mark_paid ok [] = (\<lambda>iv. iv)"
  by (simp add: mark_paid_def fun_eq_iff)

lemma flag_sync_failure_frame [simp]:
  "invoices (core (flag_sync_failure env db p)) = invoices (core db)"
  "payments (flag_sync_failure env db p) = payments db"
  by (simp_all add: flag_sync_failure_def split: option.split)

lemma put_invoice_map: "invoices (put_invoice iv db) = map (\<lambda>i. if inv_id i = inv_id iv then iv else i) (invoices db)"
  by (simp add: put_invoice_def update_where_def)

lemma find_invoice_key:
  "distinct (map inv_id (invoices (core db))) \<Longrightarrow> iv \<in> set (invoices (core db)) \<Longrightarrow> inv_id iv = i \<Longrightarrow>
     find_invoice db i = Some iv"
  unfolding find_invoice_def using find_by_key by fastforce

lemma unmarked: "(\<And>iv. iv \<in> set ivs \<Longrightarrow> status iv = Payment_scheduled \<Longrightarrow> \<not> settles ok p iv) \<Longrightarrow>
    map (mark_paid ok [p]) ivs = ivs"
  by (rule map_idI) (auto simp: mark_paid_def)

lemma sync_one_leg_effect:
  assumes "distinct (map inv_id (invoices (core db)))" "find_payment db pid = Some p"
    "sync_one_leg env ok db pid = (oc, moved, db')"
  shows "invoices (core db') = map (mark_paid ok [p]) (invoices (core db)) \<and> payments db' = payments db
     \<and> (moved \<longrightarrow> (\<exists>iv \<in> set (invoices (core db)). status iv = Payment_scheduled \<and> settles ok p iv))"
proof (cases "find_invoice db (pm_invoice p)")
  case None
  then have "\<not> settles ok p iv" if "iv \<in> set (invoices (core db))" for iv
    using that by (auto simp: find_invoice_def find_None_iff settles_def)
  then have "map (mark_paid ok [p]) (invoices (core db)) = invoices (core db)" by (simp add: unmarked)
  then show ?thesis using assms(2,3) None by (auto simp: sync_one_leg_def split: if_splits)
next
  case (Some iv)
  note iv = find_invoice_Some [OF Some]
  have only: "j = iv" if "j \<in> set (invoices (core db))" "settles ok p j" for j
    using find_invoice_key [OF assms(1) that(1)] that(2) Some by (simp add: settles_def)
  show ?thesis
  proof (cases "status iv = Payment_scheduled \<and> settles ok p iv")
    case True
    then obtain cov where cov: "settlement_coverage (pm_settled p) (pm_settled_currency p) (pm_amount p)
        (Some (currency iv)) (pm_source_amount p) (pm_source_currency p) (pm_unstorable p)
        SETTLEMENT_AMOUNT_TOLERANCE = Inr cov" "completes_invoice cov" and ok: "ok" "pm_status p = ''completed''"
      by (auto simp: settles_def)
    have "Paid \<in> set (VALID_TRANSITIONS (status iv))" using True by simp
    then obtain c where t: "transition_invoice (pe_role_users env) (pe_occurrence env) (core db) iv Paid None
        ''invoice.paid_via_erp_sync'' [(''payment_id'', JStr (uuid_str (pm_id p)))] = Inr (iv\<lparr>status := Paid\<rparr>, c)"
      using transition_invoice_ok by blast
    have db': "db' = db\<lparr>core := put_invoice (iv\<lparr>status := Paid\<rparr>) c\<rparr>"
      using assms(2,3) Some True ok cov t by (simp add: sync_one_leg_def)
    have "map (mark_paid ok [p]) (invoices (core db)) =
        map (\<lambda>i. if inv_id i = inv_id iv then iv\<lparr>status := Paid\<rparr> else i) (invoices (core db))"
    proof (rule map_cong [OF refl])
      fix j assume j: "j \<in> set (invoices (core db))"
      show "mark_paid ok [p] j = (if inv_id j = inv_id iv then iv\<lparr>status := Paid\<rparr> else j)"
      proof (cases "j = iv")
        case True
        then show ?thesis using \<open>status iv = Payment_scheduled \<and> settles ok p iv\<close> by (simp add: mark_paid_def)
      next
        case False
        have "find_invoice db (inv_id j) = Some j" using find_invoice_key [OF assms(1) j refl] .
        then have "inv_id j \<noteq> inv_id iv" using False Some iv by auto
        moreover have "\<not> settles ok p j" using only [OF j] False by blast
        ultimately show ?thesis by (simp add: mark_paid_def)
      qed
    qed
    then show ?thesis using transition_invoice_Inr(5) [OF t] True iv by (auto simp: db' put_invoice_map)
  next
    case False
    then have m: "map (mark_paid ok [p]) (invoices (core db)) = invoices (core db)"
      using only by (intro unmarked) blast
    have "db' = db \<and> \<not> moved \<or> db' = flag_sync_failure env db p \<and> \<not> moved"
    proof (cases "pm_status p = ''completed'' \<and> ok \<and> status iv = Payment_scheduled")
      case True
      then have "settlement_coverage (pm_settled p) (pm_settled_currency p) (pm_amount p) (Some (currency iv))
          (pm_source_amount p) (pm_source_currency p) (pm_unstorable p) SETTLEMENT_AMOUNT_TOLERANCE = Inr cov
          \<Longrightarrow> \<not> completes_invoice cov" for cov
        using False iv by (simp add: settles_def)
      then show ?thesis using True assms(2,3) Some by (auto simp: sync_one_leg_def split: sum.splits if_splits)
    next
      case False
      then show ?thesis using assms(2,3) Some by (auto simp: sync_one_leg_def split: if_splits)
    qed
    then show ?thesis unfolding m by auto
  qed
qed

lemma sync_legs_effect:
  assumes "distinct (map inv_id (invoices (core db)))"
    "\<And>pid. pid \<in> set pids \<Longrightarrow> find_payment db pid \<noteq> None" "sync_legs env ok pids (r, db) = (r', db')"
  shows "invoices (core db') = map (mark_paid ok (map (\<lambda>i. the (find_payment db i)) pids)) (invoices (core db))
     \<and> payments db' = payments db
     \<and> ((\<forall>iv \<in> set (invoices (core db)). status iv = Payment_scheduled \<longrightarrow>
            (\<forall>i \<in> set pids. \<not> settles ok (the (find_payment db i)) iv)) \<longrightarrow> sy_transitioned r' = sy_transitioned r)"
  using assms
proof (induction pids arbitrary: r db)
  case Nil
  then show ?case by simp
next
  case (Cons pid pids)
  obtain p where p: "find_payment db pid = Some p" using Cons.prems(2) [of pid] by auto
  obtain oc moved db1 where s: "sync_one_leg env ok db pid = (oc, moved, db1)" by (cases "sync_one_leg env ok db pid")
  note one = sync_one_leg_effect [OF Cons.prems(1) p s]
  have same: "find_payment db1 = find_payment db" using one by (simp add: find_payment_def fun_eq_iff)
  have d: "distinct (map inv_id (invoices (core db1)))" using one Cons.prems(1) by (simp add: comp_def)
  have rest: "sync_legs env ok pids (count_leg oc moved r, db1) = (r', db')" using Cons.prems(3) s by simp
  have ex: "\<And>i. i \<in> set pids \<Longrightarrow> find_payment db1 i \<noteq> None" using Cons.prems(2) same by simp
  note ih = Cons.IH [OF d ex rest, unfolded same]
  have quiet: "sy_transitioned (count_leg oc moved r) = sy_transitioned r" if "\<not> moved"
    using that by (simp add: count_leg_def Let_def split: leg_outcome.splits)
  show ?case
  proof (intro conjI impI)
    show "invoices (core db') = map (mark_paid ok (map (\<lambda>i. the (find_payment db i)) (pid # pids))) (invoices (core db))"
      using ih one p by (simp add: comp_def mark_paid_mark_paid)
    show "payments db' = payments db" using ih one by simp
    assume n: "\<forall>iv \<in> set (invoices (core db)). status iv = Payment_scheduled \<longrightarrow>
      (\<forall>i \<in> set (pid # pids). \<not> settles ok (the (find_payment db i)) iv)"
    then have "\<not> moved" and "map (mark_paid ok [p]) (invoices (core db)) = invoices (core db)"
      using one p unmarked [of "invoices (core db)" ok p] by auto
    then show "sy_transitioned r' = sy_transitioned r" using ih one n quiet by simp
  qed
qed

lemma run_leg_ids:
  assumes "distinct (map pm_id (payments db))"
  shows "set (map (\<lambda>i. the (find_payment db i)) (sort (map pm_id (run_payments db run)))) = set (run_payments db run)"
    "\<And>i. i \<in> set (sort (map pm_id (run_payments db run))) \<Longrightarrow> find_payment db i \<noteq> None"
proof -
  have f: "find_payment db (pm_id p) = Some p" if "p \<in> set (run_payments db run)" for p
    using find_by_key [OF assms] that by (simp add: find_payment_def run_payments_def)
  show "set (map (\<lambda>i. the (find_payment db i)) (sort (map pm_id (run_payments db run)))) = set (run_payments db run)"
    using f by (auto simp: image_image)
  show "\<And>i. i \<in> set (sort (map pm_id (run_payments db run))) \<Longrightarrow> find_payment db i \<noteq> None"
    using f by auto
qed

lemma sync_run_legs_effect:
  assumes d: "distinct (map pm_id (payments db))" "distinct (map inv_id (invoices (core db)))"
    and s: "sync_run_legs env ok db run = (r, db')"
  shows "invoices (core db') = map (mark_paid ok (run_payments db run)) (invoices (core db))
     \<and> payments db' = payments db
     \<and> ((\<forall>iv \<in> set (invoices (core db)). status iv = Payment_scheduled \<longrightarrow>
            (\<forall>p \<in> set (run_payments db run). \<not> settles ok p iv)) \<longrightarrow> sy_transitioned r = 0)"
proof -
  note ids = run_leg_ids [OF d(1), where run = run]
  have m: "mark_paid ok (map (\<lambda>i. the (find_payment db i)) (sort (map pm_id (run_payments db run)))) =
      mark_paid ok (run_payments db run)"
    unfolding mark_paid_def ids(1) ..
  have b: "(\<forall>i \<in> set (sort (map pm_id (run_payments db run))). \<not> settles ok (the (find_payment db i)) iv) \<longleftrightarrow>
      (\<forall>p \<in> set (run_payments db run). \<not> settles ok p iv)" for iv
    by (subst ids(1) [symmetric]) (simp add: ball_simps)
  show ?thesis
    using sync_legs_effect [OF d(2) ids(2) s [unfolded sync_run_legs_def], unfolded m b] by simp
qed

text \<open>
  C17: The pass over a run's payments marks paid exactly those invoices awaiting payment that have a
  completed payment in the run whose recorded settlement covers them, and touches no other
  invoice and no payment; with no adapter for the tenant's ERP it marks none.
\<close>

theorem sync_marks_settled_invoices:
  assumes "keys_unique db" "sync_run_legs env ok db run = (r, db')"
  shows "invoices (core db') =
       map (\<lambda>iv. if status iv = Payment_scheduled \<and> (\<exists>p \<in> set (run_payments db run). settles ok p iv)
                 then iv\<lparr>status := Paid\<rparr> else iv) (invoices (core db))
     \<and> payments db' = payments db"
  using sync_run_legs_effect [OF _ _ assms(2)] assms(1) by (simp add: keys_unique_def mark_paid_def [abs_def])

definition sample_paying_db :: pay_db where
  "sample_paying_db = sample_pay_db
     \<lparr>core := (core sample_pay_db)\<lparr>invoices := [sample_payable\<lparr>status := Payment_scheduled\<rparr>]\<rparr>,
      payments := [sample_payment\<lparr>pm_status := ''completed''\<rparr>]\<rparr>"

theorem sync_marks_settled_witness:
  "\<exists>r db'. sync_run_legs sample_pay_env True sample_paying_db 40 = (r, db')
     \<and> map status (invoices (core db')) = [Paid]"
proof -
  obtain r db' where s: "sync_run_legs sample_pay_env True sample_paying_db 40 = (r, db')"
    by (cases "sync_run_legs sample_pay_env True sample_paying_db 40")
  have k: "keys_unique sample_paying_db"
    by (simp add: keys_unique_def sample_paying_db_def sample_pay_db_def)
  show ?thesis
    using sync_marks_settled_invoices [OF k s] s
    by (simp add: sample_paying_db_def sample_pay_db_def run_payments_def sample_payment_def settles_def
        sample_payable_def sample_invoice_def settlement_coverage_def completes_invoice_def)
qed

text \<open>Running the pass again right after it marks no further invoice.\<close>

theorem second_sync_moves_nothing:
  assumes "keys_unique db" "sync_run_legs env ok db run = (r, db')" "sync_run_legs env ok db' run = (r2, db2)"
  shows "sy_transitioned r2 = 0 \<and> invoices (core db2) = invoices (core db')"
proof -
  have d: "distinct (map pm_id (payments db))" "distinct (map inv_id (invoices (core db)))"
    using assms(1) by (simp_all add: keys_unique_def)
  note one = sync_run_legs_effect [OF d assms(2)]
  have rp: "run_payments db' run = run_payments db run" using one by (simp add: run_payments_def)
  have k: "distinct (map pm_id (payments db'))" "distinct (map inv_id (invoices (core db')))"
    using one d by (simp_all add: comp_def)
  have none: "\<not> settles ok p iv" if new: "iv \<in> set (invoices (core db'))" "status iv = Payment_scheduled"
    "p \<in> set (run_payments db run)" for iv p
  proof -
    obtain iv0 where "iv0 \<in> set (invoices (core db))" "iv = mark_paid ok (run_payments db run) iv0"
      using new(1) conjunct1 [OF one] by auto
    then show ?thesis using new(2,3) by (auto simp: mark_paid_def split: if_splits)
  qed
  have "\<forall>iv \<in> set (invoices (core db')). mark_paid ok (run_payments db run) iv = iv"
    using none by (auto simp: mark_paid_def)
  then have same: "map (mark_paid ok (run_payments db run)) (invoices (core db')) = invoices (core db')"
    by (simp add: map_idI)
  show ?thesis
    using sync_run_legs_effect [OF k assms(3)] none same by (simp add: rp)
qed

text \<open>The pass leaves payments and runs alone.\<close>

lemma flag_sync_failure_rows:
  "payments (flag_sync_failure env db p) = payments db" "runs (flag_sync_failure env db p) = runs db"
  by (simp_all add: flag_sync_failure_def split: option.split)

lemma sync_one_leg_rows:
  "sync_one_leg env ok db pid = (oc, moved, db') \<Longrightarrow> payments db' = payments db \<and> runs db' = runs db"
  by (auto simp: sync_one_leg_def flag_sync_failure_rows split: option.splits if_splits sum.splits)

lemma sync_legs_rows: "sync_legs env ok pids (r, db) = (r', db') \<Longrightarrow> payments db' = payments db \<and> runs db' = runs db"
proof (induction pids arbitrary: r db)
  case (Cons pid pids)
  obtain oc moved db1 where "sync_one_leg env ok db pid = (oc, moved, db1)" by (cases "sync_one_leg env ok db pid")
  then show ?case using Cons.IH Cons.prems sync_one_leg_rows by fastforce
qed simp

end
