(* ===== verification/Payment_Dispatch.thy ===== *)
theory Payment_Dispatch
  imports Compliance Settlement_Record "HOL-Library.Sublist"
begin

text \<open>
  Handing payments to the processor (api/payments.py: \<open>_execute_single_payment\<close>,
  \<open>_dispatch_run_payments\<close> and the exception they open; services/card_issuance.py for the
  virtual-card rail).

  An attempt returns the exception that escaped it, if any, the payment's row and the
  database, because the loop around it keeps what the attempt had already written. Every order handed
  to the processor is appended to \<open>orders\<close> before the processor answers. The adapters are
  parameters: the processor, the FX source and the card issuer (\<open>None\<close> when the tenant
  names one that is not deployed) and the screening provider. A failure reason keeps its fixed
  text. Not modelled: discount capture and the card e-mail, which are best effort, and the network
  card link. A rate of infinity, which an FX source could return, fails the flush of the row, the
  DataError branch; the model records that payment as failed, while the aborted session would also make
  the audit row and the commit that follow raise and end the pass.
\<close>

section \<open>Adapters\<close>

record pay_reply =
  py_status :: string
  py_provider_id :: "string option"
  py_reference :: "string option"
  py_failure :: "string option"

text \<open>The idempotency key of a card order is a UUID5 of the anchor and the sequence number; the
  order carries the two.\<close>

record card_order =
  cq_anchor :: uuid
  cq_seq :: nat
  cq_amount :: rat
  cq_currency :: string

record card_reply =
  cr_success :: bool
  cr_last_four :: "string option"
  cr_failure :: "string option"

record dispatch_env =
  de_pay :: pay_env
  de_provider :: string
  de_processor :: "payload \<Rightarrow> pay_reply py"
  de_fx :: "fx_provider option"
  de_screen :: "(vendor \<Rightarrow> screening py) option"
  de_issuer :: "(string \<times> (card_order \<Rightarrow> card_reply py)) option"
  de_card_days :: int
  de_fresh_card :: "uuid \<Rightarrow> uuid"

text \<open>The class name of an exception, which is all of it a failure reason may carry.\<close>

primrec exc_name :: "py_exc \<Rightarrow> string" where
  "exc_name (HTTPException c d) = ''HTTPException''"
| "exc_name AttributeError = ''AttributeError''"
| "exc_name KeyError = ''KeyError''"
| "exc_name ValueError = ''ValueError''"
| "exc_name TypeError = ''TypeError''"
| "exc_name LookupError = ''LookupError''"
| "exc_name InvalidOperation = ''InvalidOperation''"
| "exc_name IntegrityError = ''IntegrityError''"
| "exc_name MultipleResultsFound = ''MultipleResultsFound''"
| "exc_name (UnknownStepTypeError s) = ''UnknownStepTypeError''"
| "exc_name (NonCanonicalStepTypeError s) = ''NonCanonicalStepTypeError''"
| "exc_name (PlanChangeError s) = ''PlanChangeError''"
| "exc_name InternationalPaymentError = ''InternationalPaymentError''"
| "exc_name DataError = ''DataError''"
| "exc_name (RemoteError s) = s"

section \<open>Cards\<close>

definition CARD_SPENT_STATUSES :: "string set" where
  "CARD_SPENT_STATUSES = {''charged'', ''completed''}"

definition reissue_sequence :: "pay_db \<Rightarrow> uuid \<Rightarrow> nat" where
  "reissue_sequence db i = length (filter (\<lambda>c. vc_invoice c = i) (cards db))"

definition find_live_card_for_invoice :: "pay_db \<Rightarrow> uuid \<Rightarrow> virtual_card option" where
  "find_live_card_for_invoice db i = find (\<lambda>c. vc_invoice c = i \<and> vc_status c \<noteq> ''cancelled'') (cards db)"

definition card_settlement_block :: "virtual_card \<Rightarrow> rat \<Rightarrow> time \<Rightarrow> string option" where
  "card_settlement_block c amt now =
     (if vc_status c \<in> CARD_SPENT_STATUSES then Some ''card_already_charged''
      else if (case vc_expires_at c of None \<Rightarrow> False | Some e \<Rightarrow> e \<le> now) then Some ''card_expired''
      else if vc_limit c < amt then Some ''card_already_issued_insufficient_limit''
      else None)"

text \<open>The flush against \<open>uq_virtual_cards_one_live_per_invoice\<close>.\<close>

definition persist_card :: "pay_db \<Rightarrow> virtual_card \<Rightarrow> bool \<times> pay_db" where
  "persist_card db c =
     (if vc_status c \<noteq> ''cancelled'' \<and> find_live_card_for_invoice db (vc_invoice c) \<noteq> None then (False, db)
      else (True, db\<lparr>cards := cards db @ [c]\<rparr>))"

definition cards_enabled :: "json \<Rightarrow> bool py" where
  "cards_enabled org_settings =
     py_bind (or_empty_get org_settings ''cards'') (\<lambda>c.
     py_bind (or_empty_get c ''enabled'') (\<lambda>v. Inr (truthy v)))"

text \<open>The reason it failed, or the card. A zero amount falls back on the invoice's.\<close>

definition issue_card_for_invoice ::
    "dispatch_env \<Rightarrow> pay_db \<Rightarrow> invoice \<Rightarrow> uuid \<Rightarrow> rat \<Rightarrow> (string + virtual_card) py" where
  "issue_card_for_invoice env db iv pid amt =
     py_bind (cards_enabled (pe_settings (de_pay env))) (\<lambda>on.
       if \<not> on then Inr (Inl ''cards_not_enabled'')
       else case de_issuer env of
         None \<Rightarrow> Inr (Inl ''card_provider_not_configured'')
       | Some (provider, create_card) \<Rightarrow>
           let face = (if amt = 0 then amount iv else amt);
               cur = (if currency iv = [] then ''USD'' else currency iv)
           in (case create_card \<lparr>cq_anchor = correlation_id iv, cq_seq = reissue_sequence db (inv_id iv),
                                 cq_amount = face, cq_currency = cur\<rparr> of
                 Inl e \<Rightarrow> Inr (Inl (''adapter_error:'' @ exc_name e))
               | Inr r \<Rightarrow>
                   if \<not> cr_success r then
                     Inr (Inl (if get_or (cr_failure r) [] = [] then ''adapter_returned_failure''
                               else get_or (cr_failure r) []))
                   else Inr (Inr \<lparr>vc_id = de_fresh_card env pid, vc_invoice = inv_id iv, vc_payment = Some pid, vc_correlation = Some (correlation_id iv),
                                  vc_provider = provider, vc_last_four = cr_last_four r, vc_limit = face,
                                  vc_currency = cur, vc_status = ''created'',
                                  vc_expires_at = Some (pe_now (de_pay env) + days_us (de_card_days env))\<rparr>)))"

section \<open>Ending an attempt\<close>

type_synonym attempt = "py_exc option \<times> payment \<times> pay_db"

definition fail_payment :: "dispatch_env \<Rightarrow> string \<Rightarrow> payment \<Rightarrow> payment" where
  "fail_payment env reason p =
     p\<lparr>pm_status := ''failed'', pm_failure := Some reason, pm_completed_at := Some (pe_now (de_pay env))\<rparr>"

definition open_compliance_hold_exception :: "pay_env \<Rightarrow> payment \<Rightarrow> invoice \<Rightarrow> wf_db \<Rightarrow> wf_db" where
  "open_compliance_hold_exception env p iv db =
     (if list_ex (\<lambda>e. ex_invoice e = Some (inv_id iv) \<and> ex_type e = ''payment_compliance_hold''
                      \<and> ex_status e = ''open'') (exceptions db) then db
      else create_exception db (pe_fresh_exception env (inv_id iv)) ''payment_compliance_hold'' (get_or (pm_failure p) [])
             (pe_org env) ''error'' ''open'' iv None)"

definition join_reasons :: "string list \<Rightarrow> string" where
  "join_reasons rs =
     (case rs of [] \<Rightarrow> [] | r # rest \<Rightarrow> r @ concat (map (\<lambda>s. ''; '' @ s) rest))"

definition hold_payment :: "dispatch_env \<Rightarrow> invoice \<Rightarrow> string list \<Rightarrow> payment \<Rightarrow> pay_db \<Rightarrow> attempt" where
  "hold_payment env iv reasons p db =
     (let p' = p\<lparr>pm_status := ''pending_compliance'', pm_failure := Some (''compliance_hold: '' @ join_reasons reasons)\<rparr>
      in (None, p', db\<lparr>core := open_compliance_hold_exception (de_pay env) p' iv (core db)\<rparr>))"

definition schedule_invoice ::
    "dispatch_env \<Rightarrow> string \<Rightarrow> invoice \<Rightarrow> jdict \<Rightarrow> payment \<Rightarrow> pay_db \<Rightarrow> attempt" where
  "schedule_invoice env action iv details p db =
     (if status iv \<in> set SCHEDULABLE_INVOICE_STATUSES then
        (case transition_invoice (pe_role_users (de_pay env)) (pe_occurrence (de_pay env)) (core db) iv
                Payment_scheduled (Some (pe_user (de_pay env))) action details of
           Inl e \<Rightarrow> (Some e, p, db)
         | Inr (iv', core') \<Rightarrow> (None, p, db\<lparr>core := put_invoice iv' core'\<rparr>))
      else (None, p, db))"

section \<open>The refusals before anything is ordered\<close>

definition dispatch_refusal :: "pay_db \<Rightarrow> invoice \<Rightarrow> payment \<Rightarrow> string option" where
  "dispatch_refusal db iv p =
     (if status iv \<notin> set PAYABLE_INVOICE_STATUSES
      then Some (''invoice_not_payable:'' @ status_value (status iv))
      else case blocking_exception_types db [inv_id iv] (inv_id iv) of
        Some t \<Rightarrow> Some (''invoice_blocked:'' @ t)
      | None \<Rightarrow>
          if card_claimed_invoice_ids db [(inv_id iv, pm_method p)] \<noteq> {} then Some ''invoice_has_live_card''
          else if net_payable_amount db iv \<noteq> pm_amount p then Some ''net_amount_changed''
          else None)"

definition find_vendor :: "pay_db \<Rightarrow> invoice \<Rightarrow> vendor option" where
  "find_vendor db iv = (case vendor_id iv of None \<Rightarrow> None | Some i \<Rightarrow> find (\<lambda>v. vd_id v = i) (vendors db))"

definition comp_env_of :: "dispatch_env \<Rightarrow> comp_env" where
  "comp_env_of env =
     \<lparr>ce_now = pe_now (de_pay env), ce_settings = pe_settings (de_pay env), ce_screen = de_screen env\<rparr>"

text \<open>The figure the compliance gate is handed: the home-currency leg when there is one.\<close>

definition gate_figure :: "payment \<Rightarrow> rat" where
  "gate_figure p =
     (case pm_source_amount p of None \<Rightarrow> pm_amount p | Some s \<Rightarrow> if s = 0 then pm_amount p else s)"

definition gate_currency :: "payment \<Rightarrow> invoice \<Rightarrow> string option" where
  "gate_currency p iv = (if pm_source_amount p \<noteq> None then pm_source_currency p else Some (currency iv))"

text \<open>The gate both rails share; \<open>go\<close> is what follows an allowed payment.\<close>

definition compliance_gate ::
    "dispatch_env \<Rightarrow> invoice \<Rightarrow> payment \<Rightarrow> pay_db \<Rightarrow> (pay_db \<Rightarrow> attempt) \<Rightarrow> attempt" where
  "compliance_gate env iv p db go =
     (case find_vendor db iv of
        None \<Rightarrow> hold_payment env iv [''no screenable vendor on invoice''] p db
      | Some v \<Rightarrow>
          (case check_payment_compliance (comp_env_of env) db v (gate_figure p) (gate_currency p iv)
                  (pm_method p) (pm_correlation p) of
             (Inl e, db1) \<Rightarrow> (Some e, p, db1)
           | (Inr d, db1) \<Rightarrow>
               (case cd_verdict d of
                  Refuse \<Rightarrow> (None, fail_payment env (''compliance_refusal: '' @ join_reasons (cd_reasons d)) p, db1)
                | Hold \<Rightarrow> hold_payment env iv (cd_reasons d) p db1
                | Allow \<Rightarrow> go db1)))"

section \<open>The card rail\<close>

definition settle_on_card ::
    "dispatch_env \<Rightarrow> invoice \<Rightarrow> payment \<Rightarrow> virtual_card \<Rightarrow> bool \<Rightarrow> pay_db \<Rightarrow> attempt" where
  "settle_on_card env iv p c minted db =
     (let now = pe_now (de_pay env);
          p' = p\<lparr>pm_status := ''completed'', pm_provider := Some (vc_provider c), pm_completed_at := Some now,
                 pm_submitted_at := Some now,
                 pm_reference := Some (''CARD-'' @ py_upper (vc_provider c) @ ''-''
                   @ (if get_or (vc_last_four c) [] = [] then ''????'' else get_or (vc_last_four c) []))\<rparr>
      in case schedule_invoice env ''invoice.card_payment_scheduled'' iv
                [(''payment_id'', JStr (uuid_str (pm_id p)))] p' db of
           (Some e, q, db1) \<Rightarrow> (Some e, q, db1)
         | (None, q, db1) \<Rightarrow>
             (None, q, audit_pay (de_pay env) (get_or (pm_correlation p) (correlation_id iv))
                (if minted then ''card.generated'' else ''card.reused'') ''virtual_card'' (vc_id c)
                [(''invoice_id'', JStr (uuid_str (inv_id iv))), (''payment_id'', JStr (uuid_str (pm_id p))),
                 (''last_four'', json_of_option (vc_last_four c)),
                 (''amount'', JStr (pe_money_text (de_pay env) (pm_amount p)))] db1))"

definition put_card :: "virtual_card \<Rightarrow> pay_db \<Rightarrow> pay_db" where
  "put_card c db = db\<lparr>cards := update_where (\<lambda>d. vc_id d = vc_id c) (\<lambda>_. c) (cards db)\<rparr>"

definition converge :: "dispatch_env \<Rightarrow> invoice \<Rightarrow> payment \<Rightarrow> virtual_card option \<Rightarrow> pay_db \<Rightarrow> attempt" where
  "converge env iv p found db =
     (case found of
        None \<Rightarrow> (None, fail_payment env ''card_issuance_conflict'' p, db)
      | Some c \<Rightarrow>
          (case card_settlement_block c (pm_amount p) (pe_now (de_pay env)) of
             Some reason \<Rightarrow> (None, fail_payment env reason p, db)
           | None \<Rightarrow>
               if vc_payment c = None
               then let c' = c\<lparr>vc_payment := Some (pm_id p)\<rparr>
                    in settle_on_card env iv p c' False (put_card c' db)
               else settle_on_card env iv p c False db))"

definition pay_by_card :: "dispatch_env \<Rightarrow> invoice \<Rightarrow> payment \<Rightarrow> pay_db \<Rightarrow> attempt" where
  "pay_by_card env iv p db =
     (case find_live_card_for_invoice db (inv_id iv) of
        Some c \<Rightarrow> converge env iv p (Some c) db
      | None \<Rightarrow>
          (case issue_card_for_invoice env db iv (pm_id p) (pm_amount p) of
             Inl e \<Rightarrow> (Some e, p, db)
           | Inr (Inl reason) \<Rightarrow> (None, fail_payment env reason p, db)
           | Inr (Inr c) \<Rightarrow>
               (case persist_card db c of
                  (True, db1) \<Rightarrow> settle_on_card env iv p c True db1
                | (False, db1) \<Rightarrow> converge env iv p (find_live_card_for_invoice db1 (inv_id iv)) db1)))"


section \<open>The other rails\<close>

definition has_intl_bank_fields :: "bank option \<Rightarrow> bool" where
  "has_intl_bank_fields b \<longleftrightarrow> first_text (get_or b []) [''iban'', ''swift_bic''] \<noteq> []"

definition needs_international :: "dispatch_env \<Rightarrow> invoice \<Rightarrow> payment \<Rightarrow> bank option \<Rightarrow> bool" where
  "needs_international env iv p b \<longleftrightarrow>
     (norm_or (currency iv) ''USD'' \<noteq> resolve_home_currency (pe_settings (de_pay env))
      \<or> is_international_payment p \<or> has_intl_bank_fields b)
     \<and> pm_fx_rate p = None"

definition copy_prepared :: "prepared \<Rightarrow> rat option \<Rightarrow> payment \<Rightarrow> payment" where
  "copy_prepared pp rate p =
     p\<lparr>pm_method := Some (co_method (pp_corridor pp)), pm_source_currency := Some (pp_source_currency pp),
       pm_source_amount := Some (pp_source_amount pp), pm_fx_rate := rate, pm_fx_locked_at := pp_locked_at pp,
       pm_corridor := Some (co_method (pp_corridor pp)), pm_country := pp_country pp\<rparr>"

text \<open>The payment priced for its corridor, or the reason it fails.\<close>

definition international_leg :: "dispatch_env \<Rightarrow> invoice \<Rightarrow> payment \<Rightarrow> bank option \<Rightarrow> (string + payment) py" where
  "international_leg env iv p b =
     (if \<not> needs_international env iv p b then Inr (Inr p)
      else case de_fx env of
        None \<Rightarrow> Inr (Inl ''fx_provider_unsupported'')
      | Some fx \<Rightarrow>
          (case prepare_international_payment iv b (resolve_home_currency (pe_settings (de_pay env))) fx (pm_method p) of
             Inl e \<Rightarrow> if e = InternationalPaymentError then Inr (Inl ''international_payment_error: '') else Inl e
           | Inr pp \<Rightarrow>
               (case pp_rate pp of
                  None \<Rightarrow> Inr (Inr (copy_prepared pp None p))
                | Some (Fin r) \<Rightarrow> Inr (Inr (copy_prepared pp (Some r) p))
                | Some _ \<Rightarrow> Inl DataError)))"

definition order_of :: "invoice \<Rightarrow> payment \<Rightarrow> payload" where
  "order_of iv p =
     \<lparr>pl_key = get_or (pm_correlation p) (pm_id p), pl_invoice = pm_invoice p, pl_vendor = vendor_name iv,
      pl_amount = pm_amount p, pl_currency = currency iv,
      pl_method = (if get_or (pm_method p) [] = [] then ''ach'' else get_or (pm_method p) []),
      pl_source_currency = pm_source_currency p, pl_source_amount = pm_source_amount p,
      pl_fx_rate = pm_fx_rate p, pl_country = pm_country p\<rparr>"

definition take_reply :: "dispatch_env \<Rightarrow> invoice \<Rightarrow> payment \<Rightarrow> pay_reply \<Rightarrow> pay_db \<Rightarrow> attempt" where
  "take_reply env iv p r db =
     (let now = pe_now (de_pay env);
          p1 = p\<lparr>pm_provider := Some (de_provider env), pm_provider_id := py_provider_id r,
                 pm_reference := (if get_or (py_reference r) [] \<noteq> [] then py_reference r else pm_reference p),
                 pm_submitted_at := Some now\<rparr>;
          details = [(''payment_id'', JStr (uuid_str (pm_id p))), (''result'', JStr (py_status r))]
      in if py_status r = ''completed'' then
           schedule_invoice env ''invoice.payment_scheduled'' iv details
             (p1\<lparr>pm_status := ''completed'', pm_completed_at := Some now\<rparr>) db
         else if py_status r \<in> {''submitted'', ''processing''} then
           schedule_invoice env ''invoice.payment_scheduled'' iv details (p1\<lparr>pm_status := py_status r\<rparr>) db
         else (None, p1\<lparr>pm_status := py_status r, pm_failure := py_failure r, pm_completed_at := Some now\<rparr>, db))"

definition send_order :: "dispatch_env \<Rightarrow> invoice \<Rightarrow> payment \<Rightarrow> pay_db \<Rightarrow> attempt" where
  "send_order env iv p db =
     (let db1 = db\<lparr>orders := orders db @ [order_of iv p]\<rparr>
      in case de_processor env (order_of iv p) of
           Inl e \<Rightarrow> (Some e, p, db1)
         | Inr r \<Rightarrow> take_reply env iv p r db1)"

definition execute_single_payment :: "dispatch_env \<Rightarrow> pay_db \<Rightarrow> payment \<Rightarrow> attempt" where
  "execute_single_payment env db p =
     (case find_invoice db (pm_invoice p) of
        None \<Rightarrow> (None, fail_payment env ''invoice_missing: cannot verify payee, amount or compliance'' p, db)
      | Some iv \<Rightarrow>
          (case dispatch_refusal db iv p of
             Some reason \<Rightarrow> (None, fail_payment env reason p, db)
           | None \<Rightarrow>
               if pm_method p = Some ''virtual_card'' then compliance_gate env iv p db (pay_by_card env iv p)
               else
                 (case international_leg env iv p (case find_vendor db iv of None \<Rightarrow> None | Some v \<Rightarrow> vd_bank v) of
                    Inl e \<Rightarrow> (Some e, p, db)
                  | Inr (Inl reason) \<Rightarrow> (None, fail_payment env reason p, db)
                  | Inr (Inr p1) \<Rightarrow> compliance_gate env iv p1 db (send_order env iv p1))))"

section \<open>The loop over a run\<close>

text \<open>Each payment is read again under a row lock; one that is no longer pending is skipped.\<close>

definition record_attempt :: "dispatch_env \<Rightarrow> uuid \<Rightarrow> attempt \<Rightarrow> pay_db" where
  "record_attempt env run a =
     (case a of (ex, p, db) \<Rightarrow>
        let p' = (case ex of None \<Rightarrow> p | Some e \<Rightarrow> fail_payment env (''unexpected_error:'' @ exc_name e) p)
        in audit_pay (de_pay env) (get_or (pm_correlation p') run) (''payment.'' @ pm_status p') ''payment'' (pm_id p')
             [(''status'', JStr (pm_status p')), (''method'', json_of_option (pm_method p')),
              (''amount'', JStr (pe_money_text (de_pay env) (pm_amount p'))),
              (''reference'', json_of_option (pm_reference p')), (''payment_run_id'', JStr (uuid_str run))]
             (put_payment p' db))"

definition dispatch_one :: "dispatch_env \<Rightarrow> uuid \<Rightarrow> pay_db \<Rightarrow> uuid \<Rightarrow> pay_db" where
  "dispatch_one env run db pid =
     (case find_payment db pid of
        None \<Rightarrow> db
      | Some p \<Rightarrow>
          if pm_status p \<noteq> ''pending'' then db
          else record_attempt env run (execute_single_payment env db p))"

definition dispatch_payments :: "dispatch_env \<Rightarrow> uuid \<Rightarrow> uuid list \<Rightarrow> pay_db \<Rightarrow> pay_db" where
  "dispatch_payments env run pids db = foldl (dispatch_one env run) db pids"

record dispatch_result =
  dr_status :: string
  dr_rollup :: PaymentRunRollup
  dr_cards :: nat

definition dispatch_run_payments :: "dispatch_env \<Rightarrow> pay_db \<Rightarrow> payment_run \<Rightarrow> dispatch_result \<times> pay_db" where
  "dispatch_run_payments env db r =
     (let pids = map pm_id (filter (\<lambda>p. pm_status p = ''pending'') (run_payments db (pr_id r)));
          db1 = dispatch_payments env (pr_id r) pids db;
          active = active_run_payments (run_payments db1 (pr_id r));
          rl = rollup_payment_statuses (map pm_status active);
          n = length (filter (\<lambda>p. pm_method p = Some ''virtual_card'' \<and> pm_status p = ''completed'') active);
          r' = r\<lparr>pr_status := run_status rl, pr_executed_at := Some (pe_now (de_pay env))\<rparr>
      in (\<lparr>dr_status = run_status rl, dr_rollup = rl, dr_cards = n\<rparr>,
          audit_pay (de_pay env) (pr_id r) ''payment_run.executed'' ''payment_run'' (pr_id r)
            [(''status'', JStr (run_status rl)), (''provider'', JStr (de_provider env)),
             (''payments_completed'', JInt (int (rl_completed rl))),
             (''payments_in_flight'', JInt (int (rl_in_flight rl))),
             (''payments_failed'', JInt (int (rl_failed rl))), (''cards_issued'', JInt (int n)),
             (''total_amount'', JStr (pe_money_text (de_pay env) (pr_total r)))]
            (put_run r' db1)))"

section \<open>What an attempt may change\<close>

text \<open>The payment keeps its identity and its amount, and the tables of money keep their rows.\<close>

definition same_payment :: "payment \<Rightarrow> payment \<Rightarrow> bool" where
  "same_payment p q \<longleftrightarrow>
     pm_id q = pm_id p \<and> pm_invoice q = pm_invoice p \<and> pm_run q = pm_run p \<and> pm_amount q = pm_amount p
     \<and> pm_correlation q = pm_correlation p \<and> pm_retry_of q = pm_retry_of p \<and> pm_entity q = pm_entity p"

definition keeps_tables :: "pay_db \<Rightarrow> pay_db \<Rightarrow> bool" where
  "keeps_tables db db' \<longleftrightarrow>
     payments db' = payments db \<and> runs db' = runs db \<and> memos db' = memos db \<and> vendors db' = vendors db"

definition tame :: "payment \<Rightarrow> pay_db \<Rightarrow> attempt \<Rightarrow> bool" where
  "tame p db a \<longleftrightarrow> (case a of (ex, q, db') \<Rightarrow> same_payment p q \<and> keeps_tables db db')"

lemma same_payment_refl [simp]: "same_payment p p"
  by (simp add: same_payment_def)

lemma same_payment_trans: "same_payment p q \<Longrightarrow> same_payment q r \<Longrightarrow> same_payment p r"
  by (simp add: same_payment_def)

lemma keeps_tables_refl [simp]: "keeps_tables db db"
  by (simp add: keeps_tables_def)

lemma keeps_tables_trans: "keeps_tables a b \<Longrightarrow> keeps_tables b c \<Longrightarrow> keeps_tables a c"
  by (simp add: keeps_tables_def)

lemma tame_after: "tame q db1 a \<Longrightarrow> same_payment p q \<Longrightarrow> keeps_tables db db1 \<Longrightarrow> tame p db a"
  by (auto simp: tame_def dest: same_payment_trans keeps_tables_trans)

lemma tame_stop [simp]: "tame p db (ex, q, db') \<longleftrightarrow> same_payment p q \<and> keeps_tables db db'"
  by (simp add: tame_def)

lemma fail_payment_same [simp]: "same_payment p (fail_payment env r p)"
  by (simp add: same_payment_def fail_payment_def)

lemma hold_payment_tame: "tame p db (hold_payment env iv rs p db)"
  by (simp add: hold_payment_def Let_def same_payment_def keeps_tables_def)

lemma schedule_invoice_tame: "tame p db (schedule_invoice env a iv d p db)"
  by (simp add: schedule_invoice_def same_payment_def keeps_tables_def split: sum.split)

lemma audit_pay_keeps [simp]: "keeps_tables db (audit_pay env c a e i d db') = keeps_tables db db'"
  by (simp add: audit_pay_def keeps_tables_def)

lemma settle_on_card_tame: "tame p db (settle_on_card env iv p c m db)"
proof -
  define p' where "p' = p\<lparr>pm_status := ''completed'', pm_provider := Some (vc_provider c),
      pm_completed_at := Some (pe_now (de_pay env)), pm_submitted_at := Some (pe_now (de_pay env)),
      pm_reference := Some (''CARD-'' @ py_upper (vc_provider c) @ ''-''
        @ (if get_or (vc_last_four c) [] = [] then ''????'' else get_or (vc_last_four c) []))\<rparr>"
  obtain ex q db1 where s: "schedule_invoice env ''invoice.card_payment_scheduled'' iv
      [(''payment_id'', JStr (uuid_str (pm_id p)))] p' db = (ex, q, db1)"
    by (cases "schedule_invoice env ''invoice.card_payment_scheduled'' iv
      [(''payment_id'', JStr (uuid_str (pm_id p)))] p' db")
  have "same_payment p' q" "keeps_tables db db1"
    using schedule_invoice_tame [of p' db env _ iv] s by (metis tame_stop)+
  moreover have "same_payment p p'" by (simp add: p'_def same_payment_def)
  ultimately have "same_payment p q" "keeps_tables db db1" using same_payment_trans by blast+
  then show ?thesis
    using s by (cases ex) (simp_all add: settle_on_card_def Let_def p'_def)
qed

lemma converge_tame: "tame p db (converge env iv p found db)"
proof -
  have "keeps_tables db (put_card c db)" for c by (simp add: put_card_def keeps_tables_def)
  then show ?thesis
    by (auto simp: converge_def Let_def intro: settle_on_card_tame tame_after split: option.split)
qed

lemma pay_by_card_tame: "tame p db (pay_by_card env iv p db)"
proof -
  have "keeps_tables db (snd (persist_card db c))" for c by (simp add: persist_card_def keeps_tables_def)
  then have k: "persist_card db c = (b, db1) \<Longrightarrow> keeps_tables db db1" for c b db1 by (metis snd_conv)
  show ?thesis
    by (auto simp: pay_by_card_def converge_tame dest!: k
        intro: tame_after [OF settle_on_card_tame] tame_after [OF converge_tame]
        split: option.split sum.split prod.split bool.split)
qed

lemma take_reply_tame: "tame p db (take_reply env iv p r db)"
  unfolding take_reply_def Let_def
  by (auto intro!: tame_after [OF schedule_invoice_tame] simp: same_payment_def)

lemma send_order_tame: "tame p db (send_order env iv p db)"
  by (auto simp: send_order_def Let_def keeps_tables_def intro!: tame_after [OF take_reply_tame] split: sum.split)

lemma compliance_gate_tame:
  assumes "\<And>db1. tame p db1 (go db1)"
  shows "tame p db (compliance_gate env iv p db go)"
proof (cases "find_vendor db iv")
  case None
  then show ?thesis by (simp add: compliance_gate_def hold_payment_tame)
next
  case (Some v)
  obtain r db1 where c: "check_payment_compliance (comp_env_of env) db v (gate_figure p) (gate_currency p iv)
      (pm_method p) (pm_correlation p) = (r, db1)" by fastforce
  have k: "keeps_tables db db1"
  proof -
    obtain rows where "snd (check_payment_compliance (comp_env_of env) db v (gate_figure p) (gate_currency p iv)
      (pm_method p) (pm_correlation p)) = db\<lparr>screenings := screenings db @ rows\<rparr>"
      using check_payment_compliance_db by blast
    then show ?thesis using c by (simp add: keeps_tables_def)
  qed
  show ?thesis
    using Some c k
    by (auto simp: compliance_gate_def intro: tame_after [OF hold_payment_tame] tame_after [OF assms]
        split: sum.split compliance_verdict.split)
qed

lemma international_leg_same: "international_leg env iv p b = Inr (Inr q) \<Longrightarrow> same_payment p q"
  by (auto simp: international_leg_def copy_prepared_def same_payment_def
      split: if_splits option.splits sum.splits decimal.splits)

lemma execute_single_payment_tame: "tame p db (execute_single_payment env db p)"
  by (auto simp: execute_single_payment_def intro!: compliance_gate_tame pay_by_card_tame
      intro: tame_after [OF compliance_gate_tame [OF send_order_tame]] dest!: international_leg_same
      split: option.split sum.split)

section \<open>Orders\<close>

lemma schedule_invoice_orders [simp]: "orders (snd (snd (schedule_invoice env a iv d p db))) = orders db"
  by (simp add: schedule_invoice_def split: sum.split)

lemma hold_payment_orders [simp]: "orders (snd (snd (hold_payment env iv rs p db))) = orders db"
  by (simp add: hold_payment_def Let_def)

lemma settle_on_card_orders [simp]: "orders (snd (snd (settle_on_card env iv p c m db))) = orders db"
proof -
  have "\<And>a d q. schedule_invoice env a iv d q db = (ex, r, db1) \<Longrightarrow> orders db1 = orders db" for ex r db1
    using schedule_invoice_orders [of env _ iv] by (metis snd_conv)
  then show ?thesis
    by (auto simp: settle_on_card_def Let_def audit_pay_def split: prod.split option.split)
qed

lemma converge_orders [simp]: "orders (snd (snd (converge env iv p found db))) = orders db"
  by (auto simp: converge_def Let_def put_card_def split: option.split)

lemma pay_by_card_orders [simp]: "orders (snd (snd (pay_by_card env iv p db))) = orders db"
proof -
  have "orders (snd (persist_card db c)) = orders db" for c by (simp add: persist_card_def)
  then have k: "persist_card db c = (b, db1) \<Longrightarrow> orders db1 = orders db" for c b db1 by (metis snd_conv)
  show ?thesis by (auto simp: pay_by_card_def dest!: k split: option.split sum.split prod.split bool.split)
qed

lemma take_reply_orders [simp]: "orders (snd (snd (take_reply env iv p r db))) = orders db"
  by (simp add: take_reply_def Let_def)

lemma send_order_orders: "orders (snd (snd (send_order env iv p db))) = orders db @ [order_of iv p]"
  by (simp add: send_order_def Let_def split: sum.split)

text \<open>What the gate lets through.\<close>

definition cleared :: "dispatch_env \<Rightarrow> pay_db \<Rightarrow> invoice \<Rightarrow> payment \<Rightarrow> vendor \<Rightarrow> bool" where
  "cleared env db iv p v \<longleftrightarrow>
     find_vendor db iv = Some v \<and> \<not> vd_blocked v
     \<and> (\<exists>screen s k. de_screen env = Some screen \<and> screen v = Inr s \<and> sn_result s = ''clear''
          \<and> \<not> sn_adverse_media s
          \<and> kyc_required_for (pm_method p) (gate_figure p) (pe_settings (de_pay env)) (gate_currency p iv) = Inr k
          \<and> (k \<longrightarrow> vd_kyc_status v = ''verified'')
          \<and> aml_reasons (comp_env_of env) db v (gate_figure p) (gate_currency p iv) = Inr [])"

lemma compliance_gate_cases:
  obtains (stopped) "orders (snd (snd (compliance_gate env iv p db go))) = orders db"
      "pm_status (fst (snd (compliance_gate env iv p db go))) \<in> {pm_status p, ''failed'', ''pending_compliance''}"
    | (passed) v rows where "cleared env db iv p v"
      "compliance_gate env iv p db go = go (db\<lparr>screenings := screenings db @ rows\<rparr>)"
proof (cases "find_vendor db iv")
  case None
  then show thesis by (intro stopped) (simp_all add: compliance_gate_def hold_payment_def Let_def)
next
  case (Some v)
  let ?c = "check_payment_compliance (comp_env_of env) db v (gate_figure p) (gate_currency p iv)
      (pm_method p) (pm_correlation p)"
  obtain rows where db1: "snd ?c = db\<lparr>screenings := screenings db @ rows\<rparr>"
    using check_payment_compliance_db by blast
  show thesis
  proof (cases "\<exists>d. fst ?c = Inr d \<and> cd_verdict d = Allow")
    case True
    then have "cleared env db iv p v"
      using Some unfolding compliance_allows_iff by (auto simp: cleared_def comp_env_of_def)
    moreover have "compliance_gate env iv p db go = go (db\<lparr>screenings := screenings db @ rows\<rparr>)"
      using True Some db1 by (auto simp: compliance_gate_def split: prod.split)
    ultimately show thesis by (rule passed)
  next
    case False
    obtain r db1' where c: "?c = (r, db1')" by fastforce
    then have "db1' = db\<lparr>screenings := screenings db @ rows\<rparr>" using db1 by simp
    with False c Some show thesis
      by (intro stopped; cases r)
         (auto simp: compliance_gate_def hold_payment_def fail_payment_def Let_def split: compliance_verdict.splits)
  qed
qed

lemma dispatch_refusal_None:
  assumes "dispatch_refusal db iv p = None"
  shows "status iv \<in> set PAYABLE_INVOICE_STATUSES" "net_payable_amount db iv = pm_amount p"
    "\<forall>e \<in> set (exceptions (core db)). \<not> (ex_invoice e = Some (inv_id iv) \<and> blocks_payment e)"
    "normalize_payment_method (pm_method p) = ''virtual_card''
       \<or> (\<forall>c \<in> set (cards db). vc_invoice c = inv_id iv \<longrightarrow> vc_status c = ''cancelled'')"
proof -
  have r: "status iv \<in> set PAYABLE_INVOICE_STATUSES" "blocking_exception_types db [inv_id iv] (inv_id iv) = None"
    "card_claimed_invoice_ids db [(inv_id iv, pm_method p)] = {}" "net_payable_amount db iv = pm_amount p"
    using assms by (simp_all add: dispatch_refusal_def split: if_splits option.splits)
  show "status iv \<in> set PAYABLE_INVOICE_STATUSES" "net_payable_amount db iv = pm_amount p" by (fact r)+
  have "inv_id iv \<notin> blocked_invoice_ids db [inv_id iv]" using r(2) by (simp add: blocked_invoice_ids_def domIff)
  then show "\<forall>e \<in> set (exceptions (core db)). \<not> (ex_invoice e = Some (inv_id iv) \<and> blocks_payment e)"
    by (simp add: blocked_iff)
  have "inv_id iv \<notin> card_claimed_invoice_ids db [(inv_id iv, pm_method p)]" using r(3) by simp
  then show "normalize_payment_method (pm_method p) = ''virtual_card''
       \<or> (\<forall>c \<in> set (cards db). vc_invoice c = inv_id iv \<longrightarrow> vc_status c = ''cancelled'')"
    by (auto simp: card_claimed_iff)
qed

lemma execute_orders:
  assumes a: "execute_single_payment env db p = (ex, q, db')"
  shows "orders db' = orders db \<or> (\<exists>iv v p1. orders db' = orders db @ [order_of iv p1]
      \<and> find_invoice db (pm_invoice p) = Some iv \<and> dispatch_refusal db iv p = None
      \<and> pm_method p \<noteq> Some ''virtual_card'' \<and> same_payment p p1 \<and> cleared env db iv p1 v)"
proof (cases "find_invoice db (pm_invoice p)")
    case None
    then show ?thesis using a by (simp add: execute_single_payment_def)
  next
    case (Some iv)
    show ?thesis
    proof (cases "dispatch_refusal db iv p")
      case None
      note unrefused = None
      show ?thesis
      proof (cases "pm_method p = Some ''virtual_card''")
        case True
        then have "orders (snd (snd (compliance_gate env iv p db (pay_by_card env iv p)))) = orders db"
          by (cases rule: compliance_gate_cases [of env iv p db "pay_by_card env iv p"]) simp_all
        then show ?thesis using a Some unrefused True by (simp add: execute_single_payment_def)
      next
        case False
        show ?thesis
        proof (cases "international_leg env iv p (case find_vendor db iv of None \<Rightarrow> None | Some v \<Rightarrow> vd_bank v)")
          case (Inl e)
          then show ?thesis using a Some unrefused False by (simp add: execute_single_payment_def)
        next
          case (Inr r)
          show ?thesis
          proof (cases r)
            case (Inl reason)
            then show ?thesis using a Some unrefused False Inr by (simp add: execute_single_payment_def)
          next
            case (Inr p1)
            have same: "same_payment p p1" using \<open>_ = Inr r\<close> Inr by (simp add: international_leg_same)
            have g: "compliance_gate env iv p1 db (send_order env iv p1) = (ex, q, db')"
              using a Some unrefused False \<open>_ = Inr r\<close> Inr by (simp add: execute_single_payment_def)
            show ?thesis
            proof (cases rule: compliance_gate_cases [of env iv p1 db "send_order env iv p1"])
              case stopped
              then show ?thesis using g by simp
            next
              case (passed v rows)
              have "orders (snd (snd (ex, q, db'))) = orders db @ [order_of iv p1]"
                unfolding g [symmetric] passed(2) send_order_orders by simp
              then have "orders db' = orders db @ [order_of iv p1]" by simp
              then show ?thesis using Some unrefused False same passed(1) by blast
            qed
          qed
        qed
      qed
    next
      case (Some reason)
      then show ?thesis using a \<open>find_invoice db (pm_invoice p) = Some iv\<close> by (simp add: execute_single_payment_def)
    qed
  qed

text \<open>A method column that the claim check and dispatch read alike. Dispatch compares the stored
  text with \<open>virtual_card\<close> as it is, the claim check after stripping and lower-casing it.\<close>

definition canonical_method :: "string option \<Rightarrow> bool" where
  "canonical_method m \<longleftrightarrow> (normalize_payment_method m = ''virtual_card'' \<longrightarrow> m = Some ''virtual_card'')"

text \<open>
  C3: An attempt hands at most one order to the processor, and only when every gate
  holds at that moment: the payment is not stored as a card payment, the invoice exists and is
  payable, carries no unresolved blocking exception and, unless the stored method is an odd spelling
  of the card's name (which the claim check still takes for the card), has no card that is not
  cancelled; the amount is the invoice's net of applied credit, and its
  vendor is on file, not blocked, screened clear, KYC-verified where required, under the spend
  signal. The order carries the payment's own key and amount. What the attempt leaves alone: every payment row and run.
\<close>

theorem order_passes_every_gate:
  assumes "execute_single_payment env db p = (ex, q, db')"
  shows "payments db' = payments db \<and> runs db' = runs db \<and> pm_amount q = pm_amount p
     \<and> (orders db' = orders db
        \<or> (\<exists>iv v p1 pl. orders db' = orders db @ [pl] \<and> pl = order_of iv p1
             \<and> pm_method p \<noteq> Some ''virtual_card''
             \<and> find_invoice db (pm_invoice p) = Some iv \<and> status iv \<in> set PAYABLE_INVOICE_STATUSES
             \<and> (\<forall>e \<in> set (exceptions (core db)). \<not> (ex_invoice e = Some (inv_id iv) \<and> blocks_payment e))
             \<and> (canonical_method (pm_method p) \<longrightarrow>
                  (\<forall>c \<in> set (cards db). vc_invoice c = inv_id iv \<longrightarrow> vc_status c = ''cancelled''))
             \<and> pl_amount pl = pm_amount p \<and> pm_amount p = net_payable_amount db iv
             \<and> pl_key pl = get_or (pm_correlation p) (pm_id p) \<and> cleared env db iv p1 v))"
proof -
  have frame: "payments db' = payments db" "runs db' = runs db" "pm_amount q = pm_amount p"
    using execute_single_payment_tame [of p db env] assms by (simp_all add: same_payment_def keeps_tables_def)
  show ?thesis
  proof (cases "orders db' = orders db")
    case True
    then show ?thesis using frame by simp
  next
    case False
    then obtain iv v p1 where o: "orders db' = orders db @ [order_of iv p1]"
      "find_invoice db (pm_invoice p) = Some iv" "dispatch_refusal db iv p = None" "same_payment p p1"
      "cleared env db iv p1 v" "pm_method p \<noteq> Some ''virtual_card''"
      using execute_orders [OF assms] by blast
    have pl: "pl_amount (order_of iv p1) = pm_amount p" "pl_key (order_of iv p1) = get_or (pm_correlation p) (pm_id p)"
      using o(4) by (simp_all add: order_of_def same_payment_def)
    note d = dispatch_refusal_None [OF o(3)]
    have net: "pm_amount p = net_payable_amount db iv" using d(2) by simp
    have card: "canonical_method (pm_method p) \<longrightarrow>
        (\<forall>c \<in> set (cards db). vc_invoice c = inv_id iv \<longrightarrow> vc_status c = ''cancelled'')"
      using d(4) o(6) by (auto simp: canonical_method_def)
    show ?thesis
      apply (intro conjI frame disjI2)
      apply (rule exI [of _ iv], rule exI [of _ v], rule exI [of _ p1], rule exI [of _ "order_of iv p1"])
      apply (intro conjI o(1,2,5,6) refl d(1,3) card pl net)
      done
  qed
qed

section \<open>The loop sends each payment at most once\<close>

definition payment_key :: "payment \<Rightarrow> uuid" where
  "payment_key p = get_or (pm_correlation p) (pm_id p)"

text \<open>A row after the loop: the same payment, and the same row unless it was pending and asked for.\<close>

definition handled :: "uuid set \<Rightarrow> payment \<Rightarrow> payment \<Rightarrow> bool" where
  "handled ids p p' \<longleftrightarrow> same_payment p p' \<and> (p' = p \<or> pm_status p = ''pending'' \<and> pm_id p \<in> ids)"

definition pending_rows :: "pay_db \<Rightarrow> uuid list \<Rightarrow> payment list" where
  "pending_rows db pids = filter (\<lambda>p. pm_status p = ''pending'') (List.map_filter (find_payment db) pids)"

definition sent_for :: "payload list \<Rightarrow> payment list \<Rightarrow> bool" where
  "sent_for new ps \<longleftrightarrow> map pl_key new = map payment_key ps \<and> map pl_amount new = map pm_amount ps"

lemma handled_refl [simp]: "handled ids p p"
  by (simp add: handled_def)

lemma handled_trans: "handled ids p q \<Longrightarrow> handled ids q r \<Longrightarrow> handled ids p r"
  by (auto simp: handled_def same_payment_def)

lemma handled_mono: "handled ids p q \<Longrightarrow> ids \<subseteq> ids' \<Longrightarrow> handled ids' p q"
  by (auto simp: handled_def)

lemma handled_rows_trans:
  assumes "list_all2 (handled ids) xs ys" "list_all2 (handled ids) ys zs"
  shows "list_all2 (handled ids) xs zs"
  using assms(1) assms(2) by (rule list_all2_trans [rotated]) (rule handled_trans)

lemma handled_ids: "list_all2 (handled ids) xs ys \<Longrightarrow> map pm_id ys = map pm_id xs"
  by (induction rule: list_all2_induct) (auto simp: handled_def same_payment_def)

lemma record_attempt_frame [simp]:
  "runs (record_attempt env run (ex, q, db)) = runs db" "orders (record_attempt env run (ex, q, db)) = orders db"
  "memos (record_attempt env run (ex, q, db)) = memos db"
  by (simp_all add: record_attempt_def audit_pay_def Let_def)

lemma record_attempt_payments:
  "\<exists>q'. same_payment q q' \<and> payments (record_attempt env run (ex, q, db)) = payments (put_payment q' db)"
proof (cases ex)
  case None
  then show ?thesis by (intro exI [of _ q]) (simp add: record_attempt_def audit_pay_def Let_def)
next
  case (Some e)
  then show ?thesis
    by (intro exI [of _ "fail_payment env (''unexpected_error:'' @ exc_name e) q"])
       (simp add: record_attempt_def audit_pay_def Let_def)
qed

lemma dispatch_one_skips:
  "(\<And>p. find_payment db pid = Some p \<Longrightarrow> pm_status p \<noteq> ''pending'') \<Longrightarrow> dispatch_one env run db pid = db"
  by (simp add: dispatch_one_def split: option.split)

lemma dispatch_one_sends:
  assumes "find_payment db pid = Some p" "pm_status p = ''pending''"
  obtains q where "same_payment p q" "payments (dispatch_one env run db pid) = payments (put_payment q db)"
    "runs (dispatch_one env run db pid) = runs db" "memos (dispatch_one env run db pid) = memos db"
    "orders (dispatch_one env run db pid) = orders db
     \<or> (\<exists>pl. orders (dispatch_one env run db pid) = orders db @ [pl] \<and> pl_key pl = payment_key p \<and> pl_amount pl = pm_amount p)"
proof -
  obtain ex q db1 where e: "execute_single_payment env db p = (ex, q, db1)" by (cases "execute_single_payment env db p")
  have f: "same_payment p q" "keeps_tables db db1" using execute_single_payment_tame [of p db env] e by simp_all
  have d: "dispatch_one env run db pid = record_attempt env run (ex, q, db1)"
    using assms e by (simp add: dispatch_one_def)
  obtain q' where q': "same_payment q q'"
    "payments (record_attempt env run (ex, q, db1)) = payments (put_payment q' db1)"
    using record_attempt_payments by blast
  have o: "orders db1 = orders db \<or>
      (\<exists>pl. orders db1 = orders db @ [pl] \<and> pl_key pl = payment_key p \<and> pl_amount pl = pm_amount p)"
    using execute_orders [OF e] by (auto simp: order_of_def same_payment_def payment_key_def)
  show thesis
  proof (rule that)
    show "same_payment p q'" using f(1) q'(1) by (rule same_payment_trans)
    show "payments (dispatch_one env run db pid) = payments (put_payment q' db)"
      using f(2) by (simp add: d q'(2) put_payment_payments keeps_tables_def)
  qed (use f(2) o in \<open>auto simp: d keeps_tables_def\<close>)
qed

lemma put_payment_handled:
  assumes "distinct (map pm_id (payments db))" "find_payment db pid = Some p" "pm_status p = ''pending''" "same_payment p q"
  shows "list_all2 (handled {pid}) (payments db) (payments (put_payment q db))"
proof -
  have p: "p \<in> set (payments db)" "pm_id p = pid" using find_payment_Some [OF assms(2)] by simp_all
  have "x = p" if "x \<in> set (payments db)" "pm_id x = pm_id q" for x
    using assms(1,4) p(1) that by (metis inj_onD distinct_map same_payment_def)
  then have "handled {pid} x (if pm_id x = pm_id q then q else x)" if "x \<in> set (payments db)" for x
    using assms(3,4) p(2) that by (cases "pm_id x = pm_id q") (fastforce simp: handled_def)+
  then show ?thesis by (simp add: put_payment_payments list_all2_map2 list_all2_same)
qed

lemma find_payment_put_other:
  "pm_id q \<noteq> i \<Longrightarrow> payments db' = payments (put_payment q db) \<Longrightarrow> find_payment db' i = find_payment db i"
proof -
  assume "pm_id q \<noteq> i" "payments db' = payments (put_payment q db)"
  moreover have "find (\<lambda>p. pm_id p = i) (map (\<lambda>p. if pm_id p = pm_id q then q else p) ps) = find (\<lambda>p. pm_id p = i) ps"
    if "pm_id q \<noteq> i" for ps
    using that by (induction ps) auto
  ultimately show ?thesis by (simp add: find_payment_def put_payment_payments)
qed

lemma map_filter_eqI: "(\<And>i. i \<in> set xs \<Longrightarrow> f i = g i) \<Longrightarrow> List.map_filter f xs = List.map_filter g xs"
  by (induction xs) (simp_all add: List.map_filter_simps split: option.split)

lemma dispatch_payments_effect:
  assumes "distinct pids" "distinct (map pm_id (payments db))"
  shows "list_all2 (handled (set pids)) (payments db) (payments (dispatch_payments env run pids db))
     \<and> runs (dispatch_payments env run pids db) = runs db \<and> memos (dispatch_payments env run pids db) = memos db
     \<and> (\<exists>ps new. orders (dispatch_payments env run pids db) = orders db @ new
          \<and> subseq ps (pending_rows db pids) \<and> sent_for new ps)"
  using assms
proof (induction pids arbitrary: db)
  case Nil
  then show ?case
    by (auto simp: dispatch_payments_def pending_rows_def sent_for_def list_all2_conv_all_nth)
next
  case (Cons pid pids)
  let ?db1 = "dispatch_one env run db pid"
  have step: "dispatch_payments env run (pid # pids) db = dispatch_payments env run pids ?db1"
    by (simp add: dispatch_payments_def)
  show ?case
  proof (cases "\<exists>p. find_payment db pid = Some p \<and> pm_status p = ''pending''")
    case False
    then have "?db1 = db" by (intro dispatch_one_skips) blast
    moreover have "pending_rows db (pid # pids) = pending_rows db pids"
      using False by (auto simp: pending_rows_def List.map_filter_simps split: option.split)
    moreover have "list_all2 (handled (set pids)) xs ys \<Longrightarrow> list_all2 (handled (set (pid # pids))) xs ys" for xs ys
      by (erule list_all2_mono) (auto intro: handled_mono)
    ultimately show ?thesis unfolding step using Cons by simp
  next
    case True
    then obtain p where p: "find_payment db pid = Some p" "pm_status p = ''pending''" by blast
    obtain q where q: "same_payment p q" "payments ?db1 = payments (put_payment q db)" "runs ?db1 = runs db"
      "memos ?db1 = memos db" "orders ?db1 = orders db
       \<or> (\<exists>pl. orders ?db1 = orders db @ [pl] \<and> pl_key pl = payment_key p \<and> pl_amount pl = pm_amount p)"
      by (rule dispatch_one_sends [OF p])
    have pid: "pm_id q = pid" using find_payment_Some [OF p(1)] q(1) by (simp add: same_payment_def)
    have h: "list_all2 (handled (set (pid # pids))) (payments db) (payments ?db1)"
      unfolding q(2) using put_payment_handled [OF Cons.prems(2) p q(1)]
      by (rule list_all2_mono) (auto intro: handled_mono)
    have "distinct (map pm_id (payments ?db1))" using Cons.prems(2) unfolding q(2) by simp
    note IH = Cons.IH [OF _ this]
    have rows: "pending_rows ?db1 pids = pending_rows db pids"
    proof -
      have "List.map_filter (find_payment ?db1) pids = List.map_filter (find_payment db) pids"
      proof (rule map_filter_eqI)
        fix i assume "i \<in> set pids"
        then have "pm_id q \<noteq> i" using pid Cons.prems(1) by auto
        then show "find_payment ?db1 i = find_payment db i" by (rule find_payment_put_other) (rule q(2))
      qed
      then show ?thesis by (simp add: pending_rows_def)
    qed
    obtain ps new where rest: "orders (dispatch_payments env run pids ?db1) = orders ?db1 @ new"
      "subseq ps (pending_rows db pids)" "sent_for new ps"
      using IH Cons.prems(1) rows by auto
    have head: "pending_rows db (pid # pids) = p # pending_rows db pids"
      using p by (simp add: pending_rows_def List.map_filter_simps)
    have "\<exists>ps new. orders (dispatch_payments env run pids ?db1) = orders db @ new
          \<and> subseq ps (pending_rows db (pid # pids)) \<and> sent_for new ps"
    proof (cases "orders ?db1 = orders db")
      case True
      then show ?thesis using rest unfolding head by (intro exI [of _ ps] exI [of _ new]) (simp add: list_emb_Cons)
    next
      case False
      then obtain pl where "orders ?db1 = orders db @ [pl]" "pl_key pl = payment_key p" "pl_amount pl = pm_amount p"
        using q(5) by blast
      then show ?thesis using rest unfolding head
        by (intro exI [of _ "p # ps"] exI [of _ "pl # new"]) (simp add: sent_for_def)
    qed
    moreover have "list_all2 (handled (set (pid # pids))) (payments ?db1) (payments (dispatch_payments env run pids ?db1))"
      using IH Cons.prems(1) by (auto elim!: list_all2_mono intro: handled_mono)
    ultimately show ?thesis
      unfolding step using h IH Cons.prems(1) q(3,4) by (auto intro: handled_rows_trans)
  qed
qed

lemma pending_rows_of_run:
  assumes "distinct (map pm_id (payments db))"
  shows "pending_rows db (map pm_id (filter (\<lambda>p. pm_status p = ''pending'') (run_payments db i))) =
         filter (\<lambda>p. pm_status p = ''pending'') (run_payments db i)"
proof -
  have f: "find_payment db (pm_id p) = Some p" if "p \<in> set (run_payments db i)" for p
    using find_by_key [OF assms] that by (simp add: find_payment_def run_payments_def)
  have "List.map_filter (find_payment db) (map pm_id xs) = xs" if "set xs \<subseteq> set (run_payments db i)" for xs
    using that f by (induction xs) (auto simp: List.map_filter_simps)
  from this [of "filter (\<lambda>p. pm_status p = ''pending'') (run_payments db i)"]
  show ?thesis by (simp add: pending_rows_def) 
qed

text \<open>
  C4: One pass over a run sends, for some of its pending payments and in their order, exactly
  one order each, under the payment's own idempotency key and for its amount. A payment that is not
  pending, or belongs to another run, is left as it is, and no payment changes identity, amount, invoice
  or run.
\<close>

theorem run_sends_each_payment_once:
  assumes "distinct (map pm_id (payments db))" "dispatch_run_payments env db r = (res, db')"
  shows "\<exists>ps new. orders db' = orders db @ new
     \<and> subseq ps (filter (\<lambda>p. pm_status p = ''pending'') (run_payments db (pr_id r)))
     \<and> map pl_key new = map payment_key ps \<and> map pl_amount new = map pm_amount ps
     \<and> list_all2 (\<lambda>p p'. same_payment p p' \<and> (p' = p \<or> pm_status p = ''pending'' \<and> pm_run p = Some (pr_id r)))
         (payments db) (payments db')"
proof -
  define pids where "pids = map pm_id (filter (\<lambda>p. pm_status p = ''pending'') (run_payments db (pr_id r)))"
  define db1 where "db1 = dispatch_payments env (pr_id r) pids db"
  have db': "orders db' = orders db1" "payments db' = payments db1"
    using assms(2) by (auto simp: dispatch_run_payments_def Let_def audit_pay_def db1_def pids_def)
  have "distinct pids"
    using assms(1) by (simp add: pids_def run_payments_def distinct_map_filter)
  note eff = dispatch_payments_effect [OF this assms(1), of env "pr_id r", folded db1_def]
  obtain ps new where o: "orders db1 = orders db @ new" "subseq ps (pending_rows db pids)" "sent_for new ps"
    using eff by blast
  have ids: "pm_run p = Some (pr_id r)" if row: "p \<in> set (payments db)" "pm_id p \<in> set pids" for p
  proof -
    obtain p2 where "p2 \<in> set (payments db)" "pm_run p2 = Some (pr_id r)" "pm_id p2 = pm_id p"
      using row(2) by (auto simp: pids_def run_payments_def)
    then have "p2 = p" using assms(1) row(1) by (metis distinct_map inj_onD)
    then show ?thesis using \<open>pm_run p2 = Some (pr_id r)\<close> by simp
  qed
  have rows: "list_all2 (\<lambda>p p'. same_payment p p' \<and> (p' = p \<or> pm_status p = ''pending'' \<and> pm_run p = Some (pr_id r)))
      (payments db) (payments db1)"
    using eff ids by (auto simp: list_all2_conv_all_nth handled_def)
  have "pending_rows db pids = filter (\<lambda>p. pm_status p = ''pending'') (run_payments db (pr_id r))"
    unfolding pids_def by (rule pending_rows_of_run [OF assms(1)])
  then show ?thesis
    using o rows unfolding db' sent_for_def by (intro exI [of _ ps] exI [of _ new]) simp
qed


lemma subseq_sum_le:
  fixes f :: "'a \<Rightarrow> rat"
  assumes "subseq xs ys" "\<forall>y \<in> set ys. 0 \<le> f y"
  shows "sum_list (map f xs) \<le> sum_list (map f ys)"
  using assms by (induction rule: list_emb.induct) (auto intro!: add_increasing sum_list_nonneg)

text \<open>
  One pass over a run never sends more than the run's total, when that total is the sum of
  the amounts of its payments, none of them negative.
\<close>

theorem run_pass_within_total:
  assumes "distinct (map pm_id (payments db))" "dispatch_run_payments env db r = (res, db')"
    "pr_total r = sum_list (map pm_amount (run_payments db (pr_id r)))"
    "\<forall>p \<in> set (run_payments db (pr_id r)). 0 \<le> pm_amount p"
  shows "sum_list (map pl_amount (drop (length (orders db)) (orders db'))) \<le> pr_total r"
proof -
  have e: "dispatch_run_payments env db r = (res, db')" by (rule assms(2))
  define pids where "pids = map pm_id (filter (\<lambda>p. pm_status p = ''pending'') (run_payments db (pr_id r)))"
  have db': "orders db' = orders (dispatch_payments env (pr_id r) pids db)"
    using e by (auto simp: dispatch_run_payments_def Let_def audit_pay_def pids_def)
  have "distinct pids" using assms(1) by (simp add: pids_def run_payments_def distinct_map_filter)
  then obtain ps new where o: "orders db' = orders db @ new" "subseq ps (pending_rows db pids)" "sent_for new ps"
    using dispatch_payments_effect [OF _ assms(1), of pids env "pr_id r"] db' by auto
  have "pending_rows db pids = filter (\<lambda>p. pm_status p = ''pending'') (run_payments db (pr_id r))"
    unfolding pids_def by (rule pending_rows_of_run [OF assms(1)])
  then have "subseq ps (run_payments db (pr_id r))"
    using o(2) subseq_filter_left by (metis subseq_order.order_trans)
  then show ?thesis
    using subseq_sum_le [OF _ assms(4)] o(1,3) assms(3) by (simp add: sent_for_def)
qed

section \<open>A sample dispatch\<close>

definition sample_dispatch_env :: dispatch_env where
  "sample_dispatch_env =
     \<lparr>de_pay = sample_pay_env, de_provider = ''mock'',
      de_processor = (\<lambda>_. Inr \<lparr>py_status = ''submitted'', py_provider_id = Some ''mock_1'', py_reference = None,
                              py_failure = None\<rparr>),
      de_fx = None,
      de_screen = Some (\<lambda>_. Inr \<lparr>sn_provider = ''mock'', sn_result = ''clear'', sn_list = None, sn_adverse_media = False\<rparr>),
      de_issuer = None, de_card_days = 30, de_fresh_card = (\<lambda>i. i + 300)\<rparr>"

definition sample_vendor :: vendor where
  "sample_vendor = \<lparr>vd_id = 12, vd_name = ''Acme'', vd_bank = None, vd_kyc_status = ''pending'',
     vd_blocked = False, vd_blocked_reason = None, vd_entity = None\<rparr>"

text \<open>An invoice of 100 with 25 of applied credit, and the pending payment of 75 booked for it.\<close>

definition sample_due :: payment where
  "sample_due = sample_payment\<lparr>pm_amount := 75, pm_status := ''pending'', pm_provider := None,
     pm_provider_id := None, pm_submitted_at := None\<rparr>"

definition sample_run_row :: payment_run where
  "sample_run_row = \<lparr>pr_id = 40, pr_status = ''executing'', pr_total = 75, pr_initiated_by = Some 31,
     pr_executed_at = None, pr_requires_cfo = False, pr_cfo_by = None, pr_cfo_at = None, pr_plan = None,
     pr_org = 1, pr_entity = None\<rparr>"

definition sample_due_db :: pay_db where
  "sample_due_db = sample_pay_db\<lparr>payments := [sample_due], runs := [sample_run_row], vendors := [sample_vendor]\<rparr>"

lemma sample_home [simp]: "resolve_home_currency JNull = ''USD''"
  by (simp add: resolve_home_currency_def configured_home_currency_def DEFAULT_HOME_CURRENCY_def)

lemma sample_refusal: "dispatch_refusal sample_due_db sample_payable sample_due = None"
  by (simp add: dispatch_refusal_def sample_due_db_def sample_pay_db_def sample_payable_def sample_invoice_def
      sample_due_def PAYABLE_INVOICE_STATUSES_def blocking_exception_types_def card_claimed_invoice_ids_def
      live_card_invoice_ids_def net_payable_amount_def applied_credit_total_def)

lemma ach_normal: "normalize_payment_method (Some ''ach'') = ''ach''" "normalize_payment_method None = []"
  by code_simp+

lemma sample_compliance:
  assumes pend: "\<forall>p \<in> set (payments db). pm_status p = ''pending''" and sc: "screenings db = []"
    and dom: "normalize_payment_method m \<notin> INTERNATIONAL_PAYMENT_METHODS"
  shows "check_payment_compliance (comp_env_of sample_dispatch_env) db sample_vendor 75 (Some ''USD'') m (Some 91) =
     (Inr \<lparr>cd_verdict = Allow, cd_reasons = []\<rparr>,
      db\<lparr>screenings := [\<lparr>sk_vendor = 12, sk_provider = ''mock'', sk_result = ''clear'', sk_list = None,
        sk_correlation = Some 91\<rparr>]\<rparr>)"
proof -
  have r: "ctx_round 75 = 75"
    using sub_exact(2) [of 0 75] by (simp add: ctx_sub_def has_scale_def money_col_def)
  have k: "kyc_required_for m 75 JNull (Some ''USD'') = Inr False"
    using dom by (simp add: kyc_required_for_def compliance_config_def or_empty_get_def configured_rails_def DEFAULT_HIGH_RISK_METHODS_def Let_def)
  have none: "List.map_filter f xs = []" if "\<forall>x \<in> set xs. f x = None" for f :: "payment \<Rightarrow> (payment \<times> invoice) option" and xs
    using that by (induction xs) (simp_all add: List.map_filter_simps)
  have "settled_since db c v = []" for c v
    unfolding settled_since_def by (rule none) (use pend in auto)
  then have t: "fst (trailing_12m_spend db now v home) = 0" for now v home
    by (simp add: trailing_12m_spend_def Let_def List.map_filter_simps)
  have a: "aml_reasons (comp_env_of sample_dispatch_env) db sample_vendor 75 (Some ''USD'') = Inr []"
    by (simp add: aml_reasons_def comp_env_of_def sample_dispatch_env_def sample_pay_env_def aml_threshold_def
        compliance_config_def or_empty_get_def decimal_setting_def DEFAULT_AML_ALERT_THRESHOLD_def t r Let_def)
  have e: "ce_settings (comp_env_of sample_dispatch_env) = JNull"
    "ce_screen (comp_env_of sample_dispatch_env) = Some (\<lambda>_. Inr \<lparr>sn_provider = ''mock'', sn_result = ''clear'',
       sn_list = None, sn_adverse_media = False\<rparr>)"
    by (simp_all add: comp_env_of_def sample_dispatch_env_def sample_pay_env_def)
  have f: "vd_id sample_vendor = 12" "\<not> vd_blocked sample_vendor" by (simp_all add: sample_vendor_def)
  show ?thesis
    using a k f sc by (simp add: check_payment_compliance_def later_checks_def e screening_reasons_def Let_def)
qed

lemma sample_execute_as:
  assumes p: "p = sample_due\<lparr>pm_method := Some m\<rparr>" and m: "m \<noteq> ''virtual_card''"
    and dom: "normalize_payment_method (Some m) \<notin> INTERNATIONAL_PAYMENT_METHODS"
    and db: "payments db = [p]" "vendors db = [sample_vendor]" "core db = core sample_pay_db" "screenings db = []"
    and r: "dispatch_refusal db sample_payable p = None"
  shows "\<exists>q db'. execute_single_payment sample_dispatch_env db p = (None, q, db') \<and> orders db' = orders db @ [order_of sample_payable p]
     \<and> cards db' = cards db"
proof -
  have i: "find_invoice db (pm_invoice p) = Some sample_payable"
    by (simp add: find_invoice_def db p sample_pay_db_def sample_due_def sample_payment_def
        sample_payable_def sample_invoice_def)
  have v: "find_vendor db sample_payable = Some sample_vendor"
    by (simp add: find_vendor_def db sample_payable_def sample_invoice_def sample_vendor_def)
  have "[] \<notin> INTERNATIONAL_PAYMENT_METHODS" by (simp add: INTERNATIONAL_PAYMENT_METHODS_def)
  then have l: "international_leg sample_dispatch_env sample_payable p None = Inr (Inr p)"
    using dom by (simp add: international_leg_def needs_international_def sample_dispatch_env_def sample_pay_env_def p
        sample_payable_def norm_or_def is_international_payment_def is_international_payment_method_def
        sample_due_def sample_payment_def ach_normal has_intl_bank_fields_def first_text_def)
  have b: "vd_bank sample_vendor = None" by (simp add: sample_vendor_def)
  have g: "gate_figure p = 75" "gate_currency p sample_payable = Some ''USD''"
    "pm_method p = Some m" "pm_correlation p = Some 91"
    by (simp_all add: gate_figure_def gate_currency_def p sample_due_def sample_payment_def sample_payable_def)
  have "\<forall>q \<in> set (payments db). pm_status q = ''pending''" by (simp add: db p sample_due_def)
  note c = sample_compliance [OF this db(4) dom]
  show ?thesis
    using m
    apply (simp add: execute_single_payment_def i v b r l g compliance_gate_def c send_order_def Let_def)
    apply (simp add: sample_dispatch_env_def take_reply_def Let_def schedule_invoice_def sample_payable_def
        SCHEDULABLE_INVOICE_STATUSES_def PAYABLE_INVOICE_STATUSES_def transition_invoice_def validate_transition_def)
    done
qed

lemma sample_execute:
  "\<exists>q db'. execute_single_payment sample_dispatch_env sample_due_db sample_due = (None, q, db') \<and> orders db' \<noteq> []"
proof -
  have p: "sample_due = sample_due\<lparr>pm_method := Some ''ach''\<rparr>" by (simp add: sample_due_def sample_payment_def)
  have db: "payments sample_due_db = [sample_due]" "vendors sample_due_db = [sample_vendor]"
    "core sample_due_db = core sample_pay_db" "screenings sample_due_db = []"
    by (simp_all add: sample_due_db_def sample_pay_db_def)
  show ?thesis
    using sample_execute_as [OF p _ _ db sample_refusal] by (auto simp: ach_normal INTERNATIONAL_PAYMENT_METHODS_def)
qed

theorem order_passes_every_gate_witness:
  "\<exists>q db' pl. execute_single_payment sample_dispatch_env sample_due_db sample_due = (None, q, db')
     \<and> orders db' = [pl] \<and> pl_amount pl = 75 \<and> pl_key pl = 91"
proof -
  obtain q db' where e: "execute_single_payment sample_dispatch_env sample_due_db sample_due = (None, q, db')"
    "orders db' \<noteq> []" using sample_execute by blast
  have "orders sample_due_db = []" by (simp add: sample_due_db_def sample_pay_db_def)
  then obtain pl where "orders db' = [pl]" "pl_amount pl = pm_amount sample_due"
    "pl_key pl = get_or (pm_correlation sample_due) (pm_id sample_due)"
    using order_passes_every_gate [OF e(1)] e(2) by auto
  then show ?thesis using e(1) by (simp add: sample_due_def sample_payment_def)
qed

definition live_card :: virtual_card where
  "live_card = \<lparr>vc_id = 600, vc_invoice = 10, vc_payment = None, vc_correlation = None, vc_provider = ''mock'',
     vc_last_four = None, vc_limit = 75, vc_currency = ''USD'', vc_status = ''active'', vc_expires_at = None\<rparr>"

definition misspelt :: payment where
  "misspelt = sample_due\<lparr>pm_method := Some ''Virtual_Card''\<rparr>"

definition carded_db :: pay_db where
  "carded_db = sample_due_db\<lparr>payments := [misspelt], cards := [live_card]\<rparr>"

text \<open>The two readings of a method that C3 keeps apart do differ: a run item may spell the card as
  \<open>Virtual_Card\<close>, which the claim check takes for the card and dispatch for an ordinary rail, so
  the invoice is ordered while its live card can still be charged.\<close>

theorem misspelt_card_pays_beside_the_live_card:
  "\<exists>q db'. execute_single_payment sample_dispatch_env carded_db misspelt = (None, q, db')
     \<and> orders db' = [order_of sample_payable misspelt]
     \<and> (\<exists>c \<in> set (cards db'). vc_invoice c = inv_id sample_payable \<and> vc_status c = ''active'')"
proof -
  have n: "normalize_payment_method (Some ''Virtual_Card'') = ''virtual_card''" by code_simp
  have r: "dispatch_refusal carded_db sample_payable misspelt = None"
    by (simp add: dispatch_refusal_def carded_db_def sample_due_db_def sample_pay_db_def sample_payable_def sample_invoice_def
      misspelt_def sample_due_def PAYABLE_INVOICE_STATUSES_def blocking_exception_types_def card_claimed_invoice_ids_def
      net_payable_amount_def applied_credit_total_def n CARD_CONVERGING_METHODS_def)
  have db: "payments carded_db = [misspelt]" "vendors carded_db = [sample_vendor]" "core carded_db = core sample_pay_db"
    "screenings carded_db = []" "orders carded_db = []"
    by (simp_all add: carded_db_def sample_due_db_def sample_pay_db_def)
  obtain q db' where e: "execute_single_payment sample_dispatch_env carded_db misspelt = (None, q, db')"
    "orders db' = orders carded_db @ [order_of sample_payable misspelt]" "cards db' = cards carded_db"
    using sample_execute_as [OF misspelt_def _ _ db(1-4) r] by (auto simp: n INTERNATIONAL_PAYMENT_METHODS_def)
  then show ?thesis using db(5) by (simp add: carded_db_def live_card_def sample_payable_def sample_invoice_def)
qed

lemma sample_run_orders: "orders (snd (dispatch_run_payments sample_dispatch_env sample_due_db sample_run_row)) \<noteq> []"
proof -
  obtain q db1 where e: "execute_single_payment sample_dispatch_env sample_due_db sample_due = (None, q, db1)"
    "orders db1 \<noteq> []" using sample_execute by blast
  have f: "find_payment sample_due_db 90 = Some sample_due" "pm_status sample_due = ''pending''"
    by (simp_all add: find_payment_def sample_due_db_def sample_due_def sample_payment_def)
  have "dispatch_payments sample_dispatch_env 40 [90] sample_due_db = record_attempt sample_dispatch_env 40 (None, q, db1)"
    using f e by (simp add: dispatch_payments_def dispatch_one_def)
  moreover have "map pm_id (filter (\<lambda>p. pm_status p = ''pending'') (run_payments sample_due_db (pr_id sample_run_row))) = [90]"
    by (simp add: run_payments_def sample_due_db_def sample_due_def sample_payment_def sample_run_row_def)
  moreover have "pr_id sample_run_row = 40" by (simp add: sample_run_row_def)
  ultimately show ?thesis using e(2) by (simp add: dispatch_run_payments_def Let_def audit_pay_def)
qed

theorem run_sends_each_payment_once_witness:
  "\<exists>res db' pl. dispatch_run_payments sample_dispatch_env sample_due_db sample_run_row = (res, db')
     \<and> orders db' = [pl] \<and> pl_key pl = 91"
proof -
  obtain res db' where e: "dispatch_run_payments sample_dispatch_env sample_due_db sample_run_row = (res, db')"
    by (cases "dispatch_run_payments sample_dispatch_env sample_due_db sample_run_row")
  have d: "distinct (map pm_id (payments sample_due_db))" by (simp add: sample_due_db_def)
  have p: "filter (\<lambda>p. pm_status p = ''pending'') (run_payments sample_due_db (pr_id sample_run_row)) = [sample_due]"
    by (simp add: sample_due_db_def run_payments_def sample_due_def sample_payment_def sample_run_row_def)
  have ne: "orders db' \<noteq> []" using sample_run_orders e by simp
  have "orders sample_due_db = []" by (simp add: sample_due_db_def sample_pay_db_def)
  then obtain ps where ps: "subseq ps [sample_due]" "map pl_key (orders db') = map payment_key ps"
    using run_sends_each_payment_once [OF d e] unfolding p by auto
  then have "ps = [sample_due]"
    using ne by (cases ps) (auto split: if_splits)
  then show ?thesis using ps(2) e by (auto simp: payment_key_def sample_due_def sample_payment_def map_eq_Cons_conv)
qed

theorem run_pass_within_total_witness:
  "\<exists>res db'. dispatch_run_payments sample_dispatch_env sample_due_db sample_run_row = (res, db')
     \<and> sum_list (map pl_amount (orders db')) \<le> 75"
proof -
  obtain res db' where e: "dispatch_run_payments sample_dispatch_env sample_due_db sample_run_row = (res, db')"
    by (cases "dispatch_run_payments sample_dispatch_env sample_due_db sample_run_row")
  have d: "distinct (map pm_id (payments sample_due_db))" by (simp add: sample_due_db_def)
  have t: "pr_total sample_run_row = sum_list (map pm_amount (run_payments sample_due_db (pr_id sample_run_row)))"
    "\<forall>p \<in> set (run_payments sample_due_db (pr_id sample_run_row)). 0 \<le> pm_amount p"
    by (simp_all add: sample_due_db_def run_payments_def sample_due_def sample_payment_def sample_run_row_def)
  show ?thesis
    using run_pass_within_total [OF d e t] e by (auto simp: sample_due_db_def sample_pay_db_def sample_run_row_def)
qed

section \<open>The home-currency leg is priced before credit\<close>

lemma prepared_source:
  assumes "prepare_international_payment iv b home fx m = Inr pp"
  shows "(pp_rate pp = None \<and> pp_source_amount pp = amount iv)
     \<or> pp_rate pp = Some PosInf \<or> (\<exists>r. pp_rate pp = Some (Fin r) \<and> pp_source_amount pp = round_half_up 2 (ctx_div (amount iv) r))"
proof -
  let ?sc = "norm_or home DEFAULT_HOME_CURRENCY"
  have "pp_rate pp = None \<and> pp_source_amount pp = amount iv
     \<or> (\<exists>s rate ts. fx_leg (amount iv) ?sc (norm_or (currency iv) ?sc) fx = Inr (s, rate, ts)
           \<and> pp_rate pp = Some rate \<and> pp_source_amount pp = s)"
    using assms by (auto simp: prepare_international_payment_def Let_def split: if_splits)
  then show ?thesis
    by (elim disjE exE conjE) (auto dest: fx_leg_Inr)
qed

lemma verify_own_figure:
  assumes "money_col s" "money_col ta"
  shows "\<exists>v. verify_settlement (Some (RDec (Fin s))) sc ta tc (Some s) sc SETTLEMENT_AMOUNT_TOLERANCE = Inr v
     \<and> \<not> is_discrepancy v"
proof -
  have u: "usable_reported_amount (RDec (Fin s)) = Some s"
    using assms(1) by (simp add: usable_reported_amount_def coerce_reported_amount_def)
  have self: "same_currency sc sc" by (simp add: same_currency_def split: option.split)
  obtain legs l where legs: "build_authorized_legs ta tc (Some s) sc = Inr legs" "l \<in> set legs"
    "leg_amount l = s" "same_currency sc (leg_currency l)"
  proof (cases "s = ta \<and> same_currency sc tc")
    case True
    then show thesis using assms by (intro that) (auto simp: build_authorized_legs_def)
  next
    case False
    then show thesis using assms self by (intro that) (auto simp: build_authorized_legs_def Let_def)
  qed
  define C where "C = filter (\<lambda>l. same_currency sc (leg_currency l)) legs"
  have l: "l \<in> set C" using legs by (simp add: C_def)
  have zero: "ctx_sub s s = 0" using sub_exact(2) [OF money_colD(1) [OF assms(1)] money_col_bound [OF assms(1)] assms(1)] by simp
  have "find (\<lambda>l. \<bar>ctx_sub s (leg_amount l)\<bar> \<le> SETTLEMENT_AMOUNT_TOLERANCE) C \<noteq> None"
    using l legs(3) zero by (auto simp: find_None_iff SETTLEMENT_AMOUNT_TOLERANCE_def)
  then obtain m where m: "find (\<lambda>l. \<bar>ctx_sub s (leg_amount l)\<bar> \<le> SETTLEMENT_AMOUNT_TOLERANCE) C = Some m" by blast
  have mm: "m \<in> set legs" using find_Some_props [OF m] by (simp add: C_def)
  have cm: "money_col (leg_amount m)" using legs_of_columns [of ta "Some s" tc sc] legs(1) assms mm by auto
  have "settle_q (ctx_sub s (leg_amount m)) = Inr (s - leg_amount m)"
    using sub_exact(2,4) [OF money_colD(1) [OF cm] money_col_bound [OF cm] assms(1)] by simp
  then have "\<exists>v. compare_legs s sc SETTLEMENT_AMOUNT_TOLERANCE C = Inr v \<and> sv_outcome v = Matched"
    using m by (simp add: compare_legs_def settle_verdict_def)
  then show ?thesis
    using l by (auto simp: verify_settlement_def u legs(1) Let_def is_discrepancy_def DISCREPANCY_OUTCOMES_def simp flip: C_def)
qed

text \<open>
  The home-currency leg of a prepared payment is computed from the invoice's gross amount,
  not from the payment's amount net of credit, and a processor that reports having debited that gross
  figure is not flagged.
\<close>

theorem credited_payment_debits_gross:
  assumes "international_leg env iv p b = Inr (Inr q)" "needs_international env iv p b"
    "pm_source_amount q = Some s" "money_col s" "money_col (pm_amount p)"
  shows "s = (case pm_fx_rate q of None \<Rightarrow> amount iv | Some r \<Rightarrow> round_half_up 2 (ctx_div (amount iv) r))
     \<and> pl_amount (order_of iv q) = pm_amount p \<and> pl_source_amount (order_of iv q) = Some s
     \<and> (\<exists>v. verify_settlement (Some (RDec (Fin s))) (pm_source_currency q) (pm_amount q) (Some (currency iv))
             (pm_source_amount q) (pm_source_currency q) SETTLEMENT_AMOUNT_TOLERANCE = Inr v \<and> \<not> is_discrepancy v)"
proof -
  obtain fx where fx: "de_fx env = Some fx" using assms(1,2) by (auto simp: international_leg_def split: option.splits)
  obtain pp where pp: "prepare_international_payment iv b (resolve_home_currency (pe_settings (de_pay env))) fx (pm_method p) = Inr pp"
    using assms(1,2) fx by (auto simp: international_leg_def split: sum.splits if_splits)
  have q: "(pp_rate pp = None \<and> q = copy_prepared pp None p) \<or> (\<exists>r. pp_rate pp = Some (Fin r) \<and> q = copy_prepared pp (Some r) p)"
    using assms(1,2) fx pp by (auto simp: international_leg_def split: option.splits decimal.splits)
  have same: "pm_amount q = pm_amount p" using international_leg_same [OF assms(1)] by (simp add: same_payment_def)
  have "s = (case pm_fx_rate q of None \<Rightarrow> amount iv | Some r \<Rightarrow> round_half_up 2 (ctx_div (amount iv) r))"
    using q prepared_source [OF pp] assms(3) by (auto simp: copy_prepared_def)
  then show ?thesis
    using verify_own_figure [OF assms(4,5)] assms(3) same by (simp add: order_of_def)
qed

definition sample_abroad :: payment where
  "sample_abroad = sample_due\<lparr>pm_method := Some ''international_ach''\<rparr>"

definition sample_fx_env :: dispatch_env where
  "sample_fx_env = sample_dispatch_env\<lparr>de_fx := Some (\<lambda>_ _. Inl TypeError)\<rparr>"

theorem credited_payment_witness:
  "\<exists>q. international_leg sample_fx_env sample_payable sample_abroad None = Inr (Inr q)
     \<and> pl_amount (order_of sample_payable q) = 75 \<and> pl_source_amount (order_of sample_payable q) = Some 100"
proof -
  have ia: "normalize_payment_method (Some ''international_ach'') = ''international_ach''" by code_simp
  have up: "py_upper ''USD'' = ''USD''" by code_simp
  have i: "is_international_payment_method (Some ''international_ach'')"
    by (simp add: is_international_payment_method_def ia INTERNATIONAL_PAYMENT_METHODS_def)
  have n: "needs_international sample_fx_env sample_payable sample_abroad None"
    by (simp add: needs_international_def is_international_payment_def sample_abroad_def i sample_due_def sample_payment_def)
  have c: "pick_corridor ''USD'' ''USD'' x (Some ''international_ach'') = override_corridor (Some ''international_ach'') False (py_upper (get_or x []))" for x
    by (simp add: pick_corridor_def honor_override_def i up Let_def)
  have o: "\<not> co_iban (override_corridor (Some ''international_ach'') False x)"
    "\<not> co_swift (override_corridor (Some ''international_ach'') False x)"
    "\<not> co_fx (override_corridor (Some ''international_ach'') False x)" for x
    by (simp_all add: override_corridor_def ia Let_def UK_DOMESTIC_METHODS_def)
  obtain q where q: "international_leg sample_fx_env sample_payable sample_abroad None = Inr (Inr q)"
    "pm_source_amount q = Some 100"
    using n
    by (simp add: international_leg_def sample_fx_env_def sample_dispatch_env_def sample_pay_env_def
        prepare_international_payment_def norm_or_def sample_payable_def sample_invoice_def c o Let_def sample_abroad_def
        copy_prepared_def)
  have col: "money_col 100" "money_col (pm_amount sample_abroad)"
    by (simp_all add: money_col_def has_scale_def sample_abroad_def sample_due_def)
  show ?thesis
    using credited_payment_debits_gross [OF q(1) n q(2) col] q(1) by (auto simp: sample_abroad_def sample_due_def)
qed

end
