(* ===== verification/Payment_Reconciler.thy ===== *)
theory Payment_Reconciler
  imports Settlement_Record
begin

text \<open>
  The backstop sweep over payments whose webhook never came (services/payment_reconciler.py).

  A sweep snapshots the in-flight payments of a tenant, then takes them one by one: the poll and the
  settlement fetch run on the snapshot, before the row lock; what follows the lock re-reads the row.
  \<open>reconcile_one\<close> is one such leg. It takes the snapshot and the database as it is when the lock is
  granted, so that anything may commit between the snapshot and the leg. A leg commits or is rolled back
  on its own; a raise is counted and the next leg runs. Raising the exception of an aged-out payment is
  best effort in the code, a failure of it is logged and swallowed; in the model it does not fail.
\<close>

section \<open>One leg\<close>

record reconcile_env =
  rc_pay :: pay_env
  rc_after :: time
  rc_max_age :: time
  rc_configured :: bool
  rc_adapter_ok :: bool
  rc_poll :: "string \<Rightarrow> string py"
  rc_fetch :: settle_fetch
  rc_age_text :: "time \<Rightarrow> string"
  rc_erp_resolves :: bool

record candidate =
  ca_id :: uuid
  ca_status :: string
  ca_submitted :: "time option"
  ca_provider_id :: "string option"

definition IN_FLIGHT :: "string set" where
  "IN_FLIGHT = {''submitted'', ''processing''}"

definition candidates :: "pay_db \<Rightarrow> candidate list" where
  "candidates db =
     map (\<lambda>p. \<lparr>ca_id = pm_id p, ca_status = pm_status p, ca_submitted = pm_submitted_at p, ca_provider_id = pm_provider_id p\<rparr>)
       (filter (\<lambda>p. pm_status p \<in> IN_FLIGHT \<and> pm_submitted_at p \<noteq> None) (payments db))"

text \<open>The stand-in that the settlement leg gets once the row is locked.\<close>

definition PREFETCHED_ONLY :: settle_fetch where
  "PREFETCHED_ONLY = (\<lambda>_. Inr (False, None, None))"

definition prefetch_settlement :: "settle_fetch \<Rightarrow> string option \<Rightarrow> reported option \<times> string option" where
  "prefetch_settlement fetch provider_id =
     (if get_or provider_id [] = [] then (None, None)
      else case fetch (get_or provider_id []) of
        Inl _ \<Rightarrow> (None, None)
      | Inr (available, a, c) \<Rightarrow> if available \<and> a \<noteq> None then (a, c) else (None, None))"

definition settle_from_poll ::
    "pay_env \<Rightarrow> pay_db \<Rightarrow> payment \<Rightarrow> settle_fetch \<Rightarrow> reported option \<Rightarrow> string option
       \<Rightarrow> (SettlementCompletion \<times> payment \<times> pay_db) py" where
  "settle_from_poll env db p fetch reported_amount reported_currency =
     (let iv = find_invoice db (pm_invoice p)
      in py_bind (record_completion fetch p iv reported_amount reported_currency) (\<lambda>(cp, p').
           Inr (cp, p', if is_discrepancy (cp_verification cp)
                        then db\<lparr>core := open_settlement_mismatch_exception env (core db) iv (cp_verification cp)\<rparr>
                        else db)))"

definition audit_reconcile_transition ::
    "pay_env \<Rightarrow> payment \<Rightarrow> string \<Rightarrow> string \<Rightarrow> SettlementCompletion option \<Rightarrow> pay_db \<Rightarrow> pay_db" where
  "audit_reconcile_transition env p previous source cp db =
     audit_system env (get_or (pm_correlation p) (pe_audit_key env)) (''payment.'' @ pm_status p) ''payment'' (pm_id p)
       ([(''status'', JStr (pm_status p)),
         (''previous_status'', JStr (if previous = [] then ''unknown'' else previous)),
         (''method'', json_of_option (pm_method p)), (''amount'', JStr (pe_money_text env (pm_amount p))),
         (''reference'', json_of_option (pm_reference p)), (''source'', JStr source),
         (''payment_run_id'', case pm_run p of None \<Rightarrow> JNull | Some i \<Rightarrow> JStr (uuid_str i))]
        @ settlement_details env cp)
       db"

definition AGED_OUT_EXCEPTION_TYPE :: string where
  "AGED_OUT_EXCEPTION_TYPE = ''payment_reconciliation''"

definition flag_aged_out_payment :: "pay_env \<Rightarrow> pay_db \<Rightarrow> payment \<Rightarrow> pay_db" where
  "flag_aged_out_payment env db p =
     (if open_flag (core db) (pm_invoice p) AGED_OUT_EXCEPTION_TYPE then db
      else case find_invoice db (pm_invoice p) of
        None \<Rightarrow> db
      | Some iv \<Rightarrow>
          db\<lparr>core := create_exception (core db) (pe_fresh_exception env (inv_id iv)) AGED_OUT_EXCEPTION_TYPE
                       ''the rail never confirmed, so the money may or may not have moved'' (pe_org env)
                       ''error'' ''open'' iv None\<rparr>)"

text \<open>The flag of a raced or failed leg says whether the processor had been polled.\<close>

datatype leg =
    TooYoung
  | AgedOut
  | Raced bool
  | NoProviderId
  | PollFailed
  | StillInFlight
  | RowFailed bool
  | Resolved "uuid option"

definition age_out :: "reconcile_env \<Rightarrow> candidate \<Rightarrow> pay_db \<Rightarrow> leg \<times> pay_db" where
  "age_out env c db =
     (case find_payment db (ca_id c) of
        None \<Rightarrow> (RowFailed False, db)
      | Some p \<Rightarrow>
          if pm_status p \<notin> IN_FLIGHT then (Raced False, db)
          else let p' = p\<lparr>pm_status := ''failed'',
                          pm_failure := Some (''reconciler_max_age_exceeded after ''
                            @ rc_age_text env (pe_now (rc_pay env) - get_or (ca_submitted c) (pe_now (rc_pay env))) @ ''h'')\<rparr>
               in (AgedOut, flag_aged_out_payment (rc_pay env)
                     (audit_reconcile_transition (rc_pay env) p' (pm_status p) ''reconciler_aged_out'' None (put_payment p' db)) p'))"

definition TERMINAL_POLLS :: "string set" where
  "TERMINAL_POLLS = {''completed'', ''failed'', ''cancelled''}"

definition settle_polled :: "reconcile_env \<Rightarrow> candidate \<Rightarrow> string \<Rightarrow> pay_db \<Rightarrow> leg \<times> pay_db" where
  "settle_polled env c upstream db =
     (let (a, cur) = (if upstream = ''completed'' then prefetch_settlement (rc_fetch env) (ca_provider_id c) else (None, None))
      in case find_payment db (ca_id c) of
           None \<Rightarrow> (RowFailed True, db)
         | Some p \<Rightarrow>
             if pm_status p \<notin> IN_FLIGHT then (Raced True, db)
             else let p1 = p\<lparr>pm_status := upstream, pm_completed_at := Some (pe_now (rc_pay env))\<rparr>
                  in if upstream = ''completed'' then
                       (case settle_from_poll (rc_pay env) db p1 PREFETCHED_ONLY a cur of
                          Inl _ \<Rightarrow> (RowFailed True, db)
                        | Inr (cp, p2, db1) \<Rightarrow>
                            (Resolved (pm_run p2),
                             audit_reconcile_transition (rc_pay env) p2 (pm_status p) ''reconciler_poll'' (Some cp) (put_payment p2 db1)))
                     else (Resolved None,
                           audit_reconcile_transition (rc_pay env) p1 (pm_status p) ''reconciler_poll'' None (put_payment p1 db)))"

definition reconcile_one :: "reconcile_env \<Rightarrow> candidate \<Rightarrow> pay_db \<Rightarrow> leg \<times> pay_db" where
  "reconcile_one env c db =
     (let now = pe_now (rc_pay env);
          age = now - get_or (ca_submitted c) now
      in if age < rc_after env then (TooYoung, db)
         else if rc_max_age env < age then age_out env c db
         else if get_or (ca_provider_id c) [] = [] then (NoProviderId, db)
         else case rc_poll env (get_or (ca_provider_id c) []) of
           Inl _ \<Rightarrow> (PollFailed, db)
         | Inr upstream \<Rightarrow>
             if upstream = ca_status c \<or> upstream \<notin> TERMINAL_POLLS then (StillInFlight, db)
             else settle_polled env c upstream db)"

section \<open>A tenant and the sweep\<close>

record sweep_counts =
  sw_polled :: nat
  sw_resolved :: nat
  sw_aged_out :: nat
  sw_payment_failures :: nat

definition count_sweep :: "leg \<Rightarrow> sweep_counts \<Rightarrow> sweep_counts" where
  "count_sweep l r =
     (case l of
        AgedOut \<Rightarrow> r\<lparr>sw_aged_out := sw_aged_out r + 1\<rparr>
      | PollFailed \<Rightarrow> r\<lparr>sw_polled := sw_polled r + 1, sw_payment_failures := sw_payment_failures r + 1\<rparr>
      | StillInFlight \<Rightarrow> r\<lparr>sw_polled := sw_polled r + 1\<rparr>
      | Resolved _ \<Rightarrow> r\<lparr>sw_polled := sw_polled r + 1, sw_resolved := sw_resolved r + 1\<rparr>
      | Raced asked \<Rightarrow> r\<lparr>sw_polled := sw_polled r + (if asked then 1 else 0)\<rparr>
      | RowFailed asked \<Rightarrow>
          r\<lparr>sw_polled := sw_polled r + (if asked then 1 else 0), sw_payment_failures := sw_payment_failures r + 1\<rparr>
      | _ \<Rightarrow> r)"

fun reconcile_legs :: "reconcile_env \<Rightarrow> candidate list \<Rightarrow> sweep_counts \<times> uuid list \<times> pay_db \<Rightarrow> sweep_counts \<times> uuid list \<times> pay_db" where
  "reconcile_legs env [] st = st"
| "reconcile_legs env (c # cs) (r, to_sync, db) =
     (case reconcile_one env c db of
        (l, db') \<Rightarrow>
          reconcile_legs env cs
            (count_sweep l r, (case l of Resolved (Some run) \<Rightarrow> List.insert run to_sync | _ \<Rightarrow> to_sync), db'))"

definition NO_COUNTS :: sweep_counts where
  "NO_COUNTS = \<lparr>sw_polled = 0, sw_resolved = 0, sw_aged_out = 0, sw_payment_failures = 0\<rparr>"

text \<open>
  After the legs, the ERP pass of every run that had a payment completed. A processor name without an
  adapter raises before anything is read.
\<close>

definition reconcile_tenant :: "reconcile_env \<Rightarrow> pay_db \<Rightarrow> (sweep_counts \<times> pay_db) py" where
  "reconcile_tenant env db =
     (if \<not> rc_configured env then Inr (NO_COUNTS, db)
      else if \<not> rc_adapter_ok env then Inl ValueError
      else case reconcile_legs env (candidates db) (NO_COUNTS, [], db) of
        (r, to_sync, db') \<Rightarrow>
          Inr (r, fold (\<lambda>run d. snd (sync_run_legs (rc_pay env) (rc_erp_resolves env) d run)) to_sync db'))"

record ReconcileResult =
  rr_tenants :: nat
  rr_polled :: nat
  rr_resolved :: nat
  rr_aged_out :: nat
  rr_failures :: nat
  rr_payment_failures :: nat

definition NO_RESULT :: ReconcileResult where
  "NO_RESULT = \<lparr>rr_tenants = 0, rr_polled = 0, rr_resolved = 0, rr_aged_out = 0, rr_failures = 0, rr_payment_failures = 0\<rparr>"

fun reconcile_once :: "(reconcile_env \<times> pay_db) list \<Rightarrow> ReconcileResult \<Rightarrow> ReconcileResult \<times> pay_db list" where
  "reconcile_once [] res = (res, [])"
| "reconcile_once ((env, db) # tenants) res =
     (let res = res\<lparr>rr_tenants := rr_tenants res + 1\<rparr>
      in case reconcile_tenant env db of
           Inl _ \<Rightarrow>
             (case reconcile_once tenants (res\<lparr>rr_failures := rr_failures res + 1\<rparr>) of (res', dbs) \<Rightarrow> (res', db # dbs))
         | Inr (r, db') \<Rightarrow>
             (case reconcile_once tenants
                     (res\<lparr>rr_polled := rr_polled res + sw_polled r, rr_resolved := rr_resolved res + sw_resolved r,
                          rr_aged_out := rr_aged_out res + sw_aged_out r,
                          rr_payment_failures := rr_payment_failures res + sw_payment_failures r\<rparr>) of
                (res', dbs) \<Rightarrow> (res', db' # dbs)))"

section \<open>What a leg does\<close>

lemma flag_aged_out_rows [simp]:
  "payments (flag_aged_out_payment env db p) = payments db" "runs (flag_aged_out_payment env db p) = runs db"
  by (simp_all add: flag_aged_out_payment_def split: option.split)

lemma audit_reconcile_rows [simp]:
  "payments (audit_reconcile_transition env p prev src cp db) = payments db"
  "runs (audit_reconcile_transition env p prev src cp db) = runs db"
  "exceptions (core (audit_reconcile_transition env p prev src cp db)) = exceptions (core db)"
  "invoices (core (audit_reconcile_transition env p prev src cp db)) = invoices (core db)"
  by (simp_all add: audit_reconcile_transition_def audit_system_def dispatch_audit_def)

lemma settle_from_poll_rows:
  "settle_from_poll env db p fetch a c = Inr (cp, p', db') \<Longrightarrow>
     payments db' = payments db \<and> runs db' = runs db \<and> invoices (core db') = invoices (core db)"
  by (auto simp: settle_from_poll_def open_settlement_mismatch_exception_def Let_def split: option.splits if_splits)

lemma store_settlement_fields [simp]:
  "pm_id (store_settlement p v) = pm_id p" "pm_invoice (store_settlement p v) = pm_invoice p"
  "pm_status (store_settlement p v) = pm_status p" "pm_run (store_settlement p v) = pm_run p"
  by (simp_all add: store_settlement_def Let_def split: option.split decimal.split)

lemma record_completion_row:
  "record_completion fetch p iv a c = Inr (cp, q) \<Longrightarrow>
     pm_id q = pm_id p \<and> pm_invoice q = pm_invoice p \<and> pm_status q = pm_status p \<and> pm_run q = pm_run p"
  by (auto simp: record_completion_def record_settlement_def split: prod.splits)

text \<open>A leg that changes a payment moves it from in flight to a terminal status, under the lock.\<close>

lemma age_out_cases:
  assumes "age_out env c db = (l, db')"
  obtains (idle) "db' = db" "\<forall>r. l \<noteq> Resolved r" "l \<noteq> AgedOut"
  | (aged) p p' t where "l = AgedOut" "find_payment db (ca_id c) = Some p" "pm_status p \<in> IN_FLIGHT"
      "p' = p\<lparr>pm_status := ''failed'', pm_failure := Some (''reconciler_max_age_exceeded after '' @ t @ ''h'')\<rparr>"
      "db' = flag_aged_out_payment (rc_pay env)
         (audit_reconcile_transition (rc_pay env) p' (pm_status p) ''reconciler_aged_out'' None (put_payment p' db)) p'"
proof (cases "find_payment db (ca_id c)")
  case None
  then show ?thesis using assms by (intro idle) (auto simp: age_out_def)
next
  case (Some p)
  show ?thesis
  proof (cases "pm_status p \<in> IN_FLIGHT")
    case False
    then show ?thesis using assms Some by (intro idle) (auto simp: age_out_def)
  next
    case True
    then show ?thesis using assms Some by (intro aged [OF _ Some True]) (auto simp: age_out_def Let_def)
  qed
qed

lemma settle_polled_cases:
  assumes "settle_polled env c up db = (l, db')" "up \<in> TERMINAL_POLLS"
  obtains (idle) "db' = db" "\<forall>r. l \<noteq> Resolved r" "l \<noteq> AgedOut"
  | (polled) p q cp db1 where "l = Resolved (if up = ''completed'' then pm_run p else None)"
      "find_payment db (ca_id c) = Some p" "pm_status p \<in> IN_FLIGHT"
      "pm_status q = up" "pm_id q = pm_id p" "pm_invoice q = pm_invoice p" "payments db1 = payments db" "runs db1 = runs db"
      "db' = audit_reconcile_transition (rc_pay env) q (pm_status p) ''reconciler_poll'' cp (put_payment q db1)"
proof -
  obtain a cur where ac: "(if up = ''completed'' then prefetch_settlement (rc_fetch env) (ca_provider_id c) else (None, None)) = (a, cur)"
    by (cases "if up = ''completed'' then prefetch_settlement (rc_fetch env) (ca_provider_id c) else (None, None)")
  have sp: "settle_polled env c up db =
      (case find_payment db (ca_id c) of
           None \<Rightarrow> (RowFailed True, db)
         | Some p \<Rightarrow>
             if pm_status p \<notin> IN_FLIGHT then (Raced True, db)
             else let p1 = p\<lparr>pm_status := up, pm_completed_at := Some (pe_now (rc_pay env))\<rparr>
                  in if up = ''completed'' then
                       (case settle_from_poll (rc_pay env) db p1 PREFETCHED_ONLY a cur of
                          Inl _ \<Rightarrow> (RowFailed True, db)
                        | Inr (cp, p2, db1) \<Rightarrow>
                            (Resolved (pm_run p2),
                             audit_reconcile_transition (rc_pay env) p2 (pm_status p) ''reconciler_poll'' (Some cp) (put_payment p2 db1)))
                     else (Resolved None,
                           audit_reconcile_transition (rc_pay env) p1 (pm_status p) ''reconciler_poll'' None (put_payment p1 db)))"
    unfolding settle_polled_def Let_def ac prod.case by (rule refl)
  show ?thesis
  proof (cases "find_payment db (ca_id c)")
    case None
    then show ?thesis using assms(1) unfolding sp by (intro idle) auto
  next
    case (Some p)
    define p1 where "p1 = p\<lparr>pm_status := up, pm_completed_at := Some (pe_now (rc_pay env))\<rparr>"
    note sp = sp [unfolded Some option.case, folded p1_def, unfolded Let_def]
    consider "pm_status p \<notin> IN_FLIGHT" | "pm_status p \<in> IN_FLIGHT" "up \<noteq> ''completed''"
      | e where "pm_status p \<in> IN_FLIGHT" "up = ''completed''" "settle_from_poll (rc_pay env) db p1 PREFETCHED_ONLY a cur = Inl e"
      | cp q db1 where "pm_status p \<in> IN_FLIGHT" "up = ''completed''"
          "settle_from_poll (rc_pay env) db p1 PREFETCHED_ONLY a cur = Inr (cp, q, db1)"
      by (cases "settle_from_poll (rc_pay env) db p1 PREFETCHED_ONLY a cur") auto
    then show ?thesis
    proof cases
      case 1
      then show ?thesis using assms(1) unfolding sp by (intro idle) auto
    next
      case 2
      then show ?thesis using assms(1) Some unfolding sp
        by (intro polled [of p p1 db None]) (auto simp: p1_def)
    next
      case (3 e)
      then show ?thesis using assms(1) unfolding sp by (intro idle) auto
    next
      case (4 cp q db1)
      have r: "payments db1 = payments db \<and> runs db1 = runs db" using settle_from_poll_rows 4(3) by blast
      have "pm_id q = pm_id p1 \<and> pm_invoice q = pm_invoice p1 \<and> pm_status q = pm_status p1 \<and> pm_run q = pm_run p1"
        using 4(3) by (auto simp: settle_from_poll_def Let_def dest!: record_completion_row)
      then show ?thesis using assms(1) Some 4 r unfolding sp
        by (intro polled [of p q db1 "Some cp"]) (auto simp: p1_def)
    qed
  qed
qed

lemma reconcile_one_cases:
  assumes "reconcile_one env c db = (l, db')"
  obtains (idle) "db' = db" "\<forall>r. l \<noteq> Resolved r" "l \<noteq> AgedOut"
  | (aged) "age_out env c db = (l, db')"
      "rc_max_age env < pe_now (rc_pay env) - get_or (ca_submitted c) (pe_now (rc_pay env))"
  | (polled) up where "settle_polled env c up db = (l, db')" "up \<in> TERMINAL_POLLS" "up \<noteq> ca_status c"
      "rc_poll env (get_or (ca_provider_id c) []) = Inr up"
  using assms unfolding reconcile_one_def Let_def by (cases "rc_poll env (get_or (ca_provider_id c) [])") (auto split: if_splits)

section \<open>Giving up on a payment blocks its invoice\<close>

lemma last_no_strip: "\<not> is_space (last s) \<Longrightarrow> s \<noteq> [] \<Longrightarrow> \<not> is_space (hd s) \<Longrightarrow> py_strip s = s"
proof -
  assume a: "\<not> is_space (last s)" "s \<noteq> []" "\<not> is_space (hd s)"
  have "dropWhile is_space s = s" using a by (cases s) simp_all
  moreover have "dropWhile is_space (rev s) = rev s" using a by (cases s rule: rev_cases) simp_all
  ultimately show ?thesis by (simp add: py_strip_def)
qed

lemma aged_out_reason_in_doubt:
  "pm_failure p = Some (''reconciler_max_age_exceeded after '' @ t @ ''h'') \<Longrightarrow> \<not> is_retry_safe p"
proof -
  define r where "r = ''reconciler_max_age_exceeded after '' @ t @ ''h''"
  have r: "r \<noteq> []" "hd r = CHR ''r''" "last r = CHR ''h''" by (simp_all add: r_def)
  have strip: "py_strip r = r" using r by (intro last_no_strip) (simp_all add: is_space_def)
  have no_start: "\<not> starts_with (x # xs) r" if "x \<noteq> CHR ''r''" for x xs
    using that r(1,2) by (cases r) (simp_all add: starts_with_def)
  have no_end: "\<not> ends_with (xs @ [x]) r" if "x \<noteq> CHR ''h''" for x xs
    using that r(1,3) by (cases r rule: rev_cases) (simp_all add: ends_with_def starts_with_def)
  assume "pm_failure p = Some (''reconciler_max_age_exceeded after '' @ t @ ''h'')"
  then have f: "pm_failure p = Some r" by (simp add: r_def)
  have "\<not> list_ex (\<lambda>p. starts_with p r) RETRY_SAFE_FAILURE_PREFIXES"
    by (simp add: RETRY_SAFE_FAILURE_PREFIXES_def no_start)
  moreover have "\<not> list_ex (\<lambda>p. ends_with p r) RETRY_SAFE_FAILURE_SUFFIXES"
    by (simp add: RETRY_SAFE_FAILURE_SUFFIXES_def ends_with_def starts_with_def r_def)
  ultimately show ?thesis
    using r(1) by (simp add: is_retry_safe_def classify_payment_failure_def f strip Let_def)
qed


lemma open_flag_blocks:
  assumes "open_flag (core db) i AGED_OUT_EXCEPTION_TYPE"
  shows "i \<in> blocked_invoice_ids db [i]"
proof -
  obtain e where "e \<in> set (exceptions (core db))" "ex_invoice e = Some i" "ex_type e = ''payment_reconciliation''"
    "ex_status e \<in> {''open'', ''escalated''}"
    using assms by (auto simp: open_flag_def AGED_OUT_EXCEPTION_TYPE_def list_ex_iff)
  then show ?thesis
    by (auto simp: blocked_iff blocks_payment_def PAYMENT_BLOCKING_EXCEPTION_TYPES_def)
qed

lemma flag_aged_out_flags:
  "find_invoice db (pm_invoice p) \<noteq> None \<Longrightarrow>
     open_flag (core (flag_aged_out_payment env db p)) (pm_invoice p) AGED_OUT_EXCEPTION_TYPE"
proof -
  assume "find_invoice db (pm_invoice p) \<noteq> None"
  then obtain iv where iv: "find_invoice db (pm_invoice p) = Some iv" "inv_id iv = pm_invoice p"
    using find_invoice_Some by blast
  show ?thesis
  proof (cases "open_flag (core db) (pm_invoice p) AGED_OUT_EXCEPTION_TYPE")
    case True
    then show ?thesis by (simp add: flag_aged_out_payment_def)
  next
    case False
    then show ?thesis unfolding flag_aged_out_payment_def by (simp add: iv) (simp add: open_flag_def iv)
  qed
qed

lemma find_invoice_rows [simp]:
  "find_invoice (put_payment q db) i = find_invoice db i"
  "find_invoice (audit_reconcile_transition env p prev src cp db) i = find_invoice db i"
  by (simp_all add: find_invoice_def)

text \<open>
  C8: when the sweep gives up on a payment it is failed without a settlement time, no longer claims
  its invoice and is not retried on its own, but the invoice is blocked from every new payment until a
  person resolves the flag; no other payment changes.
\<close>

theorem aged_out_payment_blocks_its_invoice:
  assumes "reconcile_one env c db = (AgedOut, db')" "distinct (map pm_id (payments db))"
    and "\<forall>p \<in> set (payments db). find_invoice db (pm_invoice p) \<noteq> None"
  shows "\<exists>p q. p \<in> set (payments db) \<and> pm_id p = ca_id c \<and> pm_status p \<in> IN_FLIGHT
    \<and> payments db' = map (\<lambda>r. if r = p then q else r) (payments db)
    \<and> pm_status q = ''failed'' \<and> \<not> is_live q \<and> pm_completed_at q = pm_completed_at p \<and> \<not> is_retry_safe q
    \<and> pm_invoice q = pm_invoice p \<and> pm_invoice q \<in> blocked_invoice_ids db' [pm_invoice q]"
proof -
  have "age_out env c db = (AgedOut, db')"
    using assms(1) by (cases rule: reconcile_one_cases) (auto elim: settle_polled_cases)
  then obtain p q t where p: "find_payment db (ca_id c) = Some p" "pm_status p \<in> IN_FLIGHT"
    and q: "q = p\<lparr>pm_status := ''failed'', pm_failure := Some (''reconciler_max_age_exceeded after '' @ t @ ''h'')\<rparr>"
    and db': "db' = flag_aged_out_payment (rc_pay env)
         (audit_reconcile_transition (rc_pay env) q (pm_status p) ''reconciler_aged_out'' None (put_payment q db)) q"
    by (cases rule: age_out_cases) auto
  have m: "p \<in> set (payments db)" "pm_id p = ca_id c" using find_payment_Some [OF p(1)] by simp_all
  have only: "r = p" if "r \<in> set (payments db)" "pm_id r = pm_id q" for r
    using assms(2) m(1) that by (auto simp: q distinct_map dest: inj_onD)
  have "payments db' = map (\<lambda>r. if r = p then q else r) (payments db)"
    using only by (auto simp: db' put_payment_payments q)
  moreover have "open_flag (core db') (pm_invoice q) AGED_OUT_EXCEPTION_TYPE"
    unfolding db' using assms(3) m(1) by (intro flag_aged_out_flags) (simp add: q)
  then have "pm_invoice q \<in> blocked_invoice_ids db' [pm_invoice q]" by (rule open_flag_blocks)
  moreover have "\<not> is_retry_safe q" by (rule aged_out_reason_in_doubt [of q t]) (simp add: q)
  moreover have "pm_status q = ''failed''" "\<not> is_live q" "pm_completed_at q = pm_completed_at p" "pm_invoice q = pm_invoice p"
    by (simp_all add: q is_live_def LIVE_PAYMENT_TERMINAL_STATUSES_def)
  ultimately show ?thesis
    using m p(2) by (intro exI [of _ p] exI [of _ q] conjI)
qed

section \<open>Nothing stays in flight too long\<close>

text \<open>A payment the sweep has to give up on.\<close>

definition overdue :: "reconcile_env \<Rightarrow> payment \<Rightarrow> bool" where
  "overdue env p \<longleftrightarrow>
     pm_status p \<in> IN_FLIGHT
     \<and> (case pm_submitted_at p of None \<Rightarrow> False | Some t \<Rightarrow> rc_max_age env < pe_now (rc_pay env) - t)"

lemma record_completion_times:
  "record_completion fetch p iv a c = Inr (cp, q) \<Longrightarrow> pm_submitted_at q = pm_submitted_at p"
  by (auto simp: record_completion_def record_settlement_def store_settlement_def Let_def split: prod.splits option.split decimal.split)

text \<open>A leg leaves every row that it does not move terminal as it was.\<close>

lemma reconcile_one_rows:
  assumes "reconcile_one env c db = (l, db')" "distinct (map pm_id (payments db))"
  shows "map pm_id (payments db') = map pm_id (payments db)
    \<and> (\<forall>q \<in> set (payments db'). pm_status q \<in> IN_FLIGHT \<longrightarrow> q \<in> set (payments db))
    \<and> (\<forall>q \<in> set (payments db'). pm_id q = ca_id c \<longrightarrow> l = AgedOut \<longrightarrow> pm_status q \<notin> IN_FLIGHT)"
proof -
  have moved: "map pm_id (payments db1) = map pm_id (payments db)
      \<and> (\<forall>q \<in> set (payments db1). pm_status q \<in> IN_FLIGHT \<longrightarrow> q \<in> set (payments db))
      \<and> (\<forall>q \<in> set (payments db1). pm_id q = pm_id p \<longrightarrow> pm_status q \<notin> IN_FLIGHT)"
    if "payments db1 = payments (put_payment p db)" "pm_status p \<notin> IN_FLIGHT" for p db1
    using that by (auto simp: put_payment_payments)
  show ?thesis using assms(1)
  proof (cases rule: reconcile_one_cases)
    case idle
    then show ?thesis by simp
  next
    case aged
    show ?thesis using aged(1)
    proof (cases rule: age_out_cases)
      case (aged p p' t)
      have "pm_id p' = ca_id c" "pm_status p' \<notin> IN_FLIGHT"
        using find_payment_Some [OF aged(2)] aged(4) by (simp_all add: IN_FLIGHT_def)
      then show ?thesis using moved [of db' p'] aged(5) by simp
    qed simp
  next
    case (polled up)
    show ?thesis using polled(1,2)
    proof (cases rule: settle_polled_cases)
      case (polled p q cp db1)
      have "pm_status q \<notin> IN_FLIGHT" using polled(4) \<open>up \<in> TERMINAL_POLLS\<close> by (auto simp: IN_FLIGHT_def TERMINAL_POLLS_def)
      moreover have "payments db' = payments (put_payment q db)" using polled(7,9) by (simp add: put_payment_payments)
      ultimately show ?thesis using moved [of db' q] polled(1,5) by auto
    qed simp
  qed
qed

lemma reconcile_one_overdue:
  assumes "distinct (map pm_id (payments db))" "p \<in> set (payments db)" "overdue env p" "rc_after env \<le> rc_max_age env"
    "ca_id c = pm_id p" "ca_submitted c = pm_submitted_at p"
  shows "fst (reconcile_one env c db) = AgedOut"
proof -
  have f: "find_payment db (pm_id p) = Some p"
  proof (cases "find_payment db (pm_id p)")
    case None
    then show ?thesis using assms(2) by (auto simp: find_payment_def find_None_iff_all)
  next
    case (Some q)
    then show ?thesis using assms(1,2) find_payment_Some [OF Some] by (auto simp: distinct_map dest: inj_onD)
  qed
  show ?thesis
    using assms(3-6) by (auto simp: reconcile_one_def Let_def age_out_def f overdue_def split: option.splits)
qed

lemma reconcile_legs_rows:
  assumes "reconcile_legs env cs (r, ts, db) = (r', ts', db')" "distinct (map pm_id (payments db))"
  shows "map pm_id (payments db') = map pm_id (payments db)
    \<and> (\<forall>q \<in> set (payments db'). pm_status q \<in> IN_FLIGHT \<longrightarrow> q \<in> set (payments db))"
  using assms
proof (induction env cs "(r, ts, db)" arbitrary: r ts db rule: reconcile_legs.induct)
  case (2 env c cs r ts db)
  obtain l db1 where o: "reconcile_one env c db = (l, db1)" by (cases "reconcile_one env c db")
  note rows = reconcile_one_rows [OF o 2(3)]
  have d1: "distinct (map pm_id (payments db1))" using rows 2(3) by simp
  have rest: "reconcile_legs env cs (count_sweep l r, (case l of Resolved (Some run) \<Rightarrow> List.insert run ts | _ \<Rightarrow> ts), db1) = (r', ts', db')"
    using 2(2) by (simp add: o)
  show ?case using 2(1) [OF o [symmetric] rest d1] rows by auto
qed simp

lemma reconcile_legs_overdue:
  assumes "reconcile_legs env cs (r, ts, db) = (r', ts', db')" "distinct (map pm_id (payments db))"
    "rc_after env \<le> rc_max_age env"
    "c \<in> set cs" "ca_id c = pm_id p" "ca_submitted c = pm_submitted_at p" "p \<in> set (payments db)" "overdue env p"
  shows "p \<notin> set (payments db')"
  using assms
proof (induction cs arbitrary: r ts db)
  case (Cons d cs)
  obtain l db1 where o: "reconcile_one env d db = (l, db1)" by (cases "reconcile_one env d db")
  note rows = reconcile_one_rows [OF o Cons.prems(2)]
  have d1: "distinct (map pm_id (payments db1))" using rows Cons.prems(2) by simp
  obtain r1 ts1 where rest: "reconcile_legs env cs (r1, ts1, db1) = (r', ts', db')"
    using Cons.prems(1) o by (auto split: prod.splits)
  have flight: "pm_status p \<in> IN_FLIGHT" using Cons.prems(8) by (simp add: overdue_def)
  have gone: "p \<notin> set (payments db')" if "p \<notin> set (payments db1)"
    using reconcile_legs_rows [OF rest d1] flight that by blast
  show ?case
  proof (cases "d = c")
    case True
    have "l = AgedOut"
      using reconcile_one_overdue [OF Cons.prems(2,7,8,3)] Cons.prems(5,6) o True by (metis fst_conv)
    then have "p \<notin> set (payments db1)" using rows flight Cons.prems(5) True by auto
    then show ?thesis by (rule gone)
  next
    case False
    then have "c \<in> set cs" using Cons.prems(4) by simp
    then show ?thesis
      using Cons.IH [OF rest d1 Cons.prems(3) _ Cons.prems(5,6) _ Cons.prems(8)] gone by blast
  qed
qed simp

text \<open>
  C33: after a sweep of a tenant whose processor is configured, no payment that was submitted longer
  ago than the maximum age is still in flight, whatever the processor answers, and no payment appeared or vanished.
\<close>

theorem sweep_leaves_nothing_overdue:
  assumes "reconcile_tenant env db = Inr (r, db')" "rc_configured env" "rc_after env \<le> rc_max_age env"
    and "distinct (map pm_id (payments db))"
  shows "(\<forall>p \<in> set (payments db'). \<not> overdue env p) \<and> map pm_id (payments db') = map pm_id (payments db)"
proof -
  obtain ts db1 where legs: "reconcile_legs env (candidates db) (NO_COUNTS, [], db) = (r, ts, db1)"
    and db': "db' = fold (\<lambda>run d. snd (sync_run_legs (rc_pay env) (rc_erp_resolves env) d run)) ts db1"
    using assms(1,2) by (auto simp: reconcile_tenant_def split: prod.splits if_splits)
  have "payments (fold (\<lambda>run d. snd (sync_run_legs (rc_pay env) (rc_erp_resolves env) d run)) ts d) = payments d" for d
  proof (induction ts arbitrary: d)
    case (Cons run ts)
    have "payments (snd (sync_run_legs (rc_pay env) (rc_erp_resolves env) d run)) = payments d"
      by (metis sync_run_legs_def sync_legs_rows prod.collapse)
    then show ?case using Cons by simp
  qed simp
  then have same: "payments db' = payments db1" by (simp add: db')
  note rows = reconcile_legs_rows [OF legs assms(4)]
  have "\<not> overdue env p" if p: "p \<in> set (payments db1)" for p
  proof
    assume o: "overdue env p"
    then have old: "p \<in> set (payments db)" using rows p by (auto simp: overdue_def)
    define c :: candidate where "c = \<lparr>ca_id = pm_id p, ca_status = pm_status p, ca_submitted = pm_submitted_at p,
        ca_provider_id = pm_provider_id p\<rparr>"
    have c: "ca_id c = pm_id p" "ca_submitted c = pm_submitted_at p" by (simp_all add: c_def)
    have "c \<in> set (candidates db)"
      using old o by (auto simp: candidates_def overdue_def c_def split: option.splits)
    then have "p \<notin> set (payments db1)" by (rule reconcile_legs_overdue [OF legs assms(4,3) _ c old o])
    then show False using p by contradiction
  qed
  then show ?thesis using rows same by simp
qed

section \<open>The two ways to complete a payment agree\<close>

text \<open>The money side of a database: everything but the trail and the outbox.\<close>

definition same_money :: "pay_db \<Rightarrow> pay_db \<Rightarrow> bool" where
  "same_money a b \<longleftrightarrow>
     payments a = payments b \<and> runs a = runs b \<and> invoices (core a) = invoices (core b)
     \<and> exceptions (core a) = exceptions (core b) \<and> memos a = memos b \<and> cards a = cards b"

text \<open>The event a processor sends when a payment completes and it says nothing more.\<close>

definition completed_event :: "string \<Rightarrow> string \<Rightarrow> payment_event" where
  "completed_event provider x =
     \<lparr>ev_provider = provider, ev_provider_id = x, ev_status = ''completed'', ev_reference = None, ev_failure = None,
      ev_amount = None, ev_currency = None\<rparr>"

lemma completed_event_fields [simp]:
  "ev_provider (completed_event provider x) = provider" "ev_provider_id (completed_event provider x) = x"
  "ev_status (completed_event provider x) = ''completed''" "ev_reference (completed_event provider x) = None"
  "ev_failure (completed_event provider x) = None" "ev_amount (completed_event provider x) = None"
  "ev_currency (completed_event provider x) = None"
  by (simp_all add: completed_event_def)

lemma prefetched_figure:
  assumes "pm_provider_id p = Some x" "x \<noteq> []" "prefetch_settlement fetch (Some x) = (a, c)"
  shows "reported_or_fetched PREFETCHED_ONLY p a c = reported_or_fetched fetch p None None"
  using assms by (auto simp: reported_or_fetched_def prefetch_settlement_def PREFETCHED_ONLY_def split: sum.splits prod.splits if_splits)

lemma prefetched_completion:
  assumes "pm_provider_id p = Some x" "x \<noteq> []" "prefetch_settlement fetch (Some x) = (a, c)"
  shows "record_completion PREFETCHED_ONLY p iv a c = record_completion fetch p iv None None"
  by (simp add: record_completion_def record_settlement_def prefetched_figure [OF assms])

lemma mismatch_exceptions:
  "exceptions d = exceptions e \<Longrightarrow>
     exceptions (open_settlement_mismatch_exception env d iv v) = exceptions (open_settlement_mismatch_exception env e iv v)"
  by (auto simp: open_settlement_mismatch_exception_def open_flag_def split: option.split)

lemma audit_system_money [simp]:
  "payments (audit_system env c a t i d db) = payments db" "runs (audit_system env c a t i d db) = runs db"
  "invoices (core (audit_system env c a t i d db)) = invoices (core db)"
  "exceptions (core (audit_system env c a t i d db)) = exceptions (core db)"
  "memos (audit_system env c a t i d db) = memos db" "cards (audit_system env c a t i d db) = cards db"
  by (simp_all add: audit_system_def dispatch_audit_def)

lemma mismatch_after_audit [simp]:
  "exceptions (open_settlement_mismatch_exception env (core (audit_system env2 c a t i d db)) iv v) =
     exceptions (open_settlement_mismatch_exception env (core db) iv v)"
  by (rule mismatch_exceptions) simp

lemma mismatch_invoices [simp]: "invoices (open_settlement_mismatch_exception env d iv v) = invoices d"
  by (simp add: open_settlement_mismatch_exception_def split: option.split)

lemma audit_reconcile_money:
  "same_money (audit_reconcile_transition env p prev src cp db) db"
  by (simp add: same_money_def audit_reconcile_transition_def)

text \<open>
  A payment the sweep finds completed at the processor goes through the same settlement as a bare
  completion event does in the webhook, one that carries neither an amount nor a reference: same row, same
  settlement and verdict, same exceptions, same run to synchronise; and where the webhook would have
  raised, the leg fails and changes nothing. (An event with a reference also stores it, and the webhook
  goes on to capture an offered discount, which the sweep does not and the model leaves out.)
\<close>

theorem poll_settles_like_the_webhook:
  assumes "filter (\<lambda>q. pm_provider_id q = Some x) (payments db) = [p]" "distinct (map pm_id (payments db))"
    and "pm_status p \<in> IN_FLIGHT" "x \<noteq> []" "ca_id c = pm_id p" "ca_provider_id c = Some x"
  shows "case payment_webhook (rc_pay env) (rc_fetch env) db (completed_event provider x) of
      Inl e \<Rightarrow> settle_polled env c ''completed'' db = (RowFailed True, db)
    | Inr (run, db1) \<Rightarrow> \<exists>db2. settle_polled env c ''completed'' db = (Resolved run, db2) \<and> same_money db1 db2"
proof -
  have "p \<in> set (filter (\<lambda>q. pm_provider_id q = Some x) (payments db))" by (simp add: assms(1))
  then have m: "p \<in> set (payments db)" "pm_provider_id p = Some x" by simp_all
  have f: "find_payment db (ca_id c) = Some p"
  proof (cases "find_payment db (pm_id p)")
    case None
    then show ?thesis using m(1) by (auto simp: find_payment_def find_None_iff_all)
  next
    case (Some q)
    then show ?thesis using assms(2,5) m(1) find_payment_Some [OF Some] by (auto simp: distinct_map dest: inj_onD)
  qed
  define p1 where "p1 = p\<lparr>pm_status := ''completed'', pm_completed_at := Some (pe_now (rc_pay env))\<rparr>"
  have p1: "apply_event (pe_now (rc_pay env)) (completed_event provider x) p = p1"
    by (simp add: apply_event_def p1_def)
  have x1: "pm_provider_id p1 = Some x" "pm_status p1 = ''completed''" "pm_invoice p1 = pm_invoice p" "pm_run p1 = pm_run p"
    using m(2) by (simp_all add: p1_def)
  obtain a cur where pre: "prefetch_settlement (rc_fetch env) (Some x) = (a, cur)" by fastforce
  define iv where "iv = find_invoice db (pm_invoice p)"
  have w: "payment_webhook (rc_pay env) (rc_fetch env) db (completed_event provider x)
      = settle_event (rc_pay env) (rc_fetch env) db (completed_event provider x) p"
    using assms(3) by (auto simp: payment_webhook_def assms(1) IN_FLIGHT_def)
  have sp: "settle_polled env c ''completed'' db =
      (case settle_from_poll (rc_pay env) db p1 PREFETCHED_ONLY a cur of
         Inl _ \<Rightarrow> (RowFailed True, db)
       | Inr (cp, p2, db1) \<Rightarrow>
           (Resolved (pm_run p2),
            audit_reconcile_transition (rc_pay env) p2 (pm_status p) ''reconciler_poll'' (Some cp) (put_payment p2 db1)))"
    using assms(3) by (simp add: settle_polled_def assms(6) pre f Let_def flip: p1_def)
  show ?thesis
  proof (cases "record_completion (rc_fetch env) p1 iv None None")
    case (Inl e)
    then have "settle_from_poll (rc_pay env) db p1 PREFETCHED_ONLY a cur = Inl e"
      using prefetched_completion [OF x1(1) assms(4) pre, of iv] by (simp add: settle_from_poll_def x1(3) flip: iv_def)
    moreover have "settle_event (rc_pay env) (rc_fetch env) db (completed_event provider x) p = Inl e"
      using Inl by (simp add: settle_event_def p1 x1(2) Let_def flip: iv_def)
    ultimately show ?thesis by (simp add: w sp)
  next
    case (Inr t)
    obtain cp q where t: "t = (cp, q)" by (cases t)
    note rc = Inr [unfolded t]
    have q: "pm_status q = ''completed''" "pm_run q = pm_run p" using record_completion_row [OF rc] x1 by simp_all
    define db1 where "db1 = (if is_discrepancy (cp_verification cp)
        then db\<lparr>core := open_settlement_mismatch_exception (rc_pay env) (core db) iv (cp_verification cp)\<rparr> else db)"
    have poll: "settle_polled env c ''completed'' db = (Resolved (pm_run p),
        audit_reconcile_transition (rc_pay env) q (pm_status p) ''reconciler_poll'' (Some cp) (put_payment q db1))"
      using rc prefetched_completion [OF x1(1) assms(4) pre, of iv] q(2)
      by (simp add: sp settle_from_poll_def x1(3) db1_def flip: iv_def)
    have "\<exists>db2. settle_event (rc_pay env) (rc_fetch env) db (completed_event provider x) p = Inr (pm_run p, db2)
        \<and> same_money db2 (put_payment q db1)"
      by (simp add: settle_event_def p1 x1(2) rc q Let_def same_money_def db1_def put_payment_payments flip: iv_def)
    then obtain db2 where hook: "settle_event (rc_pay env) (rc_fetch env) db (completed_event provider x) p = Inr (pm_run p, db2)"
      "same_money db2 (put_payment q db1)" by blast
    have "same_money db2 (audit_reconcile_transition (rc_pay env) q (pm_status p) ''reconciler_poll'' (Some cp) (put_payment q db1))"
      using hook(2) audit_reconcile_money by (simp add: same_money_def)
    then show ?thesis using poll hook(1) by (simp add: w)
  qed
qed

section \<open>A concrete sweep\<close>

definition sample_reconcile_env :: "time \<Rightarrow> reconcile_env" where
  "sample_reconcile_env t =
     \<lparr>rc_pay = sample_pay_env\<lparr>pe_now := t\<rparr>, rc_after = 10, rc_max_age = 4320, rc_configured = True, rc_adapter_ok = True,
      rc_poll = (\<lambda>_. Inr ''completed''), rc_fetch = (\<lambda>_. Inr (True, Some (RInt 100), Some ''USD'')),
      rc_age_text = (\<lambda>_. ''72.0''), rc_erp_resolves = True\<rparr>"

definition sample_flight_db :: pay_db where
  "sample_flight_db = sample_pay_db\<lparr>payments := [sample_payment]\<rparr>"

definition sample_candidate :: candidate where
  "sample_candidate = \<lparr>ca_id = 90, ca_status = ''submitted'', ca_submitted = Some 0, ca_provider_id = Some ''tr_1''\<rparr>"

lemma sample_flight:
  "payments sample_flight_db = [sample_payment]" "pm_id sample_payment = 90" "pm_status sample_payment = ''submitted''"
  "pm_invoice sample_payment = 10" "find_invoice sample_flight_db 10 = Some sample_payable"
  "pm_provider_id sample_payment = Some ''tr_1''" "find_payment sample_flight_db 90 = Some sample_payment"
  by (simp_all add: sample_flight_db_def sample_payment_def find_invoice_def find_payment_def sample_pay_db_def sample_payable_def sample_invoice_def)

lemma sample_aged: "fst (reconcile_one (sample_reconcile_env 5000) sample_candidate sample_flight_db) = AgedOut"
  by (simp add: reconcile_one_def sample_reconcile_env_def sample_candidate_def age_out_def sample_flight IN_FLIGHT_def Let_def)

theorem aged_out_witness:
  "\<exists>db' q. reconcile_one (sample_reconcile_env 5000) sample_candidate sample_flight_db = (AgedOut, db')
     \<and> payments db' = [q] \<and> 10 \<in> blocked_invoice_ids db' [10]"
proof -
  obtain db' where r: "reconcile_one (sample_reconcile_env 5000) sample_candidate sample_flight_db = (AgedOut, db')"
    using sample_aged by (cases "reconcile_one (sample_reconcile_env 5000) sample_candidate sample_flight_db") simp
  have "distinct (map pm_id (payments sample_flight_db))" "\<forall>p \<in> set (payments sample_flight_db). find_invoice sample_flight_db (pm_invoice p) \<noteq> None"
    by (simp_all add: sample_flight)
  from aged_out_payment_blocks_its_invoice [OF r this]
  obtain p q where "p \<in> set (payments sample_flight_db)" "payments db' = map (\<lambda>r. if r = p then q else r) (payments sample_flight_db)"
    "pm_invoice q = pm_invoice p" "pm_invoice q \<in> blocked_invoice_ids db' [pm_invoice q]" by blast
  then show ?thesis using r by (auto simp: sample_flight)
qed

theorem sweep_witness:
  "\<exists>r db'. reconcile_tenant (sample_reconcile_env 5000) sample_flight_db = Inr (r, db')
     \<and> (\<forall>p \<in> set (payments db'). \<not> overdue (sample_reconcile_env 5000) p)"
proof -
  have c: "rc_configured (sample_reconcile_env 5000)" "rc_after (sample_reconcile_env 5000) \<le> rc_max_age (sample_reconcile_env 5000)"
    "distinct (map pm_id (payments sample_flight_db))"
    by (simp_all add: sample_reconcile_env_def sample_flight)
  obtain r db' where "reconcile_tenant (sample_reconcile_env 5000) sample_flight_db = Inr (r, db')"
    by (cases "reconcile_legs (sample_reconcile_env 5000) (candidates sample_flight_db) (NO_COUNTS, [], sample_flight_db)")
      (simp add: reconcile_tenant_def c(1), simp add: sample_reconcile_env_def)
  then show ?thesis using sweep_leaves_nothing_overdue [OF _ c] by blast
qed

theorem poll_witness:
  "case payment_webhook (rc_pay (sample_reconcile_env 100)) (rc_fetch (sample_reconcile_env 100)) sample_flight_db
       (completed_event ''stripe'' ''tr_1'') of
      Inl e \<Rightarrow> settle_polled (sample_reconcile_env 100) sample_candidate ''completed'' sample_flight_db = (RowFailed True, sample_flight_db)
    | Inr (run, db1) \<Rightarrow> \<exists>db2. settle_polled (sample_reconcile_env 100) sample_candidate ''completed'' sample_flight_db = (Resolved run, db2)
        \<and> same_money db1 db2"
  by (rule poll_settles_like_the_webhook [where p = sample_payment])
    (simp_all add: sample_flight IN_FLIGHT_def sample_candidate_def)

end
