(* ===== verification/Exception_Lifecycle.thy ===== *)
theory Exception_Lifecycle
  imports Payment_Runs
begin

text \<open>
  Decisions on the exception queue (services/exception_lifecycle.py and the queue's writing
  routes in api/exceptions.py): who may clear an exception that blocks a payment, what a decision
  writes, and the append-only row it leaves.

  The clock that measures the time to resolution is left out, and so is the assignee's name.
  \<open>members\<close> is the lookup of a user in the caller's organization.
\<close>

section \<open>Verbs\<close>

definition RESOLUTION_STATUSES :: "(string \<times> string) list" where
  "RESOLUTION_STATUSES = [(''resolve'', ''resolved''), (''escalate'', ''escalated''), (''dismiss'', ''dismissed'')]"

definition RESOLUTION_ACTIONS :: "(string \<times> string) list" where
  "RESOLUTION_ACTIONS =
     [(''resolve'', ''exception.resolved''), (''escalate'', ''exception.escalated''),
      (''dismiss'', ''exception.dismissed'')]"

definition ACTIONABLE_STATUSES :: "string list" where
  "ACTIONABLE_STATUSES = [''open'', ''escalated'']"

definition CLEARING_ACTIONS :: "string set" where
  "CLEARING_ACTIONS = {''resolve'', ''dismiss''}"

section \<open>Segregation of duties on the queue\<close>

datatype exc_refusal = RefusalRaiser | RefusalImplicated

definition exception_segregation_enabled :: "json \<Rightarrow> bool py" where
  "exception_segregation_enabled org_settings =
     py_bind (or_empty_get org_settings ''exceptions'') (\<lambda>cfg.
     py_bind (or_empty_get cfg ''require_segregation'') (\<lambda>v. Inr (v \<noteq> JBool False)))"

definition segregation_refusal ::
    "exc_row \<Rightarrow> invoice option \<Rightarrow> uuid option \<Rightarrow> string \<Rightarrow> json \<Rightarrow> exc_refusal option py" where
  "segregation_refusal e iv actor action org_settings =
     (if action \<notin> CLEARING_ACTIONS then Inr None
      else py_bind (exception_segregation_enabled org_settings) (\<lambda>on.
        if \<not> on then Inr None
        else if \<not> is_payment_blocking (ex_type e) then Inr None
        else case actor of
          None \<Rightarrow> Inr None
        | Some a \<Rightarrow>
            if ex_raised_by e = Some a then Inr (Some RefusalRaiser)
            else (case iv of
                    None \<Rightarrow> Inr None
                  | Some i \<Rightarrow> Inr (if violates_segregation i a empty_cfg then Some RefusalImplicated else None))))"

section \<open>Decisions\<close>

definition apply_resolution :: "exc_row \<Rightarrow> string \<Rightarrow> string \<Rightarrow> string \<Rightarrow> time \<Rightarrow> exc_row py" where
  "apply_resolution e action resolution actor_name now =
     (case map_of RESOLUTION_STATUSES action of
        None \<Rightarrow> Inl ValueError
      | Some st \<Rightarrow>
          let e' = e\<lparr>ex_status := st, ex_resolution := Some resolution\<rparr>
          in Inr (if action = ''escalate'' then e'
                  else e'\<lparr>ex_resolved_by := Some actor_name, ex_resolved_at := Some now\<rparr>))"

definition MAX_RESOLUTION_CHARS :: nat where "MAX_RESOLUTION_CHARS = 500"

definition put_exception :: "exc_row \<Rightarrow> wf_db \<Rightarrow> wf_db" where
  "put_exception e db = db\<lparr>exceptions := update_where (\<lambda>x. ex_id x = ex_id e) (\<lambda>_. e) (exceptions db)\<rparr>"

definition exception_invoice :: "wf_db \<Rightarrow> exc_row \<Rightarrow> invoice option \<Rightarrow> invoice option" where
  "exception_invoice db e iv =
     (case iv of
        Some i \<Rightarrow> Some i
      | None \<Rightarrow> (case ex_invoice e of None \<Rightarrow> None | Some i \<Rightarrow> find (\<lambda>v. inv_id v = i) (invoices db)))"

definition exception_correlation :: "exc_row \<Rightarrow> invoice option \<Rightarrow> uuid" where
  "exception_correlation e iv = (case iv of Some i \<Rightarrow> correlation_id i | None \<Rightarrow> ex_id e)"

definition decision_details :: "exc_row \<Rightarrow> exc_row \<Rightarrow> string \<Rightarrow> string option \<Rightarrow> jdict" where
  "decision_details e e' resolution via =
     base_details e
     @ [(''old_status'', JStr (ex_status e)), (''new_status'', JStr (ex_status e'))]
     @ (if resolution = [] then [] else [(''resolution'', JStr (take MAX_RESOLUTION_CHARS resolution))])
     @ (if get_or via [] = [] then [] else [(''via'', JStr (get_or via []))])"

definition record_decision ::
    "wf_db \<Rightarrow> time \<Rightarrow> exc_row \<Rightarrow> string \<Rightarrow> string \<Rightarrow> uuid option \<Rightarrow> string \<Rightarrow> invoice option \<Rightarrow> string option
       \<Rightarrow> json \<Rightarrow> (string \<times> wf_db) py" where
  "record_decision db now e action resolution actor actor_name iv via org_settings =
     (let inv' = exception_invoice db e iv
      in py_bind (segregation_refusal e inv' actor action org_settings) (\<lambda>refusal.
           case refusal of
             Some r \<Rightarrow> Inl (HTTPException 403 ''Segregation of duties'')
           | None \<Rightarrow>
               py_bind (apply_resolution e action resolution actor_name now) (\<lambda>e'.
                 Inr (ex_status e',
                      dispatch_audit (put_exception e' db) (exception_correlation e inv') (ex_org e) actor
                        (get_or (map_of RESOLUTION_ACTIONS action) []) ''exception'' (ex_id e)
                        (decision_details e e' resolution via)))))"

definition record_assignment ::
    "wf_db \<Rightarrow> exc_row \<Rightarrow> uuid option \<Rightarrow> uuid option \<Rightarrow> invoice option \<Rightarrow> wf_db" where
  "record_assignment db e assignee actor iv =
     dispatch_audit db (exception_correlation e (exception_invoice db e iv)) (ex_org e) actor ''exception.assigned''
       ''exception'' (ex_id e)
       (base_details e @ [(''assigned_to_user_id'', case assignee of None \<Rightarrow> JNull | Some u \<Rightarrow> JStr (uuid_str u))])"

section \<open>The queue's routes\<close>

record queue_env =
  qe_now :: time
  qe_user :: uuid
  qe_user_name :: string
  qe_settings :: json
  qe_members :: "uuid \<Rightarrow> bool"

definition scoped_exception :: "wf_db \<Rightarrow> uuid \<Rightarrow> uuid option \<Rightarrow> exc_row option" where
  "scoped_exception db i scope = find (\<lambda>e. ex_id e = i \<and> in_scope scope (ex_entity e)) (exceptions db)"

definition resolve_exception ::
    "queue_env \<Rightarrow> wf_db \<Rightarrow> uuid \<Rightarrow> uuid option \<Rightarrow> string \<Rightarrow> string \<Rightarrow> (string \<times> wf_db) py" where
  "resolve_exception env db i scope action resolution =
     (case scoped_exception db i scope of
        None \<Rightarrow> Inl (HTTPException 404 ''Exception not found'')
      | Some e \<Rightarrow>
          if ex_status e \<notin> set ACTIONABLE_STATUSES then Inl (HTTPException 409 ''Cannot resolve from status'')
          else (case record_decision db (qe_now env) e action resolution (Some (qe_user env)) (qe_user_name env)
                       (exception_invoice db e None) None (qe_settings env) of
                  Inl er \<Rightarrow> Inl (if er = ValueError then HTTPException 400 ''Unknown action'' else er)
                | Inr r \<Rightarrow> Inr r))"

record bulk_outcome =
  bk_updated :: nat
  bk_skipped :: "(uuid \<times> string) list"

definition refusal_text :: "exc_refusal \<Rightarrow> string" where
  "refusal_text r = (case r of RefusalRaiser \<Rightarrow> ''segregation_raiser'' | RefusalImplicated \<Rightarrow> ''segregation_implicated'')"

fun bulk_rows ::
    "queue_env \<Rightarrow> string \<Rightarrow> string \<Rightarrow> exc_row list \<Rightarrow> bulk_outcome \<times> wf_db \<Rightarrow> (bulk_outcome \<times> wf_db) py" where
  "bulk_rows env action resolution [] st = Inr st"
| "bulk_rows env action resolution (e # es) (oc, db) =
     (if ex_status e \<notin> set ACTIONABLE_STATUSES then
        bulk_rows env action resolution es
          (oc\<lparr>bk_skipped := bk_skipped oc @ [(ex_id e, ''already_'' @ ex_status e)]\<rparr>, db)
      else py_bind (segregation_refusal e (exception_invoice db e None) (Some (qe_user env)) action (qe_settings env))
        (\<lambda>refusal. case refusal of
           Some r \<Rightarrow> bulk_rows env action resolution es
                       (oc\<lparr>bk_skipped := bk_skipped oc @ [(ex_id e, refusal_text r)]\<rparr>, db)
         | None \<Rightarrow>
             py_bind (record_decision db (qe_now env) e action resolution (Some (qe_user env)) (qe_user_name env)
                        (exception_invoice db e None) None (qe_settings env)) (\<lambda>(st, db').
               bulk_rows env action resolution es (oc\<lparr>bk_updated := bk_updated oc + 1\<rparr>, db'))))"

fun parse_ids :: "string list \<Rightarrow> uuid list option" where
  "parse_ids [] = Some []"
| "parse_ids (s # ss) =
     (case uuid_parse s of None \<Rightarrow> None | Some u \<Rightarrow> map_option (Cons u) (parse_ids ss))"

definition bulk_resolve ::
    "queue_env \<Rightarrow> wf_db \<Rightarrow> string list \<Rightarrow> uuid option \<Rightarrow> string \<Rightarrow> string \<Rightarrow> (bulk_outcome \<times> wf_db) py" where
  "bulk_resolve env db raw_ids scope action resolution =
     (if map_of RESOLUTION_ACTIONS action = None then Inl (HTTPException 400 ''Unknown action'')
      else case parse_ids raw_ids of
        None \<Rightarrow> Inl (HTTPException 400 ''Invalid id'')
      | Some ids \<Rightarrow>
          let rows = filter (\<lambda>e. ex_id e \<in> set ids \<and> in_scope scope (ex_entity e)) (exceptions db);
              missing = filter (\<lambda>i. i \<notin> ex_id ` set rows) ids
          in bulk_rows env action resolution rows
               (\<lparr>bk_updated = 0, bk_skipped = map (\<lambda>i. (i, ''not_found'')) missing\<rparr>, db))"

definition assign_exception ::
    "queue_env \<Rightarrow> wf_db \<Rightarrow> uuid \<Rightarrow> uuid option \<Rightarrow> string option \<Rightarrow> wf_db py" where
  "assign_exception env db i scope user =
     (case scoped_exception db i scope of
        None \<Rightarrow> Inl (HTTPException 404 ''Exception not found'')
      | Some e \<Rightarrow>
          if ex_status e \<notin> set ACTIONABLE_STATUSES then Inl (HTTPException 409 ''Cannot assign from status'')
          else py_bind
            (if get_or user [] = [] then Inr None
             else case uuid_parse (get_or user []) of
               None \<Rightarrow> Inl (HTTPException 400 ''Invalid user_id'')
             | Some u \<Rightarrow> if qe_members env u then Inr (Some u)
                         else Inl (HTTPException 404 ''User not found in this organization''))
            (\<lambda>assignee.
               let e' = e\<lparr>ex_assigned_to := assignee\<rparr>
               in Inr (record_assignment (put_exception e' db) e' assignee (Some (qe_user env)) None)))"

section \<open>Facts\<close>

lemma record_decision_Inr:
  assumes "record_decision db now e action resolution actor name iv via s = Inr (st, db')"
  obtains e' where "segregation_refusal e (exception_invoice db e iv) actor action s = Inr None"
    "apply_resolution e action resolution name now = Inr e'" "st = ex_status e'"
    "exceptions db' = update_where (\<lambda>x. ex_id x = ex_id e) (\<lambda>_. e') (exceptions db)"
    "audit db' = audit db @
       [\<lparr>au_correlation = exception_correlation e (exception_invoice db e iv), au_org = ex_org e, au_actor = actor,
         au_action = get_or (map_of RESOLUTION_ACTIONS action) [], au_entity_type = ''exception'',
         au_entity_id = ex_id e, au_details = decision_details e e' resolution via\<rparr>]"
    "invoices db' = invoices db"
proof -
  obtain e' where e': "segregation_refusal e (exception_invoice db e iv) actor action s = Inr None"
    "apply_resolution e action resolution name now = Inr e'"
    "st = ex_status e'" "db' = dispatch_audit (put_exception e' db) (exception_correlation e (exception_invoice db e iv))
       (ex_org e) actor (get_or (map_of RESOLUTION_ACTIONS action) []) ''exception'' (ex_id e)
       (decision_details e e' resolution via)"
    using assms by (auto simp: record_decision_def Let_def split: option.splits)
  have "ex_id e' = ex_id e"
    using e'(2) by (auto simp: apply_resolution_def Let_def split: option.splits if_splits)
  then show thesis using e' by (intro that) (simp_all add: put_exception_def dispatch_audit_def)
qed

lemma apply_resolution_row:
  assumes "apply_resolution e action resolution name now = Inr e'"
  shows "ex_id e' = ex_id e" "ex_invoice e' = ex_invoice e" "ex_type e' = ex_type e" "ex_raised_by e' = ex_raised_by e"
    "map_of RESOLUTION_STATUSES action = Some (ex_status e')"
  using assms by (auto simp: apply_resolution_def Let_def split: option.splits if_splits)

lemma clearing_statuses:
  "map_of RESOLUTION_STATUSES action = Some st \<Longrightarrow> st \<in> {''resolved'', ''dismissed''} \<Longrightarrow> action \<in> CLEARING_ACTIONS"
  by (auto simp: RESOLUTION_STATUSES_def CLEARING_ACTIONS_def split: if_splits)

lemma refusal_None:
  assumes "segregation_refusal e iv (Some a) action s = Inr None" "action \<in> CLEARING_ACTIONS"
    "exception_segregation_enabled s = Inr True" "is_payment_blocking (ex_type e)"
  shows "ex_raised_by e \<noteq> Some a" "\<And>i. iv = Some i \<Longrightarrow> \<not> violates_segregation i a empty_cfg"
  using assms by (auto simp: segregation_refusal_def split: if_splits option.splits)

text \<open>
  C26: Whoever takes a decision and on whatever invoice the caller loaded for it, an exception that
  blocks payment before the decision and no longer does after it is the one decided on, and the verb
  was to resolve or to dismiss it. With segregation on, a decider who is a person (an automatic
  decision names none) is then neither the one whose act raised it nor the uploader of its invoice nor
  anyone stamped on it. The invoice is the one the caller handed in, or the exception's own. The
  decision leaves exactly one audit row, which names the exception, the verb and the decider.
\<close>

theorem unblocking_needs_an_independent_decider:
  assumes "record_decision db now e action resolution actor name iv via s = Inr (st, db')"
    "distinct (map ex_id (exceptions db))" "e \<in> set (exceptions db)"
    "x \<in> set (exceptions db)" "blocks_payment x"
    "\<And>y. y \<in> set (exceptions db') \<Longrightarrow> ex_id y = ex_id x \<Longrightarrow> \<not> blocks_payment y"
    "exception_segregation_enabled s = Inr True"
  shows "x = e \<and> action \<in> {''resolve'', ''dismiss''}
     \<and> (\<forall>a. actor = Some a \<longrightarrow> ex_raised_by x \<noteq> Some a
          \<and> (\<forall>v. iv = Some v \<or> iv = None \<and> (\<exists>i. ex_invoice x = Some i \<and> find (\<lambda>v. inv_id v = i) (invoices db) = Some v)
               \<longrightarrow> uploaded_by_id v \<noteq> Some a \<and> uuid_str a \<notin> set (get_or (segregation_actor_ids v) [])))
     \<and> (\<exists>row. audit db' = audit db @ [row] \<and> au_actor row = actor
          \<and> au_entity_type row = ''exception'' \<and> au_entity_id row = ex_id x
          \<and> au_action row = (if action = ''resolve'' then ''exception.resolved'' else ''exception.dismissed''))"
proof -
  obtain e' where d: "segregation_refusal e (exception_invoice db e iv) actor action s = Inr None"
    "apply_resolution e action resolution name now = Inr e'"
    "exceptions db' = update_where (\<lambda>x. ex_id x = ex_id e) (\<lambda>_. e') (exceptions db)"
    "audit db' = audit db @
       [\<lparr>au_correlation = exception_correlation e (exception_invoice db e iv), au_org = ex_org e,
         au_actor = actor, au_action = get_or (map_of RESOLUTION_ACTIONS action) [],
         au_entity_type = ''exception'', au_entity_id = ex_id e, au_details = decision_details e e' resolution via\<rparr>]"
    by (rule record_decision_Inr [OF assms(1)]) blast
  note row = apply_resolution_row [OF d(2)]
  have "ex_id x = ex_id e"
  proof (rule ccontr)
    assume "ex_id x \<noteq> ex_id e"
    then have "x \<in> set (exceptions db')" using assms(4) by (auto simp: d(3) set_update_where)
    then show False using assms(5,6) by blast
  qed
  then have xe: "x = e" using assms(2-4) by (metis distinct_map inj_onD)
  have "e' \<in> set (exceptions db')" using assms(3) by (auto simp: d(3) set_update_where)
  then have nb: "\<not> blocks_payment e'" using assms(6) xe row(1) by blast
  then have "ex_status e' \<in> {''resolved'', ''dismissed''}"
    using assms(5) xe row(3) by (simp add: blocks_payment_def)
  then have clear: "action \<in> CLEARING_ACTIONS" using clearing_statuses row(5) by blast
  then have verb: "action = ''resolve'' \<or> action = ''dismiss''" by (simp add: CLEARING_ACTIONS_def)
  have blocking: "is_payment_blocking (ex_type e)"
    using assms(5) xe by (simp add: blocks_payment_def is_payment_blocking_def)
  have seg: "ex_raised_by e \<noteq> Some a"
      "exception_invoice db e iv = Some v \<Longrightarrow> uploaded_by_id v \<noteq> Some a \<and> uuid_str a \<notin> set (get_or (segregation_actor_ids v) [])"
    if "actor = Some a" for a v
    using refusal_None [OF d(1) [unfolded that] clear assms(7) blocking]
    by (auto simp: violates_segregation_def empty_cfg_def split: if_splits)
  have "exception_invoice db e iv = Some v" if "iv = Some v \<or> iv = None \<and> (\<exists>i. ex_invoice x = Some i \<and>
      find (\<lambda>v. inv_id v = i) (invoices db) = Some v)" for v
    using that xe by (auto simp: exception_invoice_def)
  then have people: "\<forall>a. actor = Some a \<longrightarrow> ex_raised_by x \<noteq> Some a
          \<and> (\<forall>v. iv = Some v \<or> iv = None \<and> (\<exists>i. ex_invoice x = Some i \<and> find (\<lambda>v. inv_id v = i) (invoices db) = Some v)
               \<longrightarrow> uploaded_by_id v \<noteq> Some a \<and> uuid_str a \<notin> set (get_or (segregation_actor_ids v) []))"
    using seg xe by blast
  have "get_or (map_of RESOLUTION_ACTIONS action) [] =
      (if action = ''resolve'' then ''exception.resolved'' else ''exception.dismissed'')"
    using verb by (auto simp: RESOLUTION_ACTIONS_def)
  then have "\<exists>row. audit db' = audit db @ [row] \<and> au_actor row = actor
          \<and> au_entity_type row = ''exception'' \<and> au_entity_id row = ex_id x
          \<and> au_action row = (if action = ''resolve'' then ''exception.resolved'' else ''exception.dismissed'')"
    unfolding d(4) xe by simp
  with xe verb people show ?thesis by simp
qed

definition sample_flag :: exc_row where
  "sample_flag = \<lparr>ex_id = 70, ex_invoice = Some 10, ex_type = ''fraud_flag'', ex_severity = ''error'',
     ex_description = ''Vendor bank details changed'', ex_status = ''open'', ex_org = 1, ex_entity = None,
     ex_raised_by = Some 21, ex_resolution = None, ex_resolved_by = None, ex_resolved_at = None,
     ex_assigned_to = None\<rparr>"

definition sample_flagged_db :: pay_db where
  "sample_flagged_db = sample_pay_db\<lparr>core := (core sample_pay_db)\<lparr>exceptions := [sample_flag]\<rparr>\<rparr>"

theorem unblocking_witness:
  "\<exists>st c. record_decision (core sample_flagged_db) 5 sample_flag ''resolve'' ''verified by phone'' (Some 22) ''Bob''
       None None JNull = Inr (st, c) \<and> ex_raised_by sample_flag \<noteq> Some 22
     \<and> (\<exists>row. audit c = audit (core sample_flagged_db) @ [row] \<and> au_actor row = Some 22
          \<and> au_entity_id row = ex_id sample_flag)"
proof -
  have v: "\<not> violates_segregation sample_payable 22 empty_cfg"
    by (simp add: violates_segregation_def sample_payable_def sample_invoice_def empty_cfg_def)
  have on: "exception_segregation_enabled JNull = Inr True"
    by (simp add: exception_segregation_enabled_def or_empty_get_def)
  have r: "segregation_refusal sample_flag (Some sample_payable) (Some 22) ''resolve'' JNull = Inr None"
    using v by (simp add: segregation_refusal_def on CLEARING_ACTIONS_def sample_flag_def)
  have i: "exception_invoice (core sample_flagged_db) sample_flag None = Some sample_payable"
    by (simp add: exception_invoice_def sample_flag_def sample_flagged_db_def sample_pay_db_def sample_payable_def
        sample_invoice_def)
  obtain st c where d: "record_decision (core sample_flagged_db) 5 sample_flag ''resolve'' ''verified by phone''
      (Some 22) ''Bob'' None None JNull = Inr (st, c)"
    by (simp add: record_decision_def i r apply_resolution_def RESOLUTION_STATUSES_def Let_def)
  obtain e' where e': "apply_resolution sample_flag ''resolve'' ''verified by phone'' ''Bob'' 5 = Inr e'"
    "exceptions c = update_where (\<lambda>x. ex_id x = ex_id sample_flag) (\<lambda>_. e') (exceptions (core sample_flagged_db))"
    by (rule record_decision_Inr [OF d]) blast
  have st: "ex_status e' = ''resolved''" using apply_resolution_row(5) [OF e'(1)] by (simp add: RESOLUTION_STATUSES_def)
  have only: "exceptions (core sample_flagged_db) = [sample_flag]" by (simp add: sample_flagged_db_def)
  have b: "sample_flag \<in> set (exceptions (core sample_flagged_db))" "blocks_payment sample_flag"
    unfolding only by (simp, simp add: sample_flag_def blocks_payment_def PAYMENT_BLOCKING_EXCEPTION_TYPES_def)
  have nb: "\<not> blocks_payment y" if "y \<in> set (exceptions c)" "ex_id y = ex_id sample_flag" for y
    using that by (simp add: e'(2) only update_where_def blocks_payment_def st)
  have "distinct (map ex_id (exceptions (core sample_flagged_db)))" by (simp add: only)
  from unblocking_needs_an_independent_decider [OF d this b(1) b nb on] d
  show ?thesis by blast
qed

end
