(* ===== verification/Payment_Lifecycle.thy ===== *)
theory Payment_Lifecycle
  imports Payment_Dispatch Payment_Reconciler Exception_Lifecycle "HOL-Library.Char_ord" "HOL-Library.List_Lexorder"
begin

text \<open>
  The routes that move a payment or a run through its life (api/payments.py): booking one
  payment, the CFO's sign-off, cancelling, executing, resuming and retrying a run, voiding, releasing or
  dismissing a compliance hold, and accepting a short settlement.

  A route either raises, and the transaction is rolled back, or returns with the database it
  committed. A route is serialised by its row locks, so a step is atomic; the passes that
  commit per payment are modelled as the sequence they are. \<open>le_provider_ok\<close> is false when the
  tenant names a processor that is not deployed; \<open>le_void\<close> is the adapter's \<open>void_payment\<close>, if it
  has one; \<open>le_cancel_card\<close> the issuer's \<open>cancel_card\<close>. Row locks, responses and the hand-off to
  the ERP pass are left out.
\<close>

record life_env =
  le_dispatch :: dispatch_env
  le_provider_ok :: bool
  le_void :: "(string \<Rightarrow> bool py) option"
  le_cancel_card :: "virtual_card \<Rightarrow> bool py"

abbreviation le_pay :: "life_env \<Rightarrow> pay_env" where
  "le_pay env \<equiv> de_pay (le_dispatch env)"

definition get_scoped_payment :: "pay_db \<Rightarrow> uuid \<Rightarrow> uuid option \<Rightarrow> payment py" where
  "get_scoped_payment db i scope =
     (case find (\<lambda>p. pm_id p = i \<and> in_scope scope (pm_entity p)) (payments db) of
        None \<Rightarrow> Inl (HTTPException 404 ''Payment not found'')
      | Some p \<Rightarrow> Inr p)"

definition get_scoped_run :: "pay_db \<Rightarrow> uuid \<Rightarrow> uuid option \<Rightarrow> payment_run py" where
  "get_scoped_run db i scope =
     (case find (\<lambda>r. pr_id r = i \<and> in_scope scope (pr_entity r)) (runs db) of
        None \<Rightarrow> Inl (HTTPException 404 ''Payment run not found'')
      | Some r \<Rightarrow> Inr r)"

definition require_payment_adapter :: "life_env \<Rightarrow> unit py" where
  "require_payment_adapter env =
     py_guard (\<not> le_provider_ok env) (HTTPException 409 ''Payment processor is not a supported provider'')"

definition run_segregation :: "life_env \<Rightarrow> payment_run \<Rightarrow> unit py" where
  "run_segregation env r =
     py_bind (payment_settings (pe_settings (le_pay env))) (\<lambda>cfg.
       check_run_segregation (pr_initiated_by r) (pe_user (le_pay env)) cfg)"

definition cfo_gate :: "payment_run \<Rightarrow> unit py" where
  "cfo_gate r =
     py_guard (pr_requires_cfo r \<and> pr_cfo_at r = None)
       (HTTPException 403 ''This run exceeds the CFO-approval threshold and is awaiting sign-off'')"

section \<open>Booking one payment\<close>

definition find_live_payment :: "pay_db \<Rightarrow> uuid \<Rightarrow> payment option" where
  "find_live_payment db i = find (\<lambda>p. pm_invoice p = i \<and> is_live p) (payments db)"

definition standalone_cfo_gate :: "life_env \<Rightarrow> invoice \<Rightarrow> rat \<Rightarrow> unit py" where
  "standalone_cfo_gate env iv net =
     py_bind (resolve_reporting_currency (pe_platform_currency (le_pay env)) (pe_settings (le_pay env))) (\<lambda>rc.
     py_bind (reporting_amount_at_locked_rate net (Some (currency iv)) rc (reporting_currency iv)
                (reporting_source_currency iv) (reporting_fx_rate iv)) (\<lambda>(reported, unconverted).
     py_bind (payment_settings (pe_settings (le_pay env))) (\<lambda>cfg.
     py_bind (cfo_approval_decision cfg reported rc unconverted) (\<lambda>cfo.
       py_guard (cfo_required cfo \<and> \<not> pe_user_is_cfo (le_pay env))
         (HTTPException 403 ''This payment requires CFO sign-off'')))))"

definition create_payment ::
    "life_env \<Rightarrow> pay_db \<Rightarrow> uuid \<Rightarrow> uuid option \<Rightarrow> string option \<Rightarrow> rat option \<Rightarrow> string option
       \<Rightarrow> (payment \<times> pay_db) py" where
  "create_payment env db i scope m amt ref =
     (case find (\<lambda>iv. inv_id iv = i \<and> in_scope scope (inv_entity iv)) (invoices (core db)) of
        None \<Rightarrow> Inl (HTTPException 404 ''Invoice not found'')
      | Some iv \<Rightarrow>
        if status iv \<notin> set PAYABLE_INVOICE_STATUSES
        then Inl (HTTPException 409 ''Invoice is not approved for payment'')
        else if inv_id iv \<in> blocked_invoice_ids db [inv_id iv]
        then Inl (HTTPException 409 ''Invoice has an unresolved payment-blocking exception'')
        else if card_claimed_invoice_ids db [(inv_id iv, m)] \<noteq> {}
        then Inl (HTTPException 409 ''Invoice already has a live virtual card'')
        else let net = net_payable_amount db iv
        in if net \<le> 0 then Inl (HTTPException 409 ''Invoice is fully covered by applied credit memos'')
           else if (case amt of None \<Rightarrow> False | Some a \<Rightarrow> a \<noteq> net)
           then Inl (HTTPException 422 ''Payment amount must equal the approved invoice amount'')
           else py_bind (standalone_cfo_gate env iv net) (\<lambda>_.
             case find_live_payment db (inv_id iv) of
               Some p \<Rightarrow> Inr (p, db)
             | None \<Rightarrow>
                 let p = (fresh_payment (le_pay env) None None iv net m)\<lparr>pm_reference := ref\<rparr>
                 in (case insert_payments [p] db of
                       Inl e \<Rightarrow> Inl e
                     | Inr db1 \<Rightarrow>
                         Inr (p, audit_pay (le_pay env) (get_or (pm_correlation p) (pe_audit_key (le_pay env)))
                                   ''payment.created'' ''payment'' (pm_id p)
                                   [(''invoice_id'', JStr (uuid_str (inv_id iv))),
                                    (''amount'', JStr (pe_money_text (le_pay env) net)),
                                    (''method'', json_of_option m), (''reference'', json_of_option ref),
                                    (''payment_run_id'', JNull)] db1))))"

section \<open>Sign-off, cancelling, executing and resuming a run\<close>

definition approve_payment_run :: "life_env \<Rightarrow> pay_db \<Rightarrow> uuid \<Rightarrow> uuid option \<Rightarrow> (payment_run \<times> pay_db) py" where
  "approve_payment_run env db i scope =
     py_bind (get_scoped_run db i scope) (\<lambda>r.
     py_bind (py_guard (pr_status r \<noteq> ''draft'') (HTTPException 409 ''Can only approve draft runs'')) (\<lambda>_.
     py_bind (py_guard (\<not> pr_requires_cfo r) (HTTPException 409 ''This run does not require CFO approval'')) (\<lambda>_.
     py_bind (py_guard (pr_cfo_at r \<noteq> None) (HTTPException 409 ''Run is already CFO-approved'')) (\<lambda>_.
     py_bind (run_segregation env r) (\<lambda>_.
       let r' = r\<lparr>pr_cfo_by := Some (pe_user (le_pay env)), pr_cfo_at := Some (pe_now (le_pay env))\<rparr>
       in Inr (r', audit_pay (le_pay env) (pe_audit_key (le_pay env)) ''payment_run.cfo_approved'' ''payment_run''
                     (pr_id r) [(''total_amount'', JStr (pe_money_text (le_pay env) (pr_total r)))]
                     (put_run r' db)))))))"

definition cancel_payment_run :: "life_env \<Rightarrow> pay_db \<Rightarrow> uuid \<Rightarrow> uuid option \<Rightarrow> (nat \<times> pay_db) py" where
  "cancel_payment_run env db i scope =
     py_bind (get_scoped_run db i scope) (\<lambda>r.
     py_bind (py_guard (pr_status r \<noteq> ''draft'') (HTTPException 409 ''Can only cancel draft runs'')) (\<lambda>_.
       let gone = run_payments db i;
           db1 = put_run (r\<lparr>pr_status := ''cancelled''\<rparr>)
                   (db\<lparr>payments := delete_where (\<lambda>p. pm_run p = Some i) (payments db)\<rparr>)
       in Inr (length gone,
               audit_pay (le_pay env) (pe_audit_key (le_pay env)) ''payment_run.cancelled'' ''payment_run'' (pr_id r)
                 [(''invoice_ids'', JList (map (JStr \<circ> uuid_str \<circ> pm_invoice) gone)),
                  (''payment_count'', JInt (int (length gone))),
                  (''total_amount'', JStr (pe_money_text (le_pay env) (pr_total r)))] db1)))"

definition execute_payment_run :: "life_env \<Rightarrow> pay_db \<Rightarrow> uuid \<Rightarrow> uuid option \<Rightarrow> (dispatch_result \<times> pay_db) py" where
  "execute_payment_run env db i scope =
     py_bind (get_scoped_run db i scope) (\<lambda>r.
     py_bind (py_guard (pr_status r \<noteq> ''draft'') (HTTPException 409 ''Can only execute draft runs'')) (\<lambda>_.
     py_bind (run_segregation env r) (\<lambda>_.
     py_bind (cfo_gate r) (\<lambda>_.
     py_bind (require_payment_adapter env) (\<lambda>_.
       let r' = r\<lparr>pr_status := ''executing''\<rparr>
       in Inr (dispatch_run_payments (le_dispatch env) (put_run r' db) r'))))))"

definition resume_payment_run :: "life_env \<Rightarrow> pay_db \<Rightarrow> uuid \<Rightarrow> uuid option \<Rightarrow> (dispatch_result \<times> pay_db) py" where
  "resume_payment_run env db i scope =
     py_bind (get_scoped_run db i scope) (\<lambda>r.
     py_bind (py_guard (pr_status r \<noteq> ''executing'') (HTTPException 409 ''Can only resume a run stuck executing'')) (\<lambda>_.
     py_bind (run_segregation env r) (\<lambda>_.
     py_bind (require_payment_adapter env) (\<lambda>_.
       Inr (dispatch_run_payments (le_dispatch env) db r)))))"

section \<open>Retrying what failed\<close>

definition RETRYABLE_PAYMENT_STATUSES :: "string list" where
  "RETRYABLE_PAYMENT_STATUSES = [''failed'', ''cancelled'']"

definition RETRYABLE_RUN_STATUSES :: "string list" where
  "RETRYABLE_RUN_STATUSES = [''partial'', ''failed'']"

definition effective_run_status :: "pay_db \<Rightarrow> payment_run \<Rightarrow> string" where
  "effective_run_status db r = derive_run_status (pr_status r) (active_rollup db (pr_id r))"

definition failed_payments :: "pay_db \<Rightarrow> uuid \<Rightarrow> payment list" where
  "failed_payments db i =
     filter (\<lambda>p. pm_status p \<in> set RETRYABLE_PAYMENT_STATUSES
               \<and> pm_id p \<notin> superseded_payment_ids (run_payments db i)) (run_payments db i)"

text \<open>The checks against the snapshot taken before the loop; \<open>db0\<close> is that snapshot.\<close>

definition retry_skip :: "pay_db \<Rightarrow> payment list \<Rightarrow> payment \<Rightarrow> string option" where
  "retry_skip db0 failed p =
     (let ids = map pm_invoice failed
      in case find_invoice db0 (pm_invoice p) of
           None \<Rightarrow> Some ''invoice_not_payable''
         | Some iv \<Rightarrow>
             if status iv \<notin> set PAYABLE_INVOICE_STATUSES then Some ''invoice_not_payable''
             else if pm_invoice p \<in> blocked_invoice_ids db0 ids then Some ''invoice_has_blocking_exception''
             else if pm_invoice p \<in> card_claimed_invoice_ids db0 (map (\<lambda>q. (pm_invoice q, pm_method q)) failed)
             then Some ''invoice_has_live_card''
             else if \<not> is_retry_safe p then Some ''needs_reconciliation''
             else if has_live_payment db0 (pm_invoice p) then Some ''invoice_has_live_payment''
             else if net_payable_amount db0 iv \<noteq> pm_amount p then Some ''net_amount_changed''
             else None)"

definition retry_payment :: "pay_env \<Rightarrow> uuid \<Rightarrow> invoice \<Rightarrow> payment \<Rightarrow> payment" where
  "retry_payment env run iv p =
     (fresh_payment env (Some run) (Some (pm_id p)) iv (pm_amount p) (pm_method p))\<lparr>pm_entity := pm_entity p\<rparr>"

fun retry_rows ::
    "life_env \<Rightarrow> uuid \<Rightarrow> pay_db \<Rightarrow> payment list \<Rightarrow> payment list \<Rightarrow> nat \<times> string list \<times> pay_db
       \<Rightarrow> nat \<times> string list \<times> pay_db" where
  "retry_rows env run db0 failed [] st = st"
| "retry_rows env run db0 failed (p # ps) (n, skipped, db) =
     (case retry_skip db0 failed p of
        Some why \<Rightarrow> retry_rows env run db0 failed ps (n, skipped @ [why], db)
      | None \<Rightarrow>
          (case find_invoice db0 (pm_invoice p) of
             None \<Rightarrow> retry_rows env run db0 failed ps (n, skipped, db)
           | Some iv \<Rightarrow>
               let q = retry_payment (le_pay env) run iv p
               in (case insert_payments [q] db of
                     Inl e \<Rightarrow> retry_rows env run db0 failed ps (n, skipped @ [''invoice_has_live_payment''], db)
                   | Inr db1 \<Rightarrow>
                       retry_rows env run db0 failed ps
                         (n + 1, skipped,
                          audit_pay (le_pay env) (get_or (pm_correlation q) run) ''payment.retried'' ''payment'' (pm_id p)
                            [(''payment_run_id'', JStr (uuid_str run)), (''payment_id'', JStr (uuid_str (pm_id p))),
                             (''retry_payment_id'', JStr (uuid_str (pm_id q))),
                             (''amount'', JStr (pe_money_text (le_pay env) (pm_amount q))),
                             (''method'', json_of_option (pm_method q)),
                             (''previous_failure_reason'', json_of_option (pm_failure p))] db1))))"

record retry_result =
  rt_dispatch :: dispatch_result
  rt_retried :: nat
  rt_skipped :: "string list"

definition retry_failed_payments :: "life_env \<Rightarrow> pay_db \<Rightarrow> uuid \<Rightarrow> uuid option \<Rightarrow> (retry_result \<times> pay_db) py" where
  "retry_failed_payments env db i scope =
     py_bind (get_scoped_run db i scope) (\<lambda>r.
     py_bind (py_guard (effective_run_status db r \<notin> set RETRYABLE_RUN_STATUSES)
                (HTTPException 409 ''Can only retry a run that finished with failures'')) (\<lambda>_.
     py_bind (run_segregation env r) (\<lambda>_.
     py_bind (cfo_gate r) (\<lambda>_.
     py_bind (require_payment_adapter env) (\<lambda>_.
       let failed = failed_payments db i;
           (n, skipped, db1) = retry_rows env i db failed failed (0, [], db);
           db2 = audit_pay (le_pay env) (pr_id r) ''payment_run.retried'' ''payment_run'' (pr_id r)
                   [(''payments_retried'', JInt (int n)), (''payments_skipped'', JInt (int (length skipped))),
                    (''skip_reasons'', JList (map JStr (sorted_list_of_set (set skipped)))),
                    (''previous_status'', JStr (pr_status r))] db1;
           r' = r\<lparr>pr_status := ''executing''\<rparr>;
           (res, db3) = dispatch_run_payments (le_dispatch env) (put_run r' db2) r'
       in Inr (\<lparr>rt_dispatch = res, rt_retried = n, rt_skipped = skipped\<rparr>, db3))))))"


section \<open>Voiding\<close>

definition recompute_parent_run_status :: "pay_db \<Rightarrow> payment \<Rightarrow> pay_db" where
  "recompute_parent_run_status db p =
     (case pm_run p of
        None \<Rightarrow> db
      | Some i \<Rightarrow> (case find_run db i of None \<Rightarrow> db | Some r \<Rightarrow> recompute_run_status db r))"

text \<open>Closing a card at its issuer: \<open>''cancelled''\<close> or why not.\<close>

definition cancel_card_at_provider :: "life_env \<Rightarrow> virtual_card \<Rightarrow> string py" where
  "cancel_card_at_provider env c =
     py_bind (cards_enabled (pe_settings (le_pay env))) (\<lambda>on.
       Inr (if \<not> on then ''cards_not_configured''
            else if de_issuer (le_dispatch env) = None then ''card_provider_not_configured''
            else case le_cancel_card env c of
              Inl e \<Rightarrow> ''card_cancel_error:'' @ exc_name e
            | Inr confirmed \<Rightarrow> if confirmed then ''cancelled'' else ''card_cancel_rejected''))"

datatype card_disposition = Closed | NoCard | NotClosedFinal | NotClosedRetryable

definition card_cancel_disposition :: "string option \<Rightarrow> card_disposition option" where
  "card_cancel_disposition oc =
     map_option (\<lambda>s.
       if s \<in> {''card_cancelled'', ''cancelled'', ''card_already_cancelled''} then Closed
       else if s = ''no_card_linked'' then NoCard
       else if s = ''card_already_charged'' then NotClosedFinal
       else NotClosedRetryable) oc"

primrec disposition_text :: "card_disposition \<Rightarrow> string" where
  "disposition_text Closed = ''closed''"
| "disposition_text NoCard = ''no_card''"
| "disposition_text NotClosedFinal = ''not_closed_final''"
| "disposition_text NotClosedRetryable = ''not_closed_retryable''"

text \<open>The card the void picks: a live one first.\<close>

definition card_of_payment :: "pay_db \<Rightarrow> uuid \<Rightarrow> virtual_card option" where
  "card_of_payment db i =
     (let cs = filter (\<lambda>c. vc_payment c = Some i) (cards db)
      in case find (\<lambda>c. vc_status c \<noteq> ''cancelled'') cs of
           Some c \<Rightarrow> Some c
         | None \<Rightarrow> (case cs of [] \<Rightarrow> None | c # _ \<Rightarrow> Some c))"

definition cancel_card_for_void :: "life_env \<Rightarrow> payment \<Rightarrow> string \<Rightarrow> pay_db \<Rightarrow> (string option \<times> pay_db) py" where
  "cancel_card_for_void env p via db =
     (if pm_method p \<noteq> Some ''virtual_card'' then Inr (None, db)
      else case card_of_payment db (pm_id p) of
        None \<Rightarrow> Inr (Some ''no_card_linked'', db)
      | Some c \<Rightarrow>
          if vc_status c = ''cancelled'' then Inr (Some ''card_already_cancelled'', db)
          else if vc_status c \<in> CARD_SPENT_STATUSES then Inr (Some ''card_already_charged'', db)
          else py_bind (cancel_card_at_provider env c) (\<lambda>oc.
            if oc \<noteq> ''cancelled'' then Inr (Some oc, db)
            else Inr (Some ''card_cancelled'',
              audit_pay (le_pay env)
                (get_or (vc_correlation c) (get_or (pm_correlation p) (pe_audit_key (le_pay env)))) ''card.cancelled''
                ''virtual_card'' (vc_id c)
                [(''last_four'', json_of_option (vc_last_four c)), (''from'', JStr (vc_status c)),
                 (''to'', JStr ''cancelled''), (''via'', JStr via), (''payment_id'', JStr (uuid_str (pm_id p)))]
                (put_card (c\<lparr>vc_status := ''cancelled''\<rparr>) db))))"

text \<open>What the processor says of a void: it was never asked when it gave no order id.\<close>

definition void_outcome :: "life_env \<Rightarrow> payment \<Rightarrow> string option" where
  "void_outcome env p =
     (if \<not> le_provider_ok env then Some ''provider_not_supported''
      else if get_or (pm_provider_id p) [] = [] then None
      else case le_void env of
        None \<Rightarrow> Some ''no_adapter_support''
      | Some f \<Rightarrow>
          (case f (get_or (pm_provider_id p) []) of
             Inl e \<Rightarrow> Some (''adapter_error:'' @ exc_name e)
           | Inr ok \<Rightarrow> Some (if ok then ''voided_upstream'' else ''rejected_by_processor'')))"

definition voided :: "life_env \<Rightarrow> string \<Rightarrow> payment \<Rightarrow> payment" where
  "voided env reason p =
     p\<lparr>pm_status := ''voided'', pm_failure := Some (''Voided by '' @ pe_user_name (le_pay env) @ '': '' @ reason),
       pm_completed_at := (if pm_completed_at p = None then Some (pe_now (le_pay env)) else pm_completed_at p)\<rparr>"

definition reopen_invoice :: "life_env \<Rightarrow> string \<Rightarrow> payment \<Rightarrow> pay_db \<Rightarrow> pay_db py" where
  "reopen_invoice env reason p db =
     (case find_invoice db (pm_invoice p) of
        None \<Rightarrow> Inr db
      | Some iv \<Rightarrow>
          if status iv \<in> {Payment_scheduled, Paid} then
            py_bind (transition_invoice (pe_role_users (le_pay env)) (pe_occurrence (le_pay env)) (core db) iv Approved
                       (Some (pe_user (le_pay env))) ''invoice.voided_return_to_approved''
                       [(''void_reason'', JStr reason), (''payment_id'', JStr (uuid_str (pm_id p)))])
              (\<lambda>(iv', c). Inr (db\<lparr>core := put_invoice iv' c\<rparr>))
          else Inr db)"

definition void_payment ::
    "life_env \<Rightarrow> (time \<Rightarrow> string) \<Rightarrow> pay_db \<Rightarrow> uuid \<Rightarrow> uuid option \<Rightarrow> string
       \<Rightarrow> (string option \<times> string option \<times> pay_db) py" where
  "void_payment env iso_text db i scope reason =
     py_bind (get_scoped_payment db i scope) (\<lambda>p.
     py_bind (py_guard (pm_status p \<in> {''voided'', ''cancelled''}) (HTTPException 409 ''Payment already'')) (\<lambda>_.
     py_bind (py_guard (pm_status p = ''failed'')
                (HTTPException 409 ''Cannot void a failed payment (it never settled)'')) (\<lambda>_.
       let adapter_outcome = void_outcome env p in
       py_bind (cancel_card_for_void env p ''payment_void'' db) (\<lambda>(card_outcome, db1).
       let p' = voided env reason p in
       py_bind (reopen_invoice env reason p' (put_payment p' db1)) (\<lambda>db2.
         Inr (adapter_outcome, card_outcome,
              recompute_parent_run_status
                (audit_pay (le_pay env) (get_or (pm_correlation p) (pe_audit_key (le_pay env))) ''payment.voided''
                   ''payment'' (pm_id p)
                   [(''reason'', JStr reason), (''adapter_outcome'', json_of_option adapter_outcome),
                    (''card_outcome'', json_of_option card_outcome),
                    (''amount'', JStr (pe_money_text (le_pay env) (pm_amount p))),
                    (''previous_status'', JStr (if pm_status p = [] then ''unknown'' else pm_status p)),
                    (''voided_at'', JStr (iso_text (pe_now (le_pay env)))),
                    (''settled_at'', json_of_option (map_option iso_text (pm_completed_at p')))] db2) p'))))))"

definition retry_void_card_cancel ::
    "life_env \<Rightarrow> pay_db \<Rightarrow> uuid \<Rightarrow> uuid option \<Rightarrow> (card_disposition option \<times> pay_db) py" where
  "retry_void_card_cancel env db i scope =
     py_bind (get_scoped_payment db i scope) (\<lambda>p.
     py_bind (py_guard (pm_status p \<noteq> ''voided'')
                (HTTPException 409 ''Only a voided payment's card close can be retried'')) (\<lambda>_.
     py_bind (py_guard (pm_method p \<noteq> Some ''virtual_card'')
                (HTTPException 409 ''This payment did not issue a virtual card'')) (\<lambda>_.
     py_bind (cancel_card_for_void env p ''payment_void_retry'' db) (\<lambda>(oc, db1).
       Inr (card_cancel_disposition oc,
            audit_pay (le_pay env) (get_or (pm_correlation p) (pe_audit_key (le_pay env)))
              ''payment.void_card_cancel_retried'' ''payment'' (pm_id p)
              [(''card_outcome'', json_of_option oc),
               (''card_disposition'', json_of_option (map_option disposition_text (card_cancel_disposition oc)))] db1)))))"

section \<open>Compliance holds\<close>

definition resolve_compliance_hold_exception ::
    "life_env \<Rightarrow> invoice \<Rightarrow> string \<Rightarrow> wf_db \<Rightarrow> wf_db py" where
  "resolve_compliance_hold_exception env iv resolution db =
     (case filter (\<lambda>e. ex_invoice e = Some (inv_id iv) \<and> ex_type e = ''payment_compliance_hold''
                       \<and> ex_status e = ''open'') (exceptions db) of
        [] \<Rightarrow> Inr db
      | [e] \<Rightarrow> map_sum id snd (record_decision db (pe_now (le_pay env)) e ''resolve'' resolution
                 (Some (pe_user (le_pay env))) (pe_user_name (le_pay env)) (Some iv) None JNull)
      | _ \<Rightarrow> Inl MultipleResultsFound)"

definition on_core :: "(wf_db \<Rightarrow> wf_db py) \<Rightarrow> pay_db \<Rightarrow> pay_db py" where
  "on_core f db = py_bind (f (core db)) (\<lambda>c. Inr (db\<lparr>core := c\<rparr>))"

definition release_compliance_hold :: "life_env \<Rightarrow> pay_db \<Rightarrow> uuid \<Rightarrow> uuid option \<Rightarrow> (payment \<times> pay_db) py" where
  "release_compliance_hold env db i scope =
     py_bind (get_scoped_payment db i scope) (\<lambda>p.
     py_bind (py_guard (pm_status p \<noteq> ''pending_compliance'')
                (HTTPException 409 ''Can only release a payment stuck pending_compliance'')) (\<lambda>_.
     py_bind (require_payment_adapter env) (\<lambda>_.
       let iv = find_invoice db (pm_invoice p);
           (ex, q, db1) = execute_single_payment (le_dispatch env) db p;
           p' = (case ex of None \<Rightarrow> q
                 | Some e \<Rightarrow> fail_payment (le_dispatch env) (''unexpected_error:'' @ exc_name e) q);
           db2 = audit_pay (le_pay env) (get_or (pm_correlation p') (pe_audit_key (le_pay env)))
                   ''payment.compliance_released'' ''payment'' (pm_id p')
                   [(''new_status'', JStr (pm_status p')), (''amount'', JStr (pe_money_text (le_pay env) (pm_amount p')))]
                   (put_payment p' db1)
       in py_bind (case iv of
                     None \<Rightarrow> Inr db2
                   | Some v \<Rightarrow>
                       if pm_status p' = ''pending_compliance'' then Inr db2
                       else on_core (resolve_compliance_hold_exception env v ''released'') db2) (\<lambda>db3.
            Inr (p', recompute_parent_run_status db3 p')))))"

definition dismiss_compliance_hold ::
    "life_env \<Rightarrow> pay_db \<Rightarrow> uuid \<Rightarrow> uuid option \<Rightarrow> string \<Rightarrow> (payment \<times> pay_db) py" where
  "dismiss_compliance_hold env db i scope reason =
     py_bind (get_scoped_payment db i scope) (\<lambda>p.
     py_bind (py_guard (pm_status p \<noteq> ''pending_compliance'')
                (HTTPException 409 ''Can only dismiss a payment stuck pending_compliance'')) (\<lambda>_.
       let p' = fail_payment (le_dispatch env)
                  (''compliance_dismissed by '' @ pe_user_name (le_pay env) @ '': '' @ reason) p;
           db1 = audit_pay (le_pay env) (get_or (pm_correlation p) (pe_audit_key (le_pay env)))
                   ''payment.compliance_dismissed'' ''payment'' (pm_id p)
                   [(''reason'', JStr reason), (''amount'', JStr (pe_money_text (le_pay env) (pm_amount p)))]
                   (put_payment p' db)
       in py_bind (case find_invoice db (pm_invoice p) of
                     None \<Rightarrow> Inr db1
                   | Some v \<Rightarrow> on_core (resolve_compliance_hold_exception env v (''dismissed: '' @ reason)) db1) (\<lambda>db2.
            Inr (p', recompute_parent_run_status db2 p'))))"

section \<open>Accepting a short settlement\<close>

primrec coverage_text :: "coverage_state \<Rightarrow> string" where
  "coverage_text Covered = ''covered''"
| "coverage_text Short = ''short''"
| "coverage_text Uncertain = ''uncertain''"

definition payment_coverage :: "payment \<Rightarrow> invoice option \<Rightarrow> SettlementCoverage py" where
  "payment_coverage p iv =
     settlement_coverage (pm_settled p) (pm_settled_currency p) (pm_amount p) (map_option currency iv)
       (pm_source_amount p) (pm_source_currency p) (pm_unstorable p) SETTLEMENT_AMOUNT_TOLERANCE"

definition accept_settlement :: "life_env \<Rightarrow> pay_db \<Rightarrow> uuid \<Rightarrow> uuid option \<Rightarrow> string \<Rightarrow> (invoice \<times> pay_db) py" where
  "accept_settlement env db i scope reason =
     py_bind (get_scoped_payment db i scope) (\<lambda>p.
     py_bind (py_guard (pm_status p \<noteq> ''completed'')
                (HTTPException 409 ''Can only accept the settlement of a completed payment'')) (\<lambda>_.
     py_bind (payment_coverage p (find_invoice db (pm_invoice p))) (\<lambda>cov.
     py_bind (py_guard (completes_invoice cov)
                (HTTPException 409 ''This payment's settlement already covers the invoice'')) (\<lambda>_.
       case find_invoice db (pm_invoice p) of
         None \<Rightarrow> Inl (HTTPException 409 ''No held invoice to release for this payment.'')
       | Some iv \<Rightarrow>
           if status iv \<noteq> Payment_scheduled
           then Inl (HTTPException 409 ''No held invoice to release for this payment.'')
           else let db1 = audit_pay (le_pay env) (get_or (pm_correlation p) (pe_audit_key (le_pay env)))
                            ''payment.settlement_accepted'' ''payment'' (pm_id p)
                            [(''reason'', JStr reason), (''coverage'', JStr (coverage_text (sc_state cov))),
                             (''shortfall'', json_of_option (map_option (pe_money_text (le_pay env)) (sc_shortfall cov))),
                             (''authorized_amount'', JStr (pe_money_text (le_pay env) (pm_amount p))),
                             (''settled_amount'', json_of_option (map_option (pe_money_text (le_pay env)) (pm_settled p))),
                             (''settled_currency'', json_of_option (pm_settled_currency p))] db
                in py_bind (transition_invoice (pe_role_users (le_pay env)) (pe_occurrence (le_pay env)) (core db1) iv Paid
                              (Some (pe_user (le_pay env))) ''invoice.paid_via_settlement_acceptance''
                              [(''payment_id'', JStr (uuid_str (pm_id p))),
                               (''coverage'', JStr (coverage_text (sc_state cov)))])
                     (\<lambda>(iv', c). Inr (iv', db1\<lparr>core := put_invoice iv' c\<rparr>))))))"

section \<open>What every route keeps\<close>

text \<open>A payment row may change, but keeps its identity and never comes back to life.\<close>

definition settles_down :: "payment \<Rightarrow> payment \<Rightarrow> bool" where
  "settles_down p q \<longleftrightarrow> pm_id q = pm_id p \<and> pm_invoice q = pm_invoice p \<and> (is_live q \<longrightarrow> is_live p)"

definition calm :: "pay_db \<Rightarrow> pay_db \<Rightarrow> bool" where
  "calm db db' \<longleftrightarrow> list_all2 settles_down (payments db) (payments db')"

definition segregated :: "json \<Rightarrow> bool" where
  "segregated s \<longleftrightarrow> (\<exists>cfg. payment_settings s = Inr cfg \<and> run_segregation_enabled cfg = Inr True)"

text \<open>The CFO's signature of a run: present once the run has left draft if it needs one, and not the
  initiator's when runs are segregated.\<close>

definition signed :: "json \<Rightarrow> payment_run \<Rightarrow> bool" where
  "signed s r \<longleftrightarrow>
     (pr_status r \<notin> {''draft'', ''cancelled''} \<and> pr_requires_cfo r \<longrightarrow> pr_cfo_at r \<noteq> None)
     \<and> (pr_cfo_at r \<noteq> None \<longrightarrow> pr_cfo_by r \<noteq> None \<and> (segregated s \<longrightarrow> pr_cfo_by r \<noteq> pr_initiated_by r))"

definition row_keys :: "pay_db \<Rightarrow> bool" where
  "row_keys db \<longleftrightarrow> distinct (map pm_id (payments db)) \<and> distinct (map pr_id (runs db))"

definition pay_ok :: "json \<Rightarrow> pay_db \<Rightarrow> bool" where
  "pay_ok s db \<longleftrightarrow> row_keys db \<and> one_live db \<and> (\<forall>r \<in> set (runs db). signed s r)"

text \<open>Where the live payments after an operation come from: from the same row, already live, or from a new
  row for an invoice that had no live payment.\<close>

definition live_from :: "pay_db \<Rightarrow> pay_db \<Rightarrow> bool" where
  "live_from db db' \<longleftrightarrow>
     (\<forall>q \<in> set (payments db'). is_live q \<longrightarrow>
        (\<exists>p \<in> set (payments db). pm_id p = pm_id q \<and> pm_invoice p = pm_invoice q \<and> is_live p)
        \<or> (pm_id q \<notin> set (map pm_id (payments db)) \<and> \<not> has_live_payment db (pm_invoice q)))"

definition appends :: "pay_db \<Rightarrow> pay_db \<Rightarrow> bool" where
  "appends db db' \<longleftrightarrow>
     (\<exists>qs. payments db' = payments db @ qs \<and> (\<forall>q \<in> set qs. is_live q \<longrightarrow> \<not> has_live_payment db (pm_invoice q)))"

definition moves :: "json \<Rightarrow> pay_db \<Rightarrow> pay_db \<Rightarrow> bool" where
  "moves s db db' \<longleftrightarrow> pay_ok s db' \<and> live_from db db'"

lemma settles_down_refl [simp]: "settles_down p p"
  by (simp add: settles_down_def)

lemma calm_refl [simp]: "calm db db"
  by (simp add: calm_def list_all2_same)

lemma calm_trans: "calm a b \<Longrightarrow> calm b c \<Longrightarrow> calm a c"
  unfolding calm_def by (rule list_all2_trans [where ?P1.0 = settles_down]) (auto simp: settles_down_def)

lemma calm_payments: "payments a' = payments a \<Longrightarrow> payments b' = payments b \<Longrightarrow> calm a' b' = calm a b"
  by (simp add: calm_def)

lemma calm_one_live:
  assumes "calm db db'" "one_live db"
  shows "one_live db'"
proof -
  have "length (filter (\<lambda>p. pm_invoice p = i \<and> is_live p) qs) \<le> length (filter (\<lambda>p. pm_invoice p = i \<and> is_live p) ps)"
    if "list_all2 settles_down ps qs" for ps qs i
    using that by (induction rule: list_all2_induct) (auto simp: settles_down_def)
  then have "live_count db' i \<le> live_count db i" for i
    using assms(1) by (simp add: live_count_def calm_def)
  then show ?thesis using assms(2) unfolding one_live_def by (meson le_trans)
qed

lemma calm_ids: "calm db db' \<Longrightarrow> map pm_id (payments db') = map pm_id (payments db)"
  unfolding calm_def by (induction rule: list_all2_induct) (auto simp: settles_down_def)

lemma put_payment_calm:
  assumes "distinct (map pm_id (payments db))" "p \<in> set (payments db)" "settles_down p q"
  shows "calm db (put_payment q db)"
proof -
  have "x = p" if "x \<in> set (payments db)" "pm_id x = pm_id q" for x
    using assms that by (metis distinct_map inj_onD settles_down_def)
  then have "settles_down x (if pm_id x = pm_id q then q else x)" if "x \<in> set (payments db)" for x
    using assms(3) that by (cases "pm_id x = pm_id q") fastforce+
  then show ?thesis by (simp add: calm_def put_payment_payments list_all2_map2 list_all2_same)
qed

lemma handled_settles_down: "handled ids p q \<Longrightarrow> settles_down p q"
  by (auto simp: handled_def same_payment_def settles_down_def is_live_def LIVE_PAYMENT_TERMINAL_STATUSES_def)

lemma dispatch_run_calm:
  assumes "distinct (map pm_id (payments db))" "dispatch_run_payments env db r = (res, db')"
  shows "calm db db'"
    "\<exists>r'. runs db' = runs (put_run r' db) \<and> pr_id r' = pr_id r \<and> pr_cfo_at r' = pr_cfo_at r
       \<and> pr_cfo_by r' = pr_cfo_by r \<and> pr_initiated_by r' = pr_initiated_by r \<and> pr_requires_cfo r' = pr_requires_cfo r"
proof -
  define pids where "pids = map pm_id (filter (\<lambda>p. pm_status p = ''pending'') (run_payments db (pr_id r)))"
  define db1 where "db1 = dispatch_payments env (pr_id r) pids db"
  have db': "payments db' = payments db1"
    "\<exists>st. runs db' = runs (put_run (r\<lparr>pr_status := st, pr_executed_at := Some (pe_now (de_pay env))\<rparr>) db1)"
    using assms(2) by (auto simp: dispatch_run_payments_def Let_def audit_pay_def db1_def pids_def)
  have "distinct pids" using assms(1) by (simp add: pids_def run_payments_def distinct_map_filter)
  note eff = dispatch_payments_effect [OF this assms(1), of env "pr_id r", folded db1_def]
  then show "calm db db'"
    unfolding calm_def db'(1) by (auto elim: list_all2_mono intro: handled_settles_down)
  obtain st where "runs db' = runs (put_run (r\<lparr>pr_status := st, pr_executed_at := Some (pe_now (de_pay env))\<rparr>) db)"
    using db'(2) eff by (auto simp: put_run_runs)
  then show "\<exists>r'. runs db' = runs (put_run r' db) \<and> pr_id r' = pr_id r \<and> pr_cfo_at r' = pr_cfo_at r
       \<and> pr_cfo_by r' = pr_cfo_by r \<and> pr_initiated_by r' = pr_initiated_by r \<and> pr_requires_cfo r' = pr_requires_cfo r"
    by (intro exI [of _ "r\<lparr>pr_status := st, pr_executed_at := Some (pe_now (de_pay env))\<rparr>"]) simp
qed

lemma put_run_signed:
  "\<forall>x \<in> set (runs db). signed s x \<Longrightarrow> signed s r \<Longrightarrow> \<forall>x \<in> set (runs (put_run r db)). signed s x"
  by (auto simp: put_run_runs)

lemma live_from_calm: "calm db db' \<Longrightarrow> live_from db db'"
  by (force simp: live_from_def calm_def settles_down_def in_set_conv_nth list_all2_conv_all_nth)

lemma live_from_then_calm:
  assumes "live_from a b" "calm b c"
  shows "live_from a c"
  unfolding live_from_def
proof (intro ballI impI)
  fix q assume q: "q \<in> set (payments c)" "is_live q"
  obtain p where "p \<in> set (payments b)" "pm_id p = pm_id q" "pm_invoice p = pm_invoice q" "is_live p"
    using assms(2) q by (force simp: calm_def settles_down_def in_set_conv_nth list_all2_conv_all_nth)
  then show "(\<exists>p \<in> set (payments a). pm_id p = pm_id q \<and> pm_invoice p = pm_invoice q \<and> is_live p)
      \<or> (pm_id q \<notin> set (map pm_id (payments a)) \<and> \<not> has_live_payment a (pm_invoice q))"
    using assms(1) unfolding live_from_def by metis
qed

lemma live_from_appends:
  assumes "appends db db'" "distinct (map pm_id (payments db'))"
  shows "live_from db db'"
  unfolding live_from_def
proof (intro ballI impI)
  fix q assume q: "q \<in> set (payments db')" "is_live q"
  obtain qs where qs: "payments db' = payments db @ qs" "\<forall>x \<in> set qs. is_live x \<longrightarrow> \<not> has_live_payment db (pm_invoice x)"
    using assms(1) by (auto simp: appends_def)
  show "(\<exists>p \<in> set (payments db). pm_id p = pm_id q \<and> pm_invoice p = pm_invoice q \<and> is_live p)
      \<or> (pm_id q \<notin> set (map pm_id (payments db)) \<and> \<not> has_live_payment db (pm_invoice q))"
    using q qs assms(2) by (cases "q \<in> set (payments db)") auto
qed

lemma appends_refl [simp]: "appends db db"
  by (simp add: appends_def)

lemma has_live_append: "payments b = payments a @ qs \<Longrightarrow> has_live_payment a i \<Longrightarrow> has_live_payment b i"
  by (simp add: has_live_payment_def)

lemma appends_trans: "appends a b \<Longrightarrow> appends b c \<Longrightarrow> appends a c"
  unfolding appends_def by (metis append.assoc has_live_append set_append Un_iff)

lemma insert_appends: "insert_payments rows db = Inr db' \<Longrightarrow> appends db db'"
proof (induction rows db rule: insert_payments.induct)
  case (2 p ps db)
  have "appends db (db\<lparr>payments := payments db @ [p]\<rparr>)" using 2(2) by (auto simp: appends_def split: if_splits)
  then show ?case using 2 appends_trans by (auto split: if_splits)
qed simp

lemma live_from_cong:
  "payments b = payments b' \<Longrightarrow> payments a = payments a' \<Longrightarrow> live_from a b = live_from a' b'"
  by (simp add: live_from_def has_live_payment_def)

lemma moves_cong: "moves s a b \<Longrightarrow> payments a = payments a' \<Longrightarrow> moves s a' b"
  using live_from_cong [of b b a a'] by (simp add: moves_def)

text \<open>Three ways a route keeps the invariant.\<close>

lemma pay_ok_calm:
  assumes "pay_ok s db" "calm db db'" "runs db' = runs db"
  shows "moves s db db'"
  using assms calm_one_live calm_ids live_from_calm by (simp add: moves_def pay_ok_def row_keys_def)

lemma pay_ok_put_run:
  assumes "pay_ok s db" "calm db db'" "runs db' = runs (put_run r db)" "signed s r"
  shows "moves s db db'"
  using assms calm_one_live calm_ids live_from_calm put_run_signed [of db s r] by (simp add: moves_def pay_ok_def row_keys_def)

lemma pay_ok_insert:
  assumes "pay_ok s db" "insert_payments rows (db\<lparr>runs := runs db @ new\<rparr>) = Inr db1"
    "payments db' = payments db1" "runs db' = runs db1" "\<forall>r \<in> set new. signed s r" "row_keys db'"
  shows "moves s db db'"
proof -
  have "one_live (db\<lparr>runs := runs db @ new\<rparr>)" using assms(1) by (simp add: pay_ok_def one_live_def live_count_def)
  then have "one_live db1" by (rule insert_payments_one_live [OF assms(2)])
  then have "one_live db'" using assms(3) by (simp add: one_live_def live_count_def)
  moreover have "appends db db'"
    using insert_appends [OF assms(2)] assms(3) by (simp add: appends_def has_live_payment_def)
  ultimately show ?thesis
    using assms(1,4-6) insert_payments_Inr [OF assms(2)] live_from_appends
    by (auto simp: moves_def pay_ok_def row_keys_def)
qed

lemma moves_refl: "pay_ok s db \<Longrightarrow> moves s db db"
  by (simp add: moves_def live_from_calm)

lemma get_scoped_run_Inr: "get_scoped_run db i scope = Inr r \<Longrightarrow> r \<in> set (runs db) \<and> pr_id r = i"
  by (auto simp: get_scoped_run_def dest: find_Some_props split: option.splits)

lemma get_scoped_payment_Inr: "get_scoped_payment db i scope = Inr p \<Longrightarrow> p \<in> set (payments db) \<and> pm_id p = i"
  by (auto simp: get_scoped_payment_def dest: find_Some_props split: option.splits)

lemma audit_pay_rows [simp]:
  "payments (audit_pay env c a t i d db) = payments db" "runs (audit_pay env c a t i d db) = runs db"
  "orders (audit_pay env c a t i d db) = orders db"
  by (simp_all add: audit_pay_def)

lemma stage_run_steps:
  assumes "stage_run env db entity items ivs t cfo plan = Inr (res, db')"
  shows "(db' = db \<and> \<not> rr_created res) \<or> (rr_created res \<and> (\<exists>rows r db1. insert_payments rows (db\<lparr>runs := runs db @ [r]\<rparr>) = Inr db1
     \<and> payments db' = payments db1 \<and> runs db' = runs db1 \<and> signed s r))"
proof -
  define r where "r = \<lparr>pr_id = pe_fresh_run env, pr_status = ''draft'', pr_total = t,
      pr_initiated_by = Some (pe_user env), pr_executed_at = None, pr_requires_cfo = cfo_required cfo,
      pr_cfo_by = None, pr_cfo_at = None, pr_plan = plan, pr_org = pe_org env, pr_entity = Some entity\<rparr>"
  define rows where "rows = List.map_filter (\<lambda>it. map_option (\<lambda>iv.
      fresh_payment env (Some (pr_id r)) None iv (net_payable_amount db iv) (Some (ri_method it))) (ivs (ri_invoice it))) items"
  show ?thesis
  proof (cases "insert_payments rows (db\<lparr>runs := runs db @ [r]\<rparr>)")
    case (Inl e)
    then show ?thesis using assms
      by (auto simp: stage_run_def Let_def existing_run_for_plan_def simp flip: r_def rows_def split: option.splits)
  next
    case (Inr db1)
    then have "rr_created res" "payments db' = payments db1" "runs db' = runs db1"
      using assms by (auto simp: stage_run_def Let_def audit_pay_def simp flip: r_def rows_def)
    moreover have "signed s r" by (simp add: signed_def r_def)
    ultimately show ?thesis using Inr by blast
  qed
qed

lemma existing_run_not_created: "existing_run_for_plan db pl = Some res \<Longrightarrow> \<not> rr_created res"
  by (auto simp: existing_run_for_plan_def split: option.splits)

lemma existing_run_db:
  assumes "create_payment_run_for_invoices env db entity scope items plan = Inr (res, db')" "\<not> rr_created res"
  shows "db' = db"
proof (cases "case plan of None \<Rightarrow> None | Some pl \<Rightarrow> existing_run_for_plan db pl")
  case (Some r)
  then show ?thesis using assms(1) by (auto simp: create_payment_run_for_invoices_def split: if_splits)
next
  case None
  then obtain ivs t cfo where "stage_run env db entity items ivs t cfo plan = Inr (res, db')"
    using assms(1) by (auto simp: create_payment_run_for_invoices_def Let_def split: if_splits)
  from stage_run_steps [OF this] assms(2) show ?thesis by blast
qed

lemma create_run_keeps:
  assumes "pay_ok s db" "create_payment_run_for_invoices env db entity scope items plan = Inr (res, db')" "row_keys db'"
  shows "moves s db db'"
proof (cases "rr_created res")
  case True
  obtain ivs t cfo where st: "stage_run env db entity items ivs t cfo plan = Inr (res, db')"
    by (rule created_run_cases [OF assms(2) True]) blast
  obtain rows r db1 where i: "insert_payments rows (db\<lparr>runs := runs db @ [r]\<rparr>) = Inr db1"
    "payments db' = payments db1" "runs db' = runs db1" "signed s r"
    using stage_run_steps [OF st, where s = s] True by blast
  show ?thesis using pay_ok_insert [OF assms(1) i(1-3) _ assms(3)] i(4) by simp
next
  case False
  then show ?thesis using existing_run_db [OF assms(2)] assms(1) moves_refl by simp
qed

lemma create_payment_keeps:
  assumes "pay_ok s db" "create_payment env db i scope m amt ref = Inr (p, db')" "row_keys db'"
  shows "moves s db db'"
proof -
  obtain iv where iv: "find (\<lambda>iv. inv_id iv = i \<and> in_scope scope (inv_entity iv)) (invoices (core db)) = Some iv"
    using assms(2) by (auto simp: create_payment_def split: option.splits)
  define q where "q = (fresh_payment (le_pay env) None None iv (net_payable_amount db iv) m)\<lparr>pm_reference := ref\<rparr>"
  have "db' = db \<or> (\<exists>db1. insert_payments [q] (db\<lparr>runs := runs db @ []\<rparr>) = Inr db1
      \<and> payments db' = payments db1 \<and> runs db' = runs db1)"
  proof (cases "find_live_payment db (inv_id iv)")
    case (Some x)
    then show ?thesis using assms(2) iv by (auto simp: create_payment_def Let_def split: if_splits)
  next
    case None
    then show ?thesis using assms(2) iv
      by (auto simp: create_payment_def Let_def simp del: insert_payments.simps simp flip: q_def
          split: if_splits sum.splits)
  qed
  then show ?thesis
  proof (elim disjE exE conjE)
    fix db1
    assume i: "insert_payments [q] (db\<lparr>runs := runs db @ []\<rparr>) = Inr db1" "payments db' = payments db1" "runs db' = runs db1"
    show ?thesis by (rule pay_ok_insert [OF assms(1) i _ assms(3)]) simp
  qed (use assms(1) moves_refl in simp)
qed

lemma run_segregation_blocks:
  assumes "run_segregation env r = Inr ()" "segregated (pe_settings (le_pay env))"
  shows "pr_initiated_by r \<noteq> Some (pe_user (le_pay env))"
proof -
  obtain cfg where "payment_settings (pe_settings (le_pay env)) = Inr cfg" "run_segregation_enabled cfg = Inr True"
    using assms(2) by (auto simp: segregated_def)
  then show ?thesis
    using assms(1) check_run_segregation_blocks [of cfg "pr_initiated_by r" "pe_user (le_pay env)"]
    by (simp add: run_segregation_def)
qed

lemma approve_keeps:
  assumes "pay_ok (pe_settings (le_pay env)) db" "approve_payment_run env db i scope = Inr (r', db')"
  shows "moves (pe_settings (le_pay env)) db db'"
proof -
  obtain r where r: "get_scoped_run db i scope = Inr r" "run_segregation env r = Inr ()"
    "r' = r\<lparr>pr_cfo_by := Some (pe_user (le_pay env)), pr_cfo_at := Some (pe_now (le_pay env))\<rparr>"
    "payments db' = payments (put_run r' db)" "runs db' = runs (put_run r' db)"
    using assms(2) by (auto simp: approve_payment_run_def Let_def)
  have "signed (pe_settings (le_pay env)) r'"
    using run_segregation_blocks [OF r(2)] by (auto simp: r(3) signed_def)
  moreover have "calm db db'" using r(4) by (simp add: calm_def list_all2_same)
  ultimately show ?thesis using pay_ok_put_run assms(1) r(5) by blast
qed

lemma delete_payments_ok:
  assumes "pay_ok s db" "payments db' = delete_where P (payments db)" "runs db' = runs (put_run r db)" "signed s r"
  shows "moves s db db'"
proof -
  have "live_count db' i \<le> live_count db i" for i
    using length_filter_le [of "\<lambda>p. \<not> P p" "filter (\<lambda>p. pm_invoice p = i \<and> is_live p) (payments db)"]
    by (simp add: live_count_def assms(2) delete_where_def conj_commute)
  then have "one_live db'" using assms(1) unfolding pay_ok_def one_live_def by (meson le_trans)
  then have "pay_ok s db'"
    using assms put_run_signed [of db s r] by (simp add: pay_ok_def row_keys_def delete_where_def distinct_map_filter)
  moreover have "live_from db db'" by (auto simp: live_from_def assms(2) delete_where_def)
  ultimately show ?thesis by (simp add: moves_def)
qed

lemma cancel_keeps:
  assumes "pay_ok s db" "cancel_payment_run env db i scope = Inr (n, db')"
  shows "moves s db db'"
proof -
  obtain r where r: "get_scoped_run db i scope = Inr r" "pr_status r = ''draft''"
    "payments db' = delete_where (\<lambda>p. pm_run p = Some i) (payments db)"
    "runs db' = runs (put_run (r\<lparr>pr_status := ''cancelled''\<rparr>) db)"
    using assms(2) by (auto simp: cancel_payment_run_def Let_def put_run_runs)
  have "signed s r" using assms(1) get_scoped_run_Inr [OF r(1)] by (simp add: pay_ok_def)
  then show ?thesis
    by (intro delete_payments_ok [OF assms(1) r(3,4)]) (auto simp: signed_def)
qed

text \<open>A pass over a run that may go ahead.\<close>

lemma dispatch_keeps:
  assumes "pay_ok s db" "dispatch_run_payments env db r = (res, db')" "signed s r" "pr_requires_cfo r \<longrightarrow> pr_cfo_at r \<noteq> None"
  shows "moves s db db'"
proof -
  have d: "distinct (map pm_id (payments db))" using assms(1) by (simp add: pay_ok_def row_keys_def)
  obtain r' where r': "runs db' = runs (put_run r' db)" "pr_id r' = pr_id r" "pr_cfo_at r' = pr_cfo_at r"
    "pr_cfo_by r' = pr_cfo_by r" "pr_initiated_by r' = pr_initiated_by r" "pr_requires_cfo r' = pr_requires_cfo r"
    using dispatch_run_calm(2) [OF d assms(2)] by blast
  have "signed s r'" using assms(3,4) r'(3-6) by (simp add: signed_def)
  then show ?thesis using pay_ok_put_run [OF assms(1) dispatch_run_calm(1) [OF d assms(2)] r'(1)] by blast
qed

lemma cfo_gate_Inr: "cfo_gate r = Inr () \<Longrightarrow> pr_requires_cfo r \<longrightarrow> pr_cfo_at r \<noteq> None"
  by (simp add: cfo_gate_def)

lemma executing_signed:
  assumes "signed s r" "pr_requires_cfo r \<longrightarrow> pr_cfo_at r \<noteq> None"
  shows "signed s (r\<lparr>pr_status := st\<rparr>)"
  using assms by (simp add: signed_def)

lemma execute_keeps:
  assumes "pay_ok s db" "execute_payment_run env db i scope = Inr (res, db')"
  shows "moves s db db'"
proof -
  obtain r where r: "get_scoped_run db i scope = Inr r" "cfo_gate r = Inr ()"
    "dispatch_run_payments (le_dispatch env) (put_run (r\<lparr>pr_status := ''executing''\<rparr>) db) (r\<lparr>pr_status := ''executing''\<rparr>) = (res, db')"
    using assms(2) by (auto simp: execute_payment_run_def Let_def)
  have sg: "signed s r" using assms(1) get_scoped_run_Inr [OF r(1)] by (simp add: pay_ok_def)
  note cfo = cfo_gate_Inr [OF r(2)]
  have "moves s db (put_run (r\<lparr>pr_status := ''executing''\<rparr>) db)"
    by (rule pay_ok_put_run [OF assms(1) _ refl executing_signed [OF sg cfo]]) (simp add: calm_def list_all2_same)
  then have "pay_ok s (put_run (r\<lparr>pr_status := ''executing''\<rparr>) db)" by (simp add: moves_def)
  then have "moves s (put_run (r\<lparr>pr_status := ''executing''\<rparr>) db) db'"
    by (rule dispatch_keeps [OF _ r(3) executing_signed [OF sg cfo]]) (use cfo in simp)
  then show ?thesis by (rule moves_cong) simp
qed

lemma resume_keeps:
  assumes "pay_ok s db" "resume_payment_run env db i scope = Inr (res, db')"
  shows "moves s db db'"
proof -
  obtain r where r: "get_scoped_run db i scope = Inr r" "pr_status r = ''executing''"
    "dispatch_run_payments (le_dispatch env) db r = (res, db')"
    using assms(2) by (auto simp: resume_payment_run_def)
  have sg: "signed s r" using assms(1) get_scoped_run_Inr [OF r(1)] by (simp add: pay_ok_def)
  then show ?thesis by (intro dispatch_keeps [OF assms(1) r(3) sg]) (simp add: signed_def r(2))
qed

text \<open>Retrying: new rows go through the same unique index.\<close>

lemma retry_rows_keeps:
  assumes "retry_rows env run db0 failed ps (n, sk, db) = (n', sk', db')"
  shows "(one_live db \<longrightarrow> one_live db') \<and> runs db' = runs db \<and> appends db db'"
  using assms
proof (induction ps arbitrary: n sk db)
  case Nil
  then show ?case by simp
next
  case (Cons p ps)
  show ?case
  proof (cases "retry_skip db0 failed p")
    case (Some why)
    then show ?thesis using Cons.IH Cons.prems by simp
  next
    case none: None
    show ?thesis
    proof (cases "find_invoice db0 (pm_invoice p)")
      case None
      then show ?thesis using Cons.IH Cons.prems none by simp
    next
      case (Some iv)
      define q where "q = retry_payment (le_pay env) run iv p"
      show ?thesis
      proof (cases "insert_payments [q] db")
        case (Inl e)
        then show ?thesis using Cons.IH Cons.prems none Some by (simp add: Let_def flip: q_def del: insert_payments.simps)
      next
        case (Inr db1)
        have one: "one_live db \<longrightarrow> one_live (audit_pay e c a t i d db1)" "runs (audit_pay e c a t i d db1) = runs db"
          "appends db (audit_pay e c a t i d db1)" for e c a t i d
          using insert_payments_one_live [OF Inr] insert_payments_Inr [OF Inr] insert_appends [OF Inr]
          by (auto simp: one_live_def live_count_def appends_def simp del: insert_payments.simps)
        have "\<exists>e c a t i d n2 sk2. retry_rows env run db0 failed ps (n2, sk2, audit_pay e c a t i d db1) = (n', sk', db')"
          using Cons.prems none Some Inr by (simp add: Let_def flip: q_def del: insert_payments.simps) blast
        then show ?thesis using Cons.IH one appends_trans by metis
      qed
    qed
  qed
qed

lemma record_attempt_ids:
  assumes "tame p db a"
  shows "map pm_id (payments (record_attempt env run a)) = map pm_id (payments db)"
  using assms by (cases a) (simp add: record_attempt_def Let_def keeps_tables_def)

lemma dispatch_ids: "map pm_id (payments (dispatch_payments env run pids db)) = map pm_id (payments db)"
proof (induction pids arbitrary: db)
  case Nil
  then show ?case by (simp add: dispatch_payments_def)
next
  case (Cons pid pids)
  have "map pm_id (payments (dispatch_one env run db pid)) = map pm_id (payments db)"
    by (auto simp: dispatch_one_def record_attempt_ids [OF execute_single_payment_tame] split: option.split)
  then show ?case using Cons.IH [of "dispatch_one env run db pid"] by (simp add: dispatch_payments_def)
qed

lemma dispatch_run_ids:
  "dispatch_run_payments env db r = (res, db') \<Longrightarrow> map pm_id (payments db') = map pm_id (payments db)"
  by (auto simp: dispatch_run_payments_def Let_def dispatch_ids)

lemma retry_keeps:
  assumes "pay_ok s db" "retry_failed_payments env db i scope = Inr (res, db')" "row_keys db'"
  shows "moves s db db'"
proof -
  obtain r where r: "get_scoped_run db i scope = Inr r" "cfo_gate r = Inr ()"
    using assms(2) by (auto simp: retry_failed_payments_def)
  define r' where "r' = r\<lparr>pr_status := ''executing''\<rparr>"
  obtain n sk db1 where rows: "retry_rows env i db (failed_payments db i) (failed_payments db i) (0, [], db) = (n, sk, db1)"
    by (cases "retry_rows env i db (failed_payments db i) (failed_payments db i) (0, [], db)")
  define db2 where "db2 = audit_pay (le_pay env) (pr_id r) ''payment_run.retried'' ''payment_run'' (pr_id r)
                   [(''payments_retried'', JInt (int n)), (''payments_skipped'', JInt (int (length sk))),
                    (''skip_reasons'', JList (map JStr (sorted_list_of_set (set sk)))),
                    (''previous_status'', JStr (pr_status r))] db1"
  have "\<exists>res2. dispatch_run_payments (le_dispatch env) (put_run r' db2) r' = (res2, db')"
    using assms(2) r rows
    by (auto simp: retry_failed_payments_def Let_def simp flip: r'_def db2_def split: prod.splits)
  then obtain res2 where d: "payments db2 = payments db1" "runs db2 = runs db1"
    "dispatch_run_payments (le_dispatch env) (put_run r' db2) r' = (res2, db')"
    by (auto simp: db2_def)
  have sg: "signed s r" using assms(1) get_scoped_run_Inr [OF r(1)] by (simp add: pay_ok_def)
  note cfo = cfo_gate_Inr [OF r(2)]
  have sg': "signed s r'" unfolding r'_def by (rule executing_signed [OF sg cfo])
  have b: "one_live db1" "runs db1 = runs db" "appends db db1"
    using retry_rows_keeps [OF rows] assms(1) by (simp_all add: pay_ok_def)
  have ids: "distinct (map pm_id (payments db1))"
    using assms(3) dispatch_run_ids [OF d(3)] by (simp add: row_keys_def d(1))
  have "pay_ok s (put_run r' db2)"
    using assms(1) b ids d(1,2) put_run_signed [of db2 s r', OF _ sg']
    by (simp add: pay_ok_def row_keys_def one_live_def live_count_def)
  then have "moves s (put_run r' db2) db'" by (rule dispatch_keeps [OF _ d(3) sg']) (use cfo in \<open>simp add: r'_def\<close>)
  moreover have "calm (put_run r' db2) db'" by (rule dispatch_run_calm(1) [OF _ d(3)]) (use ids d(1) in simp)
  then have "calm db1 db'" using d(1) by (simp add: calm_def)
  then have "live_from db db'" using live_from_then_calm live_from_appends [OF b(3) ids] by blast
  ultimately show ?thesis by (simp add: moves_def)
qed

text \<open>Rolling a run up again never unsigns it.\<close>

lemma derived_signed: "signed s r \<Longrightarrow> signed s (r\<lparr>pr_status := derive_run_status (pr_status r) x\<rparr>)"
  by (auto simp: signed_def derive_run_status_def Let_def CLAIM_RUN_STATUSES_def)

lemma parent_keeps: "pay_ok s db \<Longrightarrow> moves s db (recompute_parent_run_status db p)"
proof -
  assume ok: "pay_ok s db"
  show ?thesis
  proof (cases "Option.bind (pm_run p) (find_run db)")
    case None
    then show ?thesis using moves_refl [OF ok] by (auto simp: recompute_parent_run_status_def split: option.splits)
  next
    case (Some r)
    then have db': "recompute_parent_run_status db p = recompute_run_status db r" "r \<in> set (runs db)"
      by (auto simp: recompute_parent_run_status_def dest: find_run_Some split: option.splits bind_splits)
    then have "signed s r" using ok by (simp add: pay_ok_def)
    then show ?thesis
      unfolding db' recompute_run_status_def
      by (intro pay_ok_put_run [OF ok _ refl derived_signed]) (simp add: calm_def list_all2_same)
  qed
qed

text \<open>One payment rewritten, its run left alone or rolled up.\<close>

lemma one_payment_keeps:
  assumes "pay_ok s db" "p \<in> set (payments db)" "settles_down p q"
    "payments db1 = payments (put_payment q db)" "runs db1 = runs db"
  shows "moves s db db1" "moves s db (recompute_parent_run_status db1 q)"
proof -
  have "calm db (put_payment q db)"
    using put_payment_calm [OF _ assms(2,3)] assms(1) by (simp add: pay_ok_def row_keys_def)
  then have "calm db db1" using assms(4) by (simp add: calm_def)
  then show m: "moves s db db1" using pay_ok_calm assms(1,5) by blast
  then have "moves s db1 (recompute_parent_run_status db1 q)" by (intro parent_keeps) (simp add: moves_def)
  moreover have "payments (recompute_parent_run_status db1 q) = payments db1"
    by (simp add: recompute_parent_run_status_def recompute_run_status_def split: option.split)
  ultimately show "moves s db (recompute_parent_run_status db1 q)"
    using m live_from_cong [of "recompute_parent_run_status db1 q" db1 db db] by (simp add: moves_def)
qed

lemma cancel_card_rows:
  "cancel_card_for_void env p via db = Inr (oc, db') \<Longrightarrow> payments db' = payments db \<and> runs db' = runs db"
  by (auto simp: cancel_card_for_void_def put_card_def split: if_splits option.splits sum.splits)

lemma reopen_rows: "reopen_invoice env reason p db = Inr db' \<Longrightarrow> payments db' = payments db \<and> runs db' = runs db"
  by (auto simp: reopen_invoice_def split: if_splits option.splits)

lemma on_core_rows: "on_core f db = Inr db' \<Longrightarrow> payments db' = payments db \<and> runs db' = runs db"
  by (auto simp: on_core_def)

lemma void_steps:
  assumes "void_payment env iso_text db i scope reason = Inr (a, c, db')"
  obtains p oc db1 db2 db3 where "get_scoped_payment db i scope = Inr p" "is_live p"
    "cancel_card_for_void env p ''payment_void'' db = Inr (oc, db1)"
    "reopen_invoice env reason (voided env reason p) (put_payment (voided env reason p) db1) = Inr db2"
    "payments db3 = payments db2" "runs db3 = runs db2" "invoices (core db3) = invoices (core db2)"
    "db' = recompute_parent_run_status db3 (voided env reason p)"
proof -
  obtain p where p: "get_scoped_payment db i scope = Inr p" using assms by (auto simp: void_payment_def)
  define q where "q = voided env reason p"
  obtain oc db1 db2 where s: "cancel_card_for_void env p ''payment_void'' db = Inr (oc, db1)"
    "reopen_invoice env reason q (put_payment q db1) = Inr db2"
    "pm_status p \<notin> {''voided'', ''cancelled''}" "pm_status p \<noteq> ''failed''"
    using assms p by (auto simp: void_payment_def Let_def simp flip: q_def)
  have "is_live p" using s(3,4) by (simp add: is_live_def LIVE_PAYMENT_TERMINAL_STATUSES_def)
  have "db' \<in> range (\<lambda>d. recompute_parent_run_status
      (audit_pay (le_pay env) (get_or (pm_correlation p) (pe_audit_key (le_pay env))) ''payment.voided'' ''payment''
         (pm_id p) d db2) q)"
    using assms p s by (auto simp: void_payment_def Let_def simp flip: q_def)
  then obtain d where "db' = recompute_parent_run_status
      (audit_pay (le_pay env) (get_or (pm_correlation p) (pe_audit_key (le_pay env))) ''payment.voided'' ''payment''
         (pm_id p) d db2) q" by auto
  then show ?thesis
    by (intro that [OF p \<open>is_live p\<close> s(1,2) [unfolded q_def]]) (simp_all add: q_def audit_pay_def)
qed

lemma void_keeps:
  assumes "pay_ok s db" "void_payment env iso_text db i scope reason = Inr (a, c, db')"
  shows "moves s db db'"
proof -
  obtain p oc db1 db2 db3 where v: "get_scoped_payment db i scope = Inr p" "is_live p"
    "cancel_card_for_void env p ''payment_void'' db = Inr (oc, db1)"
    "reopen_invoice env reason (voided env reason p) (put_payment (voided env reason p) db1) = Inr db2"
    "payments db3 = payments db2" "runs db3 = runs db2" "invoices (core db3) = invoices (core db2)"
    "db' = recompute_parent_run_status db3 (voided env reason p)"
    using void_steps [OF assms(2)] by metis
  have "settles_down p (voided env reason p)"
    by (simp add: voided_def settles_down_def is_live_def LIVE_PAYMENT_TERMINAL_STATUSES_def)
  moreover have "payments db3 = payments (put_payment (voided env reason p) db)" "runs db3 = runs db"
    using cancel_card_rows [OF v(3)] reopen_rows [OF v(4)] v(5,6) by (simp_all add: put_payment_payments)
  ultimately show ?thesis
    unfolding v(8) using one_payment_keeps(2) assms(1) get_scoped_payment_Inr [OF v(1)] by blast
qed

lemma retry_void_keeps:
  "pay_ok s db \<Longrightarrow> retry_void_card_cancel env db i scope = Inr (d, db') \<Longrightarrow> moves s db db'"
  by (auto simp: retry_void_card_cancel_def dest!: cancel_card_rows intro!: pay_ok_calm [of s db] simp: calm_def list_all2_same)

lemma release_keeps:
  assumes "pay_ok s db" "release_compliance_hold env db i scope = Inr (q, db')"
  shows "moves s db db'"
proof -
  obtain p where p: "get_scoped_payment db i scope = Inr p" "pm_status p = ''pending_compliance''"
    using assms(2) by (auto simp: release_compliance_hold_def)
  obtain ex p1 db1 where e: "execute_single_payment (le_dispatch env) db p = (ex, p1, db1)"
    by (cases "execute_single_payment (le_dispatch env) db p")
  define q' where "q' = (case ex of None \<Rightarrow> p1
                 | Some e \<Rightarrow> fail_payment (le_dispatch env) (''unexpected_error:'' @ exc_name e) p1)"
  define dbA where "dbA = audit_pay (le_pay env) (get_or (pm_correlation q') (pe_audit_key (le_pay env)))
                   ''payment.compliance_released'' ''payment'' (pm_id q')
                   [(''new_status'', JStr (pm_status q')), (''amount'', JStr (pe_money_text (le_pay env) (pm_amount q')))]
                   (put_payment q' db1)"
  have A: "payments dbA = payments (put_payment q' db1)" "runs dbA = runs db1" by (simp_all add: dbA_def)
  have "\<exists>db2. payments db2 = payments dbA \<and> runs db2 = runs dbA \<and> db' = recompute_parent_run_status db2 q'"
  proof (cases "find_invoice db (pm_invoice p)")
    case None
    then show ?thesis using assms(2) p e by (auto simp: release_compliance_hold_def Let_def simp flip: q'_def dbA_def)
  next
    case (Some iv)
    show ?thesis
    proof (cases "pm_status q' = ''pending_compliance''")
      case True
      then have "db' = recompute_parent_run_status dbA q'" using assms(2) p e Some
        by (auto simp: release_compliance_hold_def Let_def dbA_def simp flip: q'_def)
      then show ?thesis by blast
    next
      case False
      then show ?thesis using assms(2) p e Some
        by (auto simp: release_compliance_hold_def Let_def simp flip: q'_def dbA_def dest: on_core_rows)
    qed
  qed
  then obtain db2 where d: "payments db2 = payments (put_payment q' db1)" "runs db2 = runs db1"
    "db' = recompute_parent_run_status db2 q'" using A by auto
  have t: "same_payment p p1" "keeps_tables db db1"
    using execute_single_payment_tame [of p db "le_dispatch env"] e by simp_all
  have "same_payment p q'" using t(1) by (auto simp: q'_def same_payment_def fail_payment_def split: option.split)
  then have "settles_down p q'"
    by (simp add: same_payment_def settles_down_def is_live_def LIVE_PAYMENT_TERMINAL_STATUSES_def p(2))
  then show ?thesis
    unfolding d(3) using one_payment_keeps(2) [of s db p q' db2] assms(1) get_scoped_payment_Inr [OF p(1)] t(2) d(1,2)
    by (simp add: keeps_tables_def put_payment_payments)
qed

lemma dismiss_keeps:
  assumes "pay_ok s db" "dismiss_compliance_hold env db i scope reason = Inr (q, db')"
  shows "moves s db db'"
proof -
  obtain p where p: "get_scoped_payment db i scope = Inr p" using assms(2) by (auto simp: dismiss_compliance_hold_def)
  define q' where "q' = fail_payment (le_dispatch env)
    (''compliance_dismissed by '' @ pe_user_name (le_pay env) @ '': '' @ reason) p"
  define dbA where "dbA = audit_pay (le_pay env) (get_or (pm_correlation p) (pe_audit_key (le_pay env)))
                   ''payment.compliance_dismissed'' ''payment'' (pm_id p)
                   [(''reason'', JStr reason), (''amount'', JStr (pe_money_text (le_pay env) (pm_amount p)))]
                   (put_payment q' db)"
  have A: "payments dbA = payments (put_payment q' db)" "runs dbA = runs db" by (simp_all add: dbA_def)
  have "\<exists>db2. payments db2 = payments dbA \<and> runs db2 = runs dbA \<and> db' = recompute_parent_run_status db2 q'"
  proof (cases "find_invoice db (pm_invoice p)")
    case None
    then show ?thesis using assms(2) p
      by (auto simp: dismiss_compliance_hold_def Let_def simp flip: q'_def dbA_def simp del: append_Cons)
  next
    case (Some iv)
    then show ?thesis using assms(2) p
      by (auto simp: dismiss_compliance_hold_def Let_def simp flip: q'_def dbA_def simp del: append_Cons dest: on_core_rows)
  qed
  then obtain db2 where d: "payments db2 = payments (put_payment q' db)" "runs db2 = runs db"
    "db' = recompute_parent_run_status db2 q'" using A by auto
  have "settles_down p q'"
    by (simp add: q'_def fail_payment_def settles_down_def is_live_def LIVE_PAYMENT_TERMINAL_STATUSES_def)
  then show ?thesis
    unfolding d(3) using one_payment_keeps(2) [OF assms(1) _ _ d(1,2)] get_scoped_payment_Inr [OF p] by blast
qed

lemma store_settlement_same: "settles_down p (store_settlement p v)"
  by (simp add: store_settlement_def Let_def settles_down_def is_live_def split: option.split decimal.split)

lemma record_completion_same: "record_completion fetch p iv a c = Inr (cp, q) \<Longrightarrow> settles_down p q"
  by (auto simp: record_completion_def record_settlement_def store_settlement_same split: prod.splits)

lemma webhook_keeps:
  assumes "pay_ok s db" "payment_webhook env fetch db ev = Inr (run, db')"
  shows "moves s db db'"
proof (cases "db' = db")
  case True
  then show ?thesis using moves_refl [OF assms(1)] by simp
next
  case False
  then obtain p where p: "filter (\<lambda>p. pm_provider_id p = Some (ev_provider_id ev)) (payments db) = [p]"
    "pm_status p \<in> {''pending'', ''submitted'', ''processing''}" "settle_event env fetch db ev p = Inr (run, db')"
    using assms(2) by (auto simp: payment_webhook_def split: list.splits if_splits)
  have "p \<in> set (payments db)" using p(1) by (auto simp: filter_eq_Cons_iff)
  have ap: "settles_down p (apply_event (pe_now env) ev p)"
    using p(2) by (auto simp: settles_down_def apply_event_def is_live_def LIVE_PAYMENT_TERMINAL_STATUSES_def)
  have "\<exists>q. settles_down (apply_event (pe_now env) ev p) q \<and> payments db' = payments (put_payment q db) \<and> runs db' = runs db"
  proof (cases "pm_status (apply_event (pe_now env) ev p) = ''completed''")
    case True
    then obtain cp q where c: "record_completion fetch (apply_event (pe_now env) ev p) (find_invoice db (pm_invoice p))
        (ev_amount ev) (ev_currency ev) = Inr (cp, q)"
      using p(3) by (auto simp: settle_event_def Let_def)
    have "payments db' = payments (put_payment q db)" "runs db' = runs db"
      using p(3) True c by (auto simp: settle_event_def Let_def audit_system_def split: if_splits)
    then show ?thesis using record_completion_same [OF c] by blast
  next
    case False
    have "payments db' = payments (put_payment (apply_event (pe_now env) ev p) db)" "runs db' = runs db"
      using p(3) False by (auto simp: settle_event_def Let_def audit_system_def split: if_splits)
    then show ?thesis using settles_down_refl by blast
  qed
  then obtain q where q: "settles_down p q" "payments db' = payments (put_payment q db)" "runs db' = runs db"
    using ap by (auto simp: settles_down_def)
  show ?thesis by (rule one_payment_keeps(1) [OF assms(1) \<open>p \<in> set (payments db)\<close> q])
qed

lemma reconcile_keeps:
  assumes "pay_ok s db" "reconcile_one env c db = (l, db')"
  shows "moves s db db'"
proof -
  have moved: "moves s db db'" if "find_payment db (ca_id c) = Some p" "pm_status p \<in> IN_FLIGHT" "pm_id q = pm_id p"
    "pm_invoice q = pm_invoice p" "payments db' = payments (put_payment q db)" "runs db' = runs db" for p q
  proof (rule one_payment_keeps(1) [OF assms(1) _ _ that(5,6)])
    show "p \<in> set (payments db)" using find_payment_Some [OF that(1)] by simp
    have "is_live p" using that(2) by (auto simp: IN_FLIGHT_def is_live_def LIVE_PAYMENT_TERMINAL_STATUSES_def)
    then show "settles_down p q" using that(3,4) by (simp add: settles_down_def)
  qed
  show ?thesis using assms(2)
  proof (cases rule: reconcile_one_cases)
    case idle
    then show ?thesis using moves_refl [OF assms(1)] by simp
  next
    case aged
    show ?thesis using aged(1)
    proof (cases rule: age_out_cases)
      case (aged p p' t)
      show ?thesis by (rule moved [OF aged(2,3), of p']) (simp_all add: aged(4,5))
    qed (use moves_refl [OF assms(1)] in simp)
  next
    case (polled up)
    show ?thesis using polled(1,2)
    proof (cases rule: settle_polled_cases)
      case (polled p q cp db1)
      show ?thesis by (rule moved [OF polled(2,3,5,6)]) (simp_all add: polled(7-9) put_payment_payments)
    qed (use moves_refl [OF assms(1)] in simp)
  qed
qed

section \<open>The lifecycle as a step system\<close>

text \<open>
  What may happen to the payments and runs of a tenant whose settings are \<open>s\<close>: a route or the webhook
  returned, a leg of the reconciler's sweep committed, or something committed that left both tables alone (the ERP pass, an accepted settlement, the
  exception queue, an invoice's own workflow). New rows carry fresh primary keys.
\<close>

inductive pay_step :: "json \<Rightarrow> pay_db \<Rightarrow> pay_db \<Rightarrow> bool" for s where
  book_run: "pay_step s db db'"
    if "create_payment_run_for_invoices penv db entity scope items plan = Inr (rres, db')" "row_keys db'"
| book: "pay_step s db db'" if "create_payment env db i scope m amt ref = Inr (p, db')" "row_keys db'"
| approve: "pay_step s db db'"
    if "approve_payment_run env db i scope = Inr (r, db')" "pe_settings (le_pay env) = s"
| cancel: "pay_step s db db'" if "cancel_payment_run env db i scope = Inr (n, db')"
| execute: "pay_step s db db'" if "execute_payment_run env db i scope = Inr (dres, db')"
| resume: "pay_step s db db'" if "resume_payment_run env db i scope = Inr (dres, db')"
| retry: "pay_step s db db'" if "retry_failed_payments env db i scope = Inr (tres, db')" "row_keys db'"
| void: "pay_step s db db'" if "void_payment env iso_text db i scope reason = Inr (a, c, db')"
| close_card: "pay_step s db db'" if "retry_void_card_cancel env db i scope = Inr (d, db')"
| release: "pay_step s db db'" if "release_compliance_hold env db i scope = Inr (p, db')"
| dismiss: "pay_step s db db'" if "dismiss_compliance_hold env db i scope reason = Inr (p, db')"
| webhook: "pay_step s db db'" if "payment_webhook penv fetch db ev = Inr (run, db')"
| reconcile: "pay_step s db db'" if "reconcile_one renv c db = (l, db')"
| elsewhere: "pay_step s db db'" if "payments db' = payments db" "runs db' = runs db"

lemma pay_step_moves: "pay_step s db db' \<Longrightarrow> pay_ok s db \<Longrightarrow> moves s db db'"
proof (induction rule: pay_step.induct)
  case f: (approve env db i scope r db')
  then show ?case using approve_keeps [of env db i scope r db'] by simp
next
  case (elsewhere db' db)
  then show ?case by (intro pay_ok_calm [of s db db']) (simp_all add: calm_def list_all2_same)
next
  case f: book_run
  show ?case by (rule create_run_keeps [OF f(3) f(1,2)])
next
  case f: book
  show ?case by (rule create_payment_keeps [OF f(3) f(1,2)])
next
  case f: cancel
  show ?case by (rule cancel_keeps [OF f(2) f(1)])
next
  case f: execute
  show ?case by (rule execute_keeps [OF f(2) f(1)])
next
  case f: resume
  show ?case by (rule resume_keeps [OF f(2) f(1)])
next
  case f: retry
  show ?case by (rule retry_keeps [OF f(3) f(1,2)])
next
  case f: void
  show ?case by (rule void_keeps [OF f(2) f(1)])
next
  case f: close_card
  show ?case by (rule retry_void_keeps [OF f(2) f(1)])
next
  case f: release
  show ?case by (rule release_keeps [OF f(2) f(1)])
next
  case f: dismiss
  show ?case by (rule dismiss_keeps [OF f(2) f(1)])
next
  case f: webhook
  show ?case by (rule webhook_keeps [OF f(2) f(1)])
next
  case f: reconcile
  show ?case by (rule reconcile_keeps [OF f(2) f(1)])
qed

interpretation pay_life: step_system "\<lambda>db. payments db = [] \<and> runs db = []" "pay_step s" "pay_ok s" for s
  by unfold_locales (auto simp: pay_ok_def row_keys_def one_live_def live_count_def moves_def dest: pay_step_moves)

text \<open>The passes that leave payments and runs alone.\<close>

lemma sync_step: "sync_run_legs env ok db run = (r, db') \<Longrightarrow> pay_step s db db'"
  by (auto simp: sync_run_legs_def dest!: sync_legs_rows intro: elsewhere)

lemma accept_step: "accept_settlement env db i scope reason = Inr (iv, db') \<Longrightarrow> pay_step s db db'"
  by (auto simp: accept_settlement_def Let_def intro!: elsewhere split: option.splits if_splits)

text \<open>
  C2: Whatever sequence of routes, webhooks, ERP passes and other commits runs against a tenant, no
  invoice ever has two live payments, and a run that needs the CFO has left draft only with a sign-off,
  made by somebody other than its initiator when the tenant segregates runs.
\<close>

theorem payments_stay_single_and_signed:
  assumes "pay_life.reached s db"
  shows "(\<forall>i. live_count db i \<le> 1)
     \<and> (\<forall>r \<in> set (runs db). pr_requires_cfo r \<and> pr_status r \<notin> {''draft'', ''cancelled''} \<longrightarrow>
          pr_cfo_at r \<noteq> None \<and> pr_cfo_by r \<noteq> None \<and> (segregated s \<longrightarrow> pr_cfo_by r \<noteq> pr_initiated_by r))"
  using pay_life.reached_keeps [OF assms] by (auto simp: pay_ok_def one_live_def signed_def)

text \<open>From no payments at all, the sample invoice's run is booked.\<close>

lemma sample_booking:
  "\<exists>res db' p r. create_payment_run_for_invoices sample_pay_env sample_pay_db 1 None
       [\<lparr>ri_invoice = 10, ri_method = ''ach''\<rparr>] None = Inr (res, db')
     \<and> payments db' = [p] \<and> runs db' = [r] \<and> pm_status p = ''pending'' \<and> pm_invoice p = 10"
proof -
  have rc: "resolve_reporting_currency ''USD'' JNull = Inr ''USD''"
    by (simp add: resolve_reporting_currency_def or_empty_get_def dict_get_def configured_home_currency_def
        json_of_option_def normalize_currency_code_def Let_def)
  have q: "quantize_money 75 = Inr 75" by (rule quantize_money_scaled) (simp_all add: has_scale_def)
  show ?thesis
    by (simp add: create_payment_run_for_invoices_def sample_pay_env_def sample_pay_db_def scoped_invoices_def
        in_scope_def sample_payable_def sample_invoice_def PAYABLE_INVOICE_STATUSES_def run_refusal_reasons_def
        blocking_exception_types_def card_claimed_invoice_ids_def live_card_invoice_ids_def refusal_of_def
        net_payable_amount_def applied_credit_total_def live_payment_invoices_def has_live_payment_def
        List.map_filter_simps rc reporting_amount_at_locked_rate_def q payment_settings_def or_empty_get_def
        cfo_approval_decision_def stage_run_def is_live_def fresh_payment_def Let_def)
qed

theorem payments_stay_single_witness:
  "\<exists>res db' r p. create_payment_run_for_invoices sample_pay_env sample_pay_db 1 None
       [\<lparr>ri_invoice = 10, ri_method = ''ach''\<rparr>] None = Inr (res, db')
     \<and> payments db' = [p] \<and> runs db' = [r] \<and> live_count db' 10 \<le> 1"
proof -
  obtain res db' p r where c: "create_payment_run_for_invoices sample_pay_env sample_pay_db 1 None
       [\<lparr>ri_invoice = 10, ri_method = ''ach''\<rparr>] None = Inr (res, db')" "payments db' = [p]" "runs db' = [r]"
    using sample_booking by blast
  have empty: "payments sample_pay_db = []" "runs sample_pay_db = []" by (simp_all add: sample_pay_db_def)
  have "pay_step JNull sample_pay_db db'" by (rule book_run [OF c(1)]) (simp add: row_keys_def c)
  then have "pay_life.reached JNull db'"
    using pay_life.reached_move [OF pay_life.reached_start] empty by simp
  then have "live_count db' 10 \<le> 1" using payments_stay_single_and_signed by blast
  then show ?thesis using c by blast
qed

section \<open>What a retry books\<close>

lemma dispatch_run_handled:
  assumes "distinct (map pm_id (payments db))" "dispatch_run_payments env db r = (res, db')"
  shows "\<exists>ids. list_all2 (handled ids) (payments db) (payments db')"
proof -
  define pids where "pids = map pm_id (filter (\<lambda>p. pm_status p = ''pending'') (run_payments db (pr_id r)))"
  have "distinct pids" using assms(1) by (simp add: pids_def run_payments_def distinct_map_filter)
  note eff = dispatch_payments_effect [OF this assms(1), of env "pr_id r"]
  have "payments db' = payments (dispatch_payments env (pr_id r) pids db)"
    using assms(2) by (auto simp: dispatch_run_payments_def Let_def pids_def)
  then show ?thesis using eff by auto
qed

definition retry_of :: "pay_db \<Rightarrow> uuid \<Rightarrow> payment \<Rightarrow> payment \<Rightarrow> bool" where
  "retry_of db run p q \<longleftrightarrow>
     pm_retry_of q = Some (pm_id p) \<and> pm_run q = Some run \<and> pm_invoice q = pm_invoice p \<and> is_retry_safe p
     \<and> (\<exists>iv. find_invoice db (pm_invoice p) = Some iv \<and> status iv \<in> set PAYABLE_INVOICE_STATUSES
          \<and> pm_amount q = net_payable_amount db iv)
     \<and> \<not> has_live_payment db (pm_invoice p)"

lemma retry_skip_None:
  assumes "retry_skip db failed p = None"
  obtains iv where "find_invoice db (pm_invoice p) = Some iv" "status iv \<in> set PAYABLE_INVOICE_STATUSES"
    "is_retry_safe p" "\<not> has_live_payment db (pm_invoice p)" "net_payable_amount db iv = pm_amount p"
  using assms by (auto simp: retry_skip_def Let_def split: option.splits if_splits)

lemma retry_rows_books:
  assumes "retry_rows env run db0 failed ps (n, sk, db) = (n', sk', db')" "set ps \<subseteq> set failed"
  shows "\<exists>qs. payments db' = payments db @ qs \<and> (\<forall>q \<in> set qs. \<exists>p \<in> set failed. retry_of db0 run p q)
     \<and> n' = n + length qs \<and> n' + length sk' = n + length sk + length ps"
  using assms
proof (induction ps arbitrary: n sk db)
  case Nil
  then show ?case by simp
next
  case (Cons p ps)
  show ?case
  proof (cases "retry_skip db0 failed p")
    case (Some why)
    then show ?thesis using Cons.IH [of n "sk @ [why]" db] Cons.prems by simp
  next
    case skip: None
    obtain iv where iv: "find_invoice db0 (pm_invoice p) = Some iv" "status iv \<in> set PAYABLE_INVOICE_STATUSES"
      "is_retry_safe p" "\<not> has_live_payment db0 (pm_invoice p)" "net_payable_amount db0 iv = pm_amount p"
      using retry_skip_None [OF skip] by blast
    define q where "q = retry_payment (le_pay env) run iv p"
    have q: "retry_of db0 run p q"
      using iv find_invoice_Some [OF iv(1)] by (simp add: retry_of_def q_def retry_payment_def fresh_payment_def)
    show ?thesis
    proof (cases "insert_payments [q] db")
      case (Inl e)
      then show ?thesis using Cons.IH [of n "sk @ [''invoice_has_live_payment'']" db] Cons.prems skip iv(1)
        by (simp add: Let_def flip: q_def del: insert_payments.simps)
    next
      case (Inr db1)
      obtain c a t i d where "retry_rows env run db0 failed ps (n + 1, sk, audit_pay (le_pay env) c a t i d db1) = (n', sk', db')"
        using Cons.prems(1) skip iv(1) Inr by (simp add: Let_def flip: q_def del: insert_payments.simps)
      from Cons.IH [OF this] Cons.prems(2) insert_payments_Inr [OF Inr] obtain qs where
        "payments db' = payments db @ [q] @ qs" "\<forall>q \<in> set qs. \<exists>p \<in> set failed. retry_of db0 run p q"
        "n' = n + 1 + length qs" "n' + length sk' = n + 1 + length sk + length ps" by auto
      then show ?thesis using q Cons.prems(2) by (intro exI [of _ "q # qs"]) auto
    qed
  qed
qed

text \<open>
  C20: A retry books a new attempt only for a failed payment of the run that is provably safe to
  repeat, whose invoice is payable and has no live payment, and for what the invoice is worth now. Each
  failed payment is either retried or skipped with a reason, and the failed rows themselves stay as they were.
\<close>

theorem retry_books_only_safe_attempts:
  assumes "retry_failed_payments env db i scope = Inr (res, db')" "distinct (map pm_id (payments db'))"
  shows "\<exists>attempts.
     list_all2 same_payment (payments db @ attempts) (payments db')
     \<and> (\<forall>q \<in> set attempts. \<exists>p \<in> set (failed_payments db i). retry_of db i p q)
     \<and> rt_retried res = length attempts
     \<and> rt_retried res + length (rt_skipped res) = length (failed_payments db i)
     \<and> (\<forall>p \<in> set (failed_payments db i). p \<in> set (payments db'))"
proof -
  obtain r where r: "get_scoped_run db i scope = Inr r" "cfo_gate r = Inr ()"
    using assms(1) by (auto simp: retry_failed_payments_def)
  define r' where "r' = r\<lparr>pr_status := ''executing''\<rparr>"
  obtain n sk db1 where rows: "retry_rows env i db (failed_payments db i) (failed_payments db i) (0, [], db) = (n, sk, db1)"
    by (cases "retry_rows env i db (failed_payments db i) (failed_payments db i) (0, [], db)")
  define db2 where "db2 = audit_pay (le_pay env) (pr_id r) ''payment_run.retried'' ''payment_run'' (pr_id r)
                   [(''payments_retried'', JInt (int n)), (''payments_skipped'', JInt (int (length sk))),
                    (''skip_reasons'', JList (map JStr (sorted_list_of_set (set sk)))),
                    (''previous_status'', JStr (pr_status r))] db1"
  have "\<exists>res2. dispatch_run_payments (le_dispatch env) (put_run r' db2) r' = (res2, db')
      \<and> rt_retried res = n \<and> rt_skipped res = sk"
    using assms(1) r rows
    by (auto simp: retry_failed_payments_def Let_def simp flip: r'_def db2_def split: prod.splits)
  then obtain res2 where d: "dispatch_run_payments (le_dispatch env) (put_run r' db2) r' = (res2, db')"
    "rt_retried res = n" "rt_skipped res = sk" by blast
  have db2: "payments (put_run r' db2) = payments db1" by (simp add: db2_def)
  obtain qs where qs: "payments db1 = payments db @ qs" "\<forall>q \<in> set qs. \<exists>p \<in> set (failed_payments db i). retry_of db i p q"
    "n = length qs" "n + length sk = length (failed_payments db i)"
    using retry_rows_books [OF rows] by auto
  have dist: "distinct (map pm_id (payments (put_run r' db2)))"
    using assms(2) dispatch_run_ids [OF d(1)] by simp
  obtain ids where h: "list_all2 (handled ids) (payments db1) (payments db')"
    using dispatch_run_handled [OF dist d(1)] unfolding db2 by blast
  have "p \<in> set (payments db')" if "p \<in> set (failed_payments db i)" for p
  proof -
    have p: "p \<in> set (payments db1)" "pm_status p \<noteq> ''pending''"
      using that by (auto simp: qs(1) failed_payments_def run_payments_def RETRYABLE_PAYMENT_STATUSES_def)
    then obtain k where "k < length (payments db1)" "payments db1 ! k = p" by (auto simp: in_set_conv_nth)
    then have "k < length (payments db')" "payments db' ! k = p"
      using list_all2_nthD [OF h] list_all2_lengthD [OF h] p(2) by (auto simp: handled_def)
    then show ?thesis by (metis nth_mem)
  qed
  moreover have "list_all2 same_payment (payments db @ qs) (payments db')"
    using h unfolding qs(1) by (rule list_all2_mono) (simp add: handled_def)
  ultimately show ?thesis using qs(2-4) d(2,3) by (intro exI [of _ qs]) auto
qed

text \<open>The sample payment, failed before anything was ordered, in a failed run of another user.\<close>

definition sample_failed :: payment where
  "sample_failed = sample_due\<lparr>pm_status := ''failed'', pm_failure := Some ''cards_not_enabled''\<rparr>"

definition sample_failed_db :: pay_db where
  "sample_failed_db = sample_due_db\<lparr>payments := [sample_failed], runs := [sample_run_row\<lparr>pr_status := ''failed''\<rparr>]\<rparr>"

definition sample_life_env :: life_env where
  "sample_life_env = \<lparr>le_dispatch = sample_dispatch_env, le_provider_ok = True, le_void = None,
     le_cancel_card = (\<lambda>_. Inr True)\<rparr>"

lemma sample_failed_fields [simp]:
  "pm_id sample_failed = 90" "pm_status sample_failed = ''failed''" "pm_invoice sample_failed = 10"
  "pm_run sample_failed = Some 40" "pm_retry_of sample_failed = None" "pm_amount sample_failed = 75"
  "pm_failure sample_failed = Some ''cards_not_enabled''" "pm_provider_id sample_failed = None"
  by (simp_all add: sample_failed_def sample_due_def sample_payment_def)

lemma sample_failed_payments: "failed_payments sample_failed_db 40 = [sample_failed]"
  by (simp add: failed_payments_def run_payments_def sample_failed_db_def RETRYABLE_PAYMENT_STATUSES_def
      superseded_payment_ids_def List.map_filter_simps)

lemma sample_safe: "is_retry_safe sample_failed"
proof -
  have "classify_payment_failure (Some ''cards_not_enabled'') None = RetrySafe" by code_simp
  then show ?thesis by (simp add: is_retry_safe_def)
qed

lemma sample_not_skipped: "retry_skip sample_failed_db [sample_failed] sample_failed = None"
  using sample_safe
  by (simp add: retry_skip_def Let_def find_invoice_def sample_failed_db_def sample_due_db_def sample_pay_db_def
      sample_payable_def sample_invoice_def PAYABLE_INVOICE_STATUSES_def blocked_invoice_ids_def blocking_exception_types_def
      card_claimed_invoice_ids_def live_card_invoice_ids_def has_live_payment_def is_live_def
      LIVE_PAYMENT_TERMINAL_STATUSES_def net_payable_amount_def applied_credit_total_def)

lemma sample_effective: "effective_run_status sample_failed_db (sample_run_row\<lparr>pr_status := ''failed''\<rparr>) = ''failed''"
proof -
  have a: "active_run_payments (run_payments sample_failed_db 40) = [sample_failed]"
    by (simp add: active_run_payments_def run_payments_def sample_failed_db_def superseded_payment_ids_def
        List.map_filter_simps)
  have "run_status (rollup_payment_statuses [''failed'']) = ''failed''" by code_simp
  then show ?thesis
    by (simp add: effective_run_status_def derive_run_status_def active_rollup_def a sample_run_row_def
        CLAIM_RUN_STATUSES_def)
qed

theorem retry_books_witness:
  "\<exists>res db'. retry_failed_payments sample_life_env sample_failed_db 40 None = Inr (res, db')
     \<and> rt_retried res + length (rt_skipped res) = 1 \<and> sample_failed \<in> set (payments db')"
proof -
  let ?r = "sample_run_row\<lparr>pr_status := ''failed''\<rparr>"
  have env: "le_dispatch sample_life_env = sample_dispatch_env" "le_provider_ok sample_life_env"
    by (simp_all add: sample_life_env_def)
  have pay: "de_pay sample_dispatch_env = sample_pay_env" by (simp add: sample_dispatch_env_def)
  have r: "get_scoped_run sample_failed_db 40 None = Inr ?r"
    by (simp add: get_scoped_run_def sample_failed_db_def sample_run_row_def in_scope_def)
  have seg: "run_segregation sample_life_env ?r = Inr ()"
    by (simp add: run_segregation_def env pay payment_settings_def sample_pay_env_def or_empty_get_def
        check_run_segregation_def run_segregation_enabled_def sample_run_row_def)
  have gates: "cfo_gate ?r = Inr ()" "require_payment_adapter sample_life_env = Inr ()"
    by (simp_all add: cfo_gate_def require_payment_adapter_def env sample_run_row_def)
  have iv: "find_invoice sample_failed_db 10 = Some sample_payable"
    by (simp add: find_invoice_def sample_failed_db_def sample_due_db_def sample_pay_db_def sample_payable_def sample_invoice_def)
  define q where "q = retry_payment sample_pay_env 40 sample_payable sample_failed"
  have q: "pm_id q = 110" "pm_invoice q = 10"
    by (simp_all add: q_def retry_payment_def fresh_payment_def sample_pay_env_def sample_payable_def sample_invoice_def)
  have one: "payments sample_failed_db = [sample_failed]" by (simp add: sample_failed_db_def)
  have ins: "insert_payments [q] sample_failed_db = Inr (sample_failed_db\<lparr>payments := [sample_failed, q]\<rparr>)"
    by (simp add: has_live_payment_def one q is_live_def LIVE_PAYMENT_TERMINAL_STATUSES_def)
  obtain n sk db1 where rows: "retry_rows sample_life_env 40 sample_failed_db [sample_failed] [sample_failed]
      (0, [], sample_failed_db) = (n, sk, db1)" "payments db1 = [sample_failed, q]"
    using sample_not_skipped iv ins by (simp add: env pay Let_def flip: q_def del: insert_payments.simps)
  define db2 where "db2 = put_run (sample_run_row\<lparr>pr_status := ''executing''\<rparr>)
      (audit_pay sample_pay_env (pr_id ?r) ''payment_run.retried'' ''payment_run'' (pr_id ?r)
         [(''payments_retried'', JInt (int n)), (''payments_skipped'', JInt (int (length sk))),
          (''skip_reasons'', JList (map JStr (sorted_list_of_set (set sk)))),
          (''previous_status'', JStr (pr_status ?r))] db1)"
  obtain res2 db' where d: "dispatch_run_payments sample_dispatch_env db2 (sample_run_row\<lparr>pr_status := ''executing''\<rparr>) = (res2, db')"
    by (cases "dispatch_run_payments sample_dispatch_env db2 (sample_run_row\<lparr>pr_status := ''executing''\<rparr>)")
  obtain res where x: "retry_failed_payments sample_life_env sample_failed_db 40 None = Inr (res, db')"
    using r seg gates sample_effective rows(1) d [unfolded db2_def]
    by (simp add: retry_failed_payments_def sample_failed_payments RETRYABLE_RUN_STATUSES_def Let_def env pay
        del: retry_rows.simps)
  have "map pm_id (payments db') = [90, 110]"
    using dispatch_run_ids [OF d] rows(2) q by (simp add: db2_def)
  then have "distinct (map pm_id (payments db'))" by simp
  note all = retry_books_only_safe_attempts [OF x this, unfolded sample_failed_payments]
  then have "rt_retried res + length (rt_skipped res) = 1 \<and> sample_failed \<in> set (payments db')" by auto
  with x show ?thesis by blast
qed

section \<open>What a void leaves\<close>

lemma parent_rows [simp]:
  "payments (recompute_parent_run_status db p) = payments db" "core (recompute_parent_run_status db p) = core db"
  by (simp_all add: recompute_parent_run_status_def recompute_run_status_def split: option.split)

lemma cancel_card_invoices: "cancel_card_for_void env p via db = Inr (oc, db') \<Longrightarrow> invoices (core db') = invoices (core db)"
  by (auto simp: cancel_card_for_void_def put_card_def audit_pay_def split: if_splits option.splits sum.splits)

definition reopened :: "uuid \<Rightarrow> invoice \<Rightarrow> invoice" where
  "reopened i iv = (if inv_id iv = i \<and> status iv \<in> {Payment_scheduled, Paid} then iv\<lparr>status := Approved\<rparr> else iv)"

lemma reopen_effect:
  assumes "distinct (map inv_id (invoices (core db)))" "reopen_invoice env reason p db = Inr db'"
  shows "invoices (core db') = map (reopened (pm_invoice p)) (invoices (core db))"
proof (cases "find_invoice db (pm_invoice p)")
  case None
  then have "map (reopened (pm_invoice p)) (invoices (core db)) = invoices (core db)"
    by (auto simp: reopened_def find_invoice_def find_None_iff intro!: map_idI)
  then show ?thesis using None assms(2) by (simp add: reopen_invoice_def)
next
  case (Some iv)
  have same: "j = iv" if "j \<in> set (invoices (core db))" "inv_id j = pm_invoice p" for j
    using find_invoice_key [OF assms(1) that] Some by simp
  show ?thesis
  proof (cases "status iv \<in> {Payment_scheduled, Paid}")
    case True
    then obtain iv' c where t0: "transition_invoice (pe_role_users (le_pay env)) (pe_occurrence (le_pay env)) (core db) iv Approved
        (Some (pe_user (le_pay env))) ''invoice.voided_return_to_approved''
        [(''void_reason'', JStr reason), (''payment_id'', JStr (uuid_str (pm_id p)))] = Inr (iv', c)"
      "db' = db\<lparr>core := put_invoice iv' c\<rparr>"
      using Some assms(2) by (auto simp: reopen_invoice_def simp del: insert_iff)
    note t = t0(1) t0(2) [unfolded transition_invoice_Inr(2) [OF t0(1)]]
    have "map (reopened (pm_invoice p)) (invoices (core db)) =
        map (\<lambda>j. if inv_id j = inv_id iv then iv\<lparr>status := Approved\<rparr> else j) (invoices (core db))"
    proof (rule map_cong [OF refl])
      fix j assume j: "j \<in> set (invoices (core db))"
      show "reopened (pm_invoice p) j = (if inv_id j = inv_id iv then iv\<lparr>status := Approved\<rparr> else j)"
        using same [OF j] True find_invoice_Some [OF Some] by (cases "inv_id j = pm_invoice p") (simp_all add: reopened_def)
    qed
    then show ?thesis using t(2) transition_invoice_Inr(5) [OF t(1)] by (simp add: put_invoice_map)
  next
    case False
    then have "map (reopened (pm_invoice p)) (invoices (core db)) = invoices (core db)"
      using same by (auto simp: reopened_def intro!: map_idI)
    then show ?thesis using False Some assms(2) by (simp add: reopen_invoice_def)
  qed
qed

lemma one_live_others:
  assumes "one_live db" "distinct (map pm_id (payments db))" "p \<in> set (payments db)" "is_live p"
    "pm_id q = pm_id p" "pm_invoice q = pm_invoice p" "\<not> is_live q"
  shows "live_count (put_payment q db) (pm_invoice p) = 0"
proof -
  define live where "live = (\<lambda>x. pm_invoice x = pm_invoice p \<and> is_live x)"
  have "length (filter live (payments db)) \<le> 1" using assms(1) by (simp add: one_live_def live_count_def live_def)
  moreover have "p \<in> set (filter live (payments db))" using assms(3,4) by (simp add: live_def)
  ultimately have f: "filter live (payments db) = [p]" by (cases "filter live (payments db)") auto
  have "\<not> live (if pm_id x = pm_id q then q else x)" if "x \<in> set (payments db)" for x
  proof (cases "pm_id x = pm_id q")
    case False
    then have "x \<notin> set (filter live (payments db))" using f assms(5) by auto
    then show ?thesis using that False by simp
  qed (use assms(7) in \<open>simp add: live_def\<close>)
  then have "filter live (payments (put_payment q db)) = []"
    unfolding put_payment_payments filter_empty_conv by (metis (no_types, lifting) imageE set_map)
  then show ?thesis by (simp add: live_count_def live_def)
qed

text \<open>
  C23: Voiding a payment ends it without touching the time it settled, frees its invoice for another
  payment, returns the invoice to approved exactly if it was scheduled or paid, and changes no other
  payment and no other invoice.
\<close>

theorem void_frees_the_invoice:
  assumes "one_live db" "distinct (map pm_id (payments db))" "distinct (map inv_id (invoices (core db)))"
    "void_payment env iso_text db i scope reason = Inr (a, c, db')"
  shows "\<exists>p. p \<in> set (payments db) \<and> pm_id p = i \<and> is_live p
     \<and> payments db' = payments (put_payment (voided env reason p) db)
     \<and> (pm_completed_at p \<noteq> None \<longrightarrow> pm_completed_at (voided env reason p) = pm_completed_at p)
     \<and> live_count db' (pm_invoice p) = 0
     \<and> invoices (core db') = map (reopened (pm_invoice p)) (invoices (core db))"
proof -
  obtain p oc db1 db2 db3 where s: "get_scoped_payment db i scope = Inr p" "is_live p"
    "cancel_card_for_void env p ''payment_void'' db = Inr (oc, db1)"
    "reopen_invoice env reason (voided env reason p) (put_payment (voided env reason p) db1) = Inr db2"
    "payments db3 = payments db2" "runs db3 = runs db2" "invoices (core db3) = invoices (core db2)"
    "db' = recompute_parent_run_status db3 (voided env reason p)"
    using void_steps [OF assms(4)] by metis
  note p = get_scoped_payment_Inr [OF s(1)]
  have v: "pm_id (voided env reason p) = pm_id p" "pm_invoice (voided env reason p) = pm_invoice p"
    "\<not> is_live (voided env reason p)"
    by (simp_all add: voided_def is_live_def LIVE_PAYMENT_TERMINAL_STATUSES_def)
  have pays: "payments db' = payments (put_payment (voided env reason p) db)"
    using cancel_card_rows [OF s(3)] reopen_rows [OF s(4)] s(5) by (simp add: s(8) put_payment_payments)
  have "distinct (map inv_id (invoices (core (put_payment (voided env reason p) db1))))"
    using assms(3) cancel_card_invoices [OF s(3)] by simp
  from reopen_effect [OF this s(4)]
  have invs: "invoices (core db') = map (reopened (pm_invoice p)) (invoices (core db))"
    using cancel_card_invoices [OF s(3)] s(7,8) v(2) by simp
  have "live_count (put_payment (voided env reason p) db) (pm_invoice p) = 0"
    by (rule one_live_others) (use assms(1,2) p s(2) v in simp_all)
  then have "live_count db' (pm_invoice p) = 0" using pays by (simp add: live_count_def)
  then show ?thesis using p s(2) pays invs by (intro exI [of _ p]) (simp add: voided_def)
qed

text \<open>Voiding the sample payment, completed for a paid invoice.\<close>

definition sample_settled_db :: pay_db where
  "sample_settled_db = sample_due_db\<lparr>core := (core sample_due_db)\<lparr>invoices := [sample_payable\<lparr>status := Paid\<rparr>]\<rparr>,
     payments := [sample_payment\<lparr>pm_status := ''completed'', pm_completed_at := Some 5\<rparr>]\<rparr>"

theorem void_frees_witness:
  "\<exists>a c db'. void_payment sample_life_env (\<lambda>_. []) sample_settled_db 90 None ''duplicate'' = Inr (a, c, db')
     \<and> live_count db' 10 = 0 \<and> map status (invoices (core db')) = [Approved]"
proof -
  let ?p = "sample_payment\<lparr>pm_status := ''completed'', pm_completed_at := Some 5\<rparr>"
  let ?iv = "sample_payable\<lparr>status := Paid\<rparr>"
  have rows: "payments sample_settled_db = [?p]" "invoices (core sample_settled_db) = [?iv]"
    by (simp_all add: sample_settled_db_def)
  have fields: "pm_id ?p = 90" "pm_invoice ?p = 10" "inv_id ?iv = 10" "pm_method ?p \<noteq> Some ''virtual_card''"
    by (simp_all add: sample_payment_def sample_payable_def sample_invoice_def)
  have ok: "one_live sample_settled_db" "distinct (map pm_id (payments sample_settled_db))"
    "distinct (map inv_id (invoices (core sample_settled_db)))"
    by (simp_all add: rows one_live_def live_count_def)
  have g: "get_scoped_payment sample_settled_db 90 None = Inr ?p"
    by (simp add: get_scoped_payment_def rows fields in_scope_def)
  let ?q = "voided sample_life_env ''duplicate'' ?p"
  have q: "pm_invoice ?q = 10" using fields(2) by (simp add: voided_def)
  have "find_invoice (put_payment ?q sample_settled_db) 10 = Some ?iv"
    by (simp add: find_invoice_def rows fields)
  moreover obtain cr where "transition_invoice (pe_role_users (le_pay sample_life_env)) (pe_occurrence (le_pay sample_life_env))
      (core (put_payment ?q sample_settled_db)) ?iv Approved (Some (pe_user (le_pay sample_life_env)))
      ''invoice.voided_return_to_approved'' [(''void_reason'', JStr ''duplicate''), (''payment_id'', JStr (uuid_str (pm_id ?q)))]
      = Inr (?iv\<lparr>status := Approved\<rparr>, cr)"
    using transition_invoice_ok [of Approved ?iv] by fastforce
  ultimately obtain db2 where r: "reopen_invoice sample_life_env ''duplicate'' ?q (put_payment ?q sample_settled_db) = Inr db2"
    by (simp add: reopen_invoice_def q)
  have card: "cancel_card_for_void sample_life_env ?p ''payment_void'' sample_settled_db = Inr (None, sample_settled_db)"
    using fields(4) by (simp add: cancel_card_for_void_def)
  obtain a c db' where x: "void_payment sample_life_env (\<lambda>_. []) sample_settled_db 90 None ''duplicate'' = Inr (a, c, db')"
    using g card r by (simp add: void_payment_def Let_def)
  obtain p where p: "p \<in> set (payments sample_settled_db)" "live_count db' (pm_invoice p) = 0"
    "invoices (core db') = map (reopened (pm_invoice p)) (invoices (core sample_settled_db))"
    using void_frees_the_invoice [OF ok x] by blast
  have "pm_invoice p = 10" using p(1) fields(2) by (simp add: rows)
  then show ?thesis using x p(2,3) fields(3) by (simp add: rows reopened_def)
qed

end
