(* ===== verification/Payment_Ledger.thy ===== *)
theory Payment_Ledger
  imports Payment_Lifecycle
begin

text \<open>
  The contract of the payment side, and that the code keeps it. Abstractly a tenant's payments are a
  ledger of claims: every invoice is free or held by one ticket, the id of its live payment. A step
  may release an invoice or let a ticket never seen before take a free one; it never hands an invoice
  from one payment to another directly. \<open>ledger_of\<close> reads this ledger off the payment table through
  \<open>find_live_payment\<close>, the query the create route uses, and every route, webhook, sweep leg and
  dispatch pass of \<open>pay_step\<close> refines one step of the ledger.
\<close>

section \<open>The ledger of claims\<close>

record ledger =
  holder :: "uuid \<Rightarrow> uuid option"
  tickets :: "uuid set"

inductive slot_step :: "uuid set \<Rightarrow> uuid option \<Rightarrow> uuid option \<Rightarrow> bool" for seen where
  keep: "slot_step seen c c"
| release: "slot_step seen (Some p) None"
| take_free: "slot_step seen None (Some p)" if "p \<notin> seen"

inductive_cases slot_heldE: "slot_step seen (Some p) (Some q)"
inductive_cases slot_freeE: "slot_step seen None (Some q)"

definition ledger_step :: "ledger \<Rightarrow> ledger \<Rightarrow> bool" where
  "ledger_step l l' \<longleftrightarrow> (\<forall>i. slot_step (tickets l) (holder l i) (holder l' i))"

definition ledger_ok :: "ledger \<Rightarrow> bool" where
  "ledger_ok l \<longleftrightarrow> ran (holder l) \<subseteq> tickets l \<and> inj_on (holder l) (dom (holder l))"

text \<open>Between two different holders of an invoice the ledger shows it free.\<close>

lemma handover_needs_release:
  assumes "\<And>n. n < k \<Longrightarrow> ledger_step (l n) (l (Suc n))" "holder (l 0) i = Some p" "holder (l k) i = Some q" "p \<noteq> q"
  shows "\<exists>n < k. holder (l n) i = None"
  using assms
proof (induction k arbitrary: q)
  case (Suc k)
  show ?case
  proof (cases "holder (l k) i")
    case (Some r)
    have "slot_step (tickets (l k)) (Some r) (Some q)" using Suc.prems(1,3) Some by (metis ledger_step_def lessI)
    then have "r = q" by (rule slot_heldE) simp
    then have "\<exists>n < k. holder (l n) i = None" using Suc.IH [of r] Suc.prems Some by simp
    then show ?thesis using less_SucI by blast
  qed blast
qed simp

section \<open>The ledger of a payment table\<close>

definition ledger_of :: "pay_db \<Rightarrow> ledger" where
  "ledger_of db = \<lparr>holder = (\<lambda>i. map_option pm_id (find_live_payment db i)), tickets = set (map pm_id (payments db))\<rparr>"

lemma ledger_of_sel [simp]:
  "holder (ledger_of db) i = map_option pm_id (find_live_payment db i)"
  "tickets (ledger_of db) = set (map pm_id (payments db))"
  by (simp_all add: ledger_of_def)

lemma find_live_Some: "find_live_payment db i = Some p \<Longrightarrow> p \<in> set (payments db) \<and> pm_invoice p = i \<and> is_live p"
  by (auto simp: find_live_payment_def dest: find_Some_props)

lemma find_live_None: "find_live_payment db i = None \<longleftrightarrow> \<not> has_live_payment db i"
  by (auto simp: find_live_payment_def has_live_payment_def find_None_iff list_ex_iff)

lemma find_live_unique:
  assumes "one_live db" "p \<in> set (payments db)" "is_live p"
  shows "find_live_payment db (pm_invoice p) = Some p"
proof -
  let ?live = "\<lambda>x. pm_invoice x = pm_invoice p \<and> is_live x"
  have one: "length (filter ?live (payments db)) \<le> 1" using assms(1) by (simp add: one_live_def live_count_def)
  obtain q where q: "find_live_payment db (pm_invoice p) = Some q"
    using assms(2,3) find_live_None [of db "pm_invoice p"] by (fastforce simp: has_live_payment_def list_ex_iff)
  have "p \<in> set (filter ?live (payments db))" "q \<in> set (filter ?live (payments db))"
    using assms(2,3) find_live_Some [OF q] by simp_all
  then have "q = p" using one by (cases "filter ?live (payments db)") auto
  then show ?thesis using q by simp
qed

lemma ledger_of_ok:
  assumes "distinct (map pm_id (payments db))"
  shows "ledger_ok (ledger_of db)"
proof -
  have "i = j" if "find_live_payment db i = Some p" "find_live_payment db j = Some q" "pm_id p = pm_id q" for i j p q
    using find_live_Some [OF that(1)] find_live_Some [OF that(2)] that(3) assms by (metis distinct_map inj_onD)
  then show ?thesis
    by (fastforce simp: ledger_ok_def ran_def inj_on_def dom_def dest: find_live_Some)
qed

lemma moves_ledger_step:
  assumes "one_live db" "live_from db db'"
  shows "ledger_step (ledger_of db) (ledger_of db')"
  unfolding ledger_step_def
proof
  fix i
  show "slot_step (tickets (ledger_of db)) (holder (ledger_of db) i) (holder (ledger_of db') i)"
  proof (cases "find_live_payment db' i")
    case None
    then show ?thesis by (cases "find_live_payment db i") (auto intro: slot_step.intros)
  next
    case (Some q)
    note q = find_live_Some [OF Some]
    then consider p where "p \<in> set (payments db)" "pm_id p = pm_id q" "pm_invoice p = i" "is_live p"
      | "pm_id q \<notin> set (map pm_id (payments db))" "\<not> has_live_payment db i"
      using assms(2) by (auto simp: live_from_def)
    then show ?thesis
    proof cases
      case 1
      then show ?thesis using find_live_unique [OF assms(1), of p] Some by (auto intro: slot_step.intros)
    next
      case 2
      then show ?thesis using Some find_live_None [of db i] by (auto intro: slot_step.intros)
    qed
  qed
qed

text \<open>
  C6: The payment routes, the webhook, the reconciler and the dispatch pass implement a ledger of
  claims: whatever one of them does to a tenant reached from no payments, each invoice stays with its
  live payment, is released, or, if it was free, is taken by a payment whose id was never used before;
  and no payment ever holds two invoices.
\<close>

theorem payments_refine_the_ledger:
  assumes "pay_life.reached s db" "pay_step s db db'"
  shows "ledger_step (ledger_of db) (ledger_of db') \<and> ledger_ok (ledger_of db')"
proof -
  have ok: "pay_ok s db" by (rule pay_life.reached_keeps [OF assms(1)])
  then have "moves s db db'" by (rule pay_step_moves [OF assms(2)])
  then show ?thesis
    using ok moves_ledger_step ledger_of_ok by (simp add: moves_def pay_ok_def row_keys_def)
qed

text \<open>The sample invoice is free, then held by the payment a run books for it.\<close>

theorem ledger_witness:
  "\<exists>res db'. create_payment_run_for_invoices sample_pay_env sample_pay_db 1 None
       [\<lparr>ri_invoice = 10, ri_method = ''ach''\<rparr>] None = Inr (res, db')
     \<and> holder (ledger_of sample_pay_db) 10 = None \<and> holder (ledger_of db') 10 \<noteq> None
     \<and> ledger_step (ledger_of sample_pay_db) (ledger_of db')"
proof -
  obtain res db' p r where c: "create_payment_run_for_invoices sample_pay_env sample_pay_db 1 None
       [\<lparr>ri_invoice = 10, ri_method = ''ach''\<rparr>] None = Inr (res, db')" "payments db' = [p]" "runs db' = [r]"
    "pm_status p = ''pending''" "pm_invoice p = 10"
    using sample_booking by blast
  have empty: "payments sample_pay_db = []" "runs sample_pay_db = []" by (simp_all add: sample_pay_db_def)
  have "pay_step JNull sample_pay_db db'" by (rule book_run [OF c(1)]) (simp add: row_keys_def c)
  from payments_refine_the_ledger [OF pay_life.reached_start this] empty
  have "ledger_step (ledger_of sample_pay_db) (ledger_of db')" by simp
  then show ?thesis
    using c by (simp add: find_live_payment_def empty is_live_def LIVE_PAYMENT_TERMINAL_STATUSES_def)
qed

end
