(* ===== verification/Credit_Memos.thy ===== *)
theory Credit_Memos
  imports Payment_Runs
begin

text \<open>
  Credit memos (api/credit_memos.py): a vendor's credit is created, applied to one invoice or
  voided. Applied credits are what \<open>net_payable_amount\<close> takes off a payment.

  The routes lock the invoice they credit but not the memo, which they read first: the part of a
  route that follows the lock is a definition of its own and takes the memo as it was read, so that an
  interleaving is a sequence of such parts. Dates, reasons and responses are left out.
\<close>

section \<open>The routes\<close>

record memo_body =
  mb_number :: string
  mb_vendor :: string
  mb_amount :: rat
  mb_currency :: "string option"
  mb_invoice :: "string option"

definition assert_vendor_matches :: "invoice \<Rightarrow> uuid \<Rightarrow> unit py" where
  "assert_vendor_matches iv v =
     (case vendor_id iv of
        None \<Rightarrow> Inl (HTTPException 409 ''The invoice has no linked vendor'')
      | Some u \<Rightarrow> py_guard (u \<noteq> v) (HTTPException 409 ''Credit memo vendor does not match invoice vendor''))"

definition get_scoped_memo :: "pay_db \<Rightarrow> uuid \<Rightarrow> uuid option \<Rightarrow> credit_memo py" where
  "get_scoped_memo db i scope =
     (case find (\<lambda>m. cm_id m = i \<and> in_scope scope (cm_entity m)) (memos db) of
        None \<Rightarrow> Inl (HTTPException 404 ''Credit memo not found'')
      | Some m \<Rightarrow> Inr m)"

definition parse_uuid :: "string \<Rightarrow> uuid py" where
  "parse_uuid s = (case uuid_parse s of None \<Rightarrow> Inl ValueError | Some u \<Rightarrow> Inr u)"

definition scoped_invoice :: "pay_db \<Rightarrow> uuid \<Rightarrow> uuid option \<Rightarrow> invoice py" where
  "scoped_invoice db i scope =
     (case find (\<lambda>iv. inv_id iv = i \<and> in_scope scope (inv_entity iv)) (invoices (core db)) of
        None \<Rightarrow> Inl (HTTPException 404 ''Invoice not found'')
      | Some iv \<Rightarrow> Inr iv)"

text \<open>What an invoice's applied credits, other than memo \<open>k\<close>, add up to.\<close>

definition already_applied :: "pay_db \<Rightarrow> uuid \<Rightarrow> uuid \<Rightarrow> rat" where
  "already_applied db i k =
     sum_list (map cm_amount (filter (\<lambda>c. cm_invoice c = Some i \<and> cm_status c = ''applied'' \<and> cm_id c \<noteq> k) (memos db)))"

text \<open>The invoice named at creation: its id and the memo's currency.\<close>

definition credit_at_creation ::
    "pay_db \<Rightarrow> memo_body \<Rightarrow> uuid \<Rightarrow> string option \<Rightarrow> uuid option \<Rightarrow> string \<Rightarrow> (uuid \<times> string option) py" where
  "credit_at_creation db body vid cur scope raw =
     py_bind (parse_uuid raw) (\<lambda>i.
     py_bind (scoped_invoice db i scope) (\<lambda>iv.
     py_bind (assert_vendor_matches iv vid) (\<lambda>_.
     py_bind (py_guard (cur \<noteq> None \<and> currency iv \<noteq> [] \<and> cur \<noteq> Some (currency iv))
                (HTTPException 409 ''Credit memo currency does not match invoice currency'')) (\<lambda>_.
     py_bind (py_guard (amount iv - applied_credit_total db i < mb_amount body)
                (HTTPException 409 ''Credit memo amount exceeds the remaining creditable balance'')) (\<lambda>_.
       Inr (i, if cur \<noteq> None then cur
               else if norm_code (currency iv) = [] then None else Some (norm_code (currency iv))))))))"

definition memo_details :: "pay_env \<Rightarrow> credit_memo \<Rightarrow> jdict" where
  "memo_details env m =
     [(''memo_number'', JStr (cm_number m)), (''vendor_id'', JStr (uuid_str (cm_vendor m))),
      (''amount'', JStr (pe_money_text env (cm_amount m))), (''currency'', JStr (cm_currency m))]"

definition create_credit_memo ::
    "pay_env \<Rightarrow> uuid \<Rightarrow> pay_db \<Rightarrow> memo_body \<Rightarrow> uuid option \<Rightarrow> (credit_memo \<times> pay_db) py" where
  "create_credit_memo env fresh db body scope =
     py_bind (parse_uuid (mb_vendor body)) (\<lambda>vid.
     case find (\<lambda>v. vd_id v = vid \<and> in_scope scope (vd_entity v)) (vendors db) of
       None \<Rightarrow> Inl (HTTPException 404 ''Vendor not found'')
     | Some v \<Rightarrow>
         (let given = norm_code (get_or (mb_currency body) []);
              cur = (if given = [] then None else Some given)
          in py_bind (if get_or (mb_invoice body) [] = [] then Inr (None, cur)
                      else map_sum id (\<lambda>(i, c). (Some i, c))
                             (credit_at_creation db body vid cur scope (get_or (mb_invoice body) []))) (\<lambda>(inv, cur').
             py_bind (case cur' of
                        Some c \<Rightarrow> Inr c
                      | None \<Rightarrow> resolve_reporting_currency (pe_platform_currency env) (pe_settings env)) (\<lambda>c.
             let m = \<lparr>cm_id = fresh, cm_number = mb_number body, cm_vendor = vid, cm_invoice = inv,
                      cm_amount = mb_amount body, cm_currency = c,
                      cm_status = (if inv = None then ''open'' else ''applied''),
                      cm_applied_at = (if inv = None then None else Some (pe_now env)),
                      cm_applied_by = (if inv = None then None else Some (pe_user_name env)),
                      cm_entity = vd_entity v\<rparr>
             in Inr (m, audit_pay env (pe_audit_key env) ''credit_memo.created'' ''credit_memo'' fresh
                          (memo_details env m
                           @ [(''invoice_id'', case inv of None \<Rightarrow> JNull | Some i \<Rightarrow> JStr (uuid_str i)),
                              (''status'', JStr (cm_status m))])
                          (db\<lparr>memos := memos db @ [m]\<rparr>))))))"

text \<open>An UPDATE of the row with the memo's id.\<close>

definition put_memo :: "(credit_memo \<Rightarrow> credit_memo) \<Rightarrow> uuid \<Rightarrow> pay_db \<Rightarrow> pay_db" where
  "put_memo f k db = db\<lparr>memos := update_where (\<lambda>c. cm_id c = k) f (memos db)\<rparr>"

definition apply_read_memo ::
    "pay_env \<Rightarrow> credit_memo \<Rightarrow> pay_db \<Rightarrow> string \<Rightarrow> uuid option \<Rightarrow> pay_db py" where
  "apply_read_memo env m db raw scope =
     py_bind (py_guard (cm_status m \<noteq> ''open'') (HTTPException 409 ''Cannot apply a credit memo in this status'')) (\<lambda>_.
     py_bind (parse_uuid raw) (\<lambda>i.
     py_bind (scoped_invoice db i scope) (\<lambda>iv.
     py_bind (assert_vendor_matches iv (cm_vendor m)) (\<lambda>_.
     py_bind (py_guard (cm_currency m \<noteq> [] \<and> currency iv \<noteq> [] \<and> cm_currency m \<noteq> currency iv)
                (HTTPException 409 ''Credit memo currency does not match invoice currency'')) (\<lambda>_.
     py_bind (py_guard (amount iv - already_applied db i (cm_id m) < cm_amount m)
                (HTTPException 409 ''Credit memo amount exceeds the remaining creditable balance'')) (\<lambda>_.
       Inr (audit_pay env (pe_audit_key env) ''credit_memo.applied'' ''credit_memo'' (cm_id m)
              (memo_details env m
               @ [(''invoice_id'', JStr (uuid_str i)),
                  (''remaining_before'', JStr (pe_money_text env (amount iv - already_applied db i (cm_id m))))])
              (put_memo (\<lambda>c. c\<lparr>cm_invoice := Some i, cm_status := ''applied'', cm_applied_at := Some (pe_now env),
                                cm_applied_by := Some (pe_user_name env)\<rparr>) (cm_id m) db))))))))"

definition apply_credit_memo ::
    "pay_env \<Rightarrow> pay_db \<Rightarrow> uuid \<Rightarrow> string \<Rightarrow> uuid option \<Rightarrow> pay_db py" where
  "apply_credit_memo env db k raw scope =
     py_bind (get_scoped_memo db k scope) (\<lambda>m. apply_read_memo env m db raw scope)"

text \<open>Setting a column to the value it was read with writes nothing.\<close>

definition void_read_memo :: "pay_env \<Rightarrow> credit_memo \<Rightarrow> pay_db \<Rightarrow> pay_db py" where
  "void_read_memo env m db =
     py_bind (py_guard (cm_status m = ''applied'') (HTTPException 409 ''Applied credit memos cannot be voided'')) (\<lambda>_.
       Inr (audit_pay env (pe_audit_key env) ''credit_memo.voided'' ''credit_memo'' (cm_id m) (memo_details env m)
              (if cm_status m = ''void'' then db else put_memo (\<lambda>c. c\<lparr>cm_status := ''void''\<rparr>) (cm_id m) db)))"

definition void_credit_memo :: "pay_env \<Rightarrow> pay_db \<Rightarrow> uuid \<Rightarrow> uuid option \<Rightarrow> pay_db py" where
  "void_credit_memo env db k scope = py_bind (get_scoped_memo db k scope) (\<lambda>m. void_read_memo env m db)"

section \<open>Credits stay within their invoice\<close>

definition credits_ok :: "pay_db \<Rightarrow> bool" where
  "credits_ok db \<longleftrightarrow>
     distinct (map cm_id (memos db)) \<and> distinct (map inv_id (invoices (core db)))
     \<and> (\<forall>m \<in> set (memos db). 0 \<le> cm_amount m)
     \<and> (\<forall>iv \<in> set (invoices (core db)). applied_credit_total db (inv_id iv) \<le> amount iv)"

abbreviation counts_for :: "uuid \<Rightarrow> credit_memo \<Rightarrow> bool" where
  "counts_for i c \<equiv> cm_invoice c = Some i \<and> cm_status c = ''applied''"

lemma applied_snoc:
  "applied_credit_total (db\<lparr>memos := memos db @ [m]\<rparr>) i =
     applied_credit_total db i + (if counts_for i m then cm_amount m else 0)"
  by (simp add: applied_credit_total_def)

lemma audit_pay_memos [simp]:
  "memos (audit_pay env c a t i d db) = memos db" "invoices (core (audit_pay env c a t i d db)) = invoices (core db)"
  by (simp_all add: audit_pay_def)

lemma applied_cong: "memos db' = memos db \<Longrightarrow> applied_credit_total db' i = applied_credit_total db i"
  by (simp add: applied_credit_total_def)

text \<open>What one rewritten memo does to a sum over unique rows.\<close>

lemma sum_update_where:
  fixes g :: "credit_memo \<Rightarrow> rat"
  assumes "distinct (map cm_id ms)" "m \<in> set ms"
  shows "sum_list (map g (update_where (\<lambda>c. cm_id c = cm_id m) f ms)) = sum_list (map g ms) - g m + g (f m)"
  using assms
proof (induction ms)
  case (Cons c ms)
  show ?case
  proof (cases "cm_id c = cm_id m")
    case True
    then have "c = m" "\<forall>x \<in> set ms. cm_id x \<noteq> cm_id m" using Cons.prems by (auto simp: rev_image_eqI)
    moreover from this(2) have "update_where (\<lambda>c. cm_id c = cm_id m) f ms = ms"
      by (induction ms) (simp_all add: update_where_def)
    ultimately show ?thesis by (simp add: update_where_def)
  next
    case False
    then show ?thesis using Cons by (auto simp: update_where_def)
  qed
qed simp

lemma total_as_sum:
  "applied_credit_total db i = sum_list (map (\<lambda>c. if counts_for i c then cm_amount c else 0) (memos db))"
  unfolding applied_credit_total_def by (induction "memos db" arbitrary: db) (simp_all add: sum_list_map_filter')

lemma total_put_memo:
  assumes "distinct (map cm_id (memos db))" "m \<in> set (memos db)"
  shows "applied_credit_total (put_memo f (cm_id m) db) i =
    applied_credit_total db i - (if counts_for i m then cm_amount m else 0)
      + (if counts_for i (f m) then cm_amount (f m) else 0)"
  unfolding total_as_sum using sum_update_where [OF assms, of "\<lambda>c. if counts_for i c then cm_amount c else 0" f]
  by (simp add: put_memo_def)

lemma total_nonneg: "\<forall>m \<in> set (memos db). 0 \<le> cm_amount m \<Longrightarrow> 0 \<le> applied_credit_total db i"
  unfolding applied_credit_total_def by (intro sum_list_nonneg) auto

lemma already_applied_total:
  assumes "distinct (map cm_id (memos db))" "m \<in> set (memos db)"
  shows "already_applied db i (cm_id m) = applied_credit_total db i - (if counts_for i m then cm_amount m else 0)"
proof -
  have "sum_list (map cm_amount (filter (\<lambda>c. cm_invoice c = Some i \<and> cm_status c = ''applied'' \<and> cm_id c \<noteq> cm_id m) ms))
      = sum_list (map cm_amount (filter (counts_for i) ms)) - (if counts_for i m then cm_amount m else 0)"
    if "distinct (map cm_id ms)" "m \<in> set ms" for ms
    using that
  proof (induction ms)
    case (Cons c ms)
    show ?case
    proof (cases "cm_id c = cm_id m")
      case True
      then have "c = m" "\<forall>x \<in> set ms. cm_id x \<noteq> cm_id m" using Cons.prems by (auto simp: rev_image_eqI)
      moreover from this(2) have "filter (\<lambda>c. cm_invoice c = Some i \<and> cm_status c = ''applied'' \<and> cm_id c \<noteq> cm_id m) ms
          = filter (counts_for i) ms" by (auto intro!: filter_cong)
      ultimately show ?thesis by simp
    next
      case False
      then show ?thesis using Cons by auto
    qed
  qed simp
  then show ?thesis using assms by (simp add: already_applied_def applied_credit_total_def)
qed

lemma scoped_invoice_Inr: "scoped_invoice db i scope = Inr iv \<Longrightarrow> iv \<in> set (invoices (core db)) \<and> inv_id iv = i"
  by (auto simp: scoped_invoice_def dest: find_Some_props split: option.splits)

text \<open>
  What the system may do next, whatever a route had read: a memo created, the tail of an apply or a void
  whose memo was read in an earlier state, or anything that leaves the memos and the invoice amounts alone.
\<close>

inductive credit_step :: "pay_db \<Rightarrow> pay_db \<Rightarrow> bool" where
  created: "credit_step db db'"
    if "create_credit_memo env fresh db body scope = Inr (m, db')" "0 < mb_amount body" "fresh \<notin> cm_id ` set (memos db)"
| applied: "credit_step db db'"
    if "apply_read_memo env m db raw scope = Inr db'" "now \<in> set (memos db)" "cm_id now = cm_id m"
       "cm_amount now = cm_amount m"
| voided: "credit_step db db'"
    if "void_read_memo env m db = Inr db'" "now \<in> set (memos db)" "cm_id now = cm_id m"
| elsewhere: "credit_step db db'"
    if "memos db' = memos db"
       "map (\<lambda>iv. (inv_id iv, amount iv)) (invoices (core db')) = map (\<lambda>iv. (inv_id iv, amount iv)) (invoices (core db))"

lemma same_invoices:
  assumes "map (\<lambda>iv. (inv_id iv, amount iv)) xs = map (\<lambda>iv. (inv_id iv, amount iv)) ys"
  shows "map inv_id xs = map inv_id ys" "(\<forall>iv \<in> set xs. P (inv_id iv) (amount iv)) = (\<forall>iv \<in> set ys. P (inv_id iv) (amount iv))"
proof -
  show "map inv_id xs = map inv_id ys" using arg_cong [OF assms, of "map fst"] by (simp add: comp_def)
  have quant: "(\<forall>iv \<in> set zs. P (inv_id iv) (amount iv)) =
      (\<forall>q \<in> set (map (\<lambda>iv. (inv_id iv, amount iv)) zs). P (fst q) (snd q))" for zs
    by simp
  show "(\<forall>iv \<in> set xs. P (inv_id iv) (amount iv)) = (\<forall>iv \<in> set ys. P (inv_id iv) (amount iv))"
    by (simp only: quant [of xs] quant [of ys] assms)
qed

lemma put_memo_ok:
  assumes "credits_ok db" "m \<in> set (memos db)" "cm_id (f m) = cm_id m" "cm_amount (f m) = cm_amount m"
    "\<And>iv. iv \<in> set (invoices (core db)) \<Longrightarrow> counts_for (inv_id iv) (f m) \<Longrightarrow>
       already_applied db (inv_id iv) (cm_id m) + cm_amount m \<le> amount iv"
  shows "credits_ok (put_memo f (cm_id m) db)"
proof -
  have d: "distinct (map cm_id (memos db))" and pos: "\<forall>m \<in> set (memos db). 0 \<le> cm_amount m"
    using assms(1) by (simp_all add: credits_ok_def)
  have only: "c = m" if "c \<in> set (memos db)" "cm_id c = cm_id m" for c
    using d assms(2) that by (auto simp: distinct_map dest: inj_onD)
  have "update_where (\<lambda>c. cm_id c = cm_id m) f (memos db) = map (\<lambda>c. if c = m then f m else c) (memos db)"
    using only by (auto simp: update_where_def)
  then have rows: "memos (put_memo f (cm_id m) db) = map (\<lambda>c. if c = m then f m else c) (memos db)"
    by (simp add: put_memo_def)
  have "applied_credit_total (put_memo f (cm_id m) db) (inv_id iv) \<le> amount iv" if "iv \<in> set (invoices (core db))" for iv
  proof (cases "counts_for (inv_id iv) (f m)")
    case True
    then show ?thesis
      using assms(5) [OF that True] total_put_memo [OF d assms(2), of f "inv_id iv"]
        already_applied_total [OF d assms(2), of "inv_id iv"] assms(4) by (simp split: if_splits)
  next
    case False
    have "applied_credit_total db (inv_id iv) \<le> amount iv" using assms(1) that by (simp add: credits_ok_def)
    moreover have "0 \<le> cm_amount m" using pos assms(2) by blast
    ultimately show ?thesis
      using False total_put_memo [OF d assms(2), of f "inv_id iv"] by (auto split: if_splits)
  qed
  moreover have "map cm_id (map (\<lambda>c. if c = m then f m else c) (memos db)) = map cm_id (memos db)"
    using assms(3) by (simp add: comp_def)
  ultimately show ?thesis
    using assms(1,2,4) pos by (auto simp: credits_ok_def rows simp del: map_map) (simp_all add: put_memo_def)
qed

lemma credits_ok_audit [simp]: "credits_ok (audit_pay env c a t i d db) = credits_ok db"
  by (simp add: credits_ok_def applied_cong [of "audit_pay env c a t i d db" db])

lemma put_memo_snapshot_ok:
  assumes "credits_ok db" "now \<in> set (memos db)" "cm_id (f now) = cm_id now" "cm_amount (f now) = cm_amount now"
    "\<And>iv. iv \<in> set (invoices (core db)) \<Longrightarrow> counts_for (inv_id iv) (f now) \<Longrightarrow>
       already_applied db (inv_id iv) k + cm_amount now \<le> amount iv"
    "cm_id now = k"
  shows "credits_ok (put_memo f k db)"
  using put_memo_ok [OF assms(1,2), of f] assms(3-6) by simp

lemma create_credit_memo_Inr:
  assumes "create_credit_memo env fresh db body scope = Inr (m, db')"
  shows "memos db' = memos db @ [m]" "invoices (core db') = invoices (core db)" "cm_id m = fresh" "cm_amount m = mb_amount body"
    "\<And>i. counts_for i m \<Longrightarrow> \<exists>iv \<in> set (invoices (core db)). inv_id iv = i \<and> applied_credit_total db i + cm_amount m \<le> amount iv"
proof -
  define target where "target vid cur = (if get_or (mb_invoice body) [] = [] then Inr (None, cur)
      else map_sum id (\<lambda>(i, c). (Some i, c)) (credit_at_creation db body vid cur scope (get_or (mb_invoice body) [])))"
    for vid cur
  define made where "made vid v inv c = \<lparr>cm_id = fresh, cm_number = mb_number body, cm_vendor = vid, cm_invoice = inv,
      cm_amount = mb_amount body, cm_currency = c, cm_status = (if inv = None then ''open'' else ''applied''),
      cm_applied_at = (if inv = None then None else Some (pe_now env)),
      cm_applied_by = (if inv = None then None else Some (pe_user_name env)), cm_entity = vd_entity v\<rparr>"
    for vid and v :: vendor and inv c
  obtain vid where vid: "parse_uuid (mb_vendor body) = Inr vid"
    using assms by (cases "parse_uuid (mb_vendor body)") (simp_all add: create_credit_memo_def)
  obtain v where v: "find (\<lambda>v. vd_id v = vid \<and> in_scope scope (vd_entity v)) (vendors db) = Some v"
    using assms by (cases "find (\<lambda>v. vd_id v = vid \<and> in_scope scope (vd_entity v)) (vendors db)")
      (simp_all add: create_credit_memo_def vid)
  define cur where "cur = (if norm_code (get_or (mb_currency body) []) = [] then None
      else Some (norm_code (get_or (mb_currency body) [])))"
  define logged where "logged inv m = audit_pay env (pe_audit_key env) ''credit_memo.created'' ''credit_memo'' fresh
      (memo_details env m @ [(''invoice_id'', case inv of None \<Rightarrow> JNull | Some i \<Rightarrow> JStr (uuid_str i)),
                             (''status'', JStr (cm_status m))]) (db\<lparr>memos := memos db @ [m]\<rparr>)" for inv and m :: credit_memo
  obtain inv cur' c where t: "target vid cur = Inr (inv, cur')" and m: "m = made vid v inv c" and "db' = logged inv m"
    using assms unfolding create_credit_memo_def Let_def vid py_bind_simps v option.case
    by (simp only: py_bind_eq_Inr flip: target_def made_def cur_def logged_def) auto
  obtain d where db': "db' = audit_pay env (pe_audit_key env) ''credit_memo.created'' ''credit_memo'' fresh d
      (db\<lparr>memos := memos db @ [m]\<rparr>)"
    using \<open>db' = logged inv m\<close> by (simp only: logged_def)
  note b = t [unfolded target_def] and m = m [unfolded made_def]
  show "memos db' = memos db @ [m]" "invoices (core db') = invoices (core db)" by (simp_all add: db')
  show "cm_id m = fresh" "cm_amount m = mb_amount body" by (simp_all add: m)
  fix i assume i: "counts_for i m"
  have "inv = Some i" using i by (simp add: m)
  then have "credit_at_creation db body vid cur scope (get_or (mb_invoice body) []) = Inr (i, cur')"
    using b by (cases "credit_at_creation db body vid cur scope (get_or (mb_invoice body) [])") (auto split: if_splits)
  then show "\<exists>iv \<in> set (invoices (core db)). inv_id iv = i \<and> applied_credit_total db i + cm_amount m \<le> amount iv"
    unfolding credit_at_creation_def by (fastforce simp: m dest: scoped_invoice_Inr)
qed

lemma apply_read_memo_Inr:
  assumes "apply_read_memo env m db raw scope = Inr db'"
  obtains i iv d where "iv \<in> set (invoices (core db))" "inv_id iv = i" "cm_status m = ''open''"
    "already_applied db i (cm_id m) + cm_amount m \<le> amount iv"
    "db' = audit_pay env (pe_audit_key env) ''credit_memo.applied'' ''credit_memo'' (cm_id m) d
       (put_memo (\<lambda>c. c\<lparr>cm_invoice := Some i, cm_status := ''applied'', cm_applied_at := Some (pe_now env),
                          cm_applied_by := Some (pe_user_name env)\<rparr>) (cm_id m) db)"
  using assms unfolding apply_read_memo_def by (fastforce dest: scoped_invoice_Inr)

lemma void_read_memo_Inr:
  assumes "void_read_memo env m db = Inr db'"
  obtains "cm_status m = ''void''" "memos db' = memos db" "invoices (core db') = invoices (core db)"
  | d where "cm_status m \<noteq> ''void''" "cm_status m \<noteq> ''applied''"
      "db' = audit_pay env (pe_audit_key env) ''credit_memo.voided'' ''credit_memo'' (cm_id m) d
         (put_memo (\<lambda>c. c\<lparr>cm_status := ''void''\<rparr>) (cm_id m) db)"
  using assms unfolding void_read_memo_def by (cases "cm_status m = ''void''") auto

lemma invoice_row: "distinct (map inv_id (invoices (core db))) \<Longrightarrow> a \<in> set (invoices (core db)) \<Longrightarrow>
    b \<in> set (invoices (core db)) \<Longrightarrow> inv_id a = inv_id b \<Longrightarrow> a = b"
  by (auto simp: distinct_map dest: inj_onD)

lemma credits_ok_same:
  assumes "memos db' = memos db"
    "map (\<lambda>iv. (inv_id iv, amount iv)) (invoices (core db')) = map (\<lambda>iv. (inv_id iv, amount iv)) (invoices (core db))"
  shows "credits_ok db' = credits_ok db"
  using same_invoices(1) [OF assms(2)]
    same_invoices(2) [OF assms(2), of "\<lambda>i a. applied_credit_total db i \<le> a"] assms(1)
  by (simp add: credits_ok_def applied_cong [OF assms(1)])

lemma credit_step_ok: "credits_ok db \<Longrightarrow> credit_step db db' \<Longrightarrow> credits_ok db'"
proof (rotate_tac 1, induction rule: credit_step.induct)
  case (created env fresh db body scope m db')
  note c = create_credit_memo_Inr [OF created(1)]
  have "applied_credit_total db' (inv_id iv) \<le> amount iv" if "iv \<in> set (invoices (core db))" for iv
  proof -
    have "applied_credit_total db' (inv_id iv)
        = applied_credit_total db (inv_id iv) + (if counts_for (inv_id iv) m then cm_amount m else 0)"
      using applied_snoc [of db m "inv_id iv"] applied_cong [of db' "db\<lparr>memos := memos db @ [m]\<rparr>"] c(1) by simp
    then show ?thesis
      using c(5) [of "inv_id iv"] created(4) that invoice_row [of db _ iv] by (auto simp: credits_ok_def)
  qed
  then show ?case using created(2-4) c(1-4) by (auto simp: credits_ok_def)
next
  case (applied env m db raw scope db' now)
  obtain i iv d where iv: "iv \<in> set (invoices (core db))" "inv_id iv = i" "cm_status m = ''open''"
    "already_applied db i (cm_id m) + cm_amount m \<le> amount iv"
    and db': "db' = audit_pay env (pe_audit_key env) ''credit_memo.applied'' ''credit_memo'' (cm_id m) d
       (put_memo (\<lambda>c. c\<lparr>cm_invoice := Some i, cm_status := ''applied'', cm_applied_at := Some (pe_now env),
                          cm_applied_by := Some (pe_user_name env)\<rparr>) (cm_id m) db)"
    using apply_read_memo_Inr [OF applied(1)] by blast
  have "distinct (map inv_id (invoices (core db)))" using applied(5) by (simp add: credits_ok_def)
  then have "iv' = iv" if "iv' \<in> set (invoices (core db))" "inv_id iv' = i" for iv'
    using invoice_row that iv(1,2) by blast
  note same = this
  show ?case unfolding db' credits_ok_audit
  proof (rule put_memo_snapshot_ok [OF applied(5,2)])
    fix iv'
    assume a: "iv' \<in> set (invoices (core db))" and "counts_for (inv_id iv')
      (now\<lparr>cm_invoice := Some i, cm_status := ''applied'', cm_applied_at := Some (pe_now env),
            cm_applied_by := Some (pe_user_name env)\<rparr>)"
    then have "inv_id iv' = i" by simp
    then show "already_applied db (inv_id iv') (cm_id m) + cm_amount now \<le> amount iv'"
      using iv(4) applied(4) same [OF a] by simp
  qed (simp_all add: applied(3))
next
  case (voided env m db db' now)
  show ?case
  proof (rule void_read_memo_Inr [OF voided(1)])
    assume "memos db' = memos db" "invoices (core db') = invoices (core db)"
    then show ?thesis using voided(4) credits_ok_same [of db' db] by simp
  next
    fix d
    assume db': "db' = audit_pay env (pe_audit_key env) ''credit_memo.voided'' ''credit_memo'' (cm_id m) d
         (put_memo (\<lambda>c. c\<lparr>cm_status := ''void''\<rparr>) (cm_id m) db)"
    show ?thesis unfolding db' credits_ok_audit
      by (rule put_memo_snapshot_ok [OF voided(4,2)]) (simp_all add: voided(3))
  qed
next
  case (elsewhere db' db)
  then show ?case using credits_ok_same by blast
qed

interpretation credit_run: step_system "\<lambda>db. memos db = [] \<and> credits_ok db" credit_step credits_ok
  by unfold_locales (auto intro: credit_step_ok)

text \<open>The routes themselves are such steps, with the memo read and written in one state.\<close>

lemma get_scoped_memo_Inr: "get_scoped_memo db k scope = Inr m \<Longrightarrow> m \<in> set (memos db) \<and> cm_id m = k"
  by (auto simp: get_scoped_memo_def dest: find_Some_props split: option.splits)

lemma apply_credit_memo_step: "apply_credit_memo env db k raw scope = Inr db' \<Longrightarrow> credit_step db db'"
  by (auto simp: apply_credit_memo_def dest!: get_scoped_memo_Inr intro: credit_step.applied)

lemma void_credit_memo_step: "void_credit_memo env db k scope = Inr db' \<Longrightarrow> credit_step db db'"
  by (auto simp: void_credit_memo_def dest!: get_scoped_memo_Inr intro: credit_step.voided)

section \<open>Properties\<close>

text \<open>
  C14: however creations, applies and voids interleave, and however stale the memo an apply or a
  void had read, no invoice is ever credited beyond its amount: what a payment run would pay is never
  negative.
\<close>

theorem credits_never_exceed_the_invoice:
  assumes "credits_ok db" "credit_step\<^sup>*\<^sup>* db db'" "iv \<in> set (invoices (core db'))"
  shows "0 \<le> net_payable_amount db' iv"
  using credit_run.runs_keep [OF assms(2,1)] assms(3) by (simp add: credits_ok_def net_payable_amount_def)

definition sample_memo :: credit_memo where
  "sample_memo = \<lparr>cm_id = 80, cm_number = ''CM-1'', cm_vendor = 12, cm_invoice = None, cm_amount = 25,
     cm_currency = ''USD'', cm_status = ''open'', cm_applied_at = None, cm_applied_by = None, cm_entity = None\<rparr>"

definition sample_credit_db :: pay_db where
  "sample_credit_db = sample_pay_db
     \<lparr>core := (core sample_pay_db)\<lparr>invoices := [sample_payable, sample_payable\<lparr>inv_id := 13\<rparr>]\<rparr>, memos := [sample_memo]\<rparr>"

lemma sample_credit_rows:
  "memos sample_credit_db = [sample_memo]" "invoices (core sample_credit_db) = [sample_payable, sample_payable\<lparr>inv_id := 13\<rparr>]"
  by (simp_all add: sample_credit_db_def)

lemma sample_credits_ok: "credits_ok sample_credit_db"
  by (simp add: credits_ok_def sample_credit_rows applied_credit_total_def) (simp add: sample_payable_def sample_invoice_def sample_memo_def)

lemma sample_invoice_found:
  "scoped_invoice (put_memo f k sample_credit_db) 10 None = Inr sample_payable"
  "scoped_invoice (put_memo f k sample_credit_db) 13 None = Inr (sample_payable\<lparr>inv_id := 13\<rparr>)"
  "scoped_invoice sample_credit_db 10 None = Inr sample_payable"
  by (simp_all add: scoped_invoice_def put_memo_def sample_credit_rows in_scope_def)
     (simp_all add: sample_payable_def sample_invoice_def)

lemma scoped_invoice_audit [simp]: "scoped_invoice (audit_pay env c a t i d db) k s = scoped_invoice db k s"
  "already_applied (audit_pay env c a t i d db) k j = already_applied db k j"
  by (simp_all add: scoped_invoice_def already_applied_def)

lemma sample_apply:
  "\<exists>db'. apply_read_memo sample_pay_env sample_memo sample_credit_db (uuid_str 10) None = Inr db'
     \<and> (\<exists>db2. apply_read_memo sample_pay_env sample_memo db' (uuid_str 13) None = Inr db2)"
proof -
  have p: "parse_uuid (uuid_str k) = Inr k" for k by (simp add: parse_uuid_def)
  have e: "already_applied sample_credit_db 10 80 = 0"
    "cm_id (f sample_memo) = 80 \<Longrightarrow> already_applied (put_memo f 80 sample_credit_db) 13 80 = 0" for f
    by (simp_all add: already_applied_def put_memo_def sample_credit_rows update_where_def) (simp_all add: sample_memo_def)
  show ?thesis
    by (simp add: apply_read_memo_def p sample_invoice_found e assert_vendor_matches_def sample_memo_def)
      (simp add: e sample_invoice_found sample_payable_def sample_invoice_def)
qed

theorem credits_never_exceed_witness:
  "\<exists>db'. credits_ok sample_credit_db \<and> credit_step sample_credit_db db' \<and> (\<forall>iv \<in> set (invoices (core db')). 0 \<le> net_payable_amount db' iv)"
proof -
  obtain db' where a: "apply_read_memo sample_pay_env sample_memo sample_credit_db (uuid_str 10) None = Inr db'"
    using sample_apply by blast
  have s: "credit_step sample_credit_db db'"
    by (rule credit_step.applied [OF a, of sample_memo]) (simp_all add: sample_credit_rows)
  then show ?thesis using credits_never_exceed_the_invoice [OF sample_credits_ok r_into_rtranclp [where r = credit_step, OF s]]
    sample_credits_ok by blast
qed

text \<open>
  two applies that both read the memo while it was open both succeed, on two invoices, and the
  credit the first invoice got is gone again: its applied total is what it was before.
\<close>

theorem racing_applies_lose_a_credit:
  assumes "apply_read_memo env m db a scope = Inr db1" "apply_read_memo env m db1 b scope' = Inr db2"
    and "parse_uuid a = Inr i" "parse_uuid b = Inr j" "i \<noteq> j"
    and "distinct (map cm_id (memos db))" "m \<in> set (memos db)"
  shows "applied_credit_total db1 i = applied_credit_total db i + cm_amount m
    \<and> applied_credit_total db2 i = applied_credit_total db i"
proof -
  define f where "f k = (\<lambda>c. c\<lparr>cm_invoice := Some k, cm_status := ''applied'', cm_applied_at := Some (pe_now env),
                        cm_applied_by := Some (pe_user_name env)\<rparr> :: credit_memo)" for k
  have o: "cm_status m = ''open''" and m1: "memos db1 = memos (put_memo (f i) (cm_id m) db)"
    using assms(1,3) by (auto simp: apply_read_memo_def f_def)
  have m2: "memos db2 = memos (put_memo (f j) (cm_id m) db1)"
    using assms(2,4) by (auto simp: apply_read_memo_def f_def)
  have r: "memos db1 = update_where (\<lambda>c. cm_id c = cm_id m) (f i) (memos db)" using m1 by (simp add: put_memo_def)
  have fm: "f i m \<in> set (memos db1)" "cm_id (f i m) = cm_id m" "map cm_id (memos db1) = map cm_id (memos db)"
    using assms(7) unfolding r by (auto simp: set_update_where f_def intro!: map_update_where_frame)
  have "applied_credit_total db1 i = applied_credit_total db i + cm_amount m"
    using total_put_memo [OF assms(6,7), of "f i" i] applied_cong [OF m1, of i] o by (simp add: f_def)
  moreover have "applied_credit_total db2 i = applied_credit_total db1 i - cm_amount m"
    using total_put_memo [of db1 "f i m" "f j" i] applied_cong [OF m2, of i] fm assms(5,6) by (simp add: f_def)
  ultimately show ?thesis by simp
qed


theorem racing_applies_witness:
  "\<exists>db1 db2. apply_read_memo sample_pay_env sample_memo sample_credit_db (uuid_str 10) None = Inr db1
     \<and> apply_read_memo sample_pay_env sample_memo db1 (uuid_str 13) None = Inr db2
     \<and> applied_credit_total db1 10 = 25 \<and> applied_credit_total db2 10 = 0"
proof -
  obtain db1 db2 where a: "apply_read_memo sample_pay_env sample_memo sample_credit_db (uuid_str 10) None = Inr db1"
    "apply_read_memo sample_pay_env sample_memo db1 (uuid_str 13) None = Inr db2"
    using sample_apply by blast
  have "applied_credit_total sample_credit_db 10 = 0" "cm_amount sample_memo = 25"
    by (simp_all add: applied_credit_total_def sample_credit_rows) (simp_all add: sample_memo_def)
  then show ?thesis
    using racing_applies_lose_a_credit [OF a, of 10 13] a by (auto simp: parse_uuid_def sample_credit_rows)
qed

end
