(* ===== verification/Calendar.thy ===== *)
theory Calendar
  imports Prelude
begin

text \<open>
  The part of Python's \<open>datetime\<close> and \<open>calendar\<close> the dated components use: a naive or
  one-zone \<open>datetime\<close> as its fields, with the time of day in microseconds; the proleptic Gregorian
  ordinal of a date; month arithmetic. Years run from 1 to 9999, and \<open>replace\<close> outside that
  range raises ValueError.
\<close>

section \<open>Dates\<close>

record date =
  year :: int
  month :: int
  day :: int

record datetime = date +
  micros :: int

definition is_leap :: "int \<Rightarrow> bool" where
  "is_leap y \<longleftrightarrow> y mod 4 = 0 \<and> (y mod 100 \<noteq> 0 \<or> y mod 400 = 0)"

definition days_in_month :: "int \<Rightarrow> int \<Rightarrow> int" where
  "days_in_month y m =
     (if m = 2 then (if is_leap y then 29 else 28) else if m \<in> {4, 6, 9, 11} then 30 else 31)"

definition days_before_year :: "int \<Rightarrow> int" where
  "days_before_year y = (y - 1) * 365 + (y - 1) div 4 - (y - 1) div 100 + (y - 1) div 400"

definition days_before_month :: "int \<Rightarrow> int \<Rightarrow> int" where
  "days_before_month y m =
     [0, 31, 59, 90, 120, 151, 181, 212, 243, 273, 304, 334] ! nat (m - 1) + (if 2 < m \<and> is_leap y then 1 else 0)"

definition ordinal :: "'a date_scheme \<Rightarrow> int" where
  "ordinal d = days_before_year (year d) + days_before_month (year d) (month d) + day d"

definition valid_date :: "'a date_scheme \<Rightarrow> bool" where
  "valid_date d \<longleftrightarrow>
     year d \<in> {1..9999} \<and> month d \<in> {1..12} \<and> day d \<in> {1..days_in_month (year d) (month d)}"

definition day_micros :: int where "day_micros = 86400 * 1000000"

definition valid_datetime :: "datetime \<Rightarrow> bool" where
  "valid_datetime t \<longleftrightarrow> valid_date t \<and> micros t \<in> {0..<day_micros}"

text \<open>Microseconds since year 1; comparing and subtracting datetimes is comparing and subtracting these.\<close>

definition instant :: "datetime \<Rightarrow> int" where
  "instant t = ordinal t * day_micros + micros t"

text \<open>The month of a date, counted from year 0.\<close>

definition month_index :: "'a date_scheme \<Rightarrow> int" where
  "month_index d = year d * 12 + (month d - 1)"

section \<open>Month arithmetic\<close>

text \<open>\<open>add_months\<close> of services/billing/period.py: whole calendar months, the day clamped.\<close>

definition add_months :: "datetime \<Rightarrow> int \<Rightarrow> datetime py" where
  "add_months t n =
     (let total = month t - 1 + n;
          y = year t + total div 12;
          m = total mod 12 + 1
      in if y \<in> {1..9999} then Inr (t\<lparr>year := y, month := m, day := min (day t) (days_in_month y m)\<rparr>)
         else Inl ValueError)"

section \<open>Facts\<close>

lemma div_step: "0 < (k :: int) \<Longrightarrow> y div k - (y - 1) div k = (if k dvd y then 1 else 0)"
proof -
  assume k: "0 < k"
  show ?thesis
  proof (cases "k dvd y")
    case True
    then obtain q where q: "y = k * q" by blast
    have "(y - 1) div k = q - 1"
      using k by (intro int_div_pos_eq [where r = "k - 1"]) (simp_all add: q algebra_simps)
    then show ?thesis using k q by simp
  next
    case False
    then have "y mod k \<noteq> 0" by (simp add: dvd_eq_mod_eq_0)
    moreover have "0 \<le> y mod k" using k by simp
    ultimately have "0 \<le> y mod k - 1" by linarith
    moreover have "y mod k < k" using k by simp
    moreover have "y - 1 = k * (y div k) + (y mod k - 1)" by simp
    ultimately have "(y - 1) div k = y div k" by (intro int_div_pos_eq [where r = "y mod k - 1"]) simp_all
    then show ?thesis using False by simp
  qed
qed

lemma days_before_year_step: "days_before_year (y + 1) = days_before_year y + 365 + (if is_leap y then 1 else 0)"
proof -
  define a b c where "a = (4 dvd y)" and "b = (100 dvd y)" and "c = (400 dvd y)"
  have d: "y div 4 = (y - 1) div 4 + (if a then 1 else 0)" "y div 100 = (y - 1) div 100 + (if b then 1 else 0)"
    "y div 400 = (y - 1) div 400 + (if c then 1 else 0)"
    using div_step [of 4 y] div_step [of 100 y] div_step [of 400 y] by (simp_all add: a_def b_def c_def)
  have i: "c \<Longrightarrow> b" "b \<Longrightarrow> a" "is_leap y \<longleftrightarrow> a \<and> (\<not> b \<or> c)"
    using dvd_trans [of 100 400 y] dvd_trans [of 4 100 y]
    by (simp_all add: a_def b_def c_def is_leap_def mod_eq_0_iff_dvd)
  have "(if a then 1 else 0) - (if b then 1 else 0) + (if c then 1 else 0) = (if is_leap y then 1 else 0 :: int)"
    using i by (cases a; cases b; cases c) auto
  moreover have "days_before_year (y + 1) = y * 365 + y div 4 - y div 100 + y div 400"
    by (simp add: days_before_year_def)
  ultimately show ?thesis unfolding d days_before_year_def by (simp add: algebra_simps)
qed

lemma month_cases:
  assumes "m \<in> {1..12 :: int}"
  obtains "m = 1" | "m = 2" | "m = 3" | "m = 4" | "m = 5" | "m = 6" | "m = 7" | "m = 8" | "m = 9"
    | "m = 10" | "m = 11" | "m = 12"
proof -
  have "m = 1 \<or> m = 2 \<or> m = 3 \<or> m = 4 \<or> m = 5 \<or> m = 6 \<or> m = 7 \<or> m = 8 \<or> m = 9 \<or> m = 10 \<or> m = 11 \<or> m = 12"
    using assms by (simp, presburger)
  then show ?thesis using that by blast
qed

lemma days_before_month_step:
  assumes "m \<in> {1..11}"
  shows "days_before_month y (m + 1) = days_before_month y m + days_in_month y m"
proof -
  have m: "m \<in> {1..12}" "m \<noteq> 12" using assms by simp_all
  show ?thesis
    by (rule month_cases [OF m(1)]) (use m(2) in \<open>simp_all add: days_before_month_def days_in_month_def\<close>)
qed

lemma days_in_month_bounds: "28 \<le> days_in_month y m" "days_in_month y m \<le> 31"
  by (simp_all add: days_in_month_def)

text \<open>The ordinal of the day before a month starts; consecutive months tile the calendar.\<close>

definition month_start :: "int \<Rightarrow> int" where
  "month_start n = days_before_year (n div 12) + days_before_month (n div 12) (n mod 12 + 1)"

definition month_length :: "int \<Rightarrow> int" where
  "month_length n = days_in_month (n div 12) (n mod 12 + 1)"

lemma next_month:
  "(n + 1) div 12 = n div 12 + (if n mod 12 = 11 then 1 else 0)"
  "(n + 1) mod 12 = (if n mod 12 = 11 then 0 else n mod 12 + 1 :: int)"
proof -
  define q r where "q = n div 12" and "r = n mod 12"
  have n: "n = 12 * q + r" "0 \<le> r" "r < 12" by (simp_all add: q_def r_def)
  have s: "n + 1 = 12 * (q + (if r = 11 then 1 else 0)) + (if r = 11 then 0 else r + 1)" using n(1) by simp
  have b: "0 \<le> (if r = 11 then 0 else r + 1)" "(if r = 11 then 0 else r + 1) < 12" using n(2,3) by simp_all
  have "(n + 1) div 12 = q + (if r = 11 then 1 else 0)" by (rule int_div_pos_eq [OF s b])
  then show "(n + 1) div 12 = n div 12 + (if n mod 12 = 11 then 1 else 0)" by (simp only: q_def r_def)
  have "(n + 1) mod 12 = (if r = 11 then 0 else r + 1)" by (rule int_mod_pos_eq [OF s b])
  then show "(n + 1) mod 12 = (if n mod 12 = 11 then 0 else n mod 12 + 1)" by (simp only: r_def)
qed

lemma month_start_step: "month_start (n + 1) = month_start n + month_length n"
proof (cases "n mod 12 = 11")
  case True
  have "days_before_month y 12 + days_in_month y 12 = 365 + (if is_leap y then 1 else 0)" "days_before_month y 1 = 0" for y
    by (simp_all add: days_before_month_def days_in_month_def)
  then show ?thesis
    using True days_before_year_step [of "n div 12"] by (simp add: month_start_def month_length_def next_month)
next
  case False
  have "n mod 12 < 12" "0 \<le> n mod 12" by simp_all
  then have "n mod 12 + 1 \<in> {1..11}" using False unfolding atLeastAtMost_iff by linarith
  then show ?thesis
    using False days_before_month_step [of "n mod 12 + 1" "n div 12"]
    by (simp only: month_start_def month_length_def next_month if_False) simp
qed

text \<open>Later months start later, and a date lies inside its month.\<close>

lemma month_start_less: "m < n \<Longrightarrow> month_start m + month_length m \<le> month_start n"
proof (induction n rule: int_gr_induct)
  case base
  then show ?case by (simp add: month_start_step)
next
  case (step i)
  then show ?case using days_in_month_bounds(1) [of "i div 12" "i mod 12 + 1"]
    by (simp add: month_start_step) (simp add: month_length_def)
qed

lemma month_index_split:
  assumes "valid_date d"
  shows "month_index d div 12 = year d" "month_index d mod 12 + 1 = month d"
proof -
  have "0 \<le> month d - 1" "month d - 1 < 12" using assms by (simp_all add: valid_date_def)
  then show "month_index d div 12 = year d"
    unfolding month_index_def by (intro int_div_pos_eq [where r = "month d - 1"]) simp_all
  have "month_index d mod 12 = month d - 1"
    using \<open>0 \<le> month d - 1\<close> \<open>month d - 1 < 12\<close>
    unfolding month_index_def by (intro int_mod_pos_eq [where q = "year d"]) simp_all
  then show "month_index d mod 12 + 1 = month d" by simp
qed

lemma ordinal_month: "valid_date d \<Longrightarrow> ordinal d = month_start (month_index d) + day d"
  by (simp add: ordinal_def month_start_def month_index_split)

lemma day_in_month: "valid_date d \<Longrightarrow> 1 \<le> day d \<and> day d \<le> month_length (month_index d)"
  by (simp add: month_length_def month_index_split) (simp add: valid_date_def)

lemma ordinal_month_less:
  assumes "valid_date a" "valid_date b" "month_index a < month_index b"
  shows "ordinal a < ordinal b"
  using month_start_less [OF assms(3)] day_in_month [OF assms(1)] day_in_month [OF assms(2)]
  by (simp add: ordinal_month assms(1,2))

text \<open>The order of instants is the order of the fields, which is how Python compares.\<close>

lemma instant_ordinal_less:
  assumes "valid_datetime a" "valid_datetime b" "ordinal a < ordinal b"
  shows "instant a < instant b"
proof -
  have "instant a < (ordinal a + 1) * day_micros"
    using assms(1) by (simp add: instant_def valid_datetime_def algebra_simps)
  also have "\<dots> \<le> ordinal b * day_micros"
    using assms(3) by (intro mult_right_mono) (simp_all add: day_micros_def)
  also have "\<dots> \<le> instant b" using assms(2) by (simp add: instant_def valid_datetime_def)
  finally show ?thesis .
qed

lemma instant_month_less:
  "valid_datetime a \<Longrightarrow> valid_datetime b \<Longrightarrow> month_index a < month_index b \<Longrightarrow> instant a < instant b"
  by (intro instant_ordinal_less) (auto simp: valid_datetime_def intro: ordinal_month_less)

lemma instant_less_iff:
  assumes "valid_datetime a" "valid_datetime b"
  shows "instant a < instant b \<longleftrightarrow>
    month_index a < month_index b
    \<or> (month_index a = month_index b \<and> (day a < day b \<or> (day a = day b \<and> micros a < micros b)))"
proof (cases "month_index a" "month_index b" rule: linorder_cases)
  case less
  then show ?thesis using instant_month_less [OF assms] by simp
next
  case greater
  then show ?thesis using instant_month_less [OF assms(2,1)] by simp
next
  case equal
  have v: "valid_date a" "valid_date b" using assms by (simp_all add: valid_datetime_def)
  have o: "ordinal a < ordinal b \<longleftrightarrow> day a < day b" "ordinal a = ordinal b \<longleftrightarrow> day a = day b"
    using equal by (simp_all add: ordinal_month v)
  show ?thesis
  proof (cases "day a" "day b" rule: linorder_cases)
    case less
    then show ?thesis using instant_ordinal_less [OF assms] equal o by simp
  next
    case greater
    then show ?thesis using instant_ordinal_less [OF assms(2,1)] equal o by simp
  next
    case e: equal
    then show ?thesis using equal o by (simp add: instant_def)
  qed
qed

section \<open>Adding months\<close>

lemma add_months_Inr:
  assumes "valid_datetime t" "add_months t n = Inr u"
  shows "valid_datetime u" "month_index u = month_index t + n" "micros u = micros t"
    "day u = min (day t) (month_length (month_index t + n))"
proof -
  have v: "valid_date t" using assms(1) by (simp add: valid_datetime_def)
  define i where "i = month t - 1 + n"
  have u: "u = t\<lparr>year := year t + i div 12, month := i mod 12 + 1,
      day := min (day t) (days_in_month (year t + i div 12) (i mod 12 + 1))\<rparr>" "year t + i div 12 \<in> {1..9999}"
    using assms(2) by (simp_all add: add_months_def Let_def i_def split: if_splits)
  have idx: "month_index t + n = (year t + i div 12) * 12 + i mod 12"
    by (simp add: month_index_def i_def)
  have dm: "(month_index t + n) div 12 = year t + i div 12" "(month_index t + n) mod 12 = i mod 12"
    unfolding idx by simp_all
  show "month_index u = month_index t + n" unfolding idx by (simp add: u month_index_def)
  show "micros u = micros t" by (simp add: u)
  show "day u = min (day t) (month_length (month_index t + n))" by (simp add: month_length_def dm u)
  have "1 \<le> day t" using v by (simp add: valid_date_def)
  moreover have "0 \<le> i mod 12" "i mod 12 < 12" by simp_all
  ultimately show "valid_datetime u"
    using assms(1) u(2) days_in_month_bounds [of "year t + i div 12" "i mod 12 + 1"]
    by (simp add: valid_datetime_def valid_date_def u(1))
qed

lemma add_months_ok: "1 \<le> (month_index t + n) div 12 \<Longrightarrow> (month_index t + n) div 12 \<le> 9999 \<Longrightarrow> \<exists>u. add_months t n = Inr u"
proof -
  have "(month_index t + n) div 12 = year t + (month t - 1 + n) div 12"
    by (simp add: month_index_def add.assoc)
  then show "1 \<le> (month_index t + n) div 12 \<Longrightarrow> (month_index t + n) div 12 \<le> 9999 \<Longrightarrow> \<exists>u. add_months t n = Inr u"
    by (simp add: add_months_def Let_def)
qed

lemma add_months_0: "valid_datetime t \<Longrightarrow> add_months t 0 = Inr t"
  by (auto simp: add_months_def Let_def valid_datetime_def valid_date_def)

lemma add_months_mono:
  "valid_datetime t \<Longrightarrow> add_months t m = Inr a \<Longrightarrow> add_months t n = Inr b \<Longrightarrow> m < n \<Longrightarrow> instant a < instant b"
  by (intro instant_month_less) (simp_all add: add_months_Inr)

end
