(* ===== verification/Billing_Period.thy ===== *)
theory Billing_Period
  imports Calendar Py_Decimal
begin

text \<open>
  Billing windows and proration (services/billing/period.py, services/billing/proration.py): pure
  functions of datetimes and prices.

  Both loops of \<open>resolve_period\<close> are recursions: the first steps \<open>k\<close> down to 0, the second up to
  \<open>_MAX_PERIODS_FORWARD\<close>. Day counts are taken from microseconds; Python divides a float number of
  seconds, which gives the same whole days for windows shorter than a century.
\<close>

section \<open>The window\<close>

record BillingPeriod =
  bw_start :: datetime
  bw_end :: datetime

definition is_degenerate :: "BillingPeriod \<Rightarrow> bool" where
  "is_degenerate w \<longleftrightarrow> instant (bw_end w) \<le> instant (bw_start w)"

definition MAX_PERIODS_FORWARD :: int where
  "MAX_PERIODS_FORWARD = 1200"

fun step_back :: "datetime \<Rightarrow> datetime \<Rightarrow> nat \<Rightarrow> nat py" where
  "step_back anchor now 0 = Inr 0"
| "step_back anchor now (Suc k) =
     py_bind (add_months anchor (int (Suc k))) (\<lambda>t.
       if instant now < instant t then step_back anchor now k else Inr (Suc k))"

function walk_forward :: "datetime \<Rightarrow> datetime \<Rightarrow> int \<Rightarrow> BillingPeriod \<Rightarrow> BillingPeriod py" where
  "walk_forward anchor now k w =
     (if instant (bw_end w) \<le> instant now \<and> k < MAX_PERIODS_FORWARD
      then py_bind (add_months anchor (k + 2)) (\<lambda>e.
             walk_forward anchor now (k + 1) \<lparr>bw_start = bw_end w, bw_end = e\<rparr>)
      else Inr w)"
  by pat_completeness auto

termination by (relation "measure (\<lambda>(anchor, now, k, w). nat (MAX_PERIODS_FORWARD - k))") auto

declare walk_forward.simps [simp del]

definition resolve_period :: "datetime \<Rightarrow> datetime \<Rightarrow> BillingPeriod py" where
  "resolve_period anchor now =
     (if instant now \<le> instant anchor
      then map_sum id (BillingPeriod.make anchor) (add_months anchor 1)
      else let delta = (year now - year anchor) * 12 + (month now - month anchor)
           in py_bind (step_back anchor now (nat (max 0 (min delta MAX_PERIODS_FORWARD)))) (\<lambda>k.
              py_bind (add_months anchor (int k)) (\<lambda>s.
              py_bind (add_months anchor (int k + 1)) (\<lambda>e.
                walk_forward anchor now (int k) \<lparr>bw_start = s, bw_end = e\<rparr>))))"

text \<open>\<open>current_period\<close>: a subscription gives its persisted window and its creation time.\<close>

definition current_period ::
    "datetime option \<Rightarrow> datetime option \<Rightarrow> datetime option \<Rightarrow> datetime \<Rightarrow> BillingPeriod py" where
  "current_period start finish created now =
     (case (start, finish) of
        (Some s, Some e) \<Rightarrow>
          if instant s \<le> instant now \<and> instant now < instant e then Inr \<lparr>bw_start = s, bw_end = e\<rparr>
          else resolve_period s now
      | _ \<Rightarrow> resolve_period (get_or start (get_or created now)) now)"

section \<open>Proration\<close>

record ProrationResult =
  pn_amount :: rat
  pn_unused :: int
  pn_period :: int
  pn_old :: rat
  pn_new :: rat

definition whole_days :: "datetime \<Rightarrow> datetime \<Rightarrow> int" where
  "whole_days a b =
     (let delta = instant b - instant a in if delta \<le> 0 then 0 else delta div day_micros)"

definition clamp_into :: "datetime \<Rightarrow> datetime \<Rightarrow> datetime \<Rightarrow> datetime" where
  "clamp_into s e t =
     (if instant t < instant s then s else if instant e < instant t then e else t)"

definition compute_proration ::
    "rat \<Rightarrow> rat \<Rightarrow> datetime \<Rightarrow> datetime \<Rightarrow> datetime \<Rightarrow> ProrationResult py" where
  "compute_proration old new s e change_at =
     (if instant e - instant s \<le> 0
      then Inr \<lparr>pn_amount = 0, pn_unused = 0, pn_period = 0, pn_old = old, pn_new = new\<rparr>
      else let period_days = whole_days s e;
               unused = min (whole_days (clamp_into s e change_at) e) period_days;
               delta = ctx_round (new - old)
           in if delta = 0 \<or> period_days = 0 \<or> unused = 0
              then Inr \<lparr>pn_amount = 0, pn_unused = unused, pn_period = period_days, pn_old = old, pn_new = new\<rparr>
              else (case quantize_half_up 2 (Fin (ctx_div (ctx_mult delta (of_int unused)) (of_int period_days))) of
                      Inr (Fin a) \<Rightarrow>
                        Inr \<lparr>pn_amount = a, pn_unused = unused, pn_period = period_days, pn_old = old, pn_new = new\<rparr>
                    | _ \<Rightarrow> Inl InvalidOperation))"

section \<open>Rounding once\<close>

text \<open>
  A fraction of cents whose denominator is small is far from every half cent it does not lie on, so
  the rounding to 28 digits before the rounding to cents changes nothing.
\<close>

lemma half_up_after_ctx:
  assumes y: "y * 100 * of_int p = of_int n" and p: "0 < p" "p \<le> 10 ^ 7" and pos: "0 < y" and small: "y \<le> 10 ^ 17"
  shows "half_up (ctx_round y * 100) = half_up (y * 100)"
proof -
  define m where "m = \<lfloor>y * 100 + 1/2\<rfloor>"
  have m: "of_int m \<le> y * 100 + 1/2" "y * 100 + 1/2 < of_int m + 1" unfolding m_def by linarith+
  define lo where "lo = (of_int (2 * m - 1) / 200 :: rat)"
  define hi where "hi = (of_int (2 * m + 1) / 200 - 1 / 10 ^ 10 :: rat)"
  have lo: "lo \<le> y" using m(1) by (simp add: lo_def field_simps)
  have "lo = of_int (5 * (2 * m - 1)) / 10 ^ 3" by (simp add: lo_def field_simps)
  then have "has_scale 3 lo" by (simp only: has_scaleI)
  moreover have "\<bar>y\<bar> * 10 ^ 3 < 10 ^ 28" using pos small by simp
  ultimately have ge: "lo \<le> ctx_round y" using lo pos by (intro ctx_round_ge)
  have "(2 * of_int n :: rat) < (2 * of_int m + 1) * of_int p"
    using m(2) p(1) mult_strict_right_mono [of "2 * (y * 100)" "2 * of_int m + 1" "of_int p"] y
    by (simp add: algebra_simps)
  then have "of_int (2 * n) < (of_int ((2 * m + 1) * p) :: rat)" by simp
  then have "2 * n + 1 \<le> (2 * m + 1) * p" by (simp only: of_int_less_iff)
  then have "of_int (2 * n + 1) \<le> (of_int ((2 * m + 1) * p) :: rat)" by (simp only: of_int_le_iff)
  then have "2 * (y * 100 * of_int p) + 1 \<le> (2 * of_int m + 1) * of_int p" unfolding y by simp
  then have "2 * (y * 100) + 1 / of_int p \<le> 2 * of_int m + 1"
    using p(1) by (simp add: field_simps)
  moreover have "(of_int p :: rat) \<le> of_int (10 ^ 7)" using p(2) by (simp only: of_int_le_iff)
  then have "1 / 10 ^ 7 \<le> 1 / (of_int p :: rat)" using p(1) by (intro divide_left_mono) simp_all
  ultimately have hi: "y \<le> hi" by (simp add: hi_def field_simps)
  have "hi = of_int (50000000 * (2 * m + 1) - 1) / 10 ^ 10" by (simp add: hi_def field_simps)
  then have "has_scale 10 hi" by (simp only: has_scaleI)
  moreover have "hi \<le> y + 1" using m(1) by (simp add: hi_def field_simps)
  then have "\<bar>hi\<bar> * 10 ^ 10 < 10 ^ 28" using hi pos small by simp
  ultimately have le: "ctx_round y \<le> hi" using hi pos by (intro ctx_round_le)
  have "0 \<le> ctx_round y" using pos by (simp add: ctx_round_nonneg)
  moreover have "\<lfloor>ctx_round y * 100 + 1/2\<rfloor> = m"
    using ge le unfolding lo_def hi_def by (intro floor_unique) (simp_all add: field_simps)
  ultimately show ?thesis using pos by (simp add: half_up_def m_def)
qed

lemma round_half_up_after_ctx:
  assumes y: "y * 100 * of_int p = of_int n" and p: "0 < p" "p \<le> 10 ^ 7" and small: "\<bar>y\<bar> \<le> 10 ^ 17"
  shows "round_half_up 2 (ctx_round y) = round_half_up 2 y"
proof -
  consider "y = 0" | "0 < y" | "0 < - y" by linarith
  then show ?thesis
  proof cases
    case 1
    then show ?thesis by (simp add: ctx_round_def)
  next
    case 2
    then show ?thesis using half_up_after_ctx [OF y p] small by (simp add: round_half_up_def)
  next
    case 3
    have "- y * 100 * of_int p = of_int (- n)" using y by simp
    then have "round_half_up 2 (ctx_round (- y)) = round_half_up 2 (- y)"
      using half_up_after_ctx [of "- y" p "- n"] 3 p small by (simp add: round_half_up_def)
    then show ?thesis by (simp add: ctx_round_minus round_half_up_minus)
  qed
qed


lemma round_half_up_abs_le:
  assumes "has_scale s d" "\<bar>x\<bar> \<le> \<bar>d\<bar>"
  shows "\<bar>round_half_up s x\<bar> \<le> \<bar>d\<bar>"
proof -
  have sc: "has_scale s \<bar>d\<bar>" using assms(1) by (simp add: abs_if)
  have "round_half_up s x \<le> round_half_up s \<bar>d\<bar>" "round_half_up s (- \<bar>d\<bar>) \<le> round_half_up s x"
    using assms(2) by (auto intro!: round_half_up_mono)
  then show ?thesis using sc by simp
qed

section \<open>Days\<close>

lemma ordinal_bounds:
  assumes "valid_date d"
  shows "1 \<le> ordinal d" "ordinal d \<le> 10 ^ 7 - 1"
proof -
  have y: "1 \<le> year d" "year d \<le> 9999" and m: "month d \<in> {1..12}" and dd: "1 \<le> day d" "day d \<le> 31"
    using assms days_in_month_bounds(2) [of "year d" "month d"] by (auto simp: valid_date_def)
  have "0 \<le> days_before_month (year d) (month d)" "days_before_month (year d) (month d) \<le> 335"
    by (rule month_cases [OF m]; simp add: days_before_month_def)+
  moreover have "0 \<le> days_before_year (year d)" "days_before_year (year d) \<le> (year d - 1) * 367"
  proof -
    define n where "n = year d - 1"
    have "0 \<le> n div 4" "n div 4 \<le> n" "0 \<le> n div 400" "n div 400 \<le> n" "0 \<le> n div 100" "n div 100 \<le> n" "0 \<le> n"
      using y zdiv_mono2 [of n 1 4] zdiv_mono2 [of n 1 100] zdiv_mono2 [of n 1 400]
      by (simp_all add: n_def pos_imp_zdiv_nonneg_iff)
    then show "0 \<le> days_before_year (year d)" "days_before_year (year d) \<le> (year d - 1) * 367"
      by (simp_all add: days_before_year_def flip: n_def)
  qed
  ultimately show "1 \<le> ordinal d" "ordinal d \<le> 10 ^ 7 - 1" using y dd by (simp_all add: ordinal_def)
qed

lemma whole_days_nonneg: "0 \<le> whole_days a b"
  by (simp add: whole_days_def Let_def day_micros_def pos_imp_zdiv_nonneg_iff)

lemma whole_days_le: "instant b - instant a \<le> k * day_micros \<Longrightarrow> 0 \<le> k \<Longrightarrow> whole_days a b \<le> k"
  using zdiv_mono1 [of "instant b - instant a" "k * day_micros" day_micros]
  by (simp add: whole_days_def Let_def day_micros_def)

lemma whole_days_bound:
  assumes "valid_datetime a" "valid_datetime b"
  shows "whole_days a b \<le> 10 ^ 7"
proof (rule whole_days_le)
  have d: "valid_date a" "valid_date b" using assms by (simp_all add: valid_datetime_def)
  have "instant b \<le> (10 ^ 7 - 1) * day_micros + day_micros" "0 \<le> instant a"
    using assms ordinal_bounds(2) [OF d(2)] ordinal_bounds(1) [OF d(1)]
    by (simp_all add: instant_def valid_datetime_def day_micros_def)
  then show "instant b - instant a \<le> 10 ^ 7 * day_micros" by (simp add: day_micros_def)
qed simp

lemma whole_days_mono: "instant a \<le> instant b \<Longrightarrow> whole_days b e \<le> whole_days a e"
  using zdiv_mono1 [of "instant e - instant b" "instant e - instant a" day_micros]
  by (simp add: whole_days_def Let_def day_micros_def pos_imp_zdiv_nonneg_iff)

section \<open>Proration\<close>

definition prorated :: "ProrationResult \<Rightarrow> rat" where
  "prorated r = (pn_new r - pn_old r) * of_int (pn_unused r) / of_int (pn_period r)"

definition price :: "rat \<Rightarrow> bool" where
  "price x \<longleftrightarrow> has_scale 2 x \<and> 0 \<le> x \<and> x < 10 ^ 10"

lemma compute_proration_exact:
  assumes "price old" "price new" "valid_datetime s" "valid_datetime e"
  shows "\<exists>r. compute_proration old new s e c = Inr r \<and> pn_amount r = round_half_up 2 (prorated r)
    \<and> pn_old r = old \<and> pn_new r = new \<and> 0 \<le> pn_unused r \<and> pn_unused r \<le> pn_period r
    \<and> pn_period r = (if instant e \<le> instant s then 0 else whole_days s e)
    \<and> pn_unused r = (if instant e \<le> instant s then 0 else min (whole_days (clamp_into s e c) e) (whole_days s e))"
proof (cases "instant e \<le> instant s")
  case True
  then show ?thesis by (simp add: compute_proration_def prorated_def)
next
  case False
  define p u d where "p = whole_days s e" and "u = min (whole_days (clamp_into s e c) e) p" and "d = new - old"
  have p: "0 \<le> p" "p \<le> 10 ^ 7" using whole_days_bound [OF assms(3,4)] whole_days_nonneg by (simp_all add: p_def)
  have u: "0 \<le> u" "u \<le> p" using p(1) whole_days_nonneg by (simp_all add: u_def)
  have d: "has_scale 2 d" "\<bar>d\<bar> < 10 ^ 10" using assms(1,2) by (auto simp: d_def price_def has_scale_diff)
  have cd: "ctx_round d = d" by (rule ctx_round_exact [OF d(1)]) (use d(2) in simp)
  show ?thesis
  proof (cases "d = 0 \<or> p = 0 \<or> u = 0")
    case True
    then show ?thesis
      using False u by (auto simp: compute_proration_def Let_def cd prorated_def simp flip: p_def u_def d_def)
  next
    case nonzero: False
    then have p0: "0 < p" and "d \<noteq> 0" "u \<noteq> 0" using p(1) by auto
    obtain k where k: "d * 100 = of_int k" using d(1) by (auto simp: has_scale_def Ints_def)
    have "d * of_int u * 10 ^ 2 = of_int (k * u)" using k by simp
    then have du: "has_scale 2 (d * of_int u)" by (simp only: has_scale_def Ints_of_int)
    have b: "\<bar>d * of_int u\<bar> \<le> 10 ^ 10 * of_int p"
      using d(2) u by (simp add: abs_mult) (intro mult_mono; simp)
    also have "(10 ^ 10 * of_int p :: rat) \<le> 10 ^ 10 * of_int (10 ^ 7)"
      using p(2) by (intro mult_left_mono) (simp_all only: of_int_le_iff, simp)
    finally have b': "\<bar>d * of_int u\<bar> \<le> 10 ^ 17" by simp
    have cm: "ctx_mult d (of_int u) = d * of_int u"
      unfolding ctx_mult_def by (rule ctx_round_exact [OF du]) (use b' in simp)
    define y where "y = d * of_int u / of_int p"
    have y: "y * 100 * of_int p = of_int (k * u)" using p0 k by (simp add: y_def field_simps)
    have yb: "\<bar>y\<bar> \<le> 10 ^ 17"
    proof -
      have "\<bar>y\<bar> \<le> 10 ^ 10" using b p0 by (simp add: y_def abs_divide pos_divide_le_eq)
      then show ?thesis by simp
    qed
    have r: "round_half_up 2 (ctx_round y) = round_half_up 2 y" by (rule round_half_up_after_ctx [OF y p0 p(2) yb])
    have h: "\<bar>half_up (ctx_round y * 10 ^ 2)\<bar> < 10 ^ 28"
    proof -
      have "of_int (half_up (ctx_round y * 10 ^ 2)) = (of_int (half_up (y * 10 ^ 2)) :: rat)"
        using r by (simp add: round_half_up_def)
      then have "half_up (ctx_round y * 10 ^ 2) = half_up (y * 10 ^ 2)" by (simp only: of_int_eq_iff)
      moreover have "\<bar>half_up (y * 10 ^ 2)\<bar> \<le> 10 ^ (18 + 2)" by (rule half_up_scaled_lt) (use yb in simp)
      ultimately show ?thesis by simp
    qed
    have "compute_proration old new s e c =
        Inr \<lparr>pn_amount = round_half_up 2 y, pn_unused = u, pn_period = p, pn_old = old, pn_new = new\<rparr>"
      using False nonzero h
      by (simp add: compute_proration_def Let_def cd cm ctx_div_def quantize_half_up_def r flip: p_def u_def d_def y_def)
    then show ?thesis using False u by (simp add: prorated_def y_def d_def flip: p_def u_def)
  qed
qed

section \<open>The resolved window contains the instant asked for\<close>

lemma add_months_forward:
  assumes "valid_datetime t" "0 \<le> n" "month_index t + n < 120000"
  shows "\<exists>u. add_months t n = Inr u"
proof (rule add_months_ok)
  have "12 \<le> month_index t + n"
    using assms(1,2) by (simp add: month_index_def valid_datetime_def valid_date_def)
  then show "1 \<le> (month_index t + n) div 12" using zdiv_mono1 [of 12 "month_index t + n" 12] by simp
  show "(month_index t + n) div 12 \<le> 9999" using zdiv_mono1 [of "month_index t + n" 119999 12] assms(3) by simp
qed

lemma step_back_found:
  assumes "valid_datetime a" "valid_datetime now" "instant a < instant now"
    and d: "month_index now = month_index a + int d"
  shows "\<exists>k. step_back a now d = Inr k \<and> k \<le> d \<and> d \<le> k + 1 \<and>
    (\<forall>t. add_months a (int k) = Inr t \<longrightarrow> instant t \<le> instant now) \<and>
    (\<forall>t. add_months a (int k + 1) = Inr t \<longrightarrow> instant now < instant t)"
proof -
  have n: "month_index now < 120000" using assms(2) by (auto simp: month_index_def valid_datetime_def valid_date_def)
  have later: "instant now < instant t" if "add_months a i = Inr t" "int d < i" for i t
    using instant_month_less [OF assms(2), of t] add_months_Inr [OF assms(1) that(1)] that(2) d by simp
  have earlier: "instant t < instant now" if "add_months a i = Inr t" "i < int d" for i t
    using instant_month_less [of t now] add_months_Inr [OF assms(1) that(1)] that(2) d assms(2) by simp
  obtain t where t: "add_months a (int d) = Inr t"
    using add_months_forward [OF assms(1), of "int d"] n d by auto
  show ?thesis
  proof (cases "instant now < instant t")
    case False
    have "step_back a now d = Inr d" using False t by (cases d) simp_all
    then show ?thesis using False t later [of "int d + 1"] by (intro exI [of _ d]) auto
  next
    case True
    have "d \<noteq> 0" using True t add_months_0 [OF assms(1)] assms(3) by (cases d) auto
    then obtain j where j: "d = Suc j" by (cases d) auto
    have s: "step_back a now d = step_back a now j" using True t by (simp add: j)
    also have "\<dots> = Inr j"
    proof (cases j)
      case (Suc i)
      obtain u where u: "add_months a (int j) = Inr u"
        using add_months_forward [OF assms(1), of "int j"] n d j by auto
      then show ?thesis using earlier [of "int j" u] j Suc by simp
    qed simp
    finally show ?thesis using True t j earlier [of "int j"]
      by (intro exI [of _ j]) (auto intro: less_imp_le simp: add.commute)
  qed
qed

lemma walk_forward_stop: "instant now < instant (bw_end w) \<Longrightarrow> walk_forward a now k w = Inr w"
  by (subst walk_forward.simps) simp

lemma resolve_period_spec:
  assumes "valid_datetime a" "valid_datetime now" "year now < 9999" "year a < 9999"
    "month_index now \<le> month_index a + MAX_PERIODS_FORWARD"
  shows "\<exists>k w. resolve_period a now = Inr w \<and> add_months a (int k) = Inr (bw_start w)
    \<and> add_months a (int k + 1) = Inr (bw_end w)
    \<and> (if instant a < instant now then instant (bw_start w) \<le> instant now \<and> instant now < instant (bw_end w) else k = 0)"
proof (cases "instant a < instant now")
  case False
  have "month_index a + 1 < 120000" using assms(1,4) by (simp add: month_index_def valid_datetime_def valid_date_def)
  then obtain e where "add_months a 1 = Inr e" using add_months_forward [OF assms(1), of 1] by auto
  then show ?thesis using False add_months_0 [OF assms(1)]
    by (intro exI [of _ 0] exI [of _ "BillingPeriod.make a e"]) (simp add: resolve_period_def BillingPeriod.defs)
next
  case True
  have mle: "month_index a \<le> month_index now"
    using True instant_less_iff [OF assms(1,2)] by auto
  define d where "d = nat (month_index now - month_index a)"
  have d: "month_index now = month_index a + int d" using mle by (simp add: d_def)
  have delta: "(year now - year a) * 12 + (month now - month a) = month_index now - month_index a"
    by (simp add: month_index_def algebra_simps)
  have nd: "nat (max 0 (min (month_index now - month_index a) MAX_PERIODS_FORWARD)) = d"
    using assms(5) mle by (simp add: d_def)
  obtain k where k: "step_back a now d = Inr k" "k \<le> d" "d \<le> k + 1"
    "\<And>t. add_months a (int k) = Inr t \<Longrightarrow> instant t \<le> instant now"
    "\<And>t. add_months a (int k + 1) = Inr t \<Longrightarrow> instant now < instant t"
    using step_back_found [OF assms(1,2) True d] by auto
  have "month_index a + (int k + 1) < 120000"
    using k(2) d assms(2,3) by (simp add: month_index_def valid_datetime_def valid_date_def)
  then obtain s e where s: "add_months a (int k) = Inr s" and e: "add_months a (int k + 1) = Inr e"
    using add_months_forward [OF assms(1), of "int k"] add_months_forward [OF assms(1), of "int k + 1"] by auto
  have "resolve_period a now = Inr \<lparr>bw_start = s, bw_end = e\<rparr>"
    unfolding resolve_period_def Let_def delta nd using True k(1,5) s e by (simp add: walk_forward_stop)
  then show ?thesis using True k(4) [OF s] k(5) [OF e] s e by auto
qed

lemma current_period_spec:
  assumes "current_period start finish created now = Inr w" "valid_datetime now"
    "\<And>t. t \<in> set_option start \<union> set_option finish \<union> set_option created \<Longrightarrow> valid_datetime t"
  obtains (stored) "start = Some (bw_start w)" "finish = Some (bw_end w)" "instant (bw_start w) \<le> instant now"
      "instant now < instant (bw_end w)"
  | (resolved) a where "valid_datetime a" "resolve_period a now = Inr w" "a = get_or start (get_or created now)"
  using assms by (cases start; cases finish; cases created) (auto simp: current_period_def split: if_splits)


lemma add_months_later:
  assumes "valid_datetime a" "add_months a m = Inr s" "add_months a n = Inr e" "m < n"
  shows "instant s < instant e"
  by (rule add_months_mono [OF assms])

lemma current_period_window:
  assumes "\<And>t. t \<in> set_option start \<union> set_option finish \<union> set_option created \<union> {now} \<Longrightarrow>
      valid_datetime t \<and> year t < 9999 \<and> month_index now \<le> month_index t + MAX_PERIODS_FORWARD"
  shows "\<exists>w. current_period start finish created now = Inr w \<and> \<not> is_degenerate w
    \<and> valid_datetime (bw_start w) \<and> valid_datetime (bw_end w)
    \<and> (instant (get_or start (get_or created now)) \<le> instant now \<longrightarrow>
         instant (bw_start w) \<le> instant now \<and> instant now < instant (bw_end w))"
proof -
  define a where "a = get_or start (get_or created now)"
  have ok: "valid_datetime a \<and> year a < 9999 \<and> month_index now \<le> month_index a + MAX_PERIODS_FORWARD"
    unfolding a_def by (rule assms) (cases start; cases created; simp)
  have now: "valid_datetime now" "year now < 9999" using assms [of now] by simp_all
  obtain k w where w: "resolve_period a now = Inr w" "add_months a (int k) = Inr (bw_start w)"
    "add_months a (int k + 1) = Inr (bw_end w)"
    "if instant a < instant now then instant (bw_start w) \<le> instant now \<and> instant now < instant (bw_end w) else k = 0"
    using resolve_period_spec [of a now] ok now by auto
  have deg: "\<not> is_degenerate w"
    using add_months_later [OF _ w(2,3)] ok by (simp add: is_degenerate_def)
  have valid: "valid_datetime (bw_start w)" "valid_datetime (bw_end w)"
    using add_months_Inr(1) [OF _ w(2)] add_months_Inr(1) [OF _ w(3)] ok by auto
  have inside: "instant a \<le> instant now \<Longrightarrow> instant (bw_start w) \<le> instant now \<and> instant now < instant (bw_end w)"
    using w(2,4) add_months_0 [of a] ok deg by (cases "instant a < instant now") (auto simp: is_degenerate_def)
  show ?thesis
  proof (cases "\<exists>s e. start = Some s \<and> finish = Some e \<and> instant s \<le> instant now \<and> instant now < instant e")
    case True
    then obtain s e where se: "start = Some s" "finish = Some e" "instant s \<le> instant now" "instant now < instant e"
      by blast
    then show ?thesis using assms [of s] assms [of e]
      by (intro exI [of _ "\<lparr>bw_start = s, bw_end = e\<rparr>"]) (simp add: current_period_def is_degenerate_def)
  next
    case False
    then have "current_period start finish created now = resolve_period a now"
      by (auto simp: current_period_def a_def split: option.splits)
    then show ?thesis using w(1) deg valid inside by (auto simp: a_def)
  qed
qed

text \<open>
  a subscription's window, stored or resolved from its anchor (the stored start, else the
  creation time, else now), is a month from its anchor on, never degenerate, and contains now as soon
  as the anchor is not in the future.
\<close>

theorem current_period_contains_now:
  assumes "\<And>t. t \<in> set_option start \<union> set_option finish \<union> set_option created \<union> {now} \<Longrightarrow>
      valid_datetime t \<and> year t < 9999 \<and> month_index now \<le> month_index t + MAX_PERIODS_FORWARD"
  shows "\<exists>w. current_period start finish created now = Inr w \<and> \<not> is_degenerate w
    \<and> valid_datetime (bw_start w) \<and> valid_datetime (bw_end w)
    \<and> (instant (get_or start (get_or created now)) \<le> instant now \<longrightarrow>
         instant (bw_start w) \<le> instant now \<and> instant now < instant (bw_end w))"
  by (rule current_period_window [OF assms])

definition sample_moment :: "int \<Rightarrow> int \<Rightarrow> int \<Rightarrow> datetime" where
  "sample_moment y m d = \<lparr>year = y, month = m, day = d, micros = 0\<rparr>"

theorem current_period_witness:
  "\<exists>w. current_period (Some (sample_moment 2026 1 31)) None None (sample_moment 2026 3 30) = Inr w
     \<and> instant (bw_start w) \<le> instant (sample_moment 2026 3 30) \<and> instant (sample_moment 2026 3 30) < instant (bw_end w)"
proof -
  have "valid_datetime t \<and> year t < 9999 \<and> month_index (sample_moment 2026 3 30) \<le> month_index t + MAX_PERIODS_FORWARD"
    if "t \<in> {sample_moment 2026 1 31, sample_moment 2026 3 30}" for t
    using that by (auto simp: sample_moment_def valid_datetime_def valid_date_def days_in_month_def month_index_def
        MAX_PERIODS_FORWARD_def day_micros_def)
  moreover have "instant (sample_moment 2026 1 31) \<le> instant (sample_moment 2026 3 30)"
    by (simp add: instant_def ordinal_def days_before_year_def days_before_month_def is_leap_def sample_moment_def day_micros_def)
  ultimately show ?thesis
    using current_period_contains_now [of "Some (sample_moment 2026 1 31)" None None "sample_moment 2026 3 30"] by auto
qed

text \<open>
  persisting the resolved window moves the billing day: a subscription that started on 31
  January and was looked at in March (which stores the window from 28 February to 31 March) is, in
  April, in a window from 28 March, inside the month the stored window already covers.
\<close>

theorem billing_day_drifts:
  "current_period (Some (sample_moment 2026 1 31)) (Some (sample_moment 2026 2 28)) None (sample_moment 2026 3 1)
     = Inr \<lparr>bw_start = sample_moment 2026 2 28, bw_end = sample_moment 2026 3 31\<rparr>
   \<and> current_period (Some (sample_moment 2026 2 28)) (Some (sample_moment 2026 3 31)) None (sample_moment 2026 4 1)
     = Inr \<lparr>bw_start = sample_moment 2026 3 28, bw_end = sample_moment 2026 4 28\<rparr>"
proof -
  note ev = current_period_def sample_moment_def instant_def ordinal_def days_before_year_def days_before_month_def
    is_leap_def day_micros_def resolve_period_def Let_def MAX_PERIODS_FORWARD_def add_months_def days_in_month_def numeral_2_eq_2 numeral_1_eq_Suc_0
  show ?thesis
    by (intro conjI) (simp_all add: ev walk_forward_stop)
qed

lemma compute_proration_swapped:
  assumes "price old" "price new" "valid_datetime s" "valid_datetime e" "compute_proration old new s e c = Inr r"
  shows "\<exists>r'. compute_proration new old s e c = Inr r' \<and> pn_amount r' = - pn_amount r
    \<and> pn_unused r' = pn_unused r \<and> pn_period r' = pn_period r"
proof -
  have r: "pn_amount r = round_half_up 2 (prorated r)" "pn_old r = old" "pn_new r = new"
    "pn_period r = (if instant e \<le> instant s then 0 else whole_days s e)"
    "pn_unused r = (if instant e \<le> instant s then 0 else min (whole_days (clamp_into s e c) e) (whole_days s e))"
    using compute_proration_exact [OF assms(1-4), of c] assms(5) by auto
  obtain r' where r': "compute_proration new old s e c = Inr r'" "pn_amount r' = round_half_up 2 (prorated r')"
    "pn_old r' = new" "pn_new r' = old"
    "pn_period r' = (if instant e \<le> instant s then 0 else whole_days s e)"
    "pn_unused r' = (if instant e \<le> instant s then 0 else min (whole_days (clamp_into s e c) e) (whole_days s e))"
    using compute_proration_exact [OF assms(2,1,3,4), of c] by blast
  have same: "pn_unused r' = pn_unused r" "pn_period r' = pn_period r" using r(4,5) r'(5,6) by simp_all
  have "prorated r' = - prorated r" by (simp add: prorated_def r(2,3) r'(3,4) same) (simp add: left_diff_distrib diff_divide_distrib)
  then have "pn_amount r' = - pn_amount r" by (simp add: r(1) r'(2) round_half_up_minus)
  then show ?thesis using r'(1) same by blast
qed

lemma prorated_abs_le:
  assumes "0 \<le> pn_unused r" "pn_unused r \<le> pn_period r"
  shows "\<bar>prorated r\<bar> \<le> \<bar>pn_new r - pn_old r\<bar>"
proof (cases "pn_period r = 0")
  case False
  then have "0 < pn_period r" using assms by simp
  then show ?thesis
    using assms mult_left_mono [of "of_int (pn_unused r)" "of_int (pn_period r)" "\<bar>pn_new r - pn_old r\<bar>"]
    by (simp add: prorated_def abs_mult abs_divide pos_divide_le_eq)
qed (simp add: prorated_def)

text \<open>
  C40: a proration is the exact fraction of the price difference, rounded half up to cents once:
  it never raises, is at most the difference, and charging the other way round is its negation.
\<close>

theorem proration_rounds_once:
  assumes "price old" "price new" "valid_datetime s" "valid_datetime e"
  shows "\<exists>r r'. compute_proration old new s e c = Inr r \<and> compute_proration new old s e c = Inr r'
    \<and> pn_amount r = round_half_up 2 ((new - old) * of_int (pn_unused r) / of_int (pn_period r))
    \<and> 0 \<le> pn_unused r \<and> pn_unused r \<le> pn_period r \<and> \<bar>pn_amount r\<bar> \<le> \<bar>new - old\<bar>
    \<and> pn_amount r' = - pn_amount r \<and> pn_unused r' = pn_unused r"
proof -
  obtain r where r: "compute_proration old new s e c = Inr r" "pn_amount r = round_half_up 2 (prorated r)"
    "pn_old r = old" "pn_new r = new" "0 \<le> pn_unused r" "pn_unused r \<le> pn_period r"
    using compute_proration_exact [OF assms, of c] by blast
  have "has_scale 2 (new - old)" using assms(1,2) by (simp add: price_def has_scale_diff)
  then have "\<bar>pn_amount r\<bar> \<le> \<bar>new - old\<bar>"
    unfolding r(2) using prorated_abs_le [OF r(5,6)] r(3,4) by (intro round_half_up_abs_le) simp_all
  then show ?thesis
    using r compute_proration_swapped [OF assms r(1)] by (auto simp: prorated_def)
qed

theorem proration_witness:
  "\<exists>r. compute_proration 49 199 (sample_moment 2026 1 31) (sample_moment 2026 2 28) (sample_moment 2026 2 10) = Inr r
     \<and> \<bar>pn_amount r\<bar> \<le> 150"
proof -
  have v: "valid_datetime (sample_moment 2026 1 31)" "valid_datetime (sample_moment 2026 2 28)"
    by (simp_all add: sample_moment_def valid_datetime_def valid_date_def days_in_month_def day_micros_def)
  have p: "price 49" "price 199" using has_scale_of_int [of 2 49] has_scale_of_int [of 2 199] by (simp_all add: price_def)
  show ?thesis using proration_rounds_once [OF p v, of "sample_moment 2026 2 10"] by auto
qed

end
