(* ===== verification/Billing.thy ===== *)
theory Billing
  imports Billing_Period Workflow_Engine
begin

text \<open>
  Plans and subscriptions of the control plane (models/billing.py, services/billing/, the inbound
  webhook of api/billing_webhook.py).

  A write that the two unique indexes of \<open>subscriptions\<close> refuse raises \<open>IntegrityError\<close> and is
  rolled back. The trail is another database: an audit row written before such a commit stays, so an
  operation returns the database it leaves beside its result or exception. The billing provider, the
  reachability of a tenant's trail and the clock are fields of \<open>billing_env\<close>.
\<close>

section \<open>Rows and settings\<close>

definition SUBSCRIPTION_STATUSES :: "string list" where
  "SUBSCRIPTION_STATUSES = [''trialing'', ''active'', ''past_due'', ''canceled'']"

record plan =
  bp_id :: uuid
  bp_code :: string
  bp_name :: string
  bp_price :: rat
  bp_currency :: string
  bp_seats :: jdict
  bp_usage :: jdict
  bp_entitlements :: jdict
  bp_trial_days :: int
  bp_active :: bool

record subscription =
  sb_id :: uuid
  sb_org :: uuid
  sb_plan :: uuid
  sb_status :: string
  sb_start :: "datetime option"
  sb_end :: "datetime option"
  sb_trial_end :: "datetime option"
  sb_external :: "string option"
  sb_created :: datetime

record organization =
  og_id :: uuid
  og_name :: string
  og_settings :: json
  og_db_name :: string

record billing_db =
  bl_plans :: "plan list"
  bl_subs :: "subscription list"
  bl_orgs :: "organization list"
  bl_emails :: "(uuid \<times> string) list"
  bl_audit :: "audit_row list"

record billing_env =
  be_now :: datetime
  be_fresh_sub :: uuid
  be_fresh_plan :: "string \<Rightarrow> uuid"
  be_audit_key :: uuid
  be_actor :: "uuid option"
  be_provider :: string
  be_grace_days :: int
  be_customer :: "json \<Rightarrow> uuid \<Rightarrow> string \<Rightarrow> string option \<Rightarrow> string py"
  be_price :: "json \<Rightarrow> string \<Rightarrow> rat \<Rightarrow> string \<Rightarrow> string py"
  be_trail_down :: "uuid \<Rightarrow> bool"
  be_money_text :: "rat \<Rightarrow> string"

definition live :: "subscription \<Rightarrow> bool" where
  "live s \<longleftrightarrow> sb_status s \<noteq> ''canceled''"

text \<open>\<open>uq_subscription_org_plan\<close> and \<open>uq_subscription_one_live_per_org\<close>.\<close>

definition unique_indexes :: "subscription list \<Rightarrow> bool" where
  "unique_indexes rows \<longleftrightarrow>
     distinct (map (\<lambda>s. (sb_org s, sb_plan s)) rows) \<and> distinct (map sb_org (filter live rows))"

definition commit_subs :: "subscription list \<Rightarrow> billing_db \<Rightarrow> billing_db py" where
  "commit_subs rows db = (if unique_indexes rows then Inr (db\<lparr>bl_subs := rows\<rparr>) else Inl IntegrityError)"

definition put_sub :: "subscription \<Rightarrow> subscription list \<Rightarrow> subscription list" where
  "put_sub s = update_where (\<lambda>r. sb_id r = sb_id s) (\<lambda>_. s)"

section \<open>The audit trail\<close>

definition trail_row :: "billing_env \<Rightarrow> uuid \<Rightarrow> uuid option \<Rightarrow> string \<Rightarrow> uuid \<Rightarrow> jdict \<Rightarrow> audit_row" where
  "trail_row env org actor action entity details =
     \<lparr>au_correlation = be_audit_key env, au_org = org, au_actor = actor, au_action = action,
      au_entity_type = ''auth'', au_entity_id = entity, au_details = details\<rparr>"

text \<open>The tenant database of an organization, if it has one and it answers.\<close>

definition trail_open :: "billing_env \<Rightarrow> billing_db \<Rightarrow> uuid \<Rightarrow> bool" where
  "trail_open env db org \<longleftrightarrow>
     (\<exists>g \<in> set (bl_orgs db). og_id g = org \<and> og_db_name g \<noteq> []) \<and> \<not> be_trail_down env org"

definition dispatch_auth_audit ::
    "billing_env \<Rightarrow> billing_db \<Rightarrow> uuid \<Rightarrow> uuid option \<Rightarrow> string \<Rightarrow> uuid \<Rightarrow> jdict \<Rightarrow> billing_db" where
  "dispatch_auth_audit env db org actor action entity details =
     (if trail_open env db org
      then db\<lparr>bl_audit := bl_audit db @ [trail_row env org actor action entity details]\<rparr> else db)"

section \<open>The plan catalog\<close>

record plan_spec =
  ps_code :: string
  ps_name :: string
  ps_price :: rat
  ps_entitlements :: jdict
  ps_trial_days :: int

definition DEFAULT_PLAN_CATALOG :: "plan_spec list" where
  "DEFAULT_PLAN_CATALOG =
     [\<lparr>ps_code = ''free'', ps_name = ''Free'', ps_price = 0, ps_entitlements = [], ps_trial_days = 0\<rparr>,
      \<lparr>ps_code = ''growth'', ps_name = ''Growth'', ps_price = 49,
       ps_entitlements = [(''public_api'', JBool True)], ps_trial_days = 14\<rparr>,
      \<lparr>ps_code = ''scale'', ps_name = ''Scale'', ps_price = 199,
       ps_entitlements = [(''public_api'', JBool True)], ps_trial_days = 14\<rparr>]"

definition plan_of_spec :: "billing_env \<Rightarrow> plan_spec \<Rightarrow> plan" where
  "plan_of_spec env sp =
     \<lparr>bp_id = be_fresh_plan env (ps_code sp), bp_code = ps_code sp, bp_name = ps_name sp, bp_price = ps_price sp,
      bp_currency = ''USD'', bp_seats = [], bp_usage = [], bp_entitlements = ps_entitlements sp,
      bp_trial_days = ps_trial_days sp, bp_active = True\<rparr>"

fun fill_catalog :: "billing_env \<Rightarrow> plan_spec list \<Rightarrow> plan list \<Rightarrow> plan list" where
  "fill_catalog env [] ps = ps"
| "fill_catalog env (sp # specs) ps =
     fill_catalog env specs (if ps_code sp \<in> bp_code ` set ps then ps else ps @ [plan_of_spec env sp])"

text \<open>The plans by code are returned in the order found and made; the dictionary is their codes.\<close>

definition ensure_plan_catalog :: "billing_env \<Rightarrow> billing_db \<Rightarrow> (string \<times> plan) list \<times> billing_db" where
  "ensure_plan_catalog env db =
     (let ps = fill_catalog env DEFAULT_PLAN_CATALOG (bl_plans db);
          codes = map ps_code DEFAULT_PLAN_CATALOG
      in (map (\<lambda>p. (bp_code p, p)) (filter (\<lambda>p. bp_code p \<in> set codes) ps), db\<lparr>bl_plans := ps\<rparr>))"

definition clear_stale_canceled_subscription :: "uuid \<Rightarrow> uuid \<Rightarrow> subscription list \<Rightarrow> subscription list" where
  "clear_stale_canceled_subscription org plan =
     delete_where (\<lambda>s. sb_org s = org \<and> sb_plan s = plan \<and> sb_status s = ''canceled'')"

fun scalar_one_or_none :: "'a list \<Rightarrow> 'a option py" where
  "scalar_one_or_none [] = Inr None"
| "scalar_one_or_none [x] = Inr (Some x)"
| "scalar_one_or_none (x # y # xs) = Inl MultipleResultsFound"

definition ensure_subscription ::
    "billing_env \<Rightarrow> billing_db \<Rightarrow> uuid \<Rightarrow> string \<Rightarrow> (subscription option \<times> billing_db) py" where
  "ensure_subscription env db org wanted =
     py_bind (scalar_one_or_none (filter (\<lambda>s. sb_org s = org \<and> live s) (bl_subs db))) (\<lambda>existing.
     case existing of
       Some s \<Rightarrow> Inr (Some s, db)
     | None \<Rightarrow>
         py_bind (scalar_one_or_none (filter (\<lambda>p. bp_code p = wanted) (bl_plans db))) (\<lambda>found.
         case found of
           None \<Rightarrow> Inr (None, db)
         | Some p \<Rightarrow>
             py_bind (add_months (be_now env) 1) (\<lambda>e.
             let s = \<lparr>sb_id = be_fresh_sub env, sb_org = org, sb_plan = bp_id p, sb_status = ''active'',
                      sb_start = Some (be_now env), sb_end = Some e, sb_trial_end = None, sb_external = None,
                      sb_created = be_now env\<rparr>
             in py_bind (commit_subs (clear_stale_canceled_subscription org (bp_id p) (bl_subs db) @ [s]) db) (\<lambda>db'.
                  Inr (Some s, db')))))"

section \<open>Entitlements\<close>

definition newest :: "subscription list \<Rightarrow> subscription option" where
  "newest rows = (case sort_key (\<lambda>s. - instant (sb_created s)) rows of [] \<Rightarrow> None | s # _ \<Rightarrow> Some s)"

definition plan_by_id :: "billing_db \<Rightarrow> uuid \<Rightarrow> plan option" where
  "plan_by_id db i = find (\<lambda>p. bp_id p = i) (bl_plans db)"

definition get_active_subscription :: "billing_db \<Rightarrow> uuid \<Rightarrow> (subscription \<times> plan) option" where
  "get_active_subscription db org =
     (case newest (filter (\<lambda>s. sb_org s = org \<and> live s \<and> plan_by_id db (sb_plan s) \<noteq> None) (bl_subs db)) of
        None \<Rightarrow> None
      | Some s \<Rightarrow> map_option (Pair s) (plan_by_id db (sb_plan s)))"

definition get_entitlements :: "billing_db \<Rightarrow> uuid \<Rightarrow> jdict" where
  "get_entitlements db org =
     (case get_active_subscription db org of None \<Rightarrow> [] | Some (_, p) \<Rightarrow> bp_entitlements p)"

definition has_entitlement :: "jdict \<Rightarrow> string \<Rightarrow> bool" where
  "has_entitlement d feature = truthy (jget d feature)"

section \<open>Provider ids\<close>

text \<open>\<open>(org.settings or {}).get("billing") or {}\<close>.\<close>

definition billing_block :: "json \<Rightarrow> json py" where
  "billing_block settings =
     py_bind (or_empty_get settings ''billing'') (\<lambda>b. Inr (if truthy b then b else JObj []))"

definition resolve_provider :: "billing_env \<Rightarrow> organization \<Rightarrow> json py" where
  "resolve_provider env og =
     py_bind (billing_block (og_settings og)) (\<lambda>b.
     py_bind (dict_get b ''provider'') (\<lambda>p. Inr (if truthy p then p else JStr (be_provider env))))"

text \<open>\<open>dict(x or {})\<close>; a list of pairs, which \<open>dict\<close> would take, is outside the model.\<close>

definition dict_of :: "json \<Rightarrow> jdict py" where
  "dict_of v =
     (if \<not> truthy v then Inr []
      else case v of JObj d \<Rightarrow> Inr d | JStr _ \<Rightarrow> Inl ValueError | JList _ \<Rightarrow> Inl ValueError | _ \<Rightarrow> Inl TypeError)"

definition first_admin_email :: "billing_db \<Rightarrow> uuid \<Rightarrow> string option" where
  "first_admin_email db org = map_option snd (find (\<lambda>(u, e). u = org) (bl_emails db))"

definition put_org :: "organization \<Rightarrow> billing_db \<Rightarrow> billing_db" where
  "put_org og db = db\<lparr>bl_orgs := update_where (\<lambda>r. og_id r = og_id og) (\<lambda>_. og) (bl_orgs db)\<rparr>"

definition provision_org_billing ::
    "billing_env \<Rightarrow> billing_db \<Rightarrow> organization \<Rightarrow> plan \<Rightarrow> ((json \<times> json) \<times> billing_db) py" where
  "provision_org_billing env db og p =
     py_bind (resolve_provider env og) (\<lambda>provider.
     py_bind (dict_of (og_settings og)) (\<lambda>settings.
     py_bind (dict_of (jget settings ''billing'')) (\<lambda>billing.
     py_bind (dict_of (jget billing ''plan_price_ids'')) (\<lambda>prices.
     let had_customer = truthy (jget billing ''stripe_customer_id'');
         had_price = truthy (jget prices (bp_code p))
     in py_bind (if had_customer then Inr (jget billing ''stripe_customer_id'')
                 else map_sum id JStr (be_customer env provider (og_id og) (og_name og) (first_admin_email db (og_id og))))
          (\<lambda>customer.
        py_bind (if had_price then Inr (jget prices (bp_code p))
                 else map_sum id JStr (be_price env provider (bp_code p) (bp_price p) (bp_currency p))) (\<lambda>price_id.
        let billing1 = (if had_customer then billing else AList.update ''stripe_customer_id'' customer billing);
            billing2 = (if had_price then billing1
                        else AList.update ''plan_price_ids'' (JObj (AList.update (bp_code p) price_id prices)) billing1)
        in Inr ((customer, price_id),
                if had_customer \<and> had_price then db
                else put_org (og\<lparr>og_settings := JObj (AList.update ''billing'' (JObj billing2) settings)\<rparr>) db)))))))"

section \<open>Changing the plan\<close>

record PlanChangeResult =
  pc_changed :: bool
  pc_old :: string
  pc_new :: string
  pc_proration :: ProrationResult
  pc_reason :: "string option"

definition zero_proration :: "rat \<Rightarrow> rat \<Rightarrow> ProrationResult" where
  "zero_proration old new = \<lparr>pn_amount = 0, pn_unused = 0, pn_period = 0, pn_old = old, pn_new = new\<rparr>"

definition already_on_plan :: "plan \<Rightarrow> plan \<Rightarrow> PlanChangeResult" where
  "already_on_plan current new =
     \<lparr>pc_changed = False, pc_old = bp_code current, pc_new = bp_code new,
      pc_proration = zero_proration (bp_price current) (bp_price new), pc_reason = Some ''already_on_plan''\<rparr>"

definition get_active_subscription_for_update :: "billing_db \<Rightarrow> uuid \<Rightarrow> (subscription \<times> plan) option" where
  "get_active_subscription_for_update db org =
     (case newest (filter (\<lambda>s. sb_org s = org \<and> live s) (bl_subs db)) of
        None \<Rightarrow> None
      | Some s \<Rightarrow> map_option (Pair s) (plan_by_id db (sb_plan s)))"

definition plan_changed_details :: "billing_env \<Rightarrow> plan \<Rightarrow> plan \<Rightarrow> ProrationResult \<Rightarrow> jdict" where
  "plan_changed_details env current new pr =
     [(''from_plan'', JStr (bp_code current)), (''to_plan'', JStr (bp_code new)),
      (''proration_amount'', JStr (be_money_text env (pn_amount pr))), (''unused_days'', JInt (pn_unused pr)),
      (''period_days'', JInt (pn_period pr))]"

text \<open>From the row lock to the commit. The target plan was read before.\<close>

definition change_plan_locked ::
    "billing_env \<Rightarrow> billing_db \<Rightarrow> uuid \<Rightarrow> plan \<Rightarrow> PlanChangeResult py \<times> billing_db" where
  "change_plan_locked env db org new =
     (case get_active_subscription_for_update db org of
        None \<Rightarrow> (Inl (PlanChangeError ''no_live_subscription''), db)
      | Some (s, current) \<Rightarrow>
          if bp_id current = bp_id new then (Inr (already_on_plan current new), db)
          else case current_period (sb_start s) (sb_end s) (Some (sb_created s)) (be_now env) of
            Inl e \<Rightarrow> (Inl e, db)
          | Inr w \<Rightarrow>
              (case compute_proration (bp_price current) (bp_price new) (bw_start w) (bw_end w) (be_now env) of
                 Inl e \<Rightarrow> (Inl e, db)
               | Inr pr \<Rightarrow>
                   let moved = s\<lparr>sb_plan := bp_id new, sb_start := Some (bw_start w), sb_end := Some (bw_end w)\<rparr>;
                       db1 = dispatch_auth_audit env db org (be_actor env) ''billing.plan_changed'' (sb_id s)
                               (plan_changed_details env current new pr)
                   in case commit_subs (put_sub moved (clear_stale_canceled_subscription org (bp_id new) (bl_subs db))) db1 of
                        Inl e \<Rightarrow> (Inl e, db1)
                      | Inr db2 \<Rightarrow>
                          (Inr \<lparr>pc_changed = True, pc_old = bp_code current, pc_new = bp_code new,
                                pc_proration = pr, pc_reason = None\<rparr>, db2)))"

definition change_plan ::
    "billing_env \<Rightarrow> billing_db \<Rightarrow> organization \<Rightarrow> string \<Rightarrow> PlanChangeResult py \<times> billing_db" where
  "change_plan env db og wanted =
     (case scalar_one_or_none (filter (\<lambda>p. bp_code p = wanted \<and> bp_active p) (bl_plans db)) of
        Inl e \<Rightarrow> (Inl e, db)
      | Inr None \<Rightarrow> (Inl (PlanChangeError ''unknown_plan''), db)
      | Inr (Some new) \<Rightarrow>
          (case get_active_subscription db (og_id og) of
             None \<Rightarrow> (Inl (PlanChangeError ''no_live_subscription''), db)
           | Some (_, peek) \<Rightarrow>
               if bp_id peek = bp_id new then (Inr (already_on_plan peek new), db)
               else case provision_org_billing env db og new of
                 Inl e \<Rightarrow> (Inl e, db)
               | Inr (_, db1) \<Rightarrow> change_plan_locked env db1 (og_id og) new))"

section \<open>Dunning\<close>

record DunningResult =
  dn_scanned :: nat
  dn_canceled :: nat
  dn_failures :: nat

definition dunning_due :: "billing_env \<Rightarrow> subscription \<Rightarrow> bool" where
  "dunning_due env s \<longleftrightarrow>
     sb_status s = ''past_due''
     \<and> (case sb_end s of None \<Rightarrow> True | Some e \<Rightarrow> instant e \<le> instant (be_now env) - be_grace_days env * day_micros)"

text \<open>\<open>_record_cancellation_audit\<close>: raises when there is no trail to write to.\<close>

definition record_cancellation_audit :: "billing_env \<Rightarrow> billing_db \<Rightarrow> subscription \<Rightarrow> billing_db py" where
  "record_cancellation_audit env db s =
     (if trail_open env db (sb_org s)
      then Inr (db\<lparr>bl_audit := bl_audit db @
             [trail_row env (sb_org s) None ''billing.subscription_canceled'' (sb_id s)
                [(''from_status'', JStr (sb_status s)), (''to_status'', JStr ''canceled''),
                 (''reason'', JStr ''dunning_grace_expired''), (''grace_days'', JInt (be_grace_days env))]]\<rparr>)
      else Inl LookupError)"

definition dunning_one :: "billing_env \<Rightarrow> uuid \<Rightarrow> DunningResult \<times> billing_db \<Rightarrow> DunningResult \<times> billing_db" where
  "dunning_one env i = (\<lambda>(res, db).
     let res = res\<lparr>dn_scanned := dn_scanned res + 1\<rparr>
     in case find (\<lambda>s. sb_id s = i) (bl_subs db) of
          None \<Rightarrow> (res, db)
        | Some s \<Rightarrow>
            if \<not> dunning_due env s then (res, db)
            else case record_cancellation_audit env db s of
              Inl _ \<Rightarrow> (res\<lparr>dn_failures := dn_failures res + 1\<rparr>, db)
            | Inr db1 \<Rightarrow>
                (case commit_subs (put_sub (s\<lparr>sb_status := ''canceled''\<rparr>) (bl_subs db)) db1 of
                   Inl _ \<Rightarrow> (res\<lparr>dn_failures := dn_failures res + 1\<rparr>, db1)
                 | Inr db2 \<Rightarrow> (res\<lparr>dn_canceled := dn_canceled res + 1\<rparr>, db2)))"

definition run_dunning_once :: "billing_env \<Rightarrow> billing_db \<Rightarrow> DunningResult \<times> billing_db" where
  "run_dunning_once env db =
     fold (dunning_one env) (sort (map sb_id (filter (\<lambda>s. sb_status s = ''past_due'') (bl_subs db))))
       (\<lparr>dn_scanned = 0, dn_canceled = 0, dn_failures = 0\<rparr>, db)"

section \<open>Provider events\<close>

record BillingWebhookEvent =
  we_id :: string
  we_type :: string
  we_external :: "string option"
  we_status :: "string option"

record WebhookApplyResult =
  wa_applied :: bool
  wa_reason :: "string option"
  wa_status :: "string option"

definition dropped :: "string \<Rightarrow> WebhookApplyResult" where
  "dropped r = \<lparr>wa_applied = False, wa_reason = Some r, wa_status = None\<rparr>"

definition apply_billing_event ::
    "billing_env \<Rightarrow> billing_db \<Rightarrow> BillingWebhookEvent \<Rightarrow> WebhookApplyResult py \<times> billing_db" where
  "apply_billing_event env db ev =
     (if get_or (we_external ev) [] = [] then (Inr (dropped ''no_subscription_reference''), db)
      else if get_or (we_status ev) [] = [] then (Inr (dropped ''no_mapped_status''), db)
      else if get_or (we_status ev) [] \<notin> set SUBSCRIPTION_STATUSES then (Inr (dropped ''unknown_status''), db)
      else case scalar_one_or_none (filter (\<lambda>s. sb_external s = we_external ev) (bl_subs db)) of
        Inl e \<Rightarrow> (Inl e, db)
      | Inr None \<Rightarrow> (Inr (dropped ''unknown_subscription''), db)
      | Inr (Some s) \<Rightarrow>
          let new = get_or (we_status ev) []
          in if sb_status s = new
             then (Inr \<lparr>wa_applied = False, wa_reason = Some ''already_in_status'', wa_status = Some new\<rparr>, db)
             else let db1 = dispatch_auth_audit env db (sb_org s) None (''billing.subscription_'' @ new) (sb_id s)
                              [(''from_status'', JStr (sb_status s)), (''to_status'', JStr new),
                               (''event_id'', JStr (we_id ev)), (''event_type'', JStr (we_type ev))]
                  in case commit_subs (put_sub (s\<lparr>sb_status := new\<rparr>) (bl_subs db)) db1 of
                       Inl e \<Rightarrow> (Inl e, db1)
                     | Inr db2 \<Rightarrow> (Inr \<lparr>wa_applied = True, wa_reason = None, wa_status = Some new\<rparr>, db2))"

text \<open>
  The route: the switch, the size cap, the provider's name and the adapter it resolved to (named by
  \<open>resolved\<close>, which parses the signed body), the claim of the event id, and the event. Every refusal
  answers 204. \<open>declared\<close> is the content-length header: absent, not a number, or a number.
\<close>

definition MAX_WEBHOOK_BYTES :: int where
  "MAX_WEBHOOK_BYTES = 512 * 1024"

definition oversized :: "int option option \<Rightarrow> int \<Rightarrow> bool" where
  "oversized declared received \<longleftrightarrow>
     (case declared of None \<Rightarrow> False | Some None \<Rightarrow> True | Some (Some n) \<Rightarrow> MAX_WEBHOOK_BYTES < n)
     \<or> MAX_WEBHOOK_BYTES < received"

definition billing_webhook ::
    "billing_env \<Rightarrow> bool \<Rightarrow> string \<Rightarrow> BillingWebhookEvent option \<Rightarrow> string \<Rightarrow> int option option \<Rightarrow> int
       \<Rightarrow> string set \<times> billing_db \<Rightarrow> unit py \<times> string set \<times> billing_db" where
  "billing_webhook env enabled resolved parsed provider declared received = (\<lambda>(claimed, db).
     if \<not> enabled \<or> oversized declared received \<or> provider \<noteq> be_provider env \<or> resolved \<noteq> provider
     then (Inr (), claimed, db)
     else case parsed of
       None \<Rightarrow> (Inr (), claimed, db)
     | Some ev \<Rightarrow>
         if we_id ev \<noteq> [] \<and> we_id ev \<in> claimed then (Inr (), claimed, db)
         else (case apply_billing_event env db ev of
                 (Inl e, db') \<Rightarrow> (Inl e, claimed, db')
               | (Inr _, db') \<Rightarrow> (Inr (), if we_id ev = [] then claimed else insert (we_id ev) claimed, db')))"

section \<open>One live subscription per organization\<close>

definition bill_ok :: "billing_db \<Rightarrow> bool" where
  "bill_ok db \<longleftrightarrow>
     unique_indexes (bl_subs db) \<and> distinct (map sb_id (bl_subs db))
     \<and> (\<forall>s \<in> set (bl_subs db). sb_status s \<in> set SUBSCRIPTION_STATUSES)"

lemma commit_subs_Inr: "commit_subs rows db = Inr db' \<longleftrightarrow> unique_indexes rows \<and> db' = db\<lparr>bl_subs := rows\<rparr>"
  by (auto simp: commit_subs_def)

lemma dispatch_auth_audit_frame [simp]:
  "bl_subs (dispatch_auth_audit env db org a act i d) = bl_subs db"
  "bl_plans (dispatch_auth_audit env db org a act i d) = bl_plans db"
  "bl_orgs (dispatch_auth_audit env db org a act i d) = bl_orgs db"
  by (simp_all add: dispatch_auth_audit_def)

lemma put_sub_ids [simp]: "map sb_id (put_sub s rows) = map sb_id rows"
  by (simp add: put_sub_def update_where_def)

lemma set_put_sub: "set (put_sub s rows) \<subseteq> insert s (set rows)"
  by (auto simp: put_sub_def set_update_where)

lemma scalar_one_or_none_Some: "scalar_one_or_none xs = Inr (Some x) \<Longrightarrow> xs = [x]"
  by (induction xs rule: scalar_one_or_none.induct) simp_all

lemma scalar_one_or_none_distinct:
  assumes "distinct (map f rows)"
  shows "scalar_one_or_none (filter (\<lambda>r. f r = k) rows) = Inr (find (\<lambda>r. f r = k) rows)"
  using assms
proof (induction rows)
  case (Cons r rows)
  show ?case
  proof (cases "f r = k")
    case True
    then have "filter (\<lambda>r. f r = k) rows = []" using Cons.prems by (auto simp: filter_empty_conv) (metis image_eqI)
    then show ?thesis using True by simp
  next
    case False
    then show ?thesis using Cons by simp
  qed
qed simp

lemma live_row_unique:
  assumes "unique_indexes rows" "s \<in> set rows" "t \<in> set rows" "live s" "live t" "sb_org s = sb_org t"
  shows "s = t"
  using assms by (auto simp: unique_indexes_def distinct_map inj_on_def)

lemma same_key_at_most_one: "distinct (map f xs) \<Longrightarrow> length (filter (\<lambda>x. f x = k) xs) \<le> 1"
proof (induction xs)
  case (Cons x xs)
  have "f x = k \<Longrightarrow> filter (\<lambda>y. f y = k) xs = []" using Cons.prems by (auto simp: filter_empty_conv) (metis image_eqI)
  then show ?case using Cons by simp
qed simp

lemma live_rows_at_most_one:
  assumes "unique_indexes rows"
  shows "length (filter (\<lambda>s. sb_org s = org \<and> live s) rows) \<le> 1"
  using same_key_at_most_one [of sb_org "filter live rows" org] assms by (simp add: unique_indexes_def conj_commute)

lemma unique_cancel:
  assumes "unique_indexes rows"
  shows "unique_indexes (map (\<lambda>r. if P r then r\<lparr>sb_status := ''canceled''\<rparr> else r) rows)"
proof -
  let ?f = "\<lambda>r. if P r then r\<lparr>sb_status := ''canceled''\<rparr> else r"
  have "(\<lambda>s. (sb_org s, sb_plan s)) \<circ> ?f = (\<lambda>s. (sb_org s, sb_plan s))" by (auto simp: fun_eq_iff)
  moreover have "map sb_org (filter live (map ?f rows)) = map sb_org (filter (\<lambda>r. \<not> P r) (filter live rows))"
    by (induction rows) (auto simp: live_def)
  moreover have "distinct (map sb_org (filter (\<lambda>r. \<not> P r) (filter live rows)))"
    using assms by (simp add: unique_indexes_def distinct_map_filter [of sb_org "filter live rows"] del: filter_filter)
  ultimately show ?thesis using assms by (simp add: unique_indexes_def)
qed

lemma unique_subset:
  assumes "unique_indexes rows" shows "unique_indexes (filter P rows)"
proof -
  have "filter live (filter P rows) = filter P (filter live rows)" by (simp add: conj_commute)
  then show ?thesis using assms 
    by (simp add: unique_indexes_def distinct_map_filter [of sb_org "filter live rows"]
        distinct_map_filter [of "\<lambda>s. (sb_org s, sb_plan s)" rows] del: filter_filter)
qed

lemma commit_keeps:
  assumes "bill_ok db" "commit_subs rows db1 = Inr db'" "distinct (map sb_id rows)"
    "\<And>s. s \<in> set rows \<Longrightarrow> s \<in> set (bl_subs db) \<or> sb_status s \<in> set SUBSCRIPTION_STATUSES"
  shows "bill_ok db'"
  using assms by (auto simp: bill_ok_def commit_subs_Inr)

lemma bill_ok_subs: "bl_subs db' = bl_subs db \<Longrightarrow> bill_ok db' = bill_ok db"
  by (simp add: bill_ok_def)

lemma cleared_set: "set (clear_stale_canceled_subscription org p rows) \<subseteq> set rows"
  by (auto simp: clear_stale_canceled_subscription_def)

lemma cleared_ids: "distinct (map sb_id rows) \<Longrightarrow> distinct (map sb_id (clear_stale_canceled_subscription org p rows))"
  by (simp add: clear_stale_canceled_subscription_def delete_where_def distinct_map_filter)

lemma newest_in: "newest rows = Some s \<Longrightarrow> s \<in> set rows"
proof -
  assume "newest rows = Some s"
  then have "s \<in> set (sort_key (\<lambda>s. - instant (sb_created s)) rows)" unfolding newest_def
    by (cases "sort_key (\<lambda>s. - instant (sb_created s)) rows") simp_all
  then show ?thesis by simp
qed

lemma for_update_in:
  "get_active_subscription_for_update db org = Some (s, p) \<Longrightarrow>
     s \<in> set (bl_subs db) \<and> sb_org s = org \<and> live s \<and> plan_by_id db (sb_plan s) = Some p"
  by (auto simp: get_active_subscription_for_update_def dest!: newest_in split: option.splits)

lemma ensure_subscription_cases:
  assumes "ensure_subscription env db org wanted = Inr (r, db')"
  obtains (same) "db' = db"
  | (made) s p e where "r = Some s" "s = \<lparr>sb_id = be_fresh_sub env, sb_org = org, sb_plan = bp_id p,
       sb_status = ''active'', sb_start = Some (be_now env), sb_end = Some e, sb_trial_end = None, sb_external = None,
       sb_created = be_now env\<rparr>" "add_months (be_now env) 1 = Inr e" "p \<in> set (bl_plans db)" "bp_code p = wanted"
      "filter (\<lambda>s. sb_org s = org \<and> live s) (bl_subs db) = []"
      "commit_subs (clear_stale_canceled_subscription org (bp_id p) (bl_subs db) @ [s]) db = Inr db'"
proof -
  obtain existing where e: "scalar_one_or_none (filter (\<lambda>s. sb_org s = org \<and> live s) (bl_subs db)) = Inr existing"
    using assms by (auto simp: ensure_subscription_def)
  show ?thesis
  proof (cases existing)
    case (Some s)
    then show ?thesis using assms e same by (simp add: ensure_subscription_def)
  next
    case None
    obtain found where f: "scalar_one_or_none (filter (\<lambda>p. bp_code p = wanted) (bl_plans db)) = Inr found"
      using assms e None by (auto simp: ensure_subscription_def)
    show ?thesis
    proof (cases found)
      case None
      then show ?thesis using assms e f \<open>existing = None\<close> same by (simp add: ensure_subscription_def)
    next
      case (Some p)
      have "p \<in> set (filter (\<lambda>p. bp_code p = wanted) (bl_plans db))"
        using scalar_one_or_none_Some [OF f [unfolded Some]] by simp
      moreover have "filter (\<lambda>s. sb_org s = org \<and> live s) (bl_subs db) = []"
        using e \<open>existing = None\<close> by (cases "filter (\<lambda>s. sb_org s = org \<and> live s) (bl_subs db)" rule: scalar_one_or_none.cases) simp_all
      ultimately show ?thesis
        using assms e f \<open>existing = None\<close> Some made by (auto simp: ensure_subscription_def Let_def)
    qed
  qed
qed

lemma ensure_subscription_keeps:
  assumes "bill_ok db" "ensure_subscription env db org wanted = Inr (r, db')" "be_fresh_sub env \<notin> sb_id ` set (bl_subs db)"
  shows "bill_ok db'"
  using assms(2)
proof (cases rule: ensure_subscription_cases)
  case same
  then show ?thesis using assms(1) by simp
next
  case (made s p e)
  show ?thesis
    by (rule commit_keeps [OF assms(1) made(7)])
      (use made(2) assms(1,3) cleared_ids [of "bl_subs db" org "bp_id p"] cleared_set [of org "bp_id p" "bl_subs db"]
        in \<open>auto simp: bill_ok_def SUBSCRIPTION_STATUSES_def\<close>)
qed

lemma provision_subs: "provision_org_billing env db og p = Inr (ids, db') \<Longrightarrow> bl_subs db' = bl_subs db \<and> bl_plans db' = bl_plans db"
  by (auto simp: provision_org_billing_def Let_def put_org_def split: if_splits)

lemma change_plan_locked_cases:
  obtains (kept) "bl_subs (snd (change_plan_locked env db org new)) = bl_subs db"
      "\<And>r. fst (change_plan_locked env db org new) = Inr r \<Longrightarrow> \<not> pc_changed r"
  | (moved) s cur w pr db2 where "get_active_subscription_for_update db org = Some (s, cur)" "bp_id cur \<noteq> bp_id new"
      "current_period (sb_start s) (sb_end s) (Some (sb_created s)) (be_now env) = Inr w"
      "compute_proration (bp_price cur) (bp_price new) (bw_start w) (bw_end w) (be_now env) = Inr pr"
      "commit_subs (put_sub (s\<lparr>sb_plan := bp_id new, sb_start := Some (bw_start w), sb_end := Some (bw_end w)\<rparr>)
           (clear_stale_canceled_subscription org (bp_id new) (bl_subs db)))
         (dispatch_auth_audit env db org (be_actor env) ''billing.plan_changed'' (sb_id s) (plan_changed_details env cur new pr))
       = Inr db2"
      "change_plan_locked env db org new = (Inr \<lparr>pc_changed = True, pc_old = bp_code cur, pc_new = bp_code new,
                                pc_proration = pr, pc_reason = None\<rparr>, db2)"
proof (cases "get_active_subscription_for_update db org")
  case None
  then show ?thesis by (intro kept) (simp_all add: change_plan_locked_def)
next
  case (Some a)
  obtain s cur where a: "get_active_subscription_for_update db org = Some (s, cur)" using Some by (cases a) simp
  define rows where "rows w = put_sub (s\<lparr>sb_plan := bp_id new, sb_start := Some (bw_start w), sb_end := Some (bw_end w)\<rparr>)
           (clear_stale_canceled_subscription org (bp_id new) (bl_subs db))" for w :: BillingPeriod
  define logged where "logged pr = dispatch_auth_audit env db org (be_actor env) ''billing.plan_changed'' (sb_id s)
      (plan_changed_details env cur new pr)" for pr
  note d = change_plan_locked_def Let_def a option.case prod.case rows_def [symmetric] logged_def [symmetric]
  show ?thesis
  proof (cases "bp_id cur = bp_id new")
    case True
    then show ?thesis by (intro kept) (auto simp: d already_on_plan_def)
  next
    case False
    show ?thesis
    proof (cases "current_period (sb_start s) (sb_end s) (Some (sb_created s)) (be_now env)")
      case (Inl e)
      then show ?thesis using False by (intro kept) (simp_all add: d)
    next
      case w: (Inr w)
      show ?thesis
      proof (cases "compute_proration (bp_price cur) (bp_price new) (bw_start w) (bw_end w) (be_now env)")
        case (Inl e)
        then show ?thesis using False w by (intro kept) (simp_all add: d)
      next
        case pr: (Inr pr)
        show ?thesis
        proof (cases "commit_subs (rows w) (logged pr)")
          case (Inl e)
          then have c: "change_plan_locked env db org new = (Inl e, logged pr)" using False by (simp add: d w pr)
          show ?thesis by (intro kept) (simp_all add: c logged_def)
        next
          case (Inr db2)
          have "change_plan_locked env db org new = (Inr \<lparr>pc_changed = True, pc_old = bp_code cur, pc_new = bp_code new,
                                pc_proration = pr, pc_reason = None\<rparr>, db2)"
            using False by (simp add: d w pr Inr)
          then show ?thesis by (rule moved [OF a False w pr Inr [unfolded rows_def logged_def]])
        qed
      qed
    qed
  qed
qed

lemma change_plan_locked_keeps:
  assumes "bill_ok db" shows "bill_ok (snd (change_plan_locked env db org new))"
proof (cases rule: change_plan_locked_cases [of env db org new])
  case kept
  then show ?thesis using assms bill_ok_subs by blast
next
  case (moved s cur w pr db2)
  have s: "s \<in> set (bl_subs db)" using for_update_in [OF moved(1)] by simp
  have "bill_ok db2"
    by (rule commit_keeps [OF assms moved(5)])
      (use assms s cleared_ids [of "bl_subs db" org "bp_id new"] cleared_set [of org "bp_id new" "bl_subs db"]
         set_put_sub [of "s\<lparr>sb_plan := bp_id new, sb_start := Some (bw_start w), sb_end := Some (bw_end w)\<rparr>"
           "clear_stale_canceled_subscription org (bp_id new) (bl_subs db)"]
        in \<open>auto simp: bill_ok_def dest!: subsetD\<close>)
  then show ?thesis by (simp add: moved(6))
qed

definition event_audit :: "billing_env \<Rightarrow> billing_db \<Rightarrow> subscription \<Rightarrow> BillingWebhookEvent \<Rightarrow> billing_db" where
  "event_audit env db s ev =
     dispatch_auth_audit env db (sb_org s) None (''billing.subscription_'' @ get_or (we_status ev) []) (sb_id s)
       [(''from_status'', JStr (sb_status s)), (''to_status'', JStr (get_or (we_status ev) [])),
        (''event_id'', JStr (we_id ev)), (''event_type'', JStr (we_type ev))]"

lemma event_audit_subs [simp]: "bl_subs (event_audit env db s ev) = bl_subs db"
  by (simp add: event_audit_def)

lemma apply_billing_event_cases:
  obtains (kept) "snd (apply_billing_event env db ev) = db" "\<And>r. fst (apply_billing_event env db ev) = Inr r \<Longrightarrow> \<not> wa_applied r"
  | (tried) s new where "we_status ev = Some new" "new \<in> set SUBSCRIPTION_STATUSES" "sb_status s \<noteq> new"
      "filter (\<lambda>s. sb_external s = we_external ev) (bl_subs db) = [s]" "get_or (we_external ev) [] \<noteq> []"
      "apply_billing_event env db ev =
         (case commit_subs (put_sub (s\<lparr>sb_status := new\<rparr>) (bl_subs db)) (event_audit env db s ev) of
            Inl e \<Rightarrow> (Inl e, event_audit env db s ev)
          | Inr db2 \<Rightarrow> (Inr \<lparr>wa_applied = True, wa_reason = None, wa_status = Some new\<rparr>, db2))"
proof -
  define new where "new = get_or (we_status ev) []"
  define q where "q = scalar_one_or_none (filter (\<lambda>s. sb_external s = we_external ev) (bl_subs db))"
  note d = apply_billing_event_def Let_def new_def [symmetric] q_def [symmetric]
  consider "get_or (we_external ev) [] = []" | "new = []" | "new \<notin> set SUBSCRIPTION_STATUSES" | e where "q = Inl e" | "q = Inr None"
    | s where "q = Inr (Some s)" "get_or (we_external ev) [] \<noteq> []" "new \<noteq> []" "new \<in> set SUBSCRIPTION_STATUSES"
    by (cases q; cases "projr q"; force)
  then show ?thesis
  proof cases
    case (6 s)
    have s: "filter (\<lambda>s. sb_external s = we_external ev) (bl_subs db) = [s]"
      using 6(1) unfolding q_def by (rule scalar_one_or_none_Some)
    have n: "we_status ev = Some new" using 6(3) by (cases "we_status ev") (simp_all add: new_def)
    show ?thesis
    proof (cases "sb_status s = new")
      case True
      then show ?thesis using 6 by (intro kept) (auto simp: d)
    next
      case False
      have a: "event_audit env db s ev = dispatch_auth_audit env db (sb_org s) None (''billing.subscription_'' @ new) (sb_id s)
       [(''from_status'', JStr (sb_status s)), (''to_status'', JStr new),
        (''event_id'', JStr (we_id ev)), (''event_type'', JStr (we_type ev))]"
        by (simp add: event_audit_def new_def)
      show ?thesis
        by (rule tried [OF n 6(4) False s 6(2)])
          (simp only: d a 6 False sum.case option.case if_False not_False_eq_True not_True_eq_False)
    qed
  qed (auto intro!: kept simp: d dropped_def split: if_splits)
qed

lemma event_keeps:
  assumes "bill_ok db" shows "bill_ok (snd (apply_billing_event env db ev))"
proof (cases rule: apply_billing_event_cases [of env db ev])
  case kept
  then show ?thesis using assms by simp
next
  case (tried s new)
  show ?thesis
  proof (cases "commit_subs (put_sub (s\<lparr>sb_status := new\<rparr>) (bl_subs db)) (event_audit env db s ev)")
    case (Inl e)
    then show ?thesis using tried(6) assms bill_ok_subs [of "event_audit env db s ev" db] by simp
  next
    case (Inr db2)
    have "bill_ok db2"
      by (rule commit_keeps [OF assms Inr])
        (use assms tried(2) set_put_sub [of "s\<lparr>sb_status := new\<rparr>" "bl_subs db"] in \<open>auto simp: bill_ok_def dest!: subsetD\<close>)
    then show ?thesis using tried(6) Inr by simp
  qed
qed

lemma dunning_one_keeps:
  assumes "bill_ok db" "dunning_one env i (res, db) = (res', db')"
  shows "bill_ok db'"
proof -
  consider (same) "bl_subs db' = bl_subs db"
    | (moved) s db1 where "commit_subs (put_sub (s\<lparr>sb_status := ''canceled''\<rparr>) (bl_subs db)) db1 = Inr db'"
    using assms(2) unfolding dunning_one_def Let_def record_cancellation_audit_def
    by (auto split: option.splits sum.splits if_splits)
  then show ?thesis
  proof cases
    case same
    then show ?thesis using assms bill_ok_subs by blast
  next
    case (moved s db1)
    show ?thesis
      by (rule commit_keeps [OF assms(1) moved])
        (use assms(1) set_put_sub [of "s\<lparr>sb_status := ''canceled''\<rparr>" "bl_subs db"]
          in \<open>auto simp: bill_ok_def SUBSCRIPTION_STATUSES_def dest!: subsetD\<close>)
  qed
qed

text \<open>One step of the control plane: what a provision, a plan change, a sweep or a webhook commits next.\<close>

inductive bill_step :: "billing_db \<Rightarrow> billing_db \<Rightarrow> bool" where
  cataloged: "bill_step db (snd (ensure_plan_catalog env db))"
| subscribed: "bill_step db db'"
    if "ensure_subscription env db org wanted = Inr (r, db')" "be_fresh_sub env \<notin> sb_id ` set (bl_subs db)"
| provisioned: "bill_step db db'" if "provision_org_billing env db og p = Inr (ids, db')"
| changed: "bill_step db (snd (change_plan_locked env db org new))"
| dunned: "bill_step db db'" if "dunning_one env i (res, db) = (res', db')"
| event: "bill_step db (snd (apply_billing_event env db ev))"

lemma bill_step_keeps: "bill_ok db \<Longrightarrow> bill_step db db' \<Longrightarrow> bill_ok db'"
proof (rotate_tac 1, induction rule: bill_step.induct)
  case (cataloged db env)
  have "bl_subs (snd (ensure_plan_catalog env db)) = bl_subs db" by (simp add: ensure_plan_catalog_def Let_def)
  then show ?case using cataloged bill_ok_subs by blast
next
  case (provisioned env db og p ids db')
  then show ?case by (simp only: bill_ok_subs [OF conjunct1 [OF provision_subs [OF provisioned(1)]]])
next
  case (subscribed env db org wanted r db')
  show ?case by (rule ensure_subscription_keeps [OF subscribed(3,1,2)])
next
  case (changed db env org new)
  then show ?case by (rule change_plan_locked_keeps)
next
  case (dunned env i res db res' db')
  show ?case by (rule dunning_one_keeps [OF dunned(2,1)])
next
  case (event db env ev)
  then show ?case by (rule event_keeps)
qed

interpretation bill_run: step_system "\<lambda>db. bl_subs db = []" bill_step bill_ok
  by unfold_locales (simp add: bill_ok_def unique_indexes_def, rule bill_step_keeps)

section \<open>The dunning sweep\<close>

definition canceled :: "subscription \<Rightarrow> subscription" where
  "canceled s = s\<lparr>sb_status := ''canceled''\<rparr>"

definition cancellation_row :: "billing_env \<Rightarrow> subscription \<Rightarrow> audit_row" where
  "cancellation_row env s =
     trail_row env (sb_org s) None ''billing.subscription_canceled'' (sb_id s)
       [(''from_status'', JStr (sb_status s)), (''to_status'', JStr ''canceled''),
        (''reason'', JStr ''dunning_grace_expired''), (''grace_days'', JInt (be_grace_days env))]"

text \<open>The rows a sweep cancels: overdue, and with a trail to record it in.\<close>

definition sweepable :: "billing_env \<Rightarrow> billing_db \<Rightarrow> subscription \<Rightarrow> bool" where
  "sweepable env db s \<longleftrightarrow> dunning_due env s \<and> trail_open env db (sb_org s)"

definition swept :: "billing_env \<Rightarrow> billing_db \<Rightarrow> uuid set \<Rightarrow> subscription \<Rightarrow> subscription" where
  "swept env db done_ids s = (if sb_id s \<in> done_ids \<and> sweepable env db s then canceled s else s)"

lemma dunning_one_row:
  assumes "bill_ok db" "s \<in> set (bl_subs db)"
  shows "dunning_one env (sb_id s) (res, db) =
    (let seen = res\<lparr>dn_scanned := dn_scanned res + 1\<rparr>
     in if \<not> dunning_due env s then (seen, db)
        else if trail_open env db (sb_org s)
        then (seen\<lparr>dn_canceled := dn_canceled res + 1\<rparr>,
              db\<lparr>bl_subs := map (\<lambda>r. if sb_id r = sb_id s then canceled r else r) (bl_subs db),
                 bl_audit := bl_audit db @ [cancellation_row env s]\<rparr>)
        else (seen\<lparr>dn_failures := dn_failures res + 1\<rparr>, db))"
proof -
  have d: "distinct (map sb_id (bl_subs db))" "unique_indexes (bl_subs db)" using assms(1) by (simp_all add: bill_ok_def)
  have only: "r = s" if "r \<in> set (bl_subs db)" "sb_id r = sb_id s" for r
    using d(1) assms(2) that by (auto simp: distinct_map dest: inj_onD)
  have f: "find (\<lambda>r. sb_id r = sb_id s) (bl_subs db) = Some s"
  proof (cases "find (\<lambda>r. sb_id r = sb_id s) (bl_subs db)")
    case None
    then show ?thesis using assms(2) by (auto simp: find_None_iff_all)
  next
    case (Some r)
    then show ?thesis using find_Some_props [OF Some] only by auto
  qed
  have put: "put_sub (canceled s) (bl_subs db) = map (\<lambda>r. if sb_id r = sb_id s then canceled r else r) (bl_subs db)"
    using only by (auto simp: put_sub_def update_where_def canceled_def)
  have "unique_indexes (map (\<lambda>r. if sb_id r = sb_id s then canceled r else r) (bl_subs db))"
    unfolding canceled_def by (rule unique_cancel [OF d(2)])
  then show ?thesis
    by (simp add: dunning_one_def Let_def f record_cancellation_audit_def commit_subs_def put
        flip: canceled_def cancellation_row_def)
qed

lemma cancel_ok:
  assumes "bill_ok db"
  shows "bill_ok (db\<lparr>bl_subs := map (\<lambda>r. if P r then canceled r else r) (bl_subs db), bl_audit := rows\<rparr>)"
proof -
  have "map sb_id (map (\<lambda>r. if P r then canceled r else r) (bl_subs db)) = map sb_id (bl_subs db)"
    by (simp add: canceled_def)
  then show ?thesis
    using assms unique_cancel [of "bl_subs db" P, folded canceled_def]
    by (auto simp: bill_ok_def SUBSCRIPTION_STATUSES_def simp del: map_map) (simp_all add: canceled_def split: if_splits)
qed

lemma fold_dunning:
  assumes "bill_ok db" "distinct (map sb_id ss)" "set ss \<subseteq> set (bl_subs db)"
  shows "fold (dunning_one env) (map sb_id ss) (res, db) =
    (\<lparr>dn_scanned = dn_scanned res + length ss,
      dn_canceled = dn_canceled res + length (filter (sweepable env db) ss),
      dn_failures = dn_failures res + length (filter (\<lambda>s. dunning_due env s \<and> \<not> trail_open env db (sb_org s)) ss)\<rparr>,
     db\<lparr>bl_subs := map (swept env db (sb_id ` set ss)) (bl_subs db),
        bl_audit := bl_audit db @ map (cancellation_row env) (filter (sweepable env db) ss)\<rparr>)"
  using assms
proof (induction ss arbitrary: db res)
  case Nil
  have "swept env db {} = id" by (simp add: swept_def fun_eq_iff)
  then show ?case by simp
next
  case (Cons s ss)
  define db1 where "db1 = (if sweepable env db s
      then db\<lparr>bl_subs := map (\<lambda>r. if sb_id r = sb_id s then canceled r else r) (bl_subs db),
              bl_audit := bl_audit db @ [cancellation_row env s]\<rparr> else db)"
  define res1 where "res1 = \<lparr>dn_scanned = dn_scanned res + 1,
      dn_canceled = dn_canceled res + (if sweepable env db s then 1 else 0),
      dn_failures = dn_failures res + (if dunning_due env s \<and> \<not> trail_open env db (sb_org s) then 1 else 0)\<rparr>"
  have one: "dunning_one env (sb_id s) (res, db) = (res1, db1)"
    using dunning_one_row [OF Cons.prems(1), of s env res] Cons.prems(3)
    by (simp add: res1_def db1_def Let_def sweepable_def)
  have open1: "trail_open env db1 = trail_open env db" by (simp add: db1_def trail_open_def fun_eq_iff)
  have sw: "sweepable env db1 = sweepable env db" by (simp add: sweepable_def open1 fun_eq_iff)
  have new: "sb_id s \<notin> sb_id ` set ss" using Cons.prems(2) by simp
  have "bill_ok db1" unfolding db1_def using Cons.prems(1) cancel_ok by simp
  moreover have "set ss \<subseteq> set (bl_subs db1)"
    using Cons.prems(3) new by (auto simp: db1_def rev_image_eqI)
  ultimately have IH: "fold (dunning_one env) (map sb_id ss) (res1, db1) =
    (\<lparr>dn_scanned = dn_scanned res1 + length ss,
      dn_canceled = dn_canceled res1 + length (filter (sweepable env db) ss),
      dn_failures = dn_failures res1 + length (filter (\<lambda>s. dunning_due env s \<and> \<not> trail_open env db (sb_org s)) ss)\<rparr>,
     db1\<lparr>bl_subs := map (swept env db1 (sb_id ` set ss)) (bl_subs db1),
        bl_audit := bl_audit db1 @ map (cancellation_row env) (filter (sweepable env db) ss)\<rparr>)"
    using Cons.IH [of db1 res1] Cons.prems(2) by (simp add: sw open1)
  have only: "r = s" if "r \<in> set (bl_subs db)" "sb_id r = sb_id s" for r
    using Cons.prems(1,3) that by (auto simp: bill_ok_def distinct_map dest: inj_onD)
  have "map (swept env db1 (sb_id ` set ss)) (bl_subs db1) = map (swept env db (sb_id ` set (s # ss))) (bl_subs db)"
  proof -
    have "swept env db1 = swept env db" by (simp add: swept_def sw fun_eq_iff)
    moreover have "bl_subs db1 = map (\<lambda>r. if sb_id r = sb_id s \<and> sweepable env db s then canceled r else r) (bl_subs db)"
      by (simp add: db1_def)
    ultimately show ?thesis using only new by (auto simp: swept_def canceled_def)
  qed
  then show ?case by (simp add: one IH) (simp add: res1_def db1_def)
qed

lemma map_sort_key: "map f (sort_key f xs) = sort (map f xs)"
proof -
  have "map f (insort_key f x ys) = insort (f x) (map f ys)" for x ys by (induction ys) simp_all
  then show ?thesis by (induction xs) simp_all
qed

text \<open>
  a sweep cancels exactly the past-due subscriptions whose period ended more than the grace
  window ago and whose organization has a trail to record it in, each with one audit row, in id
  order; it changes nothing else and counts what it saw, canceled and failed.
\<close>

theorem dunning_sweep_spec:
  assumes "bill_ok db" "run_dunning_once env db = (res, db')"
  shows "bl_subs db' = map (\<lambda>s. if sweepable env db s then canceled s else s) (bl_subs db)
    \<and> bl_audit db' = bl_audit db @ map (cancellation_row env) (sort_key sb_id (filter (sweepable env db) (bl_subs db)))
    \<and> dn_scanned res = length (filter (\<lambda>s. sb_status s = ''past_due'') (bl_subs db))
    \<and> dn_canceled res = length (filter (sweepable env db) (bl_subs db))
    \<and> dn_canceled res + dn_failures res = length (filter (dunning_due env) (bl_subs db))"
proof -
  define past where "past = filter (\<lambda>s. sb_status s = ''past_due'') (bl_subs db)"
  define ss where "ss = sort_key sb_id past"
  have due: "filter P past = filter P (bl_subs db)" if "\<And>s. P s \<Longrightarrow> dunning_due env s" for P
    using that by (auto simp: past_def dunning_due_def intro!: filter_cong)
  have d: "distinct (map sb_id ss)" "set ss \<subseteq> set (bl_subs db)"
    using assms(1) by (auto simp: ss_def map_sort_key past_def bill_ok_def distinct_map_filter)
  have "run_dunning_once env db = fold (dunning_one env) (map sb_id ss) (\<lparr>dn_scanned = 0, dn_canceled = 0, dn_failures = 0\<rparr>, db)"
    by (simp add: run_dunning_once_def ss_def map_sort_key past_def)
  also note fold_dunning [OF assms(1) d]
  finally have out: "res = \<lparr>dn_scanned = length ss, dn_canceled = length (filter (sweepable env db) ss),
      dn_failures = length (filter (\<lambda>s. dunning_due env s \<and> \<not> trail_open env db (sb_org s)) ss)\<rparr>"
    "db' = db\<lparr>bl_subs := map (swept env db (sb_id ` set ss)) (bl_subs db),
        bl_audit := bl_audit db @ map (cancellation_row env) (filter (sweepable env db) ss)\<rparr>"
    using assms(2) by simp_all
  have len: "length (filter P ss) = length (filter P (bl_subs db))" if "\<And>s. P s \<Longrightarrow> dunning_due env s" for P
    using due [OF that] by (simp add: ss_def filter_sort)
  have "swept env db (sb_id ` set ss) s = (if sweepable env db s then canceled s else s)" if "s \<in> set (bl_subs db)" for s
    using that by (auto simp: swept_def ss_def past_def sweepable_def dunning_due_def)
  moreover have "filter (sweepable env db) ss = sort_key sb_id (filter (sweepable env db) (bl_subs db))"
    using due [of "sweepable env db"] by (simp add: ss_def filter_sort sweepable_def)
  moreover have count: "length (filter (sweepable env db) xs)
      + length (filter (\<lambda>s. dunning_due env s \<and> \<not> trail_open env db (sb_org s)) xs) = length (filter (dunning_due env) xs)" for xs
    by (induction xs) (auto simp: sweepable_def)
  moreover note count [of ss]
  moreover have "length (filter (sweepable env db) ss) = length (filter (sweepable env db) (bl_subs db))"
    "length (filter (dunning_due env) ss) = length (filter (dunning_due env) (bl_subs db))"
    by (rule len, simp add: sweepable_def, rule len)
  moreover have "length ss = length past" by (simp add: ss_def)
  ultimately show ?thesis by (simp add: out flip: past_def)
qed

section \<open>Plan changes\<close>

text \<open>What a plan change needs of the stored datetimes: real ones, within a century of now.\<close>

definition clock_ok :: "billing_env \<Rightarrow> subscription \<Rightarrow> bool" where
  "clock_ok env s \<longleftrightarrow>
     (\<forall>t \<in> set_option (sb_start s) \<union> set_option (sb_end s) \<union> {sb_created s, be_now env}.
        valid_datetime t \<and> year t < 9999 \<and> month_index (be_now env) \<le> month_index t + MAX_PERIODS_FORWARD)
     \<and> instant (get_or (sb_start s) (sb_created s)) \<le> instant (be_now env)"

lemma newest_single: "newest [s] = Some s"
  by (simp add: newest_def)

lemma live_rows_single:
  assumes "unique_indexes rows" "s \<in> set rows" "live s" "sb_org s = org"
  shows "filter (\<lambda>s. sb_org s = org \<and> live s) rows = [s]"
proof -
  have m: "s \<in> set (filter (\<lambda>s. sb_org s = org \<and> live s) rows)" using assms by simp
  have "length (filter (\<lambda>s. sb_org s = org \<and> live s) rows) \<le> 1" by (rule live_rows_at_most_one [OF assms(1)])
  then show ?thesis using m by (cases "filter (\<lambda>s. sb_org s = org \<and> live s) rows" rule: scalar_one_or_none.cases) auto
qed

lemma for_update_Some:
  assumes "bill_ok db" "s \<in> set (bl_subs db)" "live s" "plan_by_id db (sb_plan s) = Some cur"
  shows "get_active_subscription_for_update db (sb_org s) = Some (s, cur)"
  using live_rows_single [of "bl_subs db" s "sb_org s"] assms
  by (simp add: get_active_subscription_for_update_def newest_single bill_ok_def)

definition moved_to :: "plan \<Rightarrow> BillingPeriod \<Rightarrow> subscription \<Rightarrow> subscription" where
  "moved_to new w s = s\<lparr>sb_plan := bp_id new, sb_start := Some (bw_start w), sb_end := Some (bw_end w)\<rparr>"

text \<open>The rows after the move, and that the indexes let it through.\<close>

definition repointed :: "plan \<Rightarrow> BillingPeriod \<Rightarrow> subscription \<Rightarrow> subscription list \<Rightarrow> subscription list" where
  "repointed new w s rows =
     map (\<lambda>r. if r = s then moved_to new w s else r) (clear_stale_canceled_subscription (sb_org s) (bp_id new) rows)"

lemma cleared_live: "filter live (clear_stale_canceled_subscription g p rows) = filter live rows"
  by (auto simp: clear_stale_canceled_subscription_def delete_where_def live_def intro!: filter_cong)

lemma repointed_unique:
  assumes "unique_indexes rows" "s \<in> set rows" "live s"
  shows "unique_indexes (repointed new w s rows)"
proof -
  define rs where "rs = clear_stale_canceled_subscription (sb_org s) (bp_id new) rows"
  define f where "f r = (if r = s then moved_to new w s else r)" for r
  have u: "unique_indexes rs" unfolding rs_def clear_stale_canceled_subscription_def delete_where_def
    by (rule unique_subset [OF assms(1)])
  have only: "r = s" if "r \<in> set rs" "sb_org r = sb_org s" "sb_plan r = bp_id new" for r
  proof -
    have r: "r \<in> set rows" "sb_status r \<noteq> ''canceled''"
      using that by (auto simp: rs_def clear_stale_canceled_subscription_def)
    then show "r = s" using live_row_unique [OF assms(1) r(1) assms(2)] assms(3) that(2) by (simp add: live_def)
  qed
  have ds: "distinct rs" using u by (auto simp: unique_indexes_def distinct_map)
  have "inj_on (\<lambda>s. (sb_org s, sb_plan s)) (set rs)" using u by (simp add: unique_indexes_def distinct_map)
  then have "inj_on ((\<lambda>s. (sb_org s, sb_plan s)) \<circ> f) (set rs)"
    using only unfolding inj_on_def f_def moved_to_def by auto
  then have "distinct (map (\<lambda>s. (sb_org s, sb_plan s)) (map f rs))" using ds by (simp add: distinct_map)
  moreover have "live (f r) = live r \<and> sb_org (f r) = sb_org r" for r by (simp add: f_def live_def moved_to_def)
  then have "map sb_org (filter live (map f rs)) = map sb_org (filter live rs)"
    by (simp add: filter_map comp_def)
  ultimately have "unique_indexes (map f rs)" using u by (simp add: unique_indexes_def)
  moreover have "map f rs = repointed new w s rows" by (simp add: repointed_def rs_def f_def [abs_def])
  ultimately show ?thesis by simp
qed

lemma change_plan_locked_moves:
  assumes ok: "bill_ok db" "s \<in> set (bl_subs db)" "live s" "plan_by_id db (sb_plan s) = Some cur"
    and diff: "bp_id cur \<noteq> bp_id new" and p: "price (bp_price cur)" "price (bp_price new)" and c: "clock_ok env s"
  obtains w pr db' where
    "change_plan_locked env db (sb_org s) new = (Inr \<lparr>pc_changed = True, pc_old = bp_code cur, pc_new = bp_code new,
       pc_proration = pr, pc_reason = None\<rparr>, db')"
    "compute_proration (bp_price cur) (bp_price new) (bw_start w) (bw_end w) (be_now env) = Inr pr"
    "current_period (sb_start s) (sb_end s) (Some (sb_created s)) (be_now env) = Inr w"
    "valid_datetime (bw_start w)" "valid_datetime (bw_end w)"
    "instant (bw_start w) \<le> instant (be_now env)" "instant (be_now env) < instant (bw_end w)"
    "bl_subs db' = repointed new w s (bl_subs db)" "bl_plans db' = bl_plans db" "bill_ok db'"
    "bl_audit db' = bl_audit db @ (if trail_open env db (sb_org s)
       then [trail_row env (sb_org s) (be_actor env) ''billing.plan_changed'' (sb_id s) (plan_changed_details env cur new pr)]
       else [])"
proof -
  have h: "t \<in> set_option (sb_start s) \<union> set_option (sb_end s) \<union> set_option (Some (sb_created s)) \<union> {be_now env} \<Longrightarrow>
      valid_datetime t \<and> year t < 9999 \<and> month_index (be_now env) \<le> month_index t + MAX_PERIODS_FORWARD" for t
    using c by (auto simp: clock_ok_def)
  obtain w where w: "current_period (sb_start s) (sb_end s) (Some (sb_created s)) (be_now env) = Inr w"
    "valid_datetime (bw_start w)" "valid_datetime (bw_end w)"
    "instant (bw_start w) \<le> instant (be_now env)" "instant (be_now env) < instant (bw_end w)"
    using current_period_window [of "sb_start s" "sb_end s" "Some (sb_created s)" "be_now env", OF h] c
    by (simp add: clock_ok_def) blast
  obtain pr where pr: "compute_proration (bp_price cur) (bp_price new) (bw_start w) (bw_end w) (be_now env) = Inr pr"
    using compute_proration_exact [OF p w(2,3)] by blast
  have ids: "distinct (map sb_id (bl_subs db))" "unique_indexes (bl_subs db)" using ok(1) by (simp_all add: bill_ok_def)
  have only: "r = s" if "r \<in> set (bl_subs db)" "sb_id r = sb_id s" for r
    using ids(1) ok(2) that by (auto simp: distinct_map dest: inj_onD)
  have put: "put_sub (moved_to new w s) (clear_stale_canceled_subscription (sb_org s) (bp_id new) (bl_subs db))
      = repointed new w s (bl_subs db)"
    using only cleared_set [of "sb_org s" "bp_id new" "bl_subs db"]
    by (auto simp: put_sub_def update_where_def repointed_def moved_to_def)
  define db1 where "db1 = dispatch_auth_audit env db (sb_org s) (be_actor env) ''billing.plan_changed'' (sb_id s)
      (plan_changed_details env cur new pr)"
  have commit: "commit_subs (repointed new w s (bl_subs db)) db1 = Inr (db1\<lparr>bl_subs := repointed new w s (bl_subs db)\<rparr>)"
    using repointed_unique [OF ids(2) ok(2,3)] by (simp add: commit_subs_def)
  have "change_plan_locked env db (sb_org s) new = (Inr \<lparr>pc_changed = True, pc_old = bp_code cur, pc_new = bp_code new,
       pc_proration = pr, pc_reason = None\<rparr>, db1\<lparr>bl_subs := repointed new w s (bl_subs db)\<rparr>)"
    using diff by (simp add: change_plan_locked_def for_update_Some [OF ok] w(1) pr Let_def put commit
        flip: moved_to_def db1_def)
  moreover from this change_plan_locked_keeps [OF ok(1), of env "sb_org s" new]
  have "bill_ok (db1\<lparr>bl_subs := repointed new w s (bl_subs db)\<rparr>)" by simp
  moreover have "bl_audit db1 = bl_audit db @ (if trail_open env db (sb_org s)
       then [trail_row env (sb_org s) (be_actor env) ''billing.plan_changed'' (sb_id s) (plan_changed_details env cur new pr)]
       else [])"
    by (simp add: db1_def dispatch_auth_audit_def)
  moreover have "bl_plans db1 = bl_plans db" by (simp add: db1_def)
  ultimately show ?thesis using that [OF _ pr w(1-5)] by simp
qed

lemma active_subscription_Some:
  assumes "bill_ok db" "s \<in> set (bl_subs db)" "live s" "plan_by_id db (sb_plan s) = Some cur"
  shows "get_active_subscription db (sb_org s) = Some (s, cur)"
proof -
  have "filter (\<lambda>r. plan_by_id db (sb_plan r) \<noteq> None) (filter (\<lambda>r. sb_org r = sb_org s \<and> live r) (bl_subs db)) = [s]"
    using live_rows_single [of "bl_subs db" s "sb_org s"] assms by (simp add: bill_ok_def)
  then have "filter (\<lambda>r. sb_org r = sb_org s \<and> live r \<and> plan_by_id db (sb_plan r) \<noteq> None) (bl_subs db) = [s]"
    by (simp add: conj_ac)
  then show ?thesis using assms(4) by (simp add: get_active_subscription_def newest_single)
qed

lemma filter_single: "distinct xs \<Longrightarrow> p \<in> set xs \<Longrightarrow> filter (\<lambda>q. q = p) xs = [p]"
  by (induction xs) (auto simp: filter_empty_conv)

lemma plan_lookup:
  assumes "distinct (map bp_code (bl_plans db))" "p \<in> set (bl_plans db)" "bp_active p"
  shows "scalar_one_or_none (filter (\<lambda>q. bp_code q = bp_code p \<and> bp_active q) (bl_plans db)) = Inr (Some p)"
proof -
  have "q = p" if "q \<in> set (bl_plans db)" "bp_code q = bp_code p" for q
    using assms that by (auto simp: distinct_map dest: inj_onD)
  then have "filter (\<lambda>q. bp_code q = bp_code p \<and> bp_active q) (bl_plans db) = filter (\<lambda>q. q = p) (bl_plans db)"
    using assms(3) by (auto intro!: filter_cong)
  also have "\<dots> = [p]" using assms(1,2) by (simp add: distinct_map filter_single)
  finally show ?thesis by simp
qed

text \<open>
  C32: a change to another active plan moves the organization's one live subscription there, stores
  the window that contains now, prorates the difference of the two prices over its unused days,
  removes at most a canceled row of the target plan and touches no other subscription. Where the
  control plane's audit trail can be written it leaves exactly one audit row there; where it cannot, the
  change goes through and leaves none.
\<close>

theorem change_plan_spec:
  assumes "bill_ok db" "s \<in> set (bl_subs db)" "live s" "og_id og = sb_org s" "plan_by_id db (sb_plan s) = Some cur"
    and "distinct (map bp_code (bl_plans db))" "new \<in> set (bl_plans db)" "bp_active new" "bp_id cur \<noteq> bp_id new"
    and "price (bp_price cur)" "price (bp_price new)" "clock_ok env s"
    and "provision_org_billing env db og new = Inr (ids, db1)"
  shows "\<exists>w pr db'. change_plan env db og (bp_code new) = (Inr \<lparr>pc_changed = True, pc_old = bp_code cur,
       pc_new = bp_code new, pc_proration = pr, pc_reason = None\<rparr>, db')
    \<and> instant (bw_start w) \<le> instant (be_now env) \<and> instant (be_now env) < instant (bw_end w)
    \<and> pn_amount pr = round_half_up 2 ((bp_price new - bp_price cur) * of_int (pn_unused pr) / of_int (whole_days (bw_start w) (bw_end w)))
    \<and> bl_subs db' = map (\<lambda>r. if r = s then moved_to new w s else r)
         (filter (\<lambda>r. \<not> (sb_org r = sb_org s \<and> sb_plan r = bp_id new \<and> sb_status r = ''canceled'')) (bl_subs db))
    \<and> bl_audit db' = bl_audit db1 @ (if trail_open env db1 (sb_org s)
         then [trail_row env (sb_org s) (be_actor env) ''billing.plan_changed'' (sb_id s) (plan_changed_details env cur new pr)]
         else [])"
proof -
  have same: "bl_subs db1 = bl_subs db" "bl_plans db1 = bl_plans db" using provision_subs [OF assms(13)] by simp_all
  have ok1: "bill_ok db1" "s \<in> set (bl_subs db1)" "plan_by_id db1 (sb_plan s) = Some cur"
    using assms(1,2,5) bill_ok_subs [OF same(1)] by (simp_all add: same plan_by_id_def)
  obtain w pr db' where m:
    "change_plan_locked env db1 (sb_org s) new = (Inr \<lparr>pc_changed = True, pc_old = bp_code cur, pc_new = bp_code new,
       pc_proration = pr, pc_reason = None\<rparr>, db')"
    "compute_proration (bp_price cur) (bp_price new) (bw_start w) (bw_end w) (be_now env) = Inr pr"
    "valid_datetime (bw_start w)" "valid_datetime (bw_end w)"
    "instant (bw_start w) \<le> instant (be_now env)" "instant (be_now env) < instant (bw_end w)"
    "bl_subs db' = repointed new w s (bl_subs db1)"
    "bl_audit db' = bl_audit db1 @ (if trail_open env db1 (sb_org s)
       then [trail_row env (sb_org s) (be_actor env) ''billing.plan_changed'' (sb_id s) (plan_changed_details env cur new pr)]
       else [])"
    using change_plan_locked_moves [OF ok1(1,2) assms(3) ok1(3) assms(9-12)] by blast
  have "change_plan env db og (bp_code new) = change_plan_locked env db1 (sb_org s) new"
    using assms(9) by (simp add: change_plan_def plan_lookup [OF assms(6-8)] assms(4) active_subscription_Some [OF assms(1-3,5)] assms(13))
  moreover have "pn_amount pr = round_half_up 2 (prorated pr)" "pn_old pr = bp_price cur" "pn_new pr = bp_price new"
    "pn_period pr = whole_days (bw_start w) (bw_end w)"
    using compute_proration_exact [OF assms(10,11) m(3,4), of "be_now env"] m(2,5,6) by auto
  ultimately show ?thesis
    using m(1,5-8)
    by (intro exI [of _ w] exI [of _ pr] exI [of _ db'])
      (simp add: prorated_def repointed_def clear_stale_canceled_subscription_def delete_where_def same)
qed


text \<open>
  C29: whatever the control plane does, every organization has at most one subscription that is not
  canceled, and every subscription's status is one of the four of the model.
\<close>

theorem one_live_subscription_each:
  assumes "bl_subs db = []" "bill_step\<^sup>*\<^sup>* db db'"
  shows "length (filter (\<lambda>s. sb_org s = org \<and> live s) (bl_subs db')) \<le> 1
    \<and> sb_status ` set (bl_subs db') \<subseteq> {''trialing'', ''active'', ''past_due'', ''canceled''}"
proof -
  have "bill_ok db" using assms(1) by (simp add: bill_ok_def unique_indexes_def)
  then have "bill_ok db'" by (rule bill_run.runs_keep [OF assms(2)])
  then show ?thesis using live_rows_at_most_one [of "bl_subs db'" org]
    by (auto simp: bill_ok_def SUBSCRIPTION_STATUSES_def)
qed

text \<open>
  a provider event that was applied changes its subscription's status and nothing else of any
  subscription, and delivering it again changes nothing at all.
\<close>

theorem provider_event_applies_once:
  assumes "bill_ok db" "apply_billing_event env db ev = (Inr r, db')" "wa_applied r"
  shows "(\<exists>s \<in> set (bl_subs db). sb_external s = we_external ev \<and> sb_status s \<noteq> get_or (we_status ev) []
      \<and> bl_subs db' = map (\<lambda>t. if t = s then s\<lparr>sb_status := get_or (we_status ev) []\<rparr> else t) (bl_subs db))
    \<and> apply_billing_event env db' ev =
        (Inr \<lparr>wa_applied = False, wa_reason = Some ''already_in_status'', wa_status = we_status ev\<rparr>, db')"
proof (cases rule: apply_billing_event_cases [of env db ev])
  case kept
  then show ?thesis using assms(2,3) by simp
next
  case (tried s new)
  have "s \<in> set (filter (\<lambda>s. sb_external s = we_external ev) (bl_subs db))" by (simp only: tried(4) list.set_intros)
  then have s: "s \<in> set (bl_subs db)" "sb_external s = we_external ev" by simp_all
  have only: "t = s" if "t \<in> set (bl_subs db)" "sb_id t = sb_id s" for t
    using assms(1) s(1) that by (auto simp: bill_ok_def distinct_map dest: inj_onD)
  have rows: "bl_subs db' = put_sub (s\<lparr>sb_status := new\<rparr>) (bl_subs db)"
    using tried(6) assms(2) by (auto simp: commit_subs_Inr split: sum.splits)
  also have put: "\<dots> = map (\<lambda>t. if t = s then s\<lparr>sb_status := new\<rparr> else t) (bl_subs db)"
    using only by (auto simp: put_sub_def update_where_def)
  finally have rows': "bl_subs db' = map (\<lambda>t. if t = s then s\<lparr>sb_status := new\<rparr> else t) (bl_subs db)" .
  have "filter (\<lambda>t. sb_external t = we_external ev) (bl_subs db') =
      map (\<lambda>t. if t = s then s\<lparr>sb_status := new\<rparr> else t) (filter (\<lambda>t. sb_external t = we_external ev) (bl_subs db))"
  proof -
    have "filter (\<lambda>t. sb_external t = we_external ev) (map (\<lambda>t. if t = s then s\<lparr>sb_status := new\<rparr> else t) xs) =
        map (\<lambda>t. if t = s then s\<lparr>sb_status := new\<rparr> else t) (filter (\<lambda>t. sb_external t = we_external ev) xs)" for xs
      using s(2) by (induction xs) auto
    then show ?thesis unfolding rows' .
  qed
  also have "\<dots> = [s\<lparr>sb_status := new\<rparr>]" by (simp add: tried(4))
  finally have "apply_billing_event env db' ev =
      (Inr \<lparr>wa_applied = False, wa_reason = Some ''already_in_status'', wa_status = we_status ev\<rparr>, db')"
    using tried(1,2,5) by (auto simp: apply_billing_event_def SUBSCRIPTION_STATUSES_def)
  then show ?thesis using s tried(1,3) rows' by auto
qed

text \<open>
  an event that would bring back a canceled subscription of an organization with another live
  one raises IntegrityError and leaves every subscription as it was, but the trail then says it happened.
\<close>

theorem refused_event_is_audited_anyway:
  assumes "bill_ok db" "s \<in> set (bl_subs db)" "sb_status s = ''canceled''" "t \<in> set (bl_subs db)" "live t" "sb_org t = sb_org s"
    and "filter (\<lambda>r. sb_external r = we_external ev) (bl_subs db) = [s]" "get_or (we_external ev) [] \<noteq> []"
    and "we_status ev = Some ''active''" "trail_open env db (sb_org s)"
  shows "\<exists>db' row. apply_billing_event env db ev = (Inl IntegrityError, db')
    \<and> bl_subs db' = bl_subs db \<and> bl_audit db' = bl_audit db @ [row]
    \<and> au_action row = ''billing.subscription_active'' \<and> au_entity_id row = sb_id s"
proof -
  define rows where "rows = put_sub (s\<lparr>sb_status := ''active''\<rparr>) (bl_subs db)"
  have ids: "r = s" if "r \<in> set (bl_subs db)" "sb_id r = sb_id s" for r
    using assms(1,2) that by (auto simp: bill_ok_def distinct_map dest: inj_onD)
  have "t \<noteq> s" using assms(3,5) by (auto simp: live_def)
  then have tid: "sb_id t \<noteq> sb_id s" using ids assms(4) by blast
  then have "t \<in> set rows" "s\<lparr>sb_status := ''active''\<rparr> \<in> set rows"
    using assms(2,4) by (auto simp: rows_def put_sub_def set_update_where)
  then have "\<not> unique_indexes rows"
    using live_row_unique [of rows t "s\<lparr>sb_status := ''active''\<rparr>"] assms(5,6) tid by (auto simp: live_def)
  then have refuse: "commit_subs rows db1 = Inl IntegrityError" for db1 by (simp add: commit_subs_def)
  have st: "''active'' \<in> set SUBSCRIPTION_STATUSES" "sb_status s \<noteq> ''active''" by (simp_all add: SUBSCRIPTION_STATUSES_def assms(3))
  have "apply_billing_event env db ev = (Inl IntegrityError, event_audit env db s ev)"
    using assms(8) st by (simp add: apply_billing_event_def assms(7,9) event_audit_def Let_def refuse flip: rows_def)
  then show ?thesis
    using assms(9,10) by (simp add: event_audit_def dispatch_auth_audit_def trail_row_def)
qed

section \<open>A concrete control plane\<close>

definition sample_billing_env :: billing_env where
  "sample_billing_env =
     \<lparr>be_now = sample_moment 2026 1 10, be_fresh_sub = 90, be_fresh_plan = (\<lambda>_. 91), be_audit_key = 92, be_actor = Some 30,
      be_provider = ''mock'', be_grace_days = 14, be_customer = (\<lambda>_ _ _ _. Inr ''cus_1''), be_price = (\<lambda>_ _ _ _. Inr ''price_1''),
      be_trail_down = (\<lambda>_. False), be_money_text = (\<lambda>_. [])\<rparr>"

definition sample_plan :: "uuid \<Rightarrow> string \<Rightarrow> rat \<Rightarrow> plan" where
  "sample_plan i c x =
     \<lparr>bp_id = i, bp_code = c, bp_name = c, bp_price = x, bp_currency = ''USD'', bp_seats = [], bp_usage = [],
      bp_entitlements = [], bp_trial_days = 0, bp_active = True\<rparr>"

definition sample_sub :: "uuid \<Rightarrow> uuid \<Rightarrow> uuid \<Rightarrow> string \<Rightarrow> datetime \<Rightarrow> string \<Rightarrow> subscription" where
  "sample_sub i g p st e x =
     \<lparr>sb_id = i, sb_org = g, sb_plan = p, sb_status = st, sb_start = Some (sample_moment 2025 11 10), sb_end = Some e,
      sb_trial_end = None, sb_external = Some x, sb_created = sample_moment 2025 11 10\<rparr>"

definition sample_org :: "uuid \<Rightarrow> organization" where
  "sample_org i = \<lparr>og_id = i, og_name = ''Acme'', og_settings = JNull, og_db_name = ''acme''\<rparr>"

definition sub_live :: subscription where
  "sub_live = sample_sub 5 7 1 ''active'' (sample_moment 2026 1 20) ''sub_a''"

definition sub_old :: subscription where
  "sub_old = sample_sub 6 7 2 ''canceled'' (sample_moment 2025 12 10) ''sub_b''"

definition sub_due :: subscription where
  "sub_due = sample_sub 4 8 1 ''past_due'' (sample_moment 2025 12 10) ''sub_c''"

definition sample_billing :: billing_db where
  "sample_billing =
     \<lparr>bl_plans = [sample_plan 1 ''free'' 0, sample_plan 2 ''growth'' 49], bl_subs = [sub_live, sub_old, sub_due],
      bl_orgs = [sample_org 7, sample_org 8], bl_emails = [], bl_audit = []\<rparr>"

lemmas sample_subs = sub_live_def sub_old_def sub_due_def sample_sub_def

lemma sample_bill_ok: "bill_ok sample_billing"
  by (simp add: bill_ok_def sample_billing_def unique_indexes_def SUBSCRIPTION_STATUSES_def sample_subs live_def)

lemma sample_rows: "bl_subs sample_billing = [sub_live, sub_old, sub_due]" "bl_audit sample_billing = []"
  "bl_plans sample_billing = [sample_plan 1 ''free'' 0, sample_plan 2 ''growth'' 49]"
  by (simp_all add: sample_billing_def)

lemma sample_plans: "plan_by_id sample_billing 1 = Some (sample_plan 1 ''free'' 0)"
  "plan_by_id sample_billing 2 = Some (sample_plan 2 ''growth'' 49)"
  by (simp_all add: plan_by_id_def sample_rows sample_plan_def)

lemma sample_trail: "trail_open sample_billing_env sample_billing 7" "trail_open sample_billing_env sample_billing 8"
  by (simp_all add: trail_open_def sample_billing_def sample_org_def sample_billing_env_def)

lemma sample_prices: "price 0" "price 49"
  using has_scale_of_int [of 2 49] by (simp_all add: price_def)

lemma sample_clock: "clock_ok sample_billing_env sub_live"
  by (simp add: clock_ok_def sample_subs sample_billing_env_def)
     (simp add: sample_moment_def valid_datetime_def valid_date_def days_in_month_def month_index_def MAX_PERIODS_FORWARD_def
       day_micros_def instant_def ordinal_def days_before_year_def days_before_month_def is_leap_def)

lemma sub_live_fields: "sub_live \<in> set (bl_subs sample_billing)" "live sub_live" "sb_org sub_live = 7" "sb_plan sub_live = 1"
  "sb_status sub_live = ''active''"
  by (simp_all add: sample_rows) (simp_all add: sample_subs live_def)

theorem dunning_sweep_witness:
  "\<exists>res db'. run_dunning_once sample_billing_env sample_billing = (res, db') \<and> dn_canceled res = 1
     \<and> bl_subs db' = [sub_live, sub_old, canceled sub_due]"
proof -
  obtain res db' where r: "run_dunning_once sample_billing_env sample_billing = (res, db')"
    by (cases "run_dunning_once sample_billing_env sample_billing")
  have "sweepable sample_billing_env sample_billing sub_due"
    using sample_trail(2) by (simp add: sweepable_def dunning_due_def sample_subs)
      (simp add: sample_moment_def sample_billing_env_def day_micros_def instant_def ordinal_def days_before_year_def days_before_month_def is_leap_def)
  moreover have "\<not> sweepable sample_billing_env sample_billing sub_live" "\<not> sweepable sample_billing_env sample_billing sub_old"
    by (simp_all add: sweepable_def dunning_due_def) (simp_all add: sample_subs)
  ultimately show ?thesis using dunning_sweep_spec [OF sample_bill_ok r] r by (simp add: sample_rows)
qed

lemma sample_provision:
  "\<exists>ids db1. provision_org_billing sample_billing_env sample_billing (sample_org 7) (sample_plan 2 ''growth'' 49) = Inr (ids, db1)"
  by (simp add: provision_org_billing_def resolve_provider_def billing_block_def or_empty_get_def dict_get_def dict_of_def
      sample_org_def Let_def) (simp add: sample_billing_env_def)

theorem change_plan_witness:
  "\<exists>r db'. change_plan sample_billing_env sample_billing (sample_org 7) ''growth'' = (Inr r, db') \<and> pc_changed r"
proof -
  obtain ids db1 where p: "provision_org_billing sample_billing_env sample_billing (sample_org 7) (sample_plan 2 ''growth'' 49) = Inr (ids, db1)"
    using sample_provision by blast
  have h: "og_id (sample_org 7) = sb_org sub_live" "plan_by_id sample_billing (sb_plan sub_live) = Some (sample_plan 1 ''free'' 0)"
    "distinct (map bp_code (bl_plans sample_billing))" "sample_plan 2 ''growth'' 49 \<in> set (bl_plans sample_billing)"
    "bp_active (sample_plan 2 ''growth'' 49)" "bp_id (sample_plan 1 ''free'' 0) \<noteq> bp_id (sample_plan 2 ''growth'' 49)"
    "price (bp_price (sample_plan 1 ''free'' 0))" "price (bp_price (sample_plan 2 ''growth'' 49))"
    using sample_prices by (simp_all add: sample_rows sub_live_fields sample_plans) (simp_all add: sample_org_def sample_plan_def)
  show ?thesis
    using change_plan_spec [OF sample_bill_ok sub_live_fields(1,2) h sample_clock p] by (auto simp: sample_plan_def)
qed


theorem one_live_subscription_witness:
  "\<exists>db'. bill_step\<^sup>*\<^sup>* (sample_billing\<lparr>bl_subs := []\<rparr>) db' \<and> length (filter (\<lambda>s. sb_org s = 7 \<and> live s) (bl_subs db')) \<le> 1
     \<and> bl_subs db' \<noteq> []"
proof -
  let ?db = "sample_billing\<lparr>bl_subs := []\<rparr>"
  have "\<exists>e. add_months (sample_moment 2026 1 10) 1 = Inr e" by (simp add: add_months_def sample_moment_def Let_def)
  then obtain s db' where e: "ensure_subscription sample_billing_env ?db 7 ''free'' = Inr (Some s, db')" and "bl_subs db' = [s]"
    by (auto simp: ensure_subscription_def sample_rows sample_plan_def sample_billing_env_def commit_subs_def Let_def
        clear_stale_canceled_subscription_def delete_where_def unique_indexes_def live_def)
  moreover have "bill_step ?db db'" by (rule bill_step.subscribed [OF e]) simp
  ultimately show ?thesis using one_live_subscription_each [of ?db db' 7] by (auto intro!: exI [of _ db'])
qed

definition sample_event :: "string \<Rightarrow> string \<Rightarrow> BillingWebhookEvent" where
  "sample_event x st = \<lparr>we_id = ''evt_1'', we_type = ''subscription.updated'', we_external = Some x, we_status = Some st\<rparr>"

theorem refused_event_witness:
  "\<exists>db'. apply_billing_event sample_billing_env sample_billing (sample_event ''sub_b'' ''active'') = (Inl IntegrityError, db')
     \<and> length (bl_audit db') = 1"
proof -
  have h: "sub_old \<in> set (bl_subs sample_billing)" "sb_status sub_old = ''canceled''" "sb_org sub_live = sb_org sub_old"
    "filter (\<lambda>r. sb_external r = we_external (sample_event ''sub_b'' ''active'')) (bl_subs sample_billing) = [sub_old]"
    "get_or (we_external (sample_event ''sub_b'' ''active'')) [] \<noteq> []" "we_status (sample_event ''sub_b'' ''active'') = Some ''active''"
    by (simp_all add: sample_rows sample_event_def) (simp_all add: sample_subs)
  have "trail_open sample_billing_env sample_billing (sb_org sub_old)"
    using sample_trail(1) h(3) sub_live_fields(3) by simp
  from refused_event_is_audited_anyway [OF sample_bill_ok h(1,2) sub_live_fields(1,2) h(3-6) this]
  obtain db' row where "apply_billing_event sample_billing_env sample_billing (sample_event ''sub_b'' ''active'') = (Inl IntegrityError, db')"
    "bl_audit db' = bl_audit sample_billing @ [row]" by blast
  then show ?thesis by (auto simp: sample_rows intro!: exI [of _ db'])
qed

theorem provider_event_witness:
  "\<exists>r db'. apply_billing_event sample_billing_env sample_billing (sample_event ''sub_a'' ''past_due'') = (Inr r, db')
     \<and> snd (apply_billing_event sample_billing_env db' (sample_event ''sub_a'' ''past_due'')) = db'"
proof -
  have f: "filter (\<lambda>r. sb_external r = Some ''sub_a'') (bl_subs sample_billing) = [sub_live]"
    by (simp add: sample_rows) (simp add: sample_subs)
  have u: "unique_indexes (put_sub (sub_live\<lparr>sb_status := ''past_due''\<rparr>) (bl_subs sample_billing))"
    by (simp add: sample_rows put_sub_def update_where_def) (simp add: unique_indexes_def sample_subs live_def)
  obtain r db' where a: "apply_billing_event sample_billing_env sample_billing (sample_event ''sub_a'' ''past_due'') = (Inr r, db')"
    "wa_applied r"
    using sub_live_fields(5) by (simp add: apply_billing_event_def sample_event_def f SUBSCRIPTION_STATUSES_def Let_def commit_subs_def u)
  then show ?thesis using provider_event_applies_once [OF sample_bill_ok a] by auto
qed

end
