(* ===== verification/Procurement.thy ===== *)
theory Procurement
  imports Approval_Chain "HOL-Library.AList"
begin

text \<open>
  Purchase requisitions, intake requests and purchase orders (models/procurement.py,
  services/requisition_service.py, services/intake_service.py, api/requisitions.py, api/intake.py and
  the ERP pull of api/purchase_orders.py).

  Lines are kept inside their header. A handler that locks its row acts on the row as it is; the
  others read a row, decide, and write single columns back, so the part after the read takes the row as
  it was read. Descriptive columns no code reads (a catalog's unit of measure, an intake's type and
  description) and responses are left out.
\<close>

section \<open>Rows\<close>

datatype requisition_status =
    ReqDraft | ReqSubmitted | ReqPending_approval | ReqApproved | ReqRejected | ReqConverted | ReqCancelled

datatype intake_status =
    IntakeOpen | IntakeIn_review | IntakeApproved | IntakeRejected | IntakeConverted | IntakeCancelled

datatype budget_dimension = Department | Project | Cost_center | Gl_account

record po_line =
  pl_description :: "string option"
  pl_quantity :: "rat option"
  pl_price :: "rat option"
  pl_total :: "rat option"

record purchase_order =
  po_id :: uuid
  po_num :: string
  po_vendor :: "uuid option"
  po_total :: rat
  po_status :: string
  po_expected :: "int option"
  po_org :: uuid
  po_entity :: "uuid option"
  po_created :: time
  po_lines :: "po_line list"

record goods_receipt =
  gr_id :: uuid
  gr_po :: "uuid option"
  gr_status :: string
  gr_entity :: "uuid option"
  gr_created :: time
  gr_received :: "rat option list"

record inspection =
  qi_id :: uuid
  qi_po :: "uuid option"
  qi_gr :: "uuid option"
  qi_result :: string
  qi_accepted :: "rat option"
  qi_notes :: "string option"
  qi_created :: time

record req_line =
  rl_id :: uuid
  rl_number :: "int option"
  rl_catalog :: "uuid option"
  rl_description :: "string option"
  rl_quantity :: "rat option"
  rl_price :: "rat option"
  rl_total :: "rat option"
  rl_gl :: "uuid option"

record requisition =
  rq_id :: uuid
  rq_number :: string
  rq_title :: "string option"
  rq_requester :: uuid
  rq_department :: "string option"
  rq_status :: requisition_status
  rq_needed_by :: "int option"
  rq_justification :: "string option"
  rq_vendor :: "uuid option"
  rq_contract :: "uuid option"
  rq_budget :: "uuid option"
  rq_total :: rat
  rq_currency :: string
  rq_notes :: "string option"
  rq_submitted_at :: "time option"
  rq_approved_at :: "time option"
  rq_approved_by :: "uuid option"
  rq_rejection :: "string option"
  rq_po :: "uuid option"
  rq_org :: uuid
  rq_entity :: "uuid option"
  rq_lines :: "req_line list"

record budget =
  bg_id :: uuid
  bg_name :: string
  bg_dimension :: budget_dimension
  bg_value :: string
  bg_start :: "int option"
  bg_end :: "int option"
  bg_amount :: rat
  bg_currency :: string
  bg_org :: uuid
  bg_entity :: "uuid option"

record intake_request =
  ik_id :: uuid
  ik_number :: string
  ik_title :: string
  ik_requester :: uuid
  ik_amount :: "rat option"
  ik_currency :: string
  ik_vendor :: "uuid option"
  ik_status :: intake_status
  ik_form :: "jdict option"
  ik_needed_by :: "int option"
  ik_justification :: "string option"
  ik_req :: "uuid option"
  ik_po :: "uuid option"
  ik_org :: uuid
  ik_entity :: "uuid option"

text \<open>Of vendors and contracts only what a link is checked against; the columns of an invoice the
  budgets add to the ones of \<open>invoice\<close>.\<close>

record party =
  pt_id :: uuid
  pt_name :: string
  pt_org :: uuid
  pt_entity :: "uuid option"

record ap_invoice = invoice +
  project :: "string option"
  invoice_date :: "int option"

record proc_db =
  pd_reqs :: "requisition list"
  pd_intakes :: "intake_request list"
  pd_orders :: "purchase_order list"
  pd_receipts :: "goods_receipt list"
  pd_inspections :: "inspection list"
  pd_budgets :: "budget list"
  pd_vendors :: "party list"
  pd_contracts :: "party list"
  pd_invoices :: "ap_invoice list"
  pd_audit :: "audit_row list"

text \<open>The caller of a route, the clock, the ids the next rows get (for the lines one for each place)
  and the text of an amount.\<close>

record proc_env =
  pv_user :: uuid
  pv_org :: uuid
  pv_entity :: "uuid option"
  pv_now :: time
  pv_year :: int
  pv_fresh :: uuid
  pv_line :: "int \<Rightarrow> uuid"
  pv_audit_key :: uuid
  pv_money_text :: "rat \<Rightarrow> string"

definition audit_proc :: "proc_env \<Rightarrow> string \<Rightarrow> string \<Rightarrow> uuid \<Rightarrow> jdict \<Rightarrow> proc_db \<Rightarrow> proc_db" where
  "audit_proc env action entity i details db =
     db\<lparr>pd_audit := pd_audit db @
          [\<lparr>au_correlation = pv_audit_key env, au_org = pv_org env, au_actor = Some (pv_user env), au_action = action,
            au_entity_type = entity, au_entity_id = i, au_details = details\<rparr>]\<rparr>"

text \<open>\<open>tenant.apply_entity_scope\<close>: no selected entity admits every row; a row without an entity is
  admitted only where shared rows are.\<close>

definition apply_entity_scope :: "uuid option \<Rightarrow> bool \<Rightarrow> uuid option \<Rightarrow> bool" where
  "apply_entity_scope ent include_shared row \<longleftrightarrow> ent = None \<or> row = ent \<or> (include_shared \<and> row = None)"

section \<open>The requisition service\<close>

fun REQUISITION_TRANSITIONS :: "requisition_status \<Rightarrow> requisition_status list" where
  "REQUISITION_TRANSITIONS ReqDraft = [ReqPending_approval, ReqCancelled]"
| "REQUISITION_TRANSITIONS ReqSubmitted = [ReqPending_approval, ReqCancelled]"
| "REQUISITION_TRANSITIONS ReqPending_approval = [ReqApproved, ReqRejected, ReqCancelled]"
| "REQUISITION_TRANSITIONS ReqApproved = [ReqConverted, ReqCancelled]"
| "REQUISITION_TRANSITIONS ReqRejected = [ReqDraft]"
| "REQUISITION_TRANSITIONS ReqConverted = []"
| "REQUISITION_TRANSITIONS ReqCancelled = []"

definition guard_transition :: "requisition_status \<Rightarrow> requisition_status \<Rightarrow> unit py" where
  "guard_transition current target =
     py_guard (target \<notin> set (REQUISITION_TRANSITIONS current)) (HTTPException 422 ''Cannot move a requisition'')"

fun line_total :: "rat option \<Rightarrow> rat option \<Rightarrow> rat option py" where
  "line_total (Some q) (Some p) =
     py_bind (quantize_half_up 2 (Fin (ctx_mult q p)))
       (\<lambda>d. case d of Fin x \<Rightarrow> Inr (Some x) | _ \<Rightarrow> Inl InvalidOperation)"
| "line_total _ _ = Inr None"

definition recompute_total :: "req_line list \<Rightarrow> rat" where
  "recompute_total ls = sum_list (map (\<lambda>l. get_or (rl_total l) 0) ls)"

definition opt_uuid :: "string option \<Rightarrow> string \<Rightarrow> uuid option py" where
  "opt_uuid raw field =
     (if raw \<in> {None, Some []} then Inr None
      else case uuid_parse (the raw) of
             None \<Rightarrow> Inl (HTTPException 400 (''Invalid '' @ field))
           | Some u \<Rightarrow> Inr (Some u))"

record line_body =
  lb_number :: "int option"
  lb_catalog :: "string option"
  lb_description :: "string option"
  lb_quantity :: "rat option"
  lb_price :: "rat option"
  lb_gl :: "string option"

fun build_line_items :: "(int \<Rightarrow> uuid) \<Rightarrow> int \<Rightarrow> line_body list \<Rightarrow> req_line list py" where
  "build_line_items fresh n [] = Inr []"
| "build_line_items fresh n (b # bs) =
     py_bind (opt_uuid (lb_catalog b) ''catalog_item_id'') (\<lambda>cat.
     py_bind (opt_uuid (lb_gl b) ''gl_account_id'') (\<lambda>gl.
     py_bind (line_total (lb_quantity b) (lb_price b)) (\<lambda>t.
     py_bind (build_line_items fresh (n + 1) bs) (\<lambda>ls.
       Inr (\<lparr>rl_id = fresh n, rl_number = Some (get_or (lb_number b) n), rl_catalog = cat, rl_description = lb_description b,
             rl_quantity = lb_quantity b, rl_price = lb_price b, rl_total = t, rl_gl = gl\<rparr> # ls)))))"

definition convert_requisition_to_po :: "requisition \<Rightarrow> uuid \<Rightarrow> time \<Rightarrow> uuid \<Rightarrow> string \<Rightarrow> purchase_order" where
  "convert_requisition_to_po req i now org num =
     \<lparr>po_id = i, po_num = num, po_vendor = rq_vendor req, po_total = rq_total req, po_status = ''open'',
      po_expected = None, po_org = org, po_entity = rq_entity req, po_created = now,
      po_lines = map (\<lambda>l. \<lparr>pl_description = rl_description l, pl_quantity = rl_quantity l,
                            pl_price = rl_price l, pl_total = rl_total l\<rparr>) (rq_lines req)\<rparr>"

text \<open>What the columns of a requisition accept: NUMERIC(15,2) for the totals.\<close>

definition fits_money :: "rat \<Rightarrow> bool" where
  "fits_money x \<longleftrightarrow> \<bar>round_half_up 2 x\<bar> < 10 ^ 13"

definition flush_lines :: "req_line list \<Rightarrow> unit py" where
  "flush_lines ls =
     py_guard (\<not> list_all (\<lambda>l. fits_money (get_or (rl_total l) 0)) ls \<or> \<not> fits_money (recompute_total ls)) DataError"

section \<open>The requisition routes\<close>

text \<open>The optional links of a body or a patch: absent, or present with the text sent.\<close>

record links_body =
  lk_vendor :: "string option option"
  lk_contract :: "string option option"
  lk_budget :: "string option option"

record links =
  ln_vendor :: "uuid option"
  ln_contract :: "uuid option"
  ln_budget :: "uuid option"

definition find_party :: "uuid \<Rightarrow> uuid option \<Rightarrow> party list \<Rightarrow> uuid \<Rightarrow> party option" where
  "find_party org ent rows i = find (\<lambda>r. pt_id r = i \<and> pt_org r = org \<and> apply_entity_scope ent True (pt_entity r)) rows"

definition find_budget :: "uuid \<Rightarrow> uuid option \<Rightarrow> budget list \<Rightarrow> uuid \<Rightarrow> budget option" where
  "find_budget org ent rows i = find (\<lambda>r. bg_id r = i \<and> bg_org r = org \<and> apply_entity_scope ent True (bg_entity r)) rows"

definition resolve_party :: "uuid \<Rightarrow> uuid option \<Rightarrow> party list \<Rightarrow> string \<Rightarrow> string \<Rightarrow> string option option \<Rightarrow> uuid option py" where
  "resolve_party org ent rows field label raw =
     (case raw of
        None \<Rightarrow> Inr None
      | Some txt \<Rightarrow>
          py_bind (opt_uuid txt field) (\<lambda>v.
            case v of
              None \<Rightarrow> Inr None
            | Some i \<Rightarrow>
                py_bind (py_guard (find_party org ent rows i = None) (HTTPException 404 (label @ '' not found''))) (\<lambda>_.
                  Inr (Some i))))"

definition resolve_budget :: "uuid \<Rightarrow> uuid option \<Rightarrow> budget list \<Rightarrow> string \<Rightarrow> string option option \<Rightarrow> uuid option py" where
  "resolve_budget org ent rows cur raw =
     (case raw of
        None \<Rightarrow> Inr None
      | Some txt \<Rightarrow>
          py_bind (opt_uuid txt ''budget_id'') (\<lambda>v.
            case v of
              None \<Rightarrow> Inr None
            | Some i \<Rightarrow>
                (case find_budget org ent rows i of
                   None \<Rightarrow> Inl (HTTPException 404 ''Budget not found'')
                 | Some b \<Rightarrow>
                     py_bind (py_guard (py_upper (bg_currency b) \<noteq> py_upper cur)
                                (HTTPException 422 ''Budget is denominated in'')) (\<lambda>_. Inr (Some i)))))"

definition resolve_links :: "proc_db \<Rightarrow> links_body \<Rightarrow> uuid \<Rightarrow> string \<Rightarrow> uuid option \<Rightarrow> links py" where
  "resolve_links db payload org cur ent =
     py_bind (resolve_party org ent (pd_vendors db) ''vendor_id'' ''Vendor'' (lk_vendor payload)) (\<lambda>v.
     py_bind (resolve_party org ent (pd_contracts db) ''contract_id'' ''Contract'' (lk_contract payload)) (\<lambda>c.
     py_bind (resolve_budget org ent (pd_budgets db) cur (lk_budget payload)) (\<lambda>b.
       Inr \<lparr>ln_vendor = v, ln_contract = c, ln_budget = b\<rparr>)))"

definition get_requisition :: "proc_db \<Rightarrow> uuid \<Rightarrow> requisition py" where
  "get_requisition db i =
     (case find (\<lambda>r. rq_id r = i) (pd_reqs db) of
        None \<Rightarrow> Inl (HTTPException 404 ''Requisition not found'')
      | Some r \<Rightarrow> Inr r)"

definition write_requisition :: "uuid \<Rightarrow> (requisition \<Rightarrow> requisition) \<Rightarrow> proc_db \<Rightarrow> proc_db" where
  "write_requisition i f db = db\<lparr>pd_reqs := update_where (\<lambda>r. rq_id r = i) f (pd_reqs db)\<rparr>"

record requisition_body =
  rb_number :: string
  rb_title :: "string option"
  rb_department :: "string option"
  rb_needed_by :: "int option"
  rb_justification :: "string option"
  rb_currency :: string
  rb_notes :: "string option"
  rb_vendor :: "string option"
  rb_contract :: "string option"
  rb_budget :: "string option"
  rb_lines :: "line_body list"

definition create_requisition :: "proc_env \<Rightarrow> proc_db \<Rightarrow> requisition_body \<Rightarrow> (requisition \<times> proc_db) py" where
  "create_requisition env db body =
     py_bind (resolve_links db \<lparr>lk_vendor = Some (rb_vendor body), lk_contract = Some (rb_contract body),
                lk_budget = Some (rb_budget body)\<rparr> (pv_org env) (rb_currency body) (pv_entity env)) (\<lambda>lns.
     py_bind (build_line_items (pv_line env) 1 (rb_lines body)) (\<lambda>ls.
     py_bind (flush_lines ls) (\<lambda>_.
       let r = \<lparr>rq_id = pv_fresh env, rq_number = rb_number body, rq_title = rb_title body,
                rq_requester = pv_user env, rq_department = rb_department body, rq_status = ReqDraft,
                rq_needed_by = rb_needed_by body, rq_justification = rb_justification body,
                rq_vendor = ln_vendor lns, rq_contract = ln_contract lns, rq_budget = ln_budget lns,
                rq_total = recompute_total ls, rq_currency = rb_currency body, rq_notes = rb_notes body,
                rq_submitted_at = None, rq_approved_at = None, rq_approved_by = None, rq_rejection = None,
                rq_po = None, rq_org = pv_org env, rq_entity = pv_entity env, rq_lines = ls\<rparr>
       in Inr (r, audit_proc env ''requisition.created'' ''requisition'' (rq_id r)
                    [(''requisition_number'', JStr (rq_number r)), (''total'', JStr (pv_money_text env (rq_total r)))]
                    (db\<lparr>pd_reqs := pd_reqs db @ [r]\<rparr>)))))"

text \<open>A patch: \<open>None\<close> for a field not sent, \<open>Some None\<close> for one sent as null.\<close>

record requisition_patch = links_body +
  rp_number :: "string option option"
  rp_title :: "string option option"
  rp_department :: "string option option"
  rp_needed_by :: "int option option"
  rp_justification :: "string option option"
  rp_currency :: "string option option"
  rp_notes :: "string option option"
  rp_lines :: "line_body list option"

definition sent_change :: "'a option \<Rightarrow> 'a \<Rightarrow> bool" where
  "sent_change sent old \<longleftrightarrow> sent \<noteq> None \<and> sent \<noteq> Some old"

text \<open>A column the patch changes takes the value sent; any other keeps what the row holds.\<close>

definition set_column :: "'a option \<Rightarrow> 'a \<Rightarrow> 'a \<Rightarrow> 'a" where
  "set_column sent old held = (if sent_change sent old then the sent else held)"

definition changed_fields :: "(string \<times> bool) list \<Rightarrow> string list" where
  "changed_fields fs = map fst (filter snd fs)"

definition effective_currency :: "requisition_patch \<Rightarrow> requisition \<Rightarrow> string" where
  "effective_currency p r =
     (case rp_currency p of Some (Some c) \<Rightarrow> (if c = [] then rq_currency r else c) | _ \<Rightarrow> rq_currency r)"

definition links_to_resolve :: "requisition_patch \<Rightarrow> requisition \<Rightarrow> links_body" where
  "links_to_resolve p r =
     \<lparr>lk_vendor = lk_vendor p, lk_contract = lk_contract p,
      lk_budget = (if rp_currency p \<noteq> None \<and> lk_budget p = None \<and> rq_budget r \<noteq> None
                   then Some (Some (uuid_str (the (rq_budget r)))) else lk_budget p)\<rparr>"

text \<open>The columns a patch writes, given the row as it was read; null in a required text column is
  refused by the database before this.\<close>

definition link_sent :: "string option option \<Rightarrow> uuid option \<Rightarrow> uuid option option" where
  "link_sent raw v = (if raw = None then None else Some v)"

definition patched :: "requisition_patch \<Rightarrow> links \<Rightarrow> requisition \<Rightarrow> requisition \<Rightarrow> requisition" where
  "patched p lns snap r =
     r\<lparr>rq_number := set_column (map_option (\<lambda>v. get_or v []) (rp_number p)) (rq_number snap) (rq_number r),
       rq_title := set_column (rp_title p) (rq_title snap) (rq_title r),
       rq_department := set_column (rp_department p) (rq_department snap) (rq_department r),
       rq_needed_by := set_column (rp_needed_by p) (rq_needed_by snap) (rq_needed_by r),
       rq_justification := set_column (rp_justification p) (rq_justification snap) (rq_justification r),
       rq_currency := set_column (map_option (\<lambda>v. get_or v []) (rp_currency p)) (rq_currency snap) (rq_currency r),
       rq_notes := set_column (rp_notes p) (rq_notes snap) (rq_notes r),
       rq_vendor := set_column (link_sent (lk_vendor p) (ln_vendor lns)) (rq_vendor snap) (rq_vendor r),
       rq_contract := set_column (link_sent (lk_contract p) (ln_contract lns)) (rq_contract snap) (rq_contract r),
       rq_budget := set_column (link_sent (lk_budget p) (ln_budget lns)) (rq_budget snap) (rq_budget r)\<rparr>"

definition patch_changes :: "requisition_patch \<Rightarrow> links \<Rightarrow> requisition \<Rightarrow> string list" where
  "patch_changes p lns snap =
     changed_fields
       [(''requisition_number'', sent_change (rp_number p) (Some (rq_number snap))),
        (''title'', sent_change (rp_title p) (rq_title snap)),
        (''department'', sent_change (rp_department p) (rq_department snap)),
        (''needed_by'', sent_change (rp_needed_by p) (rq_needed_by snap)),
        (''justification'', sent_change (rp_justification p) (rq_justification snap)),
        (''currency'', sent_change (rp_currency p) (Some (rq_currency snap))),
        (''notes'', sent_change (rp_notes p) (rq_notes snap)),
        (''vendor_id'', sent_change (link_sent (lk_vendor p) (ln_vendor lns)) (rq_vendor snap)),
        (''contract_id'', sent_change (link_sent (lk_contract p) (ln_contract lns)) (rq_contract snap)),
        (''budget_id'', sent_change (link_sent (lk_budget p) (ln_budget lns)) (rq_budget snap)),
        (''line_items'', rp_lines p \<noteq> None)]"

definition new_lines :: "(int \<Rightarrow> uuid) \<Rightarrow> requisition_patch \<Rightarrow> req_line list option py" where
  "new_lines fresh p =
     (case rp_lines p of None \<Rightarrow> Inr None
      | Some bs \<Rightarrow> py_bind (build_line_items fresh 1 bs) (\<lambda>ls. py_bind (flush_lines ls) (\<lambda>_. Inr (Some ls))))"

text \<open>New lines replace the lines the session loaded: the flush deletes those rows, by their keys, and
  inserts the new ones, so lines somebody else put there since stay. The total is a column like the
  others, written when it differs from the one that was read.\<close>

definition relined :: "req_line list option \<Rightarrow> requisition \<Rightarrow> requisition \<Rightarrow> requisition" where
  "relined new snap r =
     (case new of
        None \<Rightarrow> r
      | Some ls \<Rightarrow> r\<lparr>rq_lines := filter (\<lambda>l. rl_id l \<notin> rl_id ` set (rq_lines snap)) (rq_lines r) @ ls,
                     rq_total := set_column (Some (recompute_total ls)) (rq_total snap) (rq_total r)\<rparr>)"

definition update_requisition_from :: "proc_env \<Rightarrow> requisition \<Rightarrow> requisition_patch \<Rightarrow> proc_db \<Rightarrow> proc_db py" where
  "update_requisition_from env snap p db =
     py_bind (py_guard (rq_status snap \<noteq> ReqDraft) (HTTPException 422 ''Cannot edit a requisition in'')) (\<lambda>_.
     py_bind (resolve_links db (links_to_resolve p snap) (pv_org env) (effective_currency p snap) (rq_entity snap)) (\<lambda>lns.
     py_bind (new_lines (pv_line env) p) (\<lambda>new.
     py_bind (py_guard (rp_number p = Some None \<or> rp_currency p = Some None) IntegrityError) (\<lambda>_.
       let changed = patch_changes p lns snap;
           db1 = write_requisition (rq_id snap) (\<lambda>r. relined new snap (patched p lns snap r)) db
       in Inr (if changed = [] then db1
               else audit_proc env ''requisition.updated'' ''requisition'' (rq_id snap)
                      [(''fields'', JList (map JStr changed))] db1)))))"

definition update_requisition :: "proc_env \<Rightarrow> proc_db \<Rightarrow> uuid \<Rightarrow> requisition_patch \<Rightarrow> proc_db py" where
  "update_requisition env db i p = py_bind (get_requisition db i) (\<lambda>r. update_requisition_from env r p db)"

definition delete_requisition :: "proc_env \<Rightarrow> proc_db \<Rightarrow> uuid \<Rightarrow> proc_db py" where
  "delete_requisition env db i =
     py_bind (get_requisition db i) (\<lambda>r.
     py_bind (py_guard (rq_po r \<noteq> None \<or> rq_status r = ReqConverted)
                (HTTPException 409 ''Requisition has been converted to a PO'')) (\<lambda>_.
     py_bind (py_guard (list_ex (\<lambda>k. ik_req k = Some (rq_id r)) (pd_intakes db))
                (HTTPException 409 ''Requisition was converted from an intake request'')) (\<lambda>_.
       Inr ((audit_proc env ''requisition.deleted'' ''requisition'' (rq_id r)
               [(''requisition_number'', JStr (rq_number r))] db)
            \<lparr>pd_reqs := delete_where (\<lambda>x. rq_id x = rq_id r) (pd_reqs db)\<rparr>))))"

section \<open>The approval state machine\<close>

primrec requisition_value :: "requisition_status \<Rightarrow> string" where
  "requisition_value ReqDraft = ''draft''"
| "requisition_value ReqSubmitted = ''submitted''"
| "requisition_value ReqPending_approval = ''pending_approval''"
| "requisition_value ReqApproved = ''approved''"
| "requisition_value ReqRejected = ''rejected''"
| "requisition_value ReqConverted = ''converted''"
| "requisition_value ReqCancelled = ''cancelled''"

definition audit_transition :: "proc_env \<Rightarrow> requisition \<Rightarrow> requisition_status \<Rightarrow> string \<Rightarrow> jdict \<Rightarrow> proc_db \<Rightarrow> proc_db" where
  "audit_transition env req st action extra db =
     audit_proc env action ''requisition'' (rq_id req) ((''status'', JStr (requisition_value st)) # extra) db"

definition reason_extra :: "string option \<Rightarrow> jdict" where
  "reason_extra reason = (if reason \<in> {None, Some []} then [] else [(''reason'', JStr (the reason))])"

text \<open>The part of a transition after the row was read as \<open>snap\<close>: the guard looks at \<open>snap\<close>, the write
  touches the named columns of the row as it is by then.\<close>

definition move_requisition ::
    "proc_env \<Rightarrow> requisition \<Rightarrow> requisition_status \<Rightarrow> (requisition \<Rightarrow> requisition) \<Rightarrow> string \<Rightarrow> jdict \<Rightarrow> proc_db \<Rightarrow> proc_db py" where
  "move_requisition env snap target f action extra db =
     py_bind (guard_transition (rq_status snap) target) (\<lambda>_.
       Inr (audit_transition env snap target action extra
              (write_requisition (rq_id snap) (\<lambda>r. (f r)\<lparr>rq_status := target\<rparr>) db)))"

definition submit_requisition_from :: "proc_env \<Rightarrow> requisition \<Rightarrow> proc_db \<Rightarrow> proc_db py" where
  "submit_requisition_from env snap =
     move_requisition env snap ReqPending_approval (\<lambda>r. r\<lparr>rq_submitted_at := Some (pv_now env)\<rparr>)
       ''requisition.submitted'' []"

text \<open>\<open>check_segregation\<close> on a stand-in that carries the requester and no other actor, always on.\<close>

definition check_requester :: "requisition \<Rightarrow> uuid \<Rightarrow> unit py" where
  "check_requester req actor = py_guard (rq_requester req = actor) (HTTPException 403 ''Segregation of duties'')"

definition approve_requisition_from :: "proc_env \<Rightarrow> requisition \<Rightarrow> proc_db \<Rightarrow> proc_db py" where
  "approve_requisition_from env snap db =
     py_bind (guard_transition (rq_status snap) ReqApproved) (\<lambda>_.
     py_bind (check_requester snap (pv_user env)) (\<lambda>_.
       move_requisition env snap ReqApproved
         (\<lambda>r. r\<lparr>rq_approved_at := Some (pv_now env), rq_approved_by := Some (pv_user env)\<rparr>)
         ''requisition.approved'' [] db))"

definition reject_requisition_from :: "proc_env \<Rightarrow> string option \<Rightarrow> requisition \<Rightarrow> proc_db \<Rightarrow> proc_db py" where
  "reject_requisition_from env reason snap =
     move_requisition env snap ReqRejected (\<lambda>r. r\<lparr>rq_rejection := reason\<rparr>)
       ''requisition.rejected'' (reason_extra reason)"

definition cancel_requisition_from :: "proc_env \<Rightarrow> string option \<Rightarrow> requisition \<Rightarrow> proc_db \<Rightarrow> proc_db py" where
  "cancel_requisition_from env reason snap =
     move_requisition env snap ReqCancelled (\<lambda>r. r) ''requisition.cancelled'' (reason_extra reason)"

definition reopen_requisition_from :: "proc_env \<Rightarrow> requisition \<Rightarrow> proc_db \<Rightarrow> proc_db py" where
  "reopen_requisition_from env snap =
     move_requisition env snap ReqDraft (\<lambda>r. r\<lparr>rq_submitted_at := None\<rparr>) ''requisition.reopened'' []"

definition submit_requisition :: "proc_env \<Rightarrow> proc_db \<Rightarrow> uuid \<Rightarrow> proc_db py" where
  "submit_requisition env db i = py_bind (get_requisition db i) (\<lambda>r. submit_requisition_from env r db)"

definition approve_requisition :: "proc_env \<Rightarrow> proc_db \<Rightarrow> uuid \<Rightarrow> proc_db py" where
  "approve_requisition env db i = py_bind (get_requisition db i) (\<lambda>r. approve_requisition_from env r db)"

definition reject_requisition :: "proc_env \<Rightarrow> proc_db \<Rightarrow> uuid \<Rightarrow> string option \<Rightarrow> proc_db py" where
  "reject_requisition env db i reason =
     py_bind (get_requisition db i) (\<lambda>r. reject_requisition_from env reason r db)"

definition cancel_requisition :: "proc_env \<Rightarrow> proc_db \<Rightarrow> uuid \<Rightarrow> string option \<Rightarrow> proc_db py" where
  "cancel_requisition env db i reason =
     py_bind (get_requisition db i) (\<lambda>r. cancel_requisition_from env reason r db)"

definition reopen_requisition :: "proc_env \<Rightarrow> proc_db \<Rightarrow> uuid \<Rightarrow> proc_db py" where
  "reopen_requisition env db i = py_bind (get_requisition db i) (\<lambda>r. reopen_requisition_from env r db)"

text \<open>\<open>convert-to-po\<close> locks the row: it returns the order and whether this call created it.\<close>

definition find_order :: "proc_db \<Rightarrow> uuid \<Rightarrow> purchase_order option" where
  "find_order db i = find (\<lambda>o'. po_id o' = i) (pd_orders db)"

definition convert_to_po :: "proc_env \<Rightarrow> proc_db \<Rightarrow> uuid \<Rightarrow> (purchase_order \<times> bool \<times> proc_db) py" where
  "convert_to_po env db i =
     py_bind (get_requisition db i) (\<lambda>r.
       case Option.bind (rq_po r) (find_order db) of
         Some p \<Rightarrow> Inr (p, False, db)
       | None \<Rightarrow>
           py_bind (guard_transition (rq_status r) ReqConverted) (\<lambda>_.
             let p = convert_requisition_to_po r (pv_fresh env) (pv_now env) (pv_org env) (''PO-'' @ rq_number r)
             in Inr (p, True,
                  audit_proc env ''requisition.converted_to_po'' ''requisition'' (rq_id r)
                    [(''po_id'', JStr (uuid_str (po_id p))), (''po_number'', JStr (po_num p)),
                     (''total'', JStr (pv_money_text env (po_total p)))]
                    (write_requisition (rq_id r) (\<lambda>x. x\<lparr>rq_status := ReqConverted, rq_po := Some (po_id p)\<rparr>)
                       (db\<lparr>pd_orders := pd_orders db @ [p]\<rparr>)))))"

section \<open>Intake requests\<close>

fun INTAKE_TRANSITIONS :: "intake_status \<Rightarrow> intake_status list" where
  "INTAKE_TRANSITIONS IntakeOpen = [IntakeIn_review, IntakeCancelled]"
| "INTAKE_TRANSITIONS IntakeIn_review = [IntakeApproved, IntakeRejected, IntakeCancelled]"
| "INTAKE_TRANSITIONS IntakeApproved = [IntakeConverted, IntakeCancelled]"
| "INTAKE_TRANSITIONS IntakeRejected = [IntakeOpen]"
| "INTAKE_TRANSITIONS IntakeConverted = []"
| "INTAKE_TRANSITIONS IntakeCancelled = []"

definition guard_intake :: "intake_status \<Rightarrow> intake_status \<Rightarrow> unit py" where
  "guard_intake current target =
     py_guard (target \<notin> set (INTAKE_TRANSITIONS current)) (HTTPException 422 ''Cannot move an intake request'')"

definition get_intake :: "proc_db \<Rightarrow> uuid \<Rightarrow> intake_request py" where
  "get_intake db i =
     (case find (\<lambda>k. ik_id k = i) (pd_intakes db) of
        None \<Rightarrow> Inl (HTTPException 404 ''Intake request not found'')
      | Some k \<Rightarrow> Inr k)"

definition write_intake :: "uuid \<Rightarrow> (intake_request \<Rightarrow> intake_request) \<Rightarrow> proc_db \<Rightarrow> proc_db" where
  "write_intake i f db = db\<lparr>pd_intakes := update_where (\<lambda>k. ik_id k = i) f (pd_intakes db)\<rparr>"

text \<open>\<open>INTK-<year>-<seq>\<close>, one past the requests of the year, at least four digits.\<close>

definition generate_request_number :: "proc_env \<Rightarrow> proc_db \<Rightarrow> string" where
  "generate_request_number env db =
     (let prefix = ''INTK-'' @ int_str (pv_year env) @ ''-''
      in prefix @ zero_padded 4 (length (filter (\<lambda>k. starts_with prefix (ik_number k)) (pd_intakes db)) + 1))"

definition resolve_vendor_id :: "proc_db \<Rightarrow> string option \<Rightarrow> uuid \<Rightarrow> uuid option \<Rightarrow> uuid option py" where
  "resolve_vendor_id db raw org ent =
     resolve_party org ent (pd_vendors db) ''vendor_id'' ''Vendor'' (Some raw)"

record intake_body =
  ib_number :: "string option"
  ib_title :: string
  ib_amount :: "rat option"
  ib_currency :: string
  ib_vendor :: "string option"
  ib_form :: "jdict option"
  ib_needed_by :: "int option"
  ib_justification :: "string option"

definition create_intake :: "proc_env \<Rightarrow> proc_db \<Rightarrow> intake_body \<Rightarrow> (intake_request \<times> proc_db) py" where
  "create_intake env db body =
     py_bind (resolve_vendor_id db (ib_vendor body) (pv_org env) (pv_entity env)) (\<lambda>v.
       let k = \<lparr>ik_id = pv_fresh env,
                ik_number = (if ib_number body \<in> {None, Some []} then generate_request_number env db else the (ib_number body)),
                ik_title = ib_title body, ik_requester = pv_user env, ik_amount = ib_amount body,
                ik_currency = ib_currency body, ik_vendor = v, ik_status = IntakeOpen, ik_form = ib_form body,
                ik_needed_by = ib_needed_by body, ik_justification = ib_justification body, ik_req = None,
                ik_po = None, ik_org = pv_org env, ik_entity = pv_entity env\<rparr>
       in Inr (k, audit_proc env ''intake.created'' ''intake_request'' (ik_id k)
                    [(''request_number'', JStr (ik_number k))] (db\<lparr>pd_intakes := pd_intakes db @ [k]\<rparr>)))"

record intake_patch =
  ip_title :: "string option option"
  ip_amount :: "rat option option"
  ip_currency :: "string option option"
  ip_vendor :: "string option option"
  ip_form :: "jdict option option"
  ip_needed_by :: "int option option"
  ip_justification :: "string option option"

text \<open>An intake is edited and decided on the row as it is; of its races with a conversion, which locks,
  nothing is claimed.\<close>

definition update_intake :: "proc_env \<Rightarrow> proc_db \<Rightarrow> uuid \<Rightarrow> intake_patch \<Rightarrow> proc_db py" where
  "update_intake env db i p =
     py_bind (get_intake db i) (\<lambda>k.
     py_bind (py_guard (ik_status k \<noteq> IntakeOpen) (HTTPException 422 ''Cannot edit an intake in'')) (\<lambda>_.
     py_bind (case ip_vendor p of None \<Rightarrow> Inr (ik_vendor k)
              | Some raw \<Rightarrow> resolve_vendor_id db raw (pv_org env) (ik_entity k)) (\<lambda>v.
     py_bind (py_guard (ip_title p = Some None \<or> ip_currency p = Some None) IntegrityError) (\<lambda>_.
       let changed = changed_fields
             [(''title'', sent_change (ip_title p) (Some (ik_title k))),
              (''estimated_amount'', sent_change (ip_amount p) (ik_amount k)),
              (''currency'', sent_change (ip_currency p) (Some (ik_currency k))),
              (''form_data'', sent_change (ip_form p) (ik_form k)),
              (''needed_by'', sent_change (ip_needed_by p) (ik_needed_by k)),
              (''justification'', sent_change (ip_justification p) (ik_justification k))];
           db1 = write_intake i (\<lambda>k. k\<lparr>ik_title := get_or (get_or (ip_title p) (Some (ik_title k))) [],
                   ik_amount := get_or (ip_amount p) (ik_amount k),
                   ik_currency := get_or (get_or (ip_currency p) (Some (ik_currency k))) [],
                   ik_vendor := v, ik_form := get_or (ip_form p) (ik_form k),
                   ik_needed_by := get_or (ip_needed_by p) (ik_needed_by k),
                   ik_justification := get_or (ip_justification p) (ik_justification k)\<rparr>) db
       in Inr (if changed = [] \<and> ip_vendor p = None then db1
               else audit_proc env ''intake.updated'' ''intake_request'' i
                      [(''fields'', JList (map JStr (if changed = [] then [''vendor_id''] else changed)))] db1)))))"

definition delete_intake :: "proc_env \<Rightarrow> proc_db \<Rightarrow> uuid \<Rightarrow> proc_db py" where
  "delete_intake env db i =
     py_bind (get_intake db i) (\<lambda>k.
     py_bind (py_guard (ik_status k = IntakeConverted \<or> ik_req k \<noteq> None \<or> ik_po k \<noteq> None)
                (HTTPException 409 ''Intake has been converted'')) (\<lambda>_.
       Inr ((audit_proc env ''intake.deleted'' ''intake_request'' i [(''request_number'', JStr (ik_number k))] db)
            \<lparr>pd_intakes := delete_where (\<lambda>x. ik_id x = i) (pd_intakes db)\<rparr>)))"

definition move_intake ::
    "proc_env \<Rightarrow> proc_db \<Rightarrow> uuid \<Rightarrow> intake_status \<Rightarrow> (intake_request \<Rightarrow> intake_request) \<Rightarrow> string
      \<Rightarrow> (intake_request \<Rightarrow> jdict) \<Rightarrow> proc_db py" where
  "move_intake env db i target f action details =
     py_bind (get_intake db i) (\<lambda>k.
     py_bind (guard_intake (ik_status k) target) (\<lambda>_.
       Inr (audit_proc env action ''intake_request'' i (details k)
              (write_intake i (\<lambda>k. (f k)\<lparr>ik_status := target\<rparr>) db))))"

definition submit_intake :: "proc_env \<Rightarrow> proc_db \<Rightarrow> uuid \<Rightarrow> proc_db py" where
  "submit_intake env db i =
     move_intake env db i IntakeIn_review (\<lambda>k. k) ''intake.submitted'' (\<lambda>k. [(''request_number'', JStr (ik_number k))])"

definition approve_intake :: "proc_env \<Rightarrow> proc_db \<Rightarrow> uuid \<Rightarrow> string option \<Rightarrow> proc_db py" where
  "approve_intake env db i reason =
     move_intake env db i IntakeApproved (\<lambda>k. k) ''intake.approved'' (\<lambda>k. reason_extra reason)"

definition reject_intake :: "proc_env \<Rightarrow> proc_db \<Rightarrow> uuid \<Rightarrow> string option \<Rightarrow> proc_db py" where
  "reject_intake env db i reason =
     move_intake env db i IntakeRejected
       (\<lambda>k. if reason \<in> {None, Some []} then k
             else k\<lparr>ik_form := Some (AList.update ''review_reason'' (JStr (the reason)) (get_or (ik_form k) []))\<rparr>)
       ''intake.rejected'' (\<lambda>k. reason_extra reason)"

definition cancel_intake :: "proc_env \<Rightarrow> proc_db \<Rightarrow> uuid \<Rightarrow> string option \<Rightarrow> proc_db py" where
  "cancel_intake env db i reason =
     move_intake env db i IntakeCancelled (\<lambda>k. k) ''intake.cancelled'' (\<lambda>k. reason_extra reason)"

definition reopen_intake :: "proc_env \<Rightarrow> proc_db \<Rightarrow> uuid \<Rightarrow> proc_db py" where
  "reopen_intake env db i =
     move_intake env db i IntakeOpen (\<lambda>k. k) ''intake.reopened'' (\<lambda>k. [(''request_number'', JStr (ik_number k))])"

definition convert_intake_to_requisition ::
    "intake_request \<Rightarrow> uuid \<Rightarrow> uuid \<Rightarrow> uuid \<Rightarrow> string option \<Rightarrow> int option \<Rightarrow> requisition" where
  "convert_intake_to_requisition k i line org dept needed =
     \<lparr>rq_id = i, rq_number = ''REQ-'' @ ik_number k, rq_title = Some (ik_title k), rq_requester = ik_requester k,
      rq_department = dept, rq_status = ReqDraft,
      rq_needed_by = (if needed = None then ik_needed_by k else needed), rq_justification = ik_justification k,
      rq_vendor = ik_vendor k, rq_contract = None, rq_budget = None, rq_total = get_or (ik_amount k) 0,
      rq_currency = ik_currency k, rq_notes = None, rq_submitted_at = None, rq_approved_at = None,
      rq_approved_by = None, rq_rejection = None, rq_po = None, rq_org = org, rq_entity = ik_entity k,
      rq_lines = [\<lparr>rl_id = line, rl_number = Some 1, rl_catalog = None, rl_description = Some (ik_title k),
        rl_quantity = Some 1, rl_price = ik_amount k, rl_total = ik_amount k, rl_gl = None\<rparr>]\<rparr>"

definition convert_to_requisition ::
    "proc_env \<Rightarrow> proc_db \<Rightarrow> uuid \<Rightarrow> string option \<Rightarrow> int option \<Rightarrow> (requisition \<times> bool \<times> proc_db) py" where
  "convert_to_requisition env db i dept needed =
     py_bind (get_intake db i) (\<lambda>k.
       case Option.bind (ik_req k) (\<lambda>j. find (\<lambda>r. rq_id r = j) (pd_reqs db)) of
         Some r \<Rightarrow> Inr (r, False, db)
       | None \<Rightarrow>
           py_bind (py_guard (ik_status k \<notin> {IntakeApproved, IntakeConverted})
                      (HTTPException 422 ''Only an approved intake can be converted'')) (\<lambda>_.
             let r = convert_intake_to_requisition k (pv_fresh env) (pv_line env 1) (pv_org env) dept needed
             in Inr (r, True,
                  audit_proc env ''intake.converted_to_requisition'' ''intake_request'' i
                    [(''requisition_id'', JStr (uuid_str (rq_id r))), (''requisition_number'', JStr (rq_number r))]
                    (write_intake i (\<lambda>x. x\<lparr>ik_status := IntakeConverted, ik_req := Some (rq_id r)\<rparr>)
                       (db\<lparr>pd_reqs := pd_reqs db @ [r]\<rparr>)))))"

section \<open>Purchase orders from the ERP\<close>

text \<open>An order as the ERP's adapter lists it; \<open>eo_id\<close> and \<open>eo_created\<close> are what the database gives the
  row if the order is new. The adapter itself is outside the code, so the list is an argument.\<close>

record erp_order =
  eo_num :: string
  eo_vendor :: "string option"
  eo_total :: rat
  eo_status :: string
  eo_expected :: "int option"
  eo_lines :: "po_line list"
  eo_id :: uuid
  eo_created :: time

text \<open>Own entity before unstamped, then oldest; of equals the first of the table.\<close>

definition order_to_sync :: "proc_db \<Rightarrow> uuid \<Rightarrow> uuid option \<Rightarrow> string \<Rightarrow> purchase_order option" where
  "order_to_sync db org ent num =
     (let rows = filter (\<lambda>p. po_num p = num \<and> po_org p = org \<and> apply_entity_scope ent True (po_entity p)) (pd_orders db);
          sorted = sort_key po_created (filter (\<lambda>p. po_entity p \<noteq> None) rows)
                 @ sort_key po_created (filter (\<lambda>p. po_entity p = None) rows)
      in case sorted of [] \<Rightarrow> None | p # _ \<Rightarrow> Some p)"

definition refreshed :: "erp_order \<Rightarrow> purchase_order \<Rightarrow> purchase_order" where
  "refreshed e p = p\<lparr>po_total := eo_total e, po_status := eo_status e,
     po_expected := (if po_expected p = None then eo_expected e else po_expected p)\<rparr>"

definition vendor_by_name :: "proc_db \<Rightarrow> uuid \<Rightarrow> string \<Rightarrow> uuid option" where
  "vendor_by_name db org name =
     map_option pt_id (find (\<lambda>v. pt_org v = org \<and> py_lower (pt_name v) = py_lower name) (rev (pd_vendors db)))"

record sync_counts =
  created_count :: nat
  updated_count :: nat
  skipped_count :: nat

definition sync_one :: "uuid \<Rightarrow> uuid option \<Rightarrow> erp_order \<Rightarrow> sync_counts \<times> proc_db \<Rightarrow> sync_counts \<times> proc_db" where
  "sync_one org ent e st =
     (case st of (n, db) \<Rightarrow>
       case order_to_sync db org ent (eo_num e) of
         Some p \<Rightarrow>
           (if refreshed e p = p then n\<lparr>skipped_count := skipped_count n + 1\<rparr> else n\<lparr>updated_count := updated_count n + 1\<rparr>,
            db\<lparr>pd_orders := update_where (\<lambda>x. po_id x = po_id p) (refreshed e) (pd_orders db)\<rparr>)
       | None \<Rightarrow>
           (n\<lparr>created_count := created_count n + 1\<rparr>,
            db\<lparr>pd_orders := pd_orders db @
                 [\<lparr>po_id = eo_id e, po_num = eo_num e,
                   po_vendor = (if eo_vendor e \<in> {None, Some []} then None else vendor_by_name db org (the (eo_vendor e))),
                   po_total = eo_total e, po_status = eo_status e, po_expected = eo_expected e, po_org = org,
                   po_entity = ent, po_created = eo_created e, po_lines = eo_lines e\<rparr>]\<rparr>))"

definition sync_pos_from_erp :: "proc_env \<Rightarrow> string \<Rightarrow> erp_order list \<Rightarrow> proc_db \<Rightarrow> sync_counts \<times> proc_db" where
  "sync_pos_from_erp env adapter listed db =
     (let (n, db1) = fold (sync_one (pv_org env) (pv_entity env)) listed (\<lparr>created_count = 0, updated_count = 0, skipped_count = 0\<rparr>, db)
      in (n, audit_proc env ''purchase_order.synced_from_erp'' ''purchase_order'' (pv_org env)
               [(''created'', JInt (int (created_count n))), (''updated'', JInt (int (updated_count n))),
                (''skipped'', JInt (int (skipped_count n))), (''adapter'', JStr adapter),
                (''entity_id'', case pv_entity env of None \<Rightarrow> JNull | Some e \<Rightarrow> JStr (uuid_str e))] db1))"

section \<open>What every operation keeps\<close>

text \<open>A line's total is the product rounded to cents: inside the columns' digits the context never
  rounds first.\<close>

lemma has_scale_mult: "has_scale s x \<Longrightarrow> has_scale t y \<Longrightarrow> has_scale (s + t) (x * y)"
proof -
  assume "has_scale s x" "has_scale t y"
  then obtain m n where "x = of_int m / 10 ^ s" "y = of_int n / 10 ^ t" by (auto simp: has_scale_iff)
  then have "x * y = of_int (m * n) / 10 ^ (s + t)" by (simp add: power_add)
  then show ?thesis unfolding has_scale_iff by blast
qed

lemma line_total_spec:
  assumes "has_scale 4 q" "\<bar>q\<bar> < 10 ^ 8" "has_scale 2 p" "\<bar>p\<bar> < 10 ^ 13"
  shows "line_total (Some q) (Some p) = Inr (Some (round_half_up 2 (q * p)))"
proof -
  have "\<bar>q\<bar> * \<bar>p\<bar> < 10 ^ 8 * 10 ^ 13" using assms(2,4) by (intro mult_strict_mono) auto
  then have b: "\<bar>q * p\<bar> < 10 ^ 21" by (simp add: abs_mult)
  have "has_scale (4 + 2) (q * p)" by (rule has_scale_mult [OF assms(1,3)])
  moreover have "\<bar>q * p\<bar> * 10 ^ (4 + 2) < 10 ^ 28" using b by simp
  ultimately have "ctx_mult q p = q * p" by (simp add: ctx_mult_def ctx_round_exact)
  then show ?thesis using b quantize_half_up_money [of "q * p"] by simp
qed

lemma line_bodies_length: "build_line_items fresh n bs = Inr ls \<Longrightarrow> length ls = length bs"
  by (induction bs arbitrary: n ls) auto

text \<open>The stand-in on which the route calls \<open>check_segregation\<close>.\<close>

lemma check_requester_is_segregation:
  assumes "uploaded_by_id shim = Some (rq_requester req)" "segregation_actor_ids shim = None"
    "c_require_segregation cfg = Some (JBool True)"
  shows "check_segregation shim actor cfg = check_requester req actor"
  using assms by (auto simp: check_segregation_def check_requester_def violates_segregation_def py_guard_def)

definition row_ok :: "uuid set \<Rightarrow> requisition \<Rightarrow> bool" where
  "row_ok orders r \<longleftrightarrow>
     (\<forall>u. rq_approved_by r = Some u \<longrightarrow> u \<noteq> rq_requester r)
     \<and> (rq_status r \<in> {ReqApproved, ReqConverted} \<longrightarrow> rq_approved_by r \<noteq> None)
     \<and> (rq_status r = ReqConverted \<longrightarrow> rq_po r \<noteq> None)
     \<and> set_option (rq_po r) \<subseteq> orders"

definition proc_ok :: "proc_db \<Rightarrow> bool" where
  "proc_ok db \<longleftrightarrow>
     distinct (map rq_id (pd_reqs db)) \<and> distinct (map po_id (pd_orders db))
     \<and> distinct (List.map_filter rq_po (pd_reqs db))
     \<and> (\<forall>r \<in> set (pd_reqs db). row_ok (po_id ` set (pd_orders db)) r)"

lemma audit_proc_frame [simp]:
  "pd_reqs (audit_proc env a t i d db) = pd_reqs db" "pd_orders (audit_proc env a t i d db) = pd_orders db"
  "pd_budgets (audit_proc env a t i d db) = pd_budgets db" "pd_invoices (audit_proc env a t i d db) = pd_invoices db"
  "pd_intakes (audit_proc env a t i d db) = pd_intakes db"
  by (simp_all add: audit_proc_def)

lemma audit_transition_frame [simp]:
  "pd_reqs (audit_transition env r st a x db) = pd_reqs db" "pd_orders (audit_transition env r st a x db) = pd_orders db"
  "pd_budgets (audit_transition env r st a x db) = pd_budgets db"
  "pd_invoices (audit_transition env r st a x db) = pd_invoices db"
  by (simp_all add: audit_transition_def)

lemma write_requisition_frame [simp]:
  "pd_reqs (write_requisition i f db) = map (\<lambda>r. if rq_id r = i then f r else r) (pd_reqs db)"
  "pd_orders (write_requisition i f db) = pd_orders db"
  "pd_budgets (write_requisition i f db) = pd_budgets db"
  "pd_invoices (write_requisition i f db) = pd_invoices db"
  by (simp_all add: write_requisition_def update_where_def)

lemma write_intake_frame [simp]:
  "pd_reqs (write_intake i f db) = pd_reqs db" "pd_orders (write_intake i f db) = pd_orders db"
  by (simp_all add: write_intake_def)

lemma proc_ok_cong: "pd_reqs db' = pd_reqs db \<Longrightarrow> pd_orders db' = pd_orders db \<Longrightarrow> proc_ok db' = proc_ok db"
  by (simp add: proc_ok_def)

lemma map_filter_same: "(\<And>x. x \<in> set xs \<Longrightarrow> f x = g x) \<Longrightarrow> List.map_filter f xs = List.map_filter g xs"
  by (induction xs) (auto simp: List.map_filter_simps split: option.split)

lemma map_filter_map: "List.map_filter f (map g xs) = List.map_filter (\<lambda>x. f (g x)) xs"
  by (simp add: List.map_filter_def filter_map comp_def)

text \<open>Writing columns of one row that stay in order and leave its order alone.\<close>

lemma write_keeps:
  assumes "proc_ok db"
    and "\<And>r. r \<in> set (pd_reqs db) \<Longrightarrow> rq_id r = i \<Longrightarrow> row_ok (po_id ` set (pd_orders db)) r \<Longrightarrow>
          rq_id (f r) = i \<and> rq_po (f r) = rq_po r \<and> row_ok (po_id ` set (pd_orders db)) (f r)"
  shows "proc_ok (write_requisition i f db)"
proof -
  let ?g = "\<lambda>r. if rq_id r = i then f r else r"
  have keys: "rq_id (?g r) = rq_id r" "rq_po (?g r) = rq_po r" "row_ok (po_id ` set (pd_orders db)) (?g r)"
    if "r \<in> set (pd_reqs db)" for r
    using that assms by (auto simp: proc_ok_def)
  have "map (rq_id \<circ> ?g) (pd_reqs db) = map rq_id (pd_reqs db)"
    unfolding comp_def by (rule map_cong [OF refl]) (rule keys(1))
  moreover have "List.map_filter rq_po (map ?g (pd_reqs db)) = List.map_filter rq_po (pd_reqs db)"
    unfolding map_filter_map by (rule map_filter_same) (rule keys(2))
  moreover have "\<forall>r \<in> set (map ?g (pd_reqs db)). row_ok (po_id ` set (pd_orders db)) r"
    using keys(3) by (simp only: set_map ball_simps(9)) blast
  ultimately show ?thesis using assms(1) unfolding proc_ok_def write_requisition_frame map_map by (simp only: simp_thms)
qed


text \<open>The row a handler read, and the row that is there when it writes: the requester is
  never rewritten.\<close>

definition stale :: "requisition \<Rightarrow> proc_db \<Rightarrow> bool" where
  "stale snap db \<longleftrightarrow> (\<forall>r \<in> set (pd_reqs db). rq_id r = rq_id snap \<longrightarrow> rq_requester r = rq_requester snap)"

lemma get_requisition_Inr: "get_requisition db i = Inr r \<Longrightarrow> r \<in> set (pd_reqs db) \<and> rq_id r = i"
  by (auto simp: get_requisition_def dest: find_Some_props split: option.splits)

lemma get_requisition_row:
  assumes "distinct (map rq_id (pd_reqs db))" "r \<in> set (pd_reqs db)"
  shows "get_requisition db (rq_id r) = Inr r"
proof (cases "find (\<lambda>x. rq_id x = rq_id r) (pd_reqs db)")
  case None
  then show ?thesis using assms(2) by (auto simp: find_None_iff_all)
next
  case (Some x)
  then have "x = r" using assms find_Some_props [OF Some] by (metis distinct_map inj_onD)
  then show ?thesis using Some by (simp add: get_requisition_def)
qed

lemma current_stale: "proc_ok db \<Longrightarrow> r \<in> set (pd_reqs db) \<Longrightarrow> stale r db"
  unfolding stale_def proc_ok_def by (metis distinct_map inj_onD)

lemma move_requisition_Inr:
  assumes "move_requisition env snap target f action extra db = Inr db'"
  shows "pd_reqs db' = map (\<lambda>r. if rq_id r = rq_id snap then (f r)\<lparr>rq_status := target\<rparr> else r) (pd_reqs db)"
    "pd_orders db' = pd_orders db" "target \<in> set (REQUISITION_TRANSITIONS (rq_status snap))"
    "pd_budgets db' = pd_budgets db" "pd_invoices db' = pd_invoices db"
  using assms by (auto simp: move_requisition_def guard_transition_def)

lemma move_keeps:
  assumes "proc_ok db" "move_requisition env snap target f action extra db = Inr db'"
    and "\<And>r. r \<in> set (pd_reqs db) \<Longrightarrow> rq_id r = rq_id snap \<Longrightarrow> row_ok (po_id ` set (pd_orders db)) r \<Longrightarrow>
          rq_id (f r) = rq_id r \<and> rq_po (f r) = rq_po r \<and> row_ok (po_id ` set (pd_orders db)) ((f r)\<lparr>rq_status := target\<rparr>)"
  shows "proc_ok db'"
proof -
  note m = move_requisition_Inr [OF assms(2)]
  have "proc_ok (write_requisition (rq_id snap) (\<lambda>r. (f r)\<lparr>rq_status := target\<rparr>) db)"
    by (rule write_keeps [OF assms(1)]) (use assms(3) in simp)
  then show ?thesis using m(1,2) by (simp add: proc_ok_def)
qed

lemma submit_keeps: "submit_requisition_from env snap db = Inr db' \<Longrightarrow> proc_ok db \<Longrightarrow> proc_ok db'"
  unfolding submit_requisition_from_def by (erule move_keeps [rotated]) (simp_all add: row_ok_def)

lemma reject_keeps: "reject_requisition_from env reason snap db = Inr db' \<Longrightarrow> proc_ok db \<Longrightarrow> proc_ok db'"
  unfolding reject_requisition_from_def by (erule move_keeps [rotated]) (simp_all add: row_ok_def)

lemma cancel_req_keeps: "cancel_requisition_from env reason snap db = Inr db' \<Longrightarrow> proc_ok db \<Longrightarrow> proc_ok db'"
  unfolding cancel_requisition_from_def by (erule move_keeps [rotated]) (simp_all add: row_ok_def)

lemma reopen_keeps: "reopen_requisition_from env snap db = Inr db' \<Longrightarrow> proc_ok db \<Longrightarrow> proc_ok db'"
  unfolding reopen_requisition_from_def by (erule move_keeps [rotated]) (simp_all add: row_ok_def)

lemma approve_req_keeps:
  assumes "approve_requisition_from env snap db = Inr db'" "proc_ok db" "stale snap db"
  shows "proc_ok db'"
proof -
  have m: "move_requisition env snap ReqApproved
        (\<lambda>r. r\<lparr>rq_approved_at := Some (pv_now env), rq_approved_by := Some (pv_user env)\<rparr>)
        ''requisition.approved'' [] db = Inr db'" "rq_requester snap \<noteq> pv_user env"
    using assms(1) by (auto simp: approve_requisition_from_def check_requester_def)
  show ?thesis
    by (rule move_keeps [OF assms(2) m(1)]) (use assms(3) m(2) in \<open>auto simp: row_ok_def stale_def\<close>)
qed

lemma patched_frame [simp]:
  "rq_id (patched p lns snap r) = rq_id r" "rq_po (patched p lns snap r) = rq_po r"
  "rq_status (patched p lns snap r) = rq_status r" "rq_requester (patched p lns snap r) = rq_requester r"
  "rq_approved_by (patched p lns snap r) = rq_approved_by r" "rq_lines (patched p lns snap r) = rq_lines r"
  "rq_total (patched p lns snap r) = rq_total r"
  by (simp_all add: patched_def)

lemma relined_frame [simp]:
  "rq_id (relined new snap r) = rq_id r" "rq_po (relined new snap r) = rq_po r"
  "rq_status (relined new snap r) = rq_status r" "rq_requester (relined new snap r) = rq_requester r"
  "rq_approved_by (relined new snap r) = rq_approved_by r" "relined None snap r = r"
  by (simp_all add: relined_def split: option.split)

lemma set_column_same [simp]: "set_column s a a = get_or s a"
  by (cases s) (auto simp: set_column_def sent_change_def)

lemma set_column_none [simp]: "set_column None a b = b"
  by (simp add: set_column_def sent_change_def)

text \<open>On the row as it was read the edit replaces the lines and keeps the total their sum.\<close>

lemma relined_current:
  assumes "rq_lines r = rq_lines snap" "rq_total r = rq_total snap"
  shows "rq_lines (relined (Some ls) snap r) = ls" "rq_total (relined (Some ls) snap r) = recompute_total ls"
  using assms by (simp_all add: relined_def)

lemma update_cases:
  assumes "update_requisition_from env snap p db = Inr db'"
  obtains lns new where "rq_status snap = ReqDraft"
    "resolve_links db (links_to_resolve p snap) (pv_org env) (effective_currency p snap) (rq_entity snap) = Inr lns"
    "pd_reqs db' = pd_reqs (write_requisition (rq_id snap) (\<lambda>r. relined new snap (patched p lns snap r)) db)"
    "pd_orders db' = pd_orders db" "pd_budgets db' = pd_budgets db" "pd_invoices db' = pd_invoices db"
    "rp_currency p \<noteq> Some None" "new_lines (pv_line env) p = Inr new"
proof -
  obtain lns new where u: "rq_status snap = ReqDraft"
    "resolve_links db (links_to_resolve p snap) (pv_org env) (effective_currency p snap) (rq_entity snap) = Inr lns"
    "rp_currency p \<noteq> Some None" "new_lines (pv_line env) p = Inr new"
    "db' = (if patch_changes p lns snap = []
            then write_requisition (rq_id snap) (\<lambda>r. relined new snap (patched p lns snap r)) db
            else audit_proc env ''requisition.updated'' ''requisition'' (rq_id snap)
                   [(''fields'', JList (map JStr (patch_changes p lns snap)))]
                   (write_requisition (rq_id snap) (\<lambda>r. relined new snap (patched p lns snap r)) db))"
    using assms by (auto simp: update_requisition_from_def Let_def)
  show ?thesis by (rule that [of lns new, OF u(1,2) _ _ _ _ u(3,4)]) (simp_all add: u(5))
qed

lemma update_keeps:
  assumes "update_requisition_from env snap p db = Inr db'" "proc_ok db"
  shows "proc_ok db'"
  using assms(1)
proof (cases rule: update_cases)
  case (1 lns new)
  have "proc_ok (write_requisition (rq_id snap) (\<lambda>r. relined new snap (patched p lns snap r)) db)"
    by (rule write_keeps [OF assms(2)]) (simp add: row_ok_def)
  then show ?thesis using 1(3,4) by (simp add: proc_ok_def)
qed

text \<open>A new requisition, from the route or from an intake: a draft nobody approved and without an order.\<close>

lemma new_requisition_keeps:
  assumes "proc_ok db" "pd_reqs db' = pd_reqs db @ [r]" "pd_orders db' = pd_orders db" "rq_id r \<notin> rq_id ` set (pd_reqs db)"
    "rq_status r = ReqDraft" "rq_approved_by r = None" "rq_po r = None"
  shows "proc_ok db'"
  using assms by (auto simp: proc_ok_def row_ok_def List.map_filter_def)

lemma create_keeps:
  assumes "create_requisition env db body = Inr (r, db')" "proc_ok db" "pv_fresh env \<notin> rq_id ` set (pd_reqs db)"
  shows "proc_ok db'"
proof (rule new_requisition_keeps [OF assms(2)])
  show "pd_reqs db' = pd_reqs db @ [r]" "pd_orders db' = pd_orders db" "rq_id r \<notin> rq_id ` set (pd_reqs db)"
    "rq_status r = ReqDraft" "rq_approved_by r = None" "rq_po r = None"
    using assms(1,3) by (auto simp: create_requisition_def Let_def)
qed

lemma set_map_filter: "set (List.map_filter f xs) = {y. \<exists>x \<in> set xs. f x = Some y}"
  by (induction xs) (auto simp: List.map_filter_simps split: option.split)

lemma map_filter_distinct: "distinct (List.map_filter f xs) \<Longrightarrow> distinct (List.map_filter f (filter P xs))"
  by (induction xs) (auto simp: List.map_filter_simps set_map_filter split: option.splits)

lemma delete_keeps: "delete_requisition env db i = Inr db' \<Longrightarrow> proc_ok db \<Longrightarrow> proc_ok db'"
  by (auto simp: delete_requisition_def delete_where_def proc_ok_def distinct_map_filter map_filter_distinct)

lemma convert_cases:
  assumes "convert_to_po env db i = Inr (p, new, db')"
  obtains (replay) r where "get_requisition db i = Inr r" "\<not> new" "db' = db" "rq_po r = Some (po_id p)" "p \<in> set (pd_orders db)"
  | (converted) r where "get_requisition db i = Inr r" "new" "rq_status r = ReqApproved"
      "Option.bind (rq_po r) (find_order db) = None"
      "p = convert_requisition_to_po r (pv_fresh env) (pv_now env) (pv_org env) (''PO-'' @ rq_number r)"
      "pd_orders db' = pd_orders db @ [p]"
      "pd_reqs db' = map (\<lambda>x. if rq_id x = rq_id r then x\<lparr>rq_status := ReqConverted, rq_po := Some (po_id p)\<rparr> else x) (pd_reqs db)"
      "pd_budgets db' = pd_budgets db" "pd_invoices db' = pd_invoices db"
proof -
  obtain r where r: "get_requisition db i = Inr r" using assms by (auto simp: convert_to_po_def)
  show ?thesis
  proof (cases "Option.bind (rq_po r) (find_order db)")
    case (Some q)
    then have "q = p" "\<not> new" "db' = db" using assms r by (auto simp: convert_to_po_def)
    moreover have "rq_po r = Some (po_id q)" "q \<in> set (pd_orders db)"
      using Some by (auto simp: find_order_def bind_eq_Some_conv dest: find_Some_props)
    ultimately show ?thesis by (intro replay [OF r]) simp_all
  next
    case None
    then have "ReqConverted \<in> set (REQUISITION_TRANSITIONS (rq_status r))"
      using assms r by (auto simp: convert_to_po_def Let_def guard_transition_def)
    then have "rq_status r = ReqApproved" by (cases "rq_status r") simp_all
    then show ?thesis using assms r None by (intro converted [OF r]) (auto simp: convert_to_po_def Let_def)
  qed
qed


lemma row_ok_mono: "row_ok A r \<Longrightarrow> A \<subseteq> B \<Longrightarrow> row_ok B r"
  by (auto simp: row_ok_def)

lemma map_filter_one_more:
  assumes "distinct (map k xs)" "x \<in> set xs" "f x = None" "distinct (List.map_filter f xs)" "v \<notin> set (List.map_filter f xs)"
  shows "distinct (List.map_filter (\<lambda>y. if k y = k x then Some v else f y) xs)"
  using assms
proof (induction xs)
  case (Cons a xs)
  have same: "List.map_filter (\<lambda>y. if k y = k x then Some v else f y) xs = List.map_filter f xs" if "x = a"
    by (rule map_filter_same) (use that Cons.prems(1) in \<open>force simp: image_iff\<close>)
  show ?case
  proof (cases "x = a")
    case True
    then show ?thesis using Cons.prems same by (simp add: List.map_filter_simps)
  next
    case False
    then have "k a \<noteq> k x" using Cons.prems(1,2) by auto
    then show ?thesis using Cons False by (auto simp: List.map_filter_simps set_map_filter split: option.splits if_splits)
  qed
qed simp

lemma convert_keeps:
  assumes "convert_to_po env db i = Inr (p, new, db')" "proc_ok db" "pv_fresh env \<notin> po_id ` set (pd_orders db)"
  shows "proc_ok db'"
  using assms(1)
proof (cases rule: convert_cases)
  case replay
  then show ?thesis using assms(2) by simp
next
  case (converted r)
  let ?g = "\<lambda>x. if rq_id x = rq_id r then x\<lparr>rq_status := ReqConverted, rq_po := Some (po_id p)\<rparr> else x"
  have pid: "po_id p = pv_fresh env" by (simp add: converted(5) convert_requisition_to_po_def)
  have r: "r \<in> set (pd_reqs db)" using get_requisition_Inr [OF converted(1)] by simp
  have ok: "row_ok (po_id ` set (pd_orders db)) x" if "x \<in> set (pd_reqs db)" for x
    using assms(2) that by (simp add: proc_ok_def)
  have none: "rq_po r = None"
  proof (rule ccontr)
    assume "rq_po r \<noteq> None"
    then obtain j where j: "rq_po r = Some j" by blast
    then have "j \<in> po_id ` set (pd_orders db)" using ok [OF r] by (simp add: row_ok_def)
    then have "find_order db j \<noteq> None" by (auto simp: find_order_def find_None_iff_all)
    then show False using converted(4) j by simp
  qed
  have same: "x = r" if "x \<in> set (pd_reqs db)" "rq_id x = rq_id r" for x
    using assms(2) r that unfolding proc_ok_def by (metis distinct_map inj_onD)
  have "rq_approved_by r \<noteq> None" using ok [OF r] converted(3) by (simp add: row_ok_def)
  then have new: "row_ok (insert (po_id p) (po_id ` set (pd_orders db))) (?g x)" if "x \<in> set (pd_reqs db)" for x
    using ok [OF that] same [OF that] by (auto simp: row_ok_def)
  have "distinct (List.map_filter rq_po (map ?g (pd_reqs db)))"
  proof -
    have "List.map_filter rq_po (map ?g (pd_reqs db)) =
        List.map_filter (\<lambda>y. if rq_id y = rq_id r then Some (po_id p) else rq_po y) (pd_reqs db)"
      unfolding map_filter_map by (rule map_filter_same) simp
    moreover have "po_id p \<notin> set (List.map_filter rq_po (pd_reqs db))"
      using ok assms(3) pid by (force simp: set_map_filter row_ok_def)
    ultimately show ?thesis
      using map_filter_one_more [of rq_id "pd_reqs db" r rq_po "po_id p"] assms(2) r none by (simp add: proc_ok_def)
  qed
  moreover have "map rq_id (map ?g (pd_reqs db)) = map rq_id (pd_reqs db)" by simp
  moreover have "\<forall>x \<in> set (map ?g (pd_reqs db)). row_ok (insert (po_id p) (po_id ` set (pd_orders db))) x"
    using new by (simp only: set_map ball_simps(9)) blast
  ultimately show ?thesis
    using assms(2,3) pid unfolding proc_ok_def converted(6,7) by (simp only: simp_thms) auto
qed

lemma intake_conversion_keeps:
  assumes "convert_to_requisition env db i dept needed = Inr (r, new, db')" "proc_ok db" "pv_fresh env \<notin> rq_id ` set (pd_reqs db)"
  shows "proc_ok db'"
proof (cases "db' = db")
  case False
  obtain k where "pd_reqs db' = pd_reqs db @ [r]" "pd_orders db' = pd_orders db"
    and r: "r = convert_intake_to_requisition k (pv_fresh env) (pv_line env 1) (pv_org env) dept needed"
    using assms(1) False by (auto simp: convert_to_requisition_def Let_def split: option.splits)
  then show ?thesis
  proof (rule_tac new_requisition_keeps [OF assms(2)])
    show "rq_id r \<notin> rq_id ` set (pd_reqs db)" "rq_status r = ReqDraft" "rq_approved_by r = None" "rq_po r = None"
      using assms(3) by (simp_all add: r convert_intake_to_requisition_def)
  qed
qed (use assms(2) in simp)

lemma refreshed_id [simp]: "po_id (refreshed e p) = po_id p"
  by (simp add: refreshed_def)

lemma sync_one_rows:
  assumes "sync_one org ent e (n, db) = (n', db')"
  shows "pd_reqs db' = pd_reqs db" "set (map po_id (pd_orders db)) \<subseteq> set (map po_id (pd_orders db'))"
  using assms by (auto simp: sync_one_def map_update_where_frame simp flip: set_map split: option.splits)

lemma sync_all_rows:
  "fold (sync_one org ent) es (n, db) = (n', db') \<Longrightarrow>
     pd_reqs db' = pd_reqs db \<and> set (map po_id (pd_orders db)) \<subseteq> set (map po_id (pd_orders db'))"
proof (induction es arbitrary: n db)
  case (Cons e es)
  obtain n1 db1 where s: "sync_one org ent e (n, db) = (n1, db1)" by (cases "sync_one org ent e (n, db)")
  then have "fold (sync_one org ent) es (n1, db1) = (n', db')" using Cons.prems by simp
  then show ?case using Cons.IH [of n1 db1] sync_one_rows [OF s] by auto
qed simp

lemma sync_rows:
  assumes "sync_pos_from_erp env adapter listed db = (n, db')"
  shows "pd_reqs db' = pd_reqs db" "po_id ` set (pd_orders db) \<subseteq> po_id ` set (pd_orders db')"
proof -
  obtain m db1 where f: "fold (sync_one (pv_org env) (pv_entity env)) listed
      (\<lparr>created_count = 0, updated_count = 0, skipped_count = 0\<rparr>, db) = (m, db1)" by fastforce
  then have "pd_reqs db' = pd_reqs db1" "pd_orders db' = pd_orders db1"
    using assms by (auto simp: sync_pos_from_erp_def)
  then show "pd_reqs db' = pd_reqs db" "po_id ` set (pd_orders db) \<subseteq> po_id ` set (pd_orders db')"
    using sync_all_rows [OF f] by simp_all
qed

lemma sync_keeps:
  assumes "sync_pos_from_erp env adapter listed db = (n, db')" "proc_ok db" "distinct (map po_id (pd_orders db'))"
  shows "proc_ok db'"
proof -
  have "row_ok (po_id ` set (pd_orders db')) r" if "r \<in> set (pd_reqs db)" for r
    using row_ok_mono [OF _ sync_rows(2) [OF assms(1)]] assms(2) that by (simp add: proc_ok_def)
  then show ?thesis using assms(2,3) unfolding proc_ok_def sync_rows(1) [OF assms(1)] by blast
qed

lemma intake_moves_rows:
  "create_intake env db body = Inr (k, db') \<Longrightarrow> pd_reqs db' = pd_reqs db \<and> pd_orders db' = pd_orders db"
  "update_intake env db i ip = Inr db' \<Longrightarrow> pd_reqs db' = pd_reqs db \<and> pd_orders db' = pd_orders db"
  "delete_intake env db i = Inr db' \<Longrightarrow> pd_reqs db' = pd_reqs db \<and> pd_orders db' = pd_orders db"
  "move_intake env db i target f action details = Inr db' \<Longrightarrow> pd_reqs db' = pd_reqs db \<and> pd_orders db' = pd_orders db"
     apply (simp add: create_intake_def Let_def, clarsimp)
    apply (simp only: update_intake_def Let_def py_bind_eq_Inr sum.inject, elim exE conjE, hypsubst, simp split: if_split)
   apply (simp add: delete_intake_def, clarsimp)
  apply (simp add: move_intake_def, clarsimp)
  done

section \<open>Procurement as a step system\<close>

text \<open>
  What may happen to a tenant's requisitions and orders: a route returns, where the transitions and the
  edit act on a row read earlier, the ERP's orders are pulled, or something leaves both tables alone
  (the intake routes short of a conversion, budgets, receipts, inspections, invoices). New rows
  carry fresh primary keys.
\<close>

inductive proc_step :: "proc_db \<Rightarrow> proc_db \<Rightarrow> bool" where
  create_req: "proc_step db db'"
    if "create_requisition env db body = Inr (r, db')" "pv_fresh env \<notin> rq_id ` set (pd_reqs db)"
| update_req: "proc_step db db'" if "update_requisition_from env snap p db = Inr db'"
| delete_req: "proc_step db db'" if "delete_requisition env db i = Inr db'"
| submit_req: "proc_step db db'" if "submit_requisition_from env snap db = Inr db'"
| approve_req: "proc_step db db'" if "approve_requisition_from env snap db = Inr db'" "stale snap db"
| reject_req: "proc_step db db'" if "reject_requisition_from env reason snap db = Inr db'"
| cancel_req: "proc_step db db'" if "cancel_requisition_from env reason snap db = Inr db'"
| reopen_req: "proc_step db db'" if "reopen_requisition_from env snap db = Inr db'"
| convert_req: "proc_step db db'"
    if "convert_to_po env db i = Inr (p, new, db')" "pv_fresh env \<notin> po_id ` set (pd_orders db)"
| convert_intake: "proc_step db db'"
    if "convert_to_requisition env db i dept needed = Inr (r, new, db')" "pv_fresh env \<notin> rq_id ` set (pd_reqs db)"
| sync_orders: "proc_step db db'"
    if "sync_pos_from_erp env adapter listed db = (n, db')" "distinct (map po_id (pd_orders db'))"
| elsewhere: "proc_step db db'" if "pd_reqs db' = pd_reqs db" "pd_orders db' = pd_orders db"

lemma proc_step_keeps: "proc_step db db' \<Longrightarrow> proc_ok db \<Longrightarrow> proc_ok db'"
  by (induction rule: proc_step.induct)
    (auto dest: create_keeps update_keeps delete_keeps submit_keeps approve_req_keeps reject_keeps cancel_req_keeps
       reopen_keeps convert_keeps intake_conversion_keeps sync_keeps proc_ok_cong)

interpretation procure: step_system "\<lambda>db. pd_reqs db = [] \<and> pd_orders db = []" proc_step proc_ok
  by unfold_locales (auto simp: proc_ok_def List.map_filter_def dest: proc_step_keeps)

text \<open>
  C18: However the procurement routes and the ERP pull interleave, stale reads of the unlocked ones
  included, nobody has approved a requisition of their own, an approved or ordered requisition names its
  approver, an ordered one names a purchase order that exists, and no purchase order belongs to two
  requisitions.
\<close>

theorem requisitions_stay_approved_and_ordered_once:
  assumes "procure.reached db"
  shows "(\<forall>r \<in> set (pd_reqs db). rq_approved_by r \<noteq> Some (rq_requester r)
       \<and> (rq_status r \<in> {ReqApproved, ReqConverted} \<longrightarrow> rq_approved_by r \<noteq> None)
       \<and> (rq_status r = ReqConverted \<longrightarrow> (\<exists>p \<in> set (pd_orders db). rq_po r = Some (po_id p))))
     \<and> distinct (List.map_filter rq_po (pd_reqs db))"
  using procure.reached_keeps [OF assms] by (fastforce simp: proc_ok_def row_ok_def)

text \<open>A requisition for two chairs, raised by one person, approved by another and ordered.\<close>

definition buyer_env :: proc_env where
  "buyer_env = \<lparr>pv_user = 20, pv_org = 1, pv_entity = None, pv_now = 5, pv_year = 2026, pv_fresh = 60, pv_line = (\<lambda>n. 500 + of_int n),
     pv_audit_key = 3, pv_money_text = (\<lambda>x. [])\<rparr>"

definition manager_env :: proc_env where
  "manager_env = buyer_env\<lparr>pv_user := 21, pv_fresh := 61\<rparr>"

definition empty_proc_db :: proc_db where
  "empty_proc_db = \<lparr>pd_reqs = [], pd_intakes = [], pd_orders = [], pd_receipts = [], pd_inspections = [],
     pd_budgets = [], pd_vendors = [], pd_contracts = [], pd_invoices = [], pd_audit = []\<rparr>"

definition chairs_body :: requisition_body where
  "chairs_body = \<lparr>rb_number = ''R1'', rb_title = None, rb_department = None, rb_needed_by = None,
     rb_justification = None, rb_currency = ''USD'', rb_notes = None, rb_vendor = None, rb_contract = None,
     rb_budget = None, rb_lines = [\<lparr>lb_number = None, lb_catalog = None, lb_description = Some ''chair'',
       lb_quantity = Some 2, lb_price = Some 150, lb_gl = None\<rparr>]\<rparr>"

lemmas sample_proc = buyer_env_def manager_env_def empty_proc_db_def chairs_body_def

lemma chairs_total: "line_total (Some 2) (Some 150) = Inr (Some 300)"
  using line_total_spec [of 2 150] has_scale_of_int [of 4 2] has_scale_of_int [of 2 150] round_half_up_id [OF has_scale_of_int [of 2 300]]
  by simp

lemma created_requisition:
  assumes "resolve_links db \<lparr>lk_vendor = Some (rb_vendor body), lk_contract = Some (rb_contract body),
      lk_budget = Some (rb_budget body)\<rparr> (pv_org env) (rb_currency body) (pv_entity env) = Inr lns"
    "build_line_items (pv_line env) 1 (rb_lines body) = Inr ls" "flush_lines ls = Inr ()"
  obtains r db' where "create_requisition env db body = Inr (r, db')" "pd_reqs db' = pd_reqs db @ [r]"
    "pd_orders db' = pd_orders db" "rq_id r = pv_fresh env" "rq_requester r = pv_user env" "rq_status r = ReqDraft"
    "rq_po r = None" "rq_total r = recompute_total ls"
  using assms by (simp add: create_requisition_def Let_def)

lemma converted_requisition:
  assumes "get_requisition db i = Inr r" "rq_status r = ReqApproved" "rq_po r = None"
  obtains p db' where "convert_to_po env db i = Inr (p, True, db')" "pd_orders db' = pd_orders db @ [p]"
    "po_id p = pv_fresh env" "po_total p = rq_total r" "po_status p = ''open''"
    "pd_reqs db' = map (\<lambda>x. if rq_id x = rq_id r then x\<lparr>rq_status := ReqConverted, rq_po := Some (po_id p)\<rparr> else x) (pd_reqs db)"
  using assms by (simp add: convert_to_po_def Let_def guard_transition_def convert_requisition_to_po_def)

lemma chairs_bought:
  obtains r db1 db2 db3 p db4 where "create_requisition buyer_env empty_proc_db chairs_body = Inr (r, db1)"
    "submit_requisition buyer_env db1 60 = Inr db2" "approve_requisition manager_env db2 60 = Inr db3"
    "convert_to_po manager_env db3 60 = Inr (p, True, db4)"
    "map rq_status (pd_reqs db4) = [ReqConverted]" "map rq_po (pd_reqs db4) = [Some 61]"
    "map po_total (pd_orders db4) = [300]" "procure.reached db4"
proof -
  have e: "pv_fresh buyer_env = 60" "pv_user buyer_env = 20" "pv_fresh manager_env = 61" "pv_user manager_env = 21"
    by (simp_all add: manager_env_def buyer_env_def)
  have rnd: "round_half_up 2 300 = 300" using round_half_up_id [OF has_scale_of_int [of 2 300]] by simp
  define ls where "ls = [\<lparr>rl_id = 501, rl_number = Some 1, rl_catalog = None, rl_description = Some ''chair'', rl_quantity = Some 2,
       rl_price = Some 150, rl_total = Some 300, rl_gl = None\<rparr>]"
  have b: "resolve_links empty_proc_db \<lparr>lk_vendor = Some (rb_vendor chairs_body), lk_contract = Some (rb_contract chairs_body),
      lk_budget = Some (rb_budget chairs_body)\<rparr> (pv_org buyer_env) (rb_currency chairs_body) (pv_entity buyer_env)
      = Inr \<lparr>ln_vendor = None, ln_contract = None, ln_budget = None\<rparr>"
    by (simp add: resolve_links_def resolve_party_def resolve_budget_def opt_uuid_def chairs_body_def)
  have l: "build_line_items (pv_line buyer_env) 1 (rb_lines chairs_body) = Inr ls"
    by (simp add: chairs_body_def buyer_env_def ls_def opt_uuid_def chairs_total del: line_total.simps)
  have f: "flush_lines ls = Inr ()" "recompute_total ls = 300"
    by (simp_all add: flush_lines_def fits_money_def recompute_total_def ls_def rnd)
  obtain r db1 where d1: "create_requisition buyer_env empty_proc_db chairs_body = Inr (r, db1)"
    "pd_reqs db1 = [r]" "pd_orders db1 = []" "rq_id r = 60" "rq_requester r = 20" "rq_status r = ReqDraft" "rq_po r = None"
    "rq_total r = 300"
    by (rule created_requisition [OF b l f(1)]) (simp add: e f empty_proc_db_def)
  define r2 where "r2 = r\<lparr>rq_submitted_at := Some (pv_now buyer_env), rq_status := ReqPending_approval\<rparr>"
  obtain db2 where d2: "submit_requisition_from buyer_env r db1 = Inr db2" "pd_reqs db2 = [r2]" "pd_orders db2 = []"
    using d1(2,3,6) by (simp add: submit_requisition_from_def move_requisition_def guard_transition_def r2_def)
  define r3 where "r3 = r2\<lparr>rq_approved_at := Some (pv_now manager_env), rq_approved_by := Some 21, rq_status := ReqApproved\<rparr>"
  obtain db3 where d3: "approve_requisition_from manager_env r2 db2 = Inr db3" "pd_reqs db3 = [r3]" "pd_orders db3 = []"
    using d2(2,3) d1(5) by (simp add: approve_requisition_from_def move_requisition_def guard_transition_def check_requester_def r2_def r3_def e)
  have g: "get_requisition db1 60 = Inr r" "get_requisition db2 60 = Inr r2" "get_requisition db3 60 = Inr r3"
    using d1(4) by (simp_all add: get_requisition_def d1(2) d2 d3 r2_def r3_def)
  have r3: "rq_status r3 = ReqApproved" "rq_po r3 = None" "rq_total r3 = 300" using d1(7,8) by (simp_all add: r3_def r2_def)
  obtain p db4 where d4: "convert_to_po manager_env db3 60 = Inr (p, True, db4)"
    "map rq_status (pd_reqs db4) = [ReqConverted]" "map rq_po (pd_reqs db4) = [Some 61]" "map po_total (pd_orders db4) = [300]"
    by (rule converted_requisition [OF g(3) r3(1,2), of manager_env]) (simp add: d3 e r3)
  have start: "procure.reached empty_proc_db" by (rule procure.reached_start) (simp add: empty_proc_db_def)
  have s1: "proc_step empty_proc_db db1" by (rule create_req [OF d1(1)]) (simp add: empty_proc_db_def)
  have s2: "proc_step db1 db2" by (rule submit_req [OF d2(1)])
  have s3: "proc_step db2 db3" by (rule approve_req [OF d3(1)]) (simp add: stale_def d2(2))
  have s4: "proc_step db3 db4" by (rule convert_req [OF d4(1)]) (simp add: d3(3))
  have "procure.reached db4"
    by (rule procure.reached_move [OF procure.reached_move [OF procure.reached_move [OF procure.reached_move [OF start s1] s2] s3] s4])
  moreover have "submit_requisition buyer_env db1 60 = Inr db2" "approve_requisition manager_env db2 60 = Inr db3"
    using d2(1) d3(1) g by (simp_all add: submit_requisition_def approve_requisition_def)
  ultimately show ?thesis by (intro that [OF d1(1) _ _ d4])
qed

theorem requisitions_witness:
  "\<exists>db. procure.reached db \<and> map rq_status (pd_reqs db) = [ReqConverted]
     \<and> (\<forall>r \<in> set (pd_reqs db). rq_approved_by r \<notin> {None, Some (rq_requester r)})"
proof -
  obtain db where "procure.reached db" "map rq_status (pd_reqs db) = [ReqConverted]" by (rule chairs_bought)
  moreover from this(2) have "rq_status r = ReqConverted" if "r \<in> set (pd_reqs db)" for r
    using that by (cases "pd_reqs db") auto
  ultimately show ?thesis using requisitions_stay_approved_and_ordered_once [of db] by (intro exI [of _ db]) simp
qed

section \<open>What the unlocked routes allow\<close>

text \<open>
  An edit that read the draft before it was submitted replaces the lines and the total of the
  requisition after it was approved, and leaves it approved.
\<close>

theorem late_edit_rewrites_what_was_approved:
  assumes "update_requisition_from env snap p db = Inr db'" "rp_lines p = Some bs"
    "build_line_items (pv_line env) 1 bs = Inr ls"
    "x \<in> set (pd_reqs db)" "rq_id x = rq_id snap" "rq_status x = ReqApproved"
    "rq_lines x = rq_lines snap" "rq_total x = rq_total snap"
  shows "\<exists>y \<in> set (pd_reqs db'). rq_id y = rq_id x \<and> rq_status y = ReqApproved
     \<and> rq_approved_by y = rq_approved_by x \<and> rq_lines y = ls \<and> rq_total y = recompute_total ls"
proof -
  obtain lns new where n: "new_lines (pv_line env) p = Inr new" and u: "pd_reqs db' = pd_reqs (write_requisition (rq_id snap)
      (\<lambda>r. relined new snap (patched p lns snap r)) db)"
    by (rule update_cases [OF assms(1)]) blast
  have "new = Some ls" using n assms(2,3) by (auto simp: new_lines_def)
  then have "relined (Some ls) snap (patched p lns snap x) \<in> set (pd_reqs db')"
    unfolding u write_requisition_frame set_map by (intro rev_image_eqI [OF assms(4)]) (simp add: assms(5))
  then show ?thesis by (rule bexI [rotated]) (simp add: assms(6-8) relined_current)
qed

text \<open>
  Two edits of one draft that both read it before either was written leave the lines of both, under the
  total of the second: what is then approved and ordered is not what the lines add up to.
\<close>

theorem racing_edits_keep_both_line_sets:
  assumes "update_requisition_from env1 snap p1 db = Inr db1" "update_requisition_from env2 snap p2 db1 = Inr db2"
    "rp_lines p1 = Some bs1" "build_line_items (pv_line env1) 1 bs1 = Inr ls1"
    "rp_lines p2 = Some bs2" "build_line_items (pv_line env2) 1 bs2 = Inr ls2"
    "snap \<in> set (pd_reqs db)" "rl_id ` set ls1 \<inter> rl_id ` set (rq_lines snap) = {}"
    "recompute_total ls2 \<noteq> rq_total snap"
  shows "\<exists>y \<in> set (pd_reqs db2). rq_id y = rq_id snap \<and> rq_lines y = ls1 @ ls2 \<and> rq_total y = recompute_total ls2"
proof -
  obtain lns1 new1 where n1: "new_lines (pv_line env1) p1 = Inr new1"
    and u1: "pd_reqs db1 = pd_reqs (write_requisition (rq_id snap) (\<lambda>r. relined new1 snap (patched p1 lns1 snap r)) db)"
    by (rule update_cases [OF assms(1)]) blast
  obtain lns2 new2 where n2: "new_lines (pv_line env2) p2 = Inr new2"
    and u2: "pd_reqs db2 = pd_reqs (write_requisition (rq_id snap) (\<lambda>r. relined new2 snap (patched p2 lns2 snap r)) db1)"
    by (rule update_cases [OF assms(2)]) blast
  have new: "new1 = Some ls1" "new2 = Some ls2" using n1 n2 assms(3-6) by (auto simp: new_lines_def)
  let ?x = "relined (Some ls1) snap (patched p1 lns1 snap snap)"
  have x: "?x \<in> set (pd_reqs db1)"
    unfolding u1 new write_requisition_frame set_map by (intro rev_image_eqI [OF assms(7)]) simp
  then have y: "relined (Some ls2) snap (patched p2 lns2 snap ?x) \<in> set (pd_reqs db2)"
    unfolding u2 new write_requisition_frame set_map by (intro rev_image_eqI [OF x]) simp
  have "filter (\<lambda>l. rl_id l \<notin> rl_id ` set (rq_lines snap)) ls1 = ls1"
    using assms(8) by (auto simp: filter_id_conv)
  then have "rq_lines (relined (Some ls2) snap (patched p2 lns2 snap ?x)) = ls1 @ ls2"
    by (simp add: relined_current) (simp add: relined_def relined_current)
  moreover have "rq_total (relined (Some ls2) snap (patched p2 lns2 snap ?x)) = recompute_total ls2"
    using assms(9) by (simp add: relined_def set_column_def sent_change_def)
  ultimately show ?thesis by (intro bexI [OF _ y]) simp
qed

end
