(* ===== verification/Budgets.thy ===== *)
theory Budgets
  imports Procurement "HOL-Library.Char_ord" "HOL-Library.List_Lexorder"
begin

text \<open>
  Budgets (services/budget_service.py, api/budgets.py): an allocation, and what has been committed and
  spent against it, computed from requisitions, orders and invoices on every read.

  A grouped query keyed on the budget is a map from budget ids to legs that has an entry exactly for
  the budgets with at least one joined row. Sums are of NUMERIC(15,2) columns and exact; the currency
  columns are not null. The many-budget query and the one-budget query are the same function, with the
  index-serving predicates of the invoice scan written out.
\<close>

section \<open>Spend\<close>

definition OPEN_COMMITMENT_REQ_STATUSES :: "requisition_status list" where
  "OPEN_COMMITMENT_REQ_STATUSES = [ReqSubmitted, ReqPending_approval, ReqApproved]"

definition DEAD_PO_STATUSES :: "string list" where
  "DEAD_PO_STATUSES = [''cancelled'', ''closed'', ''voided'']"

definition REALISED_INVOICE_STATUSES :: "invoice_status list" where
  "REALISED_INVOICE_STATUSES = [Approved, Sent_to_erp, Posted_in_erp, Payment_scheduled, Paid, Done]"

fun DIMENSION_MATCH_COLUMN :: "budget_dimension \<Rightarrow> ap_invoice \<Rightarrow> string option" where
  "DIMENSION_MATCH_COLUMN Cost_center iv = cost_center iv"
| "DIMENSION_MATCH_COLUMN Gl_account iv = gl_account iv"
| "DIMENSION_MATCH_COLUMN Department iv = department iv"
| "DIMENSION_MATCH_COLUMN Project iv = project iv"

record spend_leg =
  lg_total :: rat
  lg_excluded :: nat

definition ZERO_LEG :: spend_leg where
  "ZERO_LEG = \<lparr>lg_total = 0, lg_excluded = 0\<rparr>"

record BudgetSpend =
  bs_allocated :: rat
  bs_committed :: rat
  bs_actual :: rat
  bs_remaining :: rat
  bs_utilization :: rat
  bs_currency :: string
  bs_excluded :: nat

text \<open>\<open>_q\<close>: to cents; what is summed has cents already.\<close>

definition q_money :: "rat \<Rightarrow> rat" where
  "q_money x = of_int (half_even (x * 100)) / 100"

text \<open>The two columns every leg selects: the sum over the rows in the budget's currency, and the count
  of the others.\<close>

definition leg_columns :: "string \<Rightarrow> (rat \<times> string) list \<Rightarrow> spend_leg" where
  "leg_columns cur rows =
     \<lparr>lg_total = q_money (sum_list (map fst (filter (\<lambda>r. snd r = cur) rows))),
      lg_excluded = length (filter (\<lambda>r. snd r \<noteq> cur) rows)\<rparr>"

text \<open>A grouped query over the budgets with the given ids.\<close>

definition collect_legs :: "proc_db \<Rightarrow> uuid list \<Rightarrow> (budget \<Rightarrow> (rat \<times> string) list) \<Rightarrow> uuid \<Rightarrow> spend_leg option" where
  "collect_legs db ids rows i =
     (case find (\<lambda>b. bg_id b = i \<and> bg_id b \<in> set ids) (pd_budgets db) of
        None \<Rightarrow> None
      | Some b \<Rightarrow> (if rows b = [] then None else Some (leg_columns (bg_currency b) (rows b))))"

definition requisition_rows :: "proc_db \<Rightarrow> budget \<Rightarrow> (rat \<times> string) list" where
  "requisition_rows db b =
     map (\<lambda>r. (rq_total r, rq_currency r))
       (filter (\<lambda>r. rq_budget r = Some (bg_id b) \<and> rq_status r \<in> set OPEN_COMMITMENT_REQ_STATUSES) (pd_reqs db))"

definition po_rows :: "proc_db \<Rightarrow> budget \<Rightarrow> (rat \<times> string) list" where
  "po_rows db b =
     concat (map (\<lambda>r. map (\<lambda>p. (po_total p, rq_currency r))
         (filter (\<lambda>p. Some (po_id p) = rq_po r \<and> po_status p \<notin> set DEAD_PO_STATUSES) (pd_orders db)))
       (filter (\<lambda>r. rq_budget r = Some (bg_id b) \<and> rq_status r = ReqConverted) (pd_reqs db)))"

definition committed_requisition_legs :: "proc_db \<Rightarrow> uuid list \<Rightarrow> uuid \<Rightarrow> spend_leg option" where
  "committed_requisition_legs db ids = collect_legs db ids (requisition_rows db)"

definition committed_po_legs :: "proc_db \<Rightarrow> uuid list \<Rightarrow> uuid \<Rightarrow> spend_leg option" where
  "committed_po_legs db ids = collect_legs db ids (po_rows db)"

text \<open>The set-level predicates on the invoices of a group of budgets.\<close>

definition invoice_scan_narrowing :: "budget_dimension \<Rightarrow> budget list \<Rightarrow> ap_invoice \<Rightarrow> bool" where
  "invoice_scan_narrowing kind grp iv \<longleftrightarrow>
     DIMENSION_MATCH_COLUMN kind iv \<in> Some ` set (map bg_value grp)
     \<and> (None \<in> set (map bg_entity grp) \<or> inv_entity iv \<in> set (map bg_entity grp))"

definition in_period :: "budget \<Rightarrow> ap_invoice \<Rightarrow> bool" where
  "in_period b iv \<longleftrightarrow>
     bg_start b = None \<or> bg_end b = None
     \<or> (case invoice_date iv of None \<Rightarrow> False | Some d \<Rightarrow> the (bg_start b) \<le> d \<and> d \<le> the (bg_end b))"

definition invoice_rows :: "budget_dimension \<Rightarrow> budget list \<Rightarrow> proc_db \<Rightarrow> budget \<Rightarrow> (rat \<times> string) list" where
  "invoice_rows kind grp db b =
     map (\<lambda>iv. (amount iv, currency iv))
       (filter (\<lambda>iv. DIMENSION_MATCH_COLUMN kind iv = Some (bg_value b)
                   \<and> invoice_scan_narrowing kind grp iv
                   \<and> status iv \<in> set REALISED_INVOICE_STATUSES
                   \<and> in_period b iv
                   \<and> (bg_entity b = None \<or> inv_entity iv = bg_entity b)) (pd_invoices db))"

text \<open>One query per dimension present; the loop merges their results.\<close>

definition actual_invoice_legs :: "proc_db \<Rightarrow> budget list \<Rightarrow> uuid \<Rightarrow> spend_leg option" where
  "actual_invoice_legs db bs =
     fold (\<lambda>kind legs. legs ++
             collect_legs db (map bg_id (filter (\<lambda>b. bg_dimension b = kind) bs))
               (invoice_rows kind (filter (\<lambda>b. bg_dimension b = kind) bs) db))
       (remdups (map bg_dimension bs)) Map.empty"

definition utilization :: "rat \<Rightarrow> rat \<Rightarrow> rat" where
  "utilization used allocated = q_money (ctx_mult (ctx_div used allocated) 100)"

definition assemble_spend :: "budget \<Rightarrow> spend_leg \<Rightarrow> spend_leg \<Rightarrow> spend_leg \<Rightarrow> BudgetSpend" where
  "assemble_spend b req po act =
     (let allocated = q_money (bg_amount b);
          committed = lg_total req + lg_total po;
          actual = lg_total act
      in \<lparr>bs_allocated = allocated, bs_committed = committed, bs_actual = actual,
          bs_remaining = allocated - committed - actual,
          bs_utilization = (if 0 < allocated then utilization (committed + actual) allocated else 0),
          bs_currency = bg_currency b, bs_excluded = lg_excluded req + lg_excluded po + lg_excluded act\<rparr>)"

definition compute_budget_spends :: "proc_db \<Rightarrow> budget list \<Rightarrow> uuid \<Rightarrow> BudgetSpend option" where
  "compute_budget_spends db bs =
     (if bs = [] then Map.empty
      else let ids = map bg_id bs;
               req_legs = committed_requisition_legs db ids;
               po_legs = committed_po_legs db ids;
               actual_legs = actual_invoice_legs db bs
           in map_of (rev (map (\<lambda>b. (bg_id b, assemble_spend b (get_or (req_legs (bg_id b)) ZERO_LEG)
                (get_or (po_legs (bg_id b)) ZERO_LEG) (get_or (actual_legs (bg_id b)) ZERO_LEG))) bs)))"

definition compute_budget_spend :: "proc_db \<Rightarrow> budget \<Rightarrow> BudgetSpend" where
  "compute_budget_spend db b = the (compute_budget_spends db [b] (bg_id b))"

section \<open>The rollup\<close>

definition resolve_currency :: "string \<Rightarrow> string" where
  "resolve_currency c = (let u = py_upper (py_strip c) in if u = [] then ''USD'' else u)"

record BudgetCurrencyRollup =
  cr_currency :: string
  cr_count :: nat
  cr_allocated :: rat
  cr_committed :: rat
  cr_actual :: rat
  cr_remaining :: rat
  cr_utilization :: "rat option"
  cr_over :: nat
  cr_excluded :: nat

record BudgetRollup =
  ru_count :: nat
  ru_by_currency :: "BudgetCurrencyRollup list"
  ru_excluded :: nat
  ru_insufficient :: bool

definition currency_rollup :: "(uuid \<Rightarrow> BudgetSpend) \<Rightarrow> budget list \<Rightarrow> string \<Rightarrow> BudgetCurrencyRollup" where
  "currency_rollup spends bs c =
     (let mine = map (\<lambda>b. spends (bg_id b)) (filter (\<lambda>b. resolve_currency (bg_currency b) = c) bs);
          allocated = sum_list (map bs_allocated mine);
          committed = sum_list (map bs_committed mine);
          actual = sum_list (map bs_actual mine)
      in \<lparr>cr_currency = c, cr_count = length mine, cr_allocated = allocated, cr_committed = committed,
          cr_actual = actual, cr_remaining = allocated - committed - actual,
          cr_utilization = (if 0 < allocated then Some (utilization (committed + actual) allocated) else None),
          cr_over = length (filter (\<lambda>s. bs_remaining s < 0) mine),
          cr_excluded = sum_list (map bs_excluded mine)\<rparr>)"

definition compute_budget_rollup :: "proc_db \<Rightarrow> budget list \<Rightarrow> BudgetRollup" where
  "compute_budget_rollup db bs =
     (let spends = (\<lambda>i. the (compute_budget_spends db bs i));
          by_cur = map (currency_rollup spends bs) (sort (remdups (map (\<lambda>b. resolve_currency (bg_currency b)) bs)))
      in \<lparr>ru_count = length bs, ru_by_currency = by_cur, ru_excluded = sum_list (map cr_excluded by_cur),
          ru_insufficient = (bs = [])\<rparr>)"

section \<open>The routes\<close>

definition get_budget :: "proc_db \<Rightarrow> uuid \<Rightarrow> budget py" where
  "get_budget db i =
     (case find (\<lambda>b. bg_id b = i) (pd_budgets db) of
        None \<Rightarrow> Inl (HTTPException 404 ''Budget not found'')
      | Some b \<Rightarrow> Inr b)"

record budget_body =
  nb_name :: string
  nb_dimension :: budget_dimension
  nb_value :: string
  nb_start :: "int option"
  nb_end :: "int option"
  nb_amount :: rat
  nb_currency :: string

primrec dimension_value :: "budget_dimension \<Rightarrow> string" where
  "dimension_value Department = ''department''"
| "dimension_value Project = ''project''"
| "dimension_value Cost_center = ''cost_center''"
| "dimension_value Gl_account = ''gl_account''"

definition create_budget :: "proc_env \<Rightarrow> proc_db \<Rightarrow> budget_body \<Rightarrow> budget \<times> proc_db" where
  "create_budget env db body =
     (let b = \<lparr>bg_id = pv_fresh env, bg_name = nb_name body, bg_dimension = nb_dimension body, bg_value = nb_value body,
               bg_start = nb_start body, bg_end = nb_end body, bg_amount = nb_amount body,
               bg_currency = nb_currency body, bg_org = pv_org env, bg_entity = pv_entity env\<rparr>
      in (b, audit_proc env ''budget.created'' ''budget'' (bg_id b)
               [(''name'', JStr (bg_name b)), (''dimension'', JStr (dimension_value (bg_dimension b))),
                (''dimension_value'', JStr (bg_value b)), (''amount'', JStr (pv_money_text env (bg_amount b)))]
               (db\<lparr>pd_budgets := pd_budgets db @ [b]\<rparr>)))"

record budget_check =
  bk_remaining :: rat
  bk_remaining_after :: rat
  bk_would_overspend :: bool
  bk_spend :: BudgetSpend

definition check_budget :: "proc_db \<Rightarrow> uuid \<Rightarrow> rat \<Rightarrow> budget_check py" where
  "check_budget db i asked =
     py_bind (get_budget db i) (\<lambda>b.
       let s = compute_budget_spend db b;
           remaining_after = bs_remaining s - asked
       in Inr \<lparr>bk_remaining = bs_remaining s, bk_remaining_after = remaining_after,
               bk_would_overspend = (remaining_after < 0), bk_spend = s\<rparr>)"

record budget_patch =
  bu_name :: "string option option"
  bu_dimension :: "budget_dimension option option"
  bu_value :: "string option option"
  bu_start :: "int option option"
  bu_end :: "int option option"
  bu_amount :: "rat option option"
  bu_currency :: "string option option"

text \<open>Null in a column that may not be null is refused by the database.\<close>

definition update_budget :: "proc_env \<Rightarrow> proc_db \<Rightarrow> uuid \<Rightarrow> budget_patch \<Rightarrow> proc_db py" where
  "update_budget env db i p =
     py_bind (get_budget db i) (\<lambda>b.
     py_bind (py_guard (bu_name p = Some None \<or> bu_dimension p = Some None \<or> bu_value p = Some None
                \<or> bu_amount p = Some None \<or> bu_currency p = Some None) IntegrityError) (\<lambda>_.
       let changed = changed_fields
             [(''name'', sent_change (bu_name p) (Some (bg_name b))),
              (''dimension'', sent_change (bu_dimension p) (Some (bg_dimension b))),
              (''dimension_value'', sent_change (bu_value p) (Some (bg_value b))),
              (''period_start'', sent_change (bu_start p) (bg_start b)),
              (''period_end'', sent_change (bu_end p) (bg_end b)),
              (''amount'', sent_change (bu_amount p) (Some (bg_amount b))),
              (''currency'', sent_change (bu_currency p) (Some (bg_currency b)))];
           db1 = db\<lparr>pd_budgets := update_where (\<lambda>x. bg_id x = i) (\<lambda>x. x\<lparr>
                   bg_name := the (get_or (bu_name p) (Some (bg_name x))),
                   bg_dimension := the (get_or (bu_dimension p) (Some (bg_dimension x))),
                   bg_value := the (get_or (bu_value p) (Some (bg_value x))),
                   bg_start := get_or (bu_start p) (bg_start x),
                   bg_end := get_or (bu_end p) (bg_end x),
                   bg_amount := the (get_or (bu_amount p) (Some (bg_amount x))),
                   bg_currency := the (get_or (bu_currency p) (Some (bg_currency x)))\<rparr>) (pd_budgets db)\<rparr>
       in Inr (if changed = [] then db1
               else audit_proc env ''budget.updated'' ''budget'' i [(''fields'', JList (map JStr changed))] db1)))"

text \<open>A requisition that names the budget keeps it: the foreign key has no delete rule.\<close>

definition delete_budget :: "proc_env \<Rightarrow> proc_db \<Rightarrow> uuid \<Rightarrow> proc_db py" where
  "delete_budget env db i =
     py_bind (get_budget db i) (\<lambda>b.
     py_bind (py_guard (list_ex (\<lambda>r. rq_budget r = Some i) (pd_reqs db)) IntegrityError) (\<lambda>_.
       Inr ((audit_proc env ''budget.deleted'' ''budget'' i
               [(''name'', JStr (bg_name b)), (''amount'', JStr (pv_money_text env (bg_amount b)))] db)
            \<lparr>pd_budgets := delete_where (\<lambda>x. bg_id x = i) (pd_budgets db)\<rparr>)))"

section \<open>One query for many budgets or for one\<close>

text \<open>The spend of a budget read on its own: no batching, no narrowing.\<close>

definition spend_of :: "proc_db \<Rightarrow> budget \<Rightarrow> BudgetSpend" where
  "spend_of db b =
     assemble_spend b (leg_columns (bg_currency b) (requisition_rows db b))
       (leg_columns (bg_currency b) (po_rows db b))
       (leg_columns (bg_currency b)
          (map (\<lambda>iv. (amount iv, currency iv))
            (filter (\<lambda>iv. DIMENSION_MATCH_COLUMN (bg_dimension b) iv = Some (bg_value b)
               \<and> status iv \<in> set REALISED_INVOICE_STATUSES \<and> in_period b iv
               \<and> (bg_entity b = None \<or> inv_entity iv = bg_entity b)) (pd_invoices db))))"

lemma leg_columns_Nil [simp]: "leg_columns cur [] = ZERO_LEG"
  using half_even_of_int [of 0] by (simp add: leg_columns_def ZERO_LEG_def q_money_def)

lemma find_key:
  assumes "distinct (map k xs)" "x \<in> set xs" "P x"
  shows "find (\<lambda>y. k y = k x \<and> P y) xs = Some x"
proof (cases "find (\<lambda>y. k y = k x \<and> P y) xs")
  case None
  then show ?thesis using assms by (auto simp: find_None_iff_all)
next
  case (Some y)
  then have "y \<in> set xs" "k y = k x" using find_Some_props [OF Some] by simp_all
  then have "y = x" using assms(1,2) by (simp add: distinct_map inj_on_def)
  then show ?thesis using Some by simp
qed

lemma collect_legs_in:
  assumes "distinct (map bg_id (pd_budgets db))" "b \<in> set (pd_budgets db)" "bg_id b \<in> set ids"
  shows "get_or (collect_legs db ids rows (bg_id b)) ZERO_LEG = leg_columns (bg_currency b) (rows b)"
  using find_key [OF assms(1,2), of "\<lambda>x. bg_id x \<in> set ids"] assms(3)
  by (simp add: collect_legs_def)

lemma collect_legs_out: "i \<notin> set ids \<Longrightarrow> collect_legs db ids rows i = None"
  by (auto simp: collect_legs_def dest: find_Some_props split: option.split)

text \<open>The narrowing predicates refuse nothing the join of a budget of the group admits.\<close>

lemma narrowing_redundant:
  assumes "b \<in> set grp"
  shows "invoice_rows kind grp db b =
     map (\<lambda>iv. (amount iv, currency iv))
       (filter (\<lambda>iv. DIMENSION_MATCH_COLUMN kind iv = Some (bg_value b)
          \<and> status iv \<in> set REALISED_INVOICE_STATUSES \<and> in_period b iv
          \<and> (bg_entity b = None \<or> inv_entity iv = bg_entity b)) (pd_invoices db))"
proof -
  have "invoice_scan_narrowing kind grp iv"
    if "DIMENSION_MATCH_COLUMN kind iv = Some (bg_value b)" "bg_entity b = None \<or> inv_entity iv = bg_entity b" for iv
  proof -
      have "bg_value b \<in> bg_value ` set grp" "bg_entity b \<in> bg_entity ` set grp" using assms by auto
      then show ?thesis using that by (cases "bg_entity b") (simp_all add: invoice_scan_narrowing_def)
  qed
  then show ?thesis unfolding invoice_rows_def by (intro arg_cong [where f = "map _"] filter_cong) auto
qed

lemma actual_legs_in:
  assumes "distinct (map bg_id (pd_budgets db))" "set bs \<subseteq> set (pd_budgets db)" "b \<in> set bs"
  shows "get_or (actual_invoice_legs db bs (bg_id b)) ZERO_LEG =
     leg_columns (bg_currency b) (invoice_rows (bg_dimension b) (filter (\<lambda>x. bg_dimension x = bg_dimension b) bs) db b)"
proof -
  define q where "q = (\<lambda>d. collect_legs db (map bg_id (filter (\<lambda>x. bg_dimension x = d) bs))
      (invoice_rows d (filter (\<lambda>x. bg_dimension x = d) bs) db))"
  have other: "q d (bg_id b) = None" if "d \<noteq> bg_dimension b" for d
  proof -
    have "x = b" if "x \<in> set bs" "bg_id x = bg_id b" for x
      using assms that by (metis distinct_map inj_onD subsetD)
    then show ?thesis unfolding q_def using that by (intro collect_legs_out) auto
  qed
  have merge: "fold (\<lambda>d legs. legs ++ q d) ds m (bg_id b) =
      (if bg_dimension b \<in> set ds then (case q (bg_dimension b) (bg_id b) of None \<Rightarrow> m (bg_id b) | Some l \<Rightarrow> Some l)
       else m (bg_id b))" for ds m
  proof (induction ds arbitrary: m)
    case (Cons d ds)
    then show ?case by (cases "d = bg_dimension b") (auto simp: other map_add_def split: option.split)
  qed simp
  have "actual_invoice_legs db bs (bg_id b) = q (bg_dimension b) (bg_id b)"
  proof -
    have "actual_invoice_legs db bs = fold (\<lambda>d legs. legs ++ q d) (remdups (map bg_dimension bs)) Map.empty"
      unfolding actual_invoice_legs_def q_def by simp
    then show ?thesis using assms(3) by (simp add: merge split: option.split)
  qed
  then show ?thesis
    using collect_legs_in [OF assms(1) subsetD [OF assms(2,3)], of "map bg_id (filter (\<lambda>x. bg_dimension x = bg_dimension b) bs)"]
      assms(3) by (simp add: q_def)
qed

lemma spends_are_spend_of:
  assumes "distinct (map bg_id (pd_budgets db))" "set bs \<subseteq> set (pd_budgets db)" "b \<in> set bs"
  shows "compute_budget_spends db bs (bg_id b) = Some (spend_of db b)"
proof -
  define f where "f = (\<lambda>b. assemble_spend b (get_or (committed_requisition_legs db (map bg_id bs) (bg_id b)) ZERO_LEG)
      (get_or (committed_po_legs db (map bg_id bs) (bg_id b)) ZERO_LEG) (get_or (actual_invoice_legs db bs (bg_id b)) ZERO_LEG))"
  have in_db: "b \<in> set (pd_budgets db)" using assms(2,3) by auto
  have "f b = spend_of db b"
    unfolding f_def spend_of_def committed_requisition_legs_def committed_po_legs_def actual_legs_in [OF assms]
    using narrowing_redundant [of b "filter (\<lambda>x. bg_dimension x = bg_dimension b) bs"] assms(3)
    by (simp add: collect_legs_in [OF assms(1) in_db])
  moreover have "compute_budget_spends db bs (bg_id b) = Some (f b)"
  proof -
    have "x = b" if "x \<in> set bs" "bg_id x = bg_id b" for x
      using assms that by (metis distinct_map inj_onD subsetD)
    then have "map_of (map (\<lambda>x. (bg_id x, f x)) (rev xs)) (bg_id b) = Some (f b)" if "b \<in> set xs" "set xs \<subseteq> set bs" for xs
      using that by (induction xs rule: rev_induct) auto
    then show ?thesis using assms(3) by (auto simp: compute_budget_spends_def rev_map f_def Let_def)
  qed
  ultimately show ?thesis by simp
qed

lemma spend_alone: "distinct (map bg_id (pd_budgets db)) \<Longrightarrow> b \<in> set (pd_budgets db) \<Longrightarrow> compute_budget_spend db b = spend_of db b"
  using spends_are_spend_of [of db "[b]" b] by (simp add: compute_budget_spend_def)

text \<open>
  C37: A budget's figures in a read of many budgets, one grouped query per leg and dimension with the
  scan narrowed to the whole set, are the figures of a read of that budget alone.
\<close>

theorem batched_spend_agrees_with_single:
  assumes "distinct (map bg_id (pd_budgets db))" "set bs \<subseteq> set (pd_budgets db)" "b \<in> set bs"
  shows "compute_budget_spends db bs (bg_id b) = Some (compute_budget_spend db b)"
  using spends_are_spend_of [OF assms] spend_alone [OF assms(1)] assms(2,3) by auto

section \<open>What an operation does to the commitment\<close>

text \<open>NUMERIC(15,2): the amounts read back from the tables are whole cents.\<close>

definition money_columns :: "proc_db \<Rightarrow> bool" where
  "money_columns db \<longleftrightarrow>
     (\<forall>r \<in> set (pd_reqs db). has_scale 2 (rq_total r)) \<and> (\<forall>p \<in> set (pd_orders db). has_scale 2 (po_total p))
     \<and> (\<forall>b \<in> set (pd_budgets db). has_scale 2 (bg_amount b)) \<and> (\<forall>iv \<in> set (pd_invoices db). has_scale 2 (amount iv))"

lemma q_money_id [simp]: "has_scale 2 x \<Longrightarrow> q_money x = x"
  by (auto simp: has_scale_iff q_money_def)

lemma has_scale_sum: "(\<And>x. x \<in> set xs \<Longrightarrow> has_scale s x) \<Longrightarrow> has_scale s (sum_list xs)"
  by (induction xs) (auto intro: has_scale_add)

text \<open>The rows a requisition contributes to the two committed legs of a budget.\<close>

definition committed_rows_of :: "purchase_order list \<Rightarrow> budget \<Rightarrow> requisition \<Rightarrow> (rat \<times> string) list" where
  "committed_rows_of ords b r =
     (if rq_budget r \<noteq> Some (bg_id b) then []
      else if rq_status r \<in> set OPEN_COMMITMENT_REQ_STATUSES then [(rq_total r, rq_currency r)]
      else if rq_status r = ReqConverted
        then map (\<lambda>p. (po_total p, rq_currency r))
               (filter (\<lambda>p. Some (po_id p) = rq_po r \<and> po_status p \<notin> set DEAD_PO_STATUSES) ords)
      else [])"

lemma committed_split_rows:
  fixes w :: "rat \<times> string \<Rightarrow> 'm::comm_monoid_add"
  shows "sum_list (map w (map (\<lambda>r. (rq_total r, rq_currency r))
        (filter (\<lambda>r. rq_budget r = Some (bg_id b) \<and> rq_status r \<in> set OPEN_COMMITMENT_REQ_STATUSES) rs)))
     + sum_list (map w (concat (map (\<lambda>r. map (\<lambda>p. (po_total p, rq_currency r))
         (filter (\<lambda>p. Some (po_id p) = rq_po r \<and> po_status p \<notin> set DEAD_PO_STATUSES) ords))
       (filter (\<lambda>r. rq_budget r = Some (bg_id b) \<and> rq_status r = ReqConverted) rs))))
     = sum_list (map (\<lambda>r. sum_list (map w (committed_rows_of ords b r))) rs)"
  by (induction rs) (auto simp: committed_rows_of_def OPEN_COMMITMENT_REQ_STATUSES_def ac_simps)

lemma committed_split:
  fixes w :: "rat \<times> string \<Rightarrow> 'm::comm_monoid_add"
  shows "sum_list (map w (requisition_rows db b)) + sum_list (map w (po_rows db b)) =
     sum_list (map (\<lambda>r. sum_list (map w (committed_rows_of (pd_orders db) b r))) (pd_reqs db))"
  unfolding requisition_rows_def po_rows_def by (rule committed_split_rows)

text \<open>What a budget has committed, and how many linked rows it leaves out.\<close>

definition in_currency :: "string \<Rightarrow> rat \<times> string \<Rightarrow> rat" where
  "in_currency cur r = (if snd r = cur then fst r else 0)"

definition out_of_currency :: "string \<Rightarrow> rat \<times> string \<Rightarrow> nat" where
  "out_of_currency cur r = (if snd r \<noteq> cur then 1 else 0)"

definition weight :: "(rat \<times> string \<Rightarrow> 'm::comm_monoid_add) \<Rightarrow> purchase_order list \<Rightarrow> budget \<Rightarrow> requisition \<Rightarrow> 'm" where
  "weight w ords b r = sum_list (map w (committed_rows_of ords b r))"

lemma leg_columns_sums:
  assumes "\<And>r. r \<in> set rows \<Longrightarrow> has_scale 2 (fst r)"
  shows "lg_total (leg_columns cur rows) = sum_list (map (in_currency cur) rows)"
    "lg_excluded (leg_columns cur rows) = sum_list (map (out_of_currency cur) rows)"
proof -
  have "has_scale 2 (sum_list (map fst (filter (\<lambda>r. snd r = cur) rows)))"
    by (rule has_scale_sum) (use assms in auto)
  then show "lg_total (leg_columns cur rows) = sum_list (map (in_currency cur) rows)"
    by (simp add: leg_columns_def in_currency_def [abs_def] sum_list_map_filter')
  show "lg_excluded (leg_columns cur rows) = sum_list (map (out_of_currency cur) rows)"
    unfolding leg_columns_def by (induction rows) (simp_all add: out_of_currency_def)
qed

lemma committed_spec:
  assumes "money_columns db"
  shows "bs_committed (spend_of db b) = sum_list (map (weight (in_currency (bg_currency b)) (pd_orders db) b) (pd_reqs db))"
    "lg_excluded (leg_columns (bg_currency b) (requisition_rows db b)) + lg_excluded (leg_columns (bg_currency b) (po_rows db b))
       = sum_list (map (weight (out_of_currency (bg_currency b)) (pd_orders db) b) (pd_reqs db))"
proof -
  have s: "has_scale 2 (fst r)" if "r \<in> set (requisition_rows db b) \<or> r \<in> set (po_rows db b)" for r
    using that assms by (auto simp: requisition_rows_def po_rows_def money_columns_def)
  have c: "bs_committed (spend_of db b) =
      lg_total (leg_columns (bg_currency b) (requisition_rows db b)) + lg_total (leg_columns (bg_currency b) (po_rows db b))"
    by (simp add: spend_of_def assemble_spend_def Let_def)
  show "bs_committed (spend_of db b) = sum_list (map (weight (in_currency (bg_currency b)) (pd_orders db) b) (pd_reqs db))"
    unfolding c using committed_split [of "in_currency (bg_currency b)" db b] s by (simp add: leg_columns_sums weight_def [abs_def])
  show "lg_excluded (leg_columns (bg_currency b) (requisition_rows db b)) + lg_excluded (leg_columns (bg_currency b) (po_rows db b))
       = sum_list (map (weight (out_of_currency (bg_currency b)) (pd_orders db) b) (pd_reqs db))"
    using committed_split [of "out_of_currency (bg_currency b)" db b] s by (simp add: leg_columns_sums weight_def [abs_def])
qed

lemma spend_of_fields:
  "bs_actual (spend_of db b) = lg_total (leg_columns (bg_currency b)
     (map (\<lambda>iv. (amount iv, currency iv))
       (filter (\<lambda>iv. DIMENSION_MATCH_COLUMN (bg_dimension b) iv = Some (bg_value b)
          \<and> status iv \<in> set REALISED_INVOICE_STATUSES \<and> in_period b iv
          \<and> (bg_entity b = None \<or> inv_entity iv = bg_entity b)) (pd_invoices db))))"
  "bs_remaining (spend_of db b) = bs_allocated (spend_of db b) - bs_committed (spend_of db b) - bs_actual (spend_of db b)"
  "bs_allocated (spend_of db b) = q_money (bg_amount b)" "bs_currency (spend_of db b) = bg_currency b"
  by (simp_all add: spend_of_def assemble_spend_def Let_def)

text \<open>Two databases with the same invoices in which every requisition weighs the same give a budget the same spend.\<close>

lemma spend_of_cong:
  assumes "money_columns db" "money_columns db'" "pd_invoices db' = pd_invoices db"
    and "\<And>w. (w :: rat \<times> string \<Rightarrow> rat) = in_currency (bg_currency b) \<Longrightarrow>
           sum_list (map (weight w (pd_orders db') b) (pd_reqs db')) = sum_list (map (weight w (pd_orders db) b) (pd_reqs db))"
    and "sum_list (map (weight (out_of_currency (bg_currency b)) (pd_orders db') b) (pd_reqs db')) =
           sum_list (map (weight (out_of_currency (bg_currency b)) (pd_orders db) b) (pd_reqs db))"
  shows "spend_of db' b = spend_of db b"
proof -
  note c = committed_spec [OF assms(1), of b] committed_spec [OF assms(2), of b]
  have "bs_committed (spend_of db' b) = bs_committed (spend_of db b)" using c(1,3) assms(4) [OF refl] by simp
  moreover have "bs_actual (spend_of db' b) = bs_actual (spend_of db b)" by (simp add: spend_of_fields(1) assms(3))
  moreover have "bs_excluded (spend_of db' b) = bs_excluded (spend_of db b)"
    using c(2,4) assms(3,5) by (simp add: spend_of_def assemble_spend_def Let_def)
  moreover have "bs_utilization (spend_of d b) = (if 0 < bs_allocated (spend_of d b)
      then utilization (bs_committed (spend_of d b) + bs_actual (spend_of d b)) (bs_allocated (spend_of d b)) else 0)" for d
    by (simp add: spend_of_def assemble_spend_def Let_def)
  ultimately show ?thesis
    by (intro BudgetSpend.equality) (simp_all add: spend_of_fields(2-4))
qed

lemma sum_list_one_changed:
  fixes h :: "'a \<Rightarrow> 'm::ab_group_add"
  assumes "distinct (map k xs)" "x \<in> set xs"
  shows "sum_list (map h (map (\<lambda>y. if k y = k x then f y else y) xs)) = sum_list (map h xs) - h x + h (f x)"
  using assms
proof (induction xs)
  case (Cons a xs)
  show ?case
  proof (cases "x = a")
    case True
    then have "map (\<lambda>y. if k y = k x then f y else y) xs = xs" using Cons.prems(1) by (intro map_idI) (force simp: image_iff)
    then show ?thesis using True by simp
  next
    case False
    then have "k a \<noteq> k x" using Cons.prems by auto
    then show ?thesis using Cons False by simp
  qed
qed simp

text \<open>Converting: the requisition stops being counted and its order starts.\<close>

lemma conversion_weights:
  assumes "proc_ok db" "pv_fresh env \<notin> po_id ` set (pd_orders db)" "convert_to_po env db i = Inr (p, new, db')"
  shows "map (weight w (pd_orders db') b) (pd_reqs db') = map (weight w (pd_orders db) b) (pd_reqs db)"
  using assms(3)
proof (cases rule: convert_cases)
  case (converted r)
  have p: "po_id p = pv_fresh env" "po_total p = rq_total r" "po_status p = ''open''"
    by (simp_all add: converted(5) convert_requisition_to_po_def)
  have r: "r \<in> set (pd_reqs db)" using get_requisition_Inr [OF converted(1)] by simp
  have own: "x = r" if "x \<in> set (pd_reqs db)" "rq_id x = rq_id r" for x
    using assms(1) r that by (simp add: proc_ok_def distinct_map inj_on_def)
  have old: "rq_po x \<noteq> Some (po_id p)" if "x \<in> set (pd_reqs db)" for x
    using assms(1,2) that p(1) by (force simp: proc_ok_def row_ok_def)
  have other: "filter (\<lambda>q. Some (po_id q) = rq_po x \<and> po_status q \<notin> set DEAD_PO_STATUSES) (pd_orders db @ [p])
      = filter (\<lambda>q. Some (po_id q) = rq_po x \<and> po_status q \<notin> set DEAD_PO_STATUSES) (pd_orders db)"
    if "x \<in> set (pd_reqs db)" for x
    using old [OF that] by auto
  have mine: "filter (\<lambda>q. po_id q = po_id p \<and> po_status q \<notin> set DEAD_PO_STATUSES) (pd_orders db @ [p]) = [p]"
  proof -
    have "po_id q \<noteq> po_id p" if "q \<in> set (pd_orders db)" for q using assms(2) that p(1) by (metis imageI)
    then show ?thesis by (simp add: filter_empty_conv p(3) DEAD_PO_STATUSES_def)
  qed
  have "weight w (pd_orders db') b (if rq_id x = rq_id r then x\<lparr>rq_status := ReqConverted, rq_po := Some (po_id p)\<rparr> else x)
      = weight w (pd_orders db) b x" if "x \<in> set (pd_reqs db)" for x
  proof (cases "rq_id x = rq_id r")
    case True
    then have "x = r" by (rule own [OF that])
    then show ?thesis using converted(3) mine p(2)
      by (simp add: weight_def committed_rows_of_def OPEN_COMMITMENT_REQ_STATUSES_def converted(6))
  next
    case False
    then show ?thesis using other [OF that] by (simp add: weight_def committed_rows_of_def converted(6))
  qed
  then show ?thesis unfolding converted(7) by simp
qed simp

lemma conversion_frame:
  assumes "convert_to_po env db i = Inr (p, new, db')" "money_columns db"
  shows "pd_budgets db' = pd_budgets db" "pd_invoices db' = pd_invoices db" "money_columns db'"
  using assms(1)
proof (atomize (full), cases rule: convert_cases)
  case (converted r)
  have "has_scale 2 (po_total p)"
    using assms(2) get_requisition_Inr [OF converted(1)]
    by (simp add: money_columns_def converted(5) convert_requisition_to_po_def)
  then show "pd_budgets db' = pd_budgets db \<and> pd_invoices db' = pd_invoices db \<and> money_columns db'"
    using assms(2) converted(6-9) by (auto simp: money_columns_def)
qed (use assms(2) in simp)

text \<open>
  C27: Turning a requisition into a purchase order changes no budget's figures: the demand is counted
  exactly once before and exactly once after.
\<close>

theorem conversion_keeps_every_budget:
  assumes "procure.reached db" "money_columns db" "distinct (map bg_id (pd_budgets db))" "b \<in> set (pd_budgets db)"
    "pv_fresh env \<notin> po_id ` set (pd_orders db)" "convert_to_po env db i = Inr (p, new, db')"
  shows "compute_budget_spend db' b = compute_budget_spend db b"
proof -
  have ok: "proc_ok db" by (rule procure.reached_keeps [OF assms(1)])
  note w = conversion_weights [OF ok assms(5,6)]
  note frame = conversion_frame [OF assms(6,2)]
  have "spend_of db' b = spend_of db b"
    by (rule spend_of_cong [OF assms(2) frame(3,2)]) (simp_all only: w)
  then show ?thesis using spend_alone assms(3,4) frame(1) by simp
qed


text \<open>A change of one requisition moves the commitment by what that requisition weighs.\<close>

lemma one_row_commitment:
  assumes "distinct (map rq_id (pd_reqs db))" "r \<in> set (pd_reqs db)" "money_columns db" "money_columns db'"
    "pd_orders db' = pd_orders db" "pd_invoices db' = pd_invoices db"
    "pd_reqs db' = map (\<lambda>x. if rq_id x = rq_id r then f x else x) (pd_reqs db)"
  shows "bs_remaining (spend_of db' b) = bs_remaining (spend_of db b)
     + weight (in_currency (bg_currency b)) (pd_orders db) b r - weight (in_currency (bg_currency b)) (pd_orders db) b (f r)"
proof -
  have "bs_committed (spend_of db' b) = bs_committed (spend_of db b)
      - weight (in_currency (bg_currency b)) (pd_orders db) b r + weight (in_currency (bg_currency b)) (pd_orders db) b (f r)"
    using sum_list_one_changed [OF assms(1,2), of "weight (in_currency (bg_currency b)) (pd_orders db) b" f]
    by (simp add: committed_spec(1) [OF assms(3)] committed_spec(1) [OF assms(4)] assms(5,7))
  moreover have "bs_actual (spend_of db' b) = bs_actual (spend_of db b)" by (simp add: spend_of_fields(1) assms(6))
  ultimately show ?thesis by (simp add: spend_of_fields(2,3))
qed

lemma submit_rows:
  assumes "submit_requisition env db i = Inr db'"
  obtains r where "get_requisition db i = Inr r" "rq_status r \<in> {ReqDraft, ReqSubmitted}"
    "pd_reqs db' = map (\<lambda>x. if rq_id x = rq_id r
       then x\<lparr>rq_submitted_at := Some (pv_now env), rq_status := ReqPending_approval\<rparr> else x) (pd_reqs db)"
    "pd_orders db' = pd_orders db" "pd_budgets db' = pd_budgets db" "pd_invoices db' = pd_invoices db"
proof -
  obtain r where r: "get_requisition db i = Inr r" "submit_requisition_from env r db = Inr db'"
    using assms by (auto simp: submit_requisition_def)
  note m = move_requisition_Inr [OF r(2) [unfolded submit_requisition_from_def]]
  have "rq_status r \<in> {ReqDraft, ReqSubmitted}" using m(3) by (cases "rq_status r") simp_all
  then show ?thesis by (rule that [OF r(1) _ m(1,2,4,5)])
qed

text \<open>
  What \<open>/budgets/check\<close> says would remain after an amount is what remains once a draft of that
  amount, linked to the budget in its currency, is submitted.
\<close>

theorem check_predicts_the_submission:
  assumes "procure.reached db" "money_columns db" "distinct (map bg_id (pd_budgets db))" "b \<in> set (pd_budgets db)"
    "r \<in> set (pd_reqs db)" "rq_status r = ReqDraft" "rq_budget r = Some (bg_id b)" "rq_currency r = bg_currency b"
    "check_budget db (bg_id b) (rq_total r) = Inr c" "submit_requisition env db (rq_id r) = Inr db'"
  shows "bs_remaining (compute_budget_spend db' b) = bk_remaining_after c
     \<and> (bk_would_overspend c \<longleftrightarrow> bs_remaining (compute_budget_spend db' b) < 0)"
proof -
  have ok: "proc_ok db" by (rule procure.reached_keeps [OF assms(1)])
  then have d: "distinct (map rq_id (pd_reqs db))" by (simp add: proc_ok_def)
  have "get_requisition db (rq_id r) = Inr r" by (rule get_requisition_row [OF d assms(5)])
  with assms(10) have s: "pd_reqs db' = map (\<lambda>x. if rq_id x = rq_id r
       then x\<lparr>rq_submitted_at := Some (pv_now env), rq_status := ReqPending_approval\<rparr> else x) (pd_reqs db)"
    "pd_orders db' = pd_orders db" "pd_budgets db' = pd_budgets db" "pd_invoices db' = pd_invoices db"
    by (auto elim!: submit_rows)
  have "money_columns db'" using assms(2) s by (auto simp: money_columns_def)
  note m = one_row_commitment [OF d assms(5,2) this s(2,4,1), of b]
  have "bs_remaining (spend_of db' b) = bs_remaining (spend_of db b) - rq_total r"
    using m assms(6-8) by (simp add: weight_def committed_rows_of_def OPEN_COMMITMENT_REQ_STATUSES_def in_currency_def)
  moreover have "get_budget db (bg_id b) = Inr b"
    using find_key [OF assms(3,4), of "\<lambda>_. True"] by (simp add: get_budget_def)
  ultimately show ?thesis
    using assms(3,4,9) spend_alone [of db b] spend_alone [of db' b] s(3) by (auto simp: check_budget_def Let_def)
qed

section \<open>What escapes the budget\<close>

text \<open>
  The link check compares currencies without case, the spend query exactly: a requisition in
  another spelling of the budget's currency may name the budget, and submitting it commits nothing.
\<close>

theorem spelling_escapes_the_budget:
  assumes "proc_ok db" "money_columns db" "r \<in> set (pd_reqs db)" "py_upper (rq_currency r) = py_upper (bg_currency b)"
    "rq_currency r \<noteq> bg_currency b" "find_budget org ent (pd_budgets db) (bg_id b) = Some b"
    "opt_uuid txt ''budget_id'' = Inr (Some (bg_id b))" "submit_requisition env db (rq_id r) = Inr db'"
  shows "resolve_budget org ent (pd_budgets db) (rq_currency r) (Some txt) = Inr (Some (bg_id b))
     \<and> bs_remaining (spend_of db' b) = bs_remaining (spend_of db b)"
proof -
  have d: "distinct (map rq_id (pd_reqs db))" using assms(1) by (simp add: proc_ok_def)
  have "get_requisition db (rq_id r) = Inr r" by (rule get_requisition_row [OF d assms(3)])
  with assms(8) have s: "rq_status r \<in> {ReqDraft, ReqSubmitted}" "pd_reqs db' = map (\<lambda>x. if rq_id x = rq_id r
       then x\<lparr>rq_submitted_at := Some (pv_now env), rq_status := ReqPending_approval\<rparr> else x) (pd_reqs db)"
    "pd_orders db' = pd_orders db" "pd_budgets db' = pd_budgets db" "pd_invoices db' = pd_invoices db"
    by (auto elim!: submit_rows)
  have m: "money_columns db'" using assms(2) s by (auto simp: money_columns_def)
  have "weight (in_currency (bg_currency b)) ords b x = 0"
    if "rq_currency x = rq_currency r" "rq_status x \<in> {ReqDraft, ReqSubmitted, ReqPending_approval}" for ords x
    using that assms(5)
    by (auto simp: weight_def committed_rows_of_def OPEN_COMMITMENT_REQ_STATUSES_def in_currency_def)
  then have "bs_remaining (spend_of db' b) = bs_remaining (spend_of db b)"
    using one_row_commitment [OF d assms(3,2) m s(3,5,2), of b] s(1) by auto
  then show ?thesis using assms(4,6,7) by (simp add: resolve_budget_def)
qed

text \<open>
  A cancellation that read the requisition before it was converted leaves its purchase order open
  and takes the order out of the budget's commitment.
\<close>

theorem late_cancellation_strands_the_order:
  assumes "procure.reached db" "money_columns db" "b \<in> set (pd_budgets db)"
    "r \<in> set (pd_reqs db)" "rq_budget r = Some (bg_id b)" "rq_currency r = bg_currency b"
    "pv_fresh env \<notin> po_id ` set (pd_orders db)" "convert_to_po env db (rq_id r) = Inr (p, True, db1)"
    "cancel_requisition_from env' reason r db1 = Inr db2"
  shows "p \<in> set (pd_orders db2) \<and> po_status p = ''open'' \<and> po_total p = rq_total r
     \<and> bs_remaining (spend_of db2 b) = bs_remaining (spend_of db b) + rq_total r"
proof -
  have ok: "proc_ok db" by (rule procure.reached_keeps [OF assms(1)])
  have d: "distinct (map rq_id (pd_reqs db))" using ok by (simp add: proc_ok_def)
  have g: "get_requisition db (rq_id r) = Inr r" by (rule get_requisition_row [OF d assms(4)])
  define r1 where "r1 = r\<lparr>rq_status := ReqConverted, rq_po := Some (po_id p)\<rparr>"
  have c: "rq_status r = ReqApproved" "p = convert_requisition_to_po r (pv_fresh env) (pv_now env) (pv_org env) (''PO-'' @ rq_number r)"
    "pd_orders db1 = pd_orders db @ [p]"
    "pd_reqs db1 = map (\<lambda>x. if rq_id x = rq_id r then x\<lparr>rq_status := ReqConverted, rq_po := Some (po_id p)\<rparr> else x) (pd_reqs db)"
    "pd_invoices db1 = pd_invoices db"
    using assms(8) g by (auto elim!: convert_cases)
  have p: "po_id p = pv_fresh env" "po_total p = rq_total r" "po_status p = ''open''"
    by (simp_all add: c(2) convert_requisition_to_po_def)
  have m1: "money_columns db1" by (rule conversion_frame(3) [OF assms(8,2)])
  note n = move_requisition_Inr [OF assms(9) [unfolded cancel_requisition_from_def]]
  have m2: "money_columns db2" using m1 n by (auto simp: money_columns_def)
  have ok1: "proc_ok db1" by (rule convert_keeps [OF assms(8) ok assms(7)])
  have r1: "r1 \<in> set (pd_reqs db1)" "rq_id r1 = rq_id r"
    unfolding c(4) r1_def using assms(4) by (auto simp: image_iff)
  have d1: "distinct (map rq_id (pd_reqs db1))" using ok1 by (simp add: proc_ok_def)
  have same: "spend_of db1 b = spend_of db b"
    by (rule spend_of_cong [OF assms(2) m1 c(5)]) (simp_all only: conversion_weights [OF ok assms(7,8)])
  have "filter (\<lambda>q. po_id q = po_id p \<and> po_status q \<notin> set DEAD_PO_STATUSES) (pd_orders db @ [p]) = [p]"
  proof -
    have "po_id q \<noteq> po_id p" if "q \<in> set (pd_orders db)" for q using assms(7) that p(1) by (metis imageI)
    then show ?thesis by (simp add: filter_empty_conv p(3) DEAD_PO_STATUSES_def)
  qed
  then have w1: "weight (in_currency (bg_currency b)) (pd_orders db1) b r1 = rq_total r"
    using assms(5,6) p(2) by (simp add: weight_def committed_rows_of_def OPEN_COMMITMENT_REQ_STATUSES_def in_currency_def r1_def c(3))
  have w2: "weight (in_currency (bg_currency b)) (pd_orders db1) b (r1\<lparr>rq_status := ReqCancelled\<rparr>) = 0"
    by (simp add: weight_def committed_rows_of_def OPEN_COMMITMENT_REQ_STATUSES_def)
  have "bs_remaining (spend_of db2 b) = bs_remaining (spend_of db1 b) + rq_total r"
    using one_row_commitment [OF d1 r1(1) m1 m2 n(2,5), of "\<lambda>x. x\<lparr>rq_status := ReqCancelled\<rparr>" b] n(1) w1 w2 r1(2) by simp
  then show ?thesis using same n(2) c(3) p by simp
qed

section \<open>The chairs against a budget\<close>

definition chairs_budget :: budget where
  "chairs_budget = \<lparr>bg_id = 70, bg_name = ''B'', bg_dimension = Department, bg_value = ''IT'', bg_start = None,
     bg_end = None, bg_amount = 1000, bg_currency = ''USD'', bg_org = 1, bg_entity = None\<rparr>"

definition budgeted_db :: proc_db where
  "budgeted_db = empty_proc_db\<lparr>pd_budgets := [chairs_budget]\<rparr>"

lemma chairs_budget_sel [simp]:
  "bg_id chairs_budget = 70" "bg_currency chairs_budget = ''USD''" "bg_amount chairs_budget = 1000"
  "bg_org chairs_budget = 1" "bg_entity chairs_budget = None"
  by (simp_all add: chairs_budget_def)

lemma budgeted_rows [simp]:
  "pd_budgets budgeted_db = [chairs_budget]" "pd_reqs budgeted_db = []" "pd_orders budgeted_db = []" "pd_invoices budgeted_db = []"
  by (simp_all add: budgeted_db_def empty_proc_db_def)

lemma budgeted_reached: "procure.reached budgeted_db"
  by (rule procure.reached_start) simp

text \<open>Beside it a budget of a project, and an invoice of 40 that counts against the latter.\<close>

definition fitting_budget :: budget where
  "fitting_budget = chairs_budget\<lparr>bg_id := 71, bg_name := ''fitting'', bg_dimension := Project, bg_value := ''HQ''\<rparr>"

definition fitting_invoice :: ap_invoice where
  "fitting_invoice = invoice.extend (sample_invoice\<lparr>amount := 40, status := Approved\<rparr>) (ap_invoice.fields (Some ''HQ'') None)"

definition two_budgets_db :: proc_db where
  "two_budgets_db = budgeted_db\<lparr>pd_budgets := [chairs_budget, fitting_budget], pd_invoices := [fitting_invoice]\<rparr>"

theorem batched_spend_witness:
  "compute_budget_spends two_budgets_db [chairs_budget, fitting_budget] 70 = Some (compute_budget_spend two_budgets_db chairs_budget)
   \<and> compute_budget_spends two_budgets_db [chairs_budget, fitting_budget] 71 = Some (compute_budget_spend two_budgets_db fitting_budget)"
proof -
  have i: "bg_id chairs_budget = 70" "bg_id fitting_budget = 71" by (simp_all add: fitting_budget_def)
  show ?thesis
    using batched_spend_agrees_with_single [of two_budgets_db "[chairs_budget, fitting_budget]" chairs_budget]
      batched_spend_agrees_with_single [of two_budgets_db "[chairs_budget, fitting_budget]" fitting_budget]
    by (simp add: two_budgets_db_def i)
qed

text \<open>The chairs' draft, drawn against the budget.\<close>

definition budgeted_body :: requisition_body where
  "budgeted_body = chairs_body\<lparr>rb_budget := Some (uuid_str 70)\<rparr>"

lemma parse_budget_id: "opt_uuid (Some (uuid_str 70)) ''budget_id'' = Inr (Some 70)"
proof -
  have "uuid_parse [] = None" by (simp add: uuid_parse_def Let_def remove_sub.simps)
  then have "uuid_str 70 \<noteq> []" by (metis option.distinct(1) uuid_parse_str)
  then show ?thesis by (simp add: opt_uuid_def)
qed

lemma chairs_links:
  "resolve_links budgeted_db \<lparr>lk_vendor = Some None, lk_contract = Some None, lk_budget = Some (Some (uuid_str 70))\<rparr>
     1 ''USD'' None = Inr \<lparr>ln_vendor = None, ln_contract = None, ln_budget = Some 70\<rparr>"
proof -
  have "find_budget 1 None (pd_budgets budgeted_db) 70 = Some chairs_budget"
    by (simp add: find_budget_def apply_entity_scope_def)
  then have "resolve_budget 1 None (pd_budgets budgeted_db) ''USD'' (Some (Some (uuid_str 70))) = Inr (Some 70)"
    using parse_budget_id by (simp add: resolve_budget_def)
  moreover have "resolve_party 1 None rows f l (Some None) = Inr None" for rows f l
    by (simp add: resolve_party_def opt_uuid_def)
  ultimately show ?thesis by (simp add: resolve_links_def)
qed

lemma chairs_drafted:
  obtains r db1 where "create_requisition buyer_env budgeted_db budgeted_body = Inr (r, db1)" "pd_reqs db1 = [r]"
    "pd_orders db1 = []" "pd_budgets db1 = [chairs_budget]" "pd_invoices db1 = []" "rq_id r = 60" "rq_requester r = 20"
    "rq_status r = ReqDraft" "rq_po r = None" "rq_total r = 300" "rq_budget r = Some 70" "rq_currency r = ''USD''"
    "procure.reached db1"
proof -
  have e: "pv_fresh buyer_env = 60" "pv_user buyer_env = 20" by (simp_all add: buyer_env_def)
  have rnd: "round_half_up 2 300 = 300" using round_half_up_id [OF has_scale_of_int [of 2 300]] by simp
  define ls where "ls = [\<lparr>rl_id = 501, rl_number = Some 1, rl_catalog = None, rl_description = Some ''chair'', rl_quantity = Some 2,
       rl_price = Some 150, rl_total = Some 300, rl_gl = None\<rparr>]"
  have l: "build_line_items (pv_line buyer_env) 1 (rb_lines chairs_body) = Inr ls"
    by (simp add: chairs_body_def buyer_env_def ls_def opt_uuid_def chairs_total del: line_total.simps)
  have f: "flush_lines ls = Inr ()" "recompute_total ls = 300"
    by (simp_all add: flush_lines_def fits_money_def recompute_total_def ls_def rnd)
  have body: "rb_vendor budgeted_body = None" "rb_contract budgeted_body = None" "rb_budget budgeted_body = Some (uuid_str 70)"
    "rb_currency budgeted_body = ''USD''" "rb_lines budgeted_body = rb_lines chairs_body" "pv_org buyer_env = 1" "pv_entity buyer_env = None"
    by (simp_all add: budgeted_body_def chairs_body_def buyer_env_def)
  obtain r db1 where c: "create_requisition buyer_env budgeted_db budgeted_body = Inr (r, db1)" "pd_reqs db1 = [r]"
    "pd_orders db1 = []" "pd_budgets db1 = [chairs_budget]" "pd_invoices db1 = []" "rq_id r = 60" "rq_requester r = 20"
    "rq_status r = ReqDraft" "rq_po r = None" "rq_total r = 300" "rq_budget r = Some 70" "rq_currency r = ''USD''"
    by (simp add: create_requisition_def Let_def body chairs_links l f e)
  have "proc_step budgeted_db db1" by (rule create_req [OF c(1)]) simp
  then show ?thesis by (intro that [OF c] procure.reached_move [OF budgeted_reached])
qed

lemma drafted_money:
  assumes "pd_reqs db = [r]" "pd_orders db = []" "pd_budgets db = [chairs_budget]" "pd_invoices db = []" "rq_total r = 300"
  shows "money_columns db"
  using assms has_scale_of_int [of 2 300] has_scale_of_int [of 2 1000] by (simp add: money_columns_def)

theorem check_predicts_witness:
  "\<exists>db (r :: requisition) c db'. check_budget db 70 300 = Inr c \<and> submit_requisition buyer_env db (rq_id r) = Inr db'
     \<and> bs_remaining (compute_budget_spend db' chairs_budget) = bk_remaining_after c"
proof -
  obtain r db1 where c: "pd_reqs db1 = [r]" "pd_orders db1 = []" "pd_budgets db1 = [chairs_budget]" "pd_invoices db1 = []"
    "rq_id r = 60" "rq_status r = ReqDraft" "rq_total r = 300" "rq_budget r = Some 70" "rq_currency r = ''USD''" "procure.reached db1"
    by (rule chairs_drafted)
  obtain k where k: "check_budget db1 (bg_id chairs_budget) (rq_total r) = Inr k"
    by (simp add: check_budget_def get_budget_def c(3) Let_def)
  obtain db2 where s: "submit_requisition buyer_env db1 (rq_id r) = Inr db2"
    using c(1,6) by (simp add: submit_requisition_def get_requisition_def submit_requisition_from_def move_requisition_def guard_transition_def)
  have "bs_remaining (compute_budget_spend db2 chairs_budget) = bk_remaining_after k"
    using check_predicts_the_submission [OF c(10) drafted_money [OF c(1-4,7)] _ _ _ c(6) _ _ k s] c by simp
  then have "check_budget db1 70 300 = Inr k \<and> submit_requisition buyer_env db1 (rq_id r) = Inr db2
     \<and> bs_remaining (compute_budget_spend db2 chairs_budget) = bk_remaining_after k" using k s c(7) by simp
  then show ?thesis by (intro exI)
qed

theorem conversion_keeps_witness:
  "\<exists>db (r :: requisition) p db'. convert_to_po manager_env db (rq_id r) = Inr (p, True, db') \<and> po_total p = 300
     \<and> compute_budget_spend db' chairs_budget = compute_budget_spend db chairs_budget"
proof -
  obtain r db1 where c: "pd_reqs db1 = [r]" "pd_orders db1 = []" "pd_budgets db1 = [chairs_budget]" "pd_invoices db1 = []"
    "rq_id r = 60" "rq_requester r = 20" "rq_status r = ReqDraft" "rq_po r = None" "rq_total r = 300" "procure.reached db1"
    by (rule chairs_drafted)
  have e: "pv_fresh manager_env = 61" "pv_user manager_env = 21" by (simp_all add: manager_env_def buyer_env_def)
  define r2 where "r2 = r\<lparr>rq_submitted_at := Some (pv_now buyer_env), rq_status := ReqPending_approval\<rparr>"
  obtain db2 where d2: "submit_requisition_from buyer_env r db1 = Inr db2" "pd_reqs db2 = [r2]" "pd_orders db2 = []"
    "pd_budgets db2 = [chairs_budget]" "pd_invoices db2 = []"
    using c(1-4,7) by (simp add: submit_requisition_from_def move_requisition_def guard_transition_def r2_def)
  define r3 where "r3 = r2\<lparr>rq_approved_at := Some (pv_now manager_env), rq_approved_by := Some 21, rq_status := ReqApproved\<rparr>"
  obtain db3 where d3: "approve_requisition_from manager_env r2 db2 = Inr db3" "pd_reqs db3 = [r3]" "pd_orders db3 = []"
    "pd_budgets db3 = [chairs_budget]" "pd_invoices db3 = []"
    using d2(2-5) c(6) by (simp add: approve_requisition_from_def move_requisition_def guard_transition_def check_requester_def r2_def r3_def e)
  have r3: "rq_id r3 = 60" "rq_status r3 = ReqApproved" "rq_po r3 = None" "rq_total r3 = 300"
    using c by (simp_all add: r3_def r2_def)
  have "get_requisition db3 (rq_id r3) = Inr r3" by (simp add: get_requisition_def d3(2))
  then obtain p db4 where d4: "convert_to_po manager_env db3 (rq_id r3) = Inr (p, True, db4)" "po_total p = 300"
    by (rule converted_requisition [OF _ r3(2,3), of _ _ manager_env]) (simp add: r3)
  have s1: "proc_step db1 db2" by (rule submit_req [OF d2(1)])
  have s2: "proc_step db2 db3" by (rule approve_req [OF d3(1)]) (simp add: stale_def d2(2))
  have "procure.reached db3" by (rule procure.reached_move [OF procure.reached_move [OF c(10) s1] s2])
  from conversion_keeps_every_budget [OF this drafted_money [OF d3(2-5) r3(4)] _ _ _ d4(1)] d3
  have "compute_budget_spend db4 chairs_budget = compute_budget_spend db3 chairs_budget" by simp
  with d4 have "convert_to_po manager_env db3 (rq_id r3) = Inr (p, True, db4) \<and> po_total p = 300
     \<and> compute_budget_spend db4 chairs_budget = compute_budget_spend db3 chairs_budget" by simp
  then show ?thesis by (intro exI)
qed

end
