(* ===== verification/Po_Matching.thy ===== *)
theory Po_Matching
  imports Procurement
begin

text \<open>
  Matching an invoice with its purchase order (services/matching_rules.py, services/po_matching.py):
  the amount against the order, the receipts against what was ordered, the inspection's verdict.

  An issue is the fixed text its message starts with, a failed inspection's with the inspector's
  notes; the \<open>details\<close> dictionary repeats fields of the result and is left out, as are the rendering for
  the JSONB column and the display figure of a partial receipt. Decimals go through the 28-digit
  context where the code divides and multiplies.
\<close>

section \<open>The effective rule\<close>

definition DEFAULT_REQUIRE_INSPECTION :: bool where
  "DEFAULT_REQUIRE_INSPECTION = False"

definition DEFAULT_TOLERANCE_PCT :: rat where
  "DEFAULT_TOLERANCE_PCT = 5"

record EffectiveMatchRule =
  em_require_inspection :: bool
  em_tolerance_pct :: rat
  em_source :: string

definition rule_for :: "json \<Rightarrow> string option \<Rightarrow> jdict" where
  "rule_for rules key =
     (case (rules, key) of
        (JObj d, Some k) \<Rightarrow> (case jget d k of JObj r \<Rightarrow> r | _ \<Rightarrow> [])
      | _ \<Rightarrow> [])"

definition coerce_inspection :: "jdict \<Rightarrow> bool option" where
  "coerce_inspection rule = map_option truthy (map_of rule ''require_inspection'')"

definition coerce_tolerance :: "jdict \<Rightarrow> rat option" where
  "coerce_tolerance rule =
     (let parsed = (case map_of rule ''tolerance_pct'' of
                      Some (JInt i) \<Rightarrow> Some (Fin (of_int i))
                    | Some (JFloat r) \<Rightarrow> parse_decimal r
                    | Some (JStr s) \<Rightarrow> parse_decimal (py_strip s)
                    | _ \<Rightarrow> None)
      in case parsed of Some (Fin x) \<Rightarrow> Some x | _ \<Rightarrow> None)"

definition resolve_match_rule :: "jdict option \<Rightarrow> uuid option \<Rightarrow> string option \<Rightarrow> EffectiveMatchRule" where
  "resolve_match_rule org_settings vendor gl =
     (let matching = (case jget (get_or org_settings []) ''matching'' of JObj d \<Rightarrow> d | _ \<Rightarrow> []);
          vendor_rule = rule_for (jget matching ''vendor_rules'') (map_option uuid_str vendor);
          commodity_rule = rule_for (jget matching ''commodity_rules'') gl;
          (require, source) =
            (case coerce_inspection vendor_rule of
               Some v \<Rightarrow> (v, ''vendor'')
             | None \<Rightarrow>
                (case coerce_inspection commodity_rule of
                   Some v \<Rightarrow> (v, ''commodity'')
                 | None \<Rightarrow>
                    (case coerce_inspection matching of
                       Some v \<Rightarrow> (v, ''org'')
                     | None \<Rightarrow> (DEFAULT_REQUIRE_INSPECTION, ''default''))))
      in \<lparr>em_require_inspection = require,
          em_tolerance_pct = get_or (first_some [coerce_tolerance vendor_rule, coerce_tolerance commodity_rule,
                                                 coerce_tolerance matching]) DEFAULT_TOLERANCE_PCT,
          em_source = source\<rparr>)"

section \<open>The match\<close>

definition CANCELLED_GR_STATUSES :: "string list" where
  "CANCELLED_GR_STATUSES = [''cancelled'', ''canceled'', ''void'', ''voided'', ''reversed'']"

record MatchResult =
  mr_type :: string
  mr_status :: string
  mr_po :: "uuid option"
  mr_po_number :: "string option"
  mr_po_total :: "rat option"
  mr_gr :: "uuid option"
  mr_variance :: rat
  mr_variance_pct :: rat
  mr_within_tolerance :: bool
  mr_inspection :: "uuid option"
  mr_inspection_result :: "string option"
  mr_accepted :: "rat option"
  mr_inspection_required :: bool
  mr_notes :: "string option"
  mr_over_receipt :: bool
  mr_ordered :: "rat option"
  mr_received :: "rat option"
  mr_issues :: "string list"

definition no_match :: MatchResult where
  "no_match = \<lparr>mr_type = ''none'', mr_status = ''no_po'', mr_po = None, mr_po_number = None, mr_po_total = None,
     mr_gr = None, mr_variance = 0, mr_variance_pct = 0, mr_within_tolerance = False, mr_inspection = None,
     mr_inspection_result = None, mr_accepted = None, mr_inspection_required = False, mr_notes = None,
     mr_over_receipt = False, mr_ordered = None, mr_received = None, mr_issues = []\<rparr>"

definition add_issue :: "string \<Rightarrow> MatchResult \<Rightarrow> MatchResult" where
  "add_issue txt m = m\<lparr>mr_issues := mr_issues m @ [txt]\<rparr>"

text \<open>\<open>ORDER BY created_at DESC\<close>: newest first.\<close>

definition newest_first :: "('r \<Rightarrow> time) \<Rightarrow> 'r list \<Rightarrow> 'r list" where
  "newest_first f rows = sort_key (\<lambda>r. - f r) rows"

definition first_row :: "'r list \<Rightarrow> 'r option" where
  "first_row rows = (case rows of [] \<Rightarrow> None | r # _ \<Rightarrow> Some r)"

definition find_po :: "proc_db \<Rightarrow> ap_invoice \<Rightarrow> string \<Rightarrow> purchase_order option" where
  "find_po db iv num =
     first_row (newest_first po_created
       (filter (\<lambda>p. po_num p = num \<and> apply_entity_scope (inv_entity iv) False (po_entity p)
                  \<and> (vendor_id iv = None \<or> po_vendor p = vendor_id iv)) (pd_orders db)))"

definition live_receipts :: "proc_db \<Rightarrow> ap_invoice \<Rightarrow> purchase_order \<Rightarrow> goods_receipt list" where
  "live_receipts db iv po =
     newest_first gr_created
       (filter (\<lambda>g. gr_po g = Some (po_id po) \<and> py_lower (gr_status g) \<notin> set CANCELLED_GR_STATUSES
                  \<and> apply_entity_scope (inv_entity iv) False (gr_entity g)) (pd_receipts db))"

definition variance_percent :: "rat \<Rightarrow> rat \<Rightarrow> rat" where
  "variance_percent inv_amount due =
     (if 0 < due then ctx_mult (ctx_div (inv_amount - due) due) 100
      else if 0 < inv_amount then 100 else 0)"

definition two_way :: "ap_invoice \<Rightarrow> purchase_order \<Rightarrow> rat \<Rightarrow> MatchResult" where
  "two_way iv po tolerance =
     (let pct = variance_percent (amount iv) (po_total po);
          inside = \<bar>pct\<bar> \<le> tolerance;
          m = no_match\<lparr>mr_type := ''2-way'', mr_po := Some (po_id po), mr_po_number := Some (po_num po),
                mr_po_total := Some (po_total po), mr_variance := amount iv - po_total po, mr_variance_pct := pct,
                mr_within_tolerance := inside, mr_status := (if inside then ''matched'' else ''mismatch'')\<rparr>
      in if inside then m else add_issue ''Amount mismatch'' m)"

definition quantity :: "rat option list \<Rightarrow> rat" where
  "quantity qs = sum_list (map (\<lambda>q. get_or q 0) qs)"

definition receipt_leg :: "purchase_order \<Rightarrow> goods_receipt list \<Rightarrow> MatchResult \<Rightarrow> MatchResult" where
  "receipt_leg po grs m =
     (case grs of
        [] \<Rightarrow> m
      | gr # _ \<Rightarrow>
          let m1 = m\<lparr>mr_type := ''3-way'', mr_gr := Some (gr_id gr)\<rparr>;
              ordered = quantity (map pl_quantity (po_lines po));
              received = quantity (concat (map gr_received grs));
              m2 = m1\<lparr>mr_ordered := Some ordered, mr_received := Some received\<rparr>
          in if po_lines po = [] \<or> list_all (\<lambda>g. gr_received g = []) grs then m1
             else if 0 < ordered \<and> received < ordered
               then add_issue ''Partial receipt''
                      (if mr_status m2 = ''matched'' then m2\<lparr>mr_status := ''partial''\<rparr> else m2)
             else if 0 < ordered \<and> ordered < received
               then add_issue ''Over-receipt'' (m2\<lparr>mr_over_receipt := True\<rparr>)
             else m2)"

definition latest_inspection :: "proc_db \<Rightarrow> (inspection \<Rightarrow> bool) \<Rightarrow> inspection option" where
  "latest_inspection db c = first_row (newest_first qi_created (filter c (pd_inspections db)))"

definition chosen_inspection :: "proc_db \<Rightarrow> purchase_order \<Rightarrow> goods_receipt list \<Rightarrow> inspection option" where
  "chosen_inspection db po grs =
     first_some
       [(case grs of [] \<Rightarrow> None | gr # _ \<Rightarrow> latest_inspection db (\<lambda>q. qi_gr q = Some (gr_id gr))),
        latest_inspection db (\<lambda>q. qi_po q = Some (po_id po) \<and> qi_gr q = None)]"

definition inspection_leg :: "inspection option \<Rightarrow> bool \<Rightarrow> MatchResult \<Rightarrow> MatchResult" where
  "inspection_leg inspection required m =
     (case inspection of
        None \<Rightarrow>
          (if required then add_issue ''Quality inspection required but missing'' (m\<lparr>mr_inspection_required := True\<rparr>)
           else m)
      | Some q \<Rightarrow>
          let m1 = m\<lparr>mr_type := ''4-way'', mr_inspection := Some (qi_id q), mr_inspection_result := Some (qi_result q),
                     mr_accepted := qi_accepted q, mr_notes := qi_notes q\<rparr>
          in if qi_result q = ''fail''
               then add_issue (''Failed quality inspection'' @
                      (if qi_notes q \<in> {None, Some []} then [] else '': '' @ the (qi_notes q)))
                      (m1\<lparr>mr_status := ''mismatch''\<rparr>)
             else if qi_result q = ''partial''
               then add_issue ''Partial acceptance''
                      (if mr_status m1 = ''matched'' then m1\<lparr>mr_status := ''partial''\<rparr> else m1)
             else m1)"

definition match_invoice_to_po :: "proc_db \<Rightarrow> ap_invoice \<Rightarrow> rat \<Rightarrow> bool \<Rightarrow> MatchResult" where
  "match_invoice_to_po db iv tolerance required =
     (if po_number iv \<in> {None, Some []} then no_match
      else case find_po db iv (the (po_number iv)) of
             None \<Rightarrow> add_issue (''PO '' @ the (po_number iv) @ '' not found'') no_match
           | Some po \<Rightarrow>
               let grs = live_receipts db iv po
               in inspection_leg (chosen_inspection db po grs) required
                    (receipt_leg po grs (two_way iv po tolerance)))"

section \<open>The amount gate decides in exact cents\<close>

lemma ctx_round_ge_pos: "0 < d \<Longrightarrow> d \<le> y \<Longrightarrow> has_scale s d \<Longrightarrow> y * 10 ^ s < 10 ^ 28 \<Longrightarrow> d \<le> ctx_round y"
  by (rule ctx_round_ge) simp_all

lemma ctx_round_abs: "\<bar>ctx_round y\<bar> = ctx_round \<bar>y\<bar>"
  using ctx_round_nonneg [of y] ctx_round_nonneg [of "- y"] by (cases "0 \<le> y") (simp_all add: ctx_round_minus abs_if)

text \<open>Rounding a quotient and then its hundredfold to 28 digits never moves it across a tolerance of
  four decimals: the quotient of two amounts in cents stays further from it than the rounding reaches.\<close>

lemma percent_within:
  assumes "0 \<le> x" "x \<le> t / 100" "has_scale 4 t" "0 \<le> t" "t \<le> 10 ^ 6"
  shows "ctx_round (ctx_round x * 100) \<le> t"
proof -
  obtain n where "t = of_int n / 10 ^ 4" using assms(3) by (auto simp: has_scale_iff)
  then have "t / 100 = of_int n / 10 ^ 6" by simp
  then have "has_scale 6 (t / 100)" unfolding has_scale_iff by blast
  then have "\<bar>ctx_round x\<bar> \<le> \<bar>t / 100\<bar>"
    by (rule ctx_round_abs_le [rotated]) (use assms in auto)
  then have "\<bar>ctx_round x * 100\<bar> \<le> \<bar>t\<bar>" using assms(4) by (simp add: abs_mult)
  then have "\<bar>ctx_round (ctx_round x * 100)\<bar> \<le> \<bar>t\<bar>"
    by (rule ctx_round_abs_le [OF _ assms(3)]) (use assms(4,5) in auto)
  then show ?thesis using assms(4) by simp
qed

lemma percent_beyond:
  assumes "t / 100 + 1 / 10 ^ 21 \<le> x" "has_scale 4 t" "0 \<le> t" "t \<le> 10 ^ 6" "x < 10 ^ 16"
  shows "t < ctx_round (ctx_round x * 100)"
proof (cases "x \<le> 10 ^ 6")
  case True
  let ?c = "t / 100 + 1 / 10 ^ 21"
  obtain n where n: "t = of_int n / 10 ^ 4" using assms(2) by (auto simp: has_scale_iff)
  then have "?c = of_int (n * 10 ^ 15 + 1) / 10 ^ 21" by simp
  then have s: "has_scale 21 ?c" unfolding has_scale_iff by blast
  then have s2: "has_scale 19 (?c * 100)"
  proof -
    have "?c * 100 = of_int (n * 10 ^ 15 + 1) / 10 ^ 19" by (simp add: n)
    then show ?thesis unfolding has_scale_iff by blast
  qed
  have x: "0 < ?c" "0 < x" using assms(1,3) by (simp_all add: add_nonneg_pos less_le_trans)
  have "x * 10 ^ 21 \<le> 10 ^ 6 * 10 ^ 21" using True by (intro mult_right_mono) auto
  then have "?c \<le> ctx_round x" by (intro ctx_round_ge_pos [OF x(1) assms(1) s]) simp
  then have low: "?c * 100 \<le> ctx_round x * 100" by simp
  have "ctx_round x \<le> 10 ^ 6"
    by (rule ctx_round_le [OF x(2) True]) (use has_scale_of_int [of 0 "10 ^ 6"] in auto)
  then have "ctx_round x * 100 * 10 ^ 19 \<le> 10 ^ 6 * 100 * 10 ^ 19" by (intro mult_right_mono) auto
  then have "?c * 100 \<le> ctx_round (ctx_round x * 100)"
    using x(1) by (intro ctx_round_ge_pos [OF _ low s2]) simp_all
  then show ?thesis by simp
next
  case False
  have r: "10 ^ 6 \<le> ctx_round x"
    by (rule ctx_round_ge_pos [of _ _ 0]) (use False assms(5) has_scale_of_int [of 0 "10 ^ 6"] in auto)
  have "ctx_round x \<le> 10 ^ 16"
    by (rule ctx_round_le [of _ _ 0]) (use False assms(5) has_scale_of_int [of 0 "10 ^ 16"] in auto)
  then have "10 ^ 8 \<le> ctx_round (ctx_round x * 100)"
    using r by (intro ctx_round_ge_pos [of _ _ 0]) (use has_scale_of_int [of 0 "10 ^ 8"] in auto)
  then show ?thesis using assms(4) by simp
qed


lemma quotient_gap:
  fixes v p t :: rat
  assumes "has_scale 2 v" "has_scale 2 p" "0 < p" "p < 10 ^ 13" "has_scale 4 t" "t * p < \<bar>v\<bar> * 100"
  shows "t / 100 + 1 / 10 ^ 21 \<le> \<bar>v\<bar> / p"
proof -
  obtain a b k where n: "v = of_int a / 10 ^ 2" "p = of_int b / 10 ^ 2" "t = of_int k / 10 ^ 4"
    using assms(1,2,5) unfolding has_scale_iff by blast
  have b: "0 < b" "b < 10 ^ 15"
  proof -
    show "0 < b" using assms(3) by (simp add: n(2))
    have "(of_int b :: rat) < of_int (10 ^ 15)" using assms(4) by (simp add: n(2) field_simps)
    then show "b < 10 ^ 15" by (simp only: of_int_less_iff)
  qed
  have "(of_int (k * b) :: rat) < of_int (\<bar>a\<bar> * 10 ^ 6)" using assms(6) by (simp add: n field_simps)
  then have "k * b + 1 \<le> \<bar>a\<bar> * 10 ^ 6" by (simp only: of_int_less_iff)
  then have "(of_int (k * b + 1) :: rat) \<le> of_int (\<bar>a\<bar> * 10 ^ 6)" by (simp only: of_int_le_iff)
  then have "of_int k * of_int b + 1 \<le> (of_int \<bar>a\<bar> :: rat) * 10 ^ 6" by simp
  then have "(of_int k * of_int b + 1) / (10 ^ 6 * of_int b) \<le> (of_int \<bar>a\<bar> :: rat) * 10 ^ 6 / (10 ^ 6 * of_int b)"
    using b(1) by (intro divide_right_mono) auto
  moreover have "(of_int k * of_int b + 1) / (10 ^ 6 * of_int b) = t / 100 + 1 / (10 ^ 6 * of_int b)"
    using b(1) by (simp add: n(3) field_simps)
  moreover have "(of_int \<bar>a\<bar> :: rat) * 10 ^ 6 / (10 ^ 6 * of_int b) = \<bar>v\<bar> / p" by (simp add: n(1,2))
  moreover have "1 / 10 ^ 21 \<le> 1 / (10 ^ 6 * (of_int b :: rat))"
  proof -
    have "(of_int b :: rat) \<le> of_int (10 ^ 15)" using b(2) by (simp only: of_int_le_iff)
    then have "10 ^ 6 * (of_int b :: rat) \<le> 10 ^ 6 * 10 ^ 15" by simp
    then show ?thesis using b(1) by (intro divide_left_mono) auto
  qed
  ultimately show ?thesis by linarith
qed

lemma percent_gate:
  assumes "has_scale 2 v" "has_scale 2 p" "0 < p" "p < 10 ^ 13" "\<bar>v\<bar> < 10 ^ 14" "has_scale 4 t" "0 \<le> t" "t \<le> 10 ^ 6"
  shows "\<bar>ctx_mult (ctx_div v p) 100\<bar> \<le> t \<longleftrightarrow> \<bar>v\<bar> * 100 \<le> t * p"
proof -
  have e: "\<bar>ctx_mult (ctx_div v p) 100\<bar> = ctx_round (ctx_round (\<bar>v\<bar> / p) * 100)"
    using assms(3) by (simp add: ctx_mult_def ctx_div_def ctx_round_abs abs_mult abs_divide)
  obtain b where b: "p = of_int b / 10 ^ 2" using assms(2) by (auto simp: has_scale_iff)
  then have "1 \<le> b" using assms(3) by simp
  then have "1 \<le> p * 100" by (simp add: b)
  then have "\<bar>v\<bar> \<le> \<bar>v\<bar> * (p * 100)" using mult_left_mono [of 1 "p * 100" "\<bar>v\<bar>"] by simp
  then have "\<bar>v\<bar> / p \<le> \<bar>v\<bar> * 100" using assms(3) by (simp add: field_simps)
  then have big: "\<bar>v\<bar> / p < 10 ^ 16" using assms(5) by simp
  show ?thesis
  proof
    assume "\<bar>v\<bar> * 100 \<le> t * p"
    then have "\<bar>v\<bar> / p \<le> t / 100" using assms(3) by (simp add: field_simps)
    then show "\<bar>ctx_mult (ctx_div v p) 100\<bar> \<le> t"
      unfolding e using assms(3,6-8) by (intro percent_within) simp_all
  next
    assume le: "\<bar>ctx_mult (ctx_div v p) 100\<bar> \<le> t"
    show "\<bar>v\<bar> * 100 \<le> t * p"
    proof (rule ccontr)
      assume "\<not> \<bar>v\<bar> * 100 \<le> t * p"
      then have "t / 100 + 1 / 10 ^ 21 \<le> \<bar>v\<bar> / p" using quotient_gap assms by simp
      from percent_beyond [OF this assms(6-8) big] show False using le e by simp
    qed
  qed
qed


section \<open>What a match means\<close>

lemma legs_frame [simp]:
  "mr_within_tolerance (add_issue x m) = mr_within_tolerance m" "mr_status (add_issue x m) = mr_status m"
  "mr_within_tolerance (receipt_leg po grs m) = mr_within_tolerance m"
  "mr_within_tolerance (inspection_leg q req m) = mr_within_tolerance m"
  "mr_po (add_issue x m) = mr_po m" "mr_po (receipt_leg po grs m) = mr_po m" "mr_po (inspection_leg q req m) = mr_po m"
  by (simp_all add: add_issue_def receipt_leg_def inspection_leg_def Let_def split: list.split option.split)

lemma two_way_sel [simp]:
  "mr_within_tolerance (two_way iv po t) \<longleftrightarrow> \<bar>variance_percent (amount iv) (po_total po)\<bar> \<le> t"
  "mr_status (two_way iv po t) = (if \<bar>variance_percent (amount iv) (po_total po)\<bar> \<le> t then ''matched'' else ''mismatch'')"
  "mr_po (two_way iv po t) = Some (po_id po)"
  by (simp_all add: two_way_def Let_def add_issue_def)

lemma receipt_leg_matched:
  assumes "mr_status (receipt_leg po grs m) = ''matched''"
  shows "mr_status m = ''matched''"
    "po_lines po \<noteq> [] \<Longrightarrow> \<exists>g \<in> set grs. gr_received g \<noteq> [] \<Longrightarrow> 0 < quantity (map pl_quantity (po_lines po)) \<Longrightarrow>
       quantity (map pl_quantity (po_lines po)) \<le> quantity (concat (map gr_received grs))"
  using assms by (auto simp: receipt_leg_def Let_def list_all_iff split: list.splits if_splits)

lemma inspection_leg_matched:
  assumes "mr_status (inspection_leg q req m) = ''matched''"
  shows "mr_status m = ''matched''" "\<forall>x. q = Some x \<longrightarrow> qi_result x \<notin> {''fail'', ''partial''}"
  using assms by (auto simp: inspection_leg_def Let_def split: option.splits if_splits)

lemma find_po_Some:
  assumes "find_po db iv num = Some po"
  shows "po \<in> set (pd_orders db)" "po_num po = num" "inv_entity iv = None \<or> po_entity po = inv_entity iv"
    "vendor_id iv = None \<or> po_vendor po = vendor_id iv"
proof -
  have "po \<in> set (newest_first po_created
       (filter (\<lambda>p. po_num p = num \<and> apply_entity_scope (inv_entity iv) False (po_entity p)
                  \<and> (vendor_id iv = None \<or> po_vendor p = vendor_id iv)) (pd_orders db)))"
    using assms by (auto simp: find_po_def first_row_def split: list.splits)
  then show "po \<in> set (pd_orders db)" "po_num po = num" "inv_entity iv = None \<or> po_entity po = inv_entity iv"
    "vendor_id iv = None \<or> po_vendor po = vendor_id iv"
    by (auto simp: newest_first_def apply_entity_scope_def)
qed

lemma live_receipts_set:
  "g \<in> set (live_receipts db iv po) \<longleftrightarrow>
     g \<in> set (pd_receipts db) \<and> gr_po g = Some (po_id po) \<and> py_lower (gr_status g) \<notin> set CANCELLED_GR_STATUSES
     \<and> (inv_entity iv = None \<or> gr_entity g = inv_entity iv)"
  by (auto simp: live_receipts_def newest_first_def apply_entity_scope_def)

text \<open>
  C35: For amounts in cents and a tolerance of at most four decimals the tolerance gate, which divides and
  multiplies in 28-digit decimals, decides exactly as the comparison of the variance with that percentage of
  the order; against an order of nothing only a tolerance of a hundred admits an amount.
\<close>

theorem tolerance_gate_is_exact:
  assumes "po_number iv = Some num" "num \<noteq> []" "find_po db iv num = Some po"
    "has_scale 2 (amount iv)" "has_scale 2 (po_total po)" "\<bar>amount iv\<bar> < 10 ^ 13" "\<bar>po_total po\<bar> < 10 ^ 13"
    "has_scale 4 t" "0 \<le> t" "t \<le> 10 ^ 6"
  shows "mr_within_tolerance (match_invoice_to_po db iv t req) \<longleftrightarrow>
     (if 0 < po_total po then \<bar>amount iv - po_total po\<bar> * 100 \<le> t * po_total po
      else amount iv \<le> 0 \<or> 100 \<le> t)"
proof -
  have m: "mr_within_tolerance (match_invoice_to_po db iv t req) \<longleftrightarrow> \<bar>variance_percent (amount iv) (po_total po)\<bar> \<le> t"
    using assms(1-3) by (simp add: match_invoice_to_po_def Let_def)
  show ?thesis
  proof (cases "0 < po_total po")
    case True
    have "\<bar>amount iv - po_total po\<bar> < 10 ^ 14" using assms(6,7) abs_triangle_ineq4 [of "amount iv" "po_total po"] by simp
    then show ?thesis
      unfolding m using percent_gate [of "amount iv - po_total po" "po_total po" t] True assms(4-10)
      by (simp add: variance_percent_def has_scale_diff)
  next
    case False
    then show ?thesis unfolding m using assms(9) by (auto simp: variance_percent_def)
  qed
qed

text \<open>The one row of a list created after all the others.\<close>

definition newest :: "('r \<Rightarrow> time) \<Rightarrow> 'r list \<Rightarrow> 'r \<Rightarrow> bool" where
  "newest f rows r \<longleftrightarrow> r \<in> set rows \<and> (\<forall>r' \<in> set rows. r' = r \<or> f r' < f r)"

lemma set_newest_first [simp]: "set (newest_first f rows) = set rows"
  by (simp add: newest_first_def)

lemma newest_first_head:
  assumes "newest f rows r"
  obtains rest where "newest_first f rows = r # rest"
proof (cases "newest_first f rows")
  case Nil
  then have "set rows = {}" using set_newest_first [of f rows] by simp
  with assms show ?thesis by (simp add: newest_def)
next
  case (Cons x xs)
  have "sorted (map (\<lambda>r. - f r) (newest_first f rows))" unfolding newest_first_def by (rule sorted_sort_key)
  moreover have "r \<in> set (newest_first f rows)" using assms by (simp add: newest_def)
  ultimately have "r = x \<or> - f x \<le> - f r" using Cons by auto
  moreover have "x \<in> set rows" using Cons set_newest_first [of f rows] by auto
  ultimately have "x = r" using assms by (auto simp: newest_def)
  with Cons that show ?thesis by blast
qed

lemma sum_insort: "sum_list (map h (insort_key f x xs)) = h x + sum_list (map h xs)" for h :: "'r \<Rightarrow> rat"
  by (induction xs) simp_all

lemma sum_newest_first: "sum_list (map h (newest_first f xs)) = sum_list (map h xs)" for h :: "'r \<Rightarrow> rat"
  unfolding newest_first_def sort_key_def by (induction xs) (simp_all add: sum_insort)

lemma quantity_concat: "quantity (concat (map g xs)) = sum_list (map (\<lambda>x. quantity (g x)) xs)"
  by (induction xs) (simp_all add: quantity_def)

lemma chosen_of_newest_receipt:
  assumes "newest gr_created grs g" "newest qi_created (filter (\<lambda>q. qi_gr q = Some (gr_id g)) (pd_inspections db)) q"
  shows "chosen_inspection db po (newest_first gr_created grs) = Some q"
proof -
  obtain gs where gs: "newest_first gr_created grs = g # gs" by (rule newest_first_head [OF assms(1)])
  obtain qs where "newest_first qi_created (filter (\<lambda>q. qi_gr q = Some (gr_id g)) (pd_inspections db)) = q # qs"
    by (rule newest_first_head [OF assms(2)])
  then show ?thesis by (simp add: chosen_inspection_def gs latest_inspection_def first_row_def)
qed

lemma chosen_of_order:
  assumes "grs = [] \<or> (\<exists>g. newest gr_created grs g \<and> (\<forall>q \<in> set (pd_inspections db). qi_gr q \<noteq> Some (gr_id g)))"
    "newest qi_created (filter (\<lambda>q. qi_po q = Some (po_id po) \<and> qi_gr q = None) (pd_inspections db)) q"
  shows "chosen_inspection db po (newest_first gr_created grs) = Some q"
proof -
  obtain qs where q: "newest_first qi_created
      (filter (\<lambda>q. qi_po q = Some (po_id po) \<and> qi_gr q = None) (pd_inspections db)) = q # qs"
    by (rule newest_first_head [OF assms(2)])
  from assms(1) show ?thesis
  proof (elim disjE exE conjE)
    fix g assume g: "newest gr_created grs g" and none: "\<forall>q \<in> set (pd_inspections db). qi_gr q \<noteq> Some (gr_id g)"
    obtain gs where "newest_first gr_created grs = g # gs" by (rule newest_first_head [OF g])
    moreover have "filter (\<lambda>q. qi_gr q = Some (gr_id g)) (pd_inspections db) = []"
      using none by (simp add: filter_empty_conv)
    ultimately show ?thesis using q
      by (simp add: chosen_inspection_def latest_inspection_def first_row_def newest_first_def)
  qed (use q in \<open>simp add: chosen_inspection_def latest_inspection_def first_row_def newest_first_def\<close>)
qed

text \<open>
  C19: An invoice reads matched only against an order of its own number, entity and vendor whose amount is
  within the tolerance. Where any line of the order was received at all, on receipts of that order and
  entity whose status is not one of the cancelled spellings, those receipts together cover everything
  ordered. One inspection counts, the newest of the newest such receipt or, where there is no receipt or
  that receipt has none, the newest made of the order as a whole: it neither failed nor accepted only a part.
\<close>

theorem matched_means_ordered_received_and_accepted:
  assumes "mr_status (match_invoice_to_po db iv t req) = ''matched''"
  shows "\<exists>po. po \<in> set (pd_orders db) \<and> Some (po_num po) = po_number iv
     \<and> (inv_entity iv = None \<or> po_entity po = inv_entity iv) \<and> (vendor_id iv = None \<or> po_vendor po = vendor_id iv)
     \<and> \<bar>variance_percent (amount iv) (po_total po)\<bar> \<le> t
     \<and> (let live = filter (\<lambda>g. gr_po g = Some (po_id po)
              \<and> py_lower (gr_status g) \<notin> {''cancelled'', ''canceled'', ''void'', ''voided'', ''reversed''}
              \<and> (inv_entity iv = None \<or> gr_entity g = inv_entity iv)) (pd_receipts db);
            ordered = sum_list (map (\<lambda>l. get_or (pl_quantity l) 0) (po_lines po))
        in (po_lines po \<noteq> [] \<and> (\<exists>g \<in> set live. gr_received g \<noteq> []) \<and> 0 < ordered \<longrightarrow>
              ordered \<le> (\<Sum>g\<leftarrow>live. \<Sum>q\<leftarrow>gr_received g. get_or q 0))
           \<and> (\<forall>g q. newest gr_created live g
                \<and> newest qi_created (filter (\<lambda>q. qi_gr q = Some (gr_id g)) (pd_inspections db)) q
                \<longrightarrow> qi_result q \<notin> {''fail'', ''partial''})
           \<and> (\<forall>q. (live = [] \<or> (\<exists>g. newest gr_created live g
                                   \<and> (\<forall>q \<in> set (pd_inspections db). qi_gr q \<noteq> Some (gr_id g))))
                \<and> newest qi_created
                    (filter (\<lambda>q. qi_po q = Some (po_id po) \<and> qi_gr q = None) (pd_inspections db)) q
                \<longrightarrow> qi_result q \<notin> {''fail'', ''partial''}))"
proof -
  have none: "mr_status no_match \<noteq> ''matched''" by (simp add: no_match_def)
  have num: "po_number iv \<notin> {None, Some []}"
  proof
    assume "po_number iv \<in> {None, Some []}"
    then have "match_invoice_to_po db iv t req = no_match" by (simp only: match_invoice_to_po_def if_True)
    then show False using assms none by simp
  qed
  then obtain num where num: "po_number iv = Some num" "num \<noteq> []" by auto
  have "find_po db iv num \<noteq> None"
  proof
    assume "find_po db iv num = None"
    then have "match_invoice_to_po db iv t req = add_issue (''PO '' @ num @ '' not found'') no_match"
      using num by (simp add: match_invoice_to_po_def)
    then show False using assms none by simp
  qed
  then obtain po where po: "find_po db iv num = Some po" by blast
  have s: "mr_status (inspection_leg (chosen_inspection db po (live_receipts db iv po)) req
      (receipt_leg po (live_receipts db iv po) (two_way iv po t))) = ''matched''"
    using assms num po by (simp add: match_invoice_to_po_def Let_def)
  note i = inspection_leg_matched [OF s]
  note r = receipt_leg_matched [OF i(1)]
  have pct: "\<bar>variance_percent (amount iv) (po_total po)\<bar> \<le> t" using r(1) by (simp split: if_splits)
  define live where "live = filter (\<lambda>g. gr_po g = Some (po_id po)
              \<and> py_lower (gr_status g) \<notin> {''cancelled'', ''canceled'', ''void'', ''voided'', ''reversed''}
              \<and> (inv_entity iv = None \<or> gr_entity g = inv_entity iv)) (pd_receipts db)"
  have l: "live_receipts db iv po = newest_first gr_created live"
    by (simp add: live_receipts_def live_def apply_entity_scope_def CANCELLED_GR_STATUSES_def)
  define ordered where "ordered = sum_list (map (\<lambda>l. get_or (pl_quantity l) 0) (po_lines po))"
  have o: "quantity (map pl_quantity (po_lines po)) = ordered" by (simp add: quantity_def ordered_def comp_def)
  have "quantity (concat (map gr_received (live_receipts db iv po))) = (\<Sum>g\<leftarrow>live. \<Sum>q\<leftarrow>gr_received g. get_or q 0)"
    by (simp add: quantity_concat l sum_newest_first) (simp add: quantity_def)
  then have received: "po_lines po \<noteq> [] \<and> (\<exists>g \<in> set live. gr_received g \<noteq> []) \<and> 0 < ordered \<longrightarrow>
      ordered \<le> (\<Sum>g\<leftarrow>live. \<Sum>q\<leftarrow>gr_received g. get_or q 0)"
    using r(2) unfolding o l by simp
  have accepted: "qi_result q \<notin> {''fail'', ''partial''}"
    if "chosen_inspection db po (newest_first gr_created live) = Some q" for q
    using i(2) that unfolding l by blast
  have newest_ok: "\<forall>g q. newest gr_created live g
      \<and> newest qi_created (filter (\<lambda>q. qi_gr q = Some (gr_id g)) (pd_inspections db)) q
      \<longrightarrow> qi_result q \<notin> {''fail'', ''partial''}"
  proof (intro allI impI)
    fix g q
    assume n: "newest gr_created live g
      \<and> newest qi_created (filter (\<lambda>q. qi_gr q = Some (gr_id g)) (pd_inspections db)) q"
    show "qi_result q \<notin> {''fail'', ''partial''}"
      by (rule accepted [OF chosen_of_newest_receipt [OF conjunct1 [OF n] conjunct2 [OF n]]])
  qed
  have order_ok: "\<forall>q. (live = [] \<or> (\<exists>g. newest gr_created live g
                                   \<and> (\<forall>q \<in> set (pd_inspections db). qi_gr q \<noteq> Some (gr_id g))))
      \<and> newest qi_created (filter (\<lambda>q. qi_po q = Some (po_id po) \<and> qi_gr q = None) (pd_inspections db)) q
      \<longrightarrow> qi_result q \<notin> {''fail'', ''partial''}"
  proof (intro allI impI)
    fix q
    assume n: "(live = [] \<or> (\<exists>g. newest gr_created live g
                                   \<and> (\<forall>q \<in> set (pd_inspections db). qi_gr q \<noteq> Some (gr_id g))))
      \<and> newest qi_created (filter (\<lambda>q. qi_po q = Some (po_id po) \<and> qi_gr q = None) (pd_inspections db)) q"
    show "qi_result q \<notin> {''fail'', ''partial''}"
      by (rule accepted [OF chosen_of_order [OF conjunct1 [OF n] conjunct2 [OF n]]])
  qed
  have po_num: "Some (po_num po) = po_number iv" using find_po_Some(2) [OF po] num by simp
  show ?thesis
    by (rule exI [of _ po], unfold Let_def live_def [symmetric] ordered_def [symmetric], intro conjI find_po_Some(1,3,4) [OF po] po_num pct received newest_ok order_ok)
qed

text \<open>
  Inspections of any receipt but the newest play no part in the match: one that failed on an earlier
  shipment leaves the match of the whole order as it is.
\<close>

theorem only_the_newest_receipt_is_inspected:
  "chosen_inspection db po (gr # grs) =
     chosen_inspection (db\<lparr>pd_inspections := filter (\<lambda>q. qi_gr q \<in> {None, Some (gr_id gr)}) (pd_inspections db)\<rparr>) po (gr # grs)"
proof -
  let ?db = "db\<lparr>pd_inspections := filter (\<lambda>q. qi_gr q \<in> {None, Some (gr_id gr)}) (pd_inspections db)\<rparr>"
  have l: "latest_inspection ?db c = latest_inspection db c" if "\<And>q. c q \<Longrightarrow> qi_gr q \<in> {None, Some (gr_id gr)}" for c
  proof -
    have "(\<lambda>q. qi_gr q \<in> {None, Some (gr_id gr)} \<and> c q) = c" using that by blast
    then have "filter c (pd_inspections ?db) = filter c (pd_inspections db)"
      by (simp add: conj_commute cong: filter_cong) (simp add: conj_commute)
    then show ?thesis unfolding latest_inspection_def by (rule arg_cong)
  qed
  have "latest_inspection ?db (\<lambda>q. qi_gr q = Some (gr_id gr)) = latest_inspection db (\<lambda>q. qi_gr q = Some (gr_id gr))"
    "latest_inspection ?db (\<lambda>q. qi_po q = Some (po_id po) \<and> qi_gr q = None)
       = latest_inspection db (\<lambda>q. qi_po q = Some (po_id po) \<and> qi_gr q = None)"
    by (rule l, simp)+
  then show ?thesis unfolding chosen_inspection_def by (simp only: list.case)
qed

section \<open>An order of ten chairs, all received and accepted\<close>

definition chairs_invoice :: ap_invoice where
  "chairs_invoice = invoice.extend (sample_invoice\<lparr>po_number := Some ''PO-1'', amount := 105\<rparr>) (ap_invoice.fields None None)"

lemma chairs_invoice_sel [simp]:
  "po_number chairs_invoice = Some ''PO-1''" "amount chairs_invoice = 105" "inv_entity chairs_invoice = None"
  "vendor_id chairs_invoice = Some 12"
  by (simp_all add: chairs_invoice_def invoice.defs ap_invoice.defs sample_invoice_def)

definition chairs_order :: purchase_order where
  "chairs_order = \<lparr>po_id = 80, po_num = ''PO-1'', po_vendor = Some 12, po_total = 100, po_status = ''open'',
     po_expected = None, po_org = 1, po_entity = None, po_created = 0,
     po_lines = [\<lparr>pl_description = None, pl_quantity = Some 10, pl_price = Some 10, pl_total = Some 100\<rparr>]\<rparr>"

definition chairs_receipt :: goods_receipt where
  "chairs_receipt = \<lparr>gr_id = 81, gr_po = Some 80, gr_status = ''received'', gr_entity = None, gr_created = 1,
     gr_received = [Some 10]\<rparr>"

definition chairs_inspection :: inspection where
  "chairs_inspection = \<lparr>qi_id = 82, qi_po = None, qi_gr = Some 81, qi_result = ''pass'', qi_accepted = Some 10,
     qi_notes = None, qi_created = 2\<rparr>"

definition delivered_db :: proc_db where
  "delivered_db = empty_proc_db\<lparr>pd_orders := [chairs_order], pd_receipts := [chairs_receipt],
     pd_inspections := [chairs_inspection]\<rparr>"

lemma delivered_rows [simp]:
  "pd_orders delivered_db = [chairs_order]" "pd_receipts delivered_db = [chairs_receipt]"
  "pd_inspections delivered_db = [chairs_inspection]"
  by (simp_all add: delivered_db_def)

lemma chairs_found: "find_po delivered_db chairs_invoice ''PO-1'' = Some chairs_order"
  by (simp add: find_po_def newest_first_def first_row_def apply_entity_scope_def) (simp add: chairs_order_def)

theorem tolerance_gate_witness:
  "mr_within_tolerance (match_invoice_to_po delivered_db chairs_invoice 5 False)
   \<and> \<not> mr_within_tolerance (match_invoice_to_po delivered_db chairs_invoice (49999 / 10000) False)"
proof -
  have t: "po_total chairs_order = 100" by (simp add: chairs_order_def)
  have s: "has_scale 2 (105 :: rat)" "has_scale 2 (100 :: rat)" "has_scale 4 (5 :: rat)" "has_scale 4 (49999 / 10000 :: rat)"
    using has_scale_of_int [of 2 105] has_scale_of_int [of 2 100] has_scale_of_int [of 4 5] has_scaleI [of 4 49999] by simp_all
  show ?thesis
    using tolerance_gate_is_exact [of chairs_invoice "''PO-1''" delivered_db chairs_order 5 False]
      tolerance_gate_is_exact [of chairs_invoice "''PO-1''" delivered_db chairs_order "49999 / 10000" False]
      chairs_found t s by simp
qed

lemma chairs_match: "mr_status (match_invoice_to_po delivered_db chairs_invoice 5 False) = ''matched''"
proof -
  have "live_receipts delivered_db chairs_invoice chairs_order = [chairs_receipt]"
    by (simp add: live_receipts_def newest_first_def apply_entity_scope_def)
      (simp add: chairs_receipt_def chairs_order_def CANCELLED_GR_STATUSES_def py_lower_def lower_char_def)
  moreover have "chosen_inspection delivered_db chairs_order [chairs_receipt] = Some chairs_inspection"
    by (simp add: chosen_inspection_def latest_inspection_def newest_first_def first_row_def) (simp add: chairs_inspection_def chairs_receipt_def)
  moreover have "mr_status (two_way chairs_invoice chairs_order 5) = ''matched''"
    using percent_gate [of 5 100 5] has_scale_of_int [of 2 5] has_scale_of_int [of 2 100] has_scale_of_int [of 4 5]
    by (simp add: variance_percent_def chairs_order_def)
  ultimately show ?thesis using chairs_found
    by (simp add: match_invoice_to_po_def Let_def inspection_leg_def receipt_leg_def)
      (simp add: chairs_inspection_def chairs_order_def chairs_receipt_def quantity_def)
qed

theorem matched_witness:
  "mr_status (match_invoice_to_po delivered_db chairs_invoice 5 False) = ''matched''
   \<and> 10 \<le> (\<Sum>g\<leftarrow>pd_receipts delivered_db. \<Sum>q\<leftarrow>gr_received g. get_or q 0)
   \<and> list_all (\<lambda>q. qi_result q \<notin> {''fail'', ''partial''}) (pd_inspections delivered_db)"
proof -
  from matched_means_ordered_received_and_accepted [OF chairs_match]
  obtain po where po: "po \<in> set (pd_orders delivered_db)" and m:
     "(let live = filter (\<lambda>g. gr_po g = Some (po_id po)
              \<and> py_lower (gr_status g) \<notin> {''cancelled'', ''canceled'', ''void'', ''voided'', ''reversed''}
              \<and> (inv_entity chairs_invoice = None \<or> gr_entity g = inv_entity chairs_invoice)) (pd_receipts delivered_db);
            ordered = sum_list (map (\<lambda>l. get_or (pl_quantity l) 0) (po_lines po))
        in (po_lines po \<noteq> [] \<and> (\<exists>g \<in> set live. gr_received g \<noteq> []) \<and> 0 < ordered \<longrightarrow>
              ordered \<le> (\<Sum>g\<leftarrow>live. \<Sum>q\<leftarrow>gr_received g. get_or q 0))
           \<and> (\<forall>g q. newest gr_created live g
                \<and> newest qi_created (filter (\<lambda>q. qi_gr q = Some (gr_id g)) (pd_inspections delivered_db)) q
                \<longrightarrow> qi_result q \<notin> {''fail'', ''partial''}))"
    unfolding Let_def by (elim exE conjE) blast
  have l: "filter (\<lambda>g. gr_po g = Some (po_id chairs_order)
              \<and> py_lower (gr_status g) \<notin> {''cancelled'', ''canceled'', ''void'', ''voided'', ''reversed''}
              \<and> (inv_entity chairs_invoice = None \<or> gr_entity g = inv_entity chairs_invoice)) (pd_receipts delivered_db)
      = [chairs_receipt]"
    by simp (simp add: chairs_receipt_def chairs_order_def py_lower_def lower_char_def)
  have q: "filter (\<lambda>q. qi_gr q = Some (gr_id chairs_receipt)) (pd_inspections delivered_db) = [chairs_inspection]"
    by simp (simp add: chairs_inspection_def chairs_receipt_def)
  have p: "po_lines chairs_order \<noteq> []" "gr_received chairs_receipt \<noteq> []"
    "sum_list (map (\<lambda>l. get_or (pl_quantity l) 0) (po_lines chairs_order)) = 10"
    by (simp_all add: chairs_order_def chairs_receipt_def)
  have "po = chairs_order" using po by simp
  note m' = m [unfolded this Let_def l p(3)]
  have "newest gr_created [chairs_receipt] chairs_receipt"
    "newest qi_created (filter (\<lambda>q. qi_gr q = Some (gr_id chairs_receipt)) (pd_inspections delivered_db)) chairs_inspection"
    unfolding q by (simp_all add: newest_def)
  with conjunct2 [OF m'] have "qi_result chairs_inspection \<notin> {''fail'', ''partial''}" by blast
  moreover have "10 \<le> (\<Sum>g\<leftarrow>[chairs_receipt]. \<Sum>q\<leftarrow>gr_received g. get_or q 0)"
    using conjunct1 [OF m'] p(1,2) by simp
  ultimately show ?thesis using chairs_match by simp
qed

end
