(* ===== verification/Recurring_Schedule.thy ===== *)
theory Recurring_Schedule
  imports Calendar Py_Text
begin

text \<open>
  The calendar of a recurring invoice (services/recurring_invoices.py, the pure date functions): month
  arithmetic on dates, the next and the current occurrence of a schedule, the key of a period.

  An occurrence of a schedule is one day of a month, whole periods after the month it starts in. The
  code finds occurrences by walking forward; the lemmas give the walk's result as the number of
  periods, and that the walk ends.
\<close>

section \<open>Dates\<close>

definition mk_date :: "int \<Rightarrow> int \<Rightarrow> int \<Rightarrow> date py" where
  "mk_date y m d = (let t = \<lparr>year = y, month = m, day = d\<rparr> in if valid_date t then Inr t else Inl ValueError)"

definition later_date :: "date \<Rightarrow> date \<Rightarrow> date" where
  "later_date a b = (if ordinal a < ordinal b then b else a)"

definition add_months_to_date :: "date \<Rightarrow> int \<Rightarrow> date py" where
  "add_months_to_date d months =
     (let n = year d * 12 + (month d - 1) + months;
          y = n div 12;
          m = n mod 12 + 1
      in py_bind (if m = 12 then Inr 31
                  else py_bind (mk_date y (m + 1) 1) (\<lambda>b. py_bind (mk_date y m 1) (\<lambda>a. Inr (ordinal b - ordinal a))))
           (\<lambda>last_day. mk_date y m (min (day d) last_day)))"

section \<open>The schedule\<close>

definition months_per_period :: "string \<Rightarrow> int" where
  "months_per_period cadence = (if cadence = ''quarterly'' then 3 else if cadence = ''annual'' then 12 else 1)"

definition period_key_for :: "string \<Rightarrow> date \<Rightarrow> string" where
  "period_key_for cadence d =
     (let y = zero_padded 4 (nat (year d))
      in if cadence = ''annual'' then y
         else if cadence = ''quarterly'' then y @ ''-Q'' @ nat_str (nat ((month d - 1) div 3 + 1))
         else y @ ''-'' @ zero_padded 2 (nat (month d)))"

text \<open>The pair of statements every walk repeats: one period on, then the day of the period.\<close>

definition next_period :: "string \<Rightarrow> int \<Rightarrow> date \<Rightarrow> date py" where
  "next_period cadence dop d =
     py_bind (add_months_to_date d (months_per_period cadence)) (\<lambda>e. mk_date (year e) (month e) dop)"

lemma months_pos: "1 \<le> months_per_period cadence" "months_per_period cadence \<le> 12"
  by (simp_all add: months_per_period_def)

lemma mk_date_Inr: "mk_date y m d = Inr t \<longleftrightarrow> t = \<lparr>year = y, month = m, day = d\<rparr> \<and> valid_date t"
  by (auto simp: mk_date_def Let_def split: if_splits)

lemma add_months_to_date_index:
  assumes "add_months_to_date d n = Inr e"
  shows "month_index e = month_index d + n \<and> valid_date e"
proof -
  define k where "k = year d * 12 + (month d - 1) + n"
  have "(\<exists>x. e = \<lparr>year = k div 12, month = k mod 12 + 1, day = x\<rparr>) \<and> valid_date e"
    using assms by (auto simp: add_months_to_date_def Let_def mk_date_Inr k_def split: if_splits)
  then show ?thesis using div_mult_mod_eq [of k 12] by (auto simp: month_index_def k_def)
qed

lemma next_period_index:
  "next_period cadence dop d = Inr e \<Longrightarrow>
     month_index e = month_index d + months_per_period cadence \<and> day e = dop \<and> valid_date e"
  using add_months_to_date_index by (fastforce simp: next_period_def mk_date_Inr month_index_def)

lemma month_index_bound: "valid_date d \<Longrightarrow> month_index d < 120000 \<and> 12 \<le> month_index d"
  by (simp add: valid_date_def month_index_def)

function walk_to :: "string \<Rightarrow> int \<Rightarrow> date \<Rightarrow> date \<Rightarrow> date py" where
  "walk_to cadence dop limit candidate =
     (if ordinal candidate < ordinal limit
      then (case next_period cadence dop candidate of
              Inl e \<Rightarrow> Inl e
            | Inr c \<Rightarrow> walk_to cadence dop limit c)
      else Inr candidate)"
  by pat_completeness auto

termination
proof (relation "measure (\<lambda>(cadence, dop, limit, c). nat (120000 - month_index c))")
  fix cadence dop limit candidate c
  assume "next_period cadence dop candidate = Inr c"
  from next_period_index [OF this] months_pos(1) [of cadence] month_index_bound [of c]
  show "((cadence, dop, limit, c), (cadence, dop, limit, candidate)) \<in> measure (\<lambda>(cadence, dop, limit, c). nat (120000 - month_index c))"
    by auto
qed simp

declare walk_to.simps [simp del]

definition compute_next_run_on :: "string \<Rightarrow> int \<Rightarrow> date \<Rightarrow> date \<Rightarrow> date option \<Rightarrow> date option py" where
  "compute_next_run_on cadence dop after start end_date =
     (let limit = later_date after start
      in py_bind (mk_date (year start) (month start) 1) (\<lambda>first.
         py_bind (add_months_to_date first 0) (\<lambda>c0.
         py_bind (mk_date (year c0) (month c0) dop) (\<lambda>c1.
         py_bind (walk_to cadence dop limit c1) (\<lambda>c.
           Inr (case end_date of
                  Some e \<Rightarrow> if ordinal e < ordinal c then None else Some c
                | None \<Rightarrow> Some c))))))"

text \<open>\<open>while True\<close>: the last occurrence not past the ceiling.\<close>

function walk_up_to :: "string \<Rightarrow> int \<Rightarrow> date \<Rightarrow> date \<Rightarrow> date py" where
  "walk_up_to cadence dop ceiling nxt =
     (case next_period cadence dop nxt of
        Inl e \<Rightarrow> Inl e
      | Inr following \<Rightarrow>
          if ordinal ceiling < ordinal following then Inr nxt
          else walk_up_to cadence dop ceiling following)"
  by pat_completeness auto

termination
proof (relation "measure (\<lambda>(cadence, dop, ceiling, c). nat (120000 - month_index c))")
  fix cadence dop ceiling nxt c
  assume "next_period cadence dop nxt = Inr c"
  from next_period_index [OF this] months_pos(1) [of cadence] month_index_bound [of c]
  show "((cadence, dop, ceiling, c), (cadence, dop, ceiling, nxt)) \<in> measure (\<lambda>(cadence, dop, ceiling, c). nat (120000 - month_index c))"
    by auto
qed simp

declare walk_up_to.simps [simp del]

definition current_due_run_on :: "string \<Rightarrow> int \<Rightarrow> date \<Rightarrow> date \<Rightarrow> date py" where
  "current_due_run_on cadence dop today start =
     py_bind (mk_date (year start) (month start) dop) (\<lambda>c0.
     py_bind (if ordinal c0 < ordinal start then next_period cadence dop c0 else Inr c0) (\<lambda>first.
       let ceiling = later_date today start
       in if ordinal ceiling < ordinal first then Inr first
          else walk_up_to cadence dop ceiling first))"

fun project_from :: "string \<Rightarrow> int \<Rightarrow> date option \<Rightarrow> nat \<Rightarrow> date \<Rightarrow> (string \<times> date) list py" where
  "project_from cadence dop end_date 0 run_on = Inr []"
| "project_from cadence dop end_date (Suc n) run_on =
     (if (case end_date of None \<Rightarrow> False | Some e \<Rightarrow> ordinal e < ordinal run_on) then Inr []
      else py_bind (next_period cadence dop run_on) (\<lambda>d.
           py_bind (project_from cadence dop end_date n d) (\<lambda>rest.
             Inr ((period_key_for cadence run_on, run_on) # rest))))"

definition project_schedule :: "string \<Rightarrow> int \<Rightarrow> date option \<Rightarrow> date option \<Rightarrow> nat \<Rightarrow> (string \<times> date) list py" where
  "project_schedule cadence dop end_date start count =
     (if count = 0 then Inr []
      else case start of
        None \<Rightarrow> Inr []
      | Some s \<Rightarrow>
          py_bind (mk_date (year s) (month s) dop) (\<lambda>d.
          py_bind (if ordinal d < ordinal s then next_period cadence dop d else Inr d)
            (project_from cadence dop end_date count)))"

lemma walk_to_step: "next_period cadence dop d = Inr e \<Longrightarrow> ordinal d < ordinal l \<Longrightarrow> walk_to cadence dop l d = walk_to cadence dop l e"
  by (subst walk_to.simps) simp

lemma walk_to_stop: "ordinal l \<le> ordinal d \<Longrightarrow> walk_to cadence dop l d = Inr d"
  by (subst walk_to.simps) simp

text \<open>What evaluates the date functions on given dates.\<close>

lemmas date_eval =
  mk_date_def valid_date_def days_in_month_def is_leap_def ordinal_def days_before_year_def days_before_month_def
  add_months_to_date_def next_period_def months_per_period_def later_date_def Let_def

section \<open>Occurrences\<close>

definition slot :: "int \<Rightarrow> int \<Rightarrow> date" where
  "slot dop n = \<lparr>year = n div 12, month = n mod 12 + 1, day = dop\<rparr>"

definition occurrence :: "string \<Rightarrow> int \<Rightarrow> date \<Rightarrow> nat \<Rightarrow> date" where
  "occurrence cadence dop start k = slot dop (month_index start + int k * months_per_period cadence)"

definition day_of_month_ok :: "int \<Rightarrow> bool" where
  "day_of_month_ok dop \<longleftrightarrow> 1 \<le> dop \<and> dop \<le> 28"

lemma slot_day [simp]: "day (slot dop n) = dop"
  by (simp add: slot_def)

lemma slot_index [simp]: "month_index (slot dop n) = n"
  using div_mult_mod_eq [of n 12] by (simp add: month_index_def slot_def)

lemma slot_valid:
  assumes "12 \<le> n" "n < 120000" "day_of_month_ok dop"
  shows "valid_date (slot dop n)"
proof -
  have "12 div 12 \<le> n div 12" using assms(1) by (rule zdiv_mono1) simp
  moreover have "n div 12 \<le> 119999 div 12" using assms(2) by (intro zdiv_mono1) auto
  moreover have "0 \<le> n mod 12" "n mod 12 < 12" by simp_all
  ultimately show ?thesis
    using assms(3) days_in_month_bounds(1) [of "n div 12" "n mod 12 + 1"]
    by (simp add: valid_date_def slot_def day_of_month_ok_def)
qed

lemma slot_less:
  assumes "12 \<le> m" "m < 120000" "12 \<le> n" "n < 120000" "day_of_month_ok dop"
  shows "ordinal (slot dop m) < ordinal (slot dop n) \<longleftrightarrow> m < n"
  using ordinal_month_less [of "slot dop m" "slot dop n"] ordinal_month_less [of "slot dop n" "slot dop m"]
    slot_valid [of m dop] slot_valid [of n dop] assms
  by (cases m n rule: linorder_cases) auto

lemma date_eq_slot: "valid_date d \<Longrightarrow> \<lparr>year = year d, month = month d, day = x\<rparr> = slot x (month_index d)"
  by (simp add: slot_def month_index_split)

lemma mk_slot: "mk_date (n div 12) (n mod 12 + 1) x = (if valid_date (slot x n) then Inr (slot x n) else Inl ValueError)"
  by (simp add: mk_date_def slot_def)

lemma mk_first_of_month: "12 \<le> n \<Longrightarrow> n < 120000 \<Longrightarrow> mk_date (n div 12) (n mod 12 + 1) 1 = Inr (slot 1 n)"
  by (simp add: mk_slot slot_valid day_of_month_ok_def)

lemma last_day_of_month:
  assumes "12 \<le> n" "n < 120000" "n mod 12 \<noteq> 11"
  shows "py_bind (mk_date (n div 12) (n mod 12 + 1 + 1) 1)
           (\<lambda>b. py_bind (mk_date (n div 12) (n mod 12 + 1) 1) (\<lambda>a. Inr (ordinal b - ordinal a))) = Inr (month_length n)"
proof -
  have n1: "(n + 1) div 12 = n div 12" "(n + 1) mod 12 = n mod 12 + 1" using assms(3) by (simp_all add: next_month)
  have "n \<noteq> 119999" using assms(3) by auto
  then have b: "12 \<le> n + 1" "n + 1 < 120000" using assms(1,2) by simp_all
  have "mk_date (n div 12) (n mod 12 + 1 + 1) 1 = Inr (slot 1 (n + 1))"
    using mk_first_of_month [OF b] by (simp add: n1)
  moreover have "ordinal (slot 1 (n + 1)) - ordinal (slot 1 n) = month_length n"
    using b assms(1,2) by (simp add: ordinal_month slot_valid day_of_month_ok_def month_start_step)
  ultimately show ?thesis using assms(1,2) by (simp add: mk_first_of_month)
qed

lemma add_months_to_date_slot:
  assumes "valid_date d" "12 \<le> month_index d + n" "month_index d + n < 120000"
  shows "add_months_to_date d n = Inr (slot (min (day d) (month_length (month_index d + n))) (month_index d + n))"
proof -
  define k where "k = month_index d + n"
  have k: "year d * 12 + (month d - 1) + n = k" by (simp add: k_def month_index_def)
  let ?x = "min (day d) (month_length k)"
  have "1 \<le> day d" using assms(1) by (simp add: valid_date_def)
  moreover have "28 \<le> month_length k" by (simp add: month_length_def days_in_month_bounds)
  ultimately have x: "1 \<le> ?x" "?x \<le> month_length k" by simp_all
  have s: "valid_date (slot 1 k)" using assms(2,3) by (intro slot_valid) (simp_all add: k_def day_of_month_ok_def)
  then have "valid_date (slot ?x k)" using x by (simp add: valid_date_def slot_def month_length_def)
  then have r: "mk_date (k div 12) (k mod 12 + 1) ?x = Inr (slot ?x k)" by (simp add: mk_slot)
  show ?thesis
  proof (cases "k mod 12 = 11")
    case True
    then have "month_length k = 31" by (simp add: month_length_def days_in_month_def)
    then show ?thesis using r True by (simp add: add_months_to_date_def Let_def k) (simp add: k_def)
  next
    case False
    then have "py_bind (mk_date (k div 12) (k mod 12 + 1 + 1) 1)
           (\<lambda>b. py_bind (mk_date (k div 12) (k mod 12 + 1) 1) (\<lambda>a. Inr (ordinal b - ordinal a))) = Inr (month_length k)"
      using assms(2,3) by (intro last_day_of_month) (simp_all add: k_def)
    with False r have "add_months_to_date d n = Inr (slot ?x k)"
      by (simp only: add_months_to_date_def Let_def k) (simp add: py_bind_def)
    then show ?thesis by (simp only: k_def)
  qed
qed

lemma next_period_slot:
  assumes "valid_date d" "month_index d + months_per_period cadence < 120000" "day_of_month_ok dop"
  shows "next_period cadence dop d = Inr (slot dop (month_index d + months_per_period cadence))"
proof -
  let ?n = "month_index d + months_per_period cadence"
  have b: "12 \<le> ?n" using month_index_bound [OF assms(1)] months_pos(1) [of cadence] by linarith
  have "mk_date (?n div 12) (?n mod 12 + 1) dop = Inr (slot dop ?n)"
    using slot_valid [OF b assms(2,3)] by (simp add: mk_slot)
  then show ?thesis
    using add_months_to_date_slot [OF assms(1) b assms(2)] by (simp add: next_period_def) (simp add: slot_def)
qed

section \<open>The walks find the occurrence they look for\<close>

lemma later_date_simps:
  "ordinal a \<le> ordinal (later_date a b)" "ordinal b \<le> ordinal (later_date a b)"
  "valid_date a \<Longrightarrow> valid_date b \<Longrightarrow> valid_date (later_date a b)"
  "month_index a < n \<Longrightarrow> month_index b < n \<Longrightarrow> month_index (later_date a b) < n"
  by (simp_all add: later_date_def)

lemma index_mono: "valid_date a \<Longrightarrow> valid_date b \<Longrightarrow> ordinal a \<le> ordinal b \<Longrightarrow> month_index a \<le> month_index b"
  using ordinal_month_less [of b a] by (cases "month_index a \<le> month_index b") auto

lemma walk_to_slot:
  assumes "valid_date limit" "month_index limit + 12 < 120000" "day_of_month_ok dop"
    "12 \<le> n" "n \<le> month_index limit + 12"
  shows "\<exists>k. let at = (\<lambda>j. slot dop (n + int j * months_per_period cadence))
             in walk_to cadence dop limit (slot dop n) = Inr (at k) \<and> ordinal limit \<le> ordinal (at k)
                \<and> (\<forall>j < k. ordinal (at j) < ordinal limit) \<and> month_index (at k) \<le> month_index limit + 12"
  using assms(4,5)
proof (induction "nat (month_index limit + 13 - n)" arbitrary: n rule: less_induct)
  case less
  let ?m = "months_per_period cadence" and ?at = "\<lambda>j. slot dop (n + int j * months_per_period cadence)"
  have v: "valid_date (slot dop n)" using less.prems assms(2,3) by (intro slot_valid) auto
  show ?case
  proof (cases "ordinal (slot dop n) < ordinal limit")
    case False
    then have "walk_to cadence dop limit (slot dop n) = Inr (slot dop n)" by (subst walk_to.simps) simp
    then show ?thesis using False less.prems by (intro exI [of _ 0]) (simp add: Let_def)
  next
    case True
    then have le: "n \<le> month_index limit" using index_mono [OF v assms(1)] by simp
    have m: "1 \<le> ?m" "?m \<le> 12" by (rule months_pos)+
    have s: "next_period cadence dop (slot dop n) = Inr (slot dop (n + ?m))"
      using next_period_slot [OF v _ assms(3), of cadence] le m assms(2) by simp
    have "nat (month_index limit + 13 - (n + ?m)) < nat (month_index limit + 13 - n)" using le m by simp
    from less.hyps [OF this] less.prems m le
    obtain k where k: "walk_to cadence dop limit (slot dop (n + ?m)) = Inr (?at (Suc k))"
      "ordinal limit \<le> ordinal (?at (Suc k))" "\<And>j. j < k \<Longrightarrow> ordinal (?at (Suc j)) < ordinal limit"
      "month_index (?at (Suc k)) \<le> month_index limit + 12"
      by (auto simp: Let_def algebra_simps)
    have "walk_to cadence dop limit (slot dop n) = Inr (?at (Suc k))"
      using True s k(1) by (subst walk_to.simps) simp
    moreover have "\<forall>j < Suc k. ordinal (?at j) < ordinal limit"
    proof (intro allI impI)
      fix j assume "j < Suc k"
      then show "ordinal (?at j) < ordinal limit" using True k(3) by (cases j) auto
    qed
    ultimately show ?thesis unfolding Let_def using k(2,4) by (intro exI [of _ "Suc k"] conjI)
  qed
qed

lemma walk_up_to_slot:
  assumes "valid_date limit" "month_index limit + 12 < 120000" "day_of_month_ok dop"
    "12 \<le> n" "ordinal (slot dop n) \<le> ordinal limit" "n \<le> month_index limit"
  shows "\<exists>k. let at = (\<lambda>j. slot dop (n + int j * months_per_period cadence))
             in walk_up_to cadence dop limit (slot dop n) = Inr (at k) \<and> ordinal (at k) \<le> ordinal limit
                \<and> ordinal limit < ordinal (at (Suc k)) \<and> month_index (at k) \<le> month_index limit"
  using assms(4-6)
proof (induction "nat (month_index limit + 13 - n)" arbitrary: n rule: less_induct)
  case less
  let ?m = "months_per_period cadence" and ?at = "\<lambda>j. slot dop (n + int j * months_per_period cadence)"
  have m: "1 \<le> ?m" "?m \<le> 12" by (rule months_pos)+
  have v: "valid_date (slot dop n)" using less.prems assms(2,3) by (intro slot_valid) auto
  have v': "valid_date (slot dop (n + ?m))" using less.prems assms(2,3) m by (intro slot_valid) auto
  have s: "next_period cadence dop (slot dop n) = Inr (slot dop (n + ?m))"
    using next_period_slot [OF v _ assms(3), of cadence] less.prems m assms(2) by simp
  show ?case
  proof (cases "ordinal limit < ordinal (slot dop (n + ?m))")
    case True
    then have "walk_up_to cadence dop limit (slot dop n) = Inr (slot dop n)"
      using s by (subst walk_up_to.simps) simp
    then show ?thesis using True less.prems by (intro exI [of _ 0]) (simp add: Let_def)
  next
    case False
    then have le: "n + ?m \<le> month_index limit" using index_mono [OF v' assms(1)] by simp
    have "nat (month_index limit + 13 - (n + ?m)) < nat (month_index limit + 13 - n)" using less.prems m by simp
    from less.hyps [OF this _ _ le] less.prems m False
    obtain k where k: "walk_up_to cadence dop limit (slot dop (n + ?m)) = Inr (?at (Suc k))"
      "ordinal (?at (Suc k)) \<le> ordinal limit" "ordinal limit < ordinal (?at (Suc (Suc k)))"
      "month_index (?at (Suc k)) \<le> month_index limit"
      by (auto simp: Let_def algebra_simps)
    have "walk_up_to cadence dop limit (slot dop n) = Inr (?at (Suc k))"
      using False s k(1) by (subst walk_up_to.simps) simp
    then show ?thesis unfolding Let_def using k(2-4) by (intro exI [of _ "Suc k"] conjI)
  qed
qed

lemma occurrence_from: "valid_date start \<Longrightarrow> 12 \<le> month_index start + int k * months_per_period cadence"
  using month_index_bound [of start] months_pos(1) [of cadence] by (intro add_increasing2) simp_all

lemma occurrence_valid:
  "valid_date start \<Longrightarrow> day_of_month_ok dop \<Longrightarrow> month_index (occurrence cadence dop start k) < 120000
     \<Longrightarrow> valid_date (occurrence cadence dop start k)"
  using occurrence_from [of start k cadence] by (auto simp: occurrence_def intro!: slot_valid)

lemma occurrence_index: "month_index (occurrence cadence dop start k) = month_index start + int k * months_per_period cadence"
  by (simp add: occurrence_def)

lemma occurrence_less_iff:
  assumes "valid_date start" "day_of_month_ok dop"
    "month_index (occurrence cadence dop start j) < 120000" "month_index (occurrence cadence dop start k) < 120000"
  shows "ordinal (occurrence cadence dop start j) < ordinal (occurrence cadence dop start k) \<longleftrightarrow> j < k"
proof -
  have "0 < months_per_period cadence" using months_pos(1) [of cadence] by simp
  moreover have "12 \<le> month_index start + int i * months_per_period cadence" for i
    by (rule occurrence_from [OF assms(1)])
  ultimately show ?thesis
    using assms(2-4) by (simp add: occurrence_def slot_less)
qed

lemma next_period_occurrence:
  assumes "valid_date start" "day_of_month_ok dop" "month_index (occurrence cadence dop start (Suc k)) < 120000"
  shows "next_period cadence dop (occurrence cadence dop start k) = Inr (occurrence cadence dop start (Suc k))"
proof -
  have "month_index (occurrence cadence dop start k) + months_per_period cadence < 120000"
    using assms(3) by (simp add: occurrence_index algebra_simps)
  moreover from this have "valid_date (occurrence cadence dop start k)"
    using months_pos(1) [of cadence] by (intro occurrence_valid [OF assms(1,2)]) simp
  ultimately have "next_period cadence dop (occurrence cadence dop start k)
      = Inr (slot dop (month_index (occurrence cadence dop start k) + months_per_period cadence))"
    by (intro next_period_slot) (use assms(2) in simp_all)
  then show ?thesis by (simp add: occurrence_def algebra_simps)
qed

lemma compute_next_run_on_finds:
  assumes "valid_date start" "valid_date after" "day_of_month_ok dop"
    "month_index start + 12 < 120000" "month_index after + 12 < 120000"
  obtains k where
    "compute_next_run_on cadence dop after start end_date
       = Inr (case end_date of
                Some e \<Rightarrow> if ordinal e < ordinal (occurrence cadence dop start k) then None else Some (occurrence cadence dop start k)
              | None \<Rightarrow> Some (occurrence cadence dop start k))"
    "ordinal (later_date after start) \<le> ordinal (occurrence cadence dop start k)"
    "\<And>j. j < k \<Longrightarrow> ordinal (occurrence cadence dop start j) < ordinal (later_date after start)"
    "month_index (occurrence cadence dop start k) \<le> month_index (later_date after start) + 12"
proof -
  let ?l = "later_date after start" and ?n = "month_index start"
  have b: "12 \<le> ?n" "?n < 120000" using month_index_bound [OF assms(1)] by simp_all
  have l: "valid_date ?l" "month_index ?l + 12 < 120000"
    using assms later_date_simps(3) later_date_simps(4) [of after 119988 start] by simp_all
  have le: "?n \<le> month_index ?l" by (rule index_mono [OF assms(1) l(1)]) (simp add: later_date_simps)
  obtain k where k: "walk_to cadence dop ?l (slot dop ?n) = Inr (occurrence cadence dop start k)"
    "ordinal ?l \<le> ordinal (occurrence cadence dop start k)"
    "\<And>j. j < k \<Longrightarrow> ordinal (occurrence cadence dop start j) < ordinal ?l"
    "month_index (occurrence cadence dop start k) \<le> month_index ?l + 12"
    using walk_to_slot [OF l assms(3) b(1), of cadence] le by (auto simp: Let_def occurrence_def)
  have one: "day_of_month_ok 1" by (simp add: day_of_month_ok_def)
  have v1: "valid_date (slot 1 ?n)" and vd: "valid_date (slot dop ?n)"
    using slot_valid [OF b one] slot_valid [OF b assms(3)] by simp_all
  have 1: "mk_date (year start) (month start) x = mk_date (?n div 12) (?n mod 12 + 1) x" for x
    by (simp add: month_index_split assms(1))
  have "28 \<le> month_length ?n" by (simp add: month_length_def days_in_month_bounds)
  then have 2: "add_months_to_date (slot 1 ?n) 0 = Inr (slot 1 ?n)"
    using add_months_to_date_slot [OF v1, of 0] b by simp
  have "compute_next_run_on cadence dop after start end_date
      = Inr (case end_date of
                Some e \<Rightarrow> if ordinal e < ordinal (occurrence cadence dop start k) then None else Some (occurrence cadence dop start k)
              | None \<Rightarrow> Some (occurrence cadence dop start k))"
    using v1 vd k(1) 2
    by (simp add: compute_next_run_on_def Let_def 1 mk_slot) (simp add: slot_def mk_date_def)
  from that [OF this k(2-4)] show ?thesis .
qed

lemma current_due_finds:
  assumes "valid_date start" "valid_date today" "day_of_month_ok dop"
    "month_index start + 24 < 120000" "month_index today + 24 < 120000"
  obtains k where
    "current_due_run_on cadence dop today start = Inr (occurrence cadence dop start k)"
    "ordinal start \<le> ordinal (occurrence cadence dop start k)"
    "ordinal (occurrence cadence dop start k) \<le> ordinal (later_date today start)
       \<or> (\<forall>j < k. ordinal (occurrence cadence dop start j) < ordinal start)"
    "ordinal (later_date today start) < ordinal (occurrence cadence dop start (Suc k))"
proof -
  let ?l = "later_date today start" and ?n = "month_index start" and ?m = "months_per_period cadence"
  have b: "12 \<le> ?n" "?n < 120000" using month_index_bound [OF assms(1)] by simp_all
  have m: "1 \<le> ?m" "?m \<le> 12" by (rule months_pos)+
  have l: "valid_date ?l" "month_index ?l + 24 < 120000"
    using assms later_date_simps(3) later_date_simps(4) [of today 119976 start] by simp_all
  have le: "?n \<le> month_index ?l" by (rule index_mono [OF assms(1) l(1)]) (simp add: later_date_simps)
  have vd: "valid_date (slot dop ?n)" using slot_valid [OF b assms(3)] .
  have mk: "mk_date (year start) (month start) dop = Inr (occurrence cadence dop start 0)"
    using vd mk_slot [of ?n dop] by (simp add: month_index_split assms(1) occurrence_def)
  define f where "f = (if ordinal (occurrence cadence dop start 0) < ordinal start then 1 else 0 :: nat)"
  have n1: "next_period cadence dop (occurrence cadence dop start 0) = Inr (occurrence cadence dop start (Suc 0))"
    by (rule next_period_occurrence [OF assms(1,3)]) (use assms(4) m in \<open>simp add: occurrence_index\<close>)
  have first: "(if ordinal (occurrence cadence dop start 0) < ordinal start
      then next_period cadence dop (occurrence cadence dop start 0) else Inr (occurrence cadence dop start 0))
      = Inr (occurrence cadence dop start f)"
    using n1 by (simp add: f_def)
  have small: "month_index (occurrence cadence dop start k) \<le> ?n + 24" if "k \<le> 2" for k
  proof -
    have "int k * ?m \<le> 2 * 12" using that m by (intro mult_mono) auto
    then show ?thesis by (simp add: occurrence_index)
  qed
  have f1: "f \<le> 1" by (simp add: f_def)
  have vf: "valid_date (occurrence cadence dop start f)"
    using small [of f] f1 assms(4) by (intro occurrence_valid [OF assms(1,3)]) simp
  have ge: "ordinal start \<le> ordinal (occurrence cadence dop start f)"
  proof (cases "f = 0")
    case True
    then show ?thesis by (simp add: f_def split: if_splits)
  next
    case False
    then have "f = 1" by (simp add: f_def split: if_splits)
    then have "ordinal start < ordinal (occurrence cadence dop start f)"
      using m vf by (intro ordinal_month_less [OF assms(1)]) (simp_all add: occurrence_index)
    then show ?thesis by simp
  qed
  have least: "\<forall>j < f. ordinal (occurrence cadence dop start j) < ordinal start"
    by (simp add: f_def)
  show ?thesis
  proof (cases "ordinal ?l < ordinal (occurrence cadence dop start f)")
    case True
    then have r: "current_due_run_on cadence dop today start = Inr (occurrence cadence dop start f)"
      using mk first by (simp add: current_due_run_on_def Let_def)
    have i: "month_index (occurrence cadence dop start (Suc f)) < 120000"
      using small [of "Suc f"] f1 assms(4) by simp
    then have "month_index (occurrence cadence dop start f) < 120000" using m by (simp add: occurrence_index algebra_simps)
    then have "ordinal (occurrence cadence dop start f) < ordinal (occurrence cadence dop start (Suc f))"
      using i by (simp add: occurrence_less_iff [OF assms(1,3)])
    then have "ordinal ?l < ordinal (occurrence cadence dop start (Suc f))" using True by simp
    then show ?thesis using that [OF r ge _ ] least by blast
  next
    case False
    then have fl: "ordinal (occurrence cadence dop start f) \<le> ordinal ?l" by simp
    then have fi: "month_index (occurrence cadence dop start f) \<le> month_index ?l" by (rule index_mono [OF vf l(1)])
    have "\<exists>k. let at = (\<lambda>j. slot dop (month_index (occurrence cadence dop start f) + int j * ?m))
             in walk_up_to cadence dop ?l (slot dop (month_index (occurrence cadence dop start f))) = Inr (at k)
                \<and> ordinal (at k) \<le> ordinal ?l \<and> ordinal ?l < ordinal (at (Suc k)) \<and> month_index (at k) \<le> month_index ?l"
      using fl fi l month_index_bound [OF vf]
      by (intro walk_up_to_slot [OF _ _ assms(3)]) (auto simp: occurrence_def)
    moreover have at: "slot dop (month_index (occurrence cadence dop start f) + int j * ?m) = occurrence cadence dop start (f + j)" for j
      by (simp add: occurrence_def algebra_simps)
    have at0: "slot dop (month_index (occurrence cadence dop start f)) = occurrence cadence dop start f"
      using at [of 0] by simp
    ultimately obtain k where k: "walk_up_to cadence dop ?l (occurrence cadence dop start f) = Inr (occurrence cadence dop start (f + k))"
      "ordinal (occurrence cadence dop start (f + k)) \<le> ordinal ?l" "ordinal ?l < ordinal (occurrence cadence dop start (Suc (f + k)))"
      "month_index (occurrence cadence dop start (f + k)) \<le> month_index ?l"
      unfolding at at0 Let_def by auto
    have r: "current_due_run_on cadence dop today start = Inr (occurrence cadence dop start (f + k))"
      using mk first False k(1) by (simp add: current_due_run_on_def Let_def)
    have "month_index (occurrence cadence dop start f) < 120000" "month_index (occurrence cadence dop start (f + k)) < 120000"
      using fi k(4) l(2) by simp_all
    then have "\<not> ordinal (occurrence cadence dop start (f + k)) < ordinal (occurrence cadence dop start f)"
      by (simp add: occurrence_less_iff [OF assms(1,3)])
    then have "ordinal start \<le> ordinal (occurrence cadence dop start (f + k))" using ge by simp
    then show ?thesis using that [OF r _ _ k(3)] k(2) by blast
  qed
qed

section \<open>Period keys\<close>

lemma split_at_char:
  "xs @ c # ys = us @ c # vs \<Longrightarrow> c \<notin> set xs \<Longrightarrow> c \<notin> set us \<Longrightarrow> xs = us \<and> ys = vs"
proof (induction xs arbitrary: us)
  case Nil
  then show ?case by (cases us) auto
next
  case (Cons x xs)
  then show ?case by (cases us) auto
qed

lemma zero_padded_no_dash: "CHR ''-'' \<notin> set (zero_padded w n)"
  using nat_str_digits [of "CHR ''-''" n] by (auto simp: zero_padded_def Let_def is_digit_def)

lemma nat_Suc_eqD: "nat (a + 1) = nat (b + 1) \<Longrightarrow> 0 \<le> a \<Longrightarrow> 0 \<le> b \<Longrightarrow> a = (b :: int)"
  by simp

lemma div_mod_eqI: "(a :: int) div c = b div c \<Longrightarrow> a mod c = b mod c \<Longrightarrow> a = b"
  by (metis div_mult_mod_eq)

text \<open>Within one schedule the key determines the period.\<close>

lemma period_key_inj:
  assumes "period_key_for cadence (slot dop m) = period_key_for cadence (slot dop n)" "12 \<le> m" "12 \<le> n"
    "months_per_period cadence dvd m - n"
  shows "m = n"
proof -
  have pos: "0 \<le> m div 12" "0 \<le> n div 12" using assms(2,3) by simp_all
  have y: "nat (m div 12) = nat (n div 12) \<Longrightarrow> m div 12 = n div 12" using pos by simp
  consider "cadence = ''annual''" | "cadence = ''quarterly''" | "cadence \<noteq> ''annual''" "cadence \<noteq> ''quarterly''" by blast
  then show ?thesis
  proof cases
    case 1
    then have "zero_padded 4 (nat (m div 12)) = zero_padded 4 (nat (n div 12))"
      using assms(1) by (simp add: period_key_for_def slot_def)
    then have "m div 12 = n div 12" by (intro y) (rule zero_padded_inj)
    moreover have "12 dvd m - n" using assms(4) 1 by (simp add: months_per_period_def)
    then have "m mod 12 = n mod 12" by (simp add: mod_eq_dvd_iff)
    ultimately show ?thesis by (rule div_mod_eqI)
  next
    case 2
    have "zero_padded 4 (nat (m div 12)) = zero_padded 4 (nat (n div 12))
        \<and> CHR ''Q'' # nat_str (nat (m mod 12 div 3 + 1)) = CHR ''Q'' # nat_str (nat (n mod 12 div 3 + 1))"
      using assms(1) 2 by (intro split_at_char [of _ "CHR ''-''"]) (simp_all add: period_key_for_def Let_def slot_def zero_padded_no_dash)
    note eq = this
    have "nat_str (nat (m mod 12 div 3 + 1)) = nat_str (nat (n mod 12 div 3 + 1))"
      using conjunct2 [OF eq] by (simp only: list.inject)
    then have "nat (m mod 12 div 3 + 1) = nat (n mod 12 div 3 + 1)" by (rule nat_str_inj)
    then have q: "m mod 12 div 3 = n mod 12 div 3" by (rule nat_Suc_eqD) simp_all
    have "m div 12 = n div 12" by (rule y, rule zero_padded_inj, rule conjunct1 [OF eq])
    moreover have "3 dvd m - n" using assms(4) 2 by (simp add: months_per_period_def)
    then have "m mod 3 = n mod 3" by (simp add: mod_eq_dvd_iff)
    then have "m mod 12 mod 3 = n mod 12 mod 3" by (simp add: mod_mod_cancel)
    with q have "m mod 12 = n mod 12" by (rule div_mod_eqI)
    ultimately show ?thesis by (rule div_mod_eqI)
  next
    case 3
    have "zero_padded 4 (nat (m div 12)) = zero_padded 4 (nat (n div 12))
        \<and> zero_padded 2 (nat (m mod 12 + 1)) = zero_padded 2 (nat (n mod 12 + 1))"
      using assms(1) 3 by (intro split_at_char [of _ "CHR ''-''"]) (simp_all add: period_key_for_def Let_def slot_def zero_padded_no_dash)
    note eq = this
    have "nat (m mod 12 + 1) = nat (n mod 12 + 1)" by (rule zero_padded_inj, rule conjunct2 [OF eq])
    then have "m mod 12 = n mod 12" by (rule nat_Suc_eqD) simp_all
    moreover have "m div 12 = n div 12" by (rule y, rule zero_padded_inj, rule conjunct1 [OF eq])
    ultimately show ?thesis by (rule div_mod_eqI [rotated])
  qed
qed

lemma occurrence_key_inj:
  assumes "period_key_for cadence (occurrence cadence dop start j) = period_key_for cadence (occurrence cadence dop start k)"
    "valid_date start"
  shows "j = k"
proof -
  let ?m = "months_per_period cadence"
  have "month_index start + int j * ?m - (month_index start + int k * ?m) = (int j - int k) * ?m"
    by (simp add: algebra_simps)
  then have "?m dvd month_index start + int j * ?m - (month_index start + int k * ?m)" by simp
  then have "month_index start + int j * ?m = month_index start + int k * ?m"
    using assms(1) by (intro period_key_inj [of cadence dop] occurrence_from [OF assms(2)]) (simp_all only: occurrence_def)
  then show ?thesis using months_pos(1) [of cadence] by simp
qed

section \<open>Properties\<close>

text \<open>
  C34: The walk that places the cursor of a recurring template finds the first occurrence of its schedule
  on or after both the wanted date and the start, and gives none exactly when that occurrence lies past
  the end date.
\<close>

theorem next_run_is_the_first_occurrence:
  assumes "valid_date start" "valid_date after" "day_of_month_ok dop" "year start < 9998" "year after < 9998"
  shows "\<exists>k. compute_next_run_on cadence dop after start end_date
           = Inr (if (case end_date of None \<Rightarrow> False | Some e \<Rightarrow> ordinal e < ordinal (occurrence cadence dop start k))
                  then None else Some (occurrence cadence dop start k))
         \<and> ordinal start \<le> ordinal (occurrence cadence dop start k)
         \<and> ordinal after \<le> ordinal (occurrence cadence dop start k)
         \<and> (\<forall>j < k. ordinal (occurrence cadence dop start j) < ordinal start
                    \<or> ordinal (occurrence cadence dop start j) < ordinal after)"
proof -
  have b: "month_index start + 12 < 120000" "month_index after + 12 < 120000"
    using assms by (simp_all add: month_index_def valid_date_def)
  obtain k where k: "compute_next_run_on cadence dop after start end_date
       = Inr (case end_date of
                Some e \<Rightarrow> if ordinal e < ordinal (occurrence cadence dop start k) then None else Some (occurrence cadence dop start k)
              | None \<Rightarrow> Some (occurrence cadence dop start k))"
    "ordinal (later_date after start) \<le> ordinal (occurrence cadence dop start k)"
    "\<And>j. j < k \<Longrightarrow> ordinal (occurrence cadence dop start j) < ordinal (later_date after start)"
    by (rule compute_next_run_on_finds [OF assms(1-3) b, of cadence end_date]) blast
  show ?thesis
  proof (intro exI conjI allI impI)
    show "compute_next_run_on cadence dop after start end_date
           = Inr (if (case end_date of None \<Rightarrow> False | Some e \<Rightarrow> ordinal e < ordinal (occurrence cadence dop start k))
                  then None else Some (occurrence cadence dop start k))"
      by (simp add: k(1) split: option.split)
    show "ordinal start \<le> ordinal (occurrence cadence dop start k)" "ordinal after \<le> ordinal (occurrence cadence dop start k)"
      using k(2) later_date_simps(1,2) by (meson order_trans)+
    show "ordinal (occurrence cadence dop start j) < ordinal start \<or> ordinal (occurrence cadence dop start j) < ordinal after"
      if "j < k" for j
      using k(3) [OF that] by (simp add: later_date_def split: if_splits)
  qed
qed

text \<open>The 31st of January starts a quarterly schedule on the 5th: the first run is the 5th of April.\<close>

theorem next_run_witness:
  "valid_date \<lparr>year = 2026, month = 1, day = 31\<rparr> \<and> day_of_month_ok 5
   \<and> compute_next_run_on ''quarterly'' 5 \<lparr>year = 2026, month = 1, day = 31\<rparr> \<lparr>year = 2026, month = 1, day = 31\<rparr> None
       = Inr (Some \<lparr>year = 2026, month = 4, day = 5\<rparr>)
   \<and> (\<exists>k. compute_next_run_on ''quarterly'' 5 \<lparr>year = 2026, month = 1, day = 31\<rparr> \<lparr>year = 2026, month = 1, day = 31\<rparr> None
            = Inr (Some (occurrence ''quarterly'' 5 \<lparr>year = 2026, month = 1, day = 31\<rparr> k)))"
proof -
  let ?s = "\<lparr>year = 2026, month = 1, day = 31\<rparr> :: date"
  have v: "valid_date ?s" "day_of_month_ok 5" by (simp_all add: valid_date_def days_in_month_def day_of_month_ok_def)
  have n: "next_period ''quarterly'' 5 \<lparr>year = 2026, month = 1, day = 5\<rparr> = Inr \<lparr>year = 2026, month = 4, day = 5\<rparr>"
    by (simp add: date_eval)
  have w: "walk_to ''quarterly'' 5 ?s \<lparr>year = 2026, month = 1, day = 5\<rparr> = Inr \<lparr>year = 2026, month = 4, day = 5\<rparr>"
    unfolding walk_to_step [OF n, of ?s, simplified date_eval, simplified]
    by (rule walk_to_stop) (simp add: date_eval)
  have c: "compute_next_run_on ''quarterly'' 5 ?s ?s None = Inr (Some \<lparr>year = 2026, month = 4, day = 5\<rparr>)"
    by (simp add: compute_next_run_on_def w date_eval)
  obtain k where "compute_next_run_on ''quarterly'' 5 ?s ?s None
      = Inr (if (case None of None \<Rightarrow> False | Some e \<Rightarrow> ordinal (e :: date) < ordinal (occurrence ''quarterly'' 5 ?s k))
             then None else Some (occurrence ''quarterly'' 5 ?s k))"
    using next_run_is_the_first_occurrence [OF v(1,1,2), of "''quarterly''" None] by auto
  then have "compute_next_run_on ''quarterly'' 5 ?s ?s None = Inr (Some (occurrence ''quarterly'' 5 ?s k))"
    by (simp only: option.case if_False)
  then show ?thesis by (intro conjI exI [of _ k] v c)
qed

end
