(* ===== verification/Recurring.thy ===== *)
theory Recurring
  imports Workflow_Engine Procurement Recurring_Schedule "HOL-Library.Char_ord" "HOL-Library.List_Lexorder"
begin

text \<open>
  Recurring invoices (models/recurring_invoice.py, services/recurring_invoices.py, api/recurring.py): a
  template is a standing instruction, its cursor the next date it is due; the sweep and the manual
  generate-now raise one invoice per period, already coded, into the approval queue.

  The sweep locks a row before it acts on it. The routes read the row without a lock, so each is split at
  that read: \<open>_from\<close> takes the row as it was read and writes the columns it changed.

  The columns of an invoice only this component reads (its template, the key of its period, its date,
  terms and project) are rows of \<open>rd_periods\<close>, one for each invoice a template raised.
\<close>

section \<open>Templates\<close>

record template =
  rt_id :: uuid
  rt_org :: uuid
  rt_entity :: "uuid option"
  rt_name :: string
  rt_vendor :: "uuid option"
  rt_vendor_name :: "string option"
  rt_description :: "string option"
  rt_amount :: "rat option"
  rt_currency :: string
  rt_gl :: "string option"
  rt_cost_center :: "string option"
  rt_department :: "string option"
  rt_project :: "string option"
  rt_po :: "string option"
  rt_terms :: "string option"
  rt_cadence :: string
  rt_dop :: int
  rt_start :: date
  rt_end :: "date option"
  rt_next :: "date option"
  rt_last_key :: "string option"
  rt_last_at :: "time option"
  rt_count :: int
  rt_status :: string
  rt_tolerance :: "rat option"
  rt_notes :: "string option"
  rt_meta :: "jdict option"
  rt_author :: "uuid option"
  rt_editors :: "string list option"

record period_columns =
  pc_invoice :: uuid
  pc_template :: uuid
  pc_key :: string
  pc_date :: date
  pc_terms :: "string option"
  pc_project :: "string option"

record supplier =
  sp_id :: uuid
  sp_name :: string
  sp_entity :: "uuid option"

record rec_db =
  rd_core :: wf_db
  rd_templates :: "template list"
  rd_periods :: "period_columns list"
  rd_vendors :: "supplier list"

text \<open>The clock, the session, and what \<open>uuid4\<close> gives; in a sweep the fresh ids differ per template.\<close>

record rec_env =
  rv_now :: time
  rv_today :: date
  rv_iso :: "time \<Rightarrow> string"
  rv_user :: uuid
  rv_org :: uuid
  rv_scope :: "uuid option"
  rv_audit_key :: uuid
  rv_template :: uuid
  rv_invoice :: "uuid \<Rightarrow> uuid"
  rv_correlation :: "uuid \<Rightarrow> uuid"
  rv_instance :: "uuid \<Rightarrow> uuid"
  rv_definition :: "uuid \<Rightarrow> uuid"
  rv_tail :: "uuid \<Rightarrow> string"
  rv_variant :: "invoice \<Rightarrow> wf_definition \<Rightarrow> steps_config option"

definition write_template :: "uuid \<Rightarrow> (template \<Rightarrow> template) \<Rightarrow> rec_db \<Rightarrow> rec_db" where
  "write_template i f db = db\<lparr>rd_templates := update_where (\<lambda>t. rt_id t = i) f (rd_templates db)\<rparr>"

definition audit_rec :: "uuid \<Rightarrow> uuid \<Rightarrow> uuid option \<Rightarrow> string \<Rightarrow> string \<Rightarrow> uuid \<Rightarrow> jdict \<Rightarrow> rec_db \<Rightarrow> rec_db" where
  "audit_rec corr org actor action entity i details db =
     db\<lparr>rd_core := (rd_core db)\<lparr>audit := audit (rd_core db) @
          [\<lparr>au_correlation = corr, au_org = org, au_actor = actor, au_action = action,
            au_entity_type = entity, au_entity_id = i, au_details = details\<rparr>]\<rparr>\<rparr>"

section \<open>Templates that cannot generate\<close>

definition not_generatable_reason :: "template \<Rightarrow> string option" where
  "not_generatable_reason t =
     (let missing_amount = rt_amount t = None;
          missing_vendor = rt_vendor_name t \<in> {None, Some []}
      in if missing_amount \<and> missing_vendor then Some ''missing_amount_and_vendor''
         else if missing_amount then Some ''missing_amount''
         else if missing_vendor then Some ''missing_vendor''
         else None)"

definition SKIP_META_KEY :: string where "SKIP_META_KEY = ''generation_skip''"
definition MAX_CONSECUTIVE_SKIPS :: int where "MAX_CONSECUTIVE_SKIPS = 3"

definition read_skip_marker :: "template \<Rightarrow> jdict" where
  "read_skip_marker t = (case jget (get_or (rt_meta t) []) SKIP_META_KEY of JObj m \<Rightarrow> m | _ \<Rightarrow> [])"

text \<open>\<open>int(v or 0)\<close>, zero where \<open>int\<close> raises; a text is read when it is plain digits.\<close>

definition json_count :: "json \<Rightarrow> int" where
  "json_count v =
     (case v of
        JInt n \<Rightarrow> n
      | JBool b \<Rightarrow> (if b then 1 else 0)
      | JStr s \<Rightarrow> (if s \<noteq> [] \<and> list_all is_digit s then int (digits_val s) else 0)
      | JFloat r \<Rightarrow> (case parse_decimal r of Some (Fin x) \<Rightarrow> (if x < 0 then - \<lfloor>- x\<rfloor> else \<lfloor>x\<rfloor>) | _ \<Rightarrow> 0)
      | _ \<Rightarrow> 0)"

definition consecutive_skips :: "template \<Rightarrow> int" where
  "consecutive_skips t = json_count (jget (read_skip_marker t) ''consecutive'')"

text \<open>The marker's count, and the template's document with the marker in it.\<close>

definition record_generation_skip :: "(time \<Rightarrow> string) \<Rightarrow> template \<Rightarrow> string \<Rightarrow> string \<Rightarrow> time \<Rightarrow> int \<times> jdict option" where
  "record_generation_skip iso_text t period_key reason stamped =
     (let n = consecutive_skips t + 1
      in (n, Some (AList.update SKIP_META_KEY
               (JObj [(''reason'', JStr reason), (''period_key'', JStr period_key), (''consecutive'', JInt n),
                      (''last_skipped_at'', JStr (iso_text stamped))])
               (get_or (rt_meta t) []))))"

definition clear_generation_skip :: "template \<Rightarrow> jdict option" where
  "clear_generation_skip t =
     (let meta = get_or (rt_meta t) []
      in if SKIP_META_KEY \<notin> fst ` set meta then rt_meta t
         else let remaining = filter (\<lambda>kv. fst kv \<noteq> SKIP_META_KEY) meta
              in if remaining = [] then None else Some remaining)"

definition clear_generation_skip_if_resolved :: "template \<Rightarrow> jdict option" where
  "clear_generation_skip_if_resolved t =
     (if not_generatable_reason t = None then clear_generation_skip t else rt_meta t)"

section \<open>Who shaped a payable\<close>

definition MATERIAL_EDIT_FIELDS :: "string list" where
  "MATERIAL_EDIT_FIELDS =
     [''vendor_id'', ''amount'', ''currency'', ''gl_account'', ''cost_center'', ''department'', ''project'',
      ''po_number'', ''payment_terms'', ''cadence'', ''day_of_period'', ''start_date'', ''end_date'', ''entity_id'']"

definition material_edit_fields :: "string list \<Rightarrow> string list" where
  "material_edit_fields changed = filter (\<lambda>f. f \<in> set MATERIAL_EDIT_FIELDS) changed"

definition record_material_editor :: "template \<Rightarrow> uuid \<Rightarrow> string list option" where
  "record_material_editor t u =
     (let existing = get_or (rt_editors t) []
      in if uuid_str u \<in> set existing then rt_editors t
         else Some (sort (remdups (uuid_str u # existing))))"

definition implicated_actor_ids :: "template \<Rightarrow> uuid option \<Rightarrow> string list option" where
  "implicated_actor_ids t uploader =
     (let ids = get_or (rt_editors t) [] @ (case rt_author t of None \<Rightarrow> [] | Some u \<Rightarrow> [uuid_str u]);
          others = filter (\<lambda>s. uploader = None \<or> s \<noteq> uuid_str (the uploader)) ids
      in if others = [] then None else Some (sort (remdups others)))"

section \<open>Generating one invoice\<close>

definition generated_invoice_number :: "string \<Rightarrow> string \<Rightarrow> string" where
  "generated_invoice_number period_key tail = ''REC-'' @ period_key @ ''-'' @ tail"

definition generated_invoice :: "rec_env \<Rightarrow> template \<Rightarrow> string \<Rightarrow> uuid option \<Rightarrow> invoice" where
  "generated_invoice env t period_key uploader =
     \<lparr>inv_id = rv_invoice env (rt_id t), correlation_id = rv_correlation env (rt_id t),
      invoice_number = generated_invoice_number period_key (rv_tail env (rt_id t)),
      vendor_name = get_or (rt_vendor_name t) [], vendor_id = rt_vendor t, description = rt_description t,
      amount = get_or (rt_amount t) 0, currency = rt_currency t,
      reporting_currency = None, reporting_amount = None, reporting_fx_rate = None,
      reporting_source_currency = None, reporting_fx_locked_at = None, due_date = None,
      status = Ready_for_review, po_number = rt_po t, approval_date = None, approved_by = None,
      rejected_by = None, uploaded_by_id = uploader, segregation_actor_ids = implicated_actor_ids t uploader,
      assigned_to_id = None, assigned_to = None, gl_account = rt_gl t, cost_center = rt_cost_center t,
      department = rt_department t, inv_org = rt_org t, inv_entity = rt_entity t, inv_created_at = rv_now env\<rparr>"

definition period_row :: "rec_db \<Rightarrow> uuid \<Rightarrow> string \<Rightarrow> period_columns option" where
  "period_row db i key = find (\<lambda>p. pc_template p = i \<and> pc_key p = key) (rd_periods db)"

definition period_invoice :: "rec_db \<Rightarrow> uuid \<Rightarrow> string \<Rightarrow> invoice option" where
  "period_invoice db i key =
     Option.bind (period_row db i key) (\<lambda>p. find (\<lambda>iv. inv_id iv = pc_invoice p) (invoices (rd_core db)))"

text \<open>The insert, with the partial unique index on template and period.\<close>

definition insert_period_invoice :: "rec_db \<Rightarrow> template \<Rightarrow> string \<Rightarrow> date \<Rightarrow> invoice \<Rightarrow> rec_db py" where
  "insert_period_invoice db t key run_on iv =
     (if period_row db (rt_id t) key \<noteq> None then Inl IntegrityError
      else Inr (db\<lparr>rd_core := (rd_core db)\<lparr>invoices := invoices (rd_core db) @ [iv]\<rparr>,
                   rd_periods := rd_periods db @
                     [\<lparr>pc_invoice = inv_id iv, pc_template = rt_id t, pc_key = key, pc_date = run_on,
                       pc_terms = rt_terms t, pc_project = rt_project t\<rparr>]\<rparr>))"

definition next_after :: "template \<Rightarrow> date \<Rightarrow> date option py" where
  "next_after t run_on =
     py_bind (add_months_to_date run_on (months_per_period (rt_cadence t))) (\<lambda>anchor.
       compute_next_run_on (rt_cadence t) (rt_dop t) anchor (rt_start t) (rt_end t))"

text \<open>The workflow instance and the two audit rows of a new invoice.\<close>

definition log_generated :: "rec_env \<Rightarrow> template \<Rightarrow> string \<Rightarrow> uuid option \<Rightarrow> invoice \<Rightarrow> rec_db \<Rightarrow> rec_db" where
  "log_generated env t key actor iv db =
     audit_rec (correlation_id iv) (rt_org t) actor ''recurring_template.generated''
       ''recurring_invoice_template'' (rt_id t)
       [(''invoice_id'', JStr (uuid_str (inv_id iv))), (''period_key'', JStr key)]
       (audit_rec (correlation_id iv) (rt_org t) actor ''invoice.created'' ''invoice'' (inv_id iv)
          [(''source'', JStr ''recurring_template''),
           (''recurring_template_id'', JStr (uuid_str (rt_id t))),
           (''period_key'', JStr key), (''status'', JStr (status_value Ready_for_review))]
          (db\<lparr>rd_core := snd (create_workflow_instance (rv_variant env) (rv_definition env (rt_id t))
                              (rv_instance env (rt_id t)) (rv_now env) (rd_core db) iv)\<rparr>))"

text \<open>The skip marker goes; nothing is written when there is none.\<close>

definition without_marker :: "template \<Rightarrow> rec_db \<Rightarrow> rec_db" where
  "without_marker t db =
     (if clear_generation_skip t = rt_meta t then db
      else write_template (rt_id t) (\<lambda>r. r\<lparr>rt_meta := clear_generation_skip t\<rparr>) db)"

definition generate_one :: "rec_env \<Rightarrow> rec_db \<Rightarrow> template \<Rightarrow> date \<Rightarrow> uuid option \<Rightarrow> (invoice option \<times> rec_db) py" where
  "generate_one env db t run_on actor =
     (if not_generatable_reason t \<noteq> None then Inr (None, db)
      else
        let db0 = without_marker t db;
            key = period_key_for (rt_cadence t) run_on;
            uploader = (if actor = None then rt_author t else actor);
            iv = generated_invoice env t key uploader
        in case insert_period_invoice db0 t key run_on iv of
             Inl _ \<Rightarrow> Inr (period_invoice db0 (rt_id t) key, db0)
           | Inr db1 \<Rightarrow>
               py_bind (next_after t run_on) (\<lambda>nxt.
                 Inr (Some iv, write_template (rt_id t)
                        (\<lambda>r. r\<lparr>rt_count := rt_count t + 1, rt_last_key := Some key,
                               rt_last_at := Some (rv_now env), rt_next := nxt\<rparr>)
                        (log_generated env t key actor iv db1))))"

section \<open>The sweep\<close>

definition still_due :: "date \<Rightarrow> template \<Rightarrow> bool" where
  "still_due today t \<longleftrightarrow>
     rt_status t = ''active'' \<and> (case rt_next t of None \<Rightarrow> False | Some d \<Rightarrow> ordinal d \<le> ordinal today)"

definition find_template :: "rec_db \<Rightarrow> uuid \<Rightarrow> template option" where
  "find_template db i = find (\<lambda>t. rt_id t = i) (rd_templates db)"

text \<open>On the row as the session holds it, \<open>run_on\<close> being its cursor when the row was read.\<close>

definition advance_cursor :: "uuid \<Rightarrow> date \<Rightarrow> rec_db \<Rightarrow> rec_db py" where
  "advance_cursor i run_on db =
     (case find_template db i of
        None \<Rightarrow> Inr db
      | Some t \<Rightarrow>
          (case rt_next t of
             None \<Rightarrow> Inr db
           | Some d \<Rightarrow>
               if ordinal run_on < ordinal d then Inr db
               else py_bind (next_after t run_on) (\<lambda>nxt. Inr (write_template i (\<lambda>r. r\<lparr>rt_next := nxt\<rparr>) db))))"

record sweep_outcome =
  so_generated :: nat
  so_skipped :: nat
  so_paused :: nat
  so_failures :: nat

definition no_outcome :: sweep_outcome where
  "no_outcome = \<lparr>so_generated = 0, so_skipped = 0, so_paused = 0, so_failures = 0\<rparr>"

definition handle_non_generatable ::
    "rec_env \<Rightarrow> rec_db \<Rightarrow> template \<Rightarrow> string \<Rightarrow> string \<Rightarrow> sweep_outcome \<Rightarrow> sweep_outcome \<times> rec_db" where
  "handle_non_generatable env db t key reason out =
     (case record_generation_skip (rv_iso env) t key reason (rv_now env) of
        (n, meta) \<Rightarrow>
          let out1 = out\<lparr>so_skipped := so_skipped out + 1\<rparr>;
              db1 = audit_rec (rt_id t) (rt_org t) None ''recurring_template.generation_skipped''
                      ''recurring_invoice_template'' (rt_id t)
                      [(''reason'', JStr reason), (''period_key'', JStr key), (''consecutive'', JInt n)]
                      (write_template (rt_id t) (\<lambda>r. r\<lparr>rt_meta := meta\<rparr>) db)
          in if MAX_CONSECUTIVE_SKIPS \<le> n \<and> rt_status t = ''active''
             then (out1\<lparr>so_paused := so_paused out1 + 1\<rparr>,
                   audit_rec (rt_id t) (rt_org t) None ''recurring_template.paused''
                     ''recurring_invoice_template'' (rt_id t)
                     [(''status'', JStr ''paused''), (''source'', JStr ''sweep''), (''reason'', JStr reason),
                      (''consecutive_skips'', JInt n)]
                     (write_template (rt_id t) (\<lambda>r. r\<lparr>rt_status := ''paused''\<rparr>) db1))
             else (out1, db1))"

text \<open>One template of the sweep under its row lock, to the commit or the rollback.\<close>

definition sweep_row :: "rec_env \<Rightarrow> sweep_outcome \<Rightarrow> rec_db \<Rightarrow> template \<Rightarrow> date \<Rightarrow> sweep_outcome \<times> rec_db py" where
  "sweep_row env out db t run_on =
     (let key = period_key_for (rt_cadence t) run_on
      in case not_generatable_reason t of
           Some reason \<Rightarrow>
             (case handle_non_generatable env db t key reason out of
                (out1, db1) \<Rightarrow> (out1, advance_cursor (rt_id t) run_on db1))
         | None \<Rightarrow>
             let db0 = without_marker t db
             in if period_row db0 (rt_id t) key \<noteq> None then (out, advance_cursor (rt_id t) run_on db0)
                else case generate_one env db0 (t\<lparr>rt_meta := clear_generation_skip t\<rparr>) run_on None of
                       Inl e \<Rightarrow> (out, Inl e)
                     | Inr (iv, db1) \<Rightarrow>
                         (if iv = None then out else out\<lparr>so_generated := so_generated out + 1\<rparr>,
                          advance_cursor (rt_id t) run_on db1))"

definition sweep_template :: "rec_env \<Rightarrow> sweep_outcome \<times> rec_db \<Rightarrow> uuid \<Rightarrow> sweep_outcome \<times> rec_db" where
  "sweep_template env = (\<lambda>(out, db) i.
     case find_template db i of
       None \<Rightarrow> (out, db)
     | Some t \<Rightarrow>
         if \<not> still_due (rv_today env) t then (out, db)
         else case sweep_row env out db t (the (rt_next t)) of
                (out1, Inr db1) \<Rightarrow> (out1, db1)
              | (out1, Inl _) \<Rightarrow> (out1\<lparr>so_failures := so_failures out1 + 1\<rparr>, db))"

text \<open>Oldest due first, then by id, at most the cap.\<close>

definition due_templates :: "rec_env \<Rightarrow> nat \<Rightarrow> rec_db \<Rightarrow> uuid list" where
  "due_templates env cap db =
     take cap (map rt_id (sort_key (\<lambda>t. (ordinal (the (rt_next t)), unat (rt_id t)))
                            (filter (still_due (rv_today env)) (rd_templates db))))"

definition sweep_tenant :: "rec_env \<Rightarrow> nat \<Rightarrow> rec_db \<Rightarrow> sweep_outcome \<times> rec_db" where
  "sweep_tenant env cap db = foldl (sweep_template env) (no_outcome, db) (due_templates env cap db)"

text \<open>One sweep over the tenants; a tenant whose database cannot be reached is \<open>None\<close>.\<close>

record sweep_result =
  sr_scanned :: nat
  sr_generated :: nat
  sr_skipped :: nat
  sr_paused :: nat
  sr_failures :: nat
  sr_template_failures :: nat

definition add_tenant :: "sweep_outcome option \<Rightarrow> sweep_result \<Rightarrow> sweep_result" where
  "add_tenant tenant r =
     (case tenant of
        None \<Rightarrow> r\<lparr>sr_scanned := sr_scanned r + 1, sr_failures := sr_failures r + 1\<rparr>
      | Some x \<Rightarrow> r\<lparr>sr_scanned := sr_scanned r + 1, sr_generated := sr_generated r + so_generated x,
                   sr_skipped := sr_skipped r + so_skipped x, sr_paused := sr_paused r + so_paused x,
                   sr_template_failures := sr_template_failures r + so_failures x\<rparr>)"

definition generate_recurring_invoices_once ::
    "rec_env \<Rightarrow> nat \<Rightarrow> rec_db option list \<Rightarrow> sweep_result \<times> rec_db option list" where
  "generate_recurring_invoices_once env cap tenants =
     (let swept = map (map_option (sweep_tenant env cap)) tenants
      in (fold (add_tenant \<circ> map_option fst) swept
            \<lparr>sr_scanned = 0, sr_generated = 0, sr_skipped = 0, sr_paused = 0, sr_failures = 0, sr_template_failures = 0\<rparr>,
          map (map_option snd) swept))"

section \<open>The routes\<close>

definition resolve_vendor_name :: "rec_db \<Rightarrow> uuid option \<Rightarrow> string option" where
  "resolve_vendor_name db v = Option.bind v (\<lambda>i. map_option sp_name (find (\<lambda>s. sp_id s = i) (rd_vendors db)))"

definition get_scoped :: "rec_env \<Rightarrow> rec_db \<Rightarrow> uuid \<Rightarrow> template py" where
  "get_scoped env db i =
     (case find (\<lambda>t. rt_id t = i \<and> apply_entity_scope (rv_scope env) False (rt_entity t)) (rd_templates db) of
        None \<Rightarrow> Inl (HTTPException 404 ''Recurring template not found'')
      | Some t \<Rightarrow> Inr t)"

definition seed_next_run_on :: "template \<Rightarrow> date \<Rightarrow> date option py" where
  "seed_next_run_on t after = compute_next_run_on (rt_cadence t) (rt_dop t) after (rt_start t) (rt_end t)"

text \<open>The vendor's foreign key, checked at the flush.\<close>

definition vendor_exists :: "rec_db \<Rightarrow> uuid option \<Rightarrow> bool" where
  "vendor_exists db v \<longleftrightarrow> v = None \<or> list_ex (\<lambda>s. v = Some (sp_id s)) (rd_vendors db)"

definition parse_vendor_id :: "string option \<Rightarrow> uuid option py" where
  "parse_vendor_id raw =
     (if raw \<in> {None, Some []} then Inr None
      else case uuid_parse (the raw) of None \<Rightarrow> Inl ValueError | Some v \<Rightarrow> Inr (Some v))"

record template_body =
  tb_name :: string
  tb_vendor :: "string option"
  tb_description :: "string option"
  tb_amount :: "rat option"
  tb_currency :: string
  tb_gl :: "string option"
  tb_cost_center :: "string option"
  tb_department :: "string option"
  tb_project :: "string option"
  tb_po :: "string option"
  tb_terms :: "string option"
  tb_cadence :: string
  tb_dop :: int
  tb_start :: date
  tb_end :: "date option"
  tb_tolerance :: "rat option"
  tb_notes :: "string option"

definition create_template :: "rec_env \<Rightarrow> rec_db \<Rightarrow> uuid option \<Rightarrow> template_body \<Rightarrow> (template \<times> rec_db) py" where
  "create_template env db entity b =
     py_bind (parse_vendor_id (tb_vendor b)) (\<lambda>v.
       let t = \<lparr>rt_id = rv_template env, rt_org = rv_org env, rt_entity = entity, rt_name = tb_name b, rt_vendor = v,
                rt_vendor_name = resolve_vendor_name db v, rt_description = tb_description b, rt_amount = tb_amount b,
                rt_currency = py_upper (if tb_currency b = [] then ''USD'' else tb_currency b), rt_gl = tb_gl b,
                rt_cost_center = tb_cost_center b, rt_department = tb_department b, rt_project = tb_project b,
                rt_po = tb_po b, rt_terms = tb_terms b, rt_cadence = tb_cadence b, rt_dop = tb_dop b,
                rt_start = tb_start b, rt_end = tb_end b, rt_next = None, rt_last_key = None, rt_last_at = None,
                rt_count = 0, rt_status = ''active'', rt_tolerance = tb_tolerance b, rt_notes = tb_notes b,
                rt_meta = None, rt_author = Some (rv_user env), rt_editors = None\<rparr>
       in py_bind (seed_next_run_on t (tb_start b)) (\<lambda>nxt.
          py_bind (py_guard (\<not> vendor_exists db v) IntegrityError) (\<lambda>_.
            Inr (t\<lparr>rt_next := nxt\<rparr>,
                 audit_rec (rv_audit_key env) (rv_org env) (Some (rv_user env)) ''recurring_template.created''
                   ''recurring_invoice_template'' (rt_id t)
                   [(''name'', JStr (rt_name t)), (''cadence'', JStr (rt_cadence t))]
                   (db\<lparr>rd_templates := rd_templates db @ [t\<lparr>rt_next := nxt\<rparr>]\<rparr>)))))"

text \<open>\<open>None\<close> for a field not sent, \<open>Some None\<close> for one sent as null.\<close>

record template_patch =
  tp_name :: "string option option"
  tp_vendor :: "string option option"
  tp_description :: "string option option"
  tp_amount :: "rat option option"
  tp_currency :: "string option option"
  tp_gl :: "string option option"
  tp_cost_center :: "string option option"
  tp_department :: "string option option"
  tp_project :: "string option option"
  tp_po :: "string option option"
  tp_terms :: "string option option"
  tp_cadence :: "string option option"
  tp_dop :: "int option option"
  tp_start :: "date option option"
  tp_end :: "date option option"
  tp_tolerance :: "rat option option"
  tp_notes :: "string option option"

text \<open>A null for a column that may not be null is refused by the date arithmetic or by the flush; either
  way the request fails and writes nothing.\<close>

definition null_for_required :: "template_patch \<Rightarrow> bool" where
  "null_for_required p \<longleftrightarrow>
     tp_name p = Some None \<or> tp_currency p = Some None \<or> tp_cadence p = Some None \<or> tp_dop p = Some None
     \<or> tp_start p = Some None"

definition currency_sent :: "template_patch \<Rightarrow> string option" where
  "currency_sent p = map_option (\<lambda>c. py_upper (the c)) (tp_currency p)"

definition patched_template :: "template_patch \<Rightarrow> uuid option \<Rightarrow> string option \<Rightarrow> template \<Rightarrow> template \<Rightarrow> template" where
  "patched_template p v name snap r =
     r\<lparr>rt_name := set_column (map_option the (tp_name p)) (rt_name snap) (rt_name r),
       rt_vendor := set_column (link_sent (tp_vendor p) v) (rt_vendor snap) (rt_vendor r),
       rt_vendor_name := (if sent_change (link_sent (tp_vendor p) v) (rt_vendor snap)
                          then set_column (Some name) (rt_vendor_name snap) (rt_vendor_name r) else rt_vendor_name r),
       rt_description := set_column (tp_description p) (rt_description snap) (rt_description r),
       rt_amount := set_column (tp_amount p) (rt_amount snap) (rt_amount r),
       rt_currency := set_column (currency_sent p) (rt_currency snap) (rt_currency r),
       rt_gl := set_column (tp_gl p) (rt_gl snap) (rt_gl r),
       rt_cost_center := set_column (tp_cost_center p) (rt_cost_center snap) (rt_cost_center r),
       rt_department := set_column (tp_department p) (rt_department snap) (rt_department r),
       rt_project := set_column (tp_project p) (rt_project snap) (rt_project r),
       rt_po := set_column (tp_po p) (rt_po snap) (rt_po r),
       rt_terms := set_column (tp_terms p) (rt_terms snap) (rt_terms r),
       rt_cadence := set_column (map_option the (tp_cadence p)) (rt_cadence snap) (rt_cadence r),
       rt_dop := set_column (map_option the (tp_dop p)) (rt_dop snap) (rt_dop r),
       rt_start := set_column (map_option the (tp_start p)) (rt_start snap) (rt_start r),
       rt_end := set_column (tp_end p) (rt_end snap) (rt_end r),
       rt_tolerance := set_column (tp_tolerance p) (rt_tolerance snap) (rt_tolerance r),
       rt_notes := set_column (tp_notes p) (rt_notes snap) (rt_notes r)\<rparr>"

definition template_changes :: "template_patch \<Rightarrow> uuid option \<Rightarrow> template \<Rightarrow> string list" where
  "template_changes p v snap =
     changed_fields
       [(''name'', sent_change (map_option the (tp_name p)) (rt_name snap)),
        (''vendor_id'', sent_change (link_sent (tp_vendor p) v) (rt_vendor snap)),
        (''description'', sent_change (tp_description p) (rt_description snap)),
        (''amount'', sent_change (tp_amount p) (rt_amount snap)),
        (''currency'', sent_change (currency_sent p) (rt_currency snap)),
        (''gl_account'', sent_change (tp_gl p) (rt_gl snap)),
        (''cost_center'', sent_change (tp_cost_center p) (rt_cost_center snap)),
        (''department'', sent_change (tp_department p) (rt_department snap)),
        (''project'', sent_change (tp_project p) (rt_project snap)),
        (''po_number'', sent_change (tp_po p) (rt_po snap)),
        (''payment_terms'', sent_change (tp_terms p) (rt_terms snap)),
        (''cadence'', sent_change (map_option the (tp_cadence p)) (rt_cadence snap)),
        (''day_of_period'', sent_change (map_option the (tp_dop p)) (rt_dop snap)),
        (''start_date'', sent_change (map_option the (tp_start p)) (rt_start snap)),
        (''end_date'', sent_change (tp_end p) (rt_end snap)),
        (''variance_tolerance_pct'', sent_change (tp_tolerance p) (rt_tolerance snap)),
        (''notes'', sent_change (tp_notes p) (rt_notes snap))]"

definition SCHEDULE_FIELDS :: "string list" where
  "SCHEDULE_FIELDS = [''cadence'', ''day_of_period'', ''start_date'']"

text \<open>\<open>Some c\<close>: the cursor the edit sets.\<close>

definition reseeded :: "rec_env \<Rightarrow> template \<Rightarrow> string list \<Rightarrow> date option option py" where
  "reseeded env t changed =
     (if rt_status t = ''active'' \<and> list_ex (\<lambda>f. f \<in> set SCHEDULE_FIELDS) changed
      then py_bind (seed_next_run_on t (later_date (rv_today env) (rt_start t))) (\<lambda>nxt. Inr (Some nxt))
      else Inr None)"

definition update_template_from :: "rec_env \<Rightarrow> template \<Rightarrow> template_patch \<Rightarrow> rec_db \<Rightarrow> rec_db py" where
  "update_template_from env snap p db =
     py_bind (parse_vendor_id (get_or (tp_vendor p) None)) (\<lambda>v.
     py_bind (py_guard (null_for_required p) IntegrityError) (\<lambda>_.
       let name = resolve_vendor_name db v;
           t = patched_template p v name snap snap;
           changed = template_changes p v snap;
           material = material_edit_fields changed;
           editors = (if material = [] then rt_editors snap else record_material_editor t (rv_user env));
           meta = (if changed = [] then rt_meta snap else clear_generation_skip_if_resolved t)
       in py_bind (reseeded env t changed) (\<lambda>nxt.
          py_bind (py_guard (\<not> vendor_exists db (rt_vendor t)) IntegrityError) (\<lambda>_.
            let db1 = write_template (rt_id snap)
                        (\<lambda>r. (patched_template p v name snap r)
                              \<lparr>rt_next := set_column nxt (rt_next snap) (rt_next r),
                               rt_editors := set_column (Some editors) (rt_editors snap) (rt_editors r),
                               rt_meta := set_column (Some meta) (rt_meta snap) (rt_meta r)\<rparr>) db
            in Inr (if changed = [] then db1
                    else audit_rec (rv_audit_key env) (rv_org env) (Some (rv_user env)) ''recurring_template.updated''
                           ''recurring_invoice_template'' (rt_id snap)
                           [(''changed'', JList (map JStr (sort changed))), (''material'', JList (map JStr (sort material)))]
                           db1)))))"

definition update_template :: "rec_env \<Rightarrow> rec_db \<Rightarrow> uuid \<Rightarrow> template_patch \<Rightarrow> rec_db py" where
  "update_template env db i p = py_bind (get_scoped env db i) (\<lambda>t. update_template_from env t p db)"

definition delete_template :: "rec_env \<Rightarrow> rec_db \<Rightarrow> uuid \<Rightarrow> rec_db py" where
  "delete_template env db i =
     py_bind (get_scoped env db i) (\<lambda>t.
     py_bind (py_guard (list_ex (\<lambda>p. pc_template p = i) (rd_periods db))
                (HTTPException 409 ''Template has generated invoices; end it instead of deleting.'')) (\<lambda>_.
       Inr ((audit_rec (rv_audit_key env) (rv_org env) (Some (rv_user env)) ''recurring_template.deleted''
               ''recurring_invoice_template'' i [(''name'', JStr (rt_name t))] db)
              \<lparr>rd_templates := delete_where (\<lambda>r. rt_id r = i) (rd_templates db)\<rparr>)))"

definition audit_lifecycle :: "rec_env \<Rightarrow> uuid \<Rightarrow> string \<Rightarrow> string \<Rightarrow> rec_db \<Rightarrow> rec_db" where
  "audit_lifecycle env i new action db =
     audit_rec (rv_audit_key env) (rv_org env) (Some (rv_user env)) action ''recurring_invoice_template'' i
       [(''status'', JStr new)] db"

definition pause_template_from :: "rec_env \<Rightarrow> template \<Rightarrow> rec_db \<Rightarrow> rec_db py" where
  "pause_template_from env snap db =
     py_bind (py_guard (rt_status snap \<noteq> ''active'') (HTTPException 409 ''Only an active template can be paused'')) (\<lambda>_.
       Inr (audit_lifecycle env (rt_id snap) ''paused'' ''recurring_template.paused''
              (write_template (rt_id snap) (\<lambda>r. r\<lparr>rt_status := ''paused''\<rparr>) db)))"

definition resume_template_from :: "rec_env \<Rightarrow> template \<Rightarrow> rec_db \<Rightarrow> rec_db py" where
  "resume_template_from env snap db =
     py_bind (py_guard (rt_status snap \<noteq> ''paused'') (HTTPException 409 ''Only a paused template can be resumed'')) (\<lambda>_.
     py_bind (seed_next_run_on snap (later_date (rv_today env) (rt_start snap))) (\<lambda>nxt.
       Inr (audit_lifecycle env (rt_id snap) ''active'' ''recurring_template.resumed''
              (write_template (rt_id snap)
                 (\<lambda>r. r\<lparr>rt_status := ''active'', rt_next := set_column (Some nxt) (rt_next snap) (rt_next r),
                        rt_meta := set_column (Some (clear_generation_skip_if_resolved snap)) (rt_meta snap) (rt_meta r)\<rparr>) db))))"

definition end_template_from :: "rec_env \<Rightarrow> template \<Rightarrow> rec_db \<Rightarrow> rec_db py" where
  "end_template_from env snap db =
     py_bind (py_guard (rt_status snap = ''ended'') (HTTPException 409 ''Template is already ended'')) (\<lambda>_.
       Inr (audit_lifecycle env (rt_id snap) ''ended'' ''recurring_template.ended''
              (write_template (rt_id snap)
                 (\<lambda>r. r\<lparr>rt_status := ''ended'', rt_next := set_column (Some None) (rt_next snap) (rt_next r)\<rparr>) db)))"

text \<open>The answer is the invoice, its period, and whether this call created it.\<close>

definition generate_now_from :: "rec_env \<Rightarrow> template \<Rightarrow> rec_db \<Rightarrow> ((invoice \<times> string \<times> bool) \<times> rec_db) py" where
  "generate_now_from env snap db =
     py_bind (py_guard (rt_status snap = ''ended'') (HTTPException 409 ''Cannot generate from an ended template'')) (\<lambda>_.
     py_bind (py_guard (not_generatable_reason snap \<noteq> None)
                (HTTPException 422 ''Template needs a vendor and amount before it can generate an invoice'')) (\<lambda>_.
     py_bind (current_due_run_on (rt_cadence snap) (rt_dop snap) (rv_today env) (rt_start snap)) (\<lambda>run_on.
       let key = period_key_for (rt_cadence snap) run_on
       in case period_invoice db (rt_id snap) key of
            Some iv \<Rightarrow> Inr ((iv, key, False), without_marker snap db)
          | None \<Rightarrow>
              py_bind (generate_one env db snap run_on (Some (rv_user env))) (\<lambda>(iv, db1).
                case iv of
                  None \<Rightarrow> Inl (HTTPException 422 ''Template could not generate an invoice'')
                | Some iv' \<Rightarrow> Inr ((iv', key, True), db1)))))"

section \<open>The cursor moves to the next occurrence\<close>

definition nth_run :: "template \<Rightarrow> nat \<Rightarrow> date" where
  "nth_run t k = occurrence (rt_cadence t) (rt_dop t) (rt_start t) k"

definition past_end :: "template \<Rightarrow> date \<Rightarrow> bool" where
  "past_end t d \<longleftrightarrow> (case rt_end t of None \<Rightarrow> False | Some e \<Rightarrow> ordinal e < ordinal d)"

definition schedule_ok :: "template \<Rightarrow> bool" where
  "schedule_ok t \<longleftrightarrow> valid_date (rt_start t) \<and> day_of_month_ok (rt_dop t)"

lemma add_period_occurrence:
  assumes "valid_date start" "day_of_month_ok dop" "month_index (occurrence cadence dop start (Suc k)) < 120000"
  shows "add_months_to_date (occurrence cadence dop start k) (months_per_period cadence) = Inr (occurrence cadence dop start (Suc k))"
proof -
  let ?n = "month_index (occurrence cadence dop start k)" and ?m = "months_per_period cadence"
  have n: "?n + ?m = month_index (occurrence cadence dop start (Suc k))" by (simp add: occurrence_index algebra_simps)
  then have "?n < 120000" using assms(3) months_pos(1) [of cadence] by linarith
  then have v: "valid_date (occurrence cadence dop start k)" by (rule occurrence_valid [OF assms(1,2)])
  have "12 \<le> ?n + ?m" using month_index_bound [OF v] months_pos(1) [of cadence] by linarith
  then have "add_months_to_date (occurrence cadence dop start k) ?m
      = Inr (slot (min (day (occurrence cadence dop start k)) (month_length (?n + ?m))) (?n + ?m))"
    using n assms(3) by (intro add_months_to_date_slot [OF v]) simp_all
  moreover have "dop \<le> month_length (?n + ?m)"
    using assms(2) days_in_month_bounds(1) by (simp add: day_of_month_ok_def month_length_def) (meson order_trans)
  ultimately show ?thesis by (simp add: occurrence_def min_def algebra_simps)
qed

lemma next_after_run:
  assumes "schedule_ok t" "month_index (nth_run t (Suc k)) + 12 < 120000"
  shows "next_after t (nth_run t k) = Inr (if past_end t (nth_run t (Suc k)) then None else Some (nth_run t (Suc k)))"
proof -
  note v = assms(1) [unfolded schedule_ok_def, THEN conjunct1] assms(1) [unfolded schedule_ok_def, THEN conjunct2]
  let ?occ = "occurrence (rt_cadence t) (rt_dop t) (rt_start t)"
  have i: "month_index (?occ (Suc k)) + 12 < 120000" using assms(2) by (simp add: nth_run_def)
  then have va: "valid_date (?occ (Suc k))" by (intro occurrence_valid [OF v]) simp
  have m: "1 \<le> months_per_period (rt_cadence t)" by (rule months_pos)
  have "month_index (?occ (Suc k)) = month_index (rt_start t) + months_per_period (rt_cadence t) + int k * months_per_period (rt_cadence t)"
    by (simp add: occurrence_index distrib_right)
  moreover have "0 \<le> int k * months_per_period (rt_cadence t)" using m by simp
  ultimately have lt: "month_index (rt_start t) < month_index (?occ (Suc k))" using m by linarith
  then have "ordinal (rt_start t) < ordinal (?occ (Suc k))" by (rule ordinal_month_less [OF v(1) va])
  then have l: "later_date (?occ (Suc k)) (rt_start t) = ?occ (Suc k)" by (simp add: later_date_def)
  have b: "month_index (rt_start t) + 12 < 120000" using lt i by simp
  obtain j where j: "compute_next_run_on (rt_cadence t) (rt_dop t) (?occ (Suc k)) (rt_start t) (rt_end t)
       = Inr (case rt_end t of Some e \<Rightarrow> if ordinal e < ordinal (?occ j) then None else Some (?occ j) | None \<Rightarrow> Some (?occ j))"
    "ordinal (?occ (Suc k)) \<le> ordinal (?occ j)" "\<And>h. h < j \<Longrightarrow> ordinal (?occ h) < ordinal (?occ (Suc k))"
    "month_index (?occ j) \<le> month_index (?occ (Suc k)) + 12"
    by (rule compute_next_run_on_finds [OF v(1) va v(2) b i, of "rt_cadence t" "rt_end t", unfolded l]) blast
  have "\<not> Suc k < j" using j(3) [of "Suc k"] by auto
  moreover have "\<not> j < Suc k"
    using j(2,4) i occurrence_less_iff [OF v, of "rt_cadence t" j "Suc k"] by auto
  ultimately have "j = Suc k" by simp
  then show ?thesis
    using j(1) add_period_occurrence [OF v, of "rt_cadence t" k] i
    by (simp add: next_after_def nth_run_def past_end_def split: option.split)
qed

lemma nth_run_less:
  assumes "schedule_ok t" "month_index (nth_run t j) < 120000" "month_index (nth_run t k) < 120000"
  shows "ordinal (nth_run t j) < ordinal (nth_run t k) \<longleftrightarrow> j < k"
  using assms by (simp add: schedule_ok_def nth_run_def occurrence_less_iff)

lemma nth_run_index_mono: "j \<le> k \<Longrightarrow> month_index (nth_run t j) \<le> month_index (nth_run t k)"
  using months_pos(1) [of "rt_cadence t"] by (simp add: nth_run_def occurrence_index mult_right_mono)

section \<open>What the writes keep\<close>

lemma write_template_simps [simp]:
  "rd_core (write_template i f db) = rd_core db" "rd_periods (write_template i f db) = rd_periods db"
  "rd_vendors (write_template i f db) = rd_vendors db"
  "rd_templates (write_template i f db) = update_where (\<lambda>t. rt_id t = i) f (rd_templates db)"
  by (simp_all add: write_template_def)

lemma audit_rec_simps [simp]:
  "rd_periods (audit_rec c o' a act e i d db) = rd_periods db" "rd_templates (audit_rec c o' a act e i d db) = rd_templates db"
  "rd_vendors (audit_rec c o' a act e i d db) = rd_vendors db"
  by (simp_all add: audit_rec_def)

lemma find_update_where:
  assumes "\<And>r. rt_id (f r) = rt_id r"
  shows "find (\<lambda>t. rt_id t = i) (update_where (\<lambda>t. rt_id t = i) f rows) = map_option f (find (\<lambda>t. rt_id t = i) rows)"
  using assms by (induction rows) (auto simp: update_where_def)

lemma find_template_write [simp]:
  "(\<And>r. rt_id (f r) = rt_id r) \<Longrightarrow> find_template (write_template i f db) i = map_option f (find_template db i)"
  by (simp add: find_template_def find_update_where)

lemma find_template_frame: "rd_templates db' = rd_templates db \<Longrightarrow> find_template db' i = find_template db i"
  by (simp add: find_template_def)

lemma find_template_id: "find_template db i = Some t \<Longrightarrow> rt_id t = i \<and> t \<in> set (rd_templates db)"
  by (auto simp: find_template_def dest: find_Some_props)

lemma period_row_frame: "rd_periods db' = rd_periods db \<Longrightarrow> period_row db' i key = period_row db i key"
  by (simp add: period_row_def)

lemma log_generated_simps [simp]:
  "rd_periods (log_generated env t key actor iv db) = rd_periods db"
  "rd_templates (log_generated env t key actor iv db) = rd_templates db"
  "rd_vendors (log_generated env t key actor iv db) = rd_vendors db"
  by (simp_all add: log_generated_def)

lemma without_marker_simps [simp]:
  "rd_core (without_marker t db) = rd_core db" "rd_periods (without_marker t db) = rd_periods db"
  "rd_vendors (without_marker t db) = rd_vendors db"
  by (simp_all add: without_marker_def)

lemma find_without_marker:
  "find_template db (rt_id t) = Some t \<Longrightarrow>
     find_template (without_marker t db) (rt_id t) = Some (t\<lparr>rt_meta := clear_generation_skip t\<rparr>)"
  by (simp add: without_marker_def)

lemma clear_clear: "clear_generation_skip (t\<lparr>rt_meta := clear_generation_skip t\<rparr>) = clear_generation_skip t"
  by (auto simp: clear_generation_skip_def Let_def)

lemma generatable_meta [simp]: "not_generatable_reason (t\<lparr>rt_meta := m\<rparr>) = not_generatable_reason t"
  by (simp add: not_generatable_reason_def)

lemma schedule_meta [simp]: "next_after (t\<lparr>rt_meta := m\<rparr>) d = next_after t d"
  by (simp add: next_after_def)

section \<open>A sweep bills the due period and moves on\<close>

text \<open>What a sweep leaves of a template that stays in service.\<close>

definition same_terms :: "template \<Rightarrow> template \<Rightarrow> bool" where
  "same_terms t t' \<longleftrightarrow> rt_cadence t' = rt_cadence t \<and> rt_dop t' = rt_dop t \<and> rt_start t' = rt_start t \<and> rt_end t' = rt_end t
     \<and> rt_status t' = rt_status t \<and> rt_amount t' = rt_amount t \<and> rt_vendor_name t' = rt_vendor_name t"

lemma same_terms_facts:
  assumes "same_terms t t'"
  shows "nth_run t' k = nth_run t k" "past_end t' d = past_end t d" "schedule_ok t' = schedule_ok t"
    "next_after t' d = next_after t d" "not_generatable_reason t' = not_generatable_reason t"
  using assms by (simp_all add: same_terms_def nth_run_def past_end_def schedule_ok_def next_after_def not_generatable_reason_def)

lemma generate_one_new:
  assumes "not_generatable_reason t = None" "period_row db (rt_id t) (period_key_for (rt_cadence t) run_on) = None"
    "next_after t run_on = Inr nxt" "find_template db (rt_id t) = Some r" "clear_generation_skip t = rt_meta t"
  obtains iv db' where "generate_one env db t run_on actor = Inr (Some iv, db')"
    "period_row db' (rt_id t) (period_key_for (rt_cadence t) run_on) \<noteq> None"
    "find_template db' (rt_id t) = Some (r\<lparr>rt_count := rt_count t + 1, rt_last_key := Some (period_key_for (rt_cadence t) run_on),
       rt_last_at := Some (rv_now env), rt_next := nxt\<rparr>)"
proof -
  let ?key = "period_key_for (rt_cadence t) run_on"
  let ?iv = "generated_invoice env t ?key (if actor = None then rt_author t else actor)"
  obtain db1 where ins: "insert_period_invoice db t ?key run_on ?iv = Inr db1" "rd_templates db1 = rd_templates db"
    "period_row db1 (rt_id t) ?key \<noteq> None"
    using assms(2) by (auto simp: insert_period_invoice_def period_row_def find_None_iff_all)
  let ?db4 = "log_generated env t ?key actor ?iv db1"
  have "generate_one env db t run_on actor = Inr (Some ?iv, write_template (rt_id t)
         (\<lambda>r. r\<lparr>rt_count := rt_count t + 1, rt_last_key := Some ?key, rt_last_at := Some (rv_now env), rt_next := nxt\<rparr>) ?db4)"
    using assms(1,3,5) ins(1) by (simp add: generate_one_def Let_def without_marker_def)
  moreover have "find_template ?db4 (rt_id t) = Some r"
    using find_template_frame [of ?db4 db "rt_id t"] ins(2) assms(4) by simp
  moreover have "period_row ?db4 (rt_id t) ?key \<noteq> None" using ins(3) by (simp add: period_row_def)
  ultimately show ?thesis using that by (simp add: period_row_def)
qed

lemma advance_done:
  assumes "find_template db i = Some t" "rt_next t = nxt" "case nxt of None \<Rightarrow> True | Some d \<Rightarrow> ordinal run_on < ordinal d"
  shows "advance_cursor i run_on db = Inr db"
  using assms by (auto simp: advance_cursor_def split: option.splits)

lemma advance_moves:
  assumes "find_template db i = Some t" "rt_next t = Some run_on" "next_after t run_on = Inr nxt"
  shows "advance_cursor i run_on db = Inr (write_template i (\<lambda>r. r\<lparr>rt_next := nxt\<rparr>) db)"
  using assms by (simp add: advance_cursor_def)

lemma sweep_bills:
  assumes t: "find_template db i = Some t" "not_generatable_reason t = None" "rt_status t = ''active''"
    "rt_next t = Some d" "ordinal d \<le> ordinal (rv_today env)" "next_after t d = Inr nxt"
    "case nxt of None \<Rightarrow> True | Some d' \<Rightarrow> ordinal d < ordinal d'"
  obtains out' db' t' where "sweep_template env (out, db) i = (out', db')"
    "period_row db' i (period_key_for (rt_cadence t) d) \<noteq> None"
    "find_template db' i = Some t'" "same_terms t t'" "rt_next t' = nxt"
proof -
  let ?key = "period_key_for (rt_cadence t) d"
  let ?t = "t\<lparr>rt_meta := clear_generation_skip t\<rparr>" and ?db0 = "without_marker t db"
  have i: "rt_id t = i" using find_template_id [OF t(1)] by simp
  have f0: "find_template ?db0 i = Some ?t" using t(1) find_without_marker [of db t] by (simp add: i)
  have due: "still_due (rv_today env) t" using t(3-5) by (simp add: still_due_def)
  show ?thesis
  proof (cases "period_row ?db0 i ?key = None")
    case False
    have "advance_cursor i d ?db0 = Inr (write_template i (\<lambda>r. r\<lparr>rt_next := nxt\<rparr>) ?db0)"
      by (rule advance_moves [OF f0]) (use t(4,6) in simp_all)
    then have "sweep_template env (out, db) i = (out, write_template i (\<lambda>r. r\<lparr>rt_next := nxt\<rparr>) ?db0)"
      using False t(1,2,4) due by (simp add: sweep_template_def sweep_row_def Let_def i)
    then show ?thesis
      by (rule that [of _ _ "?t\<lparr>rt_next := nxt\<rparr>"]) (use False f0 in \<open>simp_all add: period_row_def same_terms_def\<close>)
  next
    case True
    obtain iv db1 where g: "generate_one env ?db0 ?t d None = Inr (Some iv, db1)" "period_row db1 i ?key \<noteq> None"
      "find_template db1 i = Some (?t\<lparr>rt_count := rt_count t + 1, rt_last_key := Some ?key,
         rt_last_at := Some (rv_now env), rt_next := nxt\<rparr>)"
      by (rule generate_one_new [of ?t ?db0 d nxt ?t env None]) (use True t(2,6) f0 in \<open>simp_all add: i clear_clear\<close>)
    have "advance_cursor i d db1 = Inr db1" by (rule advance_done [OF g(3)]) (use t(7) in simp_all)
    then have "sweep_template env (out, db) i = (out\<lparr>so_generated := so_generated out + 1\<rparr>, db1)"
      using True t(1,2,4) due g(1) by (simp add: sweep_template_def sweep_row_def Let_def i)
    then show ?thesis by (rule that [OF _ g(2,3)]) (simp_all add: same_terms_def)
  qed
qed

section \<open>Sweeps catch up\<close>

text \<open>No operation of a sweep takes an invoice's period away.\<close>

definition keeps_periods :: "rec_db \<Rightarrow> rec_db \<Rightarrow> bool" where
  "keeps_periods db db' \<longleftrightarrow> (\<exists>ps. rd_periods db' = rd_periods db @ ps)"

lemma keeps_periods_refl [simp]: "keeps_periods db db"
  by (simp add: keeps_periods_def)

lemma keeps_periods_eq: "rd_periods db' = rd_periods db \<Longrightarrow> keeps_periods db db'"
  by (simp add: keeps_periods_def)

lemma keeps_periods_trans: "keeps_periods a b \<Longrightarrow> keeps_periods b c \<Longrightarrow> keeps_periods a c"
  by (auto simp: keeps_periods_def)

lemma keeps_periods_row: "keeps_periods db db' \<Longrightarrow> period_row db i key \<noteq> None \<Longrightarrow> period_row db' i key \<noteq> None"
  by (auto simp: keeps_periods_def period_row_def find_None_iff_all)

lemma advance_periods: "advance_cursor i d db = Inr db' \<Longrightarrow> rd_periods db' = rd_periods db"
  by (auto simp: advance_cursor_def split: option.splits if_splits)

lemma handle_periods: "handle_non_generatable env db t key reason out = (out', db') \<Longrightarrow> rd_periods db' = rd_periods db"
  by (auto simp: handle_non_generatable_def Let_def split: prod.splits if_splits)

lemma insert_periods: "insert_period_invoice db t key run_on iv = Inr db' \<Longrightarrow> keeps_periods db db'"
  by (auto simp: insert_period_invoice_def keeps_periods_def split: if_splits)

lemma generate_periods: "generate_one env db t run_on actor = Inr (iv, db') \<Longrightarrow> keeps_periods db db'"
proof -
  assume g: "generate_one env db t run_on actor = Inr (iv, db')"
  show "keeps_periods db db'"
  proof (cases "insert_period_invoice (without_marker t db) t (period_key_for (rt_cadence t) run_on) run_on
      (generated_invoice env t (period_key_for (rt_cadence t) run_on) (if actor = None then rt_author t else actor))")
    case (Inl e)
    then have "rd_periods db' = rd_periods db" using g by (auto simp: generate_one_def Let_def split: if_splits)
    then show ?thesis by (rule keeps_periods_eq)
  next
    case (Inr db1)
    then have "rd_periods db' = rd_periods db1 \<or> rd_periods db' = rd_periods db"
      using g by (auto simp: generate_one_def Let_def split: if_splits)
    moreover have "keeps_periods (without_marker t db) db1" by (rule insert_periods [OF Inr])
    ultimately show ?thesis by (auto simp: keeps_periods_def)
  qed
qed

lemma sweep_row_periods:
  assumes "sweep_row env out db t run_on = (out', Inr db')"
  shows "keeps_periods db db'"
proof (cases "not_generatable_reason t")
  case (Some reason)
  then obtain o1 d1 where h: "handle_non_generatable env db t (period_key_for (rt_cadence t) run_on) reason out = (o1, d1)"
    "advance_cursor (rt_id t) run_on d1 = Inr db'"
    using assms by (auto simp: sweep_row_def split: prod.splits)
  show ?thesis by (rule keeps_periods_eq) (simp add: advance_periods [OF h(2)] handle_periods [OF h(1)])
next
  case None
  let ?db0 = "without_marker t db" and ?t = "t\<lparr>rt_meta := clear_generation_skip t\<rparr>"
  show ?thesis
  proof (cases "period_row ?db0 (rt_id t) (period_key_for (rt_cadence t) run_on)")
    case (Some p)
    then have "advance_cursor (rt_id t) run_on ?db0 = Inr db'" using None assms by (simp add: sweep_row_def Let_def)
    from advance_periods [OF this] show ?thesis by (intro keeps_periods_eq) simp
  next
    case none: None
    obtain iv d1 where g: "generate_one env ?db0 ?t run_on None = Inr (iv, d1)" "advance_cursor (rt_id t) run_on d1 = Inr db'"
      using assms None none by (cases "generate_one env ?db0 ?t run_on None") (auto simp: sweep_row_def Let_def)
    have "keeps_periods ?db0 db'"
      by (rule keeps_periods_trans [OF generate_periods [OF g(1)] keeps_periods_eq [OF advance_periods [OF g(2)]]])
    then show ?thesis by (simp add: keeps_periods_def)
  qed
qed

lemma sweep_template_periods: "keeps_periods db (snd (sweep_template env (out, db) i))"
proof (cases "find_template db i")
  case None
  then show ?thesis by (simp add: sweep_template_def)
next
  case (Some t)
  show ?thesis
  proof (cases "still_due (rv_today env) t")
    case False
    then show ?thesis by (simp add: sweep_template_def Some)
  next
    case True
    obtain o1 res where r: "sweep_row env out db t (the (rt_next t)) = (o1, res)" by fastforce
    show ?thesis
    proof (cases res)
      case (Inl e)
      then show ?thesis by (simp add: sweep_template_def Some r)
    next
      case (Inr db')
      then show ?thesis using sweep_row_periods [of env out db t "the (rt_next t)" o1 db'] r True
        by (simp add: sweep_template_def Some)
    qed
  qed
qed

text \<open>What sweeping one template leaves of the others, and of the row's place in the table.\<close>

definition rows_kept :: "uuid \<Rightarrow> template list \<Rightarrow> template list \<Rightarrow> bool" where
  "rows_kept j = list_all2 (\<lambda>r r'. rt_id r' = rt_id r \<and> (rt_id r \<noteq> j \<longrightarrow> r' = r)
     \<and> (rt_status r' = ''active'' \<longrightarrow> rt_status r = ''active''))"

lemma rows_kept_refl [simp]: "rows_kept j rows rows"
  by (simp add: rows_kept_def list_all2_refl)

lemma rows_kept_trans: "rows_kept j xs ys \<Longrightarrow> rows_kept j ys zs \<Longrightarrow> rows_kept j xs zs"
  unfolding rows_kept_def by (erule list_all2_trans [rotated], assumption) auto

lemma rows_kept_write:
  assumes "\<And>r. rt_id (f r) = rt_id r" "\<And>r. rt_status (f r) = ''active'' \<Longrightarrow> rt_status r = ''active''"
  shows "rows_kept j rows (update_where (\<lambda>t. rt_id t = j) f rows)"
  unfolding rows_kept_def using assms by (induction rows) (auto simp: update_where_def)

lemma rows_kept_facts:
  assumes "rows_kept j rows rows'"
  shows "map rt_id rows' = map rt_id rows"
    "i \<noteq> j \<Longrightarrow> find (\<lambda>t. rt_id t = i) rows' = find (\<lambda>t. rt_id t = i) rows"
    "length (filter (\<lambda>t. rt_status t = ''active'') rows') \<le> length (filter (\<lambda>t. rt_status t = ''active'') rows)"
  using assms unfolding rows_kept_def by (induction rule: list_all2_induct) auto

lemma advance_rows: "advance_cursor i d db = Inr db' \<Longrightarrow> rows_kept i (rd_templates db) (rd_templates db')"
  by (auto simp: advance_cursor_def intro!: rows_kept_write split: option.splits if_splits)

lemma without_marker_rows: "rows_kept (rt_id t) (rd_templates db) (rd_templates (without_marker t db))"
  by (auto simp: without_marker_def intro: rows_kept_write)

lemma handle_rows:
  assumes "handle_non_generatable env db t key reason out = (out', db')"
  shows "rows_kept (rt_id t) (rd_templates db) (rd_templates db')"
proof -
  obtain n meta where rec: "record_generation_skip (rv_iso env) t key reason (rv_now env) = (n, meta)" by fastforce
  have k: "rows_kept (rt_id t) (rd_templates db) (update_where (\<lambda>r. rt_id r = rt_id t) (\<lambda>r. r\<lparr>rt_meta := meta\<rparr>) (rd_templates db))"
    by (rule rows_kept_write) simp_all
  have p: "rows_kept (rt_id t) rows (update_where (\<lambda>r. rt_id r = rt_id t) (\<lambda>r. r\<lparr>rt_status := ''paused''\<rparr>) rows)" for rows
    by (rule rows_kept_write) simp_all
  show ?thesis
    using assms rec k rows_kept_trans [OF k p]
    by (auto simp: handle_non_generatable_def Let_def split: if_splits)
qed

lemma generate_rows:
  assumes "generate_one env db t run_on actor = Inr (iv, db')"
  shows "rows_kept (rt_id t) (rd_templates db) (rd_templates db')"
proof -
  note w = without_marker_rows [of t db]
  have u: "rows_kept (rt_id t) rows (update_where (\<lambda>r. rt_id r = rt_id t)
      (\<lambda>r. r\<lparr>rt_count := c, rt_last_key := k, rt_last_at := a, rt_next := n\<rparr>) rows)" for rows c k a n
    by (rule rows_kept_write) simp_all
  show ?thesis
    using assms w rows_kept_trans [OF w u]
    by (auto simp: generate_one_def Let_def insert_period_invoice_def split: if_splits sum.splits)
qed

lemma sweep_row_rows:
  assumes "sweep_row env out db t run_on = (out', Inr db')"
  shows "rows_kept (rt_id t) (rd_templates db) (rd_templates db')"
proof (cases "not_generatable_reason t")
  case (Some reason)
  then obtain o1 d1 where h: "handle_non_generatable env db t (period_key_for (rt_cadence t) run_on) reason out = (o1, d1)"
    "advance_cursor (rt_id t) run_on d1 = Inr db'"
    using assms by (auto simp: sweep_row_def split: prod.splits)
  show ?thesis by (rule rows_kept_trans [OF handle_rows [OF h(1)] advance_rows [OF h(2)]])
next
  case None
  let ?db0 = "without_marker t db" and ?t = "t\<lparr>rt_meta := clear_generation_skip t\<rparr>"
  show ?thesis
  proof (cases "period_row ?db0 (rt_id t) (period_key_for (rt_cadence t) run_on)")
    case (Some p)
    then have "advance_cursor (rt_id t) run_on ?db0 = Inr db'" using None assms by (simp add: sweep_row_def Let_def)
    from rows_kept_trans [OF without_marker_rows advance_rows [OF this]] show ?thesis .
  next
    case none: None
    obtain iv d1 where g: "generate_one env ?db0 ?t run_on None = Inr (iv, d1)" "advance_cursor (rt_id t) run_on d1 = Inr db'"
      using assms None none by (cases "generate_one env ?db0 ?t run_on None") (auto simp: sweep_row_def Let_def)
    have "rows_kept (rt_id t) (rd_templates ?db0) (rd_templates d1)" using generate_rows [OF g(1)] by simp
    from rows_kept_trans [OF without_marker_rows rows_kept_trans [OF this advance_rows [OF g(2)]]] show ?thesis .
  qed
qed

lemma sweep_template_rows: "rows_kept i (rd_templates db) (rd_templates (snd (sweep_template env (out, db) i)))"
proof (cases "find_template db i")
  case None
  then show ?thesis by (simp add: sweep_template_def)
next
  case (Some t)
  obtain o1 res where r: "sweep_row env out db t (the (rt_next t)) = (o1, res)" by fastforce
  have "rt_id t = i" using find_template_id [OF Some] by simp
  then show ?thesis
    using sweep_row_rows [of env out db t "the (rt_next t)" o1] r
    by (cases res) (auto simp: sweep_template_def Some)
qed

section \<open>Sweeps of the tenant catch up\<close>

text \<open>One sweep of the tenant after another, each with its own clock and fresh ids.\<close>

definition tenant_sweeps :: "rec_env list \<Rightarrow> nat \<Rightarrow> rec_db \<Rightarrow> rec_db" where
  "tenant_sweeps es cap db = foldl (\<lambda>d env. snd (sweep_tenant env cap d)) db es"

lemma tenant_sweeps_simps [simp]:
  "tenant_sweeps [] cap db = db"
  "tenant_sweeps (env # es) cap db = tenant_sweeps es cap (snd (sweep_tenant env cap db))"
  by (simp_all add: tenant_sweeps_def)

definition active_count :: "rec_db \<Rightarrow> nat" where
  "active_count db = length (filter (\<lambda>t. rt_status t = ''active'') (rd_templates db))"

text \<open>What a pass leaves of the table as a whole.\<close>

definition keeps_table :: "rec_db \<Rightarrow> rec_db \<Rightarrow> bool" where
  "keeps_table db db' \<longleftrightarrow>
     map rt_id (rd_templates db') = map rt_id (rd_templates db) \<and> active_count db' \<le> active_count db \<and> keeps_periods db db'"

lemma keeps_table_trans: "keeps_table a b \<Longrightarrow> keeps_table b c \<Longrightarrow> keeps_table a c"
  by (auto simp: keeps_table_def intro: keeps_periods_trans)

lemma sweep_template_table: "keeps_table db (snd (sweep_template env (out, db) j))"
  using rows_kept_facts(1,3) [OF sweep_template_rows [where env = env and out = out and db = db and i = j]]
    sweep_template_periods [of db env out j]
  by (simp add: keeps_table_def active_count_def)

lemma pass_table: "keeps_table (snd st) (snd (foldl (sweep_template env) st js))"
proof (induction js arbitrary: st)
  case Nil
  then show ?case by (simp add: keeps_table_def)
next
  case (Cons j js)
  obtain out db where st: "st = (out, db)" by fastforce
  show ?case using keeps_table_trans [OF sweep_template_table Cons.IH] by (simp add: st)
qed

lemma pass_frame: "i \<notin> set js \<Longrightarrow> find_template (snd (foldl (sweep_template env) st js)) i = find_template (snd st) i"
proof (induction js arbitrary: st)
  case (Cons j js)
  obtain out db where st: "st = (out, db)" by fastforce
  have "find_template (snd (sweep_template env (out, db) j)) i = find_template db i"
    using rows_kept_facts(2) [OF sweep_template_rows [where env = env and out = out and db = db and i = j]] Cons.prems
    by (simp add: find_template_def)
  then show ?case using Cons.IH [of "sweep_template env st j"] Cons.prems by (simp add: st)
qed simp

lemma tenant_sweeps_table: "keeps_table db (tenant_sweeps es cap db)"
proof (induction es arbitrary: db)
  case Nil
  then show ?case by (simp add: keeps_table_def)
next
  case (Cons env es)
  have "keeps_table db (snd (sweep_tenant env cap db))"
    using pass_table [of "(no_outcome, db)"] by (simp add: sweep_tenant_def)
  then show ?case unfolding tenant_sweeps_simps using Cons.IH by (rule keeps_table_trans)
qed

lemma filter_length_mono: "(\<And>x. P x \<Longrightarrow> Q x) \<Longrightarrow> length (filter P xs) \<le> length (filter Q xs)"
  by (induction xs) auto

text \<open>A template that is due is among those a sweep takes, where the cap leaves room for the active ones.\<close>

lemma due_selected:
  assumes "find_template db i = Some t" "still_due (rv_today env) t" "active_count db \<le> cap"
    "distinct (map rt_id (rd_templates db))"
  obtains before rest where "due_templates env cap db = before @ i # rest" "i \<notin> set before" "i \<notin> set rest"
proof -
  let ?rows = "sort_key (\<lambda>t. (ordinal (the (rt_next t)), unat (rt_id t))) (filter (still_due (rv_today env)) (rd_templates db))"
  have "length ?rows \<le> active_count db"
    unfolding active_count_def length_sort
    by (rule filter_length_mono) (simp add: still_due_def)
  then have due: "due_templates env cap db = map rt_id ?rows" using assms(3) by (simp add: due_templates_def)
  have "t \<in> set ?rows" "rt_id t = i" using find_template_id [OF assms(1)] assms(2) by simp_all
  then have "i \<in> set (map rt_id ?rows)" by force
  from split_list [OF this] obtain before rest where s: "map rt_id ?rows = before @ i # rest" by (elim exE)
  have "distinct (map rt_id ?rows)"
    using assms(4) by (simp add: distinct_map_filter distinct_map inj_on_def)
  then have "i \<notin> set before" "i \<notin> set rest" unfolding s by simp_all
  then show ?thesis by (rule that [OF due [unfolded s]])
qed

lemma tenant_bills:
  assumes t: "find_template db i = Some t" "not_generatable_reason t = None" "rt_status t = ''active''"
    "rt_next t = Some d" "ordinal d \<le> ordinal (rv_today env)" "next_after t d = Inr nxt"
    "case nxt of None \<Rightarrow> True | Some d' \<Rightarrow> ordinal d < ordinal d'"
    and c: "active_count db \<le> cap" "distinct (map rt_id (rd_templates db))"
  obtains t' where "period_row (snd (sweep_tenant env cap db)) i (period_key_for (rt_cadence t) d) \<noteq> None"
    "find_template (snd (sweep_tenant env cap db)) i = Some t'" "same_terms t t'" "rt_next t' = nxt"
proof -
  have "still_due (rv_today env) t" using t(3-5) by (simp add: still_due_def)
  then obtain before rest where due: "due_templates env cap db = before @ i # rest" "i \<notin> set before" "i \<notin> set rest"
    by (rule due_selected [OF t(1) _ c])
  obtain out1 db1 where b: "foldl (sweep_template env) (no_outcome, db) before = (out1, db1)" by fastforce
  have "find_template db1 i = Some t" using pass_frame [OF due(2), of env "(no_outcome, db)"] b t(1) by simp
  from sweep_bills [OF this t(2-7), of out1] obtain out2 db2 t' where s: "sweep_template env (out1, db1) i = (out2, db2)"
    "period_row db2 i (period_key_for (rt_cadence t) d) \<noteq> None"
    "find_template db2 i = Some t'" "same_terms t t'" "rt_next t' = nxt" by metis
  have e: "snd (sweep_tenant env cap db) = snd (foldl (sweep_template env) (out2, db2) rest)"
    by (simp add: sweep_tenant_def due(1) b s(1))
  have "keeps_periods db2 (snd (sweep_tenant env cap db))"
    using pass_table [of "(out2, db2)" env rest] by (simp add: e keeps_table_def)
  moreover have "find_template (snd (sweep_tenant env cap db)) i = Some t'"
    using pass_frame [OF due(3), of env "(out2, db2)"] s(3) by (simp add: e)
  ultimately show ?thesis using that s(2,4,5) keeps_periods_row by blast
qed

lemma tenant_sweeps_reach:
  assumes "find_template db i = Some t" "not_generatable_reason t = None" "rt_status t = ''active''" "schedule_ok t"
    "rt_next t = Some (nth_run t k)" "k \<le> j" "j - k < length es"
    "\<forall>env \<in> set es. ordinal (nth_run t j) \<le> ordinal (rv_today env)" "\<not> past_end t (nth_run t j)"
    "month_index (nth_run t j) + 24 < 120000" "active_count db \<le> cap" "distinct (map rt_id (rd_templates db))"
  shows "period_row (tenant_sweeps es cap db) i (period_key_for (rt_cadence t) (nth_run t j)) \<noteq> None"
  using assms
proof (induction es arbitrary: db t k)
  case Nil
  then show ?case by simp
next
  case (Cons env es)
  have m: "1 \<le> months_per_period (rt_cadence t)" "months_per_period (rt_cadence t) \<le> 12" by (rule months_pos)+
  have kj: "month_index (nth_run t k) \<le> month_index (nth_run t j)" by (rule nth_run_index_mono [OF Cons.prems(6)])
  have suc: "month_index (nth_run t (Suc k)) = month_index (nth_run t k) + months_per_period (rt_cadence t)"
    by (simp add: nth_run_def occurrence_index algebra_simps)
  have lt: "ordinal (nth_run t k) < ordinal (nth_run t (Suc k))"
    using Cons.prems(10) kj suc m by (subst nth_run_less [OF Cons.prems(4)]) simp_all
  have due: "ordinal (nth_run t k) \<le> ordinal (rv_today env)"
  proof -
    have "\<not> ordinal (nth_run t j) < ordinal (nth_run t k)"
      using Cons.prems(6,10) kj by (subst nth_run_less [OF Cons.prems(4)]) simp_all
    then show ?thesis using Cons.prems(8) by fastforce
  qed
  let ?nxt = "if past_end t (nth_run t (Suc k)) then None else Some (nth_run t (Suc k))"
  let ?db' = "snd (sweep_tenant env cap db)"
  have nx: "next_after t (nth_run t k) = Inr ?nxt"
    using Cons.prems(10) kj suc m by (intro next_after_run [OF Cons.prems(4)]) simp
  have "case ?nxt of None \<Rightarrow> True | Some d' \<Rightarrow> ordinal (nth_run t k) < ordinal d'" using lt by simp
  from tenant_bills [OF Cons.prems(1-3,5) due nx this Cons.prems(11,12)]
  obtain t' where s: "period_row ?db' i (period_key_for (rt_cadence t) (nth_run t k)) \<noteq> None"
    "find_template ?db' i = Some t'" "same_terms t t'" "rt_next t' = ?nxt" by metis
  have tab: "keeps_table db ?db'" using pass_table [of "(no_outcome, db)"] by (simp add: sweep_tenant_def)
  show ?case
  proof (cases "k = j")
    case True
    have "keeps_periods ?db' (tenant_sweeps es cap ?db')" using tenant_sweeps_table by (simp add: keeps_table_def)
    then show ?thesis using keeps_periods_row s(1) True by simp
  next
    case False
    then have k: "Suc k \<le> j" "j - Suc k < length es" using Cons.prems(6,7) by auto
    have "\<not> ordinal (nth_run t j) < ordinal (nth_run t (Suc k))"
      using nth_run_index_mono [OF k(1), of t] Cons.prems(10) k(1) by (subst nth_run_less [OF Cons.prems(4)]) simp_all
    then have "\<not> past_end t (nth_run t (Suc k))" using Cons.prems(9) by (auto simp: past_end_def split: option.splits)
    then have "rt_next t' = Some (nth_run t' (Suc k))" using s(4) by (simp add: same_terms_facts [OF s(3)])
    then have "period_row (tenant_sweeps es cap ?db') i (period_key_for (rt_cadence t') (nth_run t' j)) \<noteq> None"
      using Cons.prems k s(2,3) tab
      by (intro Cons.IH [of ?db' t' "Suc k"]) (simp_all add: same_terms_facts [OF s(3)] same_terms_def keeps_table_def)
    then show ?thesis using s(3) by (simp add: same_terms_facts [OF s(3)] same_terms_def)
  qed
qed

end
