(* ===== verification/Recurring_Lifecycle.thy ===== *)
theory Recurring_Lifecycle
  imports Recurring
begin

text \<open>
  The routes and the sweep of the recurring invoices as a step system: the invariant every step keeps, the
  properties of the component and what modelling it showed.
\<close>

section \<open>What every reachable tenant satisfies\<close>

definition on_schedule :: "template \<Rightarrow> bool" where
  "on_schedule t \<longleftrightarrow>
     rt_next t = None \<or> (\<exists>k. rt_next t = Some (nth_run t k) \<and> ordinal (rt_start t) \<le> ordinal (nth_run t k))"

definition template_ok :: "template \<Rightarrow> bool" where
  "template_ok t \<longleftrightarrow> schedule_ok t \<and> (rt_status t = ''active'' \<longrightarrow> on_schedule t) \<and> (rt_status t = ''ended'' \<longrightarrow> rt_next t = None)"

definition recorded :: "template \<Rightarrow> uuid \<Rightarrow> bool" where
  "recorded t u \<longleftrightarrow> rt_author t = Some u \<or> uuid_str u \<in> set (get_or (rt_editors t) [])"

text \<open>The state carries, besides the tenant, who shaped which template: who created it and whose edit
  changed a term of what it raises.\<close>

type_synonym rec_state = "rec_db \<times> (uuid \<times> uuid) set"

definition row_good :: "(uuid \<times> uuid) set \<Rightarrow> template \<Rightarrow> bool" where
  "row_good S t \<longleftrightarrow> template_ok t \<and> (\<forall>u. (rt_id t, u) \<in> S \<longrightarrow> recorded t u)"

definition periods_once :: "rec_db \<Rightarrow> bool" where
  "periods_once db \<longleftrightarrow> distinct (map (\<lambda>p. (pc_template p, pc_key p)) (rd_periods db))"

definition rec_ok :: "rec_state \<Rightarrow> bool" where
  "rec_ok = (\<lambda>(db, S). distinct (map rt_id (rd_templates db)) \<and> periods_once db \<and> (\<forall>t \<in> set (rd_templates db). row_good S t))"

text \<open>The terms of what a template raises: the columns of the invoice that say whom it pays, what, out
  of which coding and against which order, the terms and the project of its period, and the schedule.\<close>

definition raised_terms :: "rec_env \<Rightarrow> template \<Rightarrow>
    (string \<times> uuid option \<times> rat \<times> string \<times> string option \<times> string option \<times> string option \<times> string option \<times> uuid option)
      \<times> (string option \<times> string option) \<times> string \<times> int \<times> date \<times> date option" where
  "raised_terms env t =
     (let iv = generated_invoice env t [] None
      in ((vendor_name iv, vendor_id iv, amount iv, currency iv, gl_account iv, cost_center iv, department iv, po_number iv,
           inv_entity iv),
          (rt_terms t, rt_project t), rt_cadence t, rt_dop t, rt_start t, rt_end t))"

text \<open>An edit shapes what a template raises when a later invoice would come out differently, or at
  another time.\<close>

definition shaping_edit :: "rec_env \<Rightarrow> rec_db \<Rightarrow> rec_db \<Rightarrow> uuid \<Rightarrow> bool" where
  "shaping_edit env db db' i \<longleftrightarrow>
     (case (find_template db i, find_template db' i) of
        (Some t, Some t') \<Rightarrow> raised_terms env t' \<noteq> raised_terms env t
      | _ \<Rightarrow> False)"

text \<open>What the request schemas guarantee of a date and of the day of the period.\<close>

definition patch_valid :: "template_patch \<Rightarrow> bool" where
  "patch_valid p \<longleftrightarrow>
     (case tp_start p of Some (Some d) \<Rightarrow> valid_date d | _ \<Rightarrow> True)
     \<and> (case tp_dop p of Some (Some n) \<Rightarrow> day_of_month_ok n | _ \<Rightarrow> True)"

inductive rec_step :: "rec_state \<Rightarrow> rec_state \<Rightarrow> bool" where
  create: "create_template env db entity b = Inr (t, db') \<Longrightarrow> valid_date (tb_start b) \<Longrightarrow> day_of_month_ok (tb_dop b)
     \<Longrightarrow> rv_template env \<notin> rt_id ` set (rd_templates db) \<union> fst ` S
     \<Longrightarrow> rec_step (db, S) (db', insert (rt_id t, rv_user env) S)"
| edit: "update_template env db i p = Inr db' \<Longrightarrow> patch_valid p
     \<Longrightarrow> rec_step (db, S) (db', if shaping_edit env db db' i then insert (i, rv_user env) S else S)"
| delete: "delete_template env db i = Inr db' \<Longrightarrow> rec_step (db, S) (db', S)"
| pause: "get_scoped env db i = Inr t \<Longrightarrow> pause_template_from env t db = Inr db' \<Longrightarrow> rec_step (db, S) (db', S)"
| resume: "get_scoped env db i = Inr t \<Longrightarrow> resume_template_from env t db = Inr db' \<Longrightarrow> rec_step (db, S) (db', S)"
| finish: "get_scoped env db i = Inr t \<Longrightarrow> end_template_from env t db = Inr db' \<Longrightarrow> rec_step (db, S) (db', S)"
| now: "get_scoped env db i = Inr t \<Longrightarrow> generate_now_from env t db = Inr (res, db') \<Longrightarrow> rec_step (db, S) (db', S)"
| sweep: "sweep_template env (out, db) i = (out', db') \<Longrightarrow> rec_step (db, S) (db', S)"

section \<open>Cursors stay on the schedule\<close>

lemma valid_slot_eq: "valid_date e \<Longrightarrow> e = slot (day e) (month_index e)"
  using date_eq_slot [of e "day e"] by (cases e) simp

lemma next_period_is_next:
  assumes "next_period cadence dop (occurrence cadence dop start j) = Inr e"
  shows "e = occurrence cadence dop start (Suc j)"
proof -
  note e = next_period_index [OF assms]
  then have "e = slot dop (month_index (occurrence cadence dop start j) + months_per_period cadence)"
    using valid_slot_eq [of e] by simp
  then show ?thesis by (simp add: occurrence_def algebra_simps)
qed

lemma walk_to_occurrence:
  "walk_to cadence dop l c0 = Inr c \<Longrightarrow> c0 = occurrence cadence dop start j
     \<Longrightarrow> \<exists>k. c = occurrence cadence dop start k \<and> ordinal l \<le> ordinal c"
proof (induction cadence dop l c0 arbitrary: j rule: walk_to.induct)
  case (1 cadence dop l c0)
  show ?case
  proof (cases "ordinal c0 < ordinal l")
    case False
    then show ?thesis using "1.prems" by (subst (asm) walk_to.simps) auto
  next
    case True
    then obtain e where e: "next_period cadence dop c0 = Inr e" "walk_to cadence dop l e = Inr c"
      using "1.prems"(1) by (subst (asm) walk_to.simps) (auto split: sum.splits)
    have "e = occurrence cadence dop start (Suc j)" using e(1) "1.prems"(2) by (simp add: next_period_is_next)
    then show ?thesis by (rule "1.IH" [OF True e(1,2)])
  qed
qed

lemma compute_on_schedule:
  assumes "compute_next_run_on cadence dop after start end_date = Inr (Some d)" "valid_date start"
  shows "\<exists>k. d = occurrence cadence dop start k \<and> ordinal start \<le> ordinal d"
proof -
  obtain first c0 c1 c where w: "mk_date (year start) (month start) 1 = Inr first" "add_months_to_date first 0 = Inr c0"
    "mk_date (year c0) (month c0) dop = Inr c1" "walk_to cadence dop (later_date after start) c1 = Inr c" "d = c"
    using assms(1) by (auto simp: compute_next_run_on_def Let_def split: option.splits if_splits)
  have "month_index first = month_index start" using w(1) by (auto simp: mk_date_Inr month_index_def)
  then have "month_index c0 = month_index start" using add_months_to_date_index [OF w(2)] by simp
  then have "month_index c1 = month_index start" "day c1 = dop" "valid_date c1"
    using w(3) by (auto simp: mk_date_Inr month_index_def)
  then have "c1 = occurrence cadence dop start 0" using valid_slot_eq [of c1] by (simp add: occurrence_def)
  from walk_to_occurrence [OF w(4) this] show ?thesis
    using later_date_simps(2) [of start after] w(5) by (auto intro: order_trans)
qed

lemma seeded_on_schedule:
  assumes "seed_next_run_on t after = Inr nxt" "schedule_ok t"
  shows "on_schedule (t\<lparr>rt_next := nxt\<rparr>)"
proof (cases nxt)
  case None
  then show ?thesis by (simp add: on_schedule_def)
next
  case (Some d)
  then have "\<exists>k. d = nth_run t k \<and> ordinal (rt_start t) \<le> ordinal d"
    using compute_on_schedule [of "rt_cadence t" "rt_dop t" after "rt_start t" "rt_end t" d] assms
    by (simp add: seed_next_run_on_def schedule_ok_def nth_run_def)
  then show ?thesis by (auto simp: Some on_schedule_def nth_run_def)
qed

lemma next_after_on_schedule:
  assumes "next_after t run_on = Inr nxt" "schedule_ok t"
  shows "on_schedule (t\<lparr>rt_next := nxt\<rparr>)"
proof -
  obtain anchor where "seed_next_run_on t anchor = Inr nxt"
    using assms(1) by (auto simp: next_after_def seed_next_run_on_def)
  then show ?thesis by (rule seeded_on_schedule [OF _ assms(2)])
qed

section \<open>Every step keeps the invariant\<close>

lemma rec_ok_unfold:
  "rec_ok (db, S) \<longleftrightarrow> distinct (map rt_id (rd_templates db)) \<and> periods_once db \<and> (\<forall>t \<in> set (rd_templates db). row_good S t)"
  by (simp add: rec_ok_def)

lemma rec_ok_frame:
  "rec_ok (db, S) \<Longrightarrow> rd_templates db' = rd_templates db \<Longrightarrow> rd_periods db' = rd_periods db \<Longrightarrow> rec_ok (db', S)"
  by (simp add: rec_ok_unfold periods_once_def)

lemma unique_row: "rec_ok (db, S) \<Longrightarrow> r \<in> set (rd_templates db) \<Longrightarrow> t \<in> set (rd_templates db) \<Longrightarrow> rt_id r = rt_id t \<Longrightarrow> r = t"
  unfolding rec_ok_unfold by (metis distinct_map inj_onD)

lemma rec_write_keeps:
  assumes ok: "rec_ok (db, S)" and t: "t \<in> set (rd_templates db)" "rt_id t = i"
    and db': "rd_templates db' = update_where (\<lambda>r. rt_id r = i) f (rd_templates db)" "rd_periods db' = rd_periods db"
    and f: "rt_id (f t) = i" "row_good S' (f t)" and others: "\<And>r. r \<in> set (rd_templates db) \<Longrightarrow> rt_id r \<noteq> i \<Longrightarrow> row_good S' r"
  shows "rec_ok (db', S')"
proof -
  have u: "r = t" if "r \<in> set (rd_templates db)" "rt_id r = i" for r
    using unique_row [OF ok that(1) t(1)] that(2) t(2) by simp
  have "map rt_id (rd_templates db') = map rt_id (rd_templates db)"
    unfolding db'(1) update_where_def map_map using u f(1) by (intro map_cong) auto
  moreover have "\<forall>r \<in> set (rd_templates db'). row_good S' r"
    unfolding db'(1) set_update_where using u f(2) others by auto
  ultimately show ?thesis using ok db'(2) by (simp add: rec_ok_unfold periods_once_def)
qed

text \<open>The same where nobody new shaped the template.\<close>

lemma rec_write_same:
  assumes ok: "rec_ok (db, S)" and t: "t \<in> set (rd_templates db)" "rt_id t = i"
    and db': "rd_templates db' = update_where (\<lambda>r. rt_id r = i) f (rd_templates db)" "rd_periods db' = rd_periods db"
    and f: "rt_id (f t) = i" "rt_author (f t) = rt_author t" "rt_editors (f t) = rt_editors t" "template_ok t \<Longrightarrow> template_ok (f t)"
  shows "rec_ok (db', S)"
proof -
  have g: "\<forall>r \<in> set (rd_templates db). row_good S r" using ok by (simp add: rec_ok_unfold)
  then have "row_good S (f t)" using t f by (auto simp: row_good_def recorded_def)
  then show ?thesis using g by (intro rec_write_keeps [OF ok t db' f(1)]) auto
qed

lemma get_scoped_row: "get_scoped env db i = Inr t \<Longrightarrow> t \<in> set (rd_templates db) \<and> rt_id t = i"
  by (auto simp: get_scoped_def dest: find_Some_props split: option.splits)

lemma template_ok_meta [simp]: "template_ok (t\<lparr>rt_meta := m\<rparr>) = template_ok t"
  by (simp add: template_ok_def schedule_ok_def on_schedule_def nth_run_def)

lemma template_ok_cursor:
  assumes "next_after t run_on = Inr nxt" "schedule_ok t" "rt_status t \<noteq> ''ended''"
  shows "template_ok (t\<lparr>rt_count := n, rt_last_key := k, rt_last_at := a, rt_next := nxt\<rparr>)"
    "template_ok (t\<lparr>rt_next := nxt\<rparr>)"
  using next_after_on_schedule [OF assms(1,2)] assms(2,3)
  by (simp_all add: template_ok_def schedule_ok_def on_schedule_def nth_run_def)

lemma without_marker_keeps:
  assumes "rec_ok (db, S)" "t \<in> set (rd_templates db)"
  shows "rec_ok (without_marker t db, S)"
proof (cases "clear_generation_skip t = rt_meta t")
  case False
  show ?thesis
    by (rule rec_write_same [OF assms refl, of _ "\<lambda>r. r\<lparr>rt_meta := clear_generation_skip t\<rparr>"])
      (use False in \<open>simp_all add: without_marker_def\<close>)
qed (simp add: without_marker_def assms(1))

lemma advance_keeps:
  assumes "rec_ok (db, S)" "advance_cursor i run_on db = Inr db'"
  shows "rec_ok (db', S)"
proof (cases "find_template db i")
  case None
  then show ?thesis using assms by (simp add: advance_cursor_def)
next
  case (Some t)
  note t = find_template_id [OF Some]
  have ok: "template_ok t" using assms(1) t by (simp add: rec_ok_unfold row_good_def)
  show ?thesis
  proof (cases "db' = db")
    case False
    then obtain d nxt where n: "rt_next t = Some d" "next_after t run_on = Inr nxt"
      "db' = write_template i (\<lambda>r. r\<lparr>rt_next := nxt\<rparr>) db"
      using assms(2) Some by (auto simp: advance_cursor_def split: option.splits if_splits)
    then have "template_ok (t\<lparr>rt_next := nxt\<rparr>)" using ok by (intro template_ok_cursor) (auto simp: template_ok_def)
    then show ?thesis
      by (intro rec_write_same [OF assms(1), of t i _ "\<lambda>r. r\<lparr>rt_next := nxt\<rparr>"]) (use t n(3) in simp_all)
  qed (simp add: assms(1))
qed

lemma insert_keeps:
  assumes "rec_ok (db, S)" "insert_period_invoice db t key run_on iv = Inr db'"
  shows "rec_ok (db', S)" "rd_templates db' = rd_templates db"
proof -
  show "rd_templates db' = rd_templates db" using assms(2) by (auto simp: insert_period_invoice_def split: if_splits)
  moreover have "periods_once db'"
  proof -
    have n: "\<forall>p \<in> set (rd_periods db). \<not> (pc_template p = rt_id t \<and> pc_key p = key)"
      and p: "\<exists>p. pc_template p = rt_id t \<and> pc_key p = key \<and> rd_periods db' = rd_periods db @ [p]"
      using assms(2) by (auto simp: insert_period_invoice_def period_row_def find_None_iff_all split: if_splits)
    from p obtain p where "pc_template p = rt_id t" "pc_key p = key" "rd_periods db' = rd_periods db @ [p]" by blast
    then show ?thesis using assms(1) n by (auto simp: rec_ok_unfold periods_once_def image_iff)
  qed
  ultimately show "rec_ok (db', S)" using assms(1) by (simp add: rec_ok_unfold)
qed

lemma generate_keeps:
  assumes "rec_ok (db, S)" "r \<in> set (rd_templates db)" "t = r\<lparr>rt_meta := m\<rparr>" "rt_status r \<noteq> ''ended''"
    "generate_one env db t run_on actor = Inr (iv, db')"
  shows "rec_ok (db', S)"
proof (cases "not_generatable_reason t = None")
  case False
  then show ?thesis using assms by (simp add: generate_one_def)
next
  case True
  let ?key = "period_key_for (rt_cadence t) run_on"
  let ?iv = "generated_invoice env t ?key (if actor = None then rt_author t else actor)"
  have id: "rt_id t = rt_id r" by (simp add: assms(3))
  have r: "template_ok r" using assms(1,2) by (simp add: rec_ok_unfold row_good_def)
  have ok0: "rec_ok (without_marker t db, S)"
  proof (cases "clear_generation_skip t = rt_meta t")
    case False
    show ?thesis
      by (rule rec_write_same [OF assms(1,2) refl, of _ "\<lambda>x. x\<lparr>rt_meta := clear_generation_skip t\<rparr>"])
        (use False id in \<open>simp_all add: without_marker_def\<close>)
  qed (simp add: without_marker_def assms(1))
  have r0: "\<exists>m'. r\<lparr>rt_meta := m'\<rparr> \<in> set (rd_templates (without_marker t db))"
  proof (cases "clear_generation_skip t = rt_meta t")
    case True
    then show ?thesis using assms(2) by (intro exI [of _ "rt_meta r"]) (simp add: without_marker_def)
  next
    case False
    then show ?thesis using assms(2) id by (intro exI [of _ "clear_generation_skip t"]) (auto simp: without_marker_def set_update_where)
  qed
  show ?thesis
  proof (cases "insert_period_invoice (without_marker t db) t ?key run_on ?iv")
    case (Inl e)
    then show ?thesis using True assms(5) ok0 by (simp add: generate_one_def Let_def)
  next
    case (Inr db1)
    then obtain nxt where n: "next_after t run_on = Inr nxt"
      "db' = write_template (rt_id t) (\<lambda>x. x\<lparr>rt_count := rt_count t + 1, rt_last_key := Some ?key,
               rt_last_at := Some (rv_now env), rt_next := nxt\<rparr>) (log_generated env t ?key actor ?iv db1)"
      using True assms(5) by (auto simp: generate_one_def Let_def)
    note i = insert_keeps [OF ok0 Inr]
    have ok2: "rec_ok (log_generated env t ?key actor ?iv db1, S)" by (rule rec_ok_frame [OF i(1)]) simp_all
    obtain m' where m': "r\<lparr>rt_meta := m'\<rparr> \<in> set (rd_templates db1)" using r0 i(2) by auto
    have nr: "next_after (r\<lparr>rt_meta := m'\<rparr>) run_on = Inr nxt" using n(1) by (simp add: assms(3))
    have "template_ok ((r\<lparr>rt_meta := m'\<rparr>)\<lparr>rt_count := rt_count t + 1, rt_last_key := Some ?key,
               rt_last_at := Some (rv_now env), rt_next := nxt\<rparr>)"
      by (rule template_ok_cursor(1) [OF nr]) (use r assms(4) in \<open>simp_all add: template_ok_def schedule_ok_def\<close>)
    then show ?thesis
      by (intro rec_write_same [OF ok2, of "r\<lparr>rt_meta := m'\<rparr>" "rt_id t" _ "\<lambda>x. x\<lparr>rt_count := rt_count t + 1,
              rt_last_key := Some ?key, rt_last_at := Some (rv_now env), rt_next := nxt\<rparr>"])
        (use m' n(2) id in simp_all)
  qed
qed

lemma handle_keeps:
  assumes "rec_ok (db, S)" "t \<in> set (rd_templates db)" "handle_non_generatable env db t key reason out = (out', db')"
  shows "rec_ok (db', S)"
proof -
  obtain n meta where rec: "record_generation_skip (rv_iso env) t key reason (rv_now env) = (n, meta)" by fastforce
  define db1 where "db1 = write_template (rt_id t) (\<lambda>r. r\<lparr>rt_meta := meta\<rparr>) db"
  have t1: "t\<lparr>rt_meta := meta\<rparr> \<in> set (rd_templates db1)" using assms(2) by (auto simp: db1_def set_update_where)
  have ok1: "rec_ok (db1, S)"
    by (rule rec_write_same [OF assms(1,2) refl, of _ "\<lambda>r. r\<lparr>rt_meta := meta\<rparr>"]) (simp_all add: db1_def)
  define db2 where "db2 = write_template (rt_id t) (\<lambda>r. r\<lparr>rt_status := ''paused''\<rparr>) db1"
  have ok2: "rec_ok (db2, S)"
    by (rule rec_write_same [OF ok1 t1, of "rt_id t" _ "\<lambda>r. r\<lparr>rt_status := ''paused''\<rparr>"])
      (simp_all add: db2_def template_ok_def schedule_ok_def)
  have "(rd_templates db' = rd_templates db1 \<or> rd_templates db' = rd_templates db2) \<and> rd_periods db' = rd_periods db"
    using assms(3) rec by (auto simp: handle_non_generatable_def Let_def db2_def db1_def split: if_splits)
  then show ?thesis using rec_ok_frame [OF ok1, of db'] rec_ok_frame [OF ok2, of db'] by (auto simp: db1_def db2_def)
qed

lemma sweep_row_keeps:
  assumes "rec_ok (db, S)" "t \<in> set (rd_templates db)" "rt_status t = ''active''"
    "sweep_row env out db t run_on = (out', Inr db')"
  shows "rec_ok (db', S)"
proof (cases "not_generatable_reason t")
  case (Some reason)
  then obtain o1 d1 where h: "handle_non_generatable env db t (period_key_for (rt_cadence t) run_on) reason out = (o1, d1)"
    "advance_cursor (rt_id t) run_on d1 = Inr db'"
    using assms(4) by (auto simp: sweep_row_def split: prod.splits)
  show ?thesis by (rule advance_keeps [OF handle_keeps [OF assms(1,2) h(1)] h(2)])
next
  case none: None
  let ?db0 = "without_marker t db" and ?t = "t\<lparr>rt_meta := clear_generation_skip t\<rparr>"
  have ok0: "rec_ok (?db0, S)" by (rule without_marker_keeps [OF assms(1,2)])
  have t0: "?t \<in> set (rd_templates ?db0)"
    using assms(2) by (cases "clear_generation_skip t = rt_meta t") (auto simp: without_marker_def set_update_where)
  show ?thesis
  proof (cases "period_row ?db0 (rt_id t) (period_key_for (rt_cadence t) run_on)")
    case (Some p)
    then have "advance_cursor (rt_id t) run_on ?db0 = Inr db'" using none assms(4) by (simp add: sweep_row_def Let_def)
    then show ?thesis by (rule advance_keeps [OF ok0])
  next
    case None
    obtain iv d1 where g: "generate_one env ?db0 ?t run_on None = Inr (iv, d1)" "advance_cursor (rt_id t) run_on d1 = Inr db'"
      using assms(4) none None by (cases "generate_one env ?db0 ?t run_on None") (auto simp: sweep_row_def Let_def)
    have "rec_ok (d1, S)"
      by (rule generate_keeps [OF ok0 t0 _ _ g(1), of "clear_generation_skip t"]) (use assms(3) in simp_all)
    then show ?thesis by (rule advance_keeps [OF _ g(2)])
  qed
qed

lemma sweep_template_keeps:
  assumes "rec_ok (db, S)" "sweep_template env (out, db) i = (out', db')"
  shows "rec_ok (db', S)"
proof (cases "find_template db i")
  case None
  then show ?thesis using assms by (simp add: sweep_template_def)
next
  case (Some t)
  show ?thesis
  proof (cases "still_due (rv_today env) t")
    case False
    then show ?thesis using assms by (simp add: sweep_template_def Some)
  next
    case True
    obtain o1 res where r: "sweep_row env out db t (the (rt_next t)) = (o1, res)" by fastforce
    show ?thesis
    proof (cases res)
      case (Inl e)
      then show ?thesis using assms r True by (simp add: sweep_template_def Some)
    next
      case (Inr d)
      then have "rec_ok (d, S)"
        using sweep_row_keeps [OF assms(1), of t env out "the (rt_next t)" o1 d] find_template_id [OF Some] True r
        by (simp add: still_due_def)
      then show ?thesis using assms(2) r Inr True by (simp add: sweep_template_def Some)
    qed
  qed
qed

lemma list_ex_changed: "list_ex P (changed_fields fs) \<longleftrightarrow> list_ex (\<lambda>(n, b). b \<and> P n) fs"
  by (induction fs) (auto simp: changed_fields_def)

lemma schedule_changes:
  "list_ex (\<lambda>f. f \<in> set SCHEDULE_FIELDS) (template_changes p v t) \<longleftrightarrow>
     sent_change (map_option the (tp_cadence p)) (rt_cadence t) \<or> sent_change (map_option the (tp_dop p)) (rt_dop t)
     \<or> sent_change (map_option the (tp_start p)) (rt_start t)"
  unfolding template_changes_def list_ex_changed SCHEDULE_FIELDS_def by simp

lemma unchanged: "\<not> sent_change s a \<Longrightarrow> get_or s a = a"
  by (cases s) (auto simp: sent_change_def)

lemma update_shape:
  assumes "update_template_from env t p db = Inr db'"
  obtains v nxt editors meta where "parse_vendor_id (get_or (tp_vendor p) None) = Inr v" "\<not> null_for_required p"
    "reseeded env (patched_template p v (resolve_vendor_name db v) t t) (template_changes p v t) = Inr nxt"
    "editors = (if material_edit_fields (template_changes p v t) = [] then rt_editors t
                else record_material_editor (patched_template p v (resolve_vendor_name db v) t t) (rv_user env))"
    "rd_templates db' = update_where (\<lambda>r. rt_id r = rt_id t)
       (\<lambda>r. (patched_template p v (resolve_vendor_name db v) t r)
              \<lparr>rt_next := set_column nxt (rt_next t) (rt_next r),
               rt_editors := set_column (Some editors) (rt_editors t) (rt_editors r),
               rt_meta := set_column (Some meta) (rt_meta t) (rt_meta r)\<rparr>) (rd_templates db)"
    "rd_periods db' = rd_periods db"
proof -
  obtain v where v: "parse_vendor_id (get_or (tp_vendor p) None) = Inr v" "\<not> null_for_required p"
    using assms by (auto simp: update_template_from_def)
  let ?t = "patched_template p v (resolve_vendor_name db v) t t" and ?changed = "template_changes p v t"
  obtain nxt where n: "reseeded env ?t ?changed = Inr nxt"
    using assms v by (auto simp: update_template_from_def Let_def)
  show ?thesis
    by (rule that [OF v n refl, of "if ?changed = [] then rt_meta t else clear_generation_skip_if_resolved ?t"])
      (use assms v n in \<open>auto simp: update_template_from_def Let_def\<close>)
qed

lemma patched_frame_template [simp]:
  "rt_id (patched_template p v name t r) = rt_id r" "rt_status (patched_template p v name t r) = rt_status r"
  "rt_next (patched_template p v name t r) = rt_next r" "rt_author (patched_template p v name t r) = rt_author r"
  "rt_editors (patched_template p v name t r) = rt_editors r"
  by (simp_all add: patched_template_def)

lemma patched_template_ok:
  assumes "template_ok t" "patch_valid p" "\<not> null_for_required p"
    "reseeded env (patched_template p v name t t) (template_changes p v t) = Inr nxt"
  shows "template_ok ((patched_template p v name t t)\<lparr>rt_next := get_or nxt (rt_next t), rt_editors := es, rt_meta := m\<rparr>)"
proof -
  let ?t = "patched_template p v name t t"
  have s: "schedule_ok ?t"
    using assms(1-3)
    by (auto simp: template_ok_def schedule_ok_def patched_template_def patch_valid_def null_for_required_def
        get_or_def split: option.splits)
  have on: "on_schedule (?t\<lparr>rt_next := get_or nxt (rt_next t)\<rparr>)" if a: "rt_status t = ''active''"
  proof (cases "list_ex (\<lambda>f. f \<in> set SCHEDULE_FIELDS) (template_changes p v t)")
    case True
    then obtain x where "seed_next_run_on ?t (later_date (rv_today env) (rt_start ?t)) = Inr x" "nxt = Some x"
      using assms(4) a by (auto simp: reseeded_def)
    then show ?thesis using seeded_on_schedule [OF _ s] by simp
  next
    case False
    then have "rt_cadence ?t = rt_cadence t" "rt_dop ?t = rt_dop t" "rt_start ?t = rt_start t"
      unfolding schedule_changes by (simp_all add: patched_template_def unchanged)
    moreover have "nxt = None" using False assms(4) by (simp add: reseeded_def)
    ultimately show ?thesis using assms(1) a by (simp add: template_ok_def on_schedule_def nth_run_def)
  qed
  have ended: "nxt = None" if "rt_status t = ''ended''" using that assms(4) by (simp add: reseeded_def)
  show ?thesis
    using s on ended assms(1) by (auto simp: template_ok_def schedule_ok_def on_schedule_def nth_run_def)
qed

text \<open>The fields the code counts as material cover every term of what a template raises.\<close>

lemma material_fields_nil:
  "material_edit_fields (template_changes p v t) = [] \<Longrightarrow>
     \<not> sent_change (link_sent (tp_vendor p) v) (rt_vendor t) \<and> \<not> sent_change (tp_amount p) (rt_amount t)
     \<and> \<not> sent_change (currency_sent p) (rt_currency t) \<and> \<not> sent_change (tp_gl p) (rt_gl t)
     \<and> \<not> sent_change (tp_cost_center p) (rt_cost_center t) \<and> \<not> sent_change (tp_department p) (rt_department t)
     \<and> \<not> sent_change (tp_project p) (rt_project t) \<and> \<not> sent_change (tp_po p) (rt_po t)
     \<and> \<not> sent_change (tp_terms p) (rt_terms t) \<and> \<not> sent_change (map_option the (tp_cadence p)) (rt_cadence t)
     \<and> \<not> sent_change (map_option the (tp_dop p)) (rt_dop t) \<and> \<not> sent_change (map_option the (tp_start p)) (rt_start t)
     \<and> \<not> sent_change (tp_end p) (rt_end t)"
proof -
  assume "material_edit_fields (template_changes p v t) = []"
  then have "\<not> list_ex (\<lambda>f. f \<in> set MATERIAL_EDIT_FIELDS) (template_changes p v t)"
    by (auto simp: material_edit_fields_def filter_empty_conv list_ex_iff)
  then show ?thesis unfolding template_changes_def list_ex_changed MATERIAL_EDIT_FIELDS_def by simp
qed

lemma shaping_is_material:
  assumes "raised_terms env ((patched_template p v name t t)\<lparr>rt_next := n, rt_editors := es, rt_meta := m\<rparr>) \<noteq> raised_terms env t"
  shows "material_edit_fields (template_changes p v t) \<noteq> []"
proof
  assume "material_edit_fields (template_changes p v t) = []"
  note same = material_fields_nil [OF this]
  then show False using assms
    by (simp add: raised_terms_def generated_invoice_def Let_def patched_template_def unchanged)
qed

lemma record_editor_set:
  "set (get_or (record_material_editor t u) []) = insert (uuid_str u) (set (get_or (rt_editors t) []))"
  by (auto simp: record_material_editor_def Let_def set_insort_key)

lemma edit_keeps:
  assumes "rec_ok (db, S)" "update_template env db i p = Inr db'" "patch_valid p"
  shows "rec_ok (db', if shaping_edit env db db' i then insert (i, rv_user env) S else S)" (is "rec_ok (db', ?S)")
proof -
  obtain t where g: "get_scoped env db i = Inr t" "update_template_from env t p db = Inr db'"
    using assms(2) by (auto simp: update_template_def)
  note t = get_scoped_row [OF g(1), THEN conjunct1] get_scoped_row [OF g(1), THEN conjunct2]
  obtain v nxt editors meta where u: "parse_vendor_id (get_or (tp_vendor p) None) = Inr v" "\<not> null_for_required p"
    "reseeded env (patched_template p v (resolve_vendor_name db v) t t) (template_changes p v t) = Inr nxt"
    "editors = (if material_edit_fields (template_changes p v t) = [] then rt_editors t
                else record_material_editor (patched_template p v (resolve_vendor_name db v) t t) (rv_user env))"
    "rd_templates db' = update_where (\<lambda>r. rt_id r = rt_id t)
       (\<lambda>r. (patched_template p v (resolve_vendor_name db v) t r)
              \<lparr>rt_next := set_column nxt (rt_next t) (rt_next r),
               rt_editors := set_column (Some editors) (rt_editors t) (rt_editors r),
               rt_meta := set_column (Some meta) (rt_meta t) (rt_meta r)\<rparr>) (rd_templates db)"
    "rd_periods db' = rd_periods db"
    by (rule update_shape [OF g(2)])
  have good: "\<forall>r \<in> set (rd_templates db). row_good S r" using assms(1) by (simp add: rec_ok_unfold)
  let ?f = "\<lambda>r. (patched_template p v (resolve_vendor_name db v) t r)
              \<lparr>rt_next := set_column nxt (rt_next t) (rt_next r),
               rt_editors := set_column (Some editors) (rt_editors t) (rt_editors r),
               rt_meta := set_column (Some meta) (rt_meta t) (rt_meta r)\<rparr>"
  have ids: "r = t" if "r \<in> set (rd_templates db)" "rt_id r = i" for r
    using unique_row [OF assms(1) that(1) t(1)] that(2) t(2) by simp
  have f0: "find_template db i = Some t"
  proof (cases "find_template db i")
    case None
    then show ?thesis using t by (auto simp: find_template_def find_None_iff_all)
  next
    case (Some r)
    then show ?thesis using ids find_template_id [OF Some] by simp
  qed
  have f1: "find_template db' i = Some (?f t)"
    using f0 unfolding find_template_def u(5) t(2) by (subst find_update_where) simp_all
  have m: "material_edit_fields (template_changes p v t) \<noteq> []" if "shaping_edit env db db' i"
    by (rule shaping_is_material [where env = env and p = p and v = v and t = t]) (use that f0 f1 in \<open>simp add: shaping_edit_def\<close>)
  have "template_ok (?f t)"
    using patched_template_ok [OF _ assms(3) u(2,3)] good t(1) by (simp add: row_good_def)
  moreover have "recorded (?f t) w" if "(i, w) \<in> ?S" for w
  proof -
    have "recorded t w \<or> (material_edit_fields (template_changes p v t) \<noteq> [] \<and> w = rv_user env)"
      using that good t m by (auto simp: row_good_def split: if_splits)
    then show ?thesis using u(4) record_editor_set [of "patched_template p v (resolve_vendor_name db v) t t" "rv_user env"]
      by (auto simp: recorded_def)
  qed
  ultimately have "row_good ?S (?f t)" using t(2) by (simp add: row_good_def)
  moreover have "row_good ?S r" if "r \<in> set (rd_templates db)" "rt_id r \<noteq> i" for r
    using good that by (auto simp: row_good_def)
  ultimately show ?thesis
    by (intro rec_write_keeps [OF assms(1) t u(5) [unfolded t(2)] u(6)]) (simp_all add: t(2))
qed

lemma template_create_keeps:
  assumes "rec_ok (db, S)" "create_template env db entity b = Inr (t, db')" "valid_date (tb_start b)" "day_of_month_ok (tb_dop b)"
    "rv_template env \<notin> rt_id ` set (rd_templates db) \<union> fst ` S"
  shows "rec_ok (db', insert (rt_id t, rv_user env) S)"
proof -
  have t: "rt_id t = rv_template env" "rt_author t = Some (rv_user env)" "rt_status t = ''active''"
    "rd_templates db' = rd_templates db @ [t]" "rd_periods db' = rd_periods db" "rt_start t = tb_start b" "rt_dop t = tb_dop b"
    using assms(2) by (auto simp: create_template_def Let_def)
  have s: "schedule_ok t" using assms(3,4) t(6,7) by (simp add: schedule_ok_def)
  have "seed_next_run_on t (tb_start b) = Inr (rt_next t)"
    using assms(2) by (auto simp: create_template_def Let_def seed_next_run_on_def)
  from seeded_on_schedule [OF this s] have "on_schedule t" by simp
  then have "row_good (insert (rt_id t, rv_user env) S) t"
    using s t assms(5) by (force simp: row_good_def template_ok_def recorded_def)
  moreover have "row_good (insert (rt_id t, rv_user env) S) r" if "r \<in> set (rd_templates db)" for r
  proof -
    have "rt_id r \<noteq> rt_id t" using assms(5) that t(1) by force
    then show ?thesis using assms(1) that by (auto simp: row_good_def rec_ok_unfold)
  qed
  ultimately show ?thesis using assms(1,5) t by (auto simp: rec_ok_unfold periods_once_def)
qed

lemma template_delete_keeps:
  assumes "rec_ok (db, S)" "delete_template env db i = Inr db'"
  shows "rec_ok (db', S)"
proof -
  have "rd_templates db' = delete_where (\<lambda>r. rt_id r = i) (rd_templates db)" "rd_periods db' = rd_periods db"
    using assms(2) by (auto simp: delete_template_def)
  then show ?thesis using assms(1) by (simp add: rec_ok_unfold periods_once_def distinct_map_filter delete_where_def)
qed

lemma lifecycle_keeps:
  assumes "rec_ok (db, S)" "get_scoped env db i = Inr t"
    "rd_templates db' = update_where (\<lambda>r. rt_id r = rt_id t) f (rd_templates db)" "rd_periods db' = rd_periods db"
    "rt_id (f t) = rt_id t" "rt_author (f t) = rt_author t" "rt_editors (f t) = rt_editors t" "template_ok t \<Longrightarrow> template_ok (f t)"
  shows "rec_ok (db', S)"
  using get_scoped_row [OF assms(2)] by (intro rec_write_same [OF assms(1) _ refl assms(3-8)]) simp

lemma audit_lifecycle_simps [simp]:
  "rd_templates (audit_lifecycle env i new action db) = rd_templates db" "rd_periods (audit_lifecycle env i new action db) = rd_periods db"
  by (simp_all add: audit_lifecycle_def)

lemma pause_keeps:
  assumes "rec_ok (db, S)" "get_scoped env db i = Inr t" "pause_template_from env t db = Inr db'"
  shows "rec_ok (db', S)"
  by (rule lifecycle_keeps [OF assms(1,2), of db' "\<lambda>r. r\<lparr>rt_status := ''paused''\<rparr>"])
    (use assms(3) in \<open>auto simp: pause_template_from_def template_ok_def schedule_ok_def\<close>)

lemma end_keeps:
  assumes "rec_ok (db, S)" "get_scoped env db i = Inr t" "end_template_from env t db = Inr db'"
  shows "rec_ok (db', S)"
  by (rule lifecycle_keeps [OF assms(1,2), of db' "\<lambda>r. r\<lparr>rt_status := ''ended'', rt_next := set_column (Some None) (rt_next t) (rt_next r)\<rparr>"])
    (use assms(3) in \<open>auto simp: end_template_from_def template_ok_def schedule_ok_def\<close>)

lemma template_resume_keeps:
  assumes "rec_ok (db, S)" "get_scoped env db i = Inr t" "resume_template_from env t db = Inr db'"
  shows "rec_ok (db', S)"
proof -
  obtain nxt where n: "seed_next_run_on t (later_date (rv_today env) (rt_start t)) = Inr nxt"
    "db' = audit_lifecycle env (rt_id t) ''active'' ''recurring_template.resumed''
       (write_template (rt_id t)
          (\<lambda>r. r\<lparr>rt_status := ''active'', rt_next := set_column (Some nxt) (rt_next t) (rt_next r),
                 rt_meta := set_column (Some (clear_generation_skip_if_resolved t)) (rt_meta t) (rt_meta r)\<rparr>) db)"
    using assms(3) by (auto simp: resume_template_from_def)
  have "template_ok (t\<lparr>rt_status := ''active'', rt_next := nxt, rt_meta := m\<rparr>)" if "template_ok t" for m
    using seeded_on_schedule [OF n(1)] that by (auto simp: template_ok_def schedule_ok_def on_schedule_def nth_run_def)
  then show ?thesis
    by (intro lifecycle_keeps [OF assms(1,2), of db' "\<lambda>r. r\<lparr>rt_status := ''active'', rt_next := set_column (Some nxt) (rt_next t) (rt_next r),
                 rt_meta := set_column (Some (clear_generation_skip_if_resolved t)) (rt_meta t) (rt_meta r)\<rparr>"])
      (simp_all add: n(2))
qed

lemma now_keeps:
  assumes "rec_ok (db, S)" "get_scoped env db i = Inr t" "generate_now_from env t db = Inr (res, db')"
  shows "rec_ok (db', S)"
proof -
  note t = get_scoped_row [OF assms(2), THEN conjunct1]
  obtain run_on where r: "rt_status t \<noteq> ''ended''" "current_due_run_on (rt_cadence t) (rt_dop t) (rv_today env) (rt_start t) = Inr run_on"
    using assms(3) by (auto simp: generate_now_from_def)
  show ?thesis
  proof (cases "period_invoice db (rt_id t) (period_key_for (rt_cadence t) run_on)")
    case (Some iv)
    then have "db' = without_marker t db" using assms(3) r by (auto simp: generate_now_from_def Let_def)
    then show ?thesis using without_marker_keeps [OF assms(1) t] by simp
  next
    case None
    then obtain iv where "generate_one env db t run_on (Some (rv_user env)) = Inr (iv, db')"
      using assms(3) r by (auto simp: generate_now_from_def Let_def split: option.splits)
    then show ?thesis by (intro generate_keeps [OF assms(1) t, of t "rt_meta t"]) (use r(1) in simp_all)
  qed
qed

lemma rec_step_keeps: "rec_step s s' \<Longrightarrow> rec_ok s \<Longrightarrow> rec_ok s'"
  by (induction rule: rec_step.induct)
    (blast intro: template_create_keeps edit_keeps template_delete_keeps pause_keeps template_resume_keeps end_keeps now_keeps sweep_template_keeps)+

interpretation recurring: step_system "\<lambda>s. rd_templates (fst s) = [] \<and> rd_periods (fst s) = [] \<and> snd s = {}" rec_step rec_ok
proof unfold_locales
  show "rec_ok s" if "rd_templates (fst s) = [] \<and> rd_periods (fst s) = [] \<and> snd s = {}" for s
    using that by (cases s) (simp add: rec_ok_unfold periods_once_def)
  show "rec_ok s'" if "rec_ok s" "rec_step s s'" for s s' by (rule rec_step_keeps [OF that(2,1)])
qed

section \<open>Properties\<close>

lemma set_or_none: "set (get_or (if xs = [] then None else Some (sort (remdups xs))) []) = set xs"
  by simp

lemma implicated_set:
  "set (get_or (implicated_actor_ids t up) []) =
     {s \<in> set (get_or (rt_editors t) []) \<union> (case rt_author t of None \<Rightarrow> {} | Some u \<Rightarrow> {uuid_str u}).
        up = None \<or> s \<noteq> uuid_str (the up)}"
  unfolding implicated_actor_ids_def Let_def set_or_none by (auto split: option.split)

text \<open>
  C15: Whoever wrote a recurring template, or by an edit changed a term of what it raises (whom it pays,
  how much, in which currency, under which coding, order, terms and project, for which entity, on which
  schedule), and whoever pressed generate-now, is refused by segregation of duties on the invoice it
  raises. This holds in every tenant the routes and the sweep can reach as long as the edits of a template
  do not overlap: an edit that read its row before another was written forgets the other's editor.
\<close>

theorem shapers_never_approve_what_it_raises:
  assumes "recurring.reached (db, S)" "find_template db i = Some t"
    and "generate_one env db (t\<lparr>rt_meta := m\<rparr>) run_on actor = Inr (Some iv, db')"
    and "period_row db i (period_key_for (rt_cadence t) run_on) = None"
    and "(i, u) \<in> S \<or> actor = Some u" "c_require_segregation cfg \<noteq> Some (JBool False)"
  shows "check_segregation iv u cfg = Inl (HTTPException 403 ''Segregation of duties'')"
proof -
  note t = find_template_id [OF assms(2)]
  let ?up = "if actor = None then rt_author t else actor" and ?key = "period_key_for (rt_cadence t) run_on"
  have "iv = generated_invoice env (t\<lparr>rt_meta := m\<rparr>) ?key ?up"
    using assms(3,4) t
    by (auto simp: generate_one_def Let_def insert_period_invoice_def period_row_def split: if_splits)
  then have iv: "uploaded_by_id iv = ?up" "segregation_actor_ids iv = implicated_actor_ids t ?up"
    by (simp_all add: generated_invoice_def implicated_actor_ids_def)
  have "recorded t u \<or> actor = Some u"
    using recurring.reached_keeps [OF assms(1)] t assms(5) by (auto simp: rec_ok_unfold row_good_def)
  then have "?up = Some u \<or> uuid_str u \<in> set (get_or (implicated_actor_ids t ?up) [])"
    by (cases "?up = Some u") (auto simp: recorded_def implicated_set split: option.splits)
  then show ?thesis using assms(6) iv by (auto simp: check_segregation_def violates_segregation_def)
qed

text \<open>
  C25: However creations, edits, pauses, generate-now and sweeps follow each other, a template has at most
  one invoice for each of its periods, an active template's cursor is an occurrence of the schedule it now
  has, on or after its start, and an ended one has none.
\<close>

theorem periods_bill_once_on_schedule:
  assumes "recurring.reached (db, S)"
  shows "distinct (map (\<lambda>p. (pc_template p, pc_key p)) (rd_periods db))
    \<and> list_all (\<lambda>t. (rt_status t = ''active'' \<longrightarrow> on_schedule t) \<and> (rt_status t = ''ended'' \<longrightarrow> rt_next t = None)) (rd_templates db)"
  using recurring.reached_keeps [OF assms]
  by (simp add: rec_ok_unfold periods_once_def row_good_def template_ok_def list_all_iff)

text \<open>
  C16: In a tenant with no more active templates than a sweep takes, sweeps that follow each other with
  no other route in between catch up: an active template that has its vendor and amount, is due and
  missed some periods has an invoice for its period \<open>j\<close> once it was swept as often as periods came due
  up to that one, whatever the other templates of the tenant do in the same sweeps. The period must have
  come due by each sweep's clock and not lie past the end date; dates stay below the calendar's last years.
\<close>

theorem sweeps_bill_every_due_period:
  assumes "recurring.reached (db, S)" "find_template db i = Some t"
    "not_generatable_reason t = None" "rt_status t = ''active''"
    "rt_next t = Some (nth_run t k)" "k \<le> j" "j - k < length es"
    "list_all (\<lambda>env. ordinal (nth_run t j) \<le> ordinal (rv_today env)) es" "\<not> past_end t (nth_run t j)"
    "year (nth_run t j) < 9990" "length (filter (\<lambda>t. rt_status t = ''active'') (rd_templates db)) \<le> cap"
  shows "period_row (tenant_sweeps es cap db) i (period_key_for (rt_cadence t) (nth_run t j)) \<noteq> None"
proof -
  have "month (nth_run t j) \<le> 12"
    using pos_mod_bound [of 12 "month_index (rt_start t) + int j * months_per_period (rt_cadence t)"]
    by (simp add: nth_run_def occurrence_def slot_def)
  then have "month_index (nth_run t j) + 24 < 120000" using assms(10) by (simp add: month_index_def)
  moreover have "distinct (map rt_id (rd_templates db))" "schedule_ok t"
    using recurring.reached_keeps [OF assms(1)] find_template_id [OF assms(2)]
    by (auto simp: rec_ok_unfold row_good_def template_ok_def)
  ultimately show ?thesis
    using assms(2-9,11) by (intro tenant_sweeps_reach) (simp_all add: list_all_iff active_count_def)
qed

section \<open>A tenant to exercise them on\<close>

definition sample_rec_env :: rec_env where
  "sample_rec_env =
     \<lparr>rv_now = 5, rv_today = \<lparr>year = 2026, month = 2, day = 15\<rparr>, rv_iso = (\<lambda>_. ''now''), rv_user = 20, rv_org = 1,
      rv_scope = None, rv_audit_key = 90, rv_template = 70, rv_invoice = (\<lambda>i. 71), rv_correlation = (\<lambda>i. 72),
      rv_instance = (\<lambda>i. 73), rv_definition = (\<lambda>i. 74), rv_tail = (\<lambda>i. ''ab12cd''), rv_variant = (\<lambda>iv d. None)\<rparr>"

definition sample_rec_db :: rec_db where
  "sample_rec_db =
     \<lparr>rd_core = \<lparr>invoices = [], definitions = [], instances = [], steps = [], users = [], audit = [],
                exceptions = [], outbox = []\<rparr>,
      rd_templates = [], rd_periods = [], rd_vendors = [\<lparr>sp_id = 12, sp_name = ''Acme'', sp_entity = None\<rparr>]\<rparr>"

definition sample_template_body :: template_body where
  "sample_template_body =
     \<lparr>tb_name = ''Rent'', tb_vendor = Some (uuid_str 12), tb_description = None, tb_amount = Some 100,
      tb_currency = ''EUR'', tb_gl = None, tb_cost_center = None, tb_department = None, tb_project = None, tb_po = None,
      tb_terms = None, tb_cadence = ''monthly'', tb_dop = 1, tb_start = \<lparr>year = 2026, month = 1, day = 1\<rparr>, tb_end = None,
      tb_tolerance = None, tb_notes = None\<rparr>"

lemma sample_start: "valid_date \<lparr>year = 2026, month = 1, day = 1\<rparr>" "day_of_month_ok 1"
  by (simp_all add: valid_date_def days_in_month_def day_of_month_ok_def)

lemma sample_first_run:
  "compute_next_run_on ''monthly'' 1 \<lparr>year = 2026, month = 1, day = 1\<rparr> \<lparr>year = 2026, month = 1, day = 1\<rparr> None
     = Inr (Some \<lparr>year = 2026, month = 1, day = 1\<rparr>)"
  by (simp add: compute_next_run_on_def walk_to_stop date_eval)

lemma sample_created:
  obtains t db where "create_template sample_rec_env sample_rec_db None sample_template_body = Inr (t, db)"
    "find_template db 70 = Some t" "rd_periods db = []" "rt_id t = 70" "rt_cadence t = ''monthly''" "rt_dop t = 1"
    "rt_start t = \<lparr>year = 2026, month = 1, day = 1\<rparr>" "rt_end t = None" "rt_status t = ''active''"
    "rt_next t = Some \<lparr>year = 2026, month = 1, day = 1\<rparr>" "not_generatable_reason t = None" "rt_meta t = None"
    "rt_author t = Some 20"
proof -
  have "uuid_str (12 :: uuid) \<noteq> []" by (simp add: uuid_str_def Let_def)
  then have p: "parse_vendor_id (Some (uuid_str 12)) = Inr (Some 12)" by (simp add: parse_vendor_id_def)
  obtain t db where c: "create_template sample_rec_env sample_rec_db None sample_template_body = Inr (t, db)"
    by (simp add: create_template_def sample_template_body_def sample_rec_env_def sample_rec_db_def p Let_def
        seed_next_run_on_def sample_first_run vendor_exists_def)
  show ?thesis
    by (rule that [OF c])
      (use c in \<open>auto simp: create_template_def sample_template_body_def sample_rec_env_def sample_rec_db_def p Let_def
        seed_next_run_on_def sample_first_run vendor_exists_def resolve_vendor_name_def find_template_def
        not_generatable_reason_def\<close>)
qed

lemma sample_reached:
  assumes "create_template sample_rec_env sample_rec_db None sample_template_body = Inr (t, db)" "rt_id t = 70"
  shows "recurring.reached (db, {(70, 20)})"
proof -
  have s: "recurring.reached (sample_rec_db, {})"
    by (rule recurring.reached_start) (simp add: sample_rec_db_def)
  have "rec_step (sample_rec_db, {}) (db, insert (rt_id t, rv_user sample_rec_env) {})"
    by (rule rec_step.create [OF assms(1)])
      (simp_all add: sample_template_body_def sample_rec_db_def sample_start)
  from recurring.reached_move [OF s this] show ?thesis by (simp add: assms(2) sample_rec_env_def)
qed

lemma sample_runs:
  assumes "rt_cadence t = ''monthly''" "rt_dop t = 1" "rt_start t = \<lparr>year = 2026, month = 1, day = 1\<rparr>"
  shows "nth_run t 0 = \<lparr>year = 2026, month = 1, day = 1\<rparr>" "nth_run t 1 = \<lparr>year = 2026, month = 2, day = 1\<rparr>" "schedule_ok t"
  using assms sample_start
  by (simp_all add: nth_run_def occurrence_def slot_def month_index_def months_per_period_def schedule_ok_def)

text \<open>The author of a monthly rent template may not approve the invoice a sweep raises from it.\<close>

theorem shapers_witness:
  "\<exists>iv db (t :: template) db'. recurring.reached (db, {(70, 20)}) \<and> generate_one sample_rec_env db t \<lparr>year = 2026, month = 1, day = 1\<rparr> None
       = Inr (Some iv, db')
     \<and> check_segregation iv 20 empty_cfg = Inl (HTTPException 403 ''Segregation of duties'')"
proof -
  let ?d = "\<lparr>year = 2026, month = 1, day = 1\<rparr> :: date"
  obtain t db where c: "create_template sample_rec_env sample_rec_db None sample_template_body = Inr (t, db)"
    "find_template db 70 = Some t" "rd_periods db = []" "rt_id t = 70" "rt_cadence t = ''monthly''" "rt_dop t = 1"
    "rt_start t = ?d" "rt_end t = None" "rt_status t = ''active''"
    "rt_next t = Some ?d" "not_generatable_reason t = None" "rt_meta t = None" "rt_author t = Some 20"
    by (rule sample_created)
  note r = sample_reached [OF c(1,4)]
  have p: "period_row db (rt_id t) (period_key_for (rt_cadence t) ?d) = None" by (simp add: period_row_def c(3))
  have "next_after t (nth_run t 0) = Inr (if past_end t (nth_run t (Suc 0)) then None else Some (nth_run t (Suc 0)))"
    by (rule next_after_run)
      (use sample_runs [OF c(5-7)] in \<open>simp_all add: month_index_def\<close>)
  then have n: "next_after t ?d = Inr (if past_end t (nth_run t (Suc 0)) then None else Some (nth_run t (Suc 0)))"
    by (simp add: sample_runs(1) [OF c(5-7)])
  have mk: "clear_generation_skip t = rt_meta t" by (simp add: clear_generation_skip_def c(12))
  have f: "find_template db (rt_id t) = Some t" by (simp add: c(2,4))
  obtain iv db' where g: "generate_one sample_rec_env db t ?d None = Inr (Some iv, db')"
    by (rule generate_one_new [OF c(11) p n f mk])
  have g': "generate_one sample_rec_env db (t\<lparr>rt_meta := rt_meta t\<rparr>) ?d None = Inr (Some iv, db')" using g by simp
  have "check_segregation iv 20 empty_cfg = Inl (HTTPException 403 ''Segregation of duties'')"
    by (rule shapers_never_approve_what_it_raises [OF r c(2) g']) (use p c(4) in \<open>simp_all add: empty_cfg_def\<close>)
  then have "recurring.reached (db, {(70, 20)}) \<and> generate_one sample_rec_env db t ?d None = Inr (Some iv, db')
     \<and> check_segregation iv 20 empty_cfg = Inl (HTTPException 403 ''Segregation of duties'')" using r g by blast
  then show ?thesis by (intro exI)
qed

theorem periods_witness:
  "\<exists>db. recurring.reached (db, {(70, 20)}) \<and> map rt_id (rd_templates db) = [70]
     \<and> list_all (\<lambda>t. (rt_status t = ''active'' \<longrightarrow> on_schedule t) \<and> (rt_status t = ''ended'' \<longrightarrow> rt_next t = None)) (rd_templates db)"
proof -
  obtain t db where c: "create_template sample_rec_env sample_rec_db None sample_template_body = Inr (t, db)" "rt_id t = 70"
    by (rule sample_created)
  have "rd_templates db = [t]" using c(1) by (auto simp: create_template_def Let_def sample_rec_db_def)
  then show ?thesis
    using periods_bill_once_on_schedule [OF sample_reached [OF c]] sample_reached [OF c] c(2) by (intro exI [of _ db]) simp
qed

text \<open>Two sweeps in the middle of February bill January and February.\<close>

theorem sweeps_witness:
  "\<exists>db. recurring.reached (db, {(70, 20)})
     \<and> period_row (tenant_sweeps [sample_rec_env, sample_rec_env] 1 db) 70
         (period_key_for ''monthly'' \<lparr>year = 2026, month = 2, day = 1\<rparr>) \<noteq> None"
proof -
  let ?d = "\<lparr>year = 2026, month = 1, day = 1\<rparr> :: date"
  obtain t db where c: "create_template sample_rec_env sample_rec_db None sample_template_body = Inr (t, db)"
    "find_template db 70 = Some t" "rd_periods db = []" "rt_id t = 70" "rt_cadence t = ''monthly''" "rt_dop t = 1"
    "rt_start t = ?d" "rt_end t = None" "rt_status t = ''active''"
    "rt_next t = Some ?d" "not_generatable_reason t = None" "rt_meta t = None" "rt_author t = Some 20"
    by (rule sample_created)
  note runs = sample_runs [OF c(5-7)]
  have n: "rt_next t = Some (nth_run t 0)" by (simp add: c(10) runs(1))
  have today: "list_all (\<lambda>env. ordinal (nth_run t 1) \<le> ordinal (rv_today env)) [sample_rec_env, sample_rec_env]"
    by (simp add: runs(2) sample_rec_env_def date_eval del: One_nat_def)
  have e: "\<not> past_end t (nth_run t 1)" by (simp add: past_end_def c(8))
  have "rd_templates db = [t]" using c(1) by (auto simp: create_template_def Let_def sample_rec_db_def)
  then have one: "length (filter (\<lambda>t. rt_status t = ''active'') (rd_templates db)) \<le> 1" by simp
  note r = sample_reached [OF c(1,4)]
  have "period_row (tenant_sweeps [sample_rec_env, sample_rec_env] 1 db) 70 (period_key_for (rt_cadence t) (nth_run t 1)) \<noteq> None"
    by (rule sweeps_bill_every_due_period [OF r c(2,11,9) n _ _ today e _ one]) (simp_all add: runs(2) del: One_nat_def)
  then have "period_row (tenant_sweeps [sample_rec_env, sample_rec_env] 1 db) 70
      (period_key_for ''monthly'' \<lparr>year = 2026, month = 2, day = 1\<rparr>) \<noteq> None"
    unfolding runs(2) c(5) .
  then show ?thesis using r by (intro exI [of _ db] conjI)
qed

section \<open>Findings\<close>

text \<open>An edit writes the editors it computed from the row as it read it: an editor recorded in between by
  somebody else's edit is forgotten, and may then approve what the template raises.\<close>

lemma racing_edit_forgets_the_other_editor:
  assumes "update_template_from env snap p db = Inr db'" "parse_vendor_id (get_or (tp_vendor p) None) = Inr v"
    and "material_edit_fields (template_changes p v snap) \<noteq> []"
    and "uuid_str (rv_user env) \<notin> set (get_or (rt_editors snap) [])"
    and "uuid_str u \<notin> set (get_or (rt_editors snap) [])" "u \<noteq> rv_user env"
    and "r \<in> set (rd_templates db')" "rt_id r = rt_id snap"
  shows "uuid_str u \<notin> set (get_or (rt_editors r) [])"
proof -
  obtain v' nxt editors meta where s: "parse_vendor_id (get_or (tp_vendor p) None) = Inr v'"
    "editors = (if material_edit_fields (template_changes p v' snap) = [] then rt_editors snap
                else record_material_editor (patched_template p v' (resolve_vendor_name db v') snap snap) (rv_user env))"
    "rd_templates db' = update_where (\<lambda>r. rt_id r = rt_id snap)
       (\<lambda>r. (patched_template p v' (resolve_vendor_name db v') snap r)
              \<lparr>rt_next := set_column nxt (rt_next snap) (rt_next r),
               rt_editors := set_column (Some editors) (rt_editors snap) (rt_editors r),
               rt_meta := set_column (Some meta) (rt_meta snap) (rt_meta r)\<rparr>) (rd_templates db)"
    by (rule update_shape [OF assms(1)])
  have e: "editors = record_material_editor (patched_template p v' (resolve_vendor_name db v') snap snap) (rv_user env)"
    using s(1,2) assms(2,3) by simp
  then have set: "set (get_or editors []) = insert (uuid_str (rv_user env)) (set (get_or (rt_editors snap) []))"
    by (simp add: record_editor_set)
  then have "editors \<noteq> rt_editors snap" using assms(4) by auto
  then have "rt_editors r = editors" using assms(7,8) s(3) by (auto simp: set_update_where set_column_def sent_change_def)
  then show ?thesis using set assms(5,6) by auto
qed

text \<open>An edit of nothing but the end date leaves the cursor where it was, so a schedule that had run out
  never starts again.\<close>

lemma end_date_edit_keeps_the_cursor:
  assumes "update_template_from env t p db = Inr db'" "t \<in> set (rd_templates db)" "distinct (map rt_id (rd_templates db))"
    and "tp_cadence p = None" "tp_dop p = None" "tp_start p = None"
    and "r \<in> set (rd_templates db')" "rt_id r = rt_id t"
  shows "rt_next r = rt_next t"
proof -
  obtain v nxt editors meta where s:
    "reseeded env (patched_template p v (resolve_vendor_name db v) t t) (template_changes p v t) = Inr nxt"
    "rd_templates db' = update_where (\<lambda>r. rt_id r = rt_id t)
       (\<lambda>r. (patched_template p v (resolve_vendor_name db v) t r)
              \<lparr>rt_next := set_column nxt (rt_next t) (rt_next r),
               rt_editors := set_column (Some editors) (rt_editors t) (rt_editors r),
               rt_meta := set_column (Some meta) (rt_meta t) (rt_meta r)\<rparr>) (rd_templates db)"
    by (rule update_shape [OF assms(1)])
  have "\<not> list_ex (\<lambda>f. f \<in> set SCHEDULE_FIELDS) (template_changes p v t)"
    unfolding schedule_changes using assms(4-6) by (simp add: sent_change_def)
  then have "nxt = None" using s(1) by (simp add: reseeded_def)
  then obtain x where x: "x \<in> set (rd_templates db)" "rt_id x = rt_id t" "rt_next r = rt_next x"
    using assms(7,8) s(2) by (auto simp: set_update_where)
  then have "x = t" using assms(2,3) by (metis distinct_map inj_onD)
  then show ?thesis using x(3) by simp
qed

text \<open>Nor does the sweep look at the end date: a cursor an earlier end date left behind is billed.\<close>

lemma sweep_bills_past_the_end:
  assumes "find_template db i = Some t" "not_generatable_reason t = None" "rt_status t = ''active''" "schedule_ok t"
    "rt_next t = Some (nth_run t k)" "ordinal (nth_run t k) \<le> ordinal (rv_today env)" "past_end t (nth_run t k)"
    "month_index (nth_run t (Suc k)) + 12 < 120000"
  shows "period_row (snd (sweep_template env (no_outcome, db) i)) i (period_key_for (rt_cadence t) (nth_run t k)) \<noteq> None"
proof -
  have i: "month_index (nth_run t k) < 120000" using nth_run_index_mono [of k "Suc k" t] assms(8) by simp
  have "ordinal (nth_run t k) < ordinal (nth_run t (Suc k))"
    using i assms(8) by (subst nth_run_less [OF assms(4)]) simp_all
  then have "past_end t (nth_run t (Suc k))" using assms(7) by (auto simp: past_end_def split: option.splits)
  then have "next_after t (nth_run t k) = Inr None" using next_after_run [OF assms(4,8)] by simp
  from sweep_bills [OF assms(1-3,5,6) this] show ?thesis by (metis (no_types, lifting) option.case(1) snd_conv)
qed

text \<open>Generate-now bills the current period and moves the cursor past it: the earlier periods the sweep
  had not reached yet are never billed and no skip is recorded.\<close>

lemma generate_now_jumps_missed_periods:
  assumes "generate_now_from env t db = Inr ((iv, key, True), db')" "find_template db (rt_id t) = Some t"
    and "current_due_run_on (rt_cadence t) (rt_dop t) (rv_today env) (rt_start t) = Inr (nth_run t k)"
    and "period_row db (rt_id t) (period_key_for (rt_cadence t) (nth_run t k)) = None"
    and "next_after t (nth_run t k) = Inr nxt" "clear_generation_skip t = rt_meta t" "not_generatable_reason t = None"
  shows "map_option rt_next (find_template db' (rt_id t)) = Some nxt"
proof -
  obtain iv' db1 where g: "generate_one env db t (nth_run t k) (Some (rv_user env)) = Inr (Some iv', db1)"
    "find_template db1 (rt_id t) = Some (t\<lparr>rt_count := rt_count t + 1, rt_last_key := Some (period_key_for (rt_cadence t) (nth_run t k)),
       rt_last_at := Some (rv_now env), rt_next := nxt\<rparr>)"
    by (rule generate_one_new [OF assms(7,4,5,2,6)])
  have "period_invoice db (rt_id t) (period_key_for (rt_cadence t) (nth_run t k)) = None"
    by (simp add: period_invoice_def assms(4))
  then have "db' = db1" using assms(1,3) g(1) by (auto simp: generate_now_from_def Let_def)
  then show ?thesis using g(2) by simp
qed

text \<open>A template may name a vendor of a sibling entity, and everything it raises then pays that vendor.\<close>

lemma template_takes_a_sibling_vendor:
  assumes "list_ex (\<lambda>s. sp_id s = v \<and> sp_entity s = Some other) (rd_vendors db)" "other \<noteq> mine"
    and "tb_vendor b = Some (uuid_str v)" "valid_date (tb_start b)" "day_of_month_ok (tb_dop b)" "year (tb_start b) < 9998"
  shows "\<exists>(t :: template) db'. create_template env db (Some mine) b = Inr (t, db') \<and> rt_vendor t = Some v \<and> rt_entity t = Some mine"
proof -
  have "uuid_str v \<noteq> []" by (simp add: uuid_str_def Let_def)
  then have p: "parse_vendor_id (tb_vendor b) = Inr (Some v)" using assms(3) by (simp add: parse_vendor_id_def)
  have "month_index (tb_start b) + 12 < 120000" using assms(4,6) by (simp add: month_index_def valid_date_def)
  from compute_next_run_on_finds [OF assms(4,4,5) this this, of "tb_cadence b" "tb_end b"]
  obtain nxt where n: "compute_next_run_on (tb_cadence b) (tb_dop b) (tb_start b) (tb_start b) (tb_end b) = Inr nxt" by blast
  have "vendor_exists db (Some v)" using assms(1) by (auto simp: vendor_exists_def list_ex_iff)
  then show ?thesis by (simp add: create_template_def p Let_def seed_next_run_on_def n)
qed

end
