(* ===== verification/Bank_Import.thy ===== *)
theory Bank_Import
  imports Banking Calendar Settlement_Record
begin

text \<open>
  Reading a bank statement (the CSV half of services/bank_reconciliation.py and utils/dates.py): dates in the formats banks write, amounts in theirs, the columns found by their headers.
  The cells come from the standard csv reader; a date is a day number since 1970-01-01.
\<close>

section \<open>Dates as banks write them\<close>

text \<open>\<open>%Y\<close> is four digits, \<open>%m\<close> and \<open>%d\<close> one or two; \<open>%d\<close> also takes a blank before a single digit.\<close>

definition strp_number :: "string \<Rightarrow> int option" where
  "strp_number s = (if s \<noteq> [] \<and> length s \<le> 2 \<and> list_all is_digit s then Some (int (digits_val s)) else None)"

definition strp_year :: "string \<Rightarrow> int option" where
  "strp_year s = (if length s = 4 \<and> list_all is_digit s then Some (int (digits_val s)) else None)"

definition strp_day :: "string \<Rightarrow> int option" where
  "strp_day s = strp_number (if length s = 2 \<and> hd s = CHR '' '' then tl s else s)"

definition date_of_parts :: "int option \<Rightarrow> int option \<Rightarrow> int option \<Rightarrow> date option" where
  "date_of_parts y m d =
     (if y = None \<or> m = None \<or> d = None then None
      else let x = \<lparr>year = the y, month = the m, day = the d\<rparr> in if valid_date x then Some x else None)"

definition strptime_ymd :: "char \<Rightarrow> string \<Rightarrow> date option" where
  "strptime_ymd sep raw =
     (case split_on sep raw of
        [y, m, d] \<Rightarrow> date_of_parts (strp_year y) (strp_number m) (strp_day d)
      | _ \<Rightarrow> None)"

definition strptime_dmy :: "char \<Rightarrow> string \<Rightarrow> date option" where
  "strptime_dmy sep raw =
     (case split_on sep raw of
        [d, m, y] \<Rightarrow> date_of_parts (strp_year y) (strp_number m) (strp_day d)
      | _ \<Rightarrow> None)"

definition strptime_mdy :: "char \<Rightarrow> string \<Rightarrow> date option" where
  "strptime_mdy sep raw =
     (case split_on sep raw of
        [m, d, y] \<Rightarrow> date_of_parts (strp_year y) (strp_number m) (strp_day d)
      | _ \<Rightarrow> None)"

definition parse_ambiguous_date :: "string \<Rightarrow> bool \<Rightarrow> date option" where
  "parse_ambiguous_date raw day_first =
     (let r = py_strip raw
      in if r = [] then None
         else if CHR ''/'' \<notin> set r \<and> CHR ''-'' \<notin> set r then None
         else let sep = (if CHR ''/'' \<in> set r then CHR ''/'' else CHR ''-'')
              in if day_first then first_some [strptime_dmy sep r, strptime_mdy sep r]
                 else first_some [strptime_mdy sep r, strptime_dmy sep r])"

definition bank_date :: "string \<Rightarrow> bool \<Rightarrow> date option" where
  "bank_date raw day_first =
     (if raw = [] then None
      else first_some [strptime_ymd (CHR ''-'') (py_strip raw), strptime_ymd (CHR ''/'') (py_strip raw),
                       parse_ambiguous_date (py_strip raw) day_first])"

definition day_number :: "date \<Rightarrow> int" where
  "day_number d = ordinal d - 719163"

section \<open>Amounts as banks write them\<close>

definition STATEMENT_NUMERIC :: "nat \<times> nat" where "STATEMENT_NUMERIC = (18, 2)"

definition strip_parens :: "string \<Rightarrow> string" where
  "strip_parens s = (let p = (\<lambda>c. c = CHR ''('' \<or> c = CHR '')'') in rev (dropWhile p (rev (dropWhile p s))))"

definition parse_amount :: "string \<Rightarrow> rat option" where
  "parse_amount raw =
     (let s = py_strip raw
      in if s = [] then None
         else let bracketed = starts_with ''('' s \<and> ends_with '')'' s;
                  t = py_strip (filter (\<lambda>c. c \<noteq> CHR '','' \<and> c \<noteq> CHR ''$'') (strip_parens s));
                  minus = starts_with ''-'' t;
                  u = (if minus then tl t else t)
              in case parse_decimal u of
                   None \<Rightarrow> None
                 | Some v \<Rightarrow>
                     if \<not> fits_numeric (Some v) (fst STATEMENT_NUMERIC) (snd STATEMENT_NUMERIC) then None
                     else (case v of Fin x \<Rightarrow> Some (if bracketed \<or> minus then - x else x) | _ \<Rightarrow> None))"

section \<open>Columns and rows\<close>

definition DATE_HEADERS :: "string list" where
  "DATE_HEADERS = [''date'', ''transaction date'', ''transaction_date'', ''posted date'', ''post date'']"

definition AMOUNT_HEADERS :: "string list" where
  "AMOUNT_HEADERS = [''amount'', ''transaction amount'', ''amount (usd)'', ''value'']"

definition DEBIT_HEADERS :: "string list" where
  "DEBIT_HEADERS = [''debit'', ''withdrawal'', ''withdrawals'']"

definition CREDIT_HEADERS :: "string list" where
  "CREDIT_HEADERS = [''credit'', ''deposit'', ''deposits'']"

definition DESC_HEADERS :: "string list" where
  "DESC_HEADERS = [''description'', ''memo'', ''details'', ''note'', ''narrative'']"

definition REFERENCE_HEADERS :: "string list" where
  "REFERENCE_HEADERS = [''reference'', ''ref'', ''trace number'', ''trace'', ''check number'']"

definition COUNTERPARTY_HEADERS :: "string list" where
  "COUNTERPARTY_HEADERS = [''counterparty'', ''payee'', ''name'', ''merchant'', ''vendor'']"

definition find_col :: "string list \<Rightarrow> string list \<Rightarrow> string option" where
  "find_col headers candidates = find (\<lambda>h. py_lower (py_strip h) \<in> set candidates) headers"

text \<open>\<open>header_to_idx\<close> is built left to right: of two equal headers the last index stays.\<close>

fun header_to_idx :: "string list \<Rightarrow> string \<Rightarrow> nat \<Rightarrow> nat option" where
  "header_to_idx [] h i = None"
| "header_to_idx (x # xs) h i =
     (case header_to_idx xs h (i + 1) of Some j \<Rightarrow> Some j | None \<Rightarrow> if x = h then Some i else None)"

definition cell_at :: "string list \<Rightarrow> string list \<Rightarrow> string \<Rightarrow> string" where
  "cell_at headers row h = row ! the (header_to_idx headers h 0)"

record parsed_row =
  py_row_id :: uuid
  py_date :: int
  py_amount :: rat
  py_direction :: string
  py_description :: "string option"
  py_counterparty :: "string option"
  py_reference :: "string option"

definition or_none :: "string \<Rightarrow> string option" where
  "or_none s = (if s = [] then None else Some s)"

definition text_cell :: "string list \<Rightarrow> string list \<Rightarrow> string list \<Rightarrow> string option" where
  "text_cell headers row candidates =
     (case find_col headers candidates of
        None \<Rightarrow> None
      | Some h \<Rightarrow> or_none (py_strip (cell_at headers row h)))"

text \<open>The amount and the side: one signed column, or a column for each side.\<close>

definition row_amount :: "string list \<Rightarrow> string list \<Rightarrow> (rat \<times> string) option" where
  "row_amount headers row =
     (case find_col headers AMOUNT_HEADERS of
        Some h \<Rightarrow> map_option (\<lambda>x. (\<bar>x\<bar>, if x < 0 then ''debit'' else ''credit'')) (parse_amount (cell_at headers row h))
      | None \<Rightarrow>
          (let side = (\<lambda>candidates. case find_col headers candidates of
                                      None \<Rightarrow> None
                                    | Some h \<Rightarrow> parse_amount (cell_at headers row h));
               debit_val = side DEBIT_HEADERS; credit_val = side CREDIT_HEADERS
           in if debit_val \<noteq> None \<and> debit_val \<noteq> Some 0 then Some (\<bar>the debit_val\<bar>, ''debit'')
              else if credit_val \<noteq> None \<and> credit_val \<noteq> Some 0 then Some (\<bar>the credit_val\<bar>, ''credit'')
              else None))"

text \<open>A blank row, one without a date and one without an amount are skipped.\<close>

definition parse_row :: "string list \<Rightarrow> bool \<Rightarrow> uuid \<Rightarrow> string list \<Rightarrow> parsed_row option" where
  "parse_row headers day_first i row =
     (if list_all (\<lambda>c. py_strip c = []) row then None
      else let cells = row @ replicate (length headers - length row) []
           in case find_col headers DATE_HEADERS of
                None \<Rightarrow> None
              | Some date_col \<Rightarrow>
                  (case bank_date (cell_at headers cells date_col) day_first of
                     None \<Rightarrow> None
                   | Some d \<Rightarrow>
                       map_option (\<lambda>(amt, direction).
                           \<lparr>py_row_id = i, py_date = day_number d, py_amount = amt, py_direction = direction,
                            py_description = text_cell headers cells DESC_HEADERS,
                            py_counterparty = text_cell headers cells COUNTERPARTY_HEADERS,
                            py_reference = text_cell headers cells REFERENCE_HEADERS\<rparr>)
                         (row_amount headers cells)))"

fun parse_rows :: "string list \<Rightarrow> bool \<Rightarrow> (nat \<Rightarrow> uuid) \<Rightarrow> nat \<Rightarrow> string list list \<Rightarrow> parsed_row list" where
  "parse_rows headers day_first ids k [] = []"
| "parse_rows headers day_first ids k (r # rs) =
     (case parse_row headers day_first (ids k) r of
        None \<Rightarrow> parse_rows headers day_first ids (k + 1) rs
      | Some p \<Rightarrow> p # parse_rows headers day_first ids (k + 1) rs)"

text \<open>A \<open>StatementImportError\<close> becomes a 422 with its message.\<close>

definition parse_csv_statement :: "bool \<Rightarrow> (nat \<Rightarrow> uuid) \<Rightarrow> string list list \<Rightarrow> parsed_row list py" where
  "parse_csv_statement day_first ids rows =
     (if length rows < 2 then Inl (HTTPException 422 ''CSV is empty or has no data rows'')
      else let headers = map py_strip (hd rows)
           in if find_col headers DATE_HEADERS = None
              then Inl (HTTPException 422 ''CSV header is missing a date column'')
              else if find_col headers AMOUNT_HEADERS = None \<and> find_col headers DEBIT_HEADERS = None
                      \<and> find_col headers CREDIT_HEADERS = None
              then Inl (HTTPException 422 ''CSV header is missing both an amount column and debit/credit columns'')
              else let parsed = parse_rows headers day_first ids 2 (tl rows)
                   in if parsed = [] then Inl (HTTPException 422 ''CSV had a header but no parseable transactions'')
                      else Inr parsed)"

section \<open>What reading gives\<close>

lemma number_as_day: "strp_number s = Some v \<Longrightarrow> strp_day s = Some v"
proof -
  assume a: "strp_number s = Some v"
  then have "s \<noteq> []" "list_all is_digit s" by (auto simp: strp_number_def split: if_splits)
  then have "is_digit (hd s)" by (cases s) auto
  then have "hd s \<noteq> CHR '' ''" by (auto simp: is_digit_def)
  then show ?thesis using a by (simp add: strp_day_def)
qed

lemma date_parts:
  "date_of_parts y m d = Some x \<longleftrightarrow> y = Some (year x) \<and> m = Some (month x) \<and> d = Some (day x) \<and> valid_date x"
  by (cases y; cases m; cases d; cases x) (auto simp: date_of_parts_def Let_def)

lemma valid_month_day: "valid_date x \<Longrightarrow> day x \<le> 12 \<Longrightarrow> valid_date (x\<lparr>month := day x, day := month x\<rparr>)"
  by (auto simp: valid_date_def days_in_month_def split: if_splits)

lemma dmy_reads: "strptime_dmy sep r = Some a \<Longrightarrow>
    \<exists>d m y. split_on sep r = [d, m, y] \<and> strp_year y = Some (year a) \<and> strp_number m = Some (month a)
      \<and> strp_day d = Some (day a) \<and> valid_date a"
  by (auto simp: strptime_dmy_def date_parts split: list.splits)

lemma mdy_reads: "strptime_mdy sep r = Some a \<Longrightarrow>
    \<exists>d m y. split_on sep r = [m, d, y] \<and> strp_year y = Some (year a) \<and> strp_number m = Some (month a)
      \<and> strp_day d = Some (day a) \<and> valid_date a"
  by (auto simp: strptime_mdy_def date_parts split: list.splits)

lemma both_orders:
  assumes "strptime_dmy sep r = Some a" "strptime_mdy sep r = Some b"
  shows "year b = year a \<and> month b = day a \<and> day b = month a \<and> day a \<le> 12"
proof -
  obtain d m y where "split_on sep r = [d, m, y]" "strp_year y = Some (year a)" "strp_number m = Some (month a)"
    "strp_day d = Some (day a)"
    using dmy_reads [OF assms(1)] by blast
  moreover obtain d' m' y' where "split_on sep r = [m', d', y']" "strp_year y' = Some (year b)"
    "strp_number m' = Some (month b)" "strp_day d' = Some (day b)" "valid_date b"
    using mdy_reads [OF assms(2)] by blast
  ultimately show ?thesis using number_as_day [of m' "month b"] number_as_day [of m "month a"] by (auto simp: valid_date_def)
qed

lemma parse_amount_bounds:
  assumes "parse_amount s = Some x"
  shows "round_half_up 2 \<bar>x\<bar> < 10 ^ 16"
proof -
  obtain v where v: "fits_numeric (Some (Fin v)) 18 2" "x = v \<or> x = - v"
    using assms by (auto simp: parse_amount_def Let_def STATEMENT_NUMERIC_def split: if_splits option.splits decimal.splits)
  have "\<bar>round_half_up 2 v\<bar> < 10 ^ 16"
    using v(1) by (auto simp: fits_numeric_def quantize_half_up_def split: if_splits)
  moreover have "round_half_up 2 \<bar>x\<bar> \<le> \<bar>round_half_up 2 v\<bar>"
    using v(2) by (auto simp: round_half_up_def half_up_def abs_if) (simp add: add.commute)
  ultimately show ?thesis by linarith
qed

lemma row_amount_shape:
  assumes "row_amount headers row = Some (x, dir)"
  shows "0 \<le> x \<and> round_half_up 2 x < 10 ^ 16 \<and> (dir = ''credit'' \<or> dir = ''debit'' \<and> 0 < x)"
proof -
  obtain s y where "parse_amount s = Some y" "x = \<bar>y\<bar>" "dir = ''credit'' \<or> dir = ''debit'' \<and> y \<noteq> 0"
    using assms by (auto simp: row_amount_def Let_def split: option.splits if_splits)
  then show ?thesis using parse_amount_bounds by auto
qed

lemma rows_from: "r \<in> set (parse_rows headers f ids k rows) \<Longrightarrow> \<exists>i row. parse_row headers f i row = Some r"
  by (induction rows arbitrary: k) (auto split: option.splits)

text \<open>
  C38: The rows a statement yields can be stored and matched: an amount is not negative and fits the column once
  rounded to it, a row is a credit or a debit that moved money, and a text is never blank.
\<close>

theorem imported_rows_are_storable:
  assumes "parse_csv_statement day_first ids cells = Inr rows" "r \<in> set rows"
  shows "0 \<le> py_amount r \<and> round_half_up 2 (py_amount r) < 10 ^ 16
    \<and> (py_direction r = ''credit'' \<or> py_direction r = ''debit'' \<and> 0 < py_amount r)
    \<and> Some [] \<notin> {py_description r, py_counterparty r, py_reference r}"
proof -
  obtain headers i row where p: "parse_row headers day_first i row = Some r"
    using assms rows_from by (fastforce simp: parse_csv_statement_def Let_def split: if_splits)
  then obtain cells' where "row_amount headers cells' = Some (py_amount r, py_direction r)"
    by (auto simp: parse_row_def Let_def split: if_splits option.splits)
  moreover have "text_cell h c cs \<noteq> Some []" for h c cs
    by (simp add: text_cell_def or_none_def split: option.splits)
  ultimately show ?thesis
    using row_amount_shape p by (auto simp: parse_row_def Let_def split: if_splits option.splits dest: sym)
qed

text \<open>
  C36: The tenant's locale decides only what the text leaves open: read day first or month first, the same texts
  are dates, and two readings differ only by swapping a day and a month that could each be either.
\<close>

theorem locale_decides_only_ambiguous_dates:
  assumes "parse_ambiguous_date raw f = Some a"
  shows "\<exists>b. parse_ambiguous_date raw (\<not> f) = Some b
    \<and> (b = a \<or> b = a\<lparr>month := day a, day := month a\<rparr> \<and> day a \<le> 12 \<and> month a \<le> 12)"
proof -
  define r where "r = py_strip raw"
  define sep where "sep = (if CHR ''/'' \<in> set r then CHR ''/'' else CHR ''-'')"
  let ?d = "strptime_dmy sep r" and ?m = "strptime_mdy sep r"
  have f: "parse_ambiguous_date raw g = (if g then first_some [?d, ?m] else first_some [?m, ?d])" for g
    using assms by (auto simp: parse_ambiguous_date_def Let_def r_def sep_def split: if_splits)
  have swap: "b = a\<lparr>month := day a, day := month a\<rparr> \<and> day a \<le> 12 \<and> month a \<le> 12
      \<and> a = b\<lparr>month := day b, day := month b\<rparr> \<and> day b \<le> 12 \<and> month b \<le> 12"
    if "?d = Some a" "?m = Some b" for a b :: date
    using both_orders [OF that] dmy_reads [OF that(1)] by (cases a; cases b) (auto simp: valid_date_def)
  show ?thesis
    using assms swap by (cases f; cases ?d; cases ?m) (auto simp: f)
qed

section \<open>Sample statements\<close>

definition sample_cells :: "string list list" where
  "sample_cells = [['' Date'', ''Amount'', ''Payee''], [], [''2026-01-31'', ''(1,234.50)'', '' Acme ''], [''soon'', ''5'', ''''],
     [''02/01/2026'', ''$7'', '''']]"

lemmas read_eval = bank_date_def parse_ambiguous_date_def strptime_ymd_def strptime_mdy_def strptime_dmy_def strp_year_def
  strp_number_def strp_day_def digits_val_def is_digit_def date_of_parts_def valid_date_def days_in_month_def
  py_strip_def is_space_def

lemmas amount_eval = parse_amount_def parse_eval starts_with_def ends_with_def strip_parens_def STATEMENT_NUMERIC_def
  fits_numeric_def quantize_half_up_def half_up_def round_half_up_def parse_finite_def parse_exponent_def

lemma sample_dates:
  "bank_date ''2026-01-31'' True = Some \<lparr>year = 2026, month = 1, day = 31\<rparr>"
  "bank_date ''02/01/2026'' True = Some \<lparr>year = 2026, month = 1, day = 2\<rparr>"
  "bank_date ''soon'' True = None"
  by (simp_all add: read_eval)

lemma sample_amounts:
  "parse_amount ''(1,234.50)'' = Some (- 2469 / 2)" "parse_amount ''$7'' = Some 7"
  by (simp_all add: amount_eval read_eval)

lemma sample_statement_rows:
  obtains r q where "parse_csv_statement True (\<lambda>k. of_nat (k + 500)) sample_cells = Inr [r, q]"
    "py_amount r = 2469 / 2" "py_direction r = ''debit''" "py_counterparty r = Some ''Acme''" "py_date r = 20484"
proof -
  have headers: "find_col [''Date'', ''Amount'', ''Payee''] DATE_HEADERS = Some ''Date''"
    "find_col [''Date'', ''Amount'', ''Payee''] AMOUNT_HEADERS = Some ''Amount''"
    "find_col [''Date'', ''Amount'', ''Payee''] COUNTERPARTY_HEADERS = Some ''Payee''"
    "find_col [''Date'', ''Amount'', ''Payee''] DESC_HEADERS = None"
    "find_col [''Date'', ''Amount'', ''Payee''] REFERENCE_HEADERS = None"
    "map py_strip ['' Date'', ''Amount'', ''Payee''] = [''Date'', ''Amount'', ''Payee'']"
    by code_simp+
  show ?thesis
    by (rule that)
      (simp add: parse_csv_statement_def sample_cells_def headers parse_row_def row_amount_def text_cell_def cell_at_def
        sample_dates sample_amounts py_strip_def is_space_def or_none_def day_number_def ordinal_def days_before_year_def
        days_before_month_def is_leap_def, simp_all)
qed

theorem imported_rows_are_storable_witness:
  "\<exists>r q. parse_csv_statement True (\<lambda>k. of_nat (k + 500)) sample_cells = Inr [r, q] \<and> 0 < py_amount r \<and> py_description r \<noteq> Some []"
proof (rule sample_statement_rows)
  fix r q
  assume p: "parse_csv_statement True (\<lambda>k. of_nat (k + 500)) sample_cells = Inr [r, q]" and "py_direction r = ''debit''"
  then show ?thesis using imported_rows_are_storable [OF p, of r] by auto
qed

theorem locale_decides_only_ambiguous_dates_witness:
  "\<exists>b. parse_ambiguous_date ''03/25/2026'' False = Some b \<and> month b = 3"
proof -
  have "parse_ambiguous_date ''03/25/2026'' True = Some \<lparr>year = 2026, month = 3, day = 25\<rparr>"
    by (simp add: read_eval)
  from locale_decides_only_ambiguous_dates [OF this] show ?thesis by auto
qed

text \<open>Two equal headers: the column read is the rightmost, not the leftmost that matches.\<close>

theorem equal_headers_read_the_last:
  "find_col [''Amount'', ''Amount''] AMOUNT_HEADERS = Some ''Amount''"
  "row_amount [''Amount'', ''Amount''] [''-5'', ''8''] = Some (8, ''credit'')"
  by code_simp+

text \<open>A bracketed negative, a doubled sign: the sides the parser gives them.\<close>

theorem doubled_sign_reads_as_credit:
  "row_amount [''Amount''] [''--5''] = Some (5, ''credit'')" "row_amount [''Amount''] [''(-5)''] = Some (5, ''debit'')"
  by code_simp+

end
