(* ===== verification/Bank_Reconciliation.thy ===== *)
theory Bank_Reconciliation
  imports Bank_Import
begin

text \<open>
  Bank reconciliation (models/bank_reconciliation.py, services/bank_reconciliation.py,
  api/bank_reconciliation.py, the name comparison of services/vendor_matching.py): which payment a bank
  line is, whether it reconciles, and the worksheet of what is outstanding.

  The fraction of a cent a bank may write is compared as it was read and kept; the column rounds it. The similarity of two names is a quotient of token counts, a float in the code; at the lengths
  the columns allow it never comes near a boundary the code tests, so the model keeps the quotient.

  A resolve reads its line and writes it in one step: of two that race on the same line the model has the
  second see what the first wrote. What it read of the other lines of the statement may be old (\<open>seen\<close>).
\<close>

section \<open>Statements and their lines\<close>

record bank_tx =
  bt_id :: uuid
  bt_statement :: uuid
  bt_org :: uuid
  bt_date :: int
  bt_amount :: rat
  bt_currency :: string
  bt_description :: "string option"
  bt_counterparty :: "string option"
  bt_reference :: "string option"
  bt_direction :: string
  bt_payment :: "uuid option"
  bt_method :: "string option"
  bt_confidence :: "rat option"
  bt_matched_at :: "time option"

record bank_statement =
  bs_id :: uuid
  bs_org :: uuid
  bs_account :: string
  bs_currency :: string
  bs_period_start :: int
  bs_period_end :: int
  bs_hash :: "string option"
  bs_imported_by :: "uuid option"
  bs_count :: nat
  bs_matched :: nat

text \<open>\<open>bd_created\<close> is the creation time of a payment, which the payment components do not read.\<close>

record bank_db =
  bd_pay :: pay_db
  bd_created :: "uuid \<Rightarrow> time"
  bd_statements :: "bank_statement list"
  bd_lines :: "bank_tx list"

record bank_env =
  bv_now :: time
  bv_org :: uuid
  bv_user :: uuid
  bv_audit_key :: uuid
  bv_statement :: uuid
  bv_row :: "nat \<Rightarrow> uuid"
  bv_money_text :: "rat \<Rightarrow> string"

definition audit_bank :: "bank_env \<Rightarrow> string \<Rightarrow> uuid \<Rightarrow> jdict \<Rightarrow> bank_db \<Rightarrow> bank_db" where
  "audit_bank env action i details db =
     db\<lparr>bd_pay := (bd_pay db)\<lparr>core := dispatch_audit (core (bd_pay db)) (bv_audit_key env) (bv_org env) (Some (bv_user env))
                                       action ''bank_statement'' i details\<rparr>\<rparr>"

section \<open>Does an identified line reconcile?\<close>

definition UNRECONCILED_MATCH_METHODS :: "string list" where
  "UNRECONCILED_MATCH_METHODS = [''amount_mismatch'', ''currency_mismatch'', ''status_conflict'']"

definition EXPECTED_TO_CLEAR_STATUSES :: "string list" where
  "EXPECTED_TO_CLEAR_STATUSES = [''completed'', ''submitted'', ''processing'']"

definition AMOUNT_MATCH_TOLERANCE :: rat where "AMOUNT_MATCH_TOLERANCE = 1 / 100"
definition DEFAULT_MATCH_WINDOW_DAYS :: int where "DEFAULT_MATCH_WINDOW_DAYS = 5"

definition settlement_amount_and_currency :: "payment \<Rightarrow> string option \<Rightarrow> rat \<times> string" where
  "settlement_amount_and_currency p invoice_currency =
     (if pm_source_amount p \<noteq> None \<and> pm_source_currency p \<notin> {None, Some []}
      then (the (pm_source_amount p), py_upper (the (pm_source_currency p)))
      else (pm_amount p, py_upper (py_strip (get_or invoice_currency []))))"

text \<open>\<open>quantize(Decimal("0.01"))\<close> in the default context.\<close>

definition match_variance :: "rat \<Rightarrow> rat \<Rightarrow> rat" where
  "match_variance bank_amount payment_amount = of_int (half_even ((bank_amount - payment_amount) * 100)) / 100"

definition is_amount_mismatch :: "rat \<Rightarrow> rat \<Rightarrow> bool" where
  "is_amount_mismatch bank_amount payment_amount \<longleftrightarrow> AMOUNT_MATCH_TOLERANCE < \<bar>match_variance bank_amount payment_amount\<bar>"

definition classify_discrepancy :: "rat \<Rightarrow> string option \<Rightarrow> rat \<Rightarrow> string option \<Rightarrow> string option \<Rightarrow> string option" where
  "classify_discrepancy bank_amount bank_currency payment_amount payment_currency payment_status =
     (let bank_ccy = py_upper (py_strip (get_or bank_currency []));
          pay_ccy = py_upper (py_strip (get_or payment_currency []))
      in if bank_ccy \<noteq> [] \<and> pay_ccy \<noteq> [] \<and> bank_ccy \<noteq> pay_ccy then Some ''currency_mismatch''
         else if is_amount_mismatch bank_amount payment_amount then Some ''amount_mismatch''
         else if get_or payment_status [] \<notin> set EXPECTED_TO_CLEAR_STATUSES then Some ''status_conflict''
         else None)"

definition is_reconciled :: "string option \<Rightarrow> uuid option \<Rightarrow> bool" where
  "is_reconciled m p \<longleftrightarrow> p \<noteq> None \<and> (m = None \<or> the m \<notin> set UNRECONCILED_MATCH_METHODS)"

section \<open>Names\<close>

fun split_from :: "string \<Rightarrow> string \<Rightarrow> string list" where
  "split_from w [] = (if w = [] then [] else [rev w])"
| "split_from w (c # cs) =
     (if is_space c then (if w = [] then split_from [] cs else rev w # split_from [] cs)
      else split_from (c # w) cs)"

definition py_split :: "string \<Rightarrow> string list" where
  "py_split s = split_from [] s"

fun join_words :: "string list \<Rightarrow> string" where
  "join_words [] = []"
| "join_words [w] = w"
| "join_words (w # ws) = w @ '' '' @ join_words ws"

definition NAME_SUFFIXES :: "string list" where
  "NAME_SUFFIXES =
     ['' inc'', '' inc.'', '' llc'', '' ltd'', '' ltd.'', '' corp'', '' corp.'', '' co'', '' co.'', '' company'',
      '' group'', '' plc'', '' gmbh'', '' pty'', '' pty.'', '' limited'', '' incorporated'']"

definition normalize_name :: "string \<Rightarrow> string" where
  "normalize_name name =
     (let stripped = foldl (\<lambda>n suffix. if ends_with suffix n then py_strip (take (length n - length suffix) n) else n)
                       (py_strip (py_lower name)) NAME_SUFFIXES
      in join_words (py_split (filter (\<lambda>c. is_alnum c \<or> c = CHR '' '') stripped)))"

definition similarity :: "string \<Rightarrow> string \<Rightarrow> rat" where
  "similarity a b =
     (let ta = remdups (py_split a); tb = remdups (py_split b)
      in if ta = [] \<or> tb = [] then 0
         else of_nat (length (filter (\<lambda>w. w \<in> set tb) ta)) / of_nat (length (remdups (ta @ tb))))"

section \<open>Which payment a line is\<close>

record match_attempt =
  ma_payment :: uuid
  ma_method :: string
  ma_confidence :: rat

text \<open>The invoice's currency and vendor; an id without a row gives the unknown invoice.\<close>

definition invoice_facts :: "bank_db \<Rightarrow> uuid \<Rightarrow> string \<times> string option" where
  "invoice_facts db i =
     (case find_invoice (bd_pay db) i of
        None \<Rightarrow> ([], None)
      | Some iv \<Rightarrow> (py_upper (py_strip (currency iv)), Some (vendor_name iv)))"

definition sent_at :: "bank_db \<Rightarrow> payment \<Rightarrow> time" where
  "sent_at db p = get_or (first_some [pm_submitted_at p, pm_completed_at p]) (bd_created db (pm_id p))"

definition sent_on :: "bank_db \<Rightarrow> payment \<Rightarrow> int" where
  "sent_on db p = sent_at db p div days_us 1"

definition candidate_payments_in_window :: "bank_db \<Rightarrow> rat \<Rightarrow> int \<Rightarrow> int \<Rightarrow> payment list" where
  "candidate_payments_in_window db amt on window_days =
     filter (\<lambda>p. (pm_amount p = amt \<or> pm_source_amount p = Some amt)
                 \<and> pm_status p \<in> set EXPECTED_TO_CLEAR_STATUSES
                 \<and> on - window_days \<le> sent_on db p \<and> sent_on db p \<le> on + window_days)
       (payments (bd_pay db))"

definition settles_as :: "bank_db \<Rightarrow> payment \<Rightarrow> rat \<Rightarrow> string option \<Rightarrow> bool" where
  "settles_as db p amt bank_currency \<longleftrightarrow>
     (case settlement_amount_and_currency p (Some (fst (invoice_facts db (pm_invoice p)))) of
        (settled_amount, settled_currency) \<Rightarrow>
          settled_amount = amt
          \<and> (let ccy = py_upper (py_strip (get_or bank_currency []))
             in settled_currency = [] \<or> ccy = [] \<or> settled_currency = ccy))"

text \<open>Exactly one row, or none; more than one stops the search.\<close>

definition payment_by_reference :: "bank_db \<Rightarrow> string \<Rightarrow> payment option" where
  "payment_by_reference db reference =
     (case filter (\<lambda>p. pm_provider_id p = Some reference) (payments (bd_pay db)) of
        [p] \<Rightarrow> Some p
      | [] \<Rightarrow> (case filter (\<lambda>p. pm_reference p = Some reference) (payments (bd_pay db)) of
                 [p] \<Rightarrow> Some p
               | _ \<Rightarrow> None)
      | _ \<Rightarrow> None)"

definition fuzzy_confidence :: "rat \<Rightarrow> rat" where
  "fuzzy_confidence score = of_int (half_even ((50 + (score - 1 / 2) / (1 / 2) * 20) * 100)) / 100"

definition fuzzy_step ::
    "bank_db \<Rightarrow> string \<Rightarrow> (payment \<times> rat) option \<Rightarrow> payment \<Rightarrow> (payment \<times> rat) option" where
  "fuzzy_step db cp_key best p =
     (case snd (invoice_facts db (pm_invoice p)) of
        None \<Rightarrow> best
      | Some name \<Rightarrow>
          if name = [] then best
          else let score = similarity cp_key (normalize_name name)
               in if score < 1 / 2 then best
                  else let c = fuzzy_confidence score
                       in if best = None \<or> snd (the best) < c then Some (p, c) else best)"

definition fuzzy_vendor_match :: "bank_db \<Rightarrow> payment list \<Rightarrow> string \<Rightarrow> (payment \<times> rat) option" where
  "fuzzy_vendor_match db candidates counterparty =
     (if candidates = [] \<or> counterparty = [] then None
      else let cp_key = normalize_name counterparty
           in if cp_key = [] then None else foldl (fuzzy_step db cp_key) None candidates)"

definition reference_attempt :: "bank_db \<Rightarrow> uuid list \<Rightarrow> bank_tx \<Rightarrow> match_attempt option" where
  "reference_attempt db claimed tx =
     (if bt_reference tx \<in> {None, Some []} then None
      else case payment_by_reference db (the (bt_reference tx)) of
             None \<Rightarrow> None
           | Some p \<Rightarrow>
               if pm_id p \<in> set claimed then None
               else case settlement_amount_and_currency p (Some (fst (invoice_facts db (pm_invoice p)))) of
                      (settled_amount, settled_currency) \<Rightarrow>
                        Some \<lparr>ma_payment = pm_id p,
                              ma_method = get_or (classify_discrepancy (bt_amount tx) (Some (bt_currency tx)) settled_amount
                                                    (Some settled_currency) (Some (pm_status p))) ''provider_id'',
                              ma_confidence = 100\<rparr>)"

definition line_candidates :: "bank_db \<Rightarrow> int \<Rightarrow> uuid list \<Rightarrow> bank_tx \<Rightarrow> payment list" where
  "line_candidates db window_days claimed tx =
     filter (\<lambda>p. settles_as db p (bt_amount tx) (Some (bt_currency tx)))
       (filter (\<lambda>p. pm_id p \<notin> set claimed)
          (candidate_payments_in_window db (bt_amount tx) (bt_date tx) window_days))"

definition match_line :: "bank_db \<Rightarrow> int \<Rightarrow> uuid list \<Rightarrow> bank_tx \<Rightarrow> match_attempt option" where
  "match_line db window_days claimed tx =
     (case reference_attempt db claimed tx of
        Some a \<Rightarrow> Some a
      | None \<Rightarrow>
          let candidates = line_candidates db window_days claimed tx
          in case candidates of
               [p] \<Rightarrow> Some \<lparr>ma_payment = pm_id p, ma_method = ''amount_date'', ma_confidence = 80\<rparr>
             | _ \<Rightarrow>
                 if bt_counterparty tx \<in> {None, Some []} then None
                 else map_option (\<lambda>(p, c). \<lparr>ma_payment = pm_id p, ma_method = ''fuzzy_vendor'', ma_confidence = c\<rparr>)
                        (fuzzy_vendor_match db candidates (the (bt_counterparty tx))))"

record match_counts =
  mc_matched :: nat
  mc_unmatched :: nat
  mc_skipped_credit :: nat
  mc_amount_mismatch :: nat
  mc_currency_mismatch :: nat
  mc_status_conflict :: nat

definition no_matches :: match_counts where
  "no_matches = \<lparr>mc_matched = 0, mc_unmatched = 0, mc_skipped_credit = 0, mc_amount_mismatch = 0,
                 mc_currency_mismatch = 0, mc_status_conflict = 0\<rparr>"

definition count_method :: "string \<Rightarrow> match_counts \<Rightarrow> match_counts" where
  "count_method m c =
     (if m = ''amount_mismatch'' then c\<lparr>mc_amount_mismatch := mc_amount_mismatch c + 1\<rparr>
      else if m = ''currency_mismatch'' then c\<lparr>mc_currency_mismatch := mc_currency_mismatch c + 1\<rparr>
      else if m = ''status_conflict'' then c\<lparr>mc_status_conflict := mc_status_conflict c + 1\<rparr>
      else c\<lparr>mc_matched := mc_matched c + 1\<rparr>)"

definition linked :: "time \<Rightarrow> match_attempt \<Rightarrow> bank_tx \<Rightarrow> bank_tx" where
  "linked now a tx = tx\<lparr>bt_payment := Some (ma_payment a), bt_method := Some (ma_method a),
                        bt_confidence := Some (ma_confidence a), bt_matched_at := Some now\<rparr>"

fun match_lines ::
    "bank_db \<Rightarrow> time \<Rightarrow> int \<Rightarrow> uuid list \<Rightarrow> match_counts \<Rightarrow> bank_tx list \<Rightarrow> bank_tx list \<times> match_counts" where
  "match_lines db now window claimed counts [] = ([], counts)"
| "match_lines db now window claimed counts (tx # txs) =
     (if bt_direction tx \<noteq> ''debit''
      then case match_lines db now window claimed (counts\<lparr>mc_skipped_credit := mc_skipped_credit counts + 1\<rparr>) txs of
             (ts, c) \<Rightarrow> (tx # ts, c)
      else case match_line db window claimed tx of
             None \<Rightarrow>
               (case match_lines db now window claimed (counts\<lparr>mc_unmatched := mc_unmatched counts + 1\<rparr>) txs of
                  (ts, c) \<Rightarrow> (tx # ts, c))
           | Some a \<Rightarrow>
               (case match_lines db now window (ma_payment a # claimed) (count_method (ma_method a) counts) txs of
                  (ts, c) \<Rightarrow> (linked now a tx # ts, c)))"

text \<open>The claims of the lines that are in the database.\<close>

definition claims :: "bank_tx list \<Rightarrow> uuid list" where
  "claims txs = map (the \<circ> bt_payment) (filter (\<lambda>t. bt_payment t \<noteq> None) txs)"

definition match_statement_transactions ::
    "bank_db \<Rightarrow> time \<Rightarrow> uuid list \<Rightarrow> bank_tx list \<Rightarrow> bank_tx list \<times> match_counts" where
  "match_statement_transactions db now claimed txs =
     match_lines db now DEFAULT_MATCH_WINDOW_DAYS claimed no_matches txs"

section \<open>Importing a statement\<close>

record statement_file =
  sf_account :: string
  sf_start :: int
  sf_end :: int
  sf_currency :: string
  sf_hash :: string
  sf_rows :: "parsed_row list"

record upload_form =
  uf_account :: string
  uf_start :: int
  uf_end :: int
  uf_currency :: string
  uf_hash :: string
  uf_cells :: "string list list"
  uf_day_first :: bool

definition statement_by_hash :: "bank_db \<Rightarrow> uuid \<Rightarrow> string \<Rightarrow> string \<Rightarrow> bank_statement option" where
  "statement_by_hash db org account h =
     find (\<lambda>s. bs_org s = org \<and> bs_account s = account \<and> bs_hash s = Some h) (bd_statements db)"

definition parsed_statement :: "bank_env \<Rightarrow> statement_file \<Rightarrow> bank_statement" where
  "parsed_statement env f =
     \<lparr>bs_id = bv_statement env, bs_org = bv_org env, bs_account = sf_account f, bs_currency = sf_currency f,
      bs_period_start = sf_start f, bs_period_end = sf_end f, bs_hash = Some (sf_hash f),
      bs_imported_by = Some (bv_user env), bs_count = length (sf_rows f), bs_matched = 0\<rparr>"

definition parsed_line :: "bank_env \<Rightarrow> statement_file \<Rightarrow> parsed_row \<Rightarrow> bank_tx" where
  "parsed_line env f r =
     \<lparr>bt_id = py_row_id r, bt_statement = bv_statement env, bt_org = bv_org env, bt_date = py_date r,
      bt_amount = py_amount r, bt_currency = sf_currency f, bt_description = py_description r,
      bt_counterparty = py_counterparty r, bt_reference = py_reference r, bt_direction = py_direction r,
      bt_payment = None, bt_method = None, bt_confidence = None, bt_matched_at = None\<rparr>"

text \<open>One pass, given the claims as it read them; the index on the matched payment sees every line.\<close>

definition import_pass :: "bank_env \<Rightarrow> uuid list \<Rightarrow> bank_db \<Rightarrow> statement_file \<Rightarrow> (bank_statement \<times> bank_db) py" where
  "import_pass env claimed db f =
     (if statement_by_hash db (bv_org env) (sf_account f) (sf_hash f) \<noteq> None then Inl IntegrityError
      else case match_statement_transactions db (bv_now env) claimed (map (parsed_line env f) (sf_rows f)) of
             (txs, counts) \<Rightarrow>
               let s = (parsed_statement env f)\<lparr>bs_matched := mc_matched counts\<rparr>
               in if \<not> distinct (claims (bd_lines db @ txs)) then Inl IntegrityError
                  else Inr (s, audit_bank env ''bank_reconciliation.imported'' (bs_id s)
                         [(''account_identifier'', JStr (sf_account f)), (''transaction_count'', JInt (int (bs_count s))),
                          (''matched'', JInt (int (mc_matched counts))), (''unmatched'', JInt (int (mc_unmatched counts))),
                          (''skipped_credit'', JInt (int (mc_skipped_credit counts))),
                          (''amount_mismatch'', JInt (int (mc_amount_mismatch counts))),
                          (''currency_mismatch'', JInt (int (mc_currency_mismatch counts))),
                          (''status_conflict'', JInt (int (mc_status_conflict counts)))]
                         (db\<lparr>bd_statements := bd_statements db @ [s], bd_lines := bd_lines db @ txs\<rparr>)))"

definition parsed_file :: "upload_form \<Rightarrow> parsed_row list \<Rightarrow> statement_file" where
  "parsed_file form rows =
     \<lparr>sf_account = uf_account form, sf_start = uf_start form, sf_end = uf_end form, sf_currency = uf_currency form,
      sf_hash = uf_hash form, sf_rows = rows\<rparr>"

text \<open>
  Two passes at most; each reads the statements and the claims anew, \<open>seen1\<close> and \<open>seen2\<close>, and writes into
  the database as it stands. The flag says whether a statement was created.
\<close>

definition upload_statement ::
    "bank_env \<Rightarrow> bank_db \<Rightarrow> bank_db \<Rightarrow> bank_db \<Rightarrow> upload_form \<Rightarrow> (bank_statement \<times> bool \<times> bank_db) py" where
  "upload_statement env seen1 seen2 db form =
     (case statement_by_hash seen1 (bv_org env) (uf_account form) (uf_hash form) of
        Some s \<Rightarrow> Inr (s, False, db)
      | None \<Rightarrow>
          py_bind (parse_csv_statement (uf_day_first form) (bv_row env) (uf_cells form)) (\<lambda>rows.
            case import_pass env (claims (bd_lines seen1)) db (parsed_file form rows) of
              Inr (s, db') \<Rightarrow> Inr (s, True, db')
            | Inl _ \<Rightarrow>
                (case statement_by_hash seen2 (bv_org env) (uf_account form) (uf_hash form) of
                   Some s \<Rightarrow> Inr (s, False, db)
                 | None \<Rightarrow>
                     (case import_pass env (claims (bd_lines seen2)) db (parsed_file form rows) of
                        Inr (s, db') \<Rightarrow> Inr (s, True, db')
                      | Inl _ \<Rightarrow> Inl (HTTPException 409 ''This statement is being imported concurrently. Retry in a moment.'')))))"

section \<open>Resolving a line by hand, deleting a statement\<close>

definition get_statement :: "bank_db \<Rightarrow> uuid \<Rightarrow> uuid \<Rightarrow> bank_statement py" where
  "get_statement db org i =
     (case find (\<lambda>s. bs_id s = i \<and> bs_org s = org) (bd_statements db) of
        None \<Rightarrow> Inl (HTTPException 404 ''Bank statement not found'')
      | Some s \<Rightarrow> Inr s)"

definition reconciled_count :: "uuid \<Rightarrow> bank_tx list \<Rightarrow> nat" where
  "reconciled_count i txs =
     length (filter (\<lambda>t. bt_statement t = i \<and> is_reconciled (bt_method t) (bt_payment t)) txs)"

definition write_line :: "uuid \<Rightarrow> (bank_tx \<Rightarrow> bank_tx) \<Rightarrow> bank_tx list \<Rightarrow> bank_tx list" where
  "write_line i f txs = update_where (\<lambda>t. bt_id t = i) f txs"

text \<open>The rollup counts over the lines the request sees: its own change and what was committed when it
  read, \<open>seen\<close>. The columns it writes go to the line as it stands.\<close>

definition recompute_matched_count :: "uuid \<Rightarrow> bank_tx list \<Rightarrow> bank_db \<Rightarrow> bank_db" where
  "recompute_matched_count i seen db =
     db\<lparr>bd_statements := update_where (\<lambda>s. bs_id s = i) (\<lambda>s. s\<lparr>bs_matched := reconciled_count i seen\<rparr>) (bd_statements db)\<rparr>"

definition link_by_hand :: "bank_env \<Rightarrow> bank_db \<Rightarrow> bank_tx \<Rightarrow> payment \<Rightarrow> match_attempt \<times> rat" where
  "link_by_hand env db tx p =
     (case settlement_amount_and_currency p (map_option currency (find_invoice (bd_pay db) (pm_invoice p))) of
        (settled_amount, settled_currency) \<Rightarrow>
          (\<lparr>ma_payment = pm_id p,
            ma_method = get_or (classify_discrepancy (bt_amount tx) (Some (bt_currency tx)) settled_amount
                                  (Some settled_currency) (Some (pm_status p))) ''manual'',
            ma_confidence = 100\<rparr>, match_variance (bt_amount tx) settled_amount))"

definition unlinked :: "bank_tx \<Rightarrow> bank_tx" where
  "unlinked t = t\<lparr>bt_payment := None, bt_method := None, bt_confidence := None, bt_matched_at := None\<rparr>"

text \<open>What the request writes to its line, with the method and the variance it records.\<close>

definition resolution ::
    "bank_env \<Rightarrow> bank_db \<Rightarrow> bank_tx \<Rightarrow> uuid option \<Rightarrow> ((bank_tx \<Rightarrow> bank_tx) \<times> json \<times> json) py" where
  "resolution env db tx matched_payment_id =
     (case matched_payment_id of
        None \<Rightarrow> Inr (unlinked, JNull, JNull)
      | Some pid \<Rightarrow>
          py_bind (py_guard (bt_direction tx \<noteq> ''debit'')
                     (HTTPException 409 ''Only a debit transaction can clear a payment'')) (\<lambda>_.
            case find_payment (bd_pay db) pid of
              None \<Rightarrow> Inl (HTTPException 404 ''Payment not found'')
            | Some p \<Rightarrow>
                py_bind (py_guard (list_ex (\<lambda>t. bt_payment t = Some pid \<and> bt_id t \<noteq> bt_id tx) (bd_lines db))
                           (HTTPException 409 ''This payment is already matched to another bank transaction.'')) (\<lambda>_.
                  case link_by_hand env db tx p of
                    (a, variance) \<Rightarrow>
                      Inr (linked (bv_now env) a, JStr (ma_method a), JStr (bv_money_text env variance)))))"

definition resolve_transaction ::
    "bank_env \<Rightarrow> bank_tx list \<Rightarrow> bank_db \<Rightarrow> uuid \<Rightarrow> uuid \<Rightarrow> uuid option \<Rightarrow> bank_db py" where
  "resolve_transaction env seen db i tid matched_payment_id =
     py_bind (get_statement db (bv_org env) i) (\<lambda>s.
       case find (\<lambda>t. bt_id t = tid \<and> bt_statement t = bs_id s) (bd_lines db) of
         None \<Rightarrow> Inl (HTTPException 404 ''Bank transaction not found'')
       | Some tx \<Rightarrow>
           py_bind (resolution env db tx matched_payment_id) (\<lambda>(write, method_json, variance_json).
             let db1 = recompute_matched_count i (write_line tid write seen)
                         (db\<lparr>bd_lines := write_line tid write (bd_lines db)\<rparr>)
             in Inr (audit_bank env ''bank_reconciliation.transaction_resolved'' i
                       [(''transaction_id'', JStr (uuid_str tid)),
                        (''matched_payment_id'', case matched_payment_id of None \<Rightarrow> JNull | Some pid \<Rightarrow> JStr (uuid_str pid)),
                        (''match_method'', method_json), (''variance_amount'', variance_json)] db1)))"

definition delete_statement :: "bank_env \<Rightarrow> bank_db \<Rightarrow> uuid \<Rightarrow> bank_db py" where
  "delete_statement env db i =
     py_bind (get_statement db (bv_org env) i) (\<lambda>s.
       Inr ((audit_bank env ''bank_reconciliation.deleted'' i [(''account_identifier'', JStr (bs_account s))] db)
              \<lparr>bd_statements := delete_where (\<lambda>x. bs_id x = i) (bd_statements db),
               bd_lines := delete_where (\<lambda>t. bt_statement t = i) (bd_lines db)\<rparr>))"

section \<open>The worksheet\<close>

text \<open>The rows of the three buckets, without a search term.\<close>

definition uncleared_payments :: "bank_db \<Rightarrow> int \<Rightarrow> int \<Rightarrow> payment list" where
  "uncleared_payments db today older_than_days =
     filter (\<lambda>p. pm_status p \<in> set EXPECTED_TO_CLEAR_STATUSES \<and> pm_id p \<notin> set (claims (bd_lines db))
                 \<and> sent_on db p \<le> today - older_than_days)
       (payments (bd_pay db))"

definition unmatched_debits :: "bank_db \<Rightarrow> uuid \<Rightarrow> bank_tx list" where
  "unmatched_debits db org =
     filter (\<lambda>t. list_ex (\<lambda>s. bs_id s = bt_statement t \<and> bs_org s = org) (bd_statements db)
                 \<and> bt_direction t = ''debit'' \<and> bt_payment t = None)
       (bd_lines db)"

definition discrepancies :: "bank_db \<Rightarrow> uuid \<Rightarrow> bank_tx list" where
  "discrepancies db org =
     filter (\<lambda>t. list_ex (\<lambda>s. bs_id s = bt_statement t \<and> bs_org s = org) (bd_statements db)
                 \<and> bt_direction t = ''debit'' \<and> bt_method t \<noteq> None \<and> the (bt_method t) \<in> set UNRECONCILED_MATCH_METHODS
                 \<and> list_ex (\<lambda>p. bt_payment t = Some (pm_id p)) (payments (bd_pay db)))
       (bd_lines db)"

section \<open>What a match rests on\<close>

text \<open>A line that counts as reconciled is a debit, and its payment is one the books say went out, for the
  amount to the cent, in the line's currency where both are known.\<close>

definition clears :: "bank_db \<Rightarrow> payment \<Rightarrow> bank_tx \<Rightarrow> bool" where
  "clears db p tx \<longleftrightarrow>
     pm_status p \<in> set EXPECTED_TO_CLEAR_STATUSES
     \<and> (case settlement_amount_and_currency p (map_option currency (find_invoice (bd_pay db) (pm_invoice p))) of
          (amt, ccy) \<Rightarrow> \<bar>match_variance (bt_amount tx) amt\<bar> \<le> 1 / 100
            \<and> (norm_code ccy = [] \<or> norm_code (bt_currency tx) = [] \<or> norm_code ccy = norm_code (bt_currency tx)))"

definition backed :: "bank_db \<Rightarrow> bank_tx \<Rightarrow> bool" where
  "backed db tx \<longleftrightarrow>
     bt_direction tx = ''debit'' \<and> list_ex (\<lambda>p. bt_payment tx = Some (pm_id p) \<and> clears db p tx) (payments (bd_pay db))"

lemma settlement_facts:
  "settlement_amount_and_currency p (Some (fst (invoice_facts db (pm_invoice p))))
     = settlement_amount_and_currency p (map_option currency (find_invoice (bd_pay db) (pm_invoice p)))"
  using norm_code_idem
  by (auto simp: settlement_amount_and_currency_def invoice_facts_def norm_code_def py_strip_def py_upper_def split: option.split)

lemma variance_zero [simp]: "match_variance a a = 0"
  by (simp add: match_variance_def half_even_def)

lemma classify_clears:
  assumes "classify_discrepancy (bt_amount tx) (Some (bt_currency tx)) amt (Some ccy) (Some (pm_status p)) = None"
    "settlement_amount_and_currency p (map_option currency (find_invoice (bd_pay db) (pm_invoice p))) = (amt, ccy)"
  shows "clears db p tx"
  using assms
  by (auto simp: classify_discrepancy_def clears_def norm_code_def is_amount_mismatch_def AMOUNT_MATCH_TOLERANCE_def Let_def
      split: if_splits)

lemma classify_methods: "classify_discrepancy a b c d e = Some m \<Longrightarrow> m \<in> set UNRECONCILED_MATCH_METHODS"
  by (auto simp: classify_discrepancy_def UNRECONCILED_MATCH_METHODS_def Let_def split: if_splits)

lemma settles_clears:
  assumes "settles_as db p (bt_amount tx) (Some (bt_currency tx))" "pm_status p \<in> set EXPECTED_TO_CLEAR_STATUSES"
  shows "clears db p tx"
proof -
  obtain amt ccy where s: "settlement_amount_and_currency p (map_option currency (find_invoice (bd_pay db) (pm_invoice p))) = (amt, ccy)"
    by fastforce
  then have "amt = bt_amount tx" "ccy = [] \<or> norm_code (bt_currency tx) = [] \<or> ccy = norm_code (bt_currency tx)"
    using assms(1) by (auto simp: settles_as_def settlement_facts norm_code_def Let_def)
  moreover have "norm_code [] = []" by (simp add: norm_code_def py_strip_def py_upper_def)
  ultimately show ?thesis using assms(2) s by (auto simp: clears_def)
qed

lemma reference_found: "payment_by_reference db r = Some p \<Longrightarrow> p \<in> set (payments (bd_pay db))"
proof -
  assume a: "payment_by_reference db r = Some p"
  have "p \<in> set xs" if "filter f xs = [p]" for f and xs :: "payment list"
  proof -
    have "p \<in> set (filter f xs)" using that by simp
    then show ?thesis by simp
  qed
  then show ?thesis using a by (auto simp: payment_by_reference_def split: list.splits)
qed

lemma fuzzy_fold: "foldl (fuzzy_step db key) best cs = Some (p, c) \<Longrightarrow> best = Some (p, c) \<or> p \<in> set cs"
proof (induction cs arbitrary: best)
  case (Cons q cs)
  then show ?case by (auto simp: fuzzy_step_def Let_def split: option.splits if_splits)
qed simp

lemma match_line_sound:
  assumes "match_line db window claimed tx = Some a"
  shows "\<exists>p. p \<in> set (payments (bd_pay db)) \<and> pm_id p = ma_payment a \<and> pm_id p \<notin> set claimed
    \<and> (ma_method a \<in> set UNRECONCILED_MATCH_METHODS \<or> clears db p tx)"
proof (cases "reference_attempt db claimed tx")
  case (Some r)
  then have r: "r = a" using assms by (simp add: match_line_def)
  obtain p where p: "payment_by_reference db (the (bt_reference tx)) = Some p" "pm_id p \<notin> set claimed"
    using Some by (auto simp: reference_attempt_def split: if_splits option.splits)
  obtain amt ccy where s: "settlement_amount_and_currency p (map_option currency (find_invoice (bd_pay db) (pm_invoice p))) = (amt, ccy)"
    by fastforce
  have a: "ma_payment a = pm_id p"
    "ma_method a = get_or (classify_discrepancy (bt_amount tx) (Some (bt_currency tx)) amt (Some ccy) (Some (pm_status p))) ''provider_id''"
    using Some p s r by (auto simp: reference_attempt_def settlement_facts split: if_splits)
  have "ma_method a \<in> set UNRECONCILED_MATCH_METHODS \<or> clears db p tx"
    using a(2) classify_methods classify_clears [OF _ s]
    by (cases "classify_discrepancy (bt_amount tx) (Some (bt_currency tx)) amt (Some ccy) (Some (pm_status p))") auto
  then show ?thesis using p reference_found [OF p(1)] a(1) by (intro exI [of _ p]) simp
next
  case None
  have cand: "p \<in> set (payments (bd_pay db)) \<and> pm_id p \<notin> set claimed \<and> clears db p tx"
    if "p \<in> set (line_candidates db window claimed tx)" for p
    using that settles_clears by (auto simp: line_candidates_def candidate_payments_in_window_def)
  show ?thesis
  proof (cases "\<exists>p. line_candidates db window claimed tx = [p]")
    case True
    then obtain p where p: "line_candidates db window claimed tx = [p]" by blast
    then show ?thesis using None assms cand [of p] by (auto simp: match_line_def)
  next
    case False
    then obtain p c where "fuzzy_vendor_match db (line_candidates db window claimed tx) (the (bt_counterparty tx)) = Some (p, c)"
      "ma_payment a = pm_id p"
      using None assms by (auto simp: match_line_def Let_def split: list.splits if_splits)
    then have "p \<in> set (line_candidates db window claimed tx)"
      by (auto simp: fuzzy_vendor_match_def Let_def dest: fuzzy_fold split: if_splits)
    then show ?thesis using cand \<open>ma_payment a = pm_id p\<close> by auto
  qed
qed

section \<open>A batch\<close>

text \<open>Each line of a batch is left as it was or linked to a payment nothing claimed before.\<close>

definition line_kept :: "bank_tx \<Rightarrow> bank_tx \<Rightarrow> bool" where
  "line_kept t t' \<longleftrightarrow> bt_id t' = bt_id t \<and> bt_statement t' = bt_statement t \<and> bt_direction t' = bt_direction t"

definition line_good :: "bank_db \<Rightarrow> bank_tx \<Rightarrow> bool" where
  "line_good db t \<longleftrightarrow>
     (if bt_payment t = None then bt_method t = None
      else bt_direction t = ''debit'' \<and> bt_method t \<noteq> None \<and> list_ex (\<lambda>p. bt_payment t = Some (pm_id p)) (payments (bd_pay db)))"

definition fresh_line :: "bank_tx \<Rightarrow> bool" where
  "fresh_line t \<longleftrightarrow> bt_payment t = None \<and> bt_method t = None"

lemma claims_Cons [simp]:
  "claims (t # ts) = (case bt_payment t of None \<Rightarrow> claims ts | Some p \<Rightarrow> p # claims ts)"
  by (simp add: claims_def split: option.split)

lemma claims_Nil [simp]: "claims [] = []"
  by (simp add: claims_def)

lemma claims_append [simp]: "claims (xs @ ys) = claims xs @ claims ys"
  by (simp add: claims_def)

lemma set_claims: "p \<in> set (claims ts) \<longleftrightarrow> (\<exists>t \<in> set ts. bt_payment t = Some p)"
  by (induction ts) (auto split: option.splits)

lemma linked_simps [simp]:
  "bt_id (linked now a t) = bt_id t" "bt_statement (linked now a t) = bt_statement t" "bt_direction (linked now a t) = bt_direction t"
  "bt_payment (linked now a t) = Some (ma_payment a)" "bt_method (linked now a t) = Some (ma_method a)"
  "bt_amount (linked now a t) = bt_amount t" "bt_currency (linked now a t) = bt_currency t"
  by (simp_all add: linked_def)

lemma clears_linked [simp]: "clears db p (linked now a t) = clears db p t"
  by (simp add: clears_def)

definition batch_ok :: "bank_db \<Rightarrow> uuid list \<Rightarrow> bank_tx list \<Rightarrow> bank_tx list \<Rightarrow> bool" where
  "batch_ok db claimed txs ts \<longleftrightarrow>
     list_all2 line_kept txs ts \<and> distinct (claims ts) \<and> set (claims ts) \<inter> set claimed = {} \<and> list_all (line_good db) ts
     \<and> list_all (\<lambda>t. is_reconciled (bt_method t) (bt_payment t) \<longrightarrow> backed db t) ts"

lemma match_lines_ok:
  "match_lines db now window claimed counts txs = (ts, c) \<Longrightarrow> list_all fresh_line txs
     \<Longrightarrow> batch_ok db claimed txs ts
       \<and> mc_matched c = mc_matched counts + length (filter (\<lambda>t. is_reconciled (bt_method t) (bt_payment t)) ts)"
proof (induction txs arbitrary: claimed counts ts c)
  case Nil
  then show ?case by (auto simp: batch_ok_def)
next
  case (Cons tx txs)
  have fresh: "fresh_line tx" "list_all fresh_line txs" using Cons.prems(2) by simp_all
  show ?case
  proof (cases "bt_direction tx = ''debit''")
    case False
    then obtain rest where r: "match_lines db now window claimed (counts\<lparr>mc_skipped_credit := mc_skipped_credit counts + 1\<rparr>) txs = (rest, c)"
      "ts = tx # rest"
      using Cons.prems(1) by (auto split: prod.splits)
    show ?thesis using Cons.IH [OF r(1) fresh(2)] fresh(1) r(2)
      by (auto simp: batch_ok_def line_kept_def line_good_def fresh_line_def is_reconciled_def)
  next
    case debit: True
    show ?thesis
    proof (cases "match_line db window claimed tx")
      case None
      then obtain rest where r: "match_lines db now window claimed (counts\<lparr>mc_unmatched := mc_unmatched counts + 1\<rparr>) txs = (rest, c)"
        "ts = tx # rest"
        using Cons.prems(1) debit by (auto split: prod.splits)
      show ?thesis using Cons.IH [OF r(1) fresh(2)] fresh(1) r(2)
        by (auto simp: batch_ok_def line_kept_def line_good_def fresh_line_def is_reconciled_def)
    next
      case (Some a)
      then obtain rest where r: "match_lines db now window (ma_payment a # claimed) (count_method (ma_method a) counts) txs = (rest, c)"
        "ts = linked now a tx # rest"
        using Cons.prems(1) debit by (auto split: prod.splits)
      obtain p where p: "p \<in> set (payments (bd_pay db))" "pm_id p = ma_payment a" "pm_id p \<notin> set claimed"
        "ma_method a \<in> set UNRECONCILED_MATCH_METHODS \<or> clears db p tx"
        using match_line_sound [OF Some] by blast
      have good: "line_good db (linked now a tx)" 
        using debit p(1,2) by (auto simp: line_good_def list_ex_iff intro!: bexI [of _ p])
      have bk: "backed db (linked now a tx)" if "ma_method a \<notin> set UNRECONCILED_MATCH_METHODS"
      proof -
        have "ma_payment a = pm_id p \<and> clears db p tx" using p(2,4) that by simp
        then show ?thesis using debit p(1) by (auto simp: backed_def list_ex_iff intro!: bexI [of _ p])
      qed
      note ih = Cons.IH [OF r(1) fresh(2)]
      have count: "mc_matched (count_method m k) = mc_matched k + (if m \<in> set UNRECONCILED_MATCH_METHODS then 0 else 1)" for m k
        by (simp add: count_method_def UNRECONCILED_MATCH_METHODS_def)
      have "batch_ok db claimed (tx # txs) (linked now a tx # rest)"
        using ih good bk p(2,3) by (auto simp: batch_ok_def line_kept_def is_reconciled_def)
      then show ?thesis using ih r(2) by (auto simp: is_reconciled_def count)
    qed
  qed
qed

section \<open>Every step keeps the books straight\<close>

definition fresh_file :: "bank_db \<Rightarrow> bank_env \<Rightarrow> statement_file \<Rightarrow> bool" where
  "fresh_file db env f \<longleftrightarrow>
     distinct (map py_row_id (sf_rows f)) \<and> set (map py_row_id (sf_rows f)) \<inter> set (map bt_id (bd_lines db)) = {}
     \<and> bv_statement env \<notin> set (map bs_id (bd_statements db)) \<union> set (map bt_statement (bd_lines db))"

text \<open>The books move on their own; the foreign key keeps a claimed payment's row.\<close>

inductive bank_step :: "uuid \<Rightarrow> bank_db \<Rightarrow> bank_db \<Rightarrow> bool" for org where
  upload: "upload_statement env seen1 seen2 db form = Inr (s, created, db') \<Longrightarrow> bv_org env = org
     \<Longrightarrow> (\<And>rows. parse_csv_statement (uf_day_first form) (bv_row env) (uf_cells form) = Inr rows
           \<Longrightarrow> fresh_file db env (parsed_file form rows))
     \<Longrightarrow> bank_step org db db'"
| resolve: "resolve_transaction env seen db i tid pid = Inr db' \<Longrightarrow> bv_org env = org \<Longrightarrow> bank_step org db db'"
| delete: "delete_statement env db i = Inr db' \<Longrightarrow> bv_org env = org \<Longrightarrow> bank_step org db db'"
| books: "set (claims (bd_lines db)) \<subseteq> pm_id ` set (payments pay)
     \<Longrightarrow> bank_step org db (db\<lparr>bd_pay := pay, bd_created := created\<rparr>)"

definition bank_ok :: "uuid \<Rightarrow> bank_db \<Rightarrow> bool" where
  "bank_ok org db \<longleftrightarrow>
     distinct (map bt_id (bd_lines db)) \<and> distinct (claims (bd_lines db)) \<and> list_all (line_good db) (bd_lines db)
     \<and> list_all (\<lambda>t. list_ex (\<lambda>s. bs_id s = bt_statement t \<and> bs_org s = org) (bd_statements db)) (bd_lines db)"

lemma audit_bank_simps [simp]:
  "bd_lines (audit_bank env act i d db) = bd_lines db" "bd_statements (audit_bank env act i d db) = bd_statements db"
  "payments (bd_pay (audit_bank env act i d db)) = payments (bd_pay db)"
  "invoices (core (bd_pay (audit_bank env act i d db))) = invoices (core (bd_pay db))"
  by (simp_all add: audit_bank_def dispatch_audit_def)

lemma line_good_cong: "payments (bd_pay db') = payments (bd_pay db) \<Longrightarrow> line_good db' t = line_good db t"
  by (simp add: line_good_def)

lemma backed_cong:
  "payments (bd_pay db') = payments (bd_pay db) \<Longrightarrow> invoices (core (bd_pay db')) = invoices (core (bd_pay db))
     \<Longrightarrow> backed db' t = backed db t"
  by (simp add: backed_def clears_def find_invoice_def)

lemma kept_ids: "list_all2 line_kept txs ts \<Longrightarrow> map bt_id ts = map bt_id txs \<and> map bt_statement ts = map bt_statement txs"
  by (induction rule: list_all2_induct) (auto simp: line_kept_def)

lemma import_shape:
  assumes "import_pass env claimed db f = Inr (s, db')"
  obtains ts where "batch_ok db claimed (map (parsed_line env f) (sf_rows f)) ts"
    "bd_lines db' = bd_lines db @ ts" "bd_statements db' = bd_statements db @ [s]" "distinct (claims (bd_lines db @ ts))"
    "payments (bd_pay db') = payments (bd_pay db)" "invoices (core (bd_pay db')) = invoices (core (bd_pay db))"
    "bs_id s = bv_statement env" "bs_org s = bv_org env"
    "bs_matched s = length (filter (\<lambda>t. is_reconciled (bt_method t) (bt_payment t)) ts)"
proof -
  obtain ts counts where m: "match_statement_transactions db (bv_now env) claimed (map (parsed_line env f) (sf_rows f)) = (ts, counts)"
    by fastforce
  have fresh: "list_all fresh_line (map (parsed_line env f) (sf_rows f))"
    by (simp add: list_all_iff fresh_line_def parsed_line_def)
  note ok = match_lines_ok [OF m [unfolded match_statement_transactions_def] fresh]
  have "distinct (claims (bd_lines db @ ts))" using assms m by (auto simp: import_pass_def Let_def split: if_splits)
  then show ?thesis
    using assms m ok
    by (intro that [of ts]) (auto simp: import_pass_def Let_def parsed_statement_def no_matches_def split: if_splits)
qed

lemma upload_cases:
  assumes "upload_statement env seen1 seen2 db form = Inr (s, created, db')"
  obtains (found) "db' = db"
  | (new) claimed rows where "parse_csv_statement (uf_day_first form) (bv_row env) (uf_cells form) = Inr rows"
      "import_pass env claimed db (parsed_file form rows) = Inr (s, db')"
  using assms by (auto simp: upload_statement_def split: option.splits if_splits sum.splits)

lemma import_keeps:
  assumes "import_pass env claimed db f = Inr (s, db')" "bv_org env = org" "fresh_file db env f" "bank_ok org db"
  shows "bank_ok org db'"
proof -
  obtain ts where t: "batch_ok db claimed (map (parsed_line env f) (sf_rows f)) ts"
    "bd_lines db' = bd_lines db @ ts" "bd_statements db' = bd_statements db @ [s]" "distinct (claims (bd_lines db @ ts))"
    "payments (bd_pay db') = payments (bd_pay db)" "bs_id s = bv_statement env" "bs_org s = bv_org env"
    by (rule import_shape [OF assms(1)])
  have k: "map bt_id ts = map py_row_id (sf_rows f)" "set (map bt_statement ts) \<subseteq> {bv_statement env}"
    using kept_ids [of "map (parsed_line env f) (sf_rows f)" ts] t(1) by (auto simp: batch_ok_def parsed_line_def comp_def)
  have "distinct (map bt_id (bd_lines db'))"
    using assms(3,4) k(1) t(2) by (auto simp: bank_ok_def fresh_file_def)
  have good: "line_good db' t = line_good db t" for t by (rule line_good_cong [OF t(5)])
  have "list_all (line_good db') (bd_lines db')"
    using assms(4) t(1,2) by (auto simp: bank_ok_def batch_ok_def good list_all_iff)
  moreover note \<open>distinct (map bt_id (bd_lines db'))\<close>
  moreover have "list_all (\<lambda>t. list_ex (\<lambda>s. bs_id s = bt_statement t \<and> bs_org s = org) (bd_statements db')) (bd_lines db')"
    using assms(2,4) k(2) t(2,3,6,7) by (auto simp: bank_ok_def list_all_iff list_ex_iff)
  ultimately show ?thesis using t(2,4) by (simp add: bank_ok_def)
qed

lemma unlinked_simps [simp]:
  "bt_id (unlinked t) = bt_id t" "bt_statement (unlinked t) = bt_statement t" "bt_direction (unlinked t) = bt_direction t"
  "bt_payment (unlinked t) = None" "bt_method (unlinked t) = None"
  by (simp_all add: unlinked_def)

lemma write_line_set: "t \<in> set (write_line i f ts) \<Longrightarrow> t \<in> set ts \<or> (\<exists>u \<in> set ts. bt_id u = i \<and> t = f u)"
  by (auto simp: write_line_def set_update_where)

lemma write_line_once:
  "distinct (map bt_id ts) \<Longrightarrow> u \<in> set ts \<Longrightarrow> bt_id u = i \<Longrightarrow> t \<in> set (write_line i f ts) \<Longrightarrow> t \<in> set ts \<or> t = f u"
  by (auto dest!: write_line_set simp: distinct_map inj_on_def)

lemma write_line_ids: "(\<And>t. bt_id (f t) = bt_id t) \<Longrightarrow> map bt_id (write_line i f ts) = map bt_id ts"
  by (simp add: write_line_def map_update_where_frame)

lemma write_line_statements: "(\<And>t. bt_statement (f t) = bt_statement t) \<Longrightarrow> map bt_statement (write_line i f ts) = map bt_statement ts"
  by (simp add: write_line_def map_update_where_frame)

lemma claims_write:
  "distinct (map bt_id ts) \<Longrightarrow> distinct (claims ts) \<Longrightarrow> (\<And>t. bt_payment (f t) = q)
     \<Longrightarrow> q = None \<or> (\<forall>t \<in> set ts. bt_id t \<noteq> i \<longrightarrow> bt_payment t \<noteq> q) \<Longrightarrow> distinct (claims (write_line i f ts))"
proof (induction ts)
  case (Cons t ts)
  note IH = Cons.IH [OF _ _ Cons.prems(3)]
  have tail: "distinct (claims ts)" "distinct (map bt_id ts)" "q = None \<or> (\<forall>t \<in> set ts. bt_id t \<noteq> i \<longrightarrow> bt_payment t \<noteq> q)"
    using Cons.prems(1,2,4) by (auto split: option.splits)
  show ?case
  proof (cases "bt_id t = i")
    case True
    then have "write_line i f (t # ts) = f t # ts"
      using Cons.prems(1) by (auto simp: write_line_def update_where_def image_iff intro!: map_idI)
    moreover have "q = Some x \<Longrightarrow> x \<notin> set (claims ts)" for x
      using Cons.prems(1,4) True by (auto simp: set_claims image_iff)
    ultimately show ?thesis using tail(1) Cons.prems(3) by (auto split: option.splits)
  next
    case False
    have w: "write_line i f (t # ts) = t # write_line i f ts" using False by (simp add: write_line_def update_where_def)
    have "x \<notin> set (claims (write_line i f ts))" if "bt_payment t = Some x" for x
    proof
      assume "x \<in> set (claims (write_line i f ts))"
      then obtain v where v: "v \<in> set (write_line i f ts)" "bt_payment v = Some x" by (auto simp: set_claims)
      from write_line_set [OF v(1)] show False
      proof
        assume "v \<in> set ts"
        then show False using Cons.prems(2) that v(2) by (auto simp: set_claims)
      next
        assume "\<exists>u \<in> set ts. bt_id u = i \<and> v = f u"
        then have "q = Some x" using v(2) Cons.prems(3) by auto
        then show False using Cons.prems(4) False that by auto
      qed
    qed
    then show ?thesis using IH [OF tail(2,1,3)] w by (auto split: option.splits)
  qed
qed (simp add: write_line_def update_where_def)

lemma resolution_cases:
  assumes "resolution env db tx pid = Inr (f, j, v)"
  shows "f = unlinked \<or> (\<exists>p a v. f = linked (bv_now env) a \<and> bt_direction tx = ''debit'' \<and> p \<in> set (payments (bd_pay db))
       \<and> (\<forall>t \<in> set (bd_lines db). bt_id t \<noteq> bt_id tx \<longrightarrow> bt_payment t \<noteq> Some (pm_id p)) \<and> link_by_hand env db tx p = (a, v))"
proof (cases pid)
  case None
  then show ?thesis using assms by (simp add: resolution_def)
next
  case (Some k)
  obtain p a v where p: "find_payment (bd_pay db) k = Some p" "link_by_hand env db tx p = (a, v)" "f = linked (bv_now env) a"
    "bt_direction tx = ''debit''" "\<not> list_ex (\<lambda>t. bt_payment t = Some k \<and> bt_id t \<noteq> bt_id tx) (bd_lines db)"
    using assms Some by (auto simp: resolution_def split: option.splits prod.splits)
  have "p \<in> set (payments (bd_pay db))" "pm_id p = k"
    using find_Some_props [OF p(1) [unfolded find_payment_def]] by simp_all
  then show ?thesis using p(2-5) by (auto simp: list_ex_iff)
qed

text \<open>A resolution writes one line, of a statement the tenant owns.\<close>

lemma resolve_cases:
  assumes "resolve_transaction env seen db i tid pid = Inr db'"
  obtains tx f where "tx \<in> set (bd_lines db)" "bt_id tx = tid" "bd_lines db' = write_line tid f (bd_lines db)"
    "bd_statements db' = update_where (\<lambda>s. bs_id s = i)
       (\<lambda>s. s\<lparr>bs_matched := reconciled_count i (write_line tid f seen)\<rparr>) (bd_statements db)"
    "payments (bd_pay db') = payments (bd_pay db)" "invoices (core (bd_pay db')) = invoices (core (bd_pay db))"
    "f = unlinked \<or> (\<exists>p a v. f = linked (bv_now env) a \<and> bt_direction tx = ''debit'' \<and> p \<in> set (payments (bd_pay db))
       \<and> (\<forall>t \<in> set (bd_lines db). bt_id t \<noteq> tid \<longrightarrow> bt_payment t \<noteq> Some (pm_id p)) \<and> link_by_hand env db tx p = (a, v))"
proof -
  obtain s where s: "get_statement db (bv_org env) i = Inr s" using assms by (auto simp: resolve_transaction_def)
  obtain tx where t: "find (\<lambda>t. bt_id t = tid \<and> bt_statement t = bs_id s) (bd_lines db) = Some tx"
    using assms s by (auto simp: resolve_transaction_def split: option.splits)
  obtain f j v where r: "resolution env db tx pid = Inr (f, j, v)"
    using assms s t by (auto simp: resolve_transaction_def)
  have w: "\<exists>d. db' = audit_bank env ''bank_reconciliation.transaction_resolved'' i d
       (recompute_matched_count i (write_line tid f seen) (db\<lparr>bd_lines := write_line tid f (bd_lines db)\<rparr>))"
    using assms s t r by (auto simp: resolve_transaction_def Let_def)
  have after: "bd_lines db' = write_line tid f (bd_lines db)"
    "bd_statements db' = update_where (\<lambda>s. bs_id s = i)
       (\<lambda>s. s\<lparr>bs_matched := reconciled_count i (write_line tid f seen)\<rparr>) (bd_statements db)"
    "payments (bd_pay db') = payments (bd_pay db)" "invoices (core (bd_pay db')) = invoices (core (bd_pay db))"
    using w by (auto simp: recompute_matched_count_def)
  have tx: "tx \<in> set (bd_lines db)" "bt_id tx = tid" using find_Some_props [OF t] by simp_all
  show ?thesis using tx resolution_cases [OF r] after by (intro that [of tx f]) auto
qed

lemma by_hand_sound:
  assumes "link_by_hand env db tx p = (a, v)"
  shows "ma_payment a = pm_id p" "ma_method a \<in> set UNRECONCILED_MATCH_METHODS \<or> clears db p tx"
proof -
  obtain amt ccy where s: "settlement_amount_and_currency p (map_option currency (find_invoice (bd_pay db) (pm_invoice p))) = (amt, ccy)"
    by fastforce
  have a: "ma_payment a = pm_id p"
    "ma_method a = get_or (classify_discrepancy (bt_amount tx) (Some (bt_currency tx)) amt (Some ccy) (Some (pm_status p))) ''manual''"
    using assms s by (auto simp: link_by_hand_def)
  show "ma_payment a = pm_id p" by (rule a(1))
  show "ma_method a \<in> set UNRECONCILED_MATCH_METHODS \<or> clears db p tx"
    using a(2) classify_methods classify_clears [OF _ s]
    by (cases "classify_discrepancy (bt_amount tx) (Some (bt_currency tx)) amt (Some ccy) (Some (pm_status p))") auto
qed

lemma list_ex_update_where:
  "(\<And>s. Q (f s) = Q s) \<Longrightarrow> list_ex Q (update_where p f rows) = list_ex Q rows"
  by (induction rows) (simp_all add: update_where_def)

lemma list_all_map_cong: "map g ts = map g ts' \<Longrightarrow> list_all (\<lambda>t. R (g t)) ts = list_all (\<lambda>t. R (g t)) ts'"
proof -
  assume "map g ts = map g ts'"
  then have "list_all R (map g ts) = list_all R (map g ts')" by simp
  then show ?thesis by (simp add: list.pred_map comp_def)
qed

lemma resolve_keeps:
  assumes "resolve_transaction env seen db i tid pid = Inr db'" "bank_ok org db"
  shows "bank_ok org db'"
proof -
  obtain tx f where r: "tx \<in> set (bd_lines db)" "bt_id tx = tid" "bd_lines db' = write_line tid f (bd_lines db)"
    "bd_statements db' = update_where (\<lambda>s. bs_id s = i)
       (\<lambda>s. s\<lparr>bs_matched := reconciled_count i (write_line tid f seen)\<rparr>) (bd_statements db)"
    "payments (bd_pay db') = payments (bd_pay db)"
    "f = unlinked \<or> (\<exists>p a v. f = linked (bv_now env) a \<and> bt_direction tx = ''debit'' \<and> p \<in> set (payments (bd_pay db))
       \<and> (\<forall>t \<in> set (bd_lines db). bt_id t \<noteq> tid \<longrightarrow> bt_payment t \<noteq> Some (pm_id p)) \<and> link_by_hand env db tx p = (a, v))"
    by (rule resolve_cases [OF assms(1)])
  have ok: "distinct (map bt_id (bd_lines db))" "distinct (claims (bd_lines db))" "list_all (line_good db) (bd_lines db)"
    "list_all (\<lambda>t. list_ex (\<lambda>s. bs_id s = bt_statement t \<and> bs_org s = org) (bd_statements db)) (bd_lines db)"
    using assms(2) by (simp_all add: bank_ok_def)
  have frame: "bt_id (f t) = bt_id t" "bt_statement (f t) = bt_statement t" for t using r(6) by auto
  have "distinct (claims (bd_lines db'))"
    using r(6) claims_write [OF ok(1,2), of f _ tid] by (fastforce simp: r(3) dest: by_hand_sound(1))
  moreover have good: "line_good db' t = line_good db t" for t by (rule line_good_cong [OF r(5)])
  have "line_good db (f tx)"
  proof (cases "f = unlinked")
    case False
    then obtain p a v where p: "f = linked (bv_now env) a" "bt_direction tx = ''debit''" "p \<in> set (payments (bd_pay db))"
      "link_by_hand env db tx p = (a, v)"
      using r(6) by blast
    then show ?thesis using by_hand_sound(1) [OF p(4)] by (auto simp: line_good_def list_ex_iff intro!: bexI [of _ p])
  qed (simp add: line_good_def)
  then have "list_all (line_good db') (bd_lines db')"
    using ok(3) write_line_once [OF ok(1) r(1,2)] by (auto simp: list_all_iff good r(3))
  moreover have "list_all (\<lambda>t. list_ex (\<lambda>s. bs_id s = bt_statement t \<and> bs_org s = org) (bd_statements db')) (bd_lines db')"
    using ok(4) list_all_map_cong [OF write_line_statements [OF frame(2)], where R = "\<lambda>x. list_ex (\<lambda>s. bs_id s = x \<and> bs_org s = org) (bd_statements db)"]
    by (simp add: r(3,4) list_ex_update_where)
  ultimately show ?thesis using ok(1) by (simp add: bank_ok_def r(3) write_line_ids frame)
qed

lemma claims_filter: "distinct (claims ts) \<Longrightarrow> distinct (claims (filter q ts))"
proof (induction ts)
  case (Cons t ts)
  have "set (claims (filter q ts)) \<subseteq> set (claims ts)" by (auto simp: set_claims)
  then show ?case using Cons by (auto split: option.splits)
qed simp

lemma delete_statement_keeps:
  assumes "delete_statement env db i = Inr db'" "bank_ok org db"
  shows "bank_ok org db'"
proof -
  have d: "bd_lines db' = filter (\<lambda>t. bt_statement t \<noteq> i) (bd_lines db)" "bd_statements db' = filter (\<lambda>s. bs_id s \<noteq> i) (bd_statements db)"
    "payments (bd_pay db') = payments (bd_pay db)"
    using assms(1) by (auto simp: delete_statement_def delete_where_def)
  have good: "line_good db' t = line_good db t" for t by (rule line_good_cong [OF d(3)])
  show ?thesis
    using assms(2) by (fastforce simp: bank_ok_def d good list_all_iff list_ex_iff claims_filter distinct_map_filter)
qed

lemma bank_step_keeps: "bank_step org db db' \<Longrightarrow> bank_ok org db \<Longrightarrow> bank_ok org db'"
proof (induction rule: bank_step.induct)
  case (upload env seen1 seen2 db form s created db')
  from upload.hyps(1) show ?case
  proof (cases rule: upload_cases)
    case (new claimed rows)
    then show ?thesis using import_keeps upload by blast
  qed (use upload.prems in simp)
next
  case (books db pay created)
  have "line_good (db\<lparr>bd_pay := pay, bd_created := created\<rparr>) t" if "t \<in> set (bd_lines db)" for t
  proof -
    have "line_good db t" using books.prems that by (simp add: bank_ok_def list_all_iff)
    moreover have "\<exists>p \<in> set (payments pay). x = pm_id p" if "bt_payment t = Some x" for x
      using books.hyps that \<open>t \<in> set (bd_lines db)\<close> by (force simp: set_claims)
    ultimately show ?thesis by (auto simp: line_good_def list_ex_iff split: if_splits)
  qed
  then show ?case using books.prems by (simp add: bank_ok_def list_all_iff)
qed (auto intro: resolve_keeps delete_statement_keeps)

interpretation bank: step_system "\<lambda>db. bd_lines db = []" "bank_step org" "bank_ok org" for org
proof
  show "bank_ok org db" if "bd_lines db = []" for db using that by (simp add: bank_ok_def)
  show "bank_ok org db'" if "bank_ok org db" "bank_step org db db'" for db db' by (rule bank_step_keeps [OF that(2,1)])
qed

section \<open>What reconciliation promises\<close>

lemma bank_ok_line: "bank_ok org db \<Longrightarrow> t \<in> set (bd_lines db) \<Longrightarrow> line_good db t"
  by (simp add: bank_ok_def list_all_iff)

lemma bank_ok_statement:
  "bank_ok org db \<Longrightarrow> t \<in> set (bd_lines db) \<Longrightarrow> list_ex (\<lambda>s. bs_id s = bt_statement t \<and> bs_org s = org) (bd_statements db)"
  by (simp add: bank_ok_def list_all_iff)

text \<open>Two lines with a common claim are one line.\<close>

lemma claim_unique:
  "distinct (claims ts) \<Longrightarrow> distinct (map bt_id ts) \<Longrightarrow> t \<in> set ts \<Longrightarrow> u \<in> set ts \<Longrightarrow> bt_payment t = Some p
     \<Longrightarrow> bt_payment u = Some p \<Longrightarrow> t = u"
  by (induction ts) (auto simp: set_claims split: option.splits)

lemma unlinked_not_reconciled: "\<not> is_reconciled (bt_method (unlinked t)) (bt_payment (unlinked t))"
  by (simp add: is_reconciled_def)

lemma resolve_backs:
  assumes "resolve_transaction env seen db i tid pid = Inr db'" "bank_ok org db" "t \<in> set (bd_lines db')"
    "is_reconciled (bt_method t) (bt_payment t)"
  shows "t \<in> set (bd_lines db) \<or> backed db' t"
proof -
  obtain tx f where r: "tx \<in> set (bd_lines db)" "bt_id tx = tid" "bd_lines db' = write_line tid f (bd_lines db)"
    "payments (bd_pay db') = payments (bd_pay db)" "invoices (core (bd_pay db')) = invoices (core (bd_pay db))"
    "f = unlinked \<or> (\<exists>p a v. f = linked (bv_now env) a \<and> bt_direction tx = ''debit'' \<and> p \<in> set (payments (bd_pay db))
       \<and> (\<forall>t \<in> set (bd_lines db). bt_id t \<noteq> tid \<longrightarrow> bt_payment t \<noteq> Some (pm_id p)) \<and> link_by_hand env db tx p = (a, v))"
    by (rule resolve_cases [OF assms(1)])
  have once: "t \<in> set (bd_lines db) \<or> t = f tx"
    using write_line_once [of "bd_lines db" tx tid t f] assms(2,3) r(1-3) by (simp add: bank_ok_def)
  show ?thesis
  proof (cases "t \<in> set (bd_lines db)")
    case False
    then have t: "t = f tx" using once by simp
    then have "f \<noteq> unlinked" using assms(4) unlinked_not_reconciled by auto
    then obtain p a v where p: "f = linked (bv_now env) a" "bt_direction tx = ''debit''" "p \<in> set (payments (bd_pay db))"
      "link_by_hand env db tx p = (a, v)"
      using r(6) by blast
    have "ma_payment a = pm_id p \<and> clears db p tx"
      using by_hand_sound [OF p(4)] assms(4) t p(1) by (auto simp: is_reconciled_def)
    then have "backed db t"
      using t p(1-3) by (auto simp: backed_def list_ex_iff intro!: bexI [of _ p])
    then show ?thesis using backed_cong [OF r(4,5)] by simp
  qed simp
qed

lemma import_backs:
  assumes "import_pass env claimed db f = Inr (s, db')" "t \<in> set (bd_lines db')" "is_reconciled (bt_method t) (bt_payment t)"
  shows "t \<in> set (bd_lines db) \<or> backed db' t"
proof -
  obtain ts where t: "batch_ok db claimed (map (parsed_line env f) (sf_rows f)) ts" "bd_lines db' = bd_lines db @ ts"
    "payments (bd_pay db') = payments (bd_pay db)" "invoices (core (bd_pay db')) = invoices (core (bd_pay db))"
    by (rule import_shape [OF assms(1)])
  show ?thesis
    using t(1,2) assms(2,3) backed_cong [OF t(3,4)] by (auto simp: batch_ok_def list_all_iff)
qed

text \<open>The pass that reads every claim never runs into one.\<close>

lemma fresh_pass:
  assumes "statement_by_hash db (bv_org env) (sf_account f) (sf_hash f) = None" "bank_ok org db"
  shows "\<exists>s db'. import_pass env (claims (bd_lines db)) db f = Inr (s, db')"
proof -
  obtain ts counts where m: "match_statement_transactions db (bv_now env) (claims (bd_lines db)) (map (parsed_line env f) (sf_rows f)) = (ts, counts)"
    by fastforce
  have fresh: "list_all fresh_line (map (parsed_line env f) (sf_rows f))"
    by (simp add: list_all_iff fresh_line_def parsed_line_def)
  have "batch_ok db (claims (bd_lines db)) (map (parsed_line env f) (sf_rows f)) ts"
    using match_lines_ok [OF m [unfolded match_statement_transactions_def] fresh] by simp
  then have "distinct (claims (bd_lines db @ ts))" using assms(2) by (auto simp: batch_ok_def bank_ok_def)
  then show ?thesis using assms(1) m by (simp add: import_pass_def Let_def)
qed

lemma import_matched:
  assumes "import_pass env claimed db f = Inr (s, db')" "fresh_file db env f"
  shows "bs_matched s = reconciled_count (bs_id s) (bd_lines db')"
proof -
  obtain ts where t: "batch_ok db claimed (map (parsed_line env f) (sf_rows f)) ts" "bd_lines db' = bd_lines db @ ts"
    "bs_id s = bv_statement env" "bs_matched s = length (filter (\<lambda>t. is_reconciled (bt_method t) (bt_payment t)) ts)"
    by (rule import_shape [OF assms(1)])
  have "set (map bt_statement ts) \<subseteq> {bv_statement env}"
    using kept_ids [of "map (parsed_line env f) (sf_rows f)" ts] t(1) by (auto simp: batch_ok_def parsed_line_def)
  then have new: "filter (\<lambda>t. bt_statement t = bs_id s \<and> is_reconciled (bt_method t) (bt_payment t)) ts
     = filter (\<lambda>t. is_reconciled (bt_method t) (bt_payment t)) ts"
    using t(3) by (auto intro: filter_cong)
  have old: "filter (\<lambda>t. bt_statement t = bs_id s \<and> is_reconciled (bt_method t) (bt_payment t)) (bd_lines db) = []"
    using assms(2) t(3) by (auto simp: fresh_file_def filter_empty_conv image_iff)
  show ?thesis by (simp add: reconciled_count_def t(2,4) new old)
qed

lemma find_app: "find q xs = None \<Longrightarrow> find q (xs @ ys) = find q ys"
  by (induction xs) (auto split: if_splits)

lemma hash_after_import:
  assumes "import_pass env claimed db f = Inr (s, db')"
  shows "statement_by_hash db' (bv_org env) (sf_account f) (sf_hash f) = Some s"
proof -
  have "statement_by_hash db (bv_org env) (sf_account f) (sf_hash f) = None"
    "\<exists>c. s = (parsed_statement env f)\<lparr>bs_matched := c\<rparr>" "bd_statements db' = bd_statements db @ [s]"
    using assms by (auto simp: import_pass_def Let_def split: if_splits prod.splits)
  then show ?thesis
    by (auto simp: statement_by_hash_def parsed_statement_def find_app)
qed

text \<open>
  C24: A payment clears at most once. However imports, resolutions by hand, deletions and the books follow one
  another, a payment is claimed by at most one bank line, and a line that claims one is a debit that names a
  payment on file.
\<close>

theorem a_payment_clears_once:
  assumes "(bank_step org)\<^sup>*\<^sup>* db db'" "bank_ok org db" "t \<in> set (bd_lines db')" "bt_payment t = Some p"
  shows "bt_direction t = ''debit'' \<and> (\<exists>q. q \<in> set (payments (bd_pay db')) \<and> pm_id q = p)
    \<and> filter (\<lambda>u. bt_payment u = Some p) (bd_lines db') = [t]"
proof -
  have ok: "bank_ok org db'" using bank.runs_keep [OF assms(1,2)] .
  have "filter (\<lambda>u. bt_payment u = Some p) ts = [t]"
    if "distinct (claims ts)" "distinct (map bt_id ts)" "t \<in> set ts" for ts
    using that assms(4) by (induction ts) (auto simp: set_claims filter_empty_conv split: option.splits if_splits)
  then show ?thesis using ok bank_ok_line [OF ok assms(3)] assms(3,4) by (auto simp: bank_ok_def line_good_def list_ex_iff)
qed

text \<open>
  C11: A line becomes reconciled only with a payment behind it: whatever the step, a line it makes count as
  reconciled is a debit whose payment the books say went out, for the amount to the cent and in the line's
  currency wherever both are known.
\<close>

theorem reconciling_needs_a_clearing_payment:
  assumes "bank_step org db db'" "bank_ok org db" "t \<in> set (bd_lines db')" "is_reconciled (bt_method t) (bt_payment t)"
    "t \<notin> set (bd_lines db)"
  shows "backed db' t"
  using assms
proof (induction rule: bank_step.induct)
  case (upload env seen1 seen2 db form s created db')
  show ?case by (rule upload_cases [OF upload.hyps(1)]) (use upload.prems import_backs in blast)+
next
  case (resolve env seen db i tid pid db')
  then show ?case using resolve_backs by blast
qed (auto simp: delete_statement_def)

text \<open>
  C10: Nothing falls between the buckets: in every state the component reaches, a debit line is in exactly one of
  reconciled, unmatched and discrepancies, and a payment the books say went out by the cutoff is listed as
  uncleared exactly when no line claims it.
\<close>

theorem worksheet_accounts_for_everything:
  assumes "(bank_step org)\<^sup>*\<^sup>* db db'" "bank_ok org db"
  shows "(t \<in> set (bd_lines db') \<and> bt_direction t = ''debit''
       \<longrightarrow> length (filter (\<lambda>b. b) [is_reconciled (bt_method t) (bt_payment t), t \<in> set (unmatched_debits db' org),
                                    t \<in> set (discrepancies db' org)]) = 1)
    \<and> (p \<in> set (payments (bd_pay db')) \<and> pm_status p \<in> set EXPECTED_TO_CLEAR_STATUSES \<and> sent_on db' p \<le> today - days
       \<longrightarrow> (p \<in> set (uncleared_payments db' today days)) = (\<forall>u \<in> set (bd_lines db'). bt_payment u \<noteq> Some (pm_id p)))"
proof -
  have ok: "bank_ok org db'" using bank.runs_keep [OF assms] .
  have "length (filter (\<lambda>b. b) [is_reconciled (bt_method t) (bt_payment t), t \<in> set (unmatched_debits db' org),
                                    t \<in> set (discrepancies db' org)]) = 1"
    if "t \<in> set (bd_lines db')" "bt_direction t = ''debit''"
    using bank_ok_line [OF ok that(1)] bank_ok_statement [OF ok that(1)] that
    by (auto simp: unmatched_debits_def discrepancies_def is_reconciled_def line_good_def split: if_splits)
  then show ?thesis by (auto simp: uncleared_payments_def set_claims)
qed

text \<open>
  C30: An upload of a readable file whose second pass reads the database as it stands is never refused, however
  stale the first: it returns the one statement of that file, created if there was none and then with a matched
  count that is the number of its reconciled lines, and uploading the file again, whoever does it, returns that
  statement and changes nothing.
\<close>

theorem upload_lands_once:
  assumes "statement_by_hash seen1 (bv_org env) (uf_account form) (uf_hash form) = None"
    "parse_csv_statement (uf_day_first form) (bv_row env) (uf_cells form) = Inr rows"
    "fresh_file db env (parsed_file form rows)" "bank_ok org db" "bv_org env' = bv_org env"
  shows "\<exists>s created db'. upload_statement env seen1 db db form = Inr (s, created, db')
    \<and> statement_by_hash db' (bv_org env) (uf_account form) (uf_hash form) = Some s
    \<and> created = (statement_by_hash db (bv_org env) (uf_account form) (uf_hash form) = None)
    \<and> (created \<longrightarrow> bs_matched s = reconciled_count (bs_id s) (bd_lines db'))
    \<and> upload_statement env' db' seen db' form = Inr (s, False, db')"
proof (cases "statement_by_hash db (bv_org env) (uf_account form) (uf_hash form)")
  case (Some s)
  then have "import_pass env c db (parsed_file form rows) = Inl IntegrityError" for c
    by (simp add: import_pass_def parsed_file_def)
  then have "upload_statement env seen1 db db form = Inr (s, False, db)"
    using assms(1,2) Some by (simp add: upload_statement_def)
  then show ?thesis using Some assms(5) by (auto simp: upload_statement_def)
next
  case None
  let ?f = "parsed_file form rows"
  have h: "statement_by_hash db (bv_org env) (sf_account ?f) (sf_hash ?f) = None" using None by (simp add: parsed_file_def)
  obtain claimed s db' where i: "import_pass env claimed db ?f = Inr (s, db')"
    "upload_statement env seen1 db db form = Inr (s, True, db')"
    using assms(1,2) None fresh_pass [OF h assms(4)]
    by (cases "import_pass env (claims (bd_lines seen1)) db ?f") (auto simp: upload_statement_def)
  have "statement_by_hash db' (bv_org env) (uf_account form) (uf_hash form) = Some s"
    using hash_after_import [OF i(1)] by (simp add: parsed_file_def)
  then show ?thesis
    using import_matched [OF i(1) assms(3)] i(2) None assms(5) by (auto simp: upload_statement_def)
qed

definition sample_bank_db :: bank_db where
  "sample_bank_db = \<lparr>bd_pay = sample_paying_db, bd_created = (\<lambda>_. 0), bd_statements = [], bd_lines = []\<rparr>"

definition sample_bank_env :: "uuid \<Rightarrow> bank_env" where
  "sample_bank_env k = \<lparr>bv_now = 5, bv_org = 1, bv_user = 30, bv_audit_key = 60, bv_statement = k,
     bv_row = (\<lambda>n. of_nat (n + 499)), bv_money_text = (\<lambda>_. [])\<rparr>"

text \<open>A debit of the payment's amount that carries its reference, and a credit.\<close>

definition sample_statement :: statement_file where
  "sample_statement =
     \<lparr>sf_account = ''CHK'', sf_start = 0, sf_end = 3, sf_currency = ''USD'', sf_hash = ''h1'',
      sf_rows = [\<lparr>py_row_id = 501, py_date = 1, py_amount = 100, py_direction = ''debit'', py_description = None,
                   py_counterparty = None, py_reference = Some ''tr_1''\<rparr>,
                 \<lparr>py_row_id = 502, py_date = 2, py_amount = 7, py_direction = ''credit'', py_description = None,
                   py_counterparty = None, py_reference = None\<rparr>]\<rparr>"

definition sample_form :: upload_form where
  "sample_form =
     \<lparr>uf_account = ''CHK'', uf_start = 0, uf_end = 3, uf_currency = ''USD'', uf_hash = ''h1'',
      uf_cells = [[''Date'', ''Amount'', ''Ref''], [''1970-01-02'', ''-100'', ''tr_1''], [''1970-01-03'', ''7'', '' '']],
      uf_day_first = False\<rparr>"

lemma sample_form_parses:
  "parse_csv_statement False (\<lambda>n. of_nat (n + 499)) (uf_cells sample_form) = Inr (sf_rows sample_statement)"
proof -
  have headers: "find_col [''Date'', ''Amount'', ''Ref''] DATE_HEADERS = Some ''Date''"
    "find_col [''Date'', ''Amount'', ''Ref''] AMOUNT_HEADERS = Some ''Amount''"
    "find_col [''Date'', ''Amount'', ''Ref''] REFERENCE_HEADERS = Some ''Ref''"
    "find_col [''Date'', ''Amount'', ''Ref''] DESC_HEADERS = None"
    "find_col [''Date'', ''Amount'', ''Ref''] COUNTERPARTY_HEADERS = None"
    "map py_strip [''Date'', ''Amount'', ''Ref''] = [''Date'', ''Amount'', ''Ref'']"
    by code_simp+
  have cells: "bank_date ''1970-01-02'' False = Some \<lparr>year = 1970, month = 1, day = 2\<rparr>"
    "bank_date ''1970-01-03'' False = Some \<lparr>year = 1970, month = 1, day = 3\<rparr>"
    "parse_amount ''-100'' = Some (- 100)" "parse_amount ''7'' = Some 7"
    by (simp_all add: read_eval amount_eval)
  show ?thesis
    by (simp add: parse_csv_statement_def sample_form_def sample_statement_def headers cells parse_row_def row_amount_def
        text_cell_def cell_at_def py_strip_def is_space_def or_none_def day_number_def ordinal_def days_before_year_def
        days_before_month_def is_leap_def)
qed

lemma sample_parses:
  "parse_csv_statement (uf_day_first sample_form) (bv_row (sample_bank_env k)) (uf_cells sample_form) = Inr (sf_rows sample_statement)"
  "parsed_file sample_form (sf_rows sample_statement) = sample_statement"
  using sample_form_parses
  by (simp_all add: sample_bank_env_def sample_form_def parsed_file_def sample_statement_def)

lemma sample_import:
  "case import_pass (sample_bank_env 500) [] sample_bank_db sample_statement of
      Inl _ \<Rightarrow> False
    | Inr (s, db') \<Rightarrow> list_ex (\<lambda>t. bt_id t = 501 \<and> bt_payment t = Some 90
         \<and> is_reconciled (bt_method t) (bt_payment t)) (bd_lines db')
         \<and> uncleared_payments (db'\<lparr>bd_pay := sample_paying_db\<lparr>payments := [sample_payment\<lparr>pm_status := ''voided''\<rparr>]\<rparr>,
                                  bd_created := \<lambda>_. 0\<rparr>) 5 0 = []
         \<and> unmatched_debits db' 1 = [] \<and> discrepancies (db'\<lparr>bd_pay := sample_paying_db\<lparr>payments :=
              [sample_payment\<lparr>pm_status := ''voided''\<rparr>]\<rparr>, bd_created := \<lambda>_. 0\<rparr>) 1 = []
         \<and> claims (bd_lines db') = [90]"
  by code_simp

lemma sample_upload:
  obtains s db' t where "upload_statement (sample_bank_env 500) sample_bank_db sample_bank_db sample_bank_db sample_form = Inr (s, True, db')"
    "t \<in> set (bd_lines db')" "bt_id t = 501" "bt_payment t = Some 90" "is_reconciled (bt_method t) (bt_payment t)"
proof -
  have none: "statement_by_hash sample_bank_db x y z = None" "claims (bd_lines sample_bank_db) = []" for x y z
    by (simp_all add: statement_by_hash_def sample_bank_db_def)
  show ?thesis
    using sample_import that
    by (auto simp: upload_statement_def sample_parses none list_ex_iff split: sum.splits)
qed

lemma sample_bank_ok: "bank_ok 1 sample_bank_db"
  by (simp add: bank_ok_def sample_bank_db_def)

lemma sample_file_fresh: "fresh_file sample_bank_db (sample_bank_env 500) sample_statement"
  by (simp add: fresh_file_def sample_bank_db_def sample_statement_def)

lemma sample_bank_step:
  "upload_statement (sample_bank_env 500) sample_bank_db sample_bank_db sample_bank_db sample_form = Inr (s, True, db') \<Longrightarrow> bank_step 1 sample_bank_db db'"
  using sample_file_fresh by (auto intro!: bank_step.upload simp: sample_parses) (simp add: sample_bank_env_def)

theorem a_payment_clears_once_witness:
  "\<exists>db' t. (bank_step 1)\<^sup>*\<^sup>* sample_bank_db db' \<and> filter (\<lambda>u. bt_payment u = Some 90) (bd_lines db') = [t]"
proof (rule sample_upload)
  fix s db' t
  assume u: "upload_statement (sample_bank_env 500) sample_bank_db sample_bank_db sample_bank_db sample_form = Inr (s, True, db')" and t: "t \<in> set (bd_lines db')" "bt_id t = 501"
    "bt_payment t = Some 90" "is_reconciled (bt_method t) (bt_payment t)"
  have r: "(bank_step 1)\<^sup>*\<^sup>* sample_bank_db db'" using sample_bank_step [OF u] by simp
  show ?thesis using r a_payment_clears_once [OF r sample_bank_ok t(1,3)] by blast
qed

theorem reconciling_needs_a_clearing_payment_witness:
  "\<exists>db' t. bank_step 1 sample_bank_db db' \<and> t \<in> set (bd_lines db') \<and> backed db' t"
proof (rule sample_upload)
  fix s db' t
  assume u: "upload_statement (sample_bank_env 500) sample_bank_db sample_bank_db sample_bank_db sample_form = Inr (s, True, db')" and t: "t \<in> set (bd_lines db')" "bt_id t = 501"
    "bt_payment t = Some 90" "is_reconciled (bt_method t) (bt_payment t)"
  have new: "t \<notin> set (bd_lines sample_bank_db)" by (simp add: sample_bank_db_def)
  show ?thesis
    using sample_bank_step [OF u] t(1)
      reconciling_needs_a_clearing_payment [OF sample_bank_step [OF u] sample_bank_ok t(1,4) new] by blast
qed

theorem worksheet_accounts_for_everything_witness:
  "\<exists>db' t. bt_id t = 501 \<and> t \<in> set (bd_lines db')
     \<and> length (filter (\<lambda>b. b) [is_reconciled (bt_method t) (bt_payment t), t \<in> set (unmatched_debits db' 1),
                               t \<in> set (discrepancies db' 1)]) = 1
     \<and> sample_payment\<lparr>pm_status := ''completed''\<rparr> \<in> set (uncleared_payments sample_bank_db 5 1)"
proof (rule sample_upload)
  fix s db' t
  assume u: "upload_statement (sample_bank_env 500) sample_bank_db sample_bank_db sample_bank_db sample_form = Inr (s, True, db')" and t: "t \<in> set (bd_lines db')" "bt_id t = 501"
    "bt_payment t = Some 90" "is_reconciled (bt_method t) (bt_payment t)"
  have r: "(bank_step 1)\<^sup>*\<^sup>* sample_bank_db db'" using sample_bank_step [OF u] by simp
  have "bank_ok 1 db'" using bank.runs_keep [OF r sample_bank_ok] .
  from bank_ok_line [OF this t(1)] have "bt_direction t = ''debit''" using t(3) by (simp add: line_good_def)
  then have "length (filter (\<lambda>b. b) [is_reconciled (bt_method t) (bt_payment t), t \<in> set (unmatched_debits db' 1),
                                    t \<in> set (discrepancies db' 1)]) = 1"
    using worksheet_accounts_for_everything [OF r sample_bank_ok, THEN conjunct1, THEN mp, OF conjI] t(1) by blast
  moreover have "sample_payment\<lparr>pm_status := ''completed''\<rparr> \<in> set (payments (bd_pay sample_bank_db))"
    "pm_status (sample_payment\<lparr>pm_status := ''completed''\<rparr>) \<in> set EXPECTED_TO_CLEAR_STATUSES"
    "sent_on sample_bank_db (sample_payment\<lparr>pm_status := ''completed''\<rparr>) \<le> 5 - 1"
    "bd_lines sample_bank_db = []"
    by (simp_all add: sample_bank_db_def sample_paying_db_def sample_payment_def EXPECTED_TO_CLEAR_STATUSES_def sent_on_def sent_at_def)
  then have "sample_payment\<lparr>pm_status := ''completed''\<rparr> \<in> set (uncleared_payments sample_bank_db 5 1)"
    using worksheet_accounts_for_everything [OF rtranclp.rtrancl_refl sample_bank_ok, THEN conjunct2, THEN mp, OF conjI, OF _ conjI]
    by simp
  ultimately show ?thesis using t(1,2) by blast
qed

theorem upload_lands_once_witness:
  "\<exists>s db'. upload_statement (sample_bank_env 500) sample_bank_db sample_bank_db sample_bank_db sample_form = Inr (s, True, db')
     \<and> upload_statement (sample_bank_env 600) db' sample_bank_db db' sample_form = Inr (s, False, db')"
proof -
  have none: "statement_by_hash sample_bank_db x y z = None" for x y z
    by (simp add: statement_by_hash_def sample_bank_db_def)
  have "bv_org (sample_bank_env 600) = bv_org (sample_bank_env 500)" by (simp add: sample_bank_env_def)
  from upload_lands_once [OF none sample_parses(1) _ sample_bank_ok this, of sample_bank_db, unfolded sample_parses(2),
      OF sample_file_fresh]
  show ?thesis by (auto simp: none)
qed

section \<open>Where the worksheet is blind\<close>

text \<open>A payment voided after its line matched: the bank moved the money, and no bucket shows it.\<close>

theorem voided_payment_stays_reconciled:
  "\<exists>db db' t. bank_step 1 db db' \<and> t \<in> set (bd_lines db') \<and> list_all (\<lambda>p. pm_status p = ''voided'') (payments (bd_pay db'))
     \<and> is_reconciled (bt_method t) (bt_payment t) \<and> uncleared_payments db' 5 0 = [] \<and> unmatched_debits db' 1 = []
     \<and> discrepancies db' 1 = []"
proof -
  let ?pay = "sample_paying_db\<lparr>payments := [sample_payment\<lparr>pm_status := ''voided''\<rparr>]\<rparr>"
  obtain db1 where d: "list_ex (\<lambda>t. is_reconciled (bt_method t) (bt_payment t)) (bd_lines db1)"
    "uncleared_payments (db1\<lparr>bd_pay := ?pay, bd_created := \<lambda>_. 0\<rparr>) 5 0 = []"
    "unmatched_debits (db1\<lparr>bd_pay := ?pay, bd_created := \<lambda>_. 0\<rparr>) 1 = []"
    "discrepancies (db1\<lparr>bd_pay := ?pay, bd_created := \<lambda>_. 0\<rparr>) 1 = []" "claims (bd_lines db1) = [90]"
    using sample_import by (auto simp: list_ex_iff unmatched_debits_def split: sum.splits)
  have "bank_step 1 db1 (db1\<lparr>bd_pay := ?pay, bd_created := \<lambda>_. 0\<rparr>)"
    by (rule bank_step.books) (simp add: d(5) sample_payment_def)
  moreover obtain t where "t \<in> set (bd_lines db1)" "is_reconciled (bt_method t) (bt_payment t)"
    using d(1) by (auto simp: list_ex_iff)
  ultimately show ?thesis using d(2-4)
    by (intro exI [of _ db1] exI [of _ "db1\<lparr>bd_pay := ?pay, bd_created := \<lambda>_. 0\<rparr>"] exI [of _ t]) simp
qed

definition sample_other_payment :: payment where
  "sample_other_payment = sample_payment\<lparr>pm_id := 92, pm_provider_id := Some ''tr_2''\<rparr>"

definition sample_two_debits :: "string \<Rightarrow> statement_file" where
  "sample_two_debits r = sample_statement\<lparr>sf_rows :=
     [\<lparr>py_row_id = 501, py_date = 1, py_amount = 100, py_direction = ''debit'', py_description = None,
        py_counterparty = None, py_reference = Some ''tr_1''\<rparr>,
      \<lparr>py_row_id = 503, py_date = 1, py_amount = 100, py_direction = ''debit'', py_description = None,
        py_counterparty = None, py_reference = Some r\<rparr>]\<rparr>"

definition sample_two_payments :: bank_db where
  "sample_two_payments = sample_bank_db\<lparr>bd_pay := sample_paying_db\<lparr>payments := [sample_payment, sample_other_payment]\<rparr>\<rparr>"

text \<open>A second debit under a reference already claimed clears another payment of that amount.\<close>

theorem duplicated_debit_clears_another_payment:
  "map (\<lambda>t. (bt_reference t, bt_payment t, bt_method t))
     (fst (match_statement_transactions sample_two_payments 5 []
        (map (parsed_line (sample_bank_env 500) (sample_two_debits ''tr_1'')) (sf_rows (sample_two_debits ''tr_1'')))))
   = [(Some ''tr_1'', Some 90, Some ''provider_id''), (Some ''tr_1'', Some 92, Some ''amount_date'')]"
  by code_simp

definition sample_two_lines :: bank_db where
  "sample_two_lines = sample_two_payments
     \<lparr>bd_statements := [parsed_statement (sample_bank_env 500) (sample_two_debits ''tr_2'')],
      bd_lines := map (parsed_line (sample_bank_env 500) (sample_two_debits ''tr_2'')) (sf_rows (sample_two_debits ''tr_2''))\<rparr>"

text \<open>Two resolutions that read the lines before either commits leave the count at one of two.\<close>

theorem racing_resolutions_miscount:
  "\<exists>db1 db2. resolve_transaction (sample_bank_env 600) (bd_lines sample_two_lines) sample_two_lines 500 501 (Some 90) = Inr db1
     \<and> resolve_transaction (sample_bank_env 600) (bd_lines sample_two_lines) db1 500 503 (Some 92) = Inr db2
     \<and> reconciled_count 500 (bd_lines db2) = 2 \<and> map bs_matched (bd_statements db2) = [1]"
proof -
  have "case resolve_transaction (sample_bank_env 600) (bd_lines sample_two_lines) sample_two_lines 500 501 (Some 90) of
      Inl _ \<Rightarrow> False
    | Inr db1 \<Rightarrow>
        (case resolve_transaction (sample_bank_env 600) (bd_lines sample_two_lines) db1 500 503 (Some 92) of
          Inl _ \<Rightarrow> False
        | Inr db2 \<Rightarrow> reconciled_count 500 (bd_lines db2) = 2 \<and> map bs_matched (bd_statements db2) = [1])"
    by code_simp
  then show ?thesis by (simp split: sum.splits)
qed

end
