(* ===== verification/Spec2Isabelle.thy ===== *)
theory Spec2Isabelle
  imports Erp Banking Payment_Ledger Credit_Memos Billing Budgets Po_Matching Recurring_Lifecycle Bank_Reconciliation
begin

text \<open>
  FeohLedger: the accounts-payable backend (backend/app) as an Isabelle/HOL model.

  An invoice enters a workflow, is reviewed and approved under segregation of duties and money gates,
  is paid by a run through a processor, is reconciled with what the processor settled and with what the
  bank moved, and is pushed to the ERP. Before it stands the demand (requisition, purchase order, budget) the invoice is matched
  with; around it stand exceptions that block payment, credit memos that reduce it, and the billing of
  the tenant itself.

  Parts, and the theories that hold them (all paths under backend/app):

  \<^item> the Python the code runs on: \<open>Prelude\<close> (exceptions as \<open>Inl\<close>, sequencing, tables, step systems),
    \<open>Py_Text\<close>, \<open>Py_Decimal\<close> (quantize, 28-digit contexts), \<open>Py_Values\<close> (JSON, UUIDs), \<open>Calendar\<close> (datetimes);
  \<^item> the invoice side: \<open>Models\<close> (rows), \<open>Step_Types\<close> (services/workflow_step_types.py), \<open>Workflow_Engine\<close>
    (services/workflow_engine.py), \<open>Currency\<close> (services/currency_conversion.py),
    \<open>Approval_Chain\<close> (services/approval_chain.py), \<open>Approval_Signature\<close> (services/approval_signature.py),
    \<open>Exceptions\<close> and \<open>Exception_Lifecycle\<close> (services/exception_lifecycle.py, api/exceptions.py), \<open>Review\<close>
    (services/review.py, services/structuring.py), \<open>Erp\<close> (services/erp.py, api/workflow.py);
  \<^item> the payment side: \<open>Payment_Models\<close> (rows), \<open>Payment_Controls\<close>, \<open>International\<close> (payment_methods,
    payment_corridor, international_payments), \<open>Banking\<close> (utils/banking.py), \<open>Payment_Runs\<close>
    (services/payment_runs.py), \<open>Compliance\<close> (services/compliance.py), \<open>Settlement\<close>
    (services/payment_settlement.py), \<open>Settlement_Record\<close> (payment_settlement_record, payment_erp_sync),
    \<open>Payment_Reconciler\<close> (services/payment_reconciler.py), \<open>Payment_Dispatch\<close> and \<open>Payment_Lifecycle\<close>
    (api/payments.py, card_issuance), \<open>Credit_Memos\<close> (api/credit_memos.py); \<open>Payment_Ledger\<close> is the abstract
    contract of the payment routes, a ledger with at most one live payment per invoice, and the proof
    that every step of the routes is a sequence of its moves;
  \<^item> the procurement side: \<open>Procurement\<close> (models/procurement.py, services/requisition_service.py,
    services/intake_service.py, api/requisitions.py, api/intake.py, the pull of api/purchase_orders.py),
    \<open>Budgets\<close> (services/budget_service.py, api/budgets.py), \<open>Po_Matching\<close> (services/matching_rules.py,
    services/po_matching.py);
  \<^item> recurring spend: \<open>Recurring_Schedule\<close> (the calendar), \<open>Recurring\<close> and \<open>Recurring_Lifecycle\<close>
    (models/recurring_invoice.py, services/recurring_invoices.py, api/recurring.py);
  \<^item> the bank: \<open>Bank_Import\<close> (the cells of a statement, utils/dates.py) and \<open>Bank_Reconciliation\<close>
    (services/bank_reconciliation.py, api/bank_reconciliation.py): which payment a bank line is, and what is
    still outstanding;
  \<^item> the control plane: \<open>Billing_Period\<close> (services/billing/period.py, proration.py), \<open>Billing\<close>
    (services/billing/, api/billing_webhook.py).

  A table is the list of its rows in insertion order; a column is a field of a record; a route is a
  function from the database to an exception or a result with the next database. Where a handler commits
  more than once, or writes into a second database, the model returns the database it leaves beside the
  exception. Row locks make a handler atomic; what a handler reads before its lock is an argument of the
  part after the lock, so that interleavings are sequences of such parts (\<open>pay_step\<close>, \<open>credit_step\<close>,
  \<open>bill_step\<close>, \<open>proc_step\<close>, \<open>rec_step\<close>, \<open>bank_step\<close>, \<open>wf_move\<close>). In \<open>proc_step\<close> an unlocked edit or
  transition may act on a row read at any earlier time; in \<open>rec_step\<close> the edits of a template follow each
  other, and what overlapping ones lose is a finding of its own. The locale \<open>step_system\<close> of \<open>Prelude\<close> lifts an
  invariant each step keeps to every reachable state; \<open>money_gate\<close> of \<open>Approval_Chain\<close> is the contract the two approval gates share.

  Groups of lemmas: per theory, first what each operation does on every branch, then the invariant and
  that each operation keeps it, then the properties (numbered C1 on), each followed by a witness at
  concrete rows. Findings are theorems about the code as it is.

  Bounds and fuel: money columns are NUMERIC(15,2), so sums and products stay inside the 28 digits of
  the decimal context where a lemma says so; \<open>leading_zeros\<close> has the denominator's digits as fuel, which
  reach its first digit; \<open>walk_forward\<close> ends at the code's own 1200 months. No other loop needs fuel.

  Parameters: the processor, bank, ERP, FX, sanctions and billing adapters, the clock, fresh ids, the
  session of a request, the text of a number and the cells the csv reader yields; they are fields of the environment records.

  Not modelled: the web layer (routing, authentication, sessions), reads and reports, extraction and
  AI features, the vendor portal, notifications, the frontend, migrations and seeds. PROJECT.json lists
  every component with the reason.
\<close>

end
